(* ===== verification/Prelude.thy ===== *)
theory Prelude
  imports Main "HOL-Library.AList"
begin

text \<open>
  Shared vocabulary of the development: errors as values, the two sequencing
  combinators (pure results and results over a state), the order-preserving removal of
  duplicates that many list-merging routines of the program perform, and the collections of
  simplification rules the component theories extend.
\<close>

named_theorems result_simps \<open>unfolding rules of the sequencing combinators\<close>

section \<open>Errors as values\<close>

text \<open>
  The exceptions the program raises and catches. Messages are not modelled, except the
  status code and detail of an HTTP error, which the client sees, and the fault text of a
  remote call to supervisord, which the program examines.
\<close>

datatype py_error =
    ValueError
  | CommandError
  | RuntimeError
  | KeyError
  | TypeError
  | AttributeError
  | IndexError
  | OSError
  | RpcError string
  | HttpError nat string

type_synonym 'a result = "py_error + 'a"

definition res_bind :: "'a result \<Rightarrow> ('a \<Rightarrow> 'b result) \<Rightarrow> 'b result" where
  "res_bind r f = (case r of Inl e \<Rightarrow> Inl e | Inr x \<Rightarrow> f x)"

lemma res_bind_simps [simp]:
  "res_bind (Inl e) f = Inl e"
  "res_bind (Inr x) f = f x"
  by (simp_all add: res_bind_def)

lemma res_bind_Inr_iff:
  "res_bind r f = Inr y \<longleftrightarrow> (\<exists>x. r = Inr x \<and> f x = Inr y)"
  by (cases r) auto

text \<open>A list comprehension whose element expression may raise.\<close>

fun res_map :: "('a \<Rightarrow> 'b result) \<Rightarrow> 'a list \<Rightarrow> 'b list result" where
  "res_map f [] = Inr []"
| "res_map f (x # xs) =
     res_bind (f x) (\<lambda>y. res_bind (res_map f xs) (\<lambda>ys. Inr (y # ys)))"

lemma res_map_Inr_iff:
  "res_map f xs = Inr ys \<longleftrightarrow> list_all2 (\<lambda>x y. f x = Inr y) xs ys"
proof (induction xs arbitrary: ys)
  case Nil
  then show ?case by auto
next
  case (Cons x xs)
  then show ?case by (cases ys) (auto simp: res_bind_Inr_iff)
qed

lemma res_map_length: "res_map f xs = Inr ys \<Longrightarrow> length ys = length xs"
  by (auto simp: res_map_Inr_iff dest: list_all2_lengthD)

lemma res_map_Inr [simp]: "res_map (\<lambda>x. Inr (f x)) xs = Inr (map f xs)"
  by (induction xs) auto

text \<open>
  \<open>('s, 'a) action\<close>: a method body that reads and writes a state and may raise; the state
  changes made before the exception are kept.
\<close>

type_synonym ('s, 'a) action = "'s \<Rightarrow> 'a result \<times> 's"

definition ret :: "'a \<Rightarrow> ('s, 'a) action" where
  "ret x = (\<lambda>s. (Inr x, s))"

definition throw :: "py_error \<Rightarrow> ('s, 'a) action" where
  "throw e = (\<lambda>s. (Inl e, s))"

definition andthen :: "('s, 'a) action \<Rightarrow> ('a \<Rightarrow> ('s, 'b) action) \<Rightarrow> ('s, 'b) action" where
  "andthen m f = (\<lambda>s. case m s of (Inl e, s') \<Rightarrow> (Inl e, s') | (Inr x, s') \<Rightarrow> f x s')"

definition lift_result :: "'a result \<Rightarrow> ('s, 'a) action" where
  "lift_result r = (\<lambda>s. (r, s))"

text \<open>A \<open>try\<close>/\<open>except\<close> that catches the errors satisfying the predicate.\<close>

definition catch :: "(py_error \<Rightarrow> bool) \<Rightarrow> ('s, 'a) action \<Rightarrow> ('s, 'a) action \<Rightarrow> ('s, 'a) action" where
  "catch p m h = (\<lambda>s. case m s of
     (Inl e, s') \<Rightarrow> (if p e then h s' else (Inl e, s')) | (Inr x, s') \<Rightarrow> (Inr x, s'))"

lemma andthen_cases:
  assumes "andthen m f s = (r, s')"
  obtains (err) e where "m s = (Inl e, s')" "r = Inl e"
  | (ok) x s1 where "m s = (Inr x, s1)" "f x s1 = (r, s')"
  using assms by (auto simp: andthen_def split: prod.splits sum.splits)

lemmas action_defs [result_simps] = ret_def throw_def andthen_def lift_result_def catch_def

text \<open>A \<open>for\<close> loop collecting the results of its body.\<close>

fun action_map :: "('a \<Rightarrow> ('s, 'b) action) \<Rightarrow> 'a list \<Rightarrow> ('s, 'b list) action" where
  "action_map f [] = ret []"
| "action_map f (x # xs) =
     andthen (f x) (\<lambda>y. andthen (action_map f xs) (\<lambda>ys. ret (y # ys)))"

section \<open>Removal of duplicates that keeps the first occurrence\<close>

fun uniq :: "'a list \<Rightarrow> 'a list \<Rightarrow> 'a list" where
  "uniq seen [] = []"
| "uniq seen (x # xs) =
     (if x \<in> set seen then uniq seen xs else x # uniq (seen @ [x]) xs)"

lemma set_uniq [simp]: "set (uniq seen xs) = set xs - set seen"
  by (induction seen xs rule: uniq.induct) auto

lemma distinct_uniq [simp]: "distinct (uniq seen xs)"
  by (induction seen xs rule: uniq.induct) auto

lemma uniq_id: "distinct xs \<Longrightarrow> set xs \<inter> set seen = {} \<Longrightarrow> uniq seen xs = xs"
  by (induction seen xs rule: uniq.induct) auto

lemma uniq_idem [simp]: "uniq [] (uniq [] xs) = uniq [] xs"
  by (rule uniq_id) auto

lemma uniq_cong_set: "set s = set t \<Longrightarrow> uniq s xs = uniq t xs"
  by (induction s xs arbitrary: t rule: uniq.induct) auto

lemma uniq_append: "uniq s (xs @ ys) = uniq s xs @ uniq (s @ uniq s xs) ys"
  by (induction s xs rule: uniq.induct) auto

lemma uniq_snoc_absorb: "x \<in> set xs \<Longrightarrow> uniq [] (xs @ [x]) = uniq [] xs"
  by (simp add: uniq_append)

lemma uniq_absent: "x \<notin> set xs \<Longrightarrow> uniq (s @ [x]) xs = uniq s xs"
proof (induction xs arbitrary: s)
  case (Cons y ys)
  have "uniq (s @ [x, y]) ys = uniq ((s @ [y]) @ [x]) ys"
    by (rule uniq_cong_set) auto
  with Cons.prems Cons.IH [of s] Cons.IH [of "s @ [y]"] show ?case by auto
qed simp

lemma uniq_filter: "uniq s (filter P xs) = filter P (uniq s xs)"
  by (induction s xs rule: uniq.induct) (auto simp: uniq_absent)

text \<open>The Python loop with a result list and a \<open>seen\<close> set computes \<open>uniq\<close>.\<close>

fun append_unseen :: "'a list \<times> 'a list \<Rightarrow> 'a \<Rightarrow> 'a list \<times> 'a list" where
  "append_unseen (out, seen) x = (if x \<in> set seen then (out, seen) else (out @ [x], x # seen))"

lemma fold_append_unseen:
  "set seen = set out \<Longrightarrow> fst (foldl append_unseen (out, seen) xs) = out @ uniq out xs"
proof (induction xs arbitrary: out seen)
  case (Cons x xs)
  then show ?case by (cases "x \<in> set seen") auto
qed simp

end
