(* ===== verification/Py_Str.thy ===== *)
theory Py_Str
  imports Prelude "HOL-Library.Sublist"
begin

text \<open>
  The Python \<open>str\<close> and \<open>int\<close> operations the program uses. A string is a list of code
  points up to 255 (Isabelle's \<open>char\<close>), and the operations below follow CPython's tables on
  that range; code points above 255 are outside the model.
\<close>

section \<open>Characters\<close>

definition code :: "char \<Rightarrow> nat" where
  "code c = of_char c"

lemma code_inject [simp]: "code c = code d \<longleftrightarrow> c = d"
  by (simp add: code_def)

text \<open>\<open>str.isspace\<close> of one character.\<close>

definition is_space :: "char \<Rightarrow> bool" where
  "is_space c = (let n = code c in 9 \<le> n \<and> n \<le> 13 \<or> 28 \<le> n \<and> n \<le> 32 \<or> n = 133 \<or> n = 160)"

text \<open>The line boundaries of \<open>str.splitlines\<close>.\<close>

definition is_linebreak :: "char \<Rightarrow> bool" where
  "is_linebreak c = (let n = code c in 10 \<le> n \<and> n \<le> 13 \<or> 28 \<le> n \<and> n \<le> 30 \<or> n = 133)"

definition LF :: char where "LF = char_of (10 :: nat)"

definition CR :: char where "CR = char_of (13 :: nat)"

lemma code_LF [simp]: "code LF = 10" and code_CR [simp]: "code CR = 13"
  by (simp_all add: LF_def CR_def code_def)

lemma CR_not_LF [simp]: "CR \<noteq> LF" "LF \<noteq> CR"
  by (simp_all flip: code_inject)

lemma linebreak_space: "is_linebreak c \<Longrightarrow> is_space c"
  by (auto simp: is_linebreak_def is_space_def Let_def)

lemma LF_linebreak [simp]: "is_linebreak LF" and CR_linebreak [simp]: "is_linebreak CR"
  and LF_space [simp]: "is_space LF" and CR_space [simp]: "is_space CR"
  by (simp_all add: is_linebreak_def is_space_def)

definition is_ascii_digit :: "char \<Rightarrow> bool" where
  "is_ascii_digit c = (48 \<le> code c \<and> code c \<le> 57)"

text \<open>\<open>str.isdigit\<close> also accepts the superscript digits.\<close>

definition is_digit_char :: "char \<Rightarrow> bool" where
  "is_digit_char c = (is_ascii_digit c \<or> code c \<in> {178, 179, 185})"

definition is_alpha :: "char \<Rightarrow> bool" where
  "is_alpha c = (65 \<le> code c \<and> code c \<le> 90 \<or> 97 \<le> code c \<and> code c \<le> 122)"

definition is_alnum :: "char \<Rightarrow> bool" where
  "is_alnum c = (is_alpha c \<or> is_ascii_digit c)"

definition lower_char :: "char \<Rightarrow> char" where
  "lower_char c = (let n = code c in
     if 65 \<le> n \<and> n \<le> 90 \<or> 192 \<le> n \<and> n \<le> 222 \<and> n \<noteq> 215 then char_of (n + 32) else c)"

definition lower :: "string \<Rightarrow> string" where
  "lower s = map lower_char s"

lemma code_char_of: "n < 256 \<Longrightarrow> code (char_of n) = n"
  by (simp add: code_def)

lemma lower_char_idem [simp]: "lower_char (lower_char c) = lower_char c"
  by (auto simp: lower_char_def Let_def code_char_of)

lemma lower_idem [simp]: "lower (lower s) = lower s"
  by (simp add: lower_def comp_def)

section \<open>Stripping\<close>

definition lstrip_if :: "(char \<Rightarrow> bool) \<Rightarrow> string \<Rightarrow> string" where
  "lstrip_if p s = dropWhile p s"

definition rstrip_if :: "(char \<Rightarrow> bool) \<Rightarrow> string \<Rightarrow> string" where
  "rstrip_if p s = rev (dropWhile p (rev s))"

definition strip_if :: "(char \<Rightarrow> bool) \<Rightarrow> string \<Rightarrow> string" where
  "strip_if p s = rstrip_if p (lstrip_if p s)"

definition strip :: "string \<Rightarrow> string" where
  "strip s = strip_if is_space s"

definition rstrip_char :: "char \<Rightarrow> string \<Rightarrow> string" where
  "rstrip_char c s = rstrip_if (\<lambda>x. x = c) s"

definition lstrip_char :: "char \<Rightarrow> string \<Rightarrow> string" where
  "lstrip_char c s = lstrip_if (\<lambda>x. x = c) s"

lemma rstrip_if_snoc [simp]:
  "rstrip_if p (xs @ [x]) = (if p x then rstrip_if p xs else xs @ [x])"
  by (simp add: rstrip_if_def)

lemma rstrip_if_Nil [simp]: "rstrip_if p [] = []"
  by (simp add: rstrip_if_def)

lemma rstrip_if_last: "rstrip_if p s \<noteq> [] \<Longrightarrow> \<not> p (last (rstrip_if p s))"
  by (induction s rule: rev_induct) (auto split: if_splits)

lemma rstrip_if_idle: "s \<noteq> [] \<Longrightarrow> \<not> p (last s) \<Longrightarrow> rstrip_if p s = s"
  by (cases s rule: rev_cases) auto

lemma rstrip_if_idem [simp]: "rstrip_if p (rstrip_if p s) = rstrip_if p s"
  by (induction s rule: rev_induct) auto

lemma rstrip_if_prefix: "prefix (rstrip_if p s) s"
  by (induction s rule: rev_induct) auto

lemma rstrip_if_hd: "rstrip_if p s \<noteq> [] \<Longrightarrow> hd (rstrip_if p s) = hd s"
  using rstrip_if_prefix [of p s] by (metis hd_append2 prefix_def)

lemma set_strip_if: "set (strip_if p s) \<subseteq> set s"
proof
  fix c assume "c \<in> set (strip_if p s)"
  then have "c \<in> set (lstrip_if p s)"
    using rstrip_if_prefix [of p "lstrip_if p s"] set_mono_prefix
    unfolding strip_if_def by blast
  then show "c \<in> set s" by (auto simp: lstrip_if_def dest: set_dropWhileD)
qed

lemma lstrip_if_hd: "lstrip_if p s \<noteq> [] \<Longrightarrow> \<not> p (hd (lstrip_if p s))"
  by (auto simp: lstrip_if_def hd_dropWhile)

lemma strip_if_ends:
  assumes "strip_if p s \<noteq> []"
  shows "\<not> p (hd (strip_if p s))" and "\<not> p (last (strip_if p s))"
proof -
  from assms have "lstrip_if p s \<noteq> []" by (auto simp: strip_if_def)
  with assms show "\<not> p (hd (strip_if p s))"
    using lstrip_if_hd [of p s] by (simp add: strip_if_def rstrip_if_hd)
  from assms show "\<not> p (last (strip_if p s))"
    by (simp add: strip_if_def rstrip_if_last)
qed

lemma strip_if_idle: "s = [] \<or> \<not> p (hd s) \<and> \<not> p (last s) \<Longrightarrow> strip_if p s = s"
  by (cases s) (auto simp: strip_if_def lstrip_if_def rstrip_if_idle)

lemma strip_if_idem [simp]: "strip_if p (strip_if p s) = strip_if p s"
  using strip_if_ends [of p s] strip_if_idle [of "strip_if p s" p] by blast

lemma strip_idem [simp]: "strip (strip s) = strip s"
  by (simp add: strip_def)

lemma strip_Nil [simp]: "strip [] = []"
  by (simp add: strip_def strip_if_def lstrip_if_def)

lemma strip_no_space: "\<forall>c \<in> set s. \<not> is_space c \<Longrightarrow> strip s = s"
  unfolding strip_def by (rule strip_if_idle) (cases "s = []", auto)

section \<open>Splitting and joining\<close>

text \<open>\<open>s.split(c)\<close> for a one-character separator.\<close>

fun split_on :: "char \<Rightarrow> string \<Rightarrow> string list" where
  "split_on c [] = [[]]"
| "split_on c (x # xs) =
     (if x = c then [] # split_on c xs
      else case split_on c xs of [] \<Rightarrow> [[x]] | y # ys \<Rightarrow> (x # y) # ys)"

fun join :: "string \<Rightarrow> string list \<Rightarrow> string" where
  "join sep [] = []"
| "join sep [x] = x"
| "join sep (x # y # ys) = x @ sep @ join sep (y # ys)"

lemma split_on_nonempty [simp]: "split_on c s \<noteq> []"
  by (induction s) (auto split: list.splits)

lemma split_on_no_sep: "c \<notin> set s \<Longrightarrow> split_on c s = [s]"
  by (induction s) auto

lemma split_on_append: "c \<notin> set x \<Longrightarrow> split_on c (x @ c # ys) = x # split_on c ys"
  by (induction x) auto

lemma split_on_join:
  "xs \<noteq> [] \<Longrightarrow> \<forall>x \<in> set xs. c \<notin> set x \<Longrightarrow> split_on c (join [c] xs) = xs"
proof (induction "[c]" xs rule: join.induct)
  case (2 x)
  then show ?case by (simp add: split_on_no_sep)
next
  case (3 x y ys)
  then show ?case by (simp add: split_on_append)
qed simp

text \<open>\<open>s.split()\<close>: the maximal runs of non-space characters.\<close>

function split_ws :: "string \<Rightarrow> string list" where
  "split_ws s = (let t = dropWhile is_space s in
     if t = [] then []
     else takeWhile (\<lambda>c. \<not> is_space c) t # split_ws (dropWhile (\<lambda>c. \<not> is_space c) t))"
  by pat_completeness auto
termination
proof (relation "measure length", goal_cases)
  case (2 s t)
  then have t: "t = dropWhile is_space s" and "t \<noteq> []" by auto
  obtain c cs where cs: "t = c # cs" using \<open>t \<noteq> []\<close> by (meson neq_Nil_conv)
  have "dropWhile is_space s = c # cs" using t cs by simp
  then have "\<not> is_space c" by (metis dropWhile_eq_Cons_conv)
  moreover have "length t \<le> length s" unfolding t by (rule length_dropWhile_le)
  moreover have "length (dropWhile (\<lambda>c. \<not> is_space c) cs) \<le> length cs"
    by (rule length_dropWhile_le)
  ultimately show ?case by (simp add: cs)
qed simp

declare split_ws.simps [simp del]

lemma split_ws_Nil [simp]: "split_ws [] = []"
  by (simp add: split_ws.simps)

lemma split_ws_word:
  assumes "w \<noteq> []" "\<forall>c \<in> set w. \<not> is_space c"
  shows "split_ws w = [w]"
proof -
  have "dropWhile is_space w = w" using assms by (cases w) auto
  moreover have "takeWhile (\<lambda>c. \<not> is_space c) w = w"
    using assms by (simp add: takeWhile_eq_all_conv)
  moreover have dw: "dropWhile (\<lambda>c. \<not> is_space c) w = []"
    using assms by (simp add: dropWhile_eq_Nil_conv)
  ultimately show ?thesis using assms(1)
    by (subst split_ws.simps) (simp add: Let_def split_ws_Nil del: dropWhile_eq_Nil_conv)
qed

lemma split_ws_cons:
  assumes "w \<noteq> []" "\<forall>c \<in> set w. \<not> is_space c" "is_space b"
  shows "split_ws (w @ b # rest) = w # split_ws rest"
proof -
  have "split_ws (b # rest) = split_ws rest"
    using assms(3) by (subst (1 2) split_ws.simps) simp
  moreover have "dropWhile is_space (w @ b # rest) = w @ b # rest"
    using assms by (cases w) auto
  moreover have "takeWhile (\<lambda>c. \<not> is_space c) (w @ b # rest) = w"
    "dropWhile (\<lambda>c. \<not> is_space c) (w @ b # rest) = b # rest"
    using assms by (auto simp: takeWhile_append2 dropWhile_append2)
  ultimately show ?thesis by (subst split_ws.simps) (simp add: Let_def)
qed

text \<open>\<open>s.split(c, 1)\<close> and \<open>s.partition(c)\<close>: the part before the first separator and,
  when there is one, the part after it.\<close>

definition cut :: "char \<Rightarrow> string \<Rightarrow> string \<times> string option" where
  "cut c s = (takeWhile (\<lambda>x. x \<noteq> c) s,
     if c \<in> set s then Some (tl (dropWhile (\<lambda>x. x \<noteq> c) s)) else None)"

lemma cut_append [simp]: "c \<notin> set k \<Longrightarrow> cut c (k @ c # v) = (k, Some v)"
proof -
  assume "c \<notin> set k"
  then have "takeWhile (\<lambda>x. x \<noteq> c) (k @ c # v) = k \<and> dropWhile (\<lambda>x. x \<noteq> c) (k @ c # v) = c # v"
    by (induction k) auto
  then show ?thesis by (simp add: cut_def)
qed

text \<open>\<open>str.splitlines()\<close>; the accumulator is the current line, reversed.\<close>

fun splitlines_acc :: "string \<Rightarrow> string \<Rightarrow> string list" where
  "splitlines_acc cur [] = (if cur = [] then [] else [rev cur])"
| "splitlines_acc cur (c # cs) =
     (if c = CR then
        (case cs of [] \<Rightarrow> [rev cur]
         | d # ds \<Rightarrow> rev cur # splitlines_acc [] (if d = LF then ds else d # ds))
      else if is_linebreak c then rev cur # splitlines_acc [] cs
      else splitlines_acc (c # cur) cs)"

definition splitlines :: "string \<Rightarrow> string list" where
  "splitlines s = splitlines_acc [] s"

text \<open>Text-mode reading translates every line ending to a newline.\<close>

fun universal_newlines :: "string \<Rightarrow> string" where
  "universal_newlines [] = []"
| "universal_newlines (c # cs) =
     (if c = CR then
        LF # (case cs of [] \<Rightarrow> [] | d # ds \<Rightarrow> universal_newlines (if d = LF then ds else d # ds))
      else c # universal_newlines cs)"

lemma universal_newlines_id [simp]: "CR \<notin> set s \<Longrightarrow> universal_newlines s = s"
  by (induction s) auto

definition no_breaks :: "string \<Rightarrow> bool" where
  "no_breaks l \<longleftrightarrow> (\<forall>c \<in> set l. \<not> is_linebreak c)"

lemma splitlines_acc_line:
  "no_breaks l \<Longrightarrow> splitlines_acc cur (l @ LF # rest) = (rev cur @ l) # splitlines_acc [] rest"
proof (induction l arbitrary: cur)
  case Nil
  then show ?case by simp
next
  case (Cons c cs)
  then have "c \<noteq> CR" "\<not> is_linebreak c" by (auto simp: no_breaks_def)
  moreover from Cons.prems have "no_breaks cs" by (simp add: no_breaks_def)
  ultimately show ?case by (simp add: Cons.IH)
qed

lemma splitlines_acc_last:
  "no_breaks l \<Longrightarrow> splitlines_acc cur l = (if cur = [] \<and> l = [] then [] else [rev cur @ l])"
proof (induction l arbitrary: cur)
  case (Cons c cs)
  then have "c \<noteq> CR" "\<not> is_linebreak c" "no_breaks cs" by (auto simp: no_breaks_def)
  then show ?case by (simp add: Cons.IH)
qed simp

lemma splitlines_join_lines:
  "\<forall>l \<in> set ls. no_breaks l \<Longrightarrow> ls \<noteq> [] \<Longrightarrow> splitlines (join [LF] ls @ [LF]) = ls"
proof (induction "[LF]" ls rule: join.induct)
  case (2 x)
  then show ?case by (simp add: splitlines_def splitlines_acc_line)
next
  case (3 x y ys)
  then show ?case by (simp add: splitlines_def splitlines_acc_line)
qed simp

lemma splitlines_join:
  "\<forall>l \<in> set ls. no_breaks l \<and> l \<noteq> [] \<Longrightarrow> splitlines (join [LF] ls) = ls"
proof (induction "[LF]" ls rule: join.induct)
  case (2 x)
  then show ?case by (simp add: splitlines_def splitlines_acc_last)
next
  case (3 x y ys)
  then show ?case by (simp add: splitlines_def splitlines_acc_line)
qed (simp add: splitlines_def)

lemma splitlines_acc_no_breaks:
  "no_breaks cur \<Longrightarrow> l \<in> set (splitlines_acc cur s) \<Longrightarrow> no_breaks l"
proof (induction "length s" arbitrary: cur s l rule: less_induct)
  case less
  have cur: "no_breaks (rev cur)" using less.prems(1) by (simp add: no_breaks_def)
  have nil: "no_breaks []" by (simp add: no_breaks_def)
  show ?case
  proof (cases s)
    case Nil
    with less.prems cur show ?thesis by (simp split: if_splits)
  next
    case s: (Cons c cs)
    have "l = rev cur \<or> (\<exists>cur' s'. length s' < length s \<and> no_breaks cur' \<and> l \<in> set (splitlines_acc cur' s'))"
    proof (cases "c = CR")
      case True
      have "l = rev cur \<or> l \<in> set (splitlines_acc [] (tl cs)) \<or> l \<in> set (splitlines_acc [] cs)"
        using less.prems(2) unfolding s True
        by (cases cs) (simp_all split: if_splits del: splitlines_acc.simps add: splitlines_acc.simps(2) [of _ CR], blast+)
      moreover have "length (tl cs) < length s" "length cs < length s" by (simp_all add: s)
      ultimately show ?thesis using nil by blast
    next
      case False
      show ?thesis
      proof (cases "is_linebreak c")
        case True
        with False less.prems(2) have "l = rev cur \<or> l \<in> set (splitlines_acc [] cs)" by (simp add: s)
        moreover have "length cs < length s" by (simp add: s)
        ultimately show ?thesis using nil by blast
      next
        case nb: False
        with False less.prems(2) have "l \<in> set (splitlines_acc (c # cur) cs)" by (simp add: s)
        moreover have "no_breaks (c # cur)" using nb less.prems(1) by (simp add: no_breaks_def)
        moreover have "length cs < length s" by (simp add: s)
        ultimately show ?thesis by blast
      qed
    qed
    with less.hyps cur show ?thesis by blast
  qed
qed

lemma splitlines_no_breaks: "l \<in> set (splitlines s) \<Longrightarrow> no_breaks l"
  unfolding splitlines_def by (rule splitlines_acc_no_breaks [of "[]"]) (simp_all add: no_breaks_def)

lemma strip_no_breaks: "no_breaks l \<Longrightarrow> no_breaks (strip l)"
  using set_strip_if [of is_space l] by (auto simp: no_breaks_def strip_def)

lemma set_join: "set (join sep ls) \<subseteq> \<Union> (set ` set ls) \<union> set sep"
  by (induction sep ls rule: join.induct) auto

section \<open>Searching and replacing\<close>

definition starts_with :: "string \<Rightarrow> string \<Rightarrow> bool" where
  "starts_with p s = prefix p s"

definition contains :: "string \<Rightarrow> string \<Rightarrow> bool" where
  "contains p s = sublist p s"

text \<open>\<open>s.replace(old, new)\<close> for a non-empty \<open>old\<close>, leftmost match first.\<close>

function replace_all :: "string \<Rightarrow> string \<Rightarrow> string \<Rightarrow> string" where
  "replace_all old new s =
     (if old = [] then s
      else case s of [] \<Rightarrow> []
        | c # cs \<Rightarrow> if prefix old s then new @ replace_all old new (drop (length old) s)
                   else c # replace_all old new cs)"
  by pat_completeness auto
termination
  by (relation "measure (\<lambda>(old, new, s). length s)") auto

declare replace_all.simps [simp del]

lemma replace_all_absent: "old \<noteq> [] \<Longrightarrow> \<not> sublist old s \<Longrightarrow> replace_all old new s = s"
proof (induction s)
  case Nil
  then show ?case by (simp add: replace_all.simps)
next
  case (Cons c cs)
  then have "\<not> prefix old (c # cs)" "\<not> sublist old cs"
    by (auto simp: sublist_Cons_right)
  with Cons show ?case by (subst replace_all.simps) simp
qed

section \<open>Decimal and hexadecimal numbers\<close>

definition digit_char :: "nat \<Rightarrow> char" where
  "digit_char d = char_of (if d < 10 then 48 + d else 87 + d)"

definition digit_value :: "char \<Rightarrow> nat option" where
  "digit_value c = (let n = code c in
     if 48 \<le> n \<and> n \<le> 57 then Some (n - 48)
     else if 97 \<le> n \<and> n \<le> 102 then Some (n - 87)
     else if 65 \<le> n \<and> n \<le> 70 then Some (n - 55) else None)"

lemma digit_value_char [simp]: "d < 16 \<Longrightarrow> digit_value (digit_char d) = Some d"
  by (auto simp: digit_value_def digit_char_def Let_def code_char_of)

lemma code_digit_char: "d < 16 \<Longrightarrow> code (digit_char d) = (if d < 10 then 48 + d else 87 + d)"
  by (simp add: digit_char_def code_char_of)

fun show_base :: "nat \<Rightarrow> nat \<Rightarrow> string" where
  "show_base b n =
     (if b < 2 \<or> n < b then [digit_char n] else show_base b (n div b) @ [digit_char (n mod b)])"

declare show_base.simps [simp del]

definition show_nat :: "nat \<Rightarrow> string" where
  "show_nat n = show_base 10 n"

definition show_hex :: "nat \<Rightarrow> string" where
  "show_hex n = show_base 16 n"

definition show_int :: "int \<Rightarrow> string" where
  "show_int i = (if i < 0 then CHR ''-'' # show_nat (nat (- i)) else show_nat (nat i))"

text \<open>Value of a digit string in a base, the digits all below the base.\<close>

fun parse_base :: "nat \<Rightarrow> nat \<Rightarrow> string \<Rightarrow> nat option" where
  "parse_base b acc [] = Some acc"
| "parse_base b acc (c # cs) =
     (case digit_value c of None \<Rightarrow> None
      | Some d \<Rightarrow> if d < b then parse_base b (acc * b + d) cs else None)"

lemma parse_base_append:
  "parse_base b acc (xs @ ys) =
     (case parse_base b acc xs of None \<Rightarrow> None | Some a \<Rightarrow> parse_base b a ys)"
  by (induction b acc xs rule: parse_base.induct) (auto split: option.splits)

lemma parse_show_base:
  assumes "2 \<le> b" "b \<le> 16"
  shows "parse_base b 0 (show_base b n) = Some n"
  using assms
proof (induction b n rule: show_base.induct)
  case (1 b n)
  show ?case
  proof (cases "n < b")
    case True
    with 1 show ?thesis by (subst show_base.simps) simp
  next
    case False
    with 1 have "parse_base b 0 (show_base b (n div b)) = Some (n div b)" by simp
    moreover from 1 have "n mod b < b" by simp
    moreover have "digit_value (digit_char (n mod b)) = Some (n mod b)"
      using \<open>n mod b < b\<close> \<open>b \<le> 16\<close> by (intro digit_value_char) linarith
    moreover have "n div b * b + n mod b = n" by simp
    ultimately show ?thesis using False 1
      by (subst show_base.simps) (simp add: parse_base_append del: digit_value_char)
  qed
qed

lemma show_base_nonempty [simp]: "show_base b n \<noteq> []"
  by (subst show_base.simps) simp

lemma show_base_digits:
  assumes "2 \<le> b" "b \<le> 16"
  shows "\<forall>c \<in> set (show_base b n). \<exists>d < b. c = digit_char d"
  using assms
proof (induction b n rule: show_base.induct)
  case (1 b n)
  show ?case
  proof (cases "n < b")
    case True
    with 1 show ?thesis by (subst show_base.simps) auto
  next
    case False
    with 1 have "\<forall>c \<in> set (show_base b (n div b)). \<exists>d < b. c = digit_char d" by simp
    moreover from 1 have "\<exists>d < b. digit_char (n mod b) = digit_char d"
      by (intro exI [of _ "n mod b"]) simp
    ultimately show ?thesis using False 1 by (subst show_base.simps) simp
  qed
qed

lemma show_nat_ascii: "c \<in> set (show_nat n) \<Longrightarrow> is_ascii_digit c"
  using show_base_digits [of 10 n]
  by (auto simp: show_nat_def is_ascii_digit_def code_digit_char)

lemma show_base_hd:
  assumes "2 \<le> b" "b \<le> 16" "0 < n"
  shows "hd (show_base b n) \<noteq> CHR ''0''"
  using assms
proof (induction b n rule: show_base.induct)
  case (1 b n)
  show ?case
  proof (cases "n < b")
    case True
    have "code (digit_char n) \<noteq> 48"
      using True 1 by (auto simp: code_digit_char)
    moreover have "code CHR ''0'' = 48" by (simp add: code_def)
    ultimately have "digit_char n \<noteq> CHR ''0''" by metis
    with True 1 show ?thesis by (subst show_base.simps) auto
  next
    case False
    with 1 have "hd (show_base b (n div b)) \<noteq> CHR ''0''" by (simp add: div_greater_zero_iff)
    with False 1 show ?thesis by (subst show_base.simps) simp
  qed
qed

lemma show_base_length:
  assumes "2 \<le> b" "n < b ^ k" "0 < k"
  shows "length (show_base b n) \<le> k"
  using assms
proof (induction k arbitrary: n)
  case (Suc k)
  show ?case
  proof (cases "n < b")
    case True
    with Suc show ?thesis by (subst show_base.simps) simp
  next
    case False
    with Suc have "0 < k" by (cases k) auto
    moreover from Suc have "n div b < b ^ k"
      by (simp add: less_mult_imp_div_less mult.commute)
    ultimately show ?thesis using Suc False by (subst show_base.simps) simp
  qed
qed simp

text \<open>
  \<open>int(s)\<close>: surrounding white space, an optional sign, and digits with single underscores
  between them. \<open>int(s, 0)\<close> adds the base prefixes and forbids leading zeros.
\<close>

fun drop_underscores :: "string \<Rightarrow> string option" where
  "drop_underscores [] = Some []"
| "drop_underscores [c] = (if c = CHR ''_'' then None else Some [c])"
| "drop_underscores (c # d # cs) =
     (if c = CHR ''_'' then (if d = CHR ''_'' then None else drop_underscores (d # cs))
      else map_option (\<lambda>r. c # r) (drop_underscores (d # cs)))"

definition digits_value :: "nat \<Rightarrow> string \<Rightarrow> nat option" where
  "digits_value b s =
     (if s = [] \<or> hd s = CHR ''_'' then None
      else case drop_underscores s of None \<Rightarrow> None | Some ds \<Rightarrow> parse_base b 0 ds)"

definition split_sign :: "string \<Rightarrow> bool \<times> string" where
  "split_sign s = (case s of [] \<Rightarrow> (False, [])
     | c # cs \<Rightarrow> if c = CHR ''-'' then (True, cs) else if c = CHR ''+'' then (False, cs) else (False, s))"

definition signed :: "bool \<Rightarrow> nat \<Rightarrow> int" where
  "signed neg n = (if neg then - int n else int n)"

definition py_int :: "string \<Rightarrow> int option" where
  "py_int s = (let (neg, ds) = split_sign (strip s) in map_option (signed neg) (digits_value 10 ds))"

definition base_prefix :: "string \<Rightarrow> nat option" where
  "base_prefix s = (case s of z # x # _ \<Rightarrow>
     (if z \<noteq> CHR ''0'' then None
      else if x \<in> {CHR ''x'', CHR ''X''} then Some 16
      else if x \<in> {CHR ''o'', CHR ''O''} then Some 8
      else if x \<in> {CHR ''b'', CHR ''B''} then Some 2 else None)
     | _ \<Rightarrow> None)"

definition py_int0 :: "string \<Rightarrow> int option" where
  "py_int0 s = (let (neg, ds) = split_sign (strip s) in
     map_option (signed neg)
       (case base_prefix ds of
          Some b \<Rightarrow> (let body = drop 2 ds;
              body' = (if body \<noteq> [] \<and> hd body = CHR ''_'' then tl body else body)
            in digits_value b body')
        | None \<Rightarrow> (case digits_value 10 ds of
            Some n \<Rightarrow> if n \<noteq> 0 \<and> hd ds = CHR ''0'' then None else Some n
          | None \<Rightarrow> None)))"

text \<open>Zero padding of a printed number, as in \<open>f'{n:0{w}x}'\<close> with \<open>w \<ge> 0\<close>.\<close>

definition zero_pad :: "nat \<Rightarrow> string \<Rightarrow> string" where
  "zero_pad w s = replicate (w - length s) CHR ''0'' @ s"

end
