(* ===== verification/Json.thy ===== *)
theory Json
  imports Py_Str
begin

text \<open>
  JSON and YAML documents as the program holds them: plain Python values with string-keyed
  dictionaries. A dictionary is an association list in insertion order; assigning an existing
  key replaces its value in place, a new key is appended (\<open>AList.update\<close>).
\<close>

datatype json =
    JNull
  | JBool bool
  | JInt int
  | JStr string
  | JList "json list"
  | JDict "(string \<times> json) list"

fun is_dict :: "json \<Rightarrow> bool" where
  "is_dict (JDict _) = True"
| "is_dict _ = False"

fun is_str :: "json \<Rightarrow> bool" where
  "is_str (JStr _) = True"
| "is_str _ = False"

fun entries :: "json \<Rightarrow> (string \<times> json) list" where
  "entries (JDict kvs) = kvs"
| "entries _ = []"

fun items_of :: "json \<Rightarrow> json list" where
  "items_of (JList xs) = xs"
| "items_of _ = []"

text \<open>\<open>document.get(key)\<close>.\<close>

definition json_get :: "json \<Rightarrow> string \<Rightarrow> json option" where
  "json_get j k = map_of (entries j) k"

text \<open>Python's truth value.\<close>

fun truthy :: "json \<Rightarrow> bool" where
  "truthy JNull = False"
| "truthy (JBool b) = b"
| "truthy (JInt i) = (i \<noteq> 0)"
| "truthy (JStr s) = (s \<noteq> [])"
| "truthy (JList xs) = (xs \<noteq> [])"
| "truthy (JDict kvs) = (kvs \<noteq> [])"

fun strings_in :: "json list \<Rightarrow> string list" where
  "strings_in [] = []"
| "strings_in (JStr s # xs) = s # strings_in xs"
| "strings_in (_ # xs) = strings_in xs"

lemma strings_in_map [simp]: "strings_in (map JStr xs) = xs"
  by (induction xs) auto

text \<open>Nesting depth, for inductions that follow a document.\<close>

lemma json_induct [case_names JNull JBool JInt JStr JList JDict]:
  assumes "P JNull" "\<And>b. P (JBool b)" "\<And>i. P (JInt i)" "\<And>s. P (JStr s)"
    and "\<And>xs. (\<And>x. x \<in> set xs \<Longrightarrow> P x) \<Longrightarrow> P (JList xs)"
    and "\<And>kvs. (\<And>k v. (k, v) \<in> set kvs \<Longrightarrow> P v) \<Longrightarrow> P (JDict kvs)"
  shows "P j"
proof (induction j)
  case (JDict kvs)
  have "P v" if "(k, v) \<in> set kvs" for k v
    by (rule JDict [OF that, of v]) simp
  then show ?case by (rule assms(6))
qed (use assms in auto)

end
