(* ===== verification/Secrets.thy ===== *)
theory Secrets
  imports Json
begin

text \<open>
  \<open>services/secrets.py\<close>: which configuration keys hold secrets, the redaction of a
  structured document, the masking of rendered text and command output, and the collection of
  the secret values a configuration contains. The regular expressions are written out as
  scanners. The main result is that masked text contains none of the known secrets.
\<close>

section \<open>Secret keys\<close>

text \<open>\<open>SECRET_KEY_RE.search\<close>, case-insensitive.\<close>

definition secret_words :: "string list" where
  "secret_words = [''password'', ''passphrase'', ''passwd'', ''token'', ''secret'',
     ''private_key'', ''private-key'', ''privatekey'',
     ''cert_pass'', ''cert-pass'', ''certpass'', ''admin_password'']"

definition secret_key_match :: "string \<Rightarrow> bool" where
  "secret_key_match key = list_ex (\<lambda>w. contains w (lower key)) secret_words"

definition non_secret_keys :: "string list" where
  "non_secret_keys = [''secret_dir'', ''secrets_dir'', ''secret_path'', ''secrets_path'', ''secret'']"

definition is_secret_key :: "string \<Rightarrow> bool" where
  "is_secret_key key = (if lower key \<in> set non_secret_keys then False else secret_key_match key)"

definition is_secret_key_in_text :: "string \<Rightarrow> bool" where
  "is_secret_key_in_text key =
     (if lower key \<in> set (non_secret_keys @ [''camouflage_secret'']) then False
      else secret_key_match key)"

section \<open>Secret references\<close>

definition stars :: string where
  "stars = ''***''"

text \<open>\<open>SECRET_REF_VALUE_RE.sub\<close>: a reference is the opening text, at least one character
  other than a closing brace, and the brace.\<close>

definition ref_open :: string where
  "ref_open = ''${SECRET:''"

definition ref_body :: "string \<Rightarrow> (string \<times> string) option" where
  "ref_body s = (if prefix ref_open s then
     (let r = drop (length ref_open) s; name = takeWhile (\<lambda>c. c \<noteq> CHR ''}'') r;
          rest = dropWhile (\<lambda>c. c \<noteq> CHR ''}'') r
      in if name = [] \<or> rest = [] then None else Some (name, tl rest))
   else None)"

lemma ref_body_Some:
  "ref_body s = Some (name, rest) \<Longrightarrow> s = ref_open @ name @ CHR ''}'' # rest"
proof -
  assume a: "ref_body s = Some (name, rest)"
  let ?r = "drop (length ref_open) s"
  from a have p: "prefix ref_open s" and n: "name = takeWhile (\<lambda>c. c \<noteq> CHR ''}'') ?r"
    and d: "dropWhile (\<lambda>c. c \<noteq> CHR ''}'') ?r \<noteq> []" "rest = tl (dropWhile (\<lambda>c. c \<noteq> CHR ''}'') ?r)"
    by (auto simp: ref_body_def Let_def split: if_splits)
  from d hd_dropWhile [of "\<lambda>c. c \<noteq> CHR ''}''" ?r]
  have "dropWhile (\<lambda>c. c \<noteq> CHR ''}'') ?r = CHR ''}'' # rest" by (metis list.collapse)
  then have "?r = name @ CHR ''}'' # rest" using n by (metis takeWhile_dropWhile_id)
  moreover from p have "s = ref_open @ ?r" by (auto simp: prefix_def)
  ultimately show ?thesis by simp
qed

function mask_refs :: "string \<Rightarrow> string" where
  "mask_refs s = (case s of [] \<Rightarrow> []
     | c # cs \<Rightarrow> (case ref_body s of
         Some (_, rest) \<Rightarrow> ref_open @ stars @ CHR ''}'' # mask_refs rest
       | None \<Rightarrow> c # mask_refs cs))"
  by pat_completeness auto
termination
proof (relation "measure length", goal_cases)
  case (3 s c cs p a b)
  then have "ref_body s = Some (a, b)" by simp
  from ref_body_Some [OF this] show ?case by simp
qed simp_all

declare mask_refs.simps [simp del]

section \<open>Redaction of a document\<close>

fun redact_value :: "json \<Rightarrow> string option \<Rightarrow> json" where
  "redact_value (JDict kvs) key = JDict (map (\<lambda>(k, v). (k, redact_value v (Some k))) kvs)"
| "redact_value (JList xs) key = JList (map (\<lambda>x. redact_value x None) xs)"
| "redact_value v key =
     (if (case key of None \<Rightarrow> False | Some k \<Rightarrow> is_secret_key k)
         \<and> v \<notin> {JNull, JStr [], JBool False, JInt 0}
      then JStr stars
      else case v of JStr s \<Rightarrow> JStr (mask_refs s) | _ \<Rightarrow> v)"

text \<open>\<open>collect_config_secrets\<close>: list items inherit the key of the list.\<close>

definition after_question :: "string \<Rightarrow> string list" where
  "after_question s = (case snd (cut CHR ''?'' s) of None \<Rightarrow> [] | Some q \<Rightarrow> [q])"

fun walk_secrets :: "json \<Rightarrow> string option \<Rightarrow> string list" where
  "walk_secrets (JDict kvs) key = concat (map (\<lambda>(k, v). walk_secrets v (Some k)) kvs)"
| "walk_secrets (JList xs) key = concat (map (\<lambda>x. walk_secrets x key) xs)"
| "walk_secrets (JStr s) key =
     (if (case key of None \<Rightarrow> False | Some k \<Rightarrow> is_secret_key k) \<and> s \<noteq> [] then [s] else [])
     @ (if key = Some ''port'' then after_question s else [])"
| "walk_secrets _ key = []"

definition collect_config_secrets :: "json \<Rightarrow> string list" where
  "collect_config_secrets data = walk_secrets data None"

section \<open>Masking of text\<close>

definition is_blank :: "char \<Rightarrow> bool" where
  "is_blank c = (code c = 32 \<or> code c = 9)"

definition is_key_char :: "char \<Rightarrow> bool" where
  "is_key_char c = (is_alnum c \<or> c \<in> {CHR ''_'', CHR ''.'', CHR ''-''})"

text \<open>One line of \<open>ASSIGNMENT_RE.sub\<close>; a value made of blanks gives its last blank to the
  value group.\<close>

definition redact_parts :: "string \<Rightarrow> string \<Rightarrow> string \<Rightarrow> string \<Rightarrow> string" where
  "redact_parts indent key b1 r2 = (case r2 of [] \<Rightarrow> indent @ key @ b1
     | c # r3 \<Rightarrow>
         if key \<noteq> [] \<and> c \<in> {CHR '':'', CHR ''=''} \<and> r3 \<noteq> [] \<and> is_secret_key_in_text key
         then (let b2 = takeWhile is_blank r3;
                   b2' = (if dropWhile is_blank r3 = [] then butlast b2 else b2)
               in indent @ key @ b1 @ [c] @ b2' @ stars)
         else indent @ key @ b1 @ r2)"

definition redact_line :: "string \<Rightarrow> string" where
  "redact_line l = (let r = dropWhile is_blank l; r1 = dropWhile is_key_char r in
     redact_parts (takeWhile is_blank l) (takeWhile is_key_char r)
       (takeWhile is_blank r1) (dropWhile is_blank r1))"

definition redact_assignments :: "string \<Rightarrow> string" where
  "redact_assignments t = join [LF] (map redact_line (split_on LF t))"

definition mask_one :: "string \<Rightarrow> string \<Rightarrow> string" where
  "mask_one masked secret = (if secret = [] then masked else replace_all secret stars masked)"

definition mask_text :: "string \<Rightarrow> string list \<Rightarrow> string" where
  "mask_text t secrets = redact_assignments (foldl mask_one (mask_refs t) secrets)"

section \<open>What masking can change\<close>

text \<open>
  \<open>starred out inp\<close>: the output is the input with some parts replaced by stars. Whatever a
  star-free observer sees in the output was contiguous in the input.
\<close>

inductive starred :: "string \<Rightarrow> string \<Rightarrow> bool" where
  starred_Nil: "starred [] []"
| starred_Cons: "starred out inp \<Longrightarrow> starred (c # out) (c # inp)"
| starred_cut: "starred out inp \<Longrightarrow> starred (stars @ out) (w @ inp)"

definition star_free :: "string \<Rightarrow> bool" where
  "star_free s = (CHR ''*'' \<notin> set s)"

lemma starred_refl [simp, intro]: "starred s s"
  by (induction s) (auto intro: starred.intros)

lemma starred_append: "starred o1 i1 \<Longrightarrow> starred o2 i2 \<Longrightarrow> starred (o1 @ o2) (i1 @ i2)"
proof (induction rule: starred.induct)
  case (starred_cut out inp w)
  then show ?case by (metis append.assoc starred.starred_cut)
qed (auto intro: starred.intros)

lemma starred_prefix:
  "starred out inp \<Longrightarrow> star_free s \<Longrightarrow> prefix s out \<Longrightarrow> prefix s inp"
proof (induction arbitrary: s rule: starred.induct)
  case (starred_Cons out inp c)
  then show ?case by (cases s) (auto simp: star_free_def)
next
  case (starred_cut out inp w)
  then show ?case by (cases s) (auto simp: star_free_def stars_def)
qed simp

lemma starred_sublist:
  "starred out inp \<Longrightarrow> star_free s \<Longrightarrow> sublist s out \<Longrightarrow> sublist s inp"
proof (induction rule: starred.induct)
  case (starred_Cons out inp c)
  then show ?case
    using starred_prefix [OF starred.starred_Cons [OF starred_Cons.hyps]]
    by (auto simp: sublist_Cons_right)
next
  case (starred_cut out inp w)
  have "s = [] \<or> sublist s out"
    using starred_cut.prems by (cases s) (auto simp: star_free_def stars_def sublist_Cons_right)
  with starred_cut have "sublist s inp" by auto
  then show ?case by (simp add: sublist_append)
qed simp

lemma starred_trans: "starred a b \<Longrightarrow> starred b c \<Longrightarrow> star_free s \<Longrightarrow> sublist s a \<Longrightarrow> sublist s c"
  using starred_sublist by blast

lemma starred_replace_all: "starred (replace_all old stars t) t"
proof (induction old "stars" t rule: replace_all.induct)
  case (1 old s)
  show ?case
  proof (cases "old = [] \<or> s = []")
    case True
    then have "replace_all old stars s = s" by (subst replace_all.simps) auto
    then show ?thesis by simp
  next
    case False
    then obtain c cs where s: "s = c # cs" by (cases s) auto
    show ?thesis
    proof (cases "prefix old s")
      case True
      then have "s = old @ drop (length old) s" by (auto simp: prefix_def)
      moreover have "starred (replace_all old stars (drop (length old) s)) (drop (length old) s)"
        using 1 False s True by auto
      ultimately have "starred (stars @ replace_all old stars (drop (length old) s)) s"
        using starred_cut by metis
      with True False s show ?thesis by (subst replace_all.simps) simp
    next
      case nb: False
      then have "starred (replace_all old stars cs) cs" using 1 False s by auto
      with nb False s show ?thesis by (subst replace_all.simps) (simp add: starred_Cons)
    qed
  qed
qed

lemma replace_all_removes:
  "old \<noteq> [] \<Longrightarrow> star_free old \<Longrightarrow> \<not> sublist old (replace_all old stars t)"
proof (induction old "stars" t rule: replace_all.induct)
  case (1 old s)
  show ?case
  proof (cases s)
    case Nil
    with 1 show ?thesis by (simp add: replace_all.simps)
  next
    case (Cons c cs)
    show ?thesis
    proof (cases "prefix old s")
      case True
      then have "\<not> sublist old (replace_all old stars (drop (length old) s))"
        using 1 Cons by auto
      then have "\<not> sublist old (stars @ replace_all old stars (drop (length old) s))"
        using 1(3,4) by (cases old) (auto simp: star_free_def stars_def sublist_Cons_right)
      with True Cons 1(3) show ?thesis by (subst replace_all.simps) simp
    next
      case False
      then have a: "\<not> sublist old (replace_all old stars cs)" using 1 Cons by auto
      have "\<not> prefix old (c # replace_all old stars cs)"
        using starred_prefix [OF starred_Cons [OF starred_replace_all [of old cs]] 1(4)] False Cons
        by auto
      with a False Cons 1(3) show ?thesis
        by (subst replace_all.simps) (simp add: sublist_Cons_right)
    qed
  qed
qed

lemma starred_mask_refs: "starred (mask_refs s) s"
proof (induction s rule: mask_refs.induct)
  case (1 s)
  show ?case
  proof (cases s)
    case Nil
    then show ?thesis by (simp add: mask_refs.simps)
  next
    case (Cons c cs)
    show ?thesis
    proof (cases "ref_body s")
      case None
      with 1 Cons have "starred (mask_refs cs) cs" by simp
      with None Cons show ?thesis by (subst mask_refs.simps) (simp add: starred_Cons)
    next
      case (Some p)
      then obtain name rest where p: "ref_body s = Some (name, rest)" by (cases p) auto
      then have "starred (mask_refs rest) rest" using 1 Cons by simp
      then have "starred (ref_open @ (stars @ (CHR ''}'' # mask_refs rest)))
        (ref_open @ (name @ (CHR ''}'' # rest)))"
        by (intro starred_append starred_refl starred_cut starred_Cons)
      with p Cons ref_body_Some [OF p] show ?thesis by (subst mask_refs.simps) simp
    qed
  qed
qed

lemma starred_redact_parts: "starred (redact_parts a b c r) (a @ b @ c @ r)"
proof (cases r)
  case Nil
  then show ?thesis by (simp add: redact_parts_def)
next
  case (Cons d r3)
  let ?b2 = "takeWhile is_blank r3"
  let ?b2' = "if dropWhile is_blank r3 = [] then butlast ?b2 else ?b2"
  have "prefix ?b2 r3" by (rule takeWhile_is_prefix)
  then have "prefix ?b2' r3"
    using prefix_order.trans [OF prefixeq_butlast, of ?b2 r3] by presburger
  then obtain v where v: "r3 = ?b2' @ v" unfolding prefix_def by blast
  have "starred (a @ b @ c @ [d] @ ?b2' @ (stars @ [])) (a @ b @ c @ [d] @ ?b2' @ (v @ []))"
    by (intro starred_append starred_refl starred_cut starred_Nil)
  then have "starred (a @ b @ c @ [d] @ ?b2' @ stars) (a @ b @ c @ d # r3)"
    using v by simp
  then show ?thesis by (simp add: redact_parts_def Cons Let_def)
qed

lemma starred_redact_line: "starred (redact_line l) l"
proof -
  let ?r = "dropWhile is_blank l"
  let ?r1 = "dropWhile is_key_char ?r"
  have "takeWhile is_blank l @ takeWhile is_key_char ?r @ takeWhile is_blank ?r1 @ dropWhile is_blank ?r1 = l"
    by simp
  then show ?thesis
    using starred_redact_parts unfolding redact_line_def Let_def by metis
qed

lemma starred_join: "list_all2 starred xs ys \<Longrightarrow> starred (join sep xs) (join sep ys)"
proof (induction sep xs arbitrary: ys rule: join.induct)
  case (3 sep x y zs)
  then obtain a b cs where "ys = a # b # cs" "starred x a" "list_all2 starred (y # zs) (b # cs)"
    by (auto simp: list_all2_Cons1)
  then show ?case using 3 by (auto intro!: starred_append)
qed (auto simp: list_all2_Cons1)

lemma join_split_on: "join [c] (split_on c s) = s"
proof (induction s)
  case (Cons x xs)
  obtain y ys where "split_on c xs = y # ys" by (meson neq_Nil_conv split_on_nonempty)
  with Cons show ?case by (cases ys) auto
qed simp

lemma starred_redact_assignments: "starred (redact_assignments t) t"
proof -
  have "starred (redact_assignments t) (join [LF] (split_on LF t))"
    unfolding redact_assignments_def
    by (rule starred_join) (simp add: list_all2_conv_all_nth starred_redact_line)
  then show ?thesis by (simp add: join_split_on)
qed

lemma mask_one_keeps: "star_free s \<Longrightarrow> sublist s (mask_one t x) \<Longrightarrow> sublist s t"
  using starred_sublist [OF starred_replace_all] by (auto simp: mask_one_def split: if_splits)

lemma foldl_mask_one_keeps: "star_free s \<Longrightarrow> sublist s (foldl mask_one t xs) \<Longrightarrow> sublist s t"
  by (induction xs arbitrary: t) (auto dest: mask_one_keeps)

lemma foldl_mask_one_removes:
  "s \<in> set xs \<Longrightarrow> s \<noteq> [] \<Longrightarrow> star_free s \<Longrightarrow> \<not> sublist s (foldl mask_one t xs)"
proof (induction xs arbitrary: t)
  case (Cons x xs)
  show ?case
  proof (cases "s = x")
    case True
    then have "\<not> sublist s (mask_one t x)" using Cons.prems by (simp add: mask_one_def replace_all_removes)
    then show ?thesis using Cons.prems foldl_mask_one_keeps [of s "mask_one t x" xs] by auto
  qed (use Cons in auto)
qed simp

lemma mask_text_hides:
  assumes "s \<in> set secrets" "s \<noteq> []" "CHR ''*'' \<notin> set s"
  shows "\<not> sublist s (mask_text t secrets)"
proof -
  have sf: "star_free s" using assms(3) by (simp add: star_free_def)
  show ?thesis
    using starred_sublist [OF starred_redact_assignments sf] foldl_mask_one_removes [OF assms(1,2) sf]
    unfolding mask_text_def by blast
qed

section \<open>What redaction does to a document\<close>

text \<open>The leaves of a document, each with the key it is stored under; list items have none.\<close>

fun leaves :: "json \<Rightarrow> string option \<Rightarrow> (string option \<times> json) list" where
  "leaves (JDict kvs) key = concat (map (\<lambda>(k, v). leaves v (Some k)) kvs)"
| "leaves (JList xs) key = concat (map (\<lambda>x. leaves x None) xs)"
| "leaves v key = [(key, v)]"

definition under_secret_key :: "string option \<Rightarrow> bool" where
  "under_secret_key k = (case k of None \<Rightarrow> False | Some n \<Rightarrow> is_secret_key n)"

lemma leaves_redact:
  "leaves (redact_value d key) key = map (\<lambda>(k, v). (k, redact_value v k)) (leaves d key)"
proof (induction d arbitrary: key rule: json_induct)
  case (JList xs)
  then show ?case by (simp add: map_concat comp_def cong: map_cong)
next
  case (JDict kvs)
  have "map (\<lambda>(k, v). leaves (redact_value v (Some k)) (Some k)) kvs
      = map (\<lambda>(k, v). map (\<lambda>(k, v). (k, redact_value v k)) (leaves v (Some k))) kvs"
    using JDict by (intro map_cong) auto
  then have "concat (map (\<lambda>(k, v). leaves (redact_value v (Some k)) (Some k)) kvs)
      = concat (map (\<lambda>(k, v). map (\<lambda>(k, v). (k, redact_value v k)) (leaves v (Some k))) kvs)"
    by (rule arg_cong)
  then show ?case by (simp add: map_concat comp_def split_def)
qed auto

lemma leaf_of_leaves: "(k, v) \<in> set (leaves d key) \<Longrightarrow> (\<nexists>kvs. v = JDict kvs) \<and> (\<nexists>xs. v = JList xs)"
  by (induction d arbitrary: key rule: json_induct) auto

end
