(* ===== verification/Effects.thy ===== *)
theory Effects
  imports Json
begin

text \<open>
  The world a service acts on: the contents of the files it reads and writes, and the history
  of its externally visible actions. What the outside world answers (the exit status and output
  of a command, what it does to the files, the clock, whether a process is alive, what an HTTP
  request returns) is an environment, a record of functions of the current world. Every
  definition takes it as an argument and every theorem holds for all environments, unless it
  names a law the environment keeps. Directories and file permissions are not tracked.
\<close>

datatype event =
    Ran "string list" "string option"
  | Wrote string string nat
  | Unlinked string
  | Slept nat
  | Signalled nat string
  | Stopped_child "string list" string
  | Fetched string
  | Called string "string list"

record world =
  files :: "string \<Rightarrow> string option"
  trace :: "event list"

text \<open>What a child process did: it ended, could not be started, or had to be stopped (with a
  flag telling whether it left within the grace period).\<close>

datatype outcome =
    Completed int string string
  | Spawn_failed string
  | Timed_out bool string string

text \<open>What supervisord answers to a remote call: a fault (or a failure to connect), or a value.\<close>

datatype rpc_answer =
    Rpc_fault string
  | Rpc_value json

text \<open>
  The answers of the outside world: the outcome of a command and the files after it, the
  clock, whether a process exists, what a download returns, SHA-256 as lower-case hexadecimal
  digits, the files after an event other than a command (other programs may write while this
  one waits, and a process that is told to stop removes its own files), a monotonic clock in
  milliseconds, supervisord, the certificate a TLS server presents, and which directories
  exist.
\<close>

record env =
  e_run :: "world \<Rightarrow> string list \<Rightarrow> string option \<Rightarrow> outcome"
  e_after :: "world \<Rightarrow> string list \<Rightarrow> string option \<Rightarrow> string \<Rightarrow> string option"
  e_now :: "world \<Rightarrow> nat"
  e_alive :: "world \<Rightarrow> nat \<Rightarrow> bool"
  e_fetch :: "world \<Rightarrow> string \<Rightarrow> string option"
  e_sha :: "string \<Rightarrow> string"
  e_tick :: "world \<Rightarrow> event \<Rightarrow> string \<Rightarrow> string option"
  e_mono :: "world \<Rightarrow> nat"
  e_rpc :: "world \<Rightarrow> string \<Rightarrow> string list \<Rightarrow> rpc_answer"
  e_tls :: "world \<Rightarrow> string \<Rightarrow> string \<Rightarrow> string option"
  e_dir :: "world \<Rightarrow> string \<Rightarrow> bool"

definition record_event :: "event \<Rightarrow> world \<Rightarrow> world" where
  "record_event e w = w\<lparr>trace := trace w @ [e]\<rparr>"

lemma record_event_simps [simp]:
  "files (record_event e w) = files w"
  "trace (record_event e w) = trace w @ [e]"
  by (simp_all add: record_event_def)

definition current :: "(world, world) action" where
  "current = (\<lambda>w. (Inr w, w))"

definition emit :: "event \<Rightarrow> (world, unit) action" where
  "emit e = (\<lambda>w. (Inr (), record_event e w))"

definition read_file :: "string \<Rightarrow> (world, string option) action" where
  "read_file p = (\<lambda>w. (Inr (files w p), w))"

definition unlink :: "string \<Rightarrow> (world, unit) action" where
  "unlink p = (\<lambda>w. (Inr (), record_event (Unlinked p) (w\<lparr>files := (files w)(p := None)\<rparr>)))"

text \<open>An event during which other programs may change files.\<close>

definition happen :: "env \<Rightarrow> event \<Rightarrow> (world, unit) action" where
  "happen env e = (\<lambda>w. (Inr (), record_event e (w\<lparr>files := e_tick env w e\<rparr>)))"

text \<open>\<open>time.sleep\<close>, in milliseconds.\<close>

definition sleep_for :: "env \<Rightarrow> nat \<Rightarrow> (world, unit) action" where
  "sleep_for env n = happen env (Slept n)"

text \<open>\<open>os.kill\<close>: a process that does not exist is an \<open>OSError\<close>.\<close>

definition kill_process :: "env \<Rightarrow> nat \<Rightarrow> string \<Rightarrow> (world, unit) action" where
  "kill_process env pid sig = (\<lambda>w. if e_alive env w pid then happen env (Signalled pid sig) w else throw OSError w)"

lemmas effect_defs [result_simps] = current_def emit_def read_file_def unlink_def happen_def sleep_for_def

text \<open>The events a step appends to the history.\<close>

definition new_events :: "world \<Rightarrow> world \<Rightarrow> event list" where
  "new_events w w' = drop (length (trace w)) (trace w')"

definition extends :: "world \<Rightarrow> world \<Rightarrow> bool" where
  "extends w w' = prefix (trace w) (trace w')"

lemma extends_refl [simp, intro]: "extends w w"
  by (simp add: extends_def)

lemma extends_trans: "extends a b \<Longrightarrow> extends b c \<Longrightarrow> extends a c"
  unfolding extends_def by (rule prefix_order.trans)

lemma extends_record [simp, intro]: "extends w (record_event e w)"
  by (simp add: extends_def)

lemma new_events_refl [simp]: "new_events w w = []"
  by (simp add: new_events_def)

lemma new_events_record [simp]: "new_events w (record_event e w) = [e]"
  by (simp add: new_events_def)

lemma new_events_trans:
  "extends a b \<Longrightarrow> extends b c \<Longrightarrow> new_events a c = new_events a b @ new_events b c"
  by (auto simp: extends_def new_events_def prefix_def)

text \<open>
  A condition on the appended events that every step of an action keeps: the way to show what
  an operation never does.
\<close>

definition emits :: "(event \<Rightarrow> bool) \<Rightarrow> world \<Rightarrow> world \<Rightarrow> bool" where
  "emits P w w' = (extends w w' \<and> (\<forall>e \<in> set (new_events w w'). P e))"

lemma emits_refl [simp, intro]: "emits P w w"
  by (simp add: emits_def)

lemma emits_trans: "emits P a b \<Longrightarrow> emits P b c \<Longrightarrow> emits P a c"
  unfolding emits_def by (metis Un_iff extends_trans new_events_trans set_append)

lemma emits_record: "P e \<Longrightarrow> emits P w (record_event e w)"
  by (simp add: emits_def)

lemma emits_mono: "emits P w w' \<Longrightarrow> (\<And>e. P e \<Longrightarrow> Q e) \<Longrightarrow> emits Q w w'"
  by (auto simp: emits_def)

lemma emits_trace: "emits P w w' \<longleftrightarrow> (\<exists>es. trace w' = trace w @ es \<and> (\<forall>e \<in> set es. P e))"
  by (auto simp: emits_def extends_def new_events_def prefix_def)

definition only_emits :: "(event \<Rightarrow> bool) \<Rightarrow> (world, 'a) action \<Rightarrow> bool" where
  "only_emits P m = (\<forall>w. emits P w (snd (m w)))"

named_theorems emits_intros \<open>introduction rules for only_emits\<close>

lemma only_emits_ret [emits_intros, intro]: "only_emits P (ret x)"
  and only_emits_throw [emits_intros, intro]: "only_emits P (throw e)"
  and only_emits_lift [emits_intros, intro]: "only_emits P (lift_result r)"
  and only_emits_current [emits_intros, intro]: "only_emits P current"
  and only_emits_read [emits_intros, intro]: "only_emits P (read_file p)"
  by (simp_all add: only_emits_def result_simps)

lemma only_emits_emit [emits_intros, intro]: "P e \<Longrightarrow> only_emits P (emit e)"
  by (simp add: only_emits_def result_simps emits_record)

lemma only_emits_happen [emits_intros, intro]: "P e \<Longrightarrow> only_emits P (happen env e)"
  by (simp add: only_emits_def happen_def emits_trace)

lemma only_emits_sleep [emits_intros, intro]: "P (Slept n) \<Longrightarrow> only_emits P (sleep_for env n)"
  by (simp add: sleep_for_def only_emits_happen)

lemma only_emits_kill [emits_intros, intro]: "P (Signalled pid sig) \<Longrightarrow> only_emits P (kill_process env pid sig)"
  by (simp add: only_emits_def kill_process_def happen_def throw_def emits_trace)

lemma only_emits_unlink [emits_intros, intro]: "P (Unlinked p) \<Longrightarrow> only_emits P (unlink p)"
  by (simp add: only_emits_def unlink_def emits_trace)

lemma only_emits_andthen [emits_intros, intro]:
  assumes "only_emits P m" "\<And>x. only_emits P (f x)"
  shows "only_emits P (andthen m f)"
  unfolding only_emits_def
proof
  fix w
  obtain r w1 where m: "m w = (r, w1)" by (cases "m w") auto
  with assms(1) have 1: "emits P w w1" by (metis only_emits_def snd_conv)
  show "emits P w (snd (andthen m f w))"
  proof (cases r)
    case (Inl e)
    with m 1 show ?thesis by (simp add: andthen_def)
  next
    case (Inr x)
    have "emits P w1 (snd (f x w1))" using assms(2) by (simp add: only_emits_def)
    with emits_trans [OF 1] m Inr show ?thesis by (simp add: andthen_def)
  qed
qed

lemma only_emits_catch [emits_intros, intro]:
  assumes "only_emits P m" "only_emits P h"
  shows "only_emits P (catch p m h)"
  unfolding only_emits_def
proof
  fix w
  obtain r w1 where m: "m w = (r, w1)" by (cases "m w") auto
  with assms(1) have 1: "emits P w w1" by (metis only_emits_def snd_conv)
  have 2: "emits P w1 (snd (h w1))" using assms(2) by (simp add: only_emits_def)
  from m 1 emits_trans [OF 1 2] show "emits P w (snd (catch p m h w))"
    by (simp add: catch_def split: sum.splits)
qed

lemma only_emits_action_map [emits_intros, intro]:
  "(\<And>x. x \<in> set xs \<Longrightarrow> only_emits P (f x)) \<Longrightarrow> only_emits P (action_map f xs)"
  by (induction xs) (auto intro!: only_emits_andthen)

lemma only_emits_if [emits_intros, intro]:
  "(b \<Longrightarrow> only_emits P m) \<Longrightarrow> (\<not> b \<Longrightarrow> only_emits P n) \<Longrightarrow> only_emits P (if b then m else n)"
  by simp

lemma only_emits_option [emits_intros, intro]:
  "(x = None \<Longrightarrow> only_emits P m) \<Longrightarrow> (\<And>y. x = Some y \<Longrightarrow> only_emits P (f y)) \<Longrightarrow>
   only_emits P (case x of None \<Rightarrow> m | Some y \<Rightarrow> f y)"
  by (cases x) auto

lemma only_emits_mono: "only_emits P m \<Longrightarrow> (\<And>e. P e \<Longrightarrow> Q e) \<Longrightarrow> only_emits Q m"
  using emits_mono unfolding only_emits_def by blast

lemma only_emitsD: "only_emits P m \<Longrightarrow> m w = (r, w') \<Longrightarrow> emits P w w'"
  unfolding only_emits_def by (metis snd_conv)

end
