(* ===== verification/Files.thy ===== *)
theory Files
  imports Effects
begin

text \<open>
  \<open>services/files.py\<close>: the atomic text write (with every point at which it can fail) and
  the one-item-per-line store that routing lists, users, OTP records and caches are kept in.
\<close>

section \<open>Atomic writes\<close>

text \<open>
  The steps of \<open>atomic_write_text\<close> on the temporary file \<open>tmp\<close> that \<open>mkstemp\<close> made:
  create it, write and sync the content, set the mode, and rename it over the target.
\<close>

datatype write_step = Create_temp | Write_temp | Chmod_temp | Replace_target

fun run_write_step :: "string \<Rightarrow> string \<Rightarrow> string \<Rightarrow> write_step \<Rightarrow> (string \<Rightarrow> string option)
    \<Rightarrow> (string \<Rightarrow> string option)" where
  "run_write_step tmp p content Create_temp fs = fs(tmp \<mapsto> [])"
| "run_write_step tmp p content Write_temp fs = fs(tmp \<mapsto> content)"
| "run_write_step tmp p content Chmod_temp fs = fs"
| "run_write_step tmp p content Replace_target fs = fs(p := fs tmp, tmp := None)"

definition write_steps :: "write_step list" where
  "write_steps = [Create_temp, Write_temp, Chmod_temp, Replace_target]"

text \<open>The first \<open>k\<close> steps complete, then an error (or the end) runs the \<open>finally\<close> clause.\<close>

definition write_crash :: "nat \<Rightarrow> string \<Rightarrow> string \<Rightarrow> string \<Rightarrow> (string \<Rightarrow> string option)
    \<Rightarrow> (string \<Rightarrow> string option)" where
  "write_crash k tmp p content fs =
     (let fs' = fold (run_write_step tmp p content) (take k write_steps) fs in
      if fs' tmp = None then fs' else fs'(tmp := None))"

text \<open>The same write as one step, which the services use.\<close>

definition atomic_write_text :: "string \<Rightarrow> string \<Rightarrow> nat \<Rightarrow> (world, unit) action" where
  "atomic_write_text p content mode =
     (\<lambda>w. (Inr (), record_event (Wrote p content mode) (w\<lparr>files := (files w)(p \<mapsto> content)\<rparr>)))"

definition atomic_write_private_text :: "string \<Rightarrow> string \<Rightarrow> (world, unit) action" where
  "atomic_write_private_text p content = atomic_write_text p content 384"

text \<open>The same steps with a binary file: bytes are characters here.\<close>

definition atomic_write_bytes :: "string \<Rightarrow> string \<Rightarrow> nat \<Rightarrow> (world, unit) action" where
  "atomic_write_bytes p content mode = atomic_write_text p content mode"

lemma only_emits_write [emits_intros, intro]:
  "P (Wrote p c m) \<Longrightarrow> only_emits P (atomic_write_text p c m)"
  by (simp add: only_emits_def atomic_write_text_def emits_trace)

lemma only_emits_write_bytes [emits_intros, intro]:
  "P (Wrote p c m) \<Longrightarrow> only_emits P (atomic_write_bytes p c m)"
  by (simp add: atomic_write_bytes_def only_emits_write)

section \<open>Line files\<close>

definition read_text :: "string \<Rightarrow> string" where
  "read_text content = universal_newlines content"

definition read_lines_of :: "string option \<Rightarrow> string list" where
  "read_lines_of c = (case c of None \<Rightarrow> [] | Some t \<Rightarrow> splitlines (read_text t))"

definition read_lines :: "string \<Rightarrow> (world, string list) action" where
  "read_lines p = (\<lambda>w. (Inr (read_lines_of (files w p)), w))"

text \<open>The loop of \<open>write_unique_lines\<close>: stripped, non-empty, not a comment, not seen.\<close>

fun unique_lines_loop :: "string list \<Rightarrow> string list \<Rightarrow> string list \<Rightarrow> string list" where
  "unique_lines_loop [] out seen = out"
| "unique_lines_loop (line # ls) out seen =
     (let item = strip line in
      if item = [] \<or> starts_with ''#'' item \<or> item \<in> set seen
      then unique_lines_loop ls out seen
      else unique_lines_loop ls (out @ [item]) (item # seen))"

definition unique_lines :: "string list \<Rightarrow> string list" where
  "unique_lines lines = unique_lines_loop lines [] []"

definition lines_text :: "string list \<Rightarrow> string" where
  "lines_text ls = join [LF] ls @ (if ls \<noteq> [] then [LF] else [])"

definition write_unique_lines :: "string \<Rightarrow> string list \<Rightarrow> nat \<Rightarrow> (world, unit) action" where
  "write_unique_lines p lines mode = atomic_write_text p (lines_text (unique_lines lines)) mode"

lemma only_emits_write_unique [emits_intros, intro]:
  "(\<And>c. P (Wrote p c m)) \<Longrightarrow> only_emits P (write_unique_lines p ls m)"
  by (simp add: write_unique_lines_def only_emits_write)

definition keepable :: "string \<Rightarrow> bool" where
  "keepable item = (item \<noteq> [] \<and> \<not> starts_with ''#'' item)"

lemma unique_lines_loop_eq:
  "set seen = set out \<Longrightarrow>
   unique_lines_loop lines out seen = out @ uniq out (filter keepable (map strip lines))"
proof (induction lines arbitrary: out seen)
  case (Cons l ls)
  then show ?case
    by (cases "keepable (strip l)") (auto simp: Let_def keepable_def)
qed simp

lemma unique_lines_eq: "unique_lines lines = uniq [] (filter keepable (map strip lines))"
  by (simp add: unique_lines_def unique_lines_loop_eq)

lemma unique_lines_facts:
  "distinct (unique_lines ls)"
  "x \<in> set (unique_lines ls) \<Longrightarrow> keepable x \<and> strip x = x"
  by (auto simp: unique_lines_eq)

lemma unique_lines_idem [simp]: "unique_lines (unique_lines ls) = unique_lines ls"
proof -
  have "map strip (unique_lines ls) = unique_lines ls"
    using unique_lines_facts(2) by (intro map_idI) blast
  moreover have "filter keepable (unique_lines ls) = unique_lines ls"
    using unique_lines_facts(2) by (intro filter_True) blast
  ultimately show ?thesis
    using unique_lines_facts(1) [of ls] by (simp add: unique_lines_eq uniq_id)
qed

definition one_line :: "string \<Rightarrow> bool" where
  "one_line s = no_breaks s"

lemma CR_not_no_breaks: "no_breaks l \<Longrightarrow> CR \<notin> set l"
  by (auto simp: no_breaks_def)

lemma read_lines_of_text:
  assumes "\<forall>l \<in> set ls. no_breaks l \<and> l \<noteq> []"
  shows "read_lines_of (Some (lines_text ls)) = ls"
proof (cases "ls = []")
  case True
  then show ?thesis by (simp add: read_lines_of_def lines_text_def read_text_def splitlines_def)
next
  case False
  have "CR \<notin> set (lines_text ls)"
  proof
    assume "CR \<in> set (lines_text ls)"
    then have "CR \<in> set (join [LF] ls)" by (auto simp: lines_text_def split: if_splits)
    then obtain l where "l \<in> set ls" "CR \<in> set l"
      using set_join [of "[LF]" ls] by auto
    with assms CR_not_no_breaks show False by blast
  qed
  with False assms show ?thesis
    by (simp add: read_lines_of_def read_text_def) (simp add: lines_text_def splitlines_join_lines)
qed

lemma read_write_unique_lines:
  assumes "\<forall>l \<in> set ls. no_breaks l"
  shows "read_lines_of (Some (lines_text (unique_lines ls))) = unique_lines ls"
proof (rule read_lines_of_text)
  show "\<forall>l \<in> set (unique_lines ls). no_breaks l \<and> l \<noteq> []"
    using assms by (auto simp: unique_lines_eq keepable_def strip_no_breaks)
qed

lemma read_lines_of_no_breaks: "l \<in> set (read_lines_of c) \<Longrightarrow> no_breaks l"
  by (auto simp: read_lines_of_def split: option.splits dest: splitlines_no_breaks)

section \<open>The line store as an interface\<close>

text \<open>
  What the list-editing services rely on: reading after a write returns the cleaned items, and
  cleaning is a projection onto duplicate-free lists of stripped, non-empty, non-comment items.
\<close>

locale line_store =
  fixes load :: "'f \<Rightarrow> string list"
    and save :: "string list \<Rightarrow> 'f"
    and clean :: "string list \<Rightarrow> string list"
  assumes load_save: "\<forall>l \<in> set ls. no_breaks l \<Longrightarrow> load (save ls) = clean ls"
    and load_lines: "l \<in> set (load f) \<Longrightarrow> no_breaks l"
    and clean_idem: "clean (clean ls) = clean ls"
    and clean_distinct: "distinct (clean ls)"
    and clean_set: "set (clean ls) = {strip l | l. l \<in> set ls \<and> keepable (strip l)}"
begin

lemma load_saved_member:
  "\<forall>l \<in> set ls. no_breaks l \<Longrightarrow> x \<in> set (load (save ls)) \<longleftrightarrow> (\<exists>l \<in> set ls. strip l = x \<and> keepable x)"
  by (auto simp: load_save clean_set)

lemma clean_no_breaks: "\<forall>l \<in> set ls. no_breaks l \<Longrightarrow> \<forall>l \<in> set (clean ls). no_breaks l"
  using load_save load_lines by metis

lemma save_load_save:
  "\<forall>l \<in> set ls. no_breaks l \<Longrightarrow> load (save (load (save ls))) = load (save ls)"
  using load_save clean_no_breaks clean_idem by metis

lemma load_save_distinct: "\<forall>l \<in> set ls. no_breaks l \<Longrightarrow> distinct (load (save ls))"
  by (simp add: load_save clean_distinct)

text \<open>Appending one item to what is stored.\<close>

lemma append_member:
  "no_breaks x \<Longrightarrow> keepable (strip x) \<Longrightarrow> strip x \<in> set (load (save (load f @ [x])))"
  by (subst load_saved_member) (auto simp: load_lines)

text \<open>Removing an item from what is stored.\<close>

lemma remove_absent:
  "\<forall>l \<in> set (load f). strip l = l \<Longrightarrow> x \<notin> set (load (save (filter (\<lambda>l. l \<noteq> x) (load f))))"
  by (subst load_saved_member) (auto simp: load_lines)

end

interpretation lf: line_store read_lines_of "\<lambda>ls. Some (lines_text (unique_lines ls))" unique_lines
proof unfold_locales
  show "read_lines_of (Some (lines_text (unique_lines ls))) = unique_lines ls"
    if "\<forall>l \<in> set ls. no_breaks l" for ls
    using that by (rule read_write_unique_lines)
  show "no_breaks l" if "l \<in> set (read_lines_of f)" for l f
    using that by (rule read_lines_of_no_breaks)
  show "set (unique_lines ls) = {strip l | l. l \<in> set ls \<and> keepable (strip l)}" for ls
    by (auto simp: unique_lines_eq)
qed (simp_all add: unique_lines_facts)

section \<open>Atomicity\<close>

lemma write_crash_cases:
  assumes "fs tmp = None" "tmp \<noteq> p"
  shows "write_crash k tmp p content fs = (if k < 4 then fs else fs(p \<mapsto> content))"
proof -
  consider "k = 0" | "k = 1" | "k = 2" | "k = 3" | "k \<ge> 4" by linarith
  then show ?thesis
    using assms by cases (auto simp: write_crash_def write_steps_def Let_def fun_eq_iff numeral_eq_Suc)
qed

end
