(* ===== verification/Command.thy ===== *)
theory Command
  imports Secrets Files
begin

text \<open>
  \<open>services/command.py\<close>: running external programs. The three ways of running (captured,
  captured with a graceful stop, output to a log file) and the mapping of every outcome of the
  child to a result or a \<open>CommandError\<close>; all text that leaves the runner is masked.
\<close>

record command_result =
  r_argv :: "string list"
  r_code :: int
  r_out :: string
  r_err :: string
  r_dry :: bool

definition ok :: "command_result \<Rightarrow> bool" where
  "ok r = (r_code r = 0)"

record run_options =
  o_timeout :: nat
  o_input :: "string option"
  o_check :: bool
  o_dry_run :: bool
  o_extra_secrets :: "string list"
  o_graceful :: "nat option"
  o_output_file :: "string option"

definition default_options :: run_options where
  "default_options = \<lparr>o_timeout = 30, o_input = None, o_check = True, o_dry_run = False,
     o_extra_secrets = [], o_graceful = None, o_output_file = None\<rparr>"

definition no_check :: run_options where
  "no_check = default_options\<lparr>o_check := False\<rparr>"

text \<open>Run the child: the environment decides the outcome and what happens to the files.\<close>

definition spawn :: "env \<Rightarrow> string list \<Rightarrow> string option \<Rightarrow> (world, outcome) action" where
  "spawn env argv inp = (\<lambda>w. (Inr (e_run env w argv inp),
     record_event (Ran argv inp) (w\<lparr>files := e_after env w argv inp\<rparr>)))"

definition timeout_note :: "nat \<Rightarrow> string" where
  "timeout_note t = ''command timed out after '' @ show_nat t @ '' seconds''"

definition finish :: "bool \<Rightarrow> command_result \<Rightarrow> (world, command_result) action" where
  "finish check r = (if check \<and> \<not> ok r then throw CommandError else ret r)"

definition spawn_error_result :: "string list \<Rightarrow> string list \<Rightarrow> string \<Rightarrow> command_result" where
  "spawn_error_result masked secrets reason =
     \<lparr>r_argv = masked, r_code = 127, r_out = [],
      r_err = mask_text (hd masked @ '': '' @ reason) secrets, r_dry = False\<rparr>"

definition with_note :: "string \<Rightarrow> nat \<Rightarrow> string" where
  "with_note err t = (if err \<noteq> [] then err @ [LF] @ timeout_note t else timeout_note t)"

definition masked_result :: "string list \<Rightarrow> string list \<Rightarrow> int \<Rightarrow> string \<Rightarrow> string \<Rightarrow> command_result" where
  "masked_result masked secrets rc out err =
     \<lparr>r_argv = masked, r_code = rc, r_out = mask_text out secrets,
      r_err = mask_text err secrets, r_dry = False\<rparr>"

text \<open>\<open>subprocess.run\<close> kills the child outright when the timeout expires.\<close>

definition run_captured :: "env \<Rightarrow> string list \<Rightarrow> run_options \<Rightarrow> string list \<Rightarrow> string list
    \<Rightarrow> (world, command_result) action" where
  "run_captured env argv opts secrets masked =
     andthen (spawn env argv (o_input opts)) (\<lambda>outcome.
       case outcome of
         Spawn_failed reason \<Rightarrow> finish (o_check opts) (spawn_error_result masked secrets reason)
       | Timed_out _ out err \<Rightarrow>
           andthen (emit (Stopped_child argv ''SIGKILL'')) (\<lambda>_.
             finish (o_check opts) (masked_result masked secrets 124 out
               (with_note (rstrip_if is_space err) (o_timeout opts))))
       | Completed rc out err \<Rightarrow> finish (o_check opts) (masked_result masked secrets rc out err))"

text \<open>SIGTERM first; SIGKILL only when the child outlives the grace period.\<close>

definition stop_gracefully :: "string list \<Rightarrow> bool \<Rightarrow> (world, unit) action" where
  "stop_gracefully argv left_in_time =
     andthen (emit (Stopped_child argv ''SIGTERM'')) (\<lambda>_.
       if left_in_time then ret () else emit (Stopped_child argv ''SIGKILL''))"

definition run_graceful :: "env \<Rightarrow> string list \<Rightarrow> run_options \<Rightarrow> string list \<Rightarrow> string list
    \<Rightarrow> (world, command_result) action" where
  "run_graceful env argv opts secrets masked =
     andthen (spawn env argv (o_input opts)) (\<lambda>outcome.
       case outcome of
         Spawn_failed reason \<Rightarrow> finish (o_check opts) (spawn_error_result masked secrets reason)
       | Timed_out gone out err \<Rightarrow>
           andthen (stop_gracefully argv gone) (\<lambda>_.
             finish (o_check opts) (masked_result masked secrets 124 out (with_note err (o_timeout opts))))
       | Completed rc out err \<Rightarrow> finish (o_check opts) (masked_result masked secrets rc out err))"

text \<open>Append to the log file; the child's own output (both streams) lands there too.\<close>

definition append_log :: "string \<Rightarrow> string \<Rightarrow> (world, unit) action" where
  "append_log p t = (\<lambda>w. (Inr (), w\<lparr>files := (files w)(p \<mapsto>
     (case files w p of None \<Rightarrow> [] | Some c \<Rightarrow> c) @ t)\<rparr>))"

definition file_size :: "string \<Rightarrow> world \<Rightarrow> nat" where
  "file_size p w = (case files w p of None \<Rightarrow> 0 | Some c \<Rightarrow> length c)"

definition read_since :: "string \<Rightarrow> nat \<Rightarrow> world \<Rightarrow> string" where
  "read_since p offset w = (case files w p of None \<Rightarrow> [] | Some c \<Rightarrow> strip (read_text (drop offset c)))"

definition log_header :: "string list \<Rightarrow> string" where
  "log_header masked = ''--- '' @ join '' '' masked @ '' ---'' @ [LF]"

definition run_to_file :: "env \<Rightarrow> string list \<Rightarrow> run_options \<Rightarrow> string list \<Rightarrow> string list
    \<Rightarrow> string \<Rightarrow> (world, command_result) action" where
  "run_to_file env argv opts secrets masked p =
     andthen current (\<lambda>w0. let start = file_size p w0 in
     andthen (append_log p (log_header masked)) (\<lambda>_.
     andthen (spawn env argv (o_input opts)) (\<lambda>outcome.
       case outcome of
         Spawn_failed reason \<Rightarrow> finish (o_check opts) (spawn_error_result masked secrets reason)
       | Timed_out gone out err \<Rightarrow>
           andthen (append_log p out) (\<lambda>_.
           andthen (stop_gracefully argv gone) (\<lambda>_.
           andthen (append_log p (timeout_note (o_timeout opts) @ [LF])) (\<lambda>_.
           andthen current (\<lambda>w1.
             finish (o_check opts)
               \<lparr>r_argv = masked, r_code = 124, r_out = [],
                r_err = mask_text (with_note (read_since p start w1) (o_timeout opts)) secrets,
                r_dry = False\<rparr>))))
       | Completed rc out err \<Rightarrow>
           andthen (append_log p out) (\<lambda>_.
           andthen current (\<lambda>w1.
             finish (o_check opts)
               \<lparr>r_argv = masked, r_code = rc, r_out = mask_text (read_since p start w1) secrets,
                r_err = [], r_dry = False\<rparr>)))))"

text \<open>\<open>CommandRunner.run\<close>; \<open>secrets\<close> are the runner's own.\<close>

definition run_command :: "env \<Rightarrow> string list \<Rightarrow> string list \<Rightarrow> run_options
    \<Rightarrow> (world, command_result) action" where
  "run_command env own_secrets argv opts =
     (if argv = [] then throw ValueError
      else if list_ex (\<lambda>a. a = []) argv then throw ValueError
      else let secrets = own_secrets @ o_extra_secrets opts;
               masked = map (\<lambda>a. mask_text a secrets) argv in
        if o_dry_run opts
        then ret \<lparr>r_argv = masked, r_code = 0, r_out = [], r_err = [], r_dry = True\<rparr>
        else case o_output_file opts of
          Some p \<Rightarrow> run_to_file env argv opts secrets masked p
        | None \<Rightarrow> (case o_graceful opts of
            Some _ \<Rightarrow> run_graceful env argv opts secrets masked
          | None \<Rightarrow> run_captured env argv opts secrets masked))"

section \<open>What a run may do\<close>

text \<open>The events a run appends: the child, and the signals that stop it.\<close>

definition run_event :: "string list \<Rightarrow> string option \<Rightarrow> event \<Rightarrow> bool" where
  "run_event argv inp e = (e = Ran argv inp \<or> (\<exists>s. e = Stopped_child argv s))"

lemma only_emits_spawn [emits_intros, intro]: "P (Ran argv inp) \<Longrightarrow> only_emits P (spawn env argv inp)"
  by (simp add: only_emits_def spawn_def emits_trace)

lemma only_emits_append_log [emits_intros, intro]: "only_emits P (append_log p t)"
  by (simp add: only_emits_def append_log_def emits_trace)

lemma only_emits_finish [emits_intros, intro]: "only_emits P (finish c r)"
  by (simp add: finish_def emits_intros)

lemma only_emits_stop [emits_intros, intro]:
  "(\<And>s. P (Stopped_child argv s)) \<Longrightarrow> only_emits P (stop_gracefully argv b)"
  by (auto simp: stop_gracefully_def)

lemma only_emits_outcome [emits_intros, intro]:
  "(\<And>r. only_emits P (f r)) \<Longrightarrow> (\<And>a b c. only_emits P (g a b c)) \<Longrightarrow> (\<And>a b c. only_emits P (h a b c)) \<Longrightarrow>
   only_emits P (case x of Spawn_failed r \<Rightarrow> f r | Timed_out a b c \<Rightarrow> g a b c | Completed a b c \<Rightarrow> h a b c)"
  by (cases x) auto

lemma only_emits_run_command:
  assumes "P (Ran argv (o_input opts))" "\<And>s. P (Stopped_child argv s)"
  shows "only_emits P (run_command env own argv opts)"
  unfolding run_command_def run_to_file_def run_graceful_def run_captured_def Let_def
  by (intro emits_intros assms)

lemma run_command_dry:
  "o_dry_run opts \<Longrightarrow> snd (run_command env own argv opts w) = w"
  by (simp add: run_command_def result_simps Let_def)

text \<open>An unchecked run of a non-empty command always returns a result.\<close>

lemma finish_unchecked [simp]: "finish False r w = (Inr r, w)"
  by (simp add: finish_def ret_def)

lemma run_unchecked_returns:
  assumes "argv \<noteq> []" "[] \<notin> set argv" "\<not> o_check opts"
  shows "\<exists>r w'. run_command env own argv opts w = (Inr r, w')"
proof -
  have ex: "\<not> list_ex (\<lambda>a. a = []) argv" using assms(2) by (auto simp: list_ex_iff)
  show ?thesis
    using assms ex
    by (auto simp: run_command_def run_to_file_def run_graceful_def run_captured_def Let_def
        andthen_def current_def append_log_def spawn_def emit_def ret_def stop_gracefully_def
        split: option.splits outcome.splits)
qed

text \<open>A checked run that returns did exit with status zero.\<close>

lemma finish_checked: "finish True r w = (Inr r', w') \<Longrightarrow> ok r' \<and> r' = r \<and> w' = w"
  by (auto simp: finish_def result_simps split: if_splits)

lemma run_checked_ok:
  assumes "run_command env own argv opts w = (Inr r, w')" "o_check opts"
  shows "ok r"
proof -
  have f: "\<And>x v. finish True x v = (Inr r, w') \<Longrightarrow> ok r" using finish_checked by blast
  show ?thesis
    using assms
    by (auto simp: run_command_def run_to_file_def run_graceful_def run_captured_def Let_def
        andthen_def current_def append_log_def spawn_def emit_def ret_def throw_def stop_gracefully_def
        dest!: f split: if_splits option.splits outcome.splits) (simp_all add: ok_def)
qed

text \<open>A killed child was asked to stop first, unless the run was not a graceful one.\<close>

lemma graceful_events:
  "new_events w (snd (run_graceful env argv opts secrets masked w)) =
     Ran argv (o_input opts) # (case e_run env w argv (o_input opts) of
        Timed_out gone _ _ \<Rightarrow> Stopped_child argv ''SIGTERM''
          # (if gone then [] else [Stopped_child argv ''SIGKILL''])
      | _ \<Rightarrow> [])"
  by (auto simp: run_graceful_def andthen_def spawn_def emit_def stop_gracefully_def ret_def throw_def
      finish_def new_events_def split: outcome.splits)

end
