(* ===== verification/Json_Text.thy ===== *)
theory Json_Text
  imports Json
begin

text \<open>
  The JSON encoder and decoder of Python's \<open>json\<close> module, for documents without floating
  point numbers: \<open>dumps\<close> in its compact and its indented layout (both with ASCII escapes), and
  \<open>loads\<close> as a recursive descent with fuel. The main result is that decoding inverts encoding
  in either layout, the basis of every save and load pair of the services.
\<close>

section \<open>Encoding\<close>

definition hex4 :: "nat \<Rightarrow> string" where
  "hex4 n = zero_pad 4 (show_hex n)"

definition escape_char :: "char \<Rightarrow> string" where
  "escape_char c = (let n = code c in
     if n = 34 then [CHR 92, CHR 34]
     else if n = 92 then [CHR 92, CHR 92]
     else if n = 10 then [CHR 92, CHR ''n'']
     else if n = 13 then [CHR 92, CHR ''r'']
     else if n = 9 then [CHR 92, CHR ''t'']
     else if n = 12 then [CHR 92, CHR ''f'']
     else if n = 8 then [CHR 92, CHR ''b'']
     else if 32 \<le> n \<and> n \<le> 126 then [c]
     else CHR 92 # CHR ''u'' # hex4 n)"

definition quote_string :: "string \<Rightarrow> string" where
  "quote_string s = CHR 34 # concat (map escape_char s) @ [CHR 34]"

record layout =
  item_sep :: string
  new_line :: "nat \<Rightarrow> string"

definition compact :: layout where
  "compact = \<lparr>item_sep = '', '', new_line = (\<lambda>_. [])\<rparr>"

definition indented :: layout where
  "indented = \<lparr>item_sep = '','', new_line = (\<lambda>d. LF # replicate (2 * d) CHR '' '')\<rparr>"

fun dumps :: "layout \<Rightarrow> nat \<Rightarrow> json \<Rightarrow> string" where
  "dumps l d JNull = ''null''"
| "dumps l d (JBool b) = (if b then ''true'' else ''false'')"
| "dumps l d (JInt i) = show_int i"
| "dumps l d (JStr s) = quote_string s"
| "dumps l d (JList xs) = (if xs = [] then ''[]''
     else ''['' @ new_line l (Suc d) @ join (item_sep l @ new_line l (Suc d)) (map (dumps l (Suc d)) xs)
          @ new_line l d @ '']'')"
| "dumps l d (JDict kvs) = (if kvs = [] then ''{}''
     else ''{'' @ new_line l (Suc d)
          @ join (item_sep l @ new_line l (Suc d))
              (map (\<lambda>(k, v). quote_string k @ '': '' @ dumps l (Suc d) v) kvs)
          @ new_line l d @ ''}'')"

text \<open>\<open>sort_keys=True\<close>.\<close>

fun str_le :: "string \<Rightarrow> string \<Rightarrow> bool" where
  "str_le [] _ = True"
| "str_le (a # as) [] = False"
| "str_le (a # as) (b # bs) = (code a < code b \<or> a = b \<and> str_le as bs)"

fun insert_key :: "string \<times> 'v \<Rightarrow> (string \<times> 'v) list \<Rightarrow> (string \<times> 'v) list" where
  "insert_key kv [] = [kv]"
| "insert_key kv (x # xs) = (if str_le (fst kv) (fst x) then kv # x # xs else x # insert_key kv xs)"

definition sort_keys :: "(string \<times> 'v) list \<Rightarrow> (string \<times> 'v) list" where
  "sort_keys kvs = foldr insert_key kvs []"

lemma set_insert_key [simp]: "set (insert_key kv xs) = insert kv (set xs)"
  by (induction xs) auto

lemma set_sort_keys [simp]: "set (sort_keys kvs) = set kvs"
  by (induction kvs) (auto simp: sort_keys_def)

lemma mset_insert_key: "length (insert_key kv xs) = Suc (length xs)"
  by (induction xs) auto

lemma length_sort_keys [simp]: "length (sort_keys kvs) = length kvs"
  by (induction kvs) (auto simp: sort_keys_def mset_insert_key)

section \<open>Decoding\<close>

definition json_ws :: "char \<Rightarrow> bool" where
  "json_ws c = (code c \<in> {32, 9, 10, 13})"

definition skip_ws :: "string \<Rightarrow> string" where
  "skip_ws s = dropWhile json_ws s"

definition parse_hex4 :: "string \<Rightarrow> (nat \<times> string) option" where
  "parse_hex4 s = (if length s < 4 then None
     else map_option (\<lambda>n. (n, drop 4 s)) (parse_base 16 0 (take 4 s)))"

text \<open>The characters of a string literal up to the closing quote. Code points above 255 are
  outside the model and reported as an error.\<close>

definition simple_escape :: "char \<Rightarrow> char option" where
  "simple_escape e = map_of [(CHR 34, CHR 34), (CHR 92, CHR 92), (CHR ''/'', CHR ''/''),
     (CHR ''b'', char_of (8 :: nat)), (CHR ''f'', char_of (12 :: nat)), (CHR ''n'', LF), (CHR ''r'', CR),
     (CHR ''t'', char_of (9 :: nat))] e"

function scan_string :: "string \<Rightarrow> (string \<times> string) option" where
  "scan_string s = (case s of [] \<Rightarrow> None
     | c # cs \<Rightarrow>
         if c = CHR 34 then Some ([], cs)
         else if code c < 32 then None
         else if c = CHR 92 then
           (case cs of [] \<Rightarrow> None
            | e # es \<Rightarrow> if e = CHR ''u'' then
                 (case parse_hex4 es of None \<Rightarrow> None
                  | Some (n, r) \<Rightarrow> if 255 < n then None
                      else map_option (\<lambda>(t, r'). (char_of n # t, r')) (scan_string (drop 4 es)))
               else (case simple_escape e of None \<Rightarrow> None
                  | Some x \<Rightarrow> map_option (\<lambda>(t, r'). (x # t, r')) (scan_string es)))
         else map_option (\<lambda>(t, r'). (c # t, r')) (scan_string cs))"
  by pat_completeness auto
termination by (relation "measure length") auto

declare scan_string.simps [simp del]

definition parse_digits :: "bool \<Rightarrow> string \<Rightarrow> (json \<times> string) option" where
  "parse_digits neg t = (let ds = takeWhile is_ascii_digit t;
       digits = (if ds \<noteq> [] \<and> hd ds = CHR ''0'' then [CHR ''0''] else ds);
       rest = drop (length digits) t
     in if digits = [] then None
        else if rest \<noteq> [] \<and> hd rest \<in> {CHR ''.'', CHR ''e'', CHR ''E''} then None
        else map_option (\<lambda>n. (JInt (signed neg n), rest)) (parse_base 10 0 digits))"

definition parse_number :: "string \<Rightarrow> (json \<times> string) option" where
  "parse_number s = (case s of [] \<Rightarrow> None
     | c # cs \<Rightarrow> if c = CHR ''-'' then parse_digits True cs else parse_digits False s)"

definition parse_literal :: "string \<Rightarrow> (json \<times> string) option" where
  "parse_literal s =
     (if prefix ''null'' s then Some (JNull, drop 4 s)
      else if prefix ''true'' s then Some (JBool True, drop 4 s)
      else if prefix ''false'' s then Some (JBool False, drop 5 s)
      else parse_number s)"

fun parse_value :: "nat \<Rightarrow> string \<Rightarrow> (json \<times> string) option"
  and parse_elems :: "nat \<Rightarrow> string \<Rightarrow> (json list \<times> string) option"
  and parse_members :: "nat \<Rightarrow> string \<Rightarrow> ((string \<times> json) list \<times> string) option" where
  "parse_value 0 s = None"
| "parse_value (Suc n) s = (case s of [] \<Rightarrow> None
     | c # cs \<Rightarrow>
         if c = CHR 34 then map_option (\<lambda>(t, r). (JStr t, r)) (scan_string cs)
         else if c = CHR ''['' then
           (if starts_with '']'' (skip_ws cs) then Some (JList [], tl (skip_ws cs))
            else map_option (\<lambda>(xs, r). (JList xs, r)) (parse_elems n (skip_ws cs)))
         else if c = CHR ''{'' then
           (if starts_with ''}'' (skip_ws cs) then Some (JDict [], tl (skip_ws cs))
            else map_option (\<lambda>(kvs, r). (JDict (foldl (\<lambda>m (k, v). AList.update k v m) [] kvs), r))
                   (parse_members n (skip_ws cs)))
         else parse_literal s)"
| "parse_elems 0 s = None"
| "parse_elems (Suc n) s = (case parse_value n s of None \<Rightarrow> None
     | Some (v, r) \<Rightarrow> (case skip_ws r of [] \<Rightarrow> None
         | c # r' \<Rightarrow> if c = CHR '']'' then Some ([v], r')
             else if c = CHR '','' then map_option (\<lambda>(vs, q). (v # vs, q)) (parse_elems n (skip_ws r'))
             else None))"
| "parse_members 0 s = None"
| "parse_members (Suc n) s = (case s of [] \<Rightarrow> None
     | q # cs \<Rightarrow> if q \<noteq> CHR 34 then None
         else (case scan_string cs of None \<Rightarrow> None
           | Some (k, r) \<Rightarrow> (case skip_ws r of [] \<Rightarrow> None
               | c # r1 \<Rightarrow> if c \<noteq> CHR '':'' then None
                   else (case parse_value n (skip_ws r1) of None \<Rightarrow> None
                     | Some (v, r2) \<Rightarrow> (case skip_ws r2 of [] \<Rightarrow> None
                         | c2 # r3 \<Rightarrow> if c2 = CHR ''}'' then Some ([(k, v)], r3)
                             else if c2 = CHR '',''
                             then map_option (\<lambda>(kvs, z). ((k, v) # kvs, z)) (parse_members n (skip_ws r3))
                             else None)))))"

text \<open>Every level of the descent uses up a character of the text or one of the two steps at a
  list element, so twice the length is enough fuel.\<close>

definition json_loads :: "string \<Rightarrow> json option" where
  "json_loads s = (case parse_value (2 * length s + 2) (skip_ws s) of None \<Rightarrow> None
     | Some (j, r) \<Rightarrow> if skip_ws r = [] then Some j else None)"

definition json_dumps :: "json \<Rightarrow> string" where
  "json_dumps j = dumps compact 0 j"

definition json_dumps_indent :: "json \<Rightarrow> string" where
  "json_dumps_indent j = dumps indented 0 j"


section \<open>Decoding inverts encoding\<close>

lemma char_codes [simp]:
  "code (CHR 34) = 34" "code (CHR 92) = 92" "code CHR '','' = 44" "code CHR '':'' = 58"
  "code CHR ''['' = 91" "code CHR '']'' = 93" "code CHR ''{'' = 123" "code CHR ''}'' = 125"
  "code CHR ''u'' = 117" "code CHR ''n'' = 110" "code CHR ''r'' = 114" "code CHR ''t'' = 116"
  "code CHR ''f'' = 102" "code CHR ''b'' = 98" "code CHR ''-'' = 45" "code CHR ''0'' = 48"
  "code CHR ''.'' = 46" "code CHR ''e'' = 101" "code CHR ''E'' = 69" "code CHR '' '' = 32"
  by (simp_all add: code_def)

lemma code_eqI: "code c = n \<Longrightarrow> n < 256 \<Longrightarrow> c = char_of n"
  by (simp flip: code_inject add: code_char_of)

lemma code_bound: "code c < 256"
  unfolding code_def by (rule nat_of_char_less_256)

lemma char_of_code [simp]: "char_of (code c) = c"
  by (simp add: code_def)

lemma parse_base_zeros: "2 \<le> b \<Longrightarrow> parse_base b 0 (replicate k CHR ''0'' @ s) = parse_base b 0 s"
proof (induction k)
  case (Suc k)
  have "digit_value CHR ''0'' = Some 0" by (simp add: digit_value_def)
  with Suc show ?case by simp
qed simp

lemma hex4_facts: "n < 65536 \<Longrightarrow> length (hex4 n) = 4 \<and> parse_base 16 0 (hex4 n) = Some n"
proof -
  assume "n < 65536"
  then have "length (show_hex n) \<le> 4"
    unfolding show_hex_def by (intro show_base_length) auto
  moreover have "parse_base 16 0 (show_hex n) = Some n" by (simp add: show_hex_def parse_show_base)
  ultimately show ?thesis by (simp add: hex4_def zero_pad_def parse_base_zeros)
qed

lemma parse_hex4_hex4: "n < 65536 \<Longrightarrow> parse_hex4 (hex4 n @ r) = Some (n, r)"
  using hex4_facts [of n] by (simp add: parse_hex4_def)

lemma scan_escape_char:
  "scan_string (escape_char c @ t) = map_option (\<lambda>(s, r). (c # s, r)) (scan_string t)"
proof -
  have c: "c = char_of (code c)" by simp
  consider "code c = 34" | "code c = 92" | "code c = 10" | "code c = 13" | "code c = 9" | "code c = 12" | "code c = 8"
    | "32 \<le> code c \<and> code c \<le> 126 \<and> code c \<noteq> 34 \<and> code c \<noteq> 92"
    | "code c \<notin> {34, 92, 10, 13, 9, 12, 8} \<and> \<not> (32 \<le> code c \<and> code c \<le> 126)"
    by auto
  then show ?thesis
  proof cases
    case 1
    then have "c = CHR 34" by (simp flip: code_inject)
    then show ?thesis unfolding \<open>c = CHR 34\<close>
      by (subst scan_string.simps) (simp add: escape_char_def simple_escape_def)
  next
    case 2
    then have "c = CHR 92" by (simp flip: code_inject)
    then show ?thesis unfolding \<open>c = CHR 92\<close>
      by (subst scan_string.simps) (simp add: escape_char_def simple_escape_def)
  next
    case 3
    then have c': "c = LF" by (simp flip: code_inject add: code_char_of)
    show ?thesis unfolding c'
      by (subst scan_string.simps) (simp add: escape_char_def simple_escape_def code_char_of)
  next
    case 4
    then have c': "c = CR" by (simp flip: code_inject add: code_char_of)
    show ?thesis unfolding c'
      by (subst scan_string.simps) (simp add: escape_char_def simple_escape_def code_char_of)
  next
    case 5
    then have c': "c = char_of (9::nat)" by (simp flip: code_inject add: code_char_of)
    show ?thesis unfolding c'
      by (subst scan_string.simps) (simp add: escape_char_def simple_escape_def code_char_of)
  next
    case 6
    then have c': "c = char_of (12::nat)" by (simp flip: code_inject add: code_char_of)
    show ?thesis unfolding c'
      by (subst scan_string.simps) (simp add: escape_char_def simple_escape_def code_char_of)
  next
    case 7
    then have c': "c = char_of (8::nat)" by (simp flip: code_inject add: code_char_of)
    show ?thesis unfolding c'
      by (subst scan_string.simps) (simp add: escape_char_def simple_escape_def code_char_of)
  next
    case 8
    then have "escape_char c = [c]" "c \<noteq> CHR 34" "c \<noteq> CHR 92"
      by (auto simp: escape_char_def Let_def)
    with 8 show ?thesis by (subst scan_string.simps) simp
  next
    case 9
    then have e: "escape_char c = CHR 92 # CHR ''u'' # hex4 (code c)"
      unfolding escape_char_def Let_def by auto
    have "parse_hex4 (hex4 (code c) @ t) = Some (code c, t)" "length (hex4 (code c)) = 4"
      using code_bound [of c] parse_hex4_hex4 [of "code c" t] hex4_facts [of "code c"] by auto
    then show ?thesis using code_bound [of c]
      by (subst scan_string.simps) (simp add: e flip: code_inject)
  qed
qed

lemma scan_quoted: "scan_string (concat (map escape_char s) @ CHR 34 # r) = Some (s, r)"
proof (induction s)
  case Nil
  show ?case by (subst scan_string.simps) simp
qed (simp add: scan_escape_char)

definition value_end :: "string \<Rightarrow> bool" where
  "value_end r = (r = [] \<or> json_ws (hd r) \<or> hd r \<in> {CHR '','', CHR '']'', CHR ''}''})"

lemma value_end_not: "value_end r \<Longrightarrow> r \<noteq> [] \<Longrightarrow>
  \<not> is_ascii_digit (hd r) \<and> hd r \<notin> {CHR ''.'', CHR ''e'', CHR ''E''}"
  by (auto simp: value_end_def json_ws_def is_ascii_digit_def)


lemma show_nat_nonempty [simp]: "show_nat n \<noteq> []"
  by (simp add: show_nat_def)

lemma show_nat_zero_head: "hd (show_nat n) = CHR ''0'' \<Longrightarrow> show_nat n = [CHR ''0'']"
proof -
  assume h: "hd (show_nat n) = CHR ''0''"
  have "n = 0"
  proof (rule ccontr)
    assume "n \<noteq> 0"
    then have "hd (show_base 10 n) \<noteq> CHR ''0''" by (intro show_base_hd) auto
    with h show False by (simp add: show_nat_def)
  qed
  then have "show_nat n = [digit_char 0]" by (simp add: show_nat_def show_base.simps)
  with h show ?thesis by simp
qed

lemma parse_digits_show:
  assumes "value_end r"
  shows "parse_digits neg (show_nat n @ r) = Some (JInt (signed neg n), r)"
proof -
  let ?ds = "show_nat n"
  have dig: "\<forall>c \<in> set ?ds. is_ascii_digit c" using show_nat_ascii by blast
  have rn: "r = [] \<or> \<not> is_ascii_digit (hd r)" using value_end_not [OF assms] by blast
  have tw: "takeWhile is_ascii_digit (?ds @ r) = ?ds"
    using dig rn by (cases r) (auto simp: takeWhile_append2)
  have digits: "(if ?ds \<noteq> [] \<and> hd ?ds = CHR ''0'' then [CHR ''0''] else ?ds) = ?ds"
    using show_nat_zero_head [of n] by auto
  have "\<not> (r \<noteq> [] \<and> hd r \<in> {CHR ''.'', CHR ''e'', CHR ''E''})"
    using value_end_not [OF assms] by blast
  moreover have "parse_base 10 0 ?ds = Some n" by (simp add: show_nat_def parse_show_base)
  ultimately show ?thesis unfolding parse_digits_def Let_def tw digits by simp
qed

lemma parse_number_show:
  assumes "value_end r"
  shows "parse_number (show_int i @ r) = Some (JInt i, r)"
proof (cases "i < 0")
  case True
  then show ?thesis
    using parse_digits_show [OF assms] by (simp add: parse_number_def show_int_def signed_def)
next
  case False
  obtain d ds where dd: "show_nat (nat i) = d # ds" by (meson neq_Nil_conv show_nat_nonempty)
  then have "is_ascii_digit d" using show_nat_ascii [of d "nat i"] by simp
  then have "d \<noteq> CHR ''-''" by (auto simp: is_ascii_digit_def)
  then show ?thesis
    using False dd parse_digits_show [OF assms, of False "nat i"]
    by (simp add: parse_number_def show_int_def signed_def)
qed

definition ws_text :: "string \<Rightarrow> bool" where
  "ws_text s = (\<forall>c \<in> set s. json_ws c)"

definition ok_layout :: "layout \<Rightarrow> bool" where
  "ok_layout l = ((\<exists>sp. item_sep l = CHR '','' # sp \<and> ws_text sp) \<and> (\<forall>d. ws_text (new_line l d)))"

lemma ok_compact: "ok_layout compact" and ok_indented: "ok_layout indented"
  by (auto simp: ok_layout_def compact_def indented_def ws_text_def json_ws_def)

lemma skip_ws_append: "ws_text w \<Longrightarrow> skip_ws (w @ s) = skip_ws s"
  by (simp add: ws_text_def skip_ws_def dropWhile_append2)

lemma skip_ws_stop: "\<not> json_ws c \<Longrightarrow> skip_ws (c # s) = c # s"
  by (simp add: skip_ws_def)

fun wf_json :: "json \<Rightarrow> bool" where
  "wf_json (JList xs) = (\<forall>x \<in> set xs. wf_json x)"
| "wf_json (JDict kvs) = (distinct (map fst kvs) \<and> (\<forall>kv \<in> set kvs. wf_json (snd kv)))"
| "wf_json _ = True"


text \<open>A printed value is not empty and does not begin with white space or a closing mark.\<close>

lemma show_int_head: "\<exists>c s. show_int i = c # s \<and> (is_ascii_digit c \<or> c = CHR ''-'')"
proof (cases "i < 0")
  case False
  obtain d ds where dd: "show_nat (nat i) = d # ds" by (meson neq_Nil_conv show_nat_nonempty)
  then show ?thesis using False show_nat_ascii [of d "nat i"] by (auto simp: show_int_def)
qed (auto simp: show_int_def)

lemma dumps_head: "\<exists>c s. dumps l d j = c # s \<and> \<not> json_ws c \<and> c \<noteq> CHR '']'' \<and> c \<noteq> CHR ''}''"
proof (cases j)
  case (JInt i)
  obtain c s where "show_int i = c # s" "is_ascii_digit c \<or> c = CHR ''-''" using show_int_head by blast
  then show ?thesis using JInt by (auto simp: json_ws_def is_ascii_digit_def)
qed (auto simp: json_ws_def quote_string_def)

lemma parse_literal_int:
  assumes "value_end r"
  shows "parse_literal (show_int i @ r) = Some (JInt i, r)"
proof -
  obtain c s where "show_int i = c # s" "is_ascii_digit c \<or> c = CHR ''-''" using show_int_head by blast
  then have "\<not> prefix ''null'' (show_int i @ r)" "\<not> prefix ''true'' (show_int i @ r)"
    "\<not> prefix ''false'' (show_int i @ r)"
    by (auto simp: is_ascii_digit_def)
  then show ?thesis by (simp add: parse_literal_def parse_number_show [OF assms])
qed

definition parses :: "nat \<Rightarrow> layout \<Rightarrow> nat \<Rightarrow> json \<Rightarrow> bool" where
  "parses n l d j = (\<forall>r. value_end r \<longrightarrow> parse_value n (dumps l d j @ r) = Some (j, r))"

definition printed_ok :: "layout \<Rightarrow> nat \<Rightarrow> json \<Rightarrow> bool" where
  "printed_ok l d j = (\<forall>n. 2 * length (dumps l d j) \<le> n \<longrightarrow> parses n l d j)"

lemma printed_okI:
  assumes "\<And>m r. 2 * length (dumps l d j) \<le> Suc m \<Longrightarrow> value_end r \<Longrightarrow>
    parse_value (Suc m) (dumps l d j @ r) = Some (j, r)"
  shows "printed_ok l d j"
proof -
  have "parses n l d j" if n: "2 * length (dumps l d j) \<le> n" for n
  proof -
    obtain c s where "dumps l d j = c # s" using dumps_head by blast
    with n obtain m where "n = Suc m" by (cases n) auto
    with assms n show ?thesis by (simp only: parses_def) blast
  qed
  then show ?thesis by (simp add: printed_ok_def)
qed

lemma length_join_pos: "length (join sep (x # xs)) = length x + (if xs = [] then 0 else length sep + length (join sep xs))"
  by (cases xs) auto

lemma parse_elems_printed:
  assumes "xs \<noteq> []" "\<forall>x \<in> set xs. printed_ok l d x" "sep = CHR '','' # sp" "ws_text sp" "ws_text cl"
    and "2 * length (join sep (map (dumps l d) xs) @ cl @ '']'') + 1 \<le> n"
  shows "parse_elems n (join sep (map (dumps l d) xs) @ cl @ '']'' @ r) = Some (xs, r)"
  using assms(1,2,6)
proof (induction xs arbitrary: n)
  case (Cons x xs)
  from Cons.prems(3) obtain m where n: "n = Suc m" by (cases n) auto
  have x: "parses m l d x"
    using Cons.prems(2,3) n by (auto simp: printed_ok_def length_join_pos split: if_splits)
  show ?case
  proof (cases xs)
    case Nil
    have "value_end (cl @ '']'' @ r)"
      using assms(5) by (cases cl) (auto simp: value_end_def ws_text_def)
    with x have "parse_value m (dumps l d x @ cl @ '']'' @ r) = Some (x, cl @ '']'' @ r)"
      by (simp add: parses_def)
    moreover have "skip_ws (cl @ '']'' @ r) = '']'' @ r"
      by (simp add: skip_ws_append [OF assms(5)] skip_ws_stop json_ws_def)
    ultimately show ?thesis using Nil n by simp
  next
    case (Cons y ys)
    let ?rest = "join sep (map (dumps l d) xs) @ cl @ '']'' @ r"
    have "value_end (sep @ ?rest)" by (simp add: value_end_def assms(3))
    with x have 1: "parse_value m (dumps l d x @ sep @ ?rest) = Some (x, sep @ ?rest)"
      by (simp add: parses_def)
    have 2: "skip_ws (sep @ ?rest) = CHR '','' # sp @ ?rest"
      by (simp add: assms(3) skip_ws_stop json_ws_def)
    obtain c s where "dumps l d y = c # s" "\<not> json_ws c" using dumps_head by blast
    then have "\<exists>t. ?rest = c # t" using Cons by (cases ys) auto
    then have 3: "skip_ws (sp @ ?rest) = ?rest"
      using skip_ws_append [OF assms(4)] skip_ws_stop [OF \<open>\<not> json_ws c\<close>] by auto
    have "1 \<le> length sep" by (simp add: assms(3))
    then have "parse_elems m ?rest = Some (xs, r)"
      using Cons.prems Cons n by (intro Cons.IH) (auto simp: length_join_pos)
    with 1 2 3 show ?thesis using n Cons by simp
  qed
qed simp


lemma parse_members_printed:
  assumes "kvs \<noteq> []" "\<forall>kv \<in> set kvs. printed_ok l d (snd kv)" "sep = CHR '','' # sp" "ws_text sp"
    and "ws_text cl"
    and "2 * length (join sep (map (\<lambda>(k, v). quote_string k @ '': '' @ dumps l d v) kvs) @ cl @ ''}'') + 1 \<le> n"
  shows "parse_members n (join sep (map (\<lambda>(k, v). quote_string k @ '': '' @ dumps l d v) kvs) @ cl @ ''}'' @ r)
     = Some (kvs, r)"
  using assms(1,2,6)
proof (induction kvs arbitrary: n)
  case (Cons kv kvs)
  let ?D = "\<lambda>(k, v). quote_string k @ '': '' @ dumps l d v"
  obtain k v where kv: "kv = (k, v)" by (cases kv)
  from Cons.prems(3) obtain m where n: "n = Suc m" by (cases n) auto
  have v: "parses m l d v"
    using Cons.prems(2,3) n by (auto simp: kv printed_ok_def length_join_pos split: if_splits)
  obtain c s where c: "dumps l d v = c # s" "\<not> json_ws c" using dumps_head by blast
  have start: "parse_members n (?D (k, v) @ t) =
    (case parse_value m (dumps l d v @ t) of None \<Rightarrow> None
     | Some (v, r2) \<Rightarrow> (case skip_ws r2 of [] \<Rightarrow> None
         | c2 # r3 \<Rightarrow> if c2 = CHR ''}'' then Some ([(k, v)], r3)
             else if c2 = CHR '','' then map_option (\<lambda>(kvs, z). ((k, v) # kvs, z)) (parse_members m (skip_ws r3))
             else None))" for t
  proof -
    have "skip_ws (CHR '' '' # dumps l d v @ t) = dumps l d v @ t"
      using c by (simp add: skip_ws_def json_ws_def)
    moreover have "skip_ws ('': '' @ dumps l d v @ t) = CHR '':'' # CHR '' '' # dumps l d v @ t"
      by (simp add: skip_ws_def json_ws_def)
    ultimately show ?thesis by (simp add: n quote_string_def scan_quoted)
  qed
  show ?case
  proof (cases kvs)
    case Nil
    have "value_end (cl @ ''}'' @ r)"
      using assms(5) by (cases cl) (auto simp: value_end_def ws_text_def)
    with v have "parse_value m (dumps l d v @ cl @ ''}'' @ r) = Some (v, cl @ ''}'' @ r)"
      by (simp add: parses_def)
    moreover have "skip_ws (cl @ ''}'' @ r) = ''}'' @ r"
      by (simp add: skip_ws_append [OF assms(5)] skip_ws_stop json_ws_def)
    ultimately show ?thesis using Nil kv start [of "cl @ ''}'' @ r"] by simp
  next
    case (Cons y ys)
    let ?rest = "join sep (map ?D kvs) @ cl @ ''}'' @ r"
    have "value_end (sep @ ?rest)" by (simp add: value_end_def assms(3))
    with v have 1: "parse_value m (dumps l d v @ sep @ ?rest) = Some (v, sep @ ?rest)"
      by (simp add: parses_def)
    have 2: "skip_ws (sep @ ?rest) = CHR '','' # sp @ ?rest"
      by (simp add: assms(3) skip_ws_stop json_ws_def)
    have "\<exists>t. ?rest = CHR 34 # t"
      using Cons by (cases ys; cases y) (auto simp: quote_string_def)
    then have 3: "skip_ws (sp @ ?rest) = ?rest"
      using skip_ws_append [OF assms(4)] skip_ws_stop [of "CHR 34"] by (auto simp: json_ws_def)
    have "1 \<le> length sep" by (simp add: assms(3))
    then have "parse_members m ?rest = Some (kvs, r)"
      using Cons.prems Cons n by (intro Cons.IH) (auto simp: length_join_pos)
    with 1 2 3 start [of "sep @ ?rest"] show ?thesis using kv Cons by simp
  qed
qed simp

lemma foldl_update_fresh:
  "distinct (map fst (m @ kvs)) \<Longrightarrow> foldl (\<lambda>m (k, v). AList.update k v m) m kvs = m @ kvs"
proof (induction kvs arbitrary: m)
  case (Cons kv kvs)
  obtain k v where kv: "kv = (k, v)" by (cases kv)
  have "k \<notin> fst ` set m" using Cons.prems kv by auto
  then have "AList.update k v m = m @ [(k, v)]" by (induction m) auto
  with Cons kv show ?case by simp
qed simp

lemma printed_value: "ok_layout l \<Longrightarrow> wf_json j \<Longrightarrow> printed_ok l d j"
proof (induction j arbitrary: d rule: json_induct)
  case (JInt i)
  obtain c s where cs: "show_int i = c # s" "is_ascii_digit c \<or> c = CHR ''-''" using show_int_head by blast
  then have "c \<noteq> CHR 34" "c \<noteq> CHR ''[''" "c \<noteq> CHR ''{''" by (auto simp: is_ascii_digit_def)
  then have "parse_value (Suc n) (show_int i @ r) = Some (JInt i, r)" if "value_end r" for n r
    using parse_literal_int [OF that, of i] cs(1) by simp
  then show ?case by (intro printed_okI) simp
next
  case (JList xs)
  show ?case
  proof (cases "xs = []")
    case True
    then show ?thesis by (intro printed_okI) (simp add: skip_ws_def json_ws_def starts_with_def)
  next
    case False
    from JList.prems obtain sp where sp: "item_sep l = CHR '','' # sp" "ws_text sp"
      and nl: "\<And>d. ws_text (new_line l d)" by (auto simp: ok_layout_def)
    let ?sep = "item_sep l @ new_line l (Suc d)"
    let ?body = "join ?sep (map (dumps l (Suc d)) xs)"
    have ok: "\<forall>x \<in> set xs. printed_ok l (Suc d) x" using JList by auto
    have sep: "?sep = CHR '','' # (sp @ new_line l (Suc d))" "ws_text (sp @ new_line l (Suc d))"
      using sp nl by (auto simp: ws_text_def)
    obtain c s where c: "?body @ new_line l d @ '']'' = c # s" "\<not> json_ws c" "c \<noteq> CHR '']''"
      using dumps_head [of l "Suc d" "hd xs"] False by (cases xs) (auto, metis append_Cons join.simps(2,3) list.map_disc_iff neq_Nil_conv)
    have "parse_value n (dumps l d (JList xs) @ r) = Some (JList xs, r)"
      if n: "2 * length (dumps l d (JList xs)) \<le> n" for n r
    proof -
      from n False obtain m where m: "n = Suc m" by (cases n) auto
      have skip: "skip_ws (new_line l (Suc d) @ (?body @ new_line l d @ '']'') @ r) = (?body @ new_line l d @ '']'') @ r"
        using c(1,2) by (simp add: skip_ws_append [OF nl] skip_ws_stop)
      have el: "parse_elems m (?body @ new_line l d @ '']'' @ r) = Some (xs, r)"
        using n m False by (intro parse_elems_printed [OF False ok sep nl]) auto
      have eq: "?body @ new_line l d @ '']'' @ r = c # s @ r"
        using arg_cong [OF c(1), of "\<lambda>t. t @ r"] by simp
      have "parse_elems m (c # s @ r) = Some (xs, r)" using el unfolding eq .
      then show ?thesis using False c skip m by (simp add: starts_with_def)
    qed
    then show ?thesis by (simp add: printed_ok_def parses_def)
  qed
next
  case (JDict kvs)
  show ?case
  proof (cases "kvs = []")
    case True
    then show ?thesis by (intro printed_okI) (simp add: skip_ws_def json_ws_def starts_with_def)
  next
    case False
    from JDict.prems obtain sp where sp: "item_sep l = CHR '','' # sp" "ws_text sp"
      and nl: "\<And>d. ws_text (new_line l d)" by (auto simp: ok_layout_def)
    let ?sep = "item_sep l @ new_line l (Suc d)"
    let ?D = "\<lambda>(k, v). quote_string k @ '': '' @ dumps l (Suc d) v"
    let ?body = "join ?sep (map ?D kvs)"
    have ok: "\<forall>kv \<in> set kvs. printed_ok l (Suc d) (snd kv)" using JDict by auto
    have sep: "?sep = CHR '','' # (sp @ new_line l (Suc d))" "ws_text (sp @ new_line l (Suc d))"
      using sp nl by (auto simp: ws_text_def)
    obtain s where c: "?body @ new_line l d @ ''}'' = CHR 34 # s"
      using False by (cases kvs rule: list.exhaust; cases "tl kvs") (auto simp: quote_string_def)
    have dist: "foldl (\<lambda>m (k, v). AList.update k v m) [] kvs = kvs"
      using foldl_update_fresh [of "[]" kvs] JDict.prems by simp
    have "parse_value n (dumps l d (JDict kvs) @ r) = Some (JDict kvs, r)"
      if n: "2 * length (dumps l d (JDict kvs)) \<le> n" for n r
    proof -
      from n False obtain m where m: "n = Suc m" by (cases n) auto
      have skip: "skip_ws (new_line l (Suc d) @ (?body @ new_line l d @ ''}'') @ r) = (?body @ new_line l d @ ''}'') @ r"
        using c by (simp add: skip_ws_append [OF nl] skip_ws_stop json_ws_def)
      have el: "parse_members m (?body @ new_line l d @ ''}'' @ r) = Some (kvs, r)"
        using n m False by (intro parse_members_printed [OF False ok sep nl]) auto
      have eq: "?body @ new_line l d @ ''}'' @ r = CHR 34 # s @ r"
        using arg_cong [OF c, of "\<lambda>t. t @ r"] by simp
      have "parse_members m (CHR 34 # s @ r) = Some (kvs, r)" using el unfolding eq .
      then show ?thesis using False c skip m dist by (simp add: starts_with_def)
    qed
    then show ?thesis by (simp add: printed_ok_def parses_def)
  qed
next
  case (JStr s)
  show ?case by (intro printed_okI) (simp add: quote_string_def scan_quoted)
qed (rule printed_okI; simp add: parse_literal_def)+

lemma loads_dumps:
  assumes "ok_layout l" "wf_json j" "ws_text tail"
  shows "json_loads (dumps l 0 j @ tail) = Some j"
proof -
  obtain c s where "dumps l 0 j = c # s" "\<not> json_ws c" using dumps_head by blast
  then have "skip_ws (dumps l 0 j @ tail) = dumps l 0 j @ tail" by (simp add: skip_ws_stop)
  moreover have "value_end tail" using assms(3) by (cases tail) (auto simp: value_end_def ws_text_def)
  moreover have "skip_ws tail = []" using assms(3) by (simp add: skip_ws_def ws_text_def)
  ultimately show ?thesis
    using printed_value [OF assms(1,2), of 0]
    by (simp add: json_loads_def printed_ok_def parses_def del: parse_value.simps)
qed


text \<open>Encoded text is printable ASCII, apart from the line feeds of the indented layout.\<close>

lemma escape_char_printable: "x \<in> set (escape_char c) \<Longrightarrow> 32 \<le> code x \<and> code x \<le> 126"
proof -
  assume x: "x \<in> set (escape_char c)"
  have h: "32 \<le> code x \<and> code x \<le> 126" if "x \<in> set (hex4 (code c))"
  proof -
    have z: "y \<in> set (show_hex (code c)) \<Longrightarrow> 48 \<le> code y \<and> code y \<le> 102" for y
      using show_base_digits [of 16 "code c"] by (auto simp: show_hex_def code_digit_char)
    from that have "x = CHR ''0'' \<or> x \<in> set (show_hex (code c))" by (auto simp: hex4_def zero_pad_def)
    then show ?thesis using z [of x] by auto
  qed
  from x show ?thesis
    using h by (auto simp: escape_char_def Let_def split: if_splits)
qed

lemma quote_string_printable: "x \<in> set (quote_string s) \<Longrightarrow> 32 \<le> code x \<and> code x \<le> 126"
  using escape_char_printable by (auto simp: quote_string_def)

lemma show_int_printable: "x \<in> set (show_int i) \<Longrightarrow> 32 \<le> code x \<and> code x \<le> 126"
  using show_nat_ascii by (fastforce simp: show_int_def is_ascii_digit_def split: if_splits)

definition printable_layout :: "layout \<Rightarrow> bool" where
  "printable_layout l = (\<forall>d. CR \<notin> set (item_sep l @ new_line l d))"

lemma dumps_no_CR: "printable_layout l \<Longrightarrow> CR \<notin> set (dumps l d j)"
proof (induction j arbitrary: d rule: json_induct)
  case (JInt i)
  then show ?case using show_int_printable [of CR i] by auto
next
  case (JStr s)
  then show ?case using quote_string_printable [of CR s] by auto
next
  case (JList xs)
  let ?sep = "item_sep l @ new_line l (Suc d)"
  have sep: "CR \<notin> set ?sep" "CR \<notin> set (new_line l (Suc d))" "CR \<notin> set (new_line l d)"
    using JList.prems by (auto simp: printable_layout_def)
  have "CR \<notin> set (join ?sep (map (dumps l (Suc d)) xs))"
    using set_join [of ?sep "map (dumps l (Suc d)) xs"] sep(1) JList by fastforce
  with sep show ?case by (auto simp flip: code_inject)
next
  case (JDict kvs)
  let ?sep = "item_sep l @ new_line l (Suc d)"
  let ?f = "\<lambda>(k, v). quote_string k @ '': '' @ dumps l (Suc d) v"
  have sep: "CR \<notin> set ?sep" "CR \<notin> set (new_line l (Suc d))" "CR \<notin> set (new_line l d)"
    using JDict.prems by (auto simp: printable_layout_def)
  have "CR \<notin> set (?f kv)" if "kv \<in> set kvs" for kv
    using that JDict quote_string_printable [of CR "fst kv"] by (cases kv) (auto simp flip: code_inject)
  then have "CR \<notin> set (join ?sep (map ?f kvs))"
    using set_join [of ?sep "map ?f kvs"] sep(1) by fastforce
  with sep show ?case by (auto simp flip: code_inject)
next
  case (JBool b)
  then show ?case by (cases b) (simp_all flip: code_inject, simp_all add: code_def)
next
  case JNull
  then show ?case by (simp flip: code_inject) (simp add: code_def)
qed

lemma json_dumps_no_CR: "CR \<notin> set (json_dumps j)" and json_dumps_indent_no_CR: "CR \<notin> set (json_dumps_indent j)"
  unfolding json_dumps_def json_dumps_indent_def
  by (rule dumps_no_CR; auto simp: printable_layout_def compact_def indented_def simp flip: code_inject)+

end
