(* ===== verification/Ip_Address.thy ===== *)
theory Ip_Address
  imports Py_Str
begin

text \<open>
  The part of Python's \<open>ipaddress\<close> module the program relies on: parsing and printing
  of IPv4 and IPv6 addresses and networks, and the overlap test. Every place of the program that
  canonicalises a route (\<open>str(ip_network(value, strict=False))\<close>) goes through these
  functions. An address is kept as its groups (four octets, or eight hextets and an optional
  scope id), a network as its address and prefix length. The main result is that parsing
  inverts printing, so canonical text is a fixed point of canonicalisation.
\<close>

datatype ip = V4 "nat list" | V6 "nat list" "string option"

datatype ipnet = Net ip nat

section \<open>IPv4\<close>

definition ascii_digits :: "string \<Rightarrow> bool" where
  "ascii_digits s = (s \<noteq> [] \<and> (\<forall>c \<in> set s. is_ascii_digit c))"

definition parse_octet :: "string \<Rightarrow> nat option" where
  "parse_octet s =
     (if \<not> ascii_digits s \<or> 3 < length s then None
      else if s \<noteq> ''0'' \<and> hd s = CHR ''0'' then None
      else case parse_base 10 0 s of None \<Rightarrow> None
        | Some n \<Rightarrow> if 255 < n then None else Some n)"

fun option_all :: "'a option list \<Rightarrow> 'a list option" where
  "option_all [] = Some []"
| "option_all (None # _) = None"
| "option_all (Some x # xs) = map_option (\<lambda>ys. x # ys) (option_all xs)"

definition parse_v4 :: "string \<Rightarrow> nat list option" where
  "parse_v4 s = (let parts = split_on CHR ''.'' s in
     if length parts \<noteq> 4 then None else option_all (map parse_octet parts))"

definition show_v4 :: "nat list \<Rightarrow> string" where
  "show_v4 os = join ''.'' (map show_nat os)"

section \<open>IPv6\<close>

definition parse_hextet :: "string \<Rightarrow> nat option" where
  "parse_hextet s = (if s = [] \<or> 4 < length s then None else parse_base 16 0 s)"

text \<open>The two hextets an IPv4-style suffix stands for.\<close>

definition v4_suffix_parts :: "nat list \<Rightarrow> string list" where
  "v4_suffix_parts os = [show_hex (os ! 0 * 256 + os ! 1), show_hex (os ! 2 * 256 + os ! 3)]"

definition expand_v4_suffix :: "string list \<Rightarrow> string list option" where
  "expand_v4_suffix parts =
     (if CHR ''.'' \<in> set (last parts)
      then map_option (\<lambda>os. butlast parts @ v4_suffix_parts os) (parse_v4 (last parts))
      else Some parts)"

text \<open>The position of a \<open>::\<close>, and how many parts stand before and after it.\<close>

definition skip_indices :: "string list \<Rightarrow> nat list" where
  "skip_indices parts = filter (\<lambda>i. parts ! i = []) [1..<length parts - 1]"

definition split_around :: "string list \<Rightarrow> nat \<Rightarrow> (nat \<times> nat) option" where
  "split_around parts i =
     (let hi = (if hd parts = [] then i - 1 else i);
          lo0 = length parts - i - 1;
          lo = (if last parts = [] then lo0 - 1 else lo0)
      in if hd parts = [] \<and> hi \<noteq> 0 \<or> last parts = [] \<and> lo \<noteq> 0 then None
         else if 8 < hi + lo + 1 then None else Some (hi, lo))"

definition parse_v6_parts :: "string list \<Rightarrow> nat list option" where
  "parse_v6_parts parts =
     (if 9 < length parts then None
      else case skip_indices parts of
        [] \<Rightarrow> if length parts \<noteq> 8 then None else option_all (map parse_hextet parts)
      | [i] \<Rightarrow> (case split_around parts i of None \<Rightarrow> None
          | Some (hi, lo) \<Rightarrow>
              (case (option_all (map parse_hextet (take hi parts)),
                     option_all (map parse_hextet (drop (length parts - lo) parts))) of
                 (Some hs, Some ls) \<Rightarrow> Some (hs @ replicate (8 - (hi + lo)) 0 @ ls)
               | _ \<Rightarrow> None))
      | _ \<Rightarrow> None)"

definition parse_v6_int :: "string \<Rightarrow> nat list option" where
  "parse_v6_int s = (let parts = split_on CHR '':'' s in
     if length parts < 3 then None
     else Option.bind (expand_v4_suffix parts) parse_v6_parts)"

definition parse_v6 :: "string \<Rightarrow> (nat list \<times> string option) option" where
  "parse_v6 s =
     (if CHR ''/'' \<in> set s then None
      else case cut CHR ''%'' s of
        (addr, None) \<Rightarrow> map_option (\<lambda>g. (g, None)) (parse_v6_int addr)
      | (addr, Some scope) \<Rightarrow>
          if scope = [] \<or> CHR ''%'' \<in> set scope then None
          else map_option (\<lambda>g. (g, Some scope)) (parse_v6_int addr))"

text \<open>The scan for the longest run of zero hextets: (best start, best length, start, length).\<close>

fun zero_scan :: "nat \<Rightarrow> nat list \<Rightarrow> (nat \<times> nat) \<times> (nat option \<times> nat) \<Rightarrow> nat \<times> nat" where
  "zero_scan i [] ((bs, bl), _) = (bs, bl)"
| "zero_scan i (h # hs) ((bs, bl), (cs, cl)) =
     (if h = 0 then
        (let cs' = (case cs of None \<Rightarrow> i | Some j \<Rightarrow> j); cl' = cl + 1
         in zero_scan (i + 1) hs
              (if bl < cl' then (cs', cl') else (bs, bl), (Some cs', cl')))
      else zero_scan (i + 1) hs ((bs, bl), (None, 0)))"

definition best_zero_run :: "nat list \<Rightarrow> nat \<times> nat" where
  "best_zero_run hs = zero_scan 0 hs ((0, 0), (None, 0))"

definition compress_parts :: "nat list \<Rightarrow> string list" where
  "compress_parts hs = (let (s, l) = best_zero_run hs; ps = map show_hex hs in
     if 1 < l then
       (if s = 0 then [[]] else []) @ take s ps @ [[]] @ drop (s + l) ps
         @ (if s + l = length hs then [[]] else [])
     else ps)"

definition show_v6 :: "nat list \<Rightarrow> string option \<Rightarrow> string" where
  "show_v6 hs scope = join '':'' (compress_parts hs) @
     (case scope of None \<Rightarrow> [] | Some z \<Rightarrow> CHR ''%'' # z)"

section \<open>Addresses and networks\<close>

definition ip_address :: "string \<Rightarrow> ip option" where
  "ip_address s = (case parse_v4 s of Some os \<Rightarrow> Some (V4 os)
     | None \<Rightarrow> map_option (\<lambda>(g, z). V6 g z) (parse_v6 s))"

fun show_ip :: "ip \<Rightarrow> string" where
  "show_ip (V4 os) = show_v4 os"
| "show_ip (V6 hs z) = show_v6 hs z"

text \<open>\<open>packed & netmask\<close> and \<open>packed | hostmask\<close>, group by group (\<open>w\<close> bits each).\<close>

fun mask_groups :: "nat \<Rightarrow> nat \<Rightarrow> nat list \<Rightarrow> nat list" where
  "mask_groups w p [] = []"
| "mask_groups w p (g # gs) =
     (let k = min w p in (g div 2 ^ (w - k)) * 2 ^ (w - k) # mask_groups w (p - k) gs)"

fun fill_groups :: "nat \<Rightarrow> nat \<Rightarrow> nat list \<Rightarrow> nat list" where
  "fill_groups w p [] = []"
| "fill_groups w p (g # gs) =
     (let k = min w p in ((g div 2 ^ (w - k)) * 2 ^ (w - k) + (2 ^ (w - k) - 1))
        # fill_groups w (p - k) gs)"

definition netmask4 :: "nat \<Rightarrow> nat list" where
  "netmask4 p = mask_groups 8 p [255, 255, 255, 255]"

definition parse_prefix :: "nat \<Rightarrow> string \<Rightarrow> nat option" where
  "parse_prefix m s = (if ascii_digits s then
     (case parse_base 10 0 s of None \<Rightarrow> None | Some p \<Rightarrow> if p \<le> m then Some p else None)
   else None)"

definition netmask_prefix :: "nat list \<Rightarrow> nat option" where
  "netmask_prefix os = (case find (\<lambda>p. netmask4 p = os) [0..<33] of Some p \<Rightarrow> Some p
     | None \<Rightarrow> find (\<lambda>p. netmask4 p = map (\<lambda>x. 255 - x) os) [0..<33])"

definition parse_mask4 :: "string \<Rightarrow> nat option" where
  "parse_mask4 s = (case parse_prefix 32 s of Some p \<Rightarrow> Some p
     | None \<Rightarrow> Option.bind (parse_v4 s) netmask_prefix)"

definition split_netmask :: "string \<Rightarrow> (string \<times> string option) option" where
  "split_netmask s = (case split_on CHR ''/'' s of
     [a] \<Rightarrow> Some (a, None) | [a, m] \<Rightarrow> Some (a, Some m) | _ \<Rightarrow> None)"

text \<open>
  \<open>IPv4Network\<close> and \<open>IPv6Network\<close>. Masking a network address away from its host
  bits also drops the scope id, as it does in CPython.
\<close>

definition network4 :: "bool \<Rightarrow> string \<Rightarrow> string option \<Rightarrow> ipnet result option" where
  "network4 strict a m = (case parse_v4 a of None \<Rightarrow> None
     | Some os \<Rightarrow>
        (case (case m of None \<Rightarrow> Some 32 | Some t \<Rightarrow> parse_mask4 t) of None \<Rightarrow> None
         | Some p \<Rightarrow> if mask_groups 8 p os = os then Some (Inr (Net (V4 os) p))
             else if strict then Some (Inl ValueError)
             else Some (Inr (Net (V4 (mask_groups 8 p os)) p))))"

definition network6 :: "bool \<Rightarrow> string \<Rightarrow> string option \<Rightarrow> ipnet result option" where
  "network6 strict a m = (case parse_v6 a of None \<Rightarrow> None
     | Some (hs, z) \<Rightarrow>
        (case (case m of None \<Rightarrow> Some 128 | Some t \<Rightarrow> parse_prefix 128 t) of None \<Rightarrow> None
         | Some p \<Rightarrow> if mask_groups 16 p hs = hs then Some (Inr (Net (V6 hs z) p))
             else if strict then Some (Inl ValueError)
             else Some (Inr (Net (V6 (mask_groups 16 p hs) None) p))))"

definition ip_network :: "bool \<Rightarrow> string \<Rightarrow> ipnet result" where
  "ip_network strict s = (case split_netmask s of None \<Rightarrow> Inl ValueError
     | Some (a, m) \<Rightarrow> (case network4 strict a m of Some r \<Rightarrow> r
         | None \<Rightarrow> (case network6 strict a m of Some r \<Rightarrow> r | None \<Rightarrow> Inl ValueError)))"

fun show_net :: "ipnet \<Rightarrow> string" where
  "show_net (Net a p) = show_ip a @ ''/'' @ show_nat p"

fun ip_version :: "ip \<Rightarrow> nat" where
  "ip_version (V4 _) = 4"
| "ip_version (V6 _ _) = 6"

fun net_version :: "ipnet \<Rightarrow> nat" where
  "net_version (Net a _) = ip_version a"

fun in_net :: "ip \<Rightarrow> ipnet \<Rightarrow> bool" where
  "in_net (V4 os) (Net (V4 ns) p) = (mask_groups 8 p os = ns)"
| "in_net (V6 hs _) (Net (V6 ns _) p) = (mask_groups 16 p hs = ns)"
| "in_net _ _ = False"

fun broadcast_address :: "ipnet \<Rightarrow> ip" where
  "broadcast_address (Net (V4 os) p) = V4 (fill_groups 8 p os)"
| "broadcast_address (Net (V6 hs _) p) = V6 (fill_groups 16 p hs) None"

fun network_address :: "ipnet \<Rightarrow> ip" where
  "network_address (Net a p) = a"

definition overlaps :: "ipnet \<Rightarrow> ipnet \<Rightarrow> bool" where
  "overlaps a b = (in_net (network_address a) b \<or> in_net (broadcast_address a) b
     \<or> in_net (network_address b) a \<or> in_net (broadcast_address b) a)"

section \<open>Well-formed values\<close>

definition wf_scope :: "string option \<Rightarrow> bool" where
  "wf_scope z = (case z of None \<Rightarrow> True
     | Some t \<Rightarrow> t \<noteq> [] \<and> CHR ''%'' \<notin> set t \<and> CHR ''/'' \<notin> set t)"

fun wf_ip :: "ip \<Rightarrow> bool" where
  "wf_ip (V4 os) = (length os = 4 \<and> (\<forall>x \<in> set os. x < 256))"
| "wf_ip (V6 hs z) = (length hs = 8 \<and> (\<forall>x \<in> set hs. x < 65536) \<and> wf_scope z)"

fun wf_net :: "ipnet \<Rightarrow> bool" where
  "wf_net (Net (V4 os) p) = (wf_ip (V4 os) \<and> p \<le> 32 \<and> mask_groups 8 p os = os)"
| "wf_net (Net (V6 hs z) p) = (wf_ip (V6 hs z) \<and> p \<le> 128 \<and> mask_groups 16 p hs = hs)"


lemma option_all_Some_iff: "option_all xs = Some ys \<longleftrightarrow> xs = map Some ys"
proof (induction xs arbitrary: ys rule: option_all.induct)
  case (3 x xs)
  then show ?case by (cases ys) auto
qed auto

lemma parse_octet_bound: "parse_octet s = Some n \<Longrightarrow> n < 256"
  by (auto simp: parse_octet_def split: if_splits option.splits)

lemma ascii_digits_show [simp]: "ascii_digits (show_nat n)"
  by (simp add: ascii_digits_def show_nat_ascii) (simp add: show_nat_def)

lemma parse_show_nat [simp]: "parse_base 10 0 (show_nat n) = Some n"
  by (simp add: show_nat_def parse_show_base)

lemma parse_show_octet: "n < 256 \<Longrightarrow> parse_octet (show_nat n) = Some n"
proof -
  assume n: "n < 256"
  have "length (show_nat n) \<le> 3"
    unfolding show_nat_def by (rule show_base_length) (use n in auto)
  moreover have "show_nat n = ''0'' \<or> hd (show_nat n) \<noteq> CHR ''0''"
  proof (cases "n = 0")
    case True
    have "code (digit_char 0) = code CHR ''0''" by (simp add: code_digit_char) (simp add: code_def)
    then have "digit_char 0 = CHR ''0''" by simp
    with True show ?thesis by (simp add: show_nat_def show_base.simps)
  next
    case False
    then show ?thesis using show_base_hd [of 10 n] by (simp add: show_nat_def)
  qed
  ultimately show ?thesis using n by (auto simp: parse_octet_def)
qed

lemma show_nat_no: "\<not> is_ascii_digit c \<Longrightarrow> c \<notin> set (show_nat n)"
  using show_nat_ascii by blast

lemma dot_not_digit [simp]: "\<not> is_ascii_digit CHR ''.''" and slash_not_digit [simp]: "\<not> is_ascii_digit CHR ''/''"
  and colon_not_digit [simp]: "\<not> is_ascii_digit CHR '':''" and percent_not_digit [simp]: "\<not> is_ascii_digit CHR ''%''"
  by (simp_all add: is_ascii_digit_def code_def)

lemma parse_v4_wf: "parse_v4 s = Some os \<Longrightarrow> wf_ip (V4 os)"
proof -
  assume "parse_v4 s = Some os"
  then have l: "length (split_on CHR ''.'' s) = 4" and "option_all (map parse_octet (split_on CHR ''.'' s)) = Some os"
    by (auto simp: parse_v4_def Let_def split: if_splits)
  then have m: "map parse_octet (split_on CHR ''.'' s) = map Some os" by (simp add: option_all_Some_iff)
  have "x < 256" if "x \<in> set os" for x
  proof -
    from that have "Some x \<in> set (map parse_octet (split_on CHR ''.'' s))" unfolding m by simp
    then show ?thesis using parse_octet_bound by (auto dest: sym)
  qed
  moreover from arg_cong [OF m, of length] l have "length os = 4" by simp
  ultimately show ?thesis by simp
qed

lemma parse_show_v4: "wf_ip (V4 os) \<Longrightarrow> parse_v4 (show_v4 os) = Some os"
proof -
  assume wf: "wf_ip (V4 os)"
  then have "os \<noteq> []" by auto
  then have "split_on CHR ''.'' (show_v4 os) = map show_nat os"
    unfolding show_v4_def by (subst split_on_join) (auto simp: show_nat_no)
  moreover have "map (parse_octet \<circ> show_nat) os = map Some os"
    using wf by (simp add: parse_show_octet)
  ultimately show ?thesis using wf by (simp add: parse_v4_def option_all_Some_iff)
qed

lemma set_join_mem: "c \<in> set (join sep ls) \<Longrightarrow> c \<in> set sep \<or> (\<exists>l \<in> set ls. c \<in> set l)"
  using set_join [of sep ls] by blast

lemma split_on_mem: "c \<in> set s \<Longrightarrow> c \<noteq> d \<Longrightarrow> \<exists>l \<in> set (split_on d s). c \<in> set l"
proof (induction s)
  case (Cons x xs)
  then show ?case by (auto split: list.splits)
qed simp

lemma parse_v4_chars:
  assumes "c \<in> set s" "\<not> is_ascii_digit c" "c \<noteq> CHR ''.''"
  shows "parse_v4 s = None"
proof (rule ccontr)
  assume "parse_v4 s \<noteq> None"
  then obtain os where "parse_v4 s = Some os" by auto
  then have m: "map parse_octet (split_on CHR ''.'' s) = map Some os"
    by (auto simp: parse_v4_def Let_def option_all_Some_iff split: if_splits)
  obtain l where l: "l \<in> set (split_on CHR ''.'' s)" "c \<in> set l"
    using split_on_mem assms by blast
  from l(1) have "parse_octet l \<in> set (map Some os)" unfolding m [symmetric] by simp
  then have "ascii_digits l" by (auto simp: parse_octet_def split: if_splits)
  with l(2) assms(2) show False by (simp add: ascii_digits_def)
qed

section \<open>IPv6 text\<close>

lemma parse_show_hextet: "n < 65536 \<Longrightarrow> parse_hextet (show_hex n) = Some n"
proof -
  assume n: "n < 65536"
  have "length (show_hex n) \<le> 4"
    unfolding show_hex_def by (rule show_base_length) (use n in auto)
  then show ?thesis by (simp add: parse_hextet_def parse_show_base show_hex_def)
qed

lemma show_hex_nonempty [simp]: "show_hex n \<noteq> []"
  by (simp add: show_hex_def)

lemma show_hex_chars:
  "c \<in> set (show_hex n) \<Longrightarrow> is_ascii_digit c \<or> 97 \<le> code c \<and> code c \<le> 102"
proof -
  assume "c \<in> set (show_hex n)"
  then obtain d where "d < 16" "c = digit_char d"
    using show_base_digits [of 16 n] by (auto simp: show_hex_def)
  then show ?thesis by (auto simp: is_ascii_digit_def code_digit_char)
qed

lemma show_hex_no [simp]:
  "CHR '':'' \<notin> set (show_hex n)" "CHR ''.'' \<notin> set (show_hex n)"
  "CHR ''%'' \<notin> set (show_hex n)" "CHR ''/'' \<notin> set (show_hex n)"
  using show_hex_chars [of _ n] by (force simp: is_ascii_digit_def code_def)+

text \<open>The scan returns a range of zeros inside the list.\<close>

definition zero_range :: "nat list \<Rightarrow> nat \<Rightarrow> nat \<Rightarrow> bool" where
  "zero_range hs s l = (s + l \<le> length hs \<and> (\<forall>i. s \<le> i \<and> i < s + l \<longrightarrow> hs ! i = 0))"

lemma zero_scan_range:
  assumes "hs = pre @ rest" "i = length pre" "zero_range hs bs bl"
    and "cs = None \<longrightarrow> cl = 0"
    and "\<And>j. cs = Some j \<Longrightarrow> j + cl = i \<and> zero_range hs j cl"
    and "zero_scan i rest ((bs, bl), (cs, cl)) = (s, l)"
  shows "zero_range hs s l"
  using assms
proof (induction rest arbitrary: pre i bs bl cs cl)
  case Nil
  then show ?case by simp
next
  case (Cons h rest)
  have step: "hs = (pre @ [h]) @ rest" "i + 1 = length (pre @ [h])" using Cons.prems by auto
  show ?case
  proof (cases "h = 0")
    case True
    define j where "j = (case cs of None \<Rightarrow> i | Some j \<Rightarrow> j)"
    have jc: "j + (cl + 1) = i + 1" and "zero_range hs j cl"
      using Cons.prems by (auto simp: j_def zero_range_def split: option.splits)
    moreover have "hs ! i = 0" "i < length hs" using Cons.prems True by auto
    ultimately have zr: "zero_range hs j (cl + 1)"
      unfolding zero_range_def by (metis add_Suc_right add_right_imp_eq Suc_eq_plus1 Suc_leI less_SucE)
    show ?thesis
    proof (cases "bl < cl + 1")
      case True
      then show ?thesis
        using Cons.IH [OF step zr, of "Some j" "cl + 1"] Cons.prems(6) \<open>h = 0\<close> jc zr by (simp add: j_def Let_def)
    next
      case False
      then show ?thesis
        using Cons.IH [OF step Cons.prems(3), of "Some j" "cl + 1"] Cons.prems(6) \<open>h = 0\<close> jc zr
        by (simp add: j_def Let_def)
    qed
  next
    case False
    then show ?thesis using Cons.IH [OF step Cons.prems(3), of None 0] Cons.prems(6) by simp
  qed
qed

lemma best_zero_run_range: "best_zero_run hs = (s, l) \<Longrightarrow> zero_range hs s l"
  unfolding best_zero_run_def
  by (rule zero_scan_range [of hs "[]" hs 0 0 0 None 0]) (auto simp: zero_range_def)


text \<open>Parsing the compressed parts: the hextets outside the range, zeros inside it.\<close>

definition compressed :: "nat list \<Rightarrow> nat \<Rightarrow> nat \<Rightarrow> string list" where
  "compressed hs s l = (let ps = map show_hex hs in
     (if s = 0 then [[]] else []) @ take s ps @ [[]] @ drop (s + l) ps
       @ (if s + l = length hs then [[]] else []))"

lemma length_8_cases:
  assumes "length hs = 8"
  obtains a b c d e f g h where "hs = [a, b, c, d, e, f, g, h]"
proof -
  have "\<exists>a b c d e f g h. hs = [a, b, c, d, e, f, g, h]"
    using assms by (auto simp: numeral_eq_Suc length_Suc_conv)
  then show ?thesis using that by blast
qed

lemma parse_compressed:
  assumes "length hs = 8" "\<forall>x \<in> set hs. x < 65536" "zero_range hs s l" "1 < l"
  shows "parse_v6_parts (compressed hs s l) = Some hs"
proof -
  from assms(1) obtain a b c d e f g h where hs: "hs = [a, b, c, d, e, f, g, h]"
    by (rule length_8_cases)
  have z: "\<And>i. i \<in> {s..<s+l} \<Longrightarrow> hs ! i = 0" and sl: "s + l \<le> 8"
    using assms(1,3) by (auto simp: zero_range_def)
  have ph: "parse_hextet (show_hex x) = Some x" if "x \<in> set hs" for x
    using assms(2) that parse_show_hextet by blast
  note ph' = ph [of a] ph [of b] ph [of c] ph [of d] ph [of e] ph [of f] ph [of g] ph [of h]
  have upt: "[1..<2] = [1]" "[1..<3] = [1,2]" "[1..<4] = [1,2,3]" "[1..<5] = [1,2,3,4]"
    "[1..<6] = [1,2,3,4,5]" "[1..<7] = [1,2,3,4,5,6]" "[1..<8] = [1,2,3,4,5,6,7::nat]"
    by (simp_all add: upt_rec)
  have "(s, l) \<in> set (concat (map (\<lambda>s. map (\<lambda>l. (s, l)) [2..<9 - s]) [0..<7]))"
    using sl assms(4) by (auto simp: image_iff intro!: bexI [of _ s])
  then have "(s, l) \<in> {(0,2),(0,3),(0,4),(0,5),(0,6),(0,7),(0,8),(1,2),(1,3),(1,4),(1,5),(1,6),(1,7),
     (2,2),(2,3),(2,4),(2,5),(2,6),(3,2),(3,3),(3,4),(3,5),(4,2),(4,3),(4,4),(5,2),(5,3),(6,2)}"
    by (simp add: upt_rec numeral_eq_Suc)
  moreover note z' = z [of 0] z [of 1] z [of 2] z [of 3] z [of 4] z [of 5] z [of 6] z [of 7]
  ultimately show ?thesis
    using z' ph' unfolding hs
    by (elim insertE emptyE; simp add: compressed_def parse_v6_parts_def skip_indices_def upt
        split_around_def numeral_eq_Suc Let_def)
qed


lemma compress_parts_eq:
  "compress_parts hs = (case best_zero_run hs of (s, l) \<Rightarrow>
     if 1 < l then compressed hs s l else map show_hex hs)"
  by (simp add: compress_parts_def compressed_def Let_def split: prod.splits)

lemma parse_uncompressed:
  assumes "length hs = 8" "\<forall>x \<in> set hs. x < 65536"
  shows "parse_v6_parts (map show_hex hs) = Some hs"
proof -
  have "skip_indices (map show_hex hs) = []"
    unfolding skip_indices_def by (rule filter_False) (use assms(1) in auto)
  moreover have "map (parse_hextet \<circ> show_hex) hs = map Some hs"
    using assms(2) by (simp add: parse_show_hextet)
  ultimately show ?thesis using assms(1) by (simp add: parse_v6_parts_def option_all_Some_iff)
qed

lemma parse_compress_parts:
  assumes "length hs = 8" "\<forall>x \<in> set hs. x < 65536"
  shows "parse_v6_parts (compress_parts hs) = Some hs"
  using assms parse_compressed [OF assms best_zero_run_range] parse_uncompressed
  by (auto simp: compress_parts_eq split: prod.splits)

lemma compress_parts_mem: "p \<in> set (compress_parts hs) \<Longrightarrow> p = [] \<or> (\<exists>h. p = show_hex h)"
  by (auto simp: compress_parts_eq compressed_def Let_def
      dest!: in_set_takeD in_set_dropD split: prod.splits if_splits)

lemma compress_parts_length: "length hs = 8 \<Longrightarrow> 3 \<le> length (compress_parts hs)"
  using best_zero_run_range [of hs]
  by (fastforce simp: compress_parts_eq compressed_def zero_range_def Let_def split: prod.splits)

lemma parse_show_v6_int:
  assumes "length hs = 8" "\<forall>x \<in> set hs. x < 65536"
  shows "parse_v6_int (join '':'' (compress_parts hs)) = Some hs"
proof -
  let ?ps = "compress_parts hs"
  have ne: "?ps \<noteq> []" using compress_parts_length [OF assms(1)] by auto
  have chars: "CHR '':'' \<notin> set p \<and> CHR ''.'' \<notin> set p" if "p \<in> set ?ps" for p
    using compress_parts_mem [OF that] by auto
  have "split_on CHR '':'' (join '':'' ?ps) = ?ps"
    using ne chars by (intro split_on_join) auto
  moreover have "expand_v4_suffix ?ps = Some ?ps"
    using chars [of "last ?ps"] ne by (simp add: expand_v4_suffix_def)
  ultimately show ?thesis
    using compress_parts_length [OF assms(1)] parse_compress_parts [OF assms]
    by (simp add: parse_v6_int_def Let_def)
qed

lemma join_colon_chars:
  "c \<in> set (join '':'' (compress_parts hs)) \<Longrightarrow> c = CHR '':'' \<or> (\<exists>h. c \<in> set (show_hex h))"
  by (drule set_join_mem) (auto dest: compress_parts_mem)

lemma cut_absent: "c \<notin> set s \<Longrightarrow> cut c s = (s, None)"
proof -
  assume "c \<notin> set s"
  then have "takeWhile (\<lambda>x. x \<noteq> c) s = s" by (auto simp: takeWhile_eq_all_conv)
  with \<open>c \<notin> set s\<close> show ?thesis by (simp add: cut_def)
qed

lemma show_v6_chars:
  assumes "wf_scope z"
  shows "CHR ''/'' \<notin> set (show_v6 hs z)"
  using assms by (auto simp: show_v6_def wf_scope_def dest: join_colon_chars split: option.splits)

lemma parse_show_v6:
  assumes "wf_ip (V6 hs z)"
  shows "parse_v6 (show_v6 hs z) = Some (hs, z)"
proof -
  have no: "CHR ''%'' \<notin> set (join '':'' (compress_parts hs))" by (auto dest: join_colon_chars)
  from assms have "CHR ''/'' \<notin> set (show_v6 hs z)" by (simp add: show_v6_chars)
  with assms no show ?thesis
    by (cases z) (simp_all add: parse_v6_def show_v6_def cut_absent parse_show_v6_int wf_scope_def)
qed

lemma show_v6_not_v4:
  assumes "length hs = 8"
  shows "parse_v4 (show_v6 hs z) = None"
proof (rule parse_v4_chars)
  have "\<exists>x y ys. compress_parts hs = x # y # ys"
    using compress_parts_length [OF assms] by (auto simp: numeral_eq_Suc Suc_le_length_iff)
  then show "CHR '':'' \<in> set (show_v6 hs z)" by (auto simp: show_v6_def)
qed auto

lemma ip_address_show: "wf_ip a \<Longrightarrow> ip_address (show_ip a) = Some a"
proof (cases a)
  case (V4 os)
  moreover assume "wf_ip a"
  ultimately show ?thesis by (simp add: ip_address_def parse_show_v4 del: wf_ip.simps)
next
  case (V6 hs z)
  moreover assume "wf_ip a"
  ultimately show ?thesis
    using show_v6_not_v4 [of hs z] parse_show_v6 [of hs z]
    by (simp add: ip_address_def)
qed

section \<open>Parsed values are well formed\<close>

lemma parse_base_bound: "parse_base b a s = Some n \<Longrightarrow> 0 < b \<Longrightarrow> n < (a + 1) * b ^ length s"
proof (induction b a s rule: parse_base.induct)
  case (2 b acc c cs)
  from 2(2) obtain d where d: "d < b" "digit_value c = Some d" "parse_base b (acc * b + d) cs = Some n"
    by (auto split: option.splits if_splits)
  then have "n < (acc * b + d + 1) * b ^ length cs" using 2(1) [OF d(2,1,3)] 2(3) by simp
  also have "\<dots> \<le> ((acc + 1) * b) * b ^ length cs" using d(1) by (intro mult_le_mono1) simp
  finally show ?case by (simp add: algebra_simps)
qed simp

lemma parse_hextet_bound: "parse_hextet s = Some n \<Longrightarrow> n < 65536"
proof -
  assume "parse_hextet s = Some n"
  then have "length s \<le> 4" "parse_base 16 0 s = Some n" by (auto simp: parse_hextet_def split: if_splits)
  from parse_base_bound [OF this(2)] have "n < 16 ^ length s" by simp
  also have "(16::nat) ^ length s \<le> 16 ^ 4" using \<open>length s \<le> 4\<close> by (intro power_increasing) auto
  finally show ?thesis by simp
qed

lemma option_all_hextets: "option_all (map parse_hextet ps) = Some hs \<Longrightarrow>
   length hs = length ps \<and> (\<forall>x \<in> set hs. x < 65536)"
proof -
  assume "option_all (map parse_hextet ps) = Some hs"
  then have m: "map parse_hextet ps = map Some hs" by (simp add: option_all_Some_iff)
  then have "length hs = length ps" by (metis length_map)
  moreover have "x < 65536" if "x \<in> set hs" for x
  proof -
    from that have "Some x \<in> set (map parse_hextet ps)" unfolding m by simp
    then show ?thesis using parse_hextet_bound by (auto dest: sym)
  qed
  ultimately show ?thesis by blast
qed

lemma split_around_bound: "split_around ps i = Some (hi, lo) \<Longrightarrow> i < length ps \<Longrightarrow>
   hi + lo \<le> 7 \<and> hi \<le> length ps \<and> lo \<le> length ps"
  by (auto simp: split_around_def Let_def split: if_splits)

lemma parse_v6_parts_wf:
  assumes "parse_v6_parts ps = Some hs"
  shows "length hs = 8 \<and> (\<forall>x \<in> set hs. x < 65536)"
proof (cases "skip_indices ps")
  case Nil
  with assms show ?thesis by (auto simp: parse_v6_parts_def split: if_splits dest!: option_all_hextets)
next
  case (Cons i js)
  with assms have "js = []" by (auto simp: parse_v6_parts_def split: if_splits list.splits)
  with Cons have "i \<in> set (skip_indices ps)" by simp
  then have "i < length ps" by (auto simp: skip_indices_def)
  from assms Cons \<open>js = []\<close> obtain hi lo as bs where
    s: "split_around ps i = Some (hi, lo)"
    and a: "option_all (map parse_hextet (take hi ps)) = Some as"
    and b: "option_all (map parse_hextet (drop (length ps - lo) ps)) = Some bs"
    and h: "hs = as @ replicate (8 - (hi + lo)) 0 @ bs"
    by (auto simp: parse_v6_parts_def split: if_splits option.splits prod.splits)
  from option_all_hextets [OF a] option_all_hextets [OF b] split_around_bound [OF s \<open>i < length ps\<close>] h
  show ?thesis by auto
qed

lemma set_tl_subset: "set (tl xs) \<subseteq> set xs"
  by (cases xs) auto

lemma cut_subset: "cut c s = (a, Some t) \<Longrightarrow> set t \<subseteq> set s"
  using set_tl_subset [of "dropWhile (\<lambda>x. x \<noteq> c) s"]
  by (auto simp: cut_def split: if_splits dest: set_dropWhileD)

lemma parse_v6_wf: "parse_v6 s = Some (hs, z) \<Longrightarrow> wf_ip (V6 hs z)"
proof -
  assume p: "parse_v6 s = Some (hs, z)"
  then obtain addr where "parse_v6_int addr = Some hs"
    by (auto simp: parse_v6_def split: if_splits option.splits prod.splits)
  then obtain ps where "parse_v6_parts ps = Some hs"
    by (auto simp: parse_v6_int_def Let_def bind_eq_Some_conv split: if_splits)
  moreover have "wf_scope z"
  proof (cases z)
    case (Some t)
    with p obtain addr where "cut CHR ''%'' s = (addr, Some t)" "t \<noteq> []" "CHR ''%'' \<notin> set t"
      and sl: "CHR ''/'' \<notin> set s"
      by (auto simp: parse_v6_def split: if_splits option.splits prod.splits)
    moreover from this(1) have "set t \<subseteq> set s"
      by (rule cut_subset)
    ultimately show ?thesis using Some by (auto simp: wf_scope_def)
  qed (simp add: wf_scope_def)
  ultimately show ?thesis using parse_v6_parts_wf by simp
qed

lemma ip_address_wf: "ip_address s = Some a \<Longrightarrow> wf_ip a"
  using parse_v4_wf parse_v6_wf
  by (auto simp: ip_address_def simp del: wf_ip.simps split: option.splits)

lemma mask_groups_idem [simp]: "mask_groups w p (mask_groups w p gs) = mask_groups w p gs"
  by (induction w p gs rule: mask_groups.induct) (auto simp: Let_def)

lemma mask_groups_length [simp]: "length (mask_groups w p gs) = length gs"
  by (induction w p gs rule: mask_groups.induct) (auto simp: Let_def)

lemma mask_groups_bound: "\<forall>x \<in> set gs. x < n \<Longrightarrow> x \<in> set (mask_groups w p gs) \<Longrightarrow> x < n"
proof (induction w p gs rule: mask_groups.induct)
  case (2 w p g gs)
  have "g div 2 ^ (w - min w p) * 2 ^ (w - min w p) \<le> g" by (rule div_times_less_eq_dividend)
  also from 2(2) have "g < n" by simp
  finally show ?case using 2 by (auto simp: Let_def)
qed simp

lemma wf_mask4: "wf_ip (V4 os) \<Longrightarrow> wf_ip (V4 (mask_groups 8 p os))"
  using mask_groups_bound [of os 256] by auto

lemma wf_mask6: "wf_ip (V6 hs z) \<Longrightarrow> wf_ip (V6 (mask_groups 16 p hs) None)"
  using mask_groups_bound [of hs 65536] by (auto simp: wf_scope_def)

lemma parse_prefix_le: "parse_prefix m s = Some p \<Longrightarrow> p \<le> m"
  by (auto simp: parse_prefix_def split: if_splits option.splits)

lemma netmask_prefix_le: "netmask_prefix os = Some p \<Longrightarrow> p \<le> 32"
  by (auto simp: netmask_prefix_def find_Some_iff split: option.splits dest!: nth_mem)

lemma parse_mask4_le: "parse_mask4 s = Some p \<Longrightarrow> p \<le> 32"
  by (auto simp: parse_mask4_def bind_eq_Some_conv parse_prefix_le netmask_prefix_le split: option.splits)

lemma network4_wf:
  assumes "network4 strict a m = Some (Inr n)"
  shows "wf_net n"
proof -
  let ?mask = "case m of None \<Rightarrow> Some 32 | Some t \<Rightarrow> parse_mask4 t"
  obtain os p where v: "parse_v4 a = Some os" and m: "?mask = Some p"
    and n: "n = Net (V4 (mask_groups 8 p os)) p"
    using assms by (auto simp: network4_def split: option.splits if_splits)
  from m have "p \<le> 32" by (cases m) (auto dest: parse_mask4_le)
  with wf_mask4 [OF parse_v4_wf [OF v], of p] show ?thesis by (simp add: n del: wf_ip.simps)
qed

lemma network6_wf:
  assumes "network6 strict a m = Some (Inr n)"
  shows "wf_net n"
proof -
  let ?mask = "case m of None \<Rightarrow> Some 128 | Some t \<Rightarrow> parse_prefix 128 t"
  obtain hs z p where v: "parse_v6 a = Some (hs, z)" and m: "?mask = Some p"
    and n: "n = Net (V6 hs z) p \<and> mask_groups 16 p hs = hs \<or> n = Net (V6 (mask_groups 16 p hs) None) p"
    using assms by (auto simp: network6_def split: option.splits if_splits)
  from m have "p \<le> 128" by (cases m) (auto dest: parse_prefix_le)
  with n wf_mask6 [OF parse_v6_wf [OF v], of p] parse_v6_wf [OF v] show ?thesis
    by (auto simp del: wf_ip.simps)
qed

lemma ip_network_wf: "ip_network strict s = Inr n \<Longrightarrow> wf_net n"
  by (auto simp: ip_network_def network4_wf network6_wf split: option.splits prod.splits)

section \<open>Canonical text\<close>

lemma show_ip_no_slash: "wf_ip a \<Longrightarrow> CHR ''/'' \<notin> set (show_ip a)"
  using show_v6_chars
  by (cases a) (auto simp: show_v4_def show_nat_no dest!: set_join_mem)

lemma split_netmask_show:
  "wf_ip a \<Longrightarrow> split_netmask (show_ip a @ ''/'' @ show_nat p) = Some (show_ip a, Some (show_nat p))"
  using show_ip_no_slash [of a]
  by (simp add: split_netmask_def split_on_append split_on_no_sep show_nat_no)

lemma parse_prefix_show: "p \<le> m \<Longrightarrow> parse_prefix m (show_nat p) = Some p"
  by (simp add: parse_prefix_def)

lemma ip_network_show: "wf_net n \<Longrightarrow> ip_network strict (show_net n) = Inr n"
proof -
  assume wf: "wf_net n"
  obtain a p where n: "n = Net a p" by (cases n)
  show ?thesis
  proof (cases a)
    case (V4 os)
    with wf n have "wf_ip (V4 os)" "p \<le> 32" "mask_groups 8 p os = os" by auto
    then show ?thesis
      using split_netmask_show [of "V4 os" p] parse_show_v4 [of os]
      by (simp add: n V4 ip_network_def network4_def parse_mask4_def parse_prefix_show del: wf_ip.simps)
  next
    case (V6 hs z)
    with wf n have w: "wf_ip (V6 hs z)" "p \<le> 128" "mask_groups 16 p hs = hs" by auto
    moreover from w have "parse_v4 (show_v6 hs z) = None" by (simp add: show_v6_not_v4)
    ultimately show ?thesis
      using split_netmask_show [of "V6 hs z" p] parse_show_v6 [of hs z]
      by (simp add: n V6 ip_network_def network4_def network6_def parse_prefix_show del: wf_ip.simps)
  qed
qed

text \<open>\<open>str(ip_network(value, strict=False))\<close> is idempotent.\<close>

lemma ip_network_canonical: "ip_network strict s = Inr n \<Longrightarrow> ip_network strict' (show_net n) = Inr n"
  by (intro ip_network_show ip_network_wf)

lemma ip_address_canonical: "ip_address s = Some a \<Longrightarrow> ip_address (show_ip a) = Some a"
  by (intro ip_address_show ip_address_wf)

end
