(* ===== verification/External_Lists.thy ===== *)
theory External_Lists
  imports Json_Text Ip_Address Files
begin

text \<open>
  \<open>services/external_lists.py\<close>: the tolerant one-entry-per-line parser shared by every
  file and URL list, and the per-URL cache with its download, save and read-back. The parser
  takes the normaliser of its entries as an argument; what the cache relies on is stated as an
  interface, which the routing and DNS services provide.
\<close>

definition max_list_bytes :: nat where
  "max_list_bytes = 10 * 1024 * 1024"

definition max_list_entries :: nat where
  "max_list_entries = 500000"

record list_parse =
  lp_items :: "string list"
  lp_total :: nat
  lp_skipped :: nat

record list_fetch =
  lf_url :: string
  lf_total :: nat
  lf_valid :: nat
  lf_skipped :: nat
  lf_sample :: "string list"
  lf_saved :: bool

section \<open>Parsing\<close>

definition is_comment_line :: "string \<Rightarrow> bool" where
  "is_comment_line line = (line = [] \<or> hd line \<in> {CHR ''#'', CHR ''!'', CHR '';''})"

text \<open>The entry of a line: the first word before a trailing comment.\<close>

definition line_candidate :: "string \<Rightarrow> string" where
  "line_candidate line =
     (let l = (if CHR ''#'' \<in> set line then strip (fst (cut CHR ''#'' line)) else line) in
      case split_ws l of [] \<Rightarrow> [] | w # _ \<Rightarrow> w)"

fun parse_list_loop :: "(string \<Rightarrow> string result) \<Rightarrow> string list \<Rightarrow> string list \<Rightarrow> string list \<Rightarrow> nat \<Rightarrow> nat
    \<Rightarrow> list_parse result" where
  "parse_list_loop nrm [] items seen n_lines skipped =
     Inr \<lparr>lp_items = items, lp_total = n_lines, lp_skipped = skipped\<rparr>"
| "parse_list_loop nrm (raw_line # rest) items seen n_lines skipped =
     (let line = strip raw_line in
      if is_comment_line line then parse_list_loop nrm rest items seen n_lines skipped
      else let candidate = line_candidate line in
        if candidate = [] then parse_list_loop nrm rest items seen (n_lines + 1) (skipped + 1)
        else case nrm candidate of
          Inl e \<Rightarrow> if e = ValueError
             then parse_list_loop nrm rest items seen (n_lines + 1) (skipped + 1)
             else Inl e
        | Inr n \<Rightarrow>
            (let items' = (if n \<in> set seen then items else items @ [n]);
                 seen' = (if n \<in> set seen then seen else n # seen)
             in if max_list_entries < length items' then Inl ValueError
                else parse_list_loop nrm rest items' seen' (n_lines + 1) skipped))"

definition parse_list_text :: "(string \<Rightarrow> string result) \<Rightarrow> string \<Rightarrow> list_parse result" where
  "parse_list_text nrm text = parse_list_loop nrm (splitlines text) [] [] 0 0"

text \<open>What the loop computes: the candidates of the entry lines, those that normalise, and the
  duplicate-free list of the normal forms.\<close>

definition candidates :: "string list \<Rightarrow> string list" where
  "candidates ls = map line_candidate (filter (\<lambda>l. \<not> is_comment_line l) (map strip ls))"

definition normal_forms :: "(string \<Rightarrow> string result) \<Rightarrow> string list \<Rightarrow> string list" where
  "normal_forms nrm cs = concat (map (\<lambda>c. if c = [] then []
     else case nrm c of Inl _ \<Rightarrow> [] | Inr n \<Rightarrow> [n]) cs)"

definition list_spec :: "(string \<Rightarrow> string result) \<Rightarrow> string list \<Rightarrow> list_parse" where
  "list_spec nrm ls = (let cs = candidates ls; ns = normal_forms nrm cs in
     \<lparr>lp_items = uniq [] ns, lp_total = length cs, lp_skipped = length cs - length ns\<rparr>)"

lemma normal_forms_simps [simp]:
  "normal_forms f [] = []"
  "normal_forms f (c # cs) = (if c = [] then [] else case f c of Inl _ \<Rightarrow> [] | Inr n \<Rightarrow> [n]) @ normal_forms f cs"
  by (simp_all add: normal_forms_def)

lemma candidates_simps [simp]:
  "candidates [] = []"
  "candidates (l # ls) = (if is_comment_line (strip l) then [] else [line_candidate (strip l)]) @ candidates ls"
  by (simp_all add: candidates_def)

lemma length_normal_forms: "length (normal_forms f cs) \<le> length cs"
  by (induction cs) (auto split: sum.splits)

lemma uniq_length_mono: "length (uniq s xs) \<le> length (uniq s (xs @ ys))"
  by (simp add: uniq_append)

lemma parse_list_loop_spec:
  assumes "\<And>c e. nrm c = Inl e \<Longrightarrow> e = ValueError" "set seen = set items"
    and "length items \<le> max_list_entries"
  shows "parse_list_loop nrm ls items seen n_lines skipped =
    (let ns = normal_forms nrm (candidates ls); out = items @ uniq items ns in
     if max_list_entries < length out then Inl ValueError
     else Inr \<lparr>lp_items = out, lp_total = n_lines + length (candidates ls),
                lp_skipped = skipped + (length (candidates ls) - length ns)\<rparr>)"
  using assms(2,3)
proof (induction ls arbitrary: items seen n_lines skipped)
  case Nil
  then show ?case by simp
next
  case (Cons l ls)
  let ?c = "line_candidate (strip l)"
  have le: "length (normal_forms nrm (candidates ls)) \<le> length (candidates ls)"
    by (rule length_normal_forms)
  show ?case
  proof (cases "is_comment_line (strip l) \<or> ?c = [] \<or> (\<exists>e. nrm ?c = Inl e)")
    case True
    then show ?thesis
      using Cons.IH [OF Cons.prems] assms(1) le by (auto simp: Let_def Suc_diff_le)
  next
    case False
    then obtain n where n: "\<not> is_comment_line (strip l)" "?c \<noteq> []" "nrm ?c = Inr n"
      by (cases "nrm ?c") auto
    show ?thesis
    proof (cases "n \<in> set seen")
      case True
      then have "n \<in> set items" using Cons.prems by simp
      with n True Cons.prems(2) show ?thesis
        using Cons.IH [OF Cons.prems] by (auto simp: Let_def)
    next
      case ns: False
      then have out: "n \<notin> set items" using Cons.prems by simp
      show ?thesis
      proof (cases "max_list_entries < Suc (length items)")
        case True
        with n ns out show ?thesis by (simp add: Let_def)
      next
        case False
        then show ?thesis
          using n ns out Cons.IH [of "n # seen" "items @ [n]"] Cons.prems(1)
          by (simp add: Let_def)
      qed
    qed
  qed
qed

section \<open>What a normaliser promises\<close>

definition clean_entry :: "string \<Rightarrow> bool" where
  "clean_entry c = (c \<noteq> [] \<and> (\<forall>x \<in> set c. \<not> is_space x \<and> x \<noteq> CHR ''#'')
     \<and> hd c \<notin> {CHR ''!'', CHR '';''})"

locale entry_normalizer =
  fixes nrm :: "string \<Rightarrow> string result"
  assumes only_value_errors: "nrm c = Inl e \<Longrightarrow> e = ValueError"
    and canonical: "clean_entry c \<Longrightarrow> nrm c = Inr n \<Longrightarrow> clean_entry n \<and> nrm n = Inr n"
begin

lemma parse_list_text_spec:
  "parse_list_text nrm text = (let r = list_spec nrm (splitlines text) in
     if max_list_entries < length (lp_items r) then Inl ValueError else Inr r)"
  unfolding parse_list_text_def list_spec_def
  by (subst parse_list_loop_spec [OF only_value_errors]) (simp_all add: Let_def)

lemma parse_list_text_facts:
  assumes "parse_list_text nrm text = Inr r"
  shows "distinct (lp_items r)" "length (lp_items r) \<le> max_list_entries"
    "lp_skipped r + length (lp_items r) \<le> lp_total r"
proof -
  let ?cs = "candidates (splitlines text)"
  have u: "length (uniq s xs) \<le> length xs" for s and xs :: "string list"
    by (induction s xs rule: uniq.induct) auto
  show "distinct (lp_items r)" "length (lp_items r) \<le> max_list_entries"
    "lp_skipped r + length (lp_items r) \<le> lp_total r"
    using assms length_normal_forms [of nrm ?cs] u [of "[]" "normal_forms nrm ?cs"]
    by (auto simp: parse_list_text_spec list_spec_def Let_def split: if_splits)
qed

end

section \<open>Reading back what was written\<close>

lemma split_ws_member: "w \<in> set (split_ws s) \<Longrightarrow> w \<noteq> [] \<and> (\<forall>c \<in> set w. \<not> is_space c \<and> c \<in> set s)"
proof (induction s rule: split_ws.induct)
  case (1 s)
  let ?t = "dropWhile is_space s"
  show ?case
  proof (cases "?t = []")
    case True
    then have "split_ws s = []" by (subst split_ws.simps) (simp add: Let_def)
    with 1(2) show ?thesis by simp
  next
    case False
    have eq: "split_ws s = takeWhile (\<lambda>c. \<not> is_space c) ?t # split_ws (dropWhile (\<lambda>c. \<not> is_space c) ?t)"
      using False by (subst split_ws.simps) (simp only: Let_def if_False)
    then consider "w = takeWhile (\<lambda>c. \<not> is_space c) ?t"
      | "w \<in> set (split_ws (dropWhile (\<lambda>c. \<not> is_space c) ?t))" using 1(2) by auto
    then show ?thesis
    proof cases
      case 1
      obtain c cs where c: "?t = c # cs" using False by (meson neq_Nil_conv)
      then have "\<not> is_space c" by (metis dropWhile_eq_Cons_conv)
      with 1 c have "w \<noteq> []" by simp
      moreover have "\<forall>c \<in> set w. \<not> is_space c \<and> c \<in> set ?t"
        unfolding 1 by (auto dest: set_takeWhileD)
      ultimately show ?thesis by (auto dest: set_dropWhileD)
    next
      case 2
      from "1.IH" [OF refl False 2] show ?thesis by (auto dest: set_dropWhileD)
    qed
  qed
qed

lemma split_ws_hd:
  assumes "s \<noteq> []" "\<not> is_space (hd s)" "split_ws s = w # ws"
  shows "hd w = hd s"
proof -
  obtain a as where s: "s = a # as" using assms(1) by (meson neq_Nil_conv)
  with assms(2) have "dropWhile is_space s = s" by simp
  then have "split_ws s = takeWhile (\<lambda>c. \<not> is_space c) s # split_ws (dropWhile (\<lambda>c. \<not> is_space c) s)"
    using s by (subst split_ws.simps) (simp only: Let_def if_False list.distinct simp_thms)
  with assms(3) have "w = takeWhile (\<lambda>c. \<not> is_space c) s" by simp
  with s assms(2) show ?thesis by simp
qed

lemma clean_entry_line:
  assumes "clean_entry c"
  shows "strip c = c" "\<not> is_comment_line c" "line_candidate c = c" "no_breaks c" "keepable c"
proof -
  have sp: "\<forall>x \<in> set c. \<not> is_space x" and h: "CHR ''#'' \<notin> set c" and ne: "c \<noteq> []"
    using assms by (auto simp: clean_entry_def)
  show "strip c = c" using sp by (rule strip_no_space)
  show "\<not> is_comment_line c" using assms by (cases c) (auto simp: clean_entry_def is_comment_line_def)
  show "line_candidate c = c" using sp h ne by (simp add: line_candidate_def split_ws_word)
  show "no_breaks c" using sp linebreak_space by (auto simp: no_breaks_def)
  show "keepable c" using h ne by (cases c) (auto simp: keepable_def starts_with_def)
qed

context entry_normalizer
begin

text \<open>The candidates of a text are clean, so the parsed items are in normal form.\<close>

lemma line_candidate_clean:
  assumes "\<not> is_comment_line (strip l)" "line_candidate (strip l) \<noteq> []"
  shows "clean_entry (line_candidate (strip l))"
proof -
  let ?l = "strip l"
  let ?m = "if CHR ''#'' \<in> set ?l then strip (fst (cut CHR ''#'' ?l)) else ?l"
  obtain w ws where w: "split_ws ?m = w # ws" and lc: "line_candidate ?l = w"
    using assms(2) by (cases "split_ws ?m") (auto simp: line_candidate_def Let_def)
  have mem: "w \<noteq> []" "\<forall>c \<in> set w. \<not> is_space c \<and> c \<in> set ?m"
    using split_ws_member [of w ?m] w by auto
  have cutset: "set (fst (cut CHR ''#'' ?l)) \<subseteq> set ?l - {CHR ''#''}"
    by (auto simp: cut_def dest: set_takeWhileD)
  have "set ?m \<subseteq> set ?l - {CHR ''#''}"
    using cutset set_strip_if [of is_space "fst (cut CHR ''#'' ?l)"] by (auto simp: strip_def)
  moreover have "hd w = hd ?l"
  proof -
    have lne: "?l \<noteq> []" "hd ?l \<noteq> CHR ''#''" using assms(1) by (auto simp: is_comment_line_def)
    have nsp: "\<not> is_space (hd ?l)"
      using strip_if_ends(1) [of is_space l] lne(1) by (simp add: strip_def)
    obtain a as where l: "?l = a # as" using lne by (meson neq_Nil_conv)
    have tw: "takeWhile (\<lambda>x. x \<noteq> CHR ''#'') ?l = a # takeWhile (\<lambda>x. x \<noteq> CHR ''#'') as"
      using l lne(2) by simp
    have "?m \<noteq> [] \<and> hd ?m = a"
    proof (cases "CHR ''#'' \<in> set ?l")
      case True
      let ?u = "takeWhile (\<lambda>x. x \<noteq> CHR ''#'') as"
      have "lstrip_if is_space (a # ?u) = a # ?u" using nsp l by (simp add: lstrip_if_def)
      moreover have "rstrip_if is_space (a # ?u) \<noteq> []"
      proof
        assume "rstrip_if is_space (a # ?u) = []"
        then have "\<forall>c \<in> set (a # ?u). is_space c" by (simp add: rstrip_if_def)
        with nsp l show False by simp
      qed
      ultimately show ?thesis
        using True tw rstrip_if_hd [of is_space "a # ?u"] by (simp add: cut_def strip_def strip_if_def)
    qed (use l in simp)
    then show ?thesis using split_ws_hd [OF _ _ w] nsp l by simp
  qed
  ultimately show ?thesis
    using mem assms(1) unfolding lc by (auto simp: clean_entry_def is_comment_line_def)
qed

lemma normal_forms_clean:
  "n \<in> set (normal_forms nrm (candidates ls)) \<Longrightarrow> clean_entry n \<and> nrm n = Inr n"
proof -
  assume "n \<in> set (normal_forms nrm (candidates ls))"
  then obtain c where "c \<in> set (candidates ls)" "c \<noteq> []" "nrm c = Inr n"
    by (auto simp: normal_forms_def split: if_splits sum.splits)
  then show ?thesis
    using line_candidate_clean canonical by (auto simp: candidates_def)
qed

lemma items_clean:
  "parse_list_text nrm text = Inr r \<Longrightarrow> i \<in> set (lp_items r) \<Longrightarrow> clean_entry i \<and> nrm i = Inr i"
  using normal_forms_clean by (auto simp: parse_list_text_spec list_spec_def Let_def split: if_splits)

lemma candidates_of_clean: "\<forall>i \<in> set is. clean_entry i \<Longrightarrow> candidates is = is"
proof (induction "is")
  case (Cons i js)
  then have "strip i = i" "\<not> is_comment_line i" "line_candidate i = i" using clean_entry_line by auto
  with Cons show ?case by simp
qed simp

lemma normal_forms_of_clean:
  "\<forall>i \<in> set is. clean_entry i \<and> nrm i = Inr i \<Longrightarrow> normal_forms nrm is = is"
  by (induction "is") (auto simp: clean_entry_def)

lemma list_spec_of_items:
  assumes "\<forall>i \<in> set is. clean_entry i \<and> nrm i = Inr i" "distinct is"
  shows "list_spec nrm is = \<lparr>lp_items = is, lp_total = length is, lp_skipped = 0\<rparr>"
  using assms by (simp add: list_spec_def candidates_of_clean normal_forms_of_clean uniq_id Let_def)

text \<open>The cache file holds the items of the parse, and reading it back parses to them.\<close>

lemma reparse_items:
  assumes "parse_list_text nrm text = Inr r"
  shows "parse_list_text nrm (join [LF] (read_lines_of (Some (lines_text (unique_lines (lp_items r))))))
    = Inr \<lparr>lp_items = lp_items r, lp_total = length (lp_items r), lp_skipped = 0\<rparr>"
proof -
  let ?is = "lp_items r"
  have cl: "\<forall>i \<in> set ?is. clean_entry i \<and> nrm i = Inr i" using items_clean [OF assms] by blast
  note d = parse_list_text_facts [OF assms]
  have "map strip ?is = ?is" using cl clean_entry_line by (intro map_idI) blast
  moreover have "filter keepable ?is = ?is" using cl clean_entry_line by (intro filter_True) blast
  ultimately have "unique_lines ?is = ?is" using d(1) by (simp add: unique_lines_eq uniq_id)
  moreover have "\<forall>l \<in> set ?is. no_breaks l" using cl clean_entry_line by blast
  ultimately have rd: "read_lines_of (Some (lines_text (unique_lines ?is))) = ?is"
    using lf.load_save by metis
  have "splitlines (join [LF] ?is) = ?is"
    using cl clean_entry_line by (intro splitlines_join) (auto simp: clean_entry_def)
  then show ?thesis
    using d(2) by (simp add: rd parse_list_text_spec list_spec_of_items [OF cl d(1)] Let_def)
qed

end

end
