(* ===== verification/List_Cache.thy ===== *)
theory List_Cache
  imports External_Lists
begin

text \<open>
  The download and cache half of \<open>services/external_lists.py\<close>: \<open>fetch_url_text\<close> and the class
  \<open>ExternalListCache\<close>, one instance per cache directory. The network is the environment.
\<close>

section \<open>Downloading\<close>

text \<open>The parts of \<open>urlparse\<close> the check uses: the scheme, and a host name in the network
  location.\<close>

definition url_scheme_rest :: "string \<Rightarrow> string \<times> string" where
  "url_scheme_rest u0 = (let u = filter (\<lambda>c. code c \<notin> {9, 10, 13}) (dropWhile (\<lambda>c. code c \<le> 32) u0) in
     case cut CHR '':'' u of
       (s, Some r) \<Rightarrow> if s \<noteq> [] \<and> is_alpha (hd s) \<and> list_all (\<lambda>c. is_alnum c \<or> c \<in> {CHR ''+'', CHR ''-'', CHR ''.''}) s
                      then (lower s, r) else ([], u)
     | (_, None) \<Rightarrow> ([], u))"

definition url_netloc :: "string \<Rightarrow> string" where
  "url_netloc r = (if starts_with ''//'' r
     then takeWhile (\<lambda>c. c \<notin> {CHR ''/'', CHR ''?'', CHR ''#''}) (drop 2 r) else [])"

definition url_hostname :: "string \<Rightarrow> string result" where
  "url_hostname netloc =
     (let hostinfo = last (split_on CHR ''@'' netloc) in
      if (CHR ''['' \<in> set netloc) \<noteq> (CHR '']'' \<in> set netloc) then Inl ValueError
      else case cut CHR ''['' hostinfo of
        (_, Some br) \<Rightarrow> (let h = fst (cut CHR '']'' br) in
            case ip_address h of Some (V6 _ _) \<Rightarrow> Inr h | _ \<Rightarrow> Inl ValueError)
      | (h, None) \<Rightarrow> Inr (fst (cut CHR '':'' h)))"

definition http_url_ok :: "string \<Rightarrow> bool" where
  "http_url_ok u = (case url_scheme_rest u of (scheme, rest) \<Rightarrow>
     scheme \<in> {''http'', ''https''} \<and>
     (case url_hostname (url_netloc rest) of Inl _ \<Rightarrow> False | Inr h \<Rightarrow> h \<noteq> []))"

definition fetch_url_text :: "env \<Rightarrow> string \<Rightarrow> (world, string) action" where
  "fetch_url_text env url =
     (if \<not> http_url_ok url then throw ValueError
      else andthen current (\<lambda>w.
           andthen (emit (Fetched url)) (\<lambda>_.
             case e_fetch env w url of
               None \<Rightarrow> throw ValueError
             | Some payload \<Rightarrow> if max_list_bytes < length payload then throw ValueError else ret payload)))"

section \<open>The cache of one list directory\<close>

definition url_slug :: "env \<Rightarrow> string \<Rightarrow> string" where
  "url_slug env url = take 16 (e_sha env url)"

definition cache_path :: "env \<Rightarrow> string \<Rightarrow> string \<Rightarrow> string" where
  "cache_path env dir url = dir @ ''/'' @ url_slug env url @ ''.txt''"

definition meta_path :: "env \<Rightarrow> string \<Rightarrow> string \<Rightarrow> string" where
  "meta_path env dir url = dir @ ''/'' @ url_slug env url @ ''.json''"

definition items_in_file :: "(string \<Rightarrow> string result) \<Rightarrow> string option \<Rightarrow> string list result" where
  "items_in_file nrm content =
     res_bind (parse_list_text nrm (join [LF] (read_lines_of content))) (\<lambda>r. Inr (lp_items r))"

definition cached_items :: "env \<Rightarrow> string \<Rightarrow> (string \<Rightarrow> string result) \<Rightarrow> string
    \<Rightarrow> (world, string list) action" where
  "cached_items env dir nrm url =
     (\<lambda>w. (items_in_file nrm (files w (cache_path env dir url)), w))"

definition list_meta :: "env \<Rightarrow> string \<Rightarrow> string \<Rightarrow> world \<Rightarrow> json option" where
  "list_meta env dir url w = (case files w (meta_path env dir url) of None \<Rightarrow> None
     | Some t \<Rightarrow> (case json_loads (read_text t) of
         Some (JDict kvs) \<Rightarrow> Some (JDict kvs) | _ \<Rightarrow> None))"

definition meta_document :: "string \<Rightarrow> nat \<Rightarrow> nat \<Rightarrow> nat \<Rightarrow> json" where
  "meta_document url now valid skipped =
     JDict [(''url'', JStr url), (''fetched_at'', JInt (int now)), (''valid'', JInt (int valid)),
            (''skipped'', JInt (int skipped))]"

definition refresh :: "env \<Rightarrow> string \<Rightarrow> (string \<Rightarrow> string result) \<Rightarrow> string \<Rightarrow> bool
    \<Rightarrow> (world, list_fetch) action" where
  "refresh env dir nrm url preview =
     andthen (fetch_url_text env url) (\<lambda>text.
     andthen (lift_result (parse_list_text nrm text)) (\<lambda>parsed.
       if lp_items parsed = [] then throw ValueError
       else andthen
         (if preview then ret False
          else andthen (write_unique_lines (cache_path env dir url) (lp_items parsed) 420) (\<lambda>_.
               andthen current (\<lambda>w.
               andthen (atomic_write_text (meta_path env dir url)
                  (json_dumps (meta_document url (e_now env w) (length (lp_items parsed)) (lp_skipped parsed))
                    @ [LF]) 420) (\<lambda>_. ret True))))
         (\<lambda>saved. ret \<lparr>lf_url = url, lf_total = lp_total parsed, lf_valid = length (lp_items parsed),
            lf_skipped = lp_skipped parsed, lf_sample = take 20 (lp_items parsed), lf_saved = saved\<rparr>)))"

section \<open>What a refresh leaves behind\<close>

lemma paths_differ [simp]: "cache_path env dir u \<noteq> meta_path env dir v"
proof
  assume "cache_path env dir u = meta_path env dir v"
  then have "last (cache_path env dir u) = last (meta_path env dir v)" by simp
  then show False by (simp add: cache_path_def meta_path_def)
qed

lemma fetch_url_text_world: "fetch_url_text env url w = (r, w') \<Longrightarrow> files w' = files w"
  by (auto simp: fetch_url_text_def result_simps split: if_splits option.splits)

text \<open>A refresh that fails, and a preview, leave every file as it was.\<close>

lemma refresh_error_keeps_files: "refresh env dir nrm url preview w = (Inl e, w') \<Longrightarrow> files w' = files w"
proof -
  assume r: "refresh env dir nrm url preview w = (Inl e, w')"
  obtain x w1 where f: "fetch_url_text env url w = (x, w1)" by (cases "fetch_url_text env url w")
  with fetch_url_text_world have "files w1 = files w" by blast
  with r f show ?thesis
    by (auto simp: refresh_def result_simps write_unique_lines_def atomic_write_text_def
        split: sum.splits if_splits)
qed

lemma refresh_preview_keeps_files: "refresh env dir nrm url True w = (r, w') \<Longrightarrow> files w' = files w"
proof -
  assume r: "refresh env dir nrm url True w = (r, w')"
  obtain x w1 where f: "fetch_url_text env url w = (x, w1)" by (cases "fetch_url_text env url w")
  with fetch_url_text_world have "files w1 = files w" by blast
  with r f show ?thesis by (auto simp: refresh_def result_simps split: sum.splits if_splits)
qed

lemma refresh_saved:
  assumes "refresh env dir nrm url False w = (Inr res, w')"
  obtains body r now where "parse_list_text nrm body = Inr r" "lp_items r \<noteq> []"
    "files w' (cache_path env dir url) = Some (lines_text (unique_lines (lp_items r)))"
    "files w' (meta_path env dir url) =
       Some (json_dumps (meta_document url now (length (lp_items r)) (lp_skipped r)) @ [LF])"
    "lf_valid res = length (lp_items r)" "lf_skipped res = lp_skipped r" "lf_saved res"
proof -
  obtain x w1 where f: "fetch_url_text env url w = (x, w1)" by (cases "fetch_url_text env url w")
  from assms f obtain body r where "parse_list_text nrm body = Inr r" "lp_items r \<noteq> []" "x = Inr body"
    by (auto simp: refresh_def result_simps split: sum.splits if_splits)
  with assms f show ?thesis
    by (intro that [of body r]) (auto simp: refresh_def result_simps write_unique_lines_def
        atomic_write_text_def)
qed

context entry_normalizer
begin

text \<open>After a saved refresh the cache returns exactly the items that were parsed.\<close>

lemma refresh_then_cached:
  assumes "refresh env dir nrm url False w = (Inr res, w')"
  shows "\<exists>items. cached_items env dir nrm url w' = (Inr items, w') \<and> length items = lf_valid res
     \<and> items \<noteq> [] \<and> distinct items"
  using assms
proof (rule refresh_saved)
  fix body r now
  assume a: "parse_list_text nrm body = Inr r" "lp_items r \<noteq> []"
    "files w' (cache_path env dir url) = Some (lines_text (unique_lines (lp_items r)))"
    "lf_valid res = length (lp_items r)"
  show ?thesis
    using reparse_items [OF a(1)] parse_list_text_facts [OF a(1)] a
    by (auto simp: cached_items_def items_in_file_def)
qed

end

text \<open>The metadata reads back as the document that was written.\<close>

lemma meta_roundtrip:
  assumes "refresh env dir nrm url False w = (Inr res, w')"
  shows "\<exists>now. list_meta env dir url w' = Some (meta_document url now (lf_valid res) (lf_skipped res))"
  using assms
proof (rule refresh_saved)
  fix body r now
  assume a: "files w' (meta_path env dir url) =
       Some (json_dumps (meta_document url now (length (lp_items r)) (lp_skipped r)) @ [LF])"
    "lf_valid res = length (lp_items r)" "lf_skipped res = lp_skipped r"
  let ?d = "meta_document url now (length (lp_items r)) (lp_skipped r)"
  have cr: "CR \<notin> set (json_dumps ?d @ [LF])"
    by (simp add: json_dumps_no_CR)
  have "json_loads (json_dumps ?d @ [LF]) = Some ?d"
    unfolding json_dumps_def
    by (rule loads_dumps [OF ok_compact]) (simp_all add: meta_document_def ws_text_def json_ws_def)
  then show ?thesis
    using a cr by (auto simp: list_meta_def read_text_def meta_document_def)
qed

end
