(* ===== verification/Config_Model.thy ===== *)
theory Config_Model
  imports Ip_Address Secrets
begin

text \<open>
  \<open>config/models.py\<close>: the configuration as records, one per model class, and for each
  class the validation its constructor runs, which returns the normalised value or an error.
  The declared types (what pydantic enforces before the validators run) are the field types
  here; ranges declared with \<open>Field(ge=..., le=...)\<close> are part of the checks. Paths are strings
  in normal form. The second half holds the accessors the services use: the selected profile,
  each profile's interface and routing offset, and which features need the local DNS server.
\<close>

section \<open>Field validators\<close>

text \<open>A \<open>$\<close> in a Python pattern also matches before one final newline.\<close>

definition re_dollar :: "string \<Rightarrow> string" where
  "re_dollar s = (if s \<noteq> [] \<and> last s = LF then butlast s else s)"

definition is_label :: "(char \<Rightarrow> bool) \<Rightarrow> (char \<Rightarrow> bool) \<Rightarrow> string \<Rightarrow> bool" where
  "is_label edge inner l = (l \<noteq> [] \<and> length l \<le> 63 \<and> edge (hd l) \<and> edge (last l)
     \<and> list_all (\<lambda>c. edge c \<or> inner c) l)"

definition plain_label :: "string \<Rightarrow> bool" where
  "plain_label = is_label is_alnum (\<lambda>c. c = CHR ''-'')"

definition underscore_label :: "string \<Rightarrow> bool" where
  "underscore_label = is_label (\<lambda>c. is_alnum c \<or> c = CHR ''_'') (\<lambda>c. c = CHR ''-'')"

definition drop_final_dot :: "string \<Rightarrow> string" where
  "drop_final_dot s = (if s \<noteq> [] \<and> last s = CHR ''.'' then butlast s else s)"

text \<open>\<open>DOMAIN_RE.match\<close> and \<open>BLOCKLIST_DOMAIN_RE.match\<close>.\<close>

definition domain_re :: "string \<Rightarrow> bool" where
  "domain_re s = (let t = re_dollar s; b = drop_final_dot t in
     b \<noteq> [] \<and> length b \<le> 253 \<and> list_all plain_label (split_on CHR ''.'' b))"

definition blocklist_domain_re :: "string \<Rightarrow> bool" where
  "blocklist_domain_re s = (let t = re_dollar s; ls = split_on CHR ''.'' t in
     t \<noteq> [] \<and> length t \<le> 253 \<and> 2 \<le> length ls
     \<and> list_all underscore_label (butlast ls) \<and> plain_label (last ls))"

definition validate_cidr :: "string \<Rightarrow> string result" where
  "validate_cidr v = res_bind (ip_network False v) (\<lambda>_. Inr v)"

definition validate_ip :: "string \<Rightarrow> string result" where
  "validate_ip v = (case ip_address v of None \<Rightarrow> Inl ValueError | Some _ \<Rightarrow> Inr v)"

definition validate_domain :: "string \<Rightarrow> string result" where
  "validate_domain v = (let candidate = rstrip_char CHR ''.'' (strip v) in
     if candidate = [] \<or> \<not> domain_re candidate then Inl ValueError else Inr candidate)"

definition validate_blocklist_domain :: "string \<Rightarrow> string result" where
  "validate_blocklist_domain v = (let candidate = rstrip_char CHR ''.'' (lower (strip v)) in
     if candidate = [] \<or> \<not> blocklist_domain_re candidate then Inl ValueError else Inr candidate)"

definition validate_local_record :: "string \<Rightarrow> string result" where
  "validate_local_record v = (case split_ws v of
     [hostname, address] \<Rightarrow>
       res_bind (validate_domain hostname) (\<lambda>h. res_bind (validate_ip address) (\<lambda>a.
         Inr (h @ '' '' @ a)))
   | _ \<Rightarrow> Inl ValueError)"

definition dedup_paths :: "string list \<Rightarrow> string list" where
  "dedup_paths value = fst (foldl append_unseen ([], []) value)"

definition is_http_url :: "string \<Rightarrow> bool" where
  "is_http_url u = (starts_with ''https://'' u \<or> starts_with ''http://'' u)"

fun http_url_loop :: "string list \<Rightarrow> string list \<Rightarrow> string list result" where
  "http_url_loop [] validated = Inr validated"
| "http_url_loop (item # rest) validated =
     (let candidate = strip item in
      if candidate = [] then http_url_loop rest validated
      else if \<not> is_http_url candidate then Inl ValueError
      else if list_ex is_space candidate then Inl ValueError
      else if candidate \<in> set validated then http_url_loop rest validated
      else http_url_loop rest (validated @ [candidate]))"

definition validate_http_url_list :: "string list \<Rightarrow> string list result" where
  "validate_http_url_list value = http_url_loop value []"

definition name_chars :: "string \<Rightarrow> char \<Rightarrow> bool" where
  "name_chars extra c = (is_alnum c \<or> c \<in> set extra)"

text \<open>\<open>[first][rest]{0,n}\<close> followed by \<open>$\<close>.\<close>

definition short_name_re :: "(char \<Rightarrow> bool) \<Rightarrow> (char \<Rightarrow> bool) \<Rightarrow> nat \<Rightarrow> string \<Rightarrow> bool" where
  "short_name_re first rest n s = (let t = re_dollar s in
     t \<noteq> [] \<and> first (hd t) \<and> list_all rest (tl t) \<and> length t \<le> n + 1)"

definition validate_interface_name :: "string \<Rightarrow> string result" where
  "validate_interface_name v =
     (if short_name_re (name_chars ''_.-'') (name_chars ''_.-'') 14 v then Inr v else Inl ValueError)"

definition reserved_routing_table_ids :: "int list" where
  "reserved_routing_table_ids = [253, 254, 255]"

definition validate_routing_table_id :: "int \<Rightarrow> int result" where
  "validate_routing_table_id v = (if v \<in> set reserved_routing_table_ids then Inl ValueError else Inr v)"

definition safe_char :: "char \<Rightarrow> char" where
  "safe_char c = (if 97 \<le> code c \<and> code c \<le> 122 \<or> is_ascii_digit c \<or> c = CHR ''_'' then c else CHR ''_'')"

definition profile_safe_name :: "string \<Rightarrow> string" where
  "profile_safe_name name = map safe_char (lower name)"

definition in_range :: "int \<Rightarrow> int \<Rightarrow> int \<Rightarrow> int result" where
  "in_range lo hi v = (if lo \<le> v \<and> v \<le> hi then Inr v else Inl ValueError)"

definition at_least :: "int \<Rightarrow> int \<Rightarrow> int result" where
  "at_least lo v = (if lo \<le> v then Inr v else Inl ValueError)"

definition optional :: "('a \<Rightarrow> 'b result) \<Rightarrow> 'a option \<Rightarrow> 'b option result" where
  "optional f x = (case x of None \<Rightarrow> Inr None | Some v \<Rightarrow> res_bind (f v) (\<lambda>w. Inr (Some w)))"

definition require :: "bool \<Rightarrow> unit result" where
  "require b = (if b then Inr () else Inl ValueError)"

text \<open>Python's truth value of an optional string.\<close>

definition is_set :: "string option \<Rightarrow> bool" where
  "is_set v = (v \<noteq> None \<and> v \<noteq> Some [])"

lemma require_Inr [simp]: "require b = Inr u \<longleftrightarrow> b"
  by (simp add: require_def)

lemma at_least_Inr [simp]: "at_least lo v = Inr w \<longleftrightarrow> lo \<le> v \<and> w = v"
  by (auto simp: at_least_def)

lemma in_range_Inr [simp]: "in_range lo hi v = Inr w \<longleftrightarrow> lo \<le> v \<and> v \<le> hi \<and> w = v"
  by (auto simp: in_range_def)

lemma optional_Inr: "optional f x = Inr y \<longleftrightarrow>
  (case x of None \<Rightarrow> y = None | Some v \<Rightarrow> (\<exists>w. f v = Inr w \<and> y = Some w))"
  by (auto simp: optional_def res_bind_Inr_iff split: option.splits)

section \<open>System, server, certificates and authentication\<close>

datatype interval_unit = Hours | Days | Weeks | Months

fun interval_unit_seconds :: "interval_unit \<Rightarrow> int" where
  "interval_unit_seconds Hours = 3600"
| "interval_unit_seconds Days = 86400"
| "interval_unit_seconds Weeks = 7 * 86400"
| "interval_unit_seconds Months = 30 * 86400"

record log_rotation_config =
  lr_enabled :: bool
  lr_max_size_mb :: int
  lr_max_age :: int
  lr_max_age_unit :: interval_unit
  lr_keep_files :: int

definition check_log_rotation :: "log_rotation_config \<Rightarrow> log_rotation_config result" where
  "check_log_rotation c =
     res_bind (at_least 0 (lr_max_size_mb c)) (\<lambda>_.
     res_bind (at_least 0 (lr_max_age c)) (\<lambda>_.
     res_bind (in_range 1 100 (lr_keep_files c)) (\<lambda>_. Inr c)))"

definition max_size_bytes :: "log_rotation_config \<Rightarrow> int" where
  "max_size_bytes c = lr_max_size_mb c * 1024 * 1024"

definition max_age_seconds :: "log_rotation_config \<Rightarrow> int" where
  "max_age_seconds c = lr_max_age c * interval_unit_seconds (lr_max_age_unit c)"

record system_config =
  timezone :: string
  data_dir :: string
  log_dir :: string
  generated_dir :: string
  secrets_dir :: string
  log_level :: string
  project_name :: string
  log_rotation :: log_rotation_config

definition check_system :: "system_config \<Rightarrow> system_config result" where
  "check_system c =
     res_bind (require (log_level c \<in> {''debug'', ''info'', ''warning'', ''error''})) (\<lambda>_.
     res_bind (check_log_rotation (log_rotation c)) (\<lambda>_. Inr c))"

record camouflage_config =
  cam_enabled :: bool
  cam_secret :: "string option"
  cam_realm :: string

definition check_camouflage :: "camouflage_config \<Rightarrow> camouflage_config result" where
  "check_camouflage c = res_bind (require (\<not> (cam_enabled c \<and> \<not> is_set (cam_secret c)))) (\<lambda>_. Inr c)"

record server_config =
  srv_enabled :: bool
  srv_listen :: string
  srv_port :: int
  udp_enabled :: bool
  device :: string
  cn :: string
  srv_realm :: string
  ipv4_network :: string
  srv_dns :: "string list"
  search_domains :: "string list"
  srv_routes :: "string list"
  srv_no_routes :: "string list"
  max_clients :: int
  max_same_clients :: int
  keepalive :: int
  compression :: bool
  cisco_client_compat :: bool
  camouflage :: camouflage_config
  connect_script :: "string option"
  disconnect_script :: "string option"
  debug_level :: int

definition check_server :: "server_config \<Rightarrow> server_config result" where
  "check_server c =
     res_bind (in_range 1 65535 (srv_port c)) (\<lambda>_.
     res_bind (require (short_name_re is_alpha (name_chars ''_.-'') 15 (device c))) (\<lambda>_.
     res_bind (validate_cidr (ipv4_network c)) (\<lambda>net.
     res_bind (res_map validate_ip (srv_dns c)) (\<lambda>dns.
     res_bind (res_map validate_domain (search_domains c)) (\<lambda>sd.
     res_bind (res_map validate_cidr (srv_routes c)) (\<lambda>rs.
     res_bind (res_map validate_cidr (srv_no_routes c)) (\<lambda>nrs.
     res_bind (at_least 1 (max_clients c)) (\<lambda>_.
     res_bind (at_least 1 (max_same_clients c)) (\<lambda>_.
     res_bind (at_least 0 (keepalive c)) (\<lambda>_.
     res_bind (check_camouflage (camouflage c)) (\<lambda>_.
     res_bind (in_range 0 9 (debug_level c)) (\<lambda>_.
     Inr (c\<lparr>ipv4_network := net, srv_dns := dns, search_domains := sd, srv_routes := rs,
            srv_no_routes := nrs\<rparr>)))))))))))))"

record letsencrypt_config =
  le_enabled :: bool
  le_email :: "string option"
  le_domains :: "string list"
  renew_reload :: bool
  auto_renew_enabled :: bool
  auto_renew_interval :: int
  auto_renew_interval_unit :: interval_unit
  http01_address :: "string option"
  http01_port :: int

definition check_letsencrypt :: "letsencrypt_config \<Rightarrow> letsencrypt_config result" where
  "check_letsencrypt c =
     res_bind (res_map validate_domain (le_domains c)) (\<lambda>ds.
     res_bind (at_least 1 (auto_renew_interval c)) (\<lambda>_.
     res_bind (optional validate_ip (http01_address c)) (\<lambda>a.
     res_bind (in_range 1 65535 (http01_port c)) (\<lambda>_.
     Inr (c\<lparr>le_domains := ds, http01_address := a\<rparr>)))))"

definition auto_renew_interval_seconds :: "letsencrypt_config \<Rightarrow> int" where
  "auto_renew_interval_seconds c =
     auto_renew_interval c * interval_unit_seconds (auto_renew_interval_unit c)"

datatype cert_mode = Auto_certs | External_certs

record certificates_config =
  cert_mode :: cert_mode
  ca_name :: string
  server_cert :: "string option"
  server_key :: "string option"
  ca_cert :: "string option"
  letsencrypt :: letsencrypt_config

definition check_certificates :: "certificates_config \<Rightarrow> certificates_config result" where
  "check_certificates c =
     res_bind (check_letsencrypt (letsencrypt c)) (\<lambda>le.
     res_bind (require (\<not> (cert_mode c = External_certs
        \<and> \<not> (server_cert c \<noteq> None \<and> server_key c \<noteq> None \<and> ca_cert c \<noteq> None)))) (\<lambda>_.
     Inr (c\<lparr>letsencrypt := le\<rparr>)))"

record otp_auth_config =
  otp_enabled :: bool
  ocserv_oath_auth :: bool
  issuer :: string
  send_by_email :: bool
  send_by_telegram :: bool
  smtp_host :: "string option"
  smtp_port :: int
  smtp_username :: "string option"
  smtp_password :: "string option"
  smtp_from :: "string option"
  smtp_starttls :: bool
  smtp_test_recipient :: "string option"
  telegram_bot_token :: "string option"
  telegram_chat_id :: "string option"

definition check_otp_auth :: "otp_auth_config \<Rightarrow> otp_auth_config result" where
  "check_otp_auth c = res_bind (in_range 1 65535 (smtp_port c)) (\<lambda>_. Inr c)"

datatype oidc_connector = Pam | Radius

datatype separator = Semicolon | Comma

record oidc_auth_config =
  oidc_enabled :: bool
  connector :: oidc_connector
  pam_service :: string
  pam_gid_min :: "int option"
  radius_config_file :: string
  radius_groupconfig :: bool
  nas_identifier :: "string option"
  group_separator :: separator

definition check_oidc_auth :: "oidc_auth_config \<Rightarrow> oidc_auth_config result" where
  "check_oidc_auth c = res_bind (optional (at_least 0) (pam_gid_min c)) (\<lambda>_. Inr c)"

record auth_config =
  password_auth :: bool
  certificate_auth :: bool
  otp :: otp_auth_config
  oidc :: oidc_auth_config

definition check_auth :: "auth_config \<Rightarrow> auth_config result" where
  "check_auth c =
     res_bind (check_otp_auth (otp c)) (\<lambda>_.
     res_bind (check_oidc_auth (oidc c)) (\<lambda>_.
     res_bind (require (password_auth c \<or> certificate_auth c \<or> oidc_enabled (oidc c))) (\<lambda>_.
     Inr c)))"

section \<open>Upstream profiles\<close>

datatype auth_type = Password_auth | Cert_auth | P12_auth

record upstream_profile =
  p_name :: string
  p_server :: string
  p_port :: string
  p_enabled :: bool
  p_interface :: "string option"
  p_auth_type :: auth_type
  trusted_cert :: bool
  p_username :: "string option"
  p_password :: "string option"
  cert_file :: "string option"
  cert_file_base64 :: "string option"
  key_file :: "string option"
  key_file_base64 :: "string option"
  cert_pass :: "string option"
  server_cert_pin :: "string option"
  check_host :: "string option"
  camouflage_secret :: "string option"
  route_clients_enabled :: bool
  p_routes :: "string list"
  p_domains :: "string list"
  route_host_enabled :: bool
  p_host_routes :: "string list"
  p_host_domains :: "string list"
  accept_server_routes :: bool
  sync_url :: "string option"
  sync_interval :: int
  sync_verify_tls :: bool
  routing_offset :: "int option"

definition profile_name_re :: "string \<Rightarrow> bool" where
  "profile_name_re = short_name_re is_alnum (name_chars ''_.-'') 63"

definition validate_check_host :: "string option \<Rightarrow> string option result" where
  "validate_check_host v = (if \<not> is_set v then Inr None else optional validate_ip v)"

definition validate_sync_url :: "string option \<Rightarrow> string option result" where
  "validate_sync_url v = (case v of None \<Rightarrow> Inr None
     | Some u \<Rightarrow> if strip u = [] then Inr None
         else let candidate = rstrip_char CHR ''/'' (strip u) in
           if \<not> is_http_url candidate then Inl ValueError
           else if list_ex is_space candidate then Inl ValueError else Inr (Some candidate))"

definition validate_profile_interface :: "string option \<Rightarrow> string option result" where
  "validate_profile_interface v = (if \<not> is_set v then Inr None else optional validate_interface_name v)"

text \<open>\<open>base64.b64decode(cleaned, validate=True)\<close> succeeds.\<close>

definition base64_char :: "char \<Rightarrow> bool" where
  "base64_char c = (is_alnum c \<or> c \<in> {CHR ''+'', CHR ''/''})"

definition b64_valid :: "string \<Rightarrow> bool" where
  "b64_valid s = (let body = takeWhile base64_char s; pad = dropWhile base64_char s in
     list_all (\<lambda>c. c = CHR ''='') pad \<and> (body \<noteq> [] \<or> pad = []) \<and>
     (let r = length body mod 4 in
        r = 0 \<or> r = 2 \<and> length pad = 2 \<or> r = 3 \<and> length pad = 1))"

definition validate_base64 :: "string option \<Rightarrow> string option result" where
  "validate_base64 v = (case v of None \<Rightarrow> Inr None
     | Some t \<Rightarrow> if t = [] then Inr None
         else let cleaned = concat (split_ws t) in
           if cleaned = [] then Inr None
           else if b64_valid cleaned then Inr (Some cleaned) else Inl ValueError)"

definition validate_auth_fields :: "upstream_profile \<Rightarrow> unit result" where
  "validate_auth_fields p =
     (if p_auth_type p = Password_auth \<and> \<not> is_set (p_username p) then Inl ValueError
      else if p_auth_type p \<in> {Cert_auth, P12_auth} \<and> \<not> (cert_file p \<noteq> None \<or> is_set (cert_file_base64 p))
      then Inl ValueError
      else if cert_file p \<noteq> None \<and> is_set (cert_file_base64 p) then Inl ValueError
      else if key_file p \<noteq> None \<and> is_set (key_file_base64 p) then Inl ValueError
      else Inr ())"

definition check_profile :: "upstream_profile \<Rightarrow> upstream_profile result" where
  "check_profile p =
     res_bind (require (profile_name_re (p_name p))) (\<lambda>_.
     res_bind (validate_profile_interface (p_interface p)) (\<lambda>ifc.
     res_bind (validate_base64 (cert_file_base64 p)) (\<lambda>cb.
     res_bind (validate_base64 (key_file_base64 p)) (\<lambda>kb.
     res_bind (validate_check_host (check_host p)) (\<lambda>ch.
     res_bind (res_map validate_cidr (p_routes p)) (\<lambda>rs.
     res_bind (res_map validate_domain (p_domains p)) (\<lambda>ds.
     res_bind (res_map validate_cidr (p_host_routes p)) (\<lambda>hrs.
     res_bind (res_map validate_domain (p_host_domains p)) (\<lambda>hds.
     res_bind (validate_sync_url (sync_url p)) (\<lambda>su.
     res_bind (at_least 10 (sync_interval p)) (\<lambda>_.
     res_bind (optional (at_least 1) (routing_offset p)) (\<lambda>_.
     let p' = p\<lparr>p_interface := ifc, cert_file_base64 := cb, key_file_base64 := kb, check_host := ch,
          p_routes := rs, p_domains := ds, p_host_routes := hrs, p_host_domains := hds, sync_url := su\<rparr> in
     res_bind (validate_auth_fields p') (\<lambda>_. Inr p')))))))))))))"

record upstream_config =
  up_enabled :: bool
  up_interface :: string
  active_profile :: "string option"
  check_interval :: int
  check_threshold :: int
  check_settle_seconds :: int
  failover :: bool
  connect_on_boot :: bool
  profiles :: "upstream_profile list"

text \<open>The first profile with the name of the given one, counted from \<open>n\<close>.\<close>

fun index_by_name :: "nat \<Rightarrow> upstream_profile list \<Rightarrow> string \<Rightarrow> nat option" where
  "index_by_name n [] name = None"
| "index_by_name n (p # ps) name = (if p_name p = name then Some n else index_by_name (Suc n) ps name)"

definition profile_interface :: "upstream_config \<Rightarrow> upstream_profile \<Rightarrow> string" where
  "profile_interface u p =
     (if is_set (p_interface p) then the (p_interface p)
      else case index_by_name 0 (profiles u) (p_name p) of
        Some i \<Rightarrow> if i = 0 then up_interface u else ''oc-up'' @ show_nat i
      | None \<Rightarrow> up_interface u)"

definition profile_routing_offset :: "upstream_config \<Rightarrow> upstream_profile \<Rightarrow> int" where
  "profile_routing_offset u p = (case routing_offset p of Some n \<Rightarrow> n
     | None \<Rightarrow> (case index_by_name 0 (profiles u) (p_name p) of
         Some i \<Rightarrow> int i + 1 | None \<Rightarrow> 1))"

definition first_enabled :: "upstream_profile list \<Rightarrow> upstream_profile option" where
  "first_enabled ps = find p_enabled ps"

definition selected_profile :: "upstream_config \<Rightarrow> upstream_profile option" where
  "selected_profile u =
     (if is_set (active_profile u) then
        (case find (\<lambda>p. p_name p = the (active_profile u)) (profiles u) of
           Some p \<Rightarrow> if p_enabled p then Some p else None
         | None \<Rightarrow> first_enabled (profiles u))
      else first_enabled (profiles u))"

definition validate_profiles :: "upstream_config \<Rightarrow> unit result" where
  "validate_profiles u = (let names = map p_name (profiles u) in
     if \<not> distinct names then Inl ValueError
     else if up_enabled u \<and> profiles u = [] then Inl ValueError
     else if is_set (active_profile u) \<and> the (active_profile u) \<notin> set names then Inl ValueError
     else if \<not> distinct (map (profile_interface u) (profiles u)) then Inl ValueError
     else if \<not> distinct (map profile_safe_name names) then Inl ValueError
     else if \<not> distinct (map (profile_routing_offset u) (profiles u)) then Inl ValueError
     else Inr ())"

definition check_upstream :: "upstream_config \<Rightarrow> upstream_config result" where
  "check_upstream u =
     res_bind (validate_interface_name (up_interface u)) (\<lambda>_.
     res_bind (at_least 1 (check_interval u)) (\<lambda>_.
     res_bind (at_least 1 (check_threshold u)) (\<lambda>_.
     res_bind (at_least 0 (check_settle_seconds u)) (\<lambda>_.
     res_bind (res_map check_profile (profiles u)) (\<lambda>ps.
     let u' = u\<lparr>profiles := ps\<rparr> in
     res_bind (validate_profiles u') (\<lambda>_. Inr u'))))))"

end
