(* ===== verification/Config_App.thy ===== *)
theory Config_App
  imports Config_Model
begin

text \<open>
  The rest of \<open>config/models.py\<close>: routing, internal DNS, identity and web settings, the
  whole configuration with its cross-section checks, and the accessors that decide whether the
  local DNS server runs and which servers clients are given. The lemmas state what a validated
  configuration guarantees; the services rest on them.
\<close>

datatype split_mode = Full | Split

datatype host_dns_mode = Off | Resolv_conf | Resolved

record split_config =
  routes_file :: string
  domains_file :: string
  s_routes :: "string list"
  s_domains :: "string list"
  routes_files :: "string list"
  routes_urls :: "string list"
  domains_files :: "string list"
  domains_urls :: "string list"

text \<open>\<open>RoutingSplitConfig\<close> is the same lists with \<open>tunnel_dns\<close>.\<close>

record routing_split_config = split_config +
  tunnel_dns :: bool

definition check_host_split :: "'a split_config_scheme \<Rightarrow> 'a split_config_scheme result" where
  "check_host_split c =
     res_bind (res_map validate_cidr (s_routes c)) (\<lambda>rs.
     res_bind (res_map validate_domain (s_domains c)) (\<lambda>ds.
     res_bind (validate_http_url_list (routes_urls c)) (\<lambda>ru.
     res_bind (validate_http_url_list (domains_urls c)) (\<lambda>du.
     Inr (c\<lparr>s_routes := rs, s_domains := ds, routes_files := dedup_paths (routes_files c),
            routes_urls := ru, domains_files := dedup_paths (domains_files c), domains_urls := du\<rparr>)))))"

record routing_config =
  client_traffic :: bool
  rt_mode :: split_mode
  host_traffic :: bool
  host_mode :: split_mode
  host_dns :: host_dns_mode
  main_interface :: string
  fwmark :: string
  table_id :: int
  nft_prefix :: string
  rt_split :: routing_split_config
  host_split :: split_config

definition validate_fwmark :: "string \<Rightarrow> string result" where
  "validate_fwmark v = (case py_int0 v of None \<Rightarrow> Inl ValueError
     | Some n \<Rightarrow> if n = 0 then Inl ValueError else Inr v)"

definition validate_nft_prefix :: "string \<Rightarrow> string result" where
  "validate_nft_prefix v =
     (if short_name_re is_alpha (name_chars ''_'') 31 v then Inr v else Inl ValueError)"

definition check_routing :: "routing_config \<Rightarrow> routing_config result" where
  "check_routing c =
     res_bind (validate_fwmark (fwmark c)) (\<lambda>_.
     res_bind (at_least 1 (table_id c)) (\<lambda>_.
     res_bind (validate_routing_table_id (table_id c)) (\<lambda>_.
     res_bind (validate_nft_prefix (nft_prefix c)) (\<lambda>_.
     res_bind (check_host_split (rt_split c)) (\<lambda>s.
     res_bind (check_host_split (host_split c)) (\<lambda>hs.
     Inr (c\<lparr>rt_split := s, host_split := hs\<rparr>)))))))"

record internal_dns_config =
  resolver_enabled :: bool
  dns_listen :: string
  dns_port :: int
  blocklist_enabled :: bool
  local_records_enabled :: bool
  blocklist_domains :: "string list"
  blocklist_files :: "string list"
  blocklist_urls :: "string list"
  cache_size :: int
  log_queries :: bool
  local_records :: "string list"
  public_upstreams :: "string list"
  public_domains :: "string list"

definition check_internal_dns :: "internal_dns_config \<Rightarrow> internal_dns_config result" where
  "check_internal_dns c =
     res_bind (validate_ip (dns_listen c)) (\<lambda>_.
     res_bind (in_range 1 65535 (dns_port c)) (\<lambda>_.
     res_bind (res_map validate_blocklist_domain (blocklist_domains c)) (\<lambda>bd.
     res_bind (validate_http_url_list (blocklist_urls c)) (\<lambda>bu.
     res_bind (in_range 0 10000 (cache_size c)) (\<lambda>_.
     res_bind (res_map validate_local_record (local_records c)) (\<lambda>lr.
     res_bind (res_map validate_ip (public_upstreams c)) (\<lambda>pu.
     res_bind (res_map (\<lambda>d. res_bind (validate_domain d) (\<lambda>x. Inr (lower x))) (public_domains c)) (\<lambda>pd.
     let c' = c\<lparr>blocklist_domains := bd, blocklist_files := dedup_paths (blocklist_files c),
          blocklist_urls := bu, local_records := lr, public_upstreams := uniq [] pu,
          public_domains := uniq [] pd\<rparr> in
     res_bind (require ((public_upstreams c' \<noteq> []) = (public_domains c' \<noteq> []))) (\<lambda>_.
     Inr c')))))))))"

record oidc_provider_config =
  op_name :: string
  issuer_url :: string
  client_id :: string
  client_secret :: "string option"
  scopes :: "string list"
  username_claim :: string
  groups_claim :: string
  allowed_groups :: "string list"

definition check_oidc_provider :: "oidc_provider_config \<Rightarrow> oidc_provider_config result" where
  "check_oidc_provider c =
     res_bind (require (profile_name_re (op_name c))) (\<lambda>_.
     res_bind (require (is_http_url (issuer_url c))) (\<lambda>_.
     Inr (c\<lparr>issuer_url := rstrip_char CHR ''/'' (issuer_url c)\<rparr>)))"

record group_policy_config =
  gp_name :: string
  display_name :: "string option"
  gp_routes :: "string list"
  gp_no_routes :: "string list"
  gp_dns :: "string list"
  gp_split_dns :: "string list"
  tunnel_all_dns :: "bool option"
  gp_max_same_clients :: "int option"
  session_timeout :: "int option"
  idle_timeout :: "int option"
  gp_no_udp :: "bool option"

definition group_name_re :: "string \<Rightarrow> bool" where
  "group_name_re = short_name_re (name_chars ''_.@-'') (name_chars ''_.@-'') 63"

definition check_group_policy :: "group_policy_config \<Rightarrow> group_policy_config result" where
  "check_group_policy c =
     res_bind (require (group_name_re (gp_name c))) (\<lambda>_.
     res_bind (res_map validate_cidr (gp_routes c)) (\<lambda>rs.
     res_bind (res_map validate_cidr (gp_no_routes c)) (\<lambda>nrs.
     res_bind (res_map validate_ip (gp_dns c)) (\<lambda>dns.
     res_bind (res_map validate_domain (gp_split_dns c)) (\<lambda>sd.
     res_bind (optional (at_least 1) (gp_max_same_clients c)) (\<lambda>_.
     res_bind (optional (at_least 1) (session_timeout c)) (\<lambda>_.
     res_bind (optional (at_least 1) (idle_timeout c)) (\<lambda>_.
     Inr (c\<lparr>gp_routes := rs, gp_no_routes := nrs, gp_dns := dns, gp_split_dns := sd\<rparr>)))))))))"

record identity_config =
  config_per_group_dir :: "string option"
  config_per_user_dir :: "string option"
  default_group_config :: "string option"
  select_group_by_url :: bool
  default_select_group :: "string option"
  oidc_providers :: "oidc_provider_config list"
  group_policies :: "group_policy_config list"

definition validate_identity :: "identity_config \<Rightarrow> unit result" where
  "validate_identity c =
     (if \<not> distinct (map op_name (oidc_providers c)) then Inl ValueError
      else if \<not> distinct (map gp_name (group_policies c)) then Inl ValueError
      else if is_set (default_select_group c)
          \<and> the (default_select_group c) \<notin> set (map gp_name (group_policies c)) then Inl ValueError
      else Inr ())"

definition check_identity :: "identity_config \<Rightarrow> identity_config result" where
  "check_identity c =
     res_bind (res_map check_oidc_provider (oidc_providers c)) (\<lambda>ops.
     res_bind (res_map check_group_policy (group_policies c)) (\<lambda>gps.
     let c' = c\<lparr>oidc_providers := ops, group_policies := gps\<rparr> in
     res_bind (validate_identity c') (\<lambda>_. Inr c')))"

record web_config =
  web_enabled :: bool
  web_listen :: string
  web_port :: int
  web_tls :: bool
  tls_cert :: "string option"
  tls_key :: "string option"
  allow_insecure_http :: bool
  trusted_proxies :: "string list"
  admin_user :: string
  admin_password :: "string option"
  admin_password_hash :: "string option"
  static_dir :: string
  terminal_enabled :: bool
  terminal_idle_timeout :: int
  terminal_max_sessions :: int
  session_lifetime :: int
  session_cookie_secure :: bool
  admin_totp_enabled :: bool
  admin_totp_secret :: "string option"

definition validate_public_bind :: "web_config \<Rightarrow> unit result" where
  "validate_public_bind c =
     (if web_enabled c \<and> \<not> (is_set (admin_password c) \<or> is_set (admin_password_hash c))
      then Inl ValueError
      else if (tls_cert c = None) \<noteq> (tls_key c = None) then Inl ValueError
      else if web_enabled c \<and> web_listen c = ''0.0.0.0'' \<and> \<not> web_tls c \<and> \<not> allow_insecure_http c
      then Inl ValueError
      else if admin_totp_enabled c \<and> \<not> is_set (admin_totp_secret c) then Inl ValueError
      else Inr ())"

definition check_web :: "web_config \<Rightarrow> web_config result" where
  "check_web c =
     res_bind (in_range 1 65535 (web_port c)) (\<lambda>_.
     res_bind (res_map validate_cidr (trusted_proxies c)) (\<lambda>_.
     res_bind (in_range 60 86400 (terminal_idle_timeout c)) (\<lambda>_.
     res_bind (in_range 1 10 (terminal_max_sessions c)) (\<lambda>_.
     res_bind (in_range 300 86400 (session_lifetime c)) (\<lambda>_.
     res_bind (validate_public_bind c) (\<lambda>_. Inr c))))))"

record app_config =
  app_system :: system_config
  app_server :: server_config
  app_certificates :: certificates_config
  app_auth :: auth_config
  app_identity :: identity_config
  app_upstream :: upstream_config
  app_routing :: routing_config
  app_internal_dns :: internal_dns_config
  app_web :: web_config
  app_cli_enabled :: bool
  app_raw_ocserv_options :: json

section \<open>DNS accessors\<close>

datatype dns_reason =
    Resolver_enabled
  | Blocklist_enabled
  | Local_records_enabled
  | Split_dns
  | Profile_domains
  | Host_split_domains
  | Profile_host_domains
  | Profile_server_routes

text \<open>\<open>exists_file\<close> stands for \<open>Path.exists\<close> of the host domains file.\<close>

definition dnsmasq_active_reasons :: "(string \<Rightarrow> bool) \<Rightarrow> app_config \<Rightarrow> dns_reason list" where
  "dnsmasq_active_reasons exists_file c =
     (let dns = app_internal_dns c; rt = app_routing c; up = app_upstream c; hs = host_split rt in
        (if resolver_enabled dns then [Resolver_enabled] else [])
      @ (if blocklist_enabled dns then [Blocklist_enabled] else [])
      @ (if local_records_enabled dns then [Local_records_enabled] else [])
      @ (if client_traffic rt \<and> rt_mode rt = Split \<and> tunnel_dns (rt_split rt) then [Split_dns] else [])
      @ (if up_enabled up \<and> list_ex (\<lambda>p. p_enabled p \<and> route_clients_enabled p \<and> p_domains p \<noteq> []) (profiles up)
         then [Profile_domains] else [])
      @ (if host_traffic rt \<and> host_mode rt = Split
            \<and> (s_domains hs \<noteq> [] \<or> domains_files hs \<noteq> [] \<or> domains_urls hs \<noteq> []
               \<or> exists_file (domains_file hs))
         then [Host_split_domains] else [])
      @ (if up_enabled up \<and> list_ex (\<lambda>p. p_enabled p \<and> route_host_enabled p \<and> p_host_domains p \<noteq> []) (profiles up)
         then [Profile_host_domains] else [])
      @ (if up_enabled up \<and> list_ex (\<lambda>p. p_enabled p \<and> route_host_enabled p \<and> accept_server_routes p) (profiles up)
         then [Profile_server_routes] else []))"

definition client_dns_reasons :: "(string \<Rightarrow> bool) \<Rightarrow> app_config \<Rightarrow> dns_reason list" where
  "client_dns_reasons exists_file c =
     filter (\<lambda>r. r \<in> {Resolver_enabled, Blocklist_enabled, Local_records_enabled, Split_dns, Profile_domains})
       (dnsmasq_active_reasons exists_file c)"

definition dns_tunnel_active :: "(string \<Rightarrow> bool) \<Rightarrow> app_config \<Rightarrow> bool" where
  "dns_tunnel_active exists_file c = (dnsmasq_active_reasons exists_file c \<noteq> [])"

definition client_dns_servers :: "(string \<Rightarrow> bool) \<Rightarrow> app_config \<Rightarrow> string list" where
  "client_dns_servers exists_file c =
     (if client_dns_reasons exists_file c \<noteq> [] then [dns_listen (app_internal_dns c)]
      else srv_dns (app_server c))"

section \<open>Cross-section validation\<close>

definition path_join :: "string \<Rightarrow> string \<Rightarrow> string" where
  "path_join d n = d @ ''/'' @ n"

definition default_paths :: "app_config \<Rightarrow> app_config" where
  "default_paths c = (let ident = app_identity c; gen = generated_dir (app_system c);
       certs = app_certificates c; le = letsencrypt certs;
       dflt = (\<lambda>v d. case v of None \<Rightarrow> Some d | Some x \<Rightarrow> Some x) in
     c\<lparr>app_identity := ident\<lparr>config_per_user_dir := dflt (config_per_user_dir ident) (path_join gen ''config-per-user''),
          config_per_group_dir := dflt (config_per_group_dir ident) (path_join gen ''config-per-group'')\<rparr>,
       app_certificates := certs\<lparr>letsencrypt :=
          le\<lparr>http01_address := dflt (http01_address le) (srv_listen (app_server c))\<rparr>\<rparr>\<rparr>)"

definition parse_network :: "string \<Rightarrow> ipnet result" where
  "parse_network s = ip_network False s"

definition parse_address :: "string \<Rightarrow> ip result" where
  "parse_address s = (case ip_address s of None \<Rightarrow> Inl ValueError | Some a \<Rightarrow> Inr a)"

definition check_host_outside :: "upstream_config \<Rightarrow> ipnet \<Rightarrow> unit result" where
  "check_host_outside up vpn = (case selected_profile up of None \<Rightarrow> Inr ()
     | Some p \<Rightarrow> (case check_host p of None \<Rightarrow> Inr ()
         | Some h \<Rightarrow> if h = [] then Inr ()
             else res_bind (parse_address h) (\<lambda>a. require (\<not> in_net a vpn))))"

definition derived_table_id :: "app_config \<Rightarrow> upstream_profile \<Rightarrow> int" where
  "derived_table_id c p = table_id (app_routing c) + profile_routing_offset (app_upstream c) p"

definition validate_routing_compatibility :: "(string \<Rightarrow> bool) \<Rightarrow> app_config \<Rightarrow> app_config result" where
  "validate_routing_compatibility exists_file c0 = (let c = default_paths c0; up = app_upstream c in
     res_bind (parse_network (ipv4_network (app_server c))) (\<lambda>vpn.
     res_bind (res_map (\<lambda>r. res_bind (parse_network r) (\<lambda>n. require (n \<noteq> vpn)))
        (s_routes (rt_split (app_routing c)))) (\<lambda>_.
     res_bind (if up_enabled up
        then res_bind (check_host_outside up vpn) (\<lambda>_.
             res_bind (res_map (\<lambda>p. validate_routing_table_id (derived_table_id c p)) (profiles up)) (\<lambda>_. Inr ()))
        else Inr ()) (\<lambda>_.
     res_bind (if dns_tunnel_active exists_file c
        then res_bind (parse_address (dns_listen (app_internal_dns c))) (\<lambda>a. require (in_net a vpn))
        else Inr ()) (\<lambda>_. Inr c)))))"

definition check_app :: "(string \<Rightarrow> bool) \<Rightarrow> app_config \<Rightarrow> app_config result" where
  "check_app exists_file c =
     res_bind (check_system (app_system c)) (\<lambda>sys.
     res_bind (check_server (app_server c)) (\<lambda>srv.
     res_bind (check_certificates (app_certificates c)) (\<lambda>certs.
     res_bind (check_auth (app_auth c)) (\<lambda>auth.
     res_bind (check_identity (app_identity c)) (\<lambda>ident.
     res_bind (check_upstream (app_upstream c)) (\<lambda>up.
     res_bind (check_routing (app_routing c)) (\<lambda>rt.
     res_bind (check_internal_dns (app_internal_dns c)) (\<lambda>dns.
     res_bind (check_web (app_web c)) (\<lambda>web.
     validate_routing_compatibility exists_file
       (c\<lparr>app_system := sys, app_server := srv, app_certificates := certs, app_auth := auth,
          app_identity := ident, app_upstream := up, app_routing := rt, app_internal_dns := dns,
          app_web := web\<rparr>))))))))))"

definition generated_path :: "app_config \<Rightarrow> string \<Rightarrow> string" where
  "generated_path c name = path_join (generated_dir (app_system c)) name"

definition secret_path :: "app_config \<Rightarrow> string \<Rightarrow> string" where
  "secret_path c name = path_join (secrets_dir (app_system c)) name"

definition cert_path :: "app_config \<Rightarrow> string \<Rightarrow> string" where
  "cert_path c name = path_join (path_join (data_dir (app_system c)) ''certs'') name"

definition first_path :: "string option \<Rightarrow> string option \<Rightarrow> string \<Rightarrow> string" where
  "first_path a b d = (case a of Some p \<Rightarrow> p | None \<Rightarrow> (case b of Some p \<Rightarrow> p | None \<Rightarrow> d))"

definition web_tls_cert_path :: "app_config \<Rightarrow> string" where
  "web_tls_cert_path c = first_path (tls_cert (app_web c)) (server_cert (app_certificates c))
     (cert_path c ''server.crt'')"

definition web_tls_key_path :: "app_config \<Rightarrow> string" where
  "web_tls_key_path c = first_path (tls_key (app_web c)) (server_key (app_certificates c))
     (cert_path c ''server.key'')"

section \<open>What validation guarantees\<close>

lemma selected_profile_enabled:
  "selected_profile u = Some p \<Longrightarrow> p_enabled p \<and> p \<in> set (profiles u)"
  by (auto simp: selected_profile_def first_enabled_def find_Some_iff split: if_splits option.splits)

lemma index_by_name_Some:
  "index_by_name n ps name = Some i \<Longrightarrow> n \<le> i \<and> i < n + length ps \<and> p_name (ps ! (i - n)) = name"
proof (induction n ps name rule: index_by_name.induct)
  case (2 n p ps name)
  then show ?case by (cases "p_name p = name") (auto simp: nth_Cons' not_le Suc_le_eq Suc_diff_Suc)
qed simp

lemma index_by_name_mem: "p \<in> set ps \<Longrightarrow> \<exists>i. index_by_name n ps (p_name p) = Some i"
  by (induction ps arbitrary: n) auto

definition valid_upstream :: "upstream_config \<Rightarrow> bool" where
  "valid_upstream u = (distinct (map p_name (profiles u))
     \<and> distinct (map (profile_interface u) (profiles u))
     \<and> distinct (map profile_safe_name (map p_name (profiles u)))
     \<and> distinct (map (profile_routing_offset u) (profiles u))
     \<and> (\<forall>p \<in> set (profiles u). 1 \<le> profile_routing_offset u p)
     \<and> (is_set (active_profile u) \<longrightarrow> the (active_profile u) \<in> set (map p_name (profiles u)))
     \<and> (up_enabled u \<longrightarrow> profiles u \<noteq> []))"

lemma validate_profiles_iff:
  "validate_profiles u = Inr () \<longleftrightarrow> distinct (map p_name (profiles u))
     \<and> distinct (map (profile_interface u) (profiles u))
     \<and> distinct (map profile_safe_name (map p_name (profiles u)))
     \<and> distinct (map (profile_routing_offset u) (profiles u))
     \<and> (is_set (active_profile u) \<longrightarrow> the (active_profile u) \<in> set (map p_name (profiles u)))
     \<and> (up_enabled u \<longrightarrow> profiles u \<noteq> [])"
  by (auto simp: validate_profiles_def Let_def)

lemma check_profile_offset: "check_profile p = Inr p' \<Longrightarrow>
   routing_offset p' = routing_offset p \<and> (\<forall>n. routing_offset p' = Some n \<longrightarrow> 1 \<le> n)
   \<and> p_name p' = p_name p \<and> p_enabled p' = p_enabled p"
  by (auto simp: check_profile_def res_bind_Inr_iff Let_def optional_Inr split: option.splits)

lemma check_upstream_valid:
  assumes "check_upstream u = Inr u'"
  shows "valid_upstream u'"
proof -
  from assms obtain ps where ps: "res_map check_profile (profiles u) = Inr ps"
    and u': "u' = u\<lparr>profiles := ps\<rparr>" and v: "validate_profiles u' = Inr ()"
    by (auto simp: check_upstream_def res_bind_Inr_iff Let_def)
  have "1 \<le> profile_routing_offset u' p" if "p \<in> set (profiles u')" for p
  proof (cases "routing_offset p")
    case None
    then show ?thesis by (auto simp: profile_routing_offset_def split: option.splits)
  next
    case (Some n)
    from that u' have "p \<in> set ps" by simp
    with ps obtain q where "check_profile q = Inr p"
      by (auto simp: res_map_Inr_iff list_all2_conv_all_nth in_set_conv_nth)
    from check_profile_offset [OF this] Some have "1 \<le> n" by auto
    with Some show ?thesis by (simp add: profile_routing_offset_def)
  qed
  with v show ?thesis unfolding valid_upstream_def validate_profiles_iff by blast
qed

lemma res_map_all: "res_map f xs = Inr ys \<Longrightarrow> x \<in> set xs \<Longrightarrow> \<exists>y. f x = Inr y"
  by (auto simp: res_map_Inr_iff list_all2_conv_all_nth in_set_conv_nth)

definition valid_app :: "app_config \<Rightarrow> bool" where
  "valid_app c = (valid_upstream (app_upstream c)
     \<and> table_id (app_routing c) \<ge> 1 \<and> table_id (app_routing c) \<notin> set reserved_routing_table_ids
     \<and> (\<exists>n. py_int0 (fwmark (app_routing c)) = Some n \<and> n \<noteq> 0)
     \<and> (up_enabled (app_upstream c) \<longrightarrow>
         (\<forall>p \<in> set (profiles (app_upstream c)). derived_table_id c p \<notin> set reserved_routing_table_ids)))"

lemma default_paths_simps [simp]:
  "app_upstream (default_paths c) = app_upstream c"
  "app_routing (default_paths c) = app_routing c"
  "app_server (default_paths c) = app_server c"
  "app_internal_dns (default_paths c) = app_internal_dns c"
  "derived_table_id (default_paths c) = derived_table_id c"
  by (simp_all add: default_paths_def Let_def derived_table_id_def fun_eq_iff)

lemma validate_routing_compatibility_Inr:
  "validate_routing_compatibility ex c = Inr c' \<Longrightarrow> c' = default_paths c \<and>
     (up_enabled (app_upstream c) \<longrightarrow>
       (\<forall>p \<in> set (profiles (app_upstream c)). derived_table_id c p \<notin> set reserved_routing_table_ids))"
proof -
  assume a: "validate_routing_compatibility ex c = Inr c'"
  then have c': "c' = default_paths c"
    by (auto simp: validate_routing_compatibility_def Let_def res_bind_Inr_iff)
  have "derived_table_id c p \<notin> set reserved_routing_table_ids"
    if "up_enabled (app_upstream c)" "p \<in> set (profiles (app_upstream c))" for p
  proof -
    from a that(1) obtain ys where
      "res_map (\<lambda>p. validate_routing_table_id (derived_table_id c p)) (profiles (app_upstream c)) = Inr ys"
      by (auto simp: validate_routing_compatibility_def Let_def res_bind_Inr_iff)
    from res_map_all [OF this that(2)] show ?thesis
      by (auto simp: validate_routing_table_id_def split: if_splits)
  qed
  with c' show ?thesis by blast
qed

lemma check_routing_Inr: "check_routing r = Inr r' \<Longrightarrow>
   table_id r' \<ge> 1 \<and> table_id r' \<notin> set reserved_routing_table_ids
   \<and> (\<exists>n. py_int0 (fwmark r') = Some n \<and> n \<noteq> 0)"
  by (auto simp: check_routing_def res_bind_Inr_iff validate_routing_table_id_def validate_fwmark_def
      split: option.splits if_splits)

lemma check_app_parts:
  assumes "check_app ex c = Inr c'"
  obtains up rt where "check_upstream (app_upstream c) = Inr up" "check_routing (app_routing c) = Inr rt"
    "app_upstream c' = up" "app_routing c' = rt"
    "up_enabled up \<longrightarrow> (\<forall>p \<in> set (profiles up). table_id rt + profile_routing_offset up p \<notin> set reserved_routing_table_ids)"
proof -
  from assms [unfolded check_app_def res_bind_Inr_iff]
  obtain sys srv certs auth ident up rt dns web
    where u: "check_upstream (app_upstream c) = Inr up" and r: "check_routing (app_routing c) = Inr rt"
    and v: "validate_routing_compatibility ex
       (c\<lparr>app_system := sys, app_server := srv, app_certificates := certs, app_auth := auth,
          app_identity := ident, app_upstream := up, app_routing := rt, app_internal_dns := dns,
          app_web := web\<rparr>) = Inr c'"
    by (elim exE conjE) (rule that)
  from validate_routing_compatibility_Inr [OF v] have "app_upstream c' = up" "app_routing c' = rt"
    "up_enabled up \<longrightarrow> (\<forall>p \<in> set (profiles up). table_id rt + profile_routing_offset up p \<notin> set reserved_routing_table_ids)"
    by (auto simp: derived_table_id_def)
  with u r that show ?thesis by blast
qed

lemma check_app_valid: "check_app ex c = Inr c' \<Longrightarrow> valid_app c'"
proof (erule check_app_parts)
  fix up rt
  assume "check_upstream (app_upstream c) = Inr up" "check_routing (app_routing c) = Inr rt"
    "app_upstream c' = up" "app_routing c' = rt"
    "up_enabled up \<longrightarrow> (\<forall>p \<in> set (profiles up). table_id rt + profile_routing_offset up p \<notin> set reserved_routing_table_ids)"
  then show "valid_app c'"
    using check_upstream_valid check_routing_Inr unfolding valid_app_def derived_table_id_def by blast
qed

text \<open>The DNS server of an accepted configuration is inside the clients' network.\<close>

lemma check_app_dns:
  assumes "check_app ex c = Inr c'" "dns_tunnel_active ex c'"
  shows "\<exists>a n. ip_address (dns_listen (app_internal_dns c')) = Some a
    \<and> ip_network False (ipv4_network (app_server c')) = Inr n \<and> in_net a n"
proof -
  from assms(1) obtain c0 where v: "validate_routing_compatibility ex c0 = Inr c'"
    unfolding check_app_def res_bind_Inr_iff by blast
  then have "c' = default_paths c0" using validate_routing_compatibility_Inr by blast
  with v assms(2) show ?thesis
    by (auto simp: validate_routing_compatibility_def Let_def res_bind_Inr_iff parse_address_def
        parse_network_def simp del: default_paths_simps split: option.splits)
qed

end
