(* ===== verification/Defaults.thy ===== *)
theory Defaults
  imports Config_App
begin

text \<open>
  The default values of \<open>config/models.py\<close>: what every section is when the configuration file
  does not mention it, and the profile and group policy a caller gets by naming only the
  required fields. The result of validating the defaults is computed.
\<close>

definition default_log_rotation :: log_rotation_config where
  "default_log_rotation = \<lparr>lr_enabled = False, lr_max_size_mb = 50, lr_max_age = 0,
     lr_max_age_unit = Days, lr_keep_files = 5\<rparr>"

definition default_system :: system_config where
  "default_system = \<lparr>timezone = ''UTC'', data_dir = ''/var/lib/korserver'',
     log_dir = ''/var/log/korserver'', generated_dir = ''/var/lib/korserver/generated'',
     secrets_dir = ''/var/lib/korserver/secrets'', log_level = ''info'',
     project_name = ''korserver'', log_rotation = default_log_rotation\<rparr>"

definition default_camouflage :: camouflage_config where
  "default_camouflage = \<lparr>cam_enabled = False, cam_secret = None, cam_realm = ''Hidden service''\<rparr>"

definition default_server :: server_config where
  "default_server = \<lparr>srv_enabled = True, srv_listen = ''0.0.0.0'', srv_port = 443,
     udp_enabled = True, device = ''vpns'', cn = ''vpn.example.com'',
     srv_realm = ''Korvus VPN Server'', ipv4_network = ''10.10.10.0/24'',
     srv_dns = [''1.1.1.1'', ''8.8.8.8''], search_domains = [], srv_routes = [],
     srv_no_routes = [], max_clients = 128, max_same_clients = 2, keepalive = 32400,
     compression = False, cisco_client_compat = True, camouflage = default_camouflage,
     connect_script = None, disconnect_script = None, debug_level = 2\<rparr>"

definition default_letsencrypt :: letsencrypt_config where
  "default_letsencrypt = \<lparr>le_enabled = False, le_email = None, le_domains = [],
     renew_reload = True, auto_renew_enabled = True, auto_renew_interval = 7,
     auto_renew_interval_unit = Days, http01_address = None, http01_port = 80\<rparr>"

definition default_certificates :: certificates_config where
  "default_certificates = \<lparr>cert_mode = Auto_certs, ca_name = ''Korvus Server CA'',
     server_cert = None, server_key = None, ca_cert = None, letsencrypt = default_letsencrypt\<rparr>"

definition default_otp :: otp_auth_config where
  "default_otp = \<lparr>otp_enabled = False, ocserv_oath_auth = False, issuer = ''Korvus Server'',
     send_by_email = False, send_by_telegram = False, smtp_host = None, smtp_port = 587,
     smtp_username = None, smtp_password = None, smtp_from = None, smtp_starttls = True,
     smtp_test_recipient = None, telegram_bot_token = None, telegram_chat_id = None\<rparr>"

definition default_oidc :: oidc_auth_config where
  "default_oidc = \<lparr>oidc_enabled = False, connector = Pam, pam_service = ''ocserv'',
     pam_gid_min = Some 1000, radius_config_file = ''/etc/radiusclient/radiusclient.conf'',
     radius_groupconfig = True, nas_identifier = None, group_separator = Semicolon\<rparr>"

definition default_auth :: auth_config where
  "default_auth = \<lparr>password_auth = True, certificate_auth = False, otp = default_otp,
     oidc = default_oidc\<rparr>"

definition default_profile :: "string \<Rightarrow> string \<Rightarrow> upstream_profile" where
  "default_profile name server = \<lparr>p_name = name, p_server = server, p_port = ''443'',
     p_enabled = True, p_interface = None, p_auth_type = Password_auth, trusted_cert = False,
     p_username = None, p_password = None, cert_file = None, cert_file_base64 = None,
     key_file = None, key_file_base64 = None, cert_pass = None, server_cert_pin = None,
     check_host = None, camouflage_secret = None, route_clients_enabled = True, p_routes = [],
     p_domains = [], route_host_enabled = False, p_host_routes = [], p_host_domains = [],
     accept_server_routes = False, sync_url = None, sync_interval = 60, sync_verify_tls = False,
     routing_offset = None\<rparr>"

definition default_upstream :: upstream_config where
  "default_upstream = \<lparr>up_enabled = False, up_interface = ''oc-middle0'', active_profile = None,
     check_interval = 5, check_threshold = 3, check_settle_seconds = 15, failover = False,
     connect_on_boot = True, profiles = []\<rparr>"

definition default_split :: routing_split_config where
  "default_split = \<lparr>routes_file = ''/var/lib/korserver/routes.txt'',
     domains_file = ''/var/lib/korserver/domains.txt'', s_routes = [], s_domains = [],
     routes_files = [], routes_urls = [], domains_files = [], domains_urls = [],
     tunnel_dns = False\<rparr>"

definition default_host_split :: split_config where
  "default_host_split = \<lparr>routes_file = ''/var/lib/korserver/host-routes.txt'',
     domains_file = ''/var/lib/korserver/host-domains.txt'', s_routes = [], s_domains = [],
     routes_files = [], routes_urls = [], domains_files = [], domains_urls = []\<rparr>"

definition default_routing :: routing_config where
  "default_routing = \<lparr>client_traffic = True, rt_mode = Full, host_traffic = False,
     host_mode = Full, host_dns = Off, main_interface = ''auto'', fwmark = ''0x0c01'',
     table_id = 1201, nft_prefix = ''korserver'', rt_split = default_split,
     host_split = default_host_split\<rparr>"

definition default_internal_dns :: internal_dns_config where
  "default_internal_dns = \<lparr>resolver_enabled = False, dns_listen = ''10.10.10.1'', dns_port = 53,
     blocklist_enabled = False, local_records_enabled = False, blocklist_domains = [],
     blocklist_files = [], blocklist_urls = [], cache_size = 150, log_queries = False,
     local_records = [], public_upstreams = [], public_domains = []\<rparr>"

definition default_group_policy :: "string \<Rightarrow> group_policy_config" where
  "default_group_policy name = \<lparr>gp_name = name, display_name = None, gp_routes = [],
     gp_no_routes = [], gp_dns = [], gp_split_dns = [], tunnel_all_dns = None,
     gp_max_same_clients = None, session_timeout = None, idle_timeout = None, gp_no_udp = None\<rparr>"

definition default_identity :: identity_config where
  "default_identity = \<lparr>config_per_group_dir = None, config_per_user_dir = None,
     default_group_config = None, select_group_by_url = False, default_select_group = None,
     oidc_providers = [], group_policies = []\<rparr>"

definition default_web :: web_config where
  "default_web = \<lparr>web_enabled = False, web_listen = ''127.0.0.1'', web_port = 8443,
     web_tls = True, tls_cert = None, tls_key = None, allow_insecure_http = False,
     trusted_proxies = [], admin_user = ''admin'', admin_password = None,
     admin_password_hash = None, static_dir = ''/usr/share/korserver/frontend'',
     terminal_enabled = False, terminal_idle_timeout = 900, terminal_max_sessions = 2,
     session_lifetime = 43200, session_cookie_secure = True, admin_totp_enabled = False,
     admin_totp_secret = None\<rparr>"

definition default_app :: app_config where
  "default_app = \<lparr>app_system = default_system, app_server = default_server,
     app_certificates = default_certificates, app_auth = default_auth,
     app_identity = default_identity, app_upstream = default_upstream,
     app_routing = default_routing, app_internal_dns = default_internal_dns,
     app_web = default_web, app_cli_enabled = True, app_raw_ocserv_options = JList []\<rparr>"

lemmas defaults = default_log_rotation_def default_system_def default_camouflage_def
  default_server_def default_letsencrypt_def default_certificates_def default_otp_def
  default_oidc_def default_auth_def default_profile_def default_upstream_def default_split_def
  default_host_split_def default_routing_def default_internal_dns_def default_group_policy_def
  default_identity_def default_web_def default_app_def

end
