(* ===== verification/Samples.thy ===== *)
theory Samples
  imports Defaults Effects
begin

text \<open>
  Concrete inputs the properties are instantiated at: a configuration with two upstream
  profiles, an empty world, and an environment in which every command succeeds and prints its
  own arguments, no file changes, no process is alive and every download fails.
\<close>

section \<open>A configuration with two upstream servers\<close>

text \<open>
  The concrete configuration of the witnesses: upstream on, two profiles with a password, the
  second with client and host routes of its own.
\<close>

definition sample_first :: upstream_profile where
  "sample_first = (default_profile ''main'' ''vpn1.example.com'')\<lparr>p_username := Some ''alice''\<rparr>"

definition sample_second :: upstream_profile where
  "sample_second = (default_profile ''My-VPN'' ''vpn2.example.com'')\<lparr>p_username := Some ''bob'',
     p_routes := [''192.0.2.0/24''], p_host_routes := [''198.51.100.7'', ''203.0.113.0/24''],
     route_host_enabled := True\<rparr>"

definition sample_app :: app_config where
  "sample_app = default_app\<lparr>app_upstream := default_upstream\<lparr>up_enabled := True,
     profiles := [sample_first, sample_second]\<rparr>\<rparr>"

lemmas samples = sample_first_def sample_second_def sample_app_def

section \<open>A world and an environment\<close>

definition sample_env :: env where
  "sample_env = \<lparr>e_run = (\<lambda>_ argv _. Completed 0 (join '' '' argv) []), e_after = (\<lambda>w _ _. files w),
     e_now = (\<lambda>_. 1000), e_alive = (\<lambda>_ _. False), e_fetch = (\<lambda>_ _. None), e_sha = take 16,
     e_tick = (\<lambda>w _. files w), e_mono = length \<circ> trace, e_rpc = (\<lambda>_ _ _. Rpc_fault []), e_tls = (\<lambda>_ _ _. None),
     e_dir = (\<lambda>_ _. False)\<rparr>"

definition sample_world :: world where
  "sample_world = \<lparr>files = Map.empty, trace = []\<rparr>"

text \<open>The same environment, with a body served at every address.\<close>

definition serving_env :: "string \<Rightarrow> env" where
  "serving_env body = sample_env\<lparr>e_fetch := (\<lambda>_ _. Some body)\<rparr>"

end
