(* ===== verification/Storage_Properties.thy ===== *)
theory Storage_Properties
  imports Command List_Cache Samples
begin

text \<open>
  The properties of the lowest layer: files written atomically and read back, masked text and
  documents, and the results and events of a command.
\<close>

section \<open>Files\<close>

text \<open>
  C28. An atomic write is all or nothing: whichever of its steps fails, no file differs from
  before, the temporary one included; when every step completes, only the target differs and
  holds the new content.
\<close>

theorem atomic_write_all_or_nothing:
  assumes "fs tmp = None" "tmp \<noteq> p"
  shows "write_crash k tmp p content fs = (if k < length write_steps then fs else fs(p \<mapsto> content))"
  using assms by (simp add: write_crash_cases write_steps_def)

theorem atomic_write_all_or_nothing_witness:
  "write_crash 3 ''.a.tmp'' ''a'' ''new'' [''a'' \<mapsto> ''old''] ''a'' = Some ''old'' \<and>
   write_crash 4 ''.a.tmp'' ''a'' ''new'' [''a'' \<mapsto> ''old''] ''a'' = Some ''new''"
  using atomic_write_all_or_nothing [of "[''a'' \<mapsto> ''old'']" "''.a.tmp''" "''a''" 3 "''new''"]
    atomic_write_all_or_nothing [of "[''a'' \<mapsto> ''old'']" "''.a.tmp''" "''a''" 4 "''new''"]
  by (simp add: write_steps_def)

text \<open>
  A list of lines written to a file reads back as its cleaned form: in order, without
  repetitions, exactly the stripped lines that are neither empty nor comments; and cleaning
  again changes nothing.
\<close>

theorem written_lines_read_back:
  assumes "\<forall>l \<in> set ls. no_breaks l"
  shows "fst (read_lines p (snd (write_unique_lines p ls mode w))) = Inr (unique_lines ls)
    \<and> distinct (unique_lines ls)
    \<and> set (unique_lines ls) = {strip l | l. l \<in> set ls \<and> strip l \<noteq> [] \<and> \<not> starts_with ''#'' (strip l)}
    \<and> unique_lines (unique_lines ls) = unique_lines ls"
  using lf.load_save [OF assms] lf.clean_set [of ls]
  by (simp add: read_lines_def write_unique_lines_def atomic_write_text_def unique_lines_facts keepable_def)

theorem written_lines_read_back_witness:
  "fst (read_lines ''f'' (snd (write_unique_lines ''f'' ['' b '', ''#x'', ''a'', ''b''] 420 sample_world)))
   = Inr [''b'', ''a'']"
proof -
  have "\<forall>l \<in> set ['' b '', ''#x'', ''a'', ''b'']. no_breaks l" by code_simp
  moreover have "unique_lines ['' b '', ''#x'', ''a'', ''b''] = [''b'', ''a'']" by code_simp
  ultimately show ?thesis
    using conjunct1 [OF written_lines_read_back [of "['' b '', ''#x'', ''a'', ''b'']" "''f''" 420 sample_world]]
    by (simp only:)
qed

section \<open>Masking\<close>

text \<open>
  Masked text contains none of the known secrets, wherever they stood in it: no non-empty
  secret without an asterisk is a substring of the result.
\<close>

theorem masked_text_hides_secrets:
  assumes "s \<in> set secrets" "s \<noteq> []" "CHR ''*'' \<notin> set s"
  shows "\<not> sublist s (mask_text t secrets)"
  using assms by (rule mask_text_hides)

theorem masked_text_hides_secrets_witness:
  "\<not> sublist ''hunter2'' (mask_text ''login alice hunter2'' [''x'', ''hunter2''])"
  by (rule masked_text_hides_secrets) simp_all

text \<open>
  Redacting a document acts on its leaves alone, keeping the keys and the order: a value
  stored directly under a secret key becomes asterisks unless it is empty, a string elsewhere
  loses the names in its secret references, and every other value is unchanged.
\<close>

theorem redacted_document_leaves:
  "leaves (redact_value d None) None = map (\<lambda>(k, v). (k, redact_value v k)) (leaves d None)
   \<and> (\<forall>(k, v) \<in> set (leaves d None). redact_value v k =
        (if under_secret_key k \<and> v \<notin> {JNull, JStr [], JBool False, JInt 0} then JStr stars
         else case v of JStr s \<Rightarrow> JStr (mask_refs s) | _ \<Rightarrow> v))"
proof -
  have "redact_value v k = (if under_secret_key k \<and> v \<notin> {JNull, JStr [], JBool False, JInt 0} then JStr stars
         else case v of JStr s \<Rightarrow> JStr (mask_refs s) | _ \<Rightarrow> v)" if "(k, v) \<in> set (leaves d None)" for k v
    using leaf_of_leaves [OF that] by (cases v) (auto simp: under_secret_key_def)
  then show ?thesis using leaves_redact by auto
qed

theorem redacted_document_leaves_witness:
  "(Some ''admin_password'', JStr ''***'') \<in> set (leaves (redact_value
     (JDict [(''web'', JDict [(''admin_password'', JStr ''pw''), (''port'', JInt 8443)])]) None) None)"
proof -
  let ?d = "JDict [(''web'', JDict [(''admin_password'', JStr ''pw''), (''port'', JInt 8443)])]"
  have "(Some ''admin_password'', JStr ''pw'') \<in> set (leaves ?d None)" by simp
  moreover from this have "redact_value (JStr ''pw'') (Some ''admin_password'') = JStr ''***''"
    using conjunct2 [OF redacted_document_leaves [of ?d]]
    by (auto simp: under_secret_key_def stars_def is_secret_key_def) code_simp+
  ultimately show ?thesis using conjunct1 [OF redacted_document_leaves [of ?d]] by force
qed

section \<open>Commands\<close>



text \<open>
  A checked run that returns exited with status zero; a run that is not checked always
  returns a result; and a dry run starts nothing and changes nothing.
\<close>

theorem run_command_outcomes:
  assumes "argv \<noteq> []" "[] \<notin> set argv"
  shows "(\<forall>r w'. o_check opts \<longrightarrow> run_command env own argv opts w = (Inr r, w') \<longrightarrow> r_code r = 0)
    \<and> (\<not> o_check opts \<longrightarrow> (\<exists>r w'. run_command env own argv opts w = (Inr r, w')))
    \<and> (o_dry_run opts \<longrightarrow> snd (run_command env own argv opts w) = w)"
  using run_checked_ok [of env own argv opts w] run_unchecked_returns [OF assms] run_command_dry
  by (auto simp: ok_def)

theorem run_command_outcomes_witness:
  "\<exists>r w'. run_command sample_env [] [''true''] no_check sample_world = (Inr r, w')"
  using run_command_outcomes [of "[''true'']" no_check] by (simp add: no_check_def)

text \<open>
  A command run with a grace period is killed only after it was asked to terminate and
  outlived the grace period: the run appends the start of the child, then on a timeout
  SIGTERM, then SIGKILL only when the child had not left in time, and nothing else.
\<close>

theorem graceful_run_events:
  "new_events w (snd (run_graceful env argv opts secrets masked w)) =
     Ran argv (o_input opts) # (case e_run env w argv (o_input opts) of
        Timed_out gone _ _ \<Rightarrow> Stopped_child argv ''SIGTERM'' # (if gone then [] else [Stopped_child argv ''SIGKILL''])
      | _ \<Rightarrow> [])"
  by (rule graceful_events)

end
