(* ===== verification/Config_Properties.thy ===== *)
theory Config_Properties
  imports Samples
begin

text \<open>
  The properties of the configuration: what a validated configuration guarantees to the
  services, which upstream profile is the active one, and which DNS servers clients are given.
\<close>

lemma sample_app_accepted: "check_app (\<lambda>_. False) sample_app = Inr (default_paths sample_app)"
  by code_simp

lemma sample_app_valid: "valid_app (default_paths sample_app)"
  using sample_app_accepted by (rule check_app_valid)

text \<open>
  C5. In an accepted configuration the upstream profiles have distinct names, devices, set-name
  forms and routing offsets, so each has a routing table of its own that is neither the default
  target's nor, while upstream is on, one the kernel reserves; the mark is a nonzero number,
  and an upstream that is on has a profile.
\<close>

theorem accepted_config_keeps_profiles_apart:
  assumes "check_app ex c = Inr c'"
  shows "distinct (map p_name (profiles (app_upstream c')))
    \<and> distinct (map (profile_interface (app_upstream c')) (profiles (app_upstream c')))
    \<and> distinct (map (\<lambda>p. profile_safe_name (p_name p)) (profiles (app_upstream c')))
    \<and> distinct (table_id (app_routing c') # map (derived_table_id c') (profiles (app_upstream c')))
    \<and> (up_enabled (app_upstream c') \<longrightarrow> profiles (app_upstream c') \<noteq> [] \<and>
        set (table_id (app_routing c') # map (derived_table_id c') (profiles (app_upstream c')))
          \<inter> {253, 254, 255} = {})
    \<and> (\<exists>n. py_int0 (fwmark (app_routing c')) = Some n \<and> n \<noteq> 0)"
proof -
  let ?u = "app_upstream c'"
  have v: "valid_app c'" using assms by (rule check_app_valid)
  then have u: "valid_upstream ?u" by (simp add: valid_app_def)
  have "inj (\<lambda>x. table_id (app_routing c') + x)" by (simp add: inj_def)
  then have "distinct (map (derived_table_id c') (profiles ?u))"
    using u by (simp add: derived_table_id_def valid_upstream_def distinct_map inj_on_def)
  moreover have "table_id (app_routing c') \<noteq> derived_table_id c' p" if "p \<in> set (profiles ?u)" for p
    using u that by (auto simp: derived_table_id_def valid_upstream_def)
  ultimately have "distinct (table_id (app_routing c') # map (derived_table_id c') (profiles ?u))" by auto
  then show ?thesis
    using v u by (auto simp: valid_app_def valid_upstream_def reserved_routing_table_ids_def comp_def)
qed

theorem accepted_config_keeps_profiles_apart_witness:
  "distinct [table_id (app_routing sample_app), derived_table_id sample_app sample_first,
     derived_table_id sample_app sample_second]"
  using accepted_config_keeps_profiles_apart [OF sample_app_accepted]
  by (simp add: sample_app_def)

text \<open>
  The selected profile: with an active profile configured it is that profile when it is
  enabled and none otherwise; without one it is the first enabled profile. A disabled profile
  is never selected.
\<close>

theorem selected_profile_rule:
  assumes "valid_upstream u"
  shows "selected_profile u =
      (case active_profile u of
         None \<Rightarrow> find p_enabled (profiles u)
       | Some [] \<Rightarrow> find p_enabled (profiles u)
       | Some n \<Rightarrow> find (\<lambda>p. p_name p = n \<and> p_enabled p) (profiles u))
    \<and> (\<forall>p. selected_profile u = Some p \<longrightarrow> p_enabled p \<and> p \<in> set (profiles u))"
proof -
  have dn: "distinct (map p_name ps) \<Longrightarrow> n \<in> p_name ` set ps \<Longrightarrow>
      (case find (\<lambda>p. p_name p = n) ps of Some p \<Rightarrow> if p_enabled p then Some p else None | None \<Rightarrow> x)
      = find (\<lambda>p. p_name p = n \<and> p_enabled p) ps" for n ps x
    by (induction ps) (auto simp: find_None_iff find_None_iff2 image_iff eq_commute)
  have d: "distinct (map p_name (profiles u))"
    and a: "is_set (active_profile u) \<Longrightarrow> the (active_profile u) \<in> p_name ` set (profiles u)"
    using assms by (auto simp: valid_upstream_def)
  have "selected_profile u = (case active_profile u of
         None \<Rightarrow> find p_enabled (profiles u)
       | Some [] \<Rightarrow> find p_enabled (profiles u)
       | Some n \<Rightarrow> find (\<lambda>p. p_name p = n \<and> p_enabled p) (profiles u))"
    using a dn [OF d] by (auto simp: selected_profile_def first_enabled_def is_set_def split: option.split list.split)
  then show ?thesis using selected_profile_enabled by blast
qed

theorem selected_profile_rule_witness:
  "selected_profile ((app_upstream sample_app)\<lparr>active_profile := Some ''My-VPN''\<rparr>) = Some sample_second"
proof -
  let ?u = "(app_upstream sample_app)\<lparr>active_profile := Some ''My-VPN''\<rparr>"
  have "check_upstream ?u = Inr ?u" by code_simp
  then have "valid_upstream ?u" by (rule check_upstream_valid)
  from selected_profile_rule [OF this] show ?thesis
    by (simp add: samples default_upstream_def default_profile_def)
qed

text \<open>
  The DNS server clients are given works for them: when an accepted configuration has any
  reason for them to use the internal one, they are given exactly its address, and that
  address lies in the clients' own network; otherwise they get the configured servers.
\<close>

theorem client_dns_is_reachable:
  assumes "check_app ex c = Inr c'"
  shows "if client_dns_reasons ex c' = [] then client_dns_servers ex c' = srv_dns (app_server c')
    else client_dns_servers ex c' = [dns_listen (app_internal_dns c')]
      \<and> (\<exists>a n. ip_address (dns_listen (app_internal_dns c')) = Some a
           \<and> ip_network False (ipv4_network (app_server c')) = Inr n \<and> in_net a n)"
proof (cases "client_dns_reasons ex c' = []")
  case True
  then show ?thesis by (simp add: client_dns_servers_def)
next
  case False
  then have "dns_tunnel_active ex c'" by (auto simp: client_dns_reasons_def dns_tunnel_active_def)
  with check_app_dns [OF assms] have "\<exists>a n. ip_address (dns_listen (app_internal_dns c')) = Some a
      \<and> ip_network False (ipv4_network (app_server c')) = Inr n \<and> in_net a n" .
  with False show ?thesis by (simp add: client_dns_servers_def)
qed

theorem client_dns_is_reachable_witness:
  "client_dns_servers (\<lambda>_. False) (default_paths
     (sample_app\<lparr>app_internal_dns := default_internal_dns\<lparr>resolver_enabled := True\<rparr>\<rparr>)) = [''10.10.10.1'']"
proof -
  let ?c = "sample_app\<lparr>app_internal_dns := default_internal_dns\<lparr>resolver_enabled := True\<rparr>\<rparr>"
  have "check_app (\<lambda>_. False) ?c = Inr (default_paths ?c)" by code_simp
  moreover have "client_dns_reasons (\<lambda>_. False) (default_paths ?c) \<noteq> []" by code_simp
  ultimately have "client_dns_servers (\<lambda>_. False) (default_paths ?c) = [dns_listen (app_internal_dns (default_paths ?c))]"
    using client_dns_is_reachable by (metis (no_types, lifting))
  then show ?thesis by (simp add: default_internal_dns_def)
qed

end
