(* ===== verification/Pushed_Routing.thy ===== *)
theory Pushed_Routing
  imports Config_App Json_Text Files
begin

text \<open>
  \<open>services/upstream_pushed.py\<close>: the routes and split-DNS domains an upstream server pushes,
  parsed from the vpnc-script environment or from the sync endpoint, stored per profile as a
  JSON file, and fingerprinted to detect changes. A stored document whose known fields do not
  have the types \<open>save\<close> writes is outside the model and reads as no pushed data.
\<close>

record pushed_routing =
  pr_routes :: "string list"
  pr_domains :: "string list"
  pr_dns :: "string list"
  pr_source :: string
  pr_version :: string
  pr_interface :: string
  pr_updated_at :: int
  pr_synced_at :: int
  pr_sync_error :: string

definition no_pushed :: pushed_routing where
  "no_pushed = \<lparr>pr_routes = [], pr_domains = [], pr_dns = [], pr_source = [], pr_version = [],
     pr_interface = [], pr_updated_at = 0, pr_synced_at = 0, pr_sync_error = []\<rparr>"

definition pushed_is_empty :: "pushed_routing \<Rightarrow> bool" where
  "pushed_is_empty p = (\<not> (pr_routes p \<noteq> [] \<or> pr_domains p \<noteq> []))"

text \<open>\<open>str(ip_network(server))\<close>, strict, skipping what does not parse.\<close>

definition dns_host_routes :: "pushed_routing \<Rightarrow> string list" where
  "dns_host_routes p = concat (map (\<lambda>s. case ip_network True s of Inl _ \<Rightarrow> [] | Inr n \<Rightarrow> [show_net n]) (pr_dns p))"

section \<open>Parsing\<close>

definition parse_count :: "string \<Rightarrow> nat" where
  "parse_count v = (let t = strip v in
     case py_int (if t = [] then ''0'' else t) of None \<Rightarrow> 0 | Some n \<Rightarrow> nat (max 0 n))"

definition append_unique :: "string list \<Rightarrow> string option \<Rightarrow> string list" where
  "append_unique xs v = (case v of None \<Rightarrow> xs
     | Some s \<Rightarrow> if s \<noteq> [] \<and> s \<notin> set xs then xs @ [s] else xs)"

definition pushed_normalize_route :: "string \<Rightarrow> string option" where
  "pushed_normalize_route v = (case ip_network False (strip v) of Inl _ \<Rightarrow> None | Inr n \<Rightarrow> Some (show_net n))"

definition pushed_normalize_domain :: "string \<Rightarrow> string option" where
  "pushed_normalize_domain v = (let candidate = rstrip_char CHR ''.'' (lower (strip v)) in
     if candidate \<noteq> [] \<and> domain_re candidate then Some candidate else None)"

definition pushed_normalize_ip :: "string \<Rightarrow> string option" where
  "pushed_normalize_ip v = (case ip_address (strip v) of None \<Rightarrow> None | Some a \<Rightarrow> Some (show_ip a))"

type_synonym environ = "string \<Rightarrow> string option"

definition environ_get :: "environ \<Rightarrow> string \<Rightarrow> string" where
  "environ_get e k = (case e k of None \<Rightarrow> [] | Some v \<Rightarrow> v)"

definition split_include :: "environ \<Rightarrow> string \<Rightarrow> string list \<Rightarrow> nat \<Rightarrow> string list" where
  "split_include e pfx routes i =
     (let addr = strip (environ_get e (pfx @ ''_'' @ show_nat i @ ''_ADDR''));
          masklen = strip (environ_get e (pfx @ ''_'' @ show_nat i @ ''_MASKLEN''))
      in if addr = [] \<or> masklen = [] then routes
         else append_unique routes (pushed_normalize_route (addr @ ''/'' @ masklen)))"

definition vpnc_routes :: "environ \<Rightarrow> string list" where
  "vpnc_routes e = foldl (\<lambda>routes pfx. foldl (split_include e pfx) routes [0..<parse_count (environ_get e pfx)])
     [] [''CISCO_SPLIT_INC'', ''CISCO_IPV6_SPLIT_INC'']"

definition vpnc_domains :: "environ \<Rightarrow> string list" where
  "vpnc_domains e = foldl (\<lambda>ds item. append_unique ds (pushed_normalize_domain item)) []
     (split_on CHR '','' (environ_get e ''CISCO_SPLIT_DNS''))"

definition vpnc_dns :: "environ \<Rightarrow> string list" where
  "vpnc_dns e = foldl (\<lambda>dns key. foldl (\<lambda>dns item. append_unique dns (pushed_normalize_ip item)) dns
       (split_ws (environ_get e key)))
     [] [''INTERNAL_IP4_DNS'', ''INTERNAL_IP6_DNS'']"

definition parse_vpnc_environment :: "environ \<Rightarrow> nat \<Rightarrow> pushed_routing" where
  "parse_vpnc_environment e now = no_pushed\<lparr>pr_routes := vpnc_routes e, pr_domains := vpnc_domains e,
     pr_dns := vpnc_dns e, pr_source := ''handshake'', pr_interface := environ_get e ''TUNDEV'',
     pr_updated_at := int now\<rparr>"

text \<open>\<open>str(version)\<close>; \<open>py_repr\<close> stands for Python's printing of lists and dictionaries.\<close>

fun version_text :: "(json \<Rightarrow> string) \<Rightarrow> json \<Rightarrow> string" where
  "version_text py_repr (JStr s) = s"
| "version_text py_repr (JInt i) = show_int i"
| "version_text py_repr (JBool b) = (if b then ''True'' else ''False'')"
| "version_text py_repr v = py_repr v"

definition payload_strings :: "json \<Rightarrow> string \<Rightarrow> string list" where
  "payload_strings payload key = (case json_get payload key of Some (JList xs) \<Rightarrow> strings_in xs | _ \<Rightarrow> [])"

definition parse_sync_payload :: "(json \<Rightarrow> string) \<Rightarrow> json \<Rightarrow> (string list \<times> string list \<times> string) result" where
  "parse_sync_payload py_repr payload =
     (if \<not> is_dict payload then Inl ValueError
      else Inr
        (foldl (\<lambda>rs item. append_unique rs (pushed_normalize_route item)) [] (payload_strings payload ''routes''),
         foldl (\<lambda>ds item. append_unique ds (pushed_normalize_domain item)) [] (payload_strings payload ''split_dns''),
         (case json_get payload ''version'' of None \<Rightarrow> []
          | Some v \<Rightarrow> if truthy v then version_text py_repr v else [])))"

section \<open>The store\<close>

definition pushed_dir :: "app_config \<Rightarrow> string" where
  "pushed_dir c = path_join (generated_dir (app_system c)) ''upstream-pushed''"

definition pushed_path :: "app_config \<Rightarrow> upstream_profile \<Rightarrow> string" where
  "pushed_path c p = path_join (pushed_dir c) (profile_safe_name (p_name p) @ ''.json'')"

definition pushed_document :: "pushed_routing \<Rightarrow> json" where
  "pushed_document p = JDict (sort_keys
     [(''routes'', JList (map JStr (pr_routes p))), (''domains'', JList (map JStr (pr_domains p))),
      (''dns'', JList (map JStr (pr_dns p))), (''source'', JStr (pr_source p)),
      (''version'', JStr (pr_version p)), (''interface'', JStr (pr_interface p)),
      (''updated_at'', JInt (pr_updated_at p)), (''synced_at'', JInt (pr_synced_at p)),
      (''sync_error'', JStr (pr_sync_error p))])"

definition str_field :: "json \<Rightarrow> string \<Rightarrow> string option" where
  "str_field j k = (case json_get j k of None \<Rightarrow> Some [] | Some (JStr s) \<Rightarrow> Some s | _ \<Rightarrow> None)"

definition int_field :: "json \<Rightarrow> string \<Rightarrow> int option" where
  "int_field j k = (case json_get j k of None \<Rightarrow> Some 0 | Some (JInt i) \<Rightarrow> Some i | _ \<Rightarrow> None)"

definition list_field :: "json \<Rightarrow> string \<Rightarrow> string list option" where
  "list_field j k = (case json_get j k of None \<Rightarrow> Some []
     | Some (JList xs) \<Rightarrow> if list_all is_str xs then Some (strings_in xs) else None | _ \<Rightarrow> None)"

definition pushed_of_json :: "json \<Rightarrow> pushed_routing" where
  "pushed_of_json j =
     (case (list_field j ''routes'', list_field j ''domains'', list_field j ''dns'',
            str_field j ''source'', str_field j ''version'', str_field j ''interface'',
            int_field j ''updated_at'', int_field j ''synced_at'', str_field j ''sync_error'') of
        (Some rs, Some ds, Some ns, Some src, Some v, Some ifc, Some u, Some sy, Some er) \<Rightarrow>
          \<lparr>pr_routes = rs, pr_domains = ds, pr_dns = ns, pr_source = src, pr_version = v,
           pr_interface = ifc, pr_updated_at = u, pr_synced_at = sy, pr_sync_error = er\<rparr>
      | _ \<Rightarrow> no_pushed)"

definition pushed_of_file :: "string option \<Rightarrow> pushed_routing" where
  "pushed_of_file c = (case c of None \<Rightarrow> no_pushed
     | Some t \<Rightarrow> (case json_loads (read_text t) of None \<Rightarrow> no_pushed
         | Some j \<Rightarrow> if is_dict j then pushed_of_json j else no_pushed))"

definition load_pushed :: "app_config \<Rightarrow> upstream_profile \<Rightarrow> world \<Rightarrow> pushed_routing" where
  "load_pushed c p w = pushed_of_file (files w (pushed_path c p))"

definition save_pushed :: "app_config \<Rightarrow> upstream_profile \<Rightarrow> pushed_routing \<Rightarrow> (world, unit) action" where
  "save_pushed c p r = atomic_write_text (pushed_path c p) (json_dumps_indent (pushed_document r) @ [LF]) 420"

definition save_handshake :: "app_config \<Rightarrow> upstream_profile \<Rightarrow> pushed_routing \<Rightarrow> (world, unit) action" where
  "save_handshake c p r = andthen current (\<lambda>w.
     save_pushed c p (r\<lparr>pr_synced_at := pr_synced_at (load_pushed c p w)\<rparr>))"

definition effective_pushed :: "app_config \<Rightarrow> upstream_profile \<Rightarrow> world \<Rightarrow> pushed_routing" where
  "effective_pushed c p w =
     (if \<not> (accept_server_routes p \<and> route_host_enabled p) then no_pushed else load_pushed c p w)"

definition fingerprint_part :: "app_config \<Rightarrow> world \<Rightarrow> upstream_profile \<Rightarrow> json list" where
  "fingerprint_part c w p = (let r = effective_pushed c p w in
     if pushed_is_empty r then []
     else [JList [JStr (p_name p), JList (map JStr (pr_routes r)), JList (map JStr (pr_domains r)),
                  JList (map JStr (pr_dns r))]])"

definition pushed_fingerprint :: "env \<Rightarrow> app_config \<Rightarrow> world \<Rightarrow> string" where
  "pushed_fingerprint env c w =
     (let parts = concat (map (fingerprint_part c w) (profiles (app_upstream c))) in
      if parts = [] then [] else take 16 (e_sha env (json_dumps (JList parts))))"

definition applied_path :: "app_config \<Rightarrow> string" where
  "applied_path c = path_join (generated_dir (app_system c)) ''.upstream-pushed.applied''"

definition applied_fingerprint :: "app_config \<Rightarrow> world \<Rightarrow> string" where
  "applied_fingerprint c w = (case files w (applied_path c) of None \<Rightarrow> [] | Some t \<Rightarrow> strip (read_text t))"

definition mark_applied :: "app_config \<Rightarrow> string \<Rightarrow> (world, unit) action" where
  "mark_applied c fp = atomic_write_text (applied_path c) (fp @ [LF]) 420"

section \<open>Lemmas\<close>

lemma append_unique_simps [simp]:
  "append_unique xs None = xs"
  "append_unique xs (Some s) = (if s \<noteq> [] \<and> s \<notin> set xs then xs @ [s] else xs)"
  by (simp_all add: append_unique_def)

definition collected :: "(string \<Rightarrow> string option) \<Rightarrow> string list \<Rightarrow> string list" where
  "collected f items = concat (map (\<lambda>i. case f i of None \<Rightarrow> [] | Some s \<Rightarrow> if s = [] then [] else [s]) items)"

text \<open>The append-if-new loop is the duplicate-free list of the entries that normalise.\<close>

lemma foldl_append_unique:
  "foldl (\<lambda>xs i. append_unique xs (f i)) out items = out @ uniq out (collected f items)"
proof (induction items arbitrary: out)
  case (Cons i items)
  then show ?case by (cases "f i") (auto simp: collected_def)
qed (simp add: collected_def)

lemma parse_sync_payload_eq:
  "parse_sync_payload py_repr (JDict kvs) = Inr
     (uniq [] (collected pushed_normalize_route (payload_strings (JDict kvs) ''routes'')),
      uniq [] (collected pushed_normalize_domain (payload_strings (JDict kvs) ''split_dns'')),
      (case map_of kvs ''version'' of None \<Rightarrow> []
       | Some v \<Rightarrow> if truthy v then version_text py_repr v else []))"
  by (simp add: parse_sync_payload_def foldl_append_unique json_get_def)

lemma pushed_route_canonical:
  "pushed_normalize_route v = Some r \<Longrightarrow> \<exists>n. wf_net n \<and> r = show_net n \<and> ip_network False r = Inr n"
  using ip_network_wf ip_network_show
  by (fastforce simp: pushed_normalize_route_def split: sum.splits)

lemma collected_mem: "x \<in> set (collected f items) \<Longrightarrow> \<exists>i \<in> set items. f i = Some x"
  by (auto simp: collected_def split: option.splits if_splits)

lemma pushed_document_fields:
  "json_get (pushed_document p) ''routes'' = Some (JList (map JStr (pr_routes p)))"
  "json_get (pushed_document p) ''domains'' = Some (JList (map JStr (pr_domains p)))"
  "json_get (pushed_document p) ''dns'' = Some (JList (map JStr (pr_dns p)))"
  "json_get (pushed_document p) ''source'' = Some (JStr (pr_source p))"
  "json_get (pushed_document p) ''version'' = Some (JStr (pr_version p))"
  "json_get (pushed_document p) ''interface'' = Some (JStr (pr_interface p))"
  "json_get (pushed_document p) ''updated_at'' = Some (JInt (pr_updated_at p))"
  "json_get (pushed_document p) ''synced_at'' = Some (JInt (pr_synced_at p))"
  "json_get (pushed_document p) ''sync_error'' = Some (JStr (pr_sync_error p))"
  by (simp_all add: pushed_document_def json_get_def sort_keys_def code_def)

lemma list_all_is_str [simp]: "list_all is_str (map JStr xs)"
  by (simp add: list_all_iff)

lemma pushed_of_document: "pushed_of_json (pushed_document p) = p"
  by (simp add: pushed_of_json_def list_field_def str_field_def int_field_def pushed_document_fields)

lemma wf_pushed_document: "wf_json (pushed_document p)" "is_dict (pushed_document p)"
  by (auto simp: pushed_document_def sort_keys_def code_def)

lemma load_save_pushed:
  "save_pushed c p r w = (Inr (), w') \<Longrightarrow> load_pushed c p w' = r"
proof -
  assume "save_pushed c p r w = (Inr (), w')"
  then have "files w' (pushed_path c p) = Some (json_dumps_indent (pushed_document r) @ [LF])"
    by (auto simp: save_pushed_def atomic_write_text_def)
  moreover have "CR \<notin> set (json_dumps_indent (pushed_document r) @ [LF])"
    by (simp add: json_dumps_indent_no_CR)
  moreover have "json_loads (json_dumps_indent (pushed_document r) @ [LF]) = Some (pushed_document r)"
    unfolding json_dumps_indent_def
    by (rule loads_dumps [OF ok_indented]) (simp_all add: wf_pushed_document ws_text_def json_ws_def)
  ultimately show ?thesis
    by (simp add: load_pushed_def pushed_of_file_def read_text_def wf_pushed_document pushed_of_document
        del: set_append)
qed

lemma save_handshake_keeps_pacing:
  "save_handshake c p r w = (Inr (), w') \<Longrightarrow>
   load_pushed c p w' = r\<lparr>pr_synced_at := pr_synced_at (load_pushed c p w)\<rparr>"
  unfolding save_handshake_def andthen_def current_def by (auto dest: load_save_pushed)

lemma effective_pushed_off:
  "\<not> (accept_server_routes p \<and> route_host_enabled p) \<Longrightarrow> effective_pushed c p w = no_pushed"
  by (simp add: effective_pushed_def)

lemma fingerprint_empty:
  "\<forall>p \<in> set (profiles (app_upstream c)). pushed_is_empty (effective_pushed c p w) \<Longrightarrow>
   pushed_fingerprint env c w = []"
  by (simp add: pushed_fingerprint_def fingerprint_part_def Let_def)

lemma applied_roundtrip:
  assumes "mark_applied c fp w = (Inr (), w')" "\<forall>x \<in> set fp. \<not> is_space x"
  shows "applied_fingerprint c w' = fp"
proof -
  have "CR \<notin> set (fp @ [LF])" using assms(2) by auto
  moreover have "strip (fp @ [LF]) = fp"
  proof (cases fp)
    case Nil
    then show ?thesis by (simp add: strip_def strip_if_def lstrip_if_def)
  next
    case (Cons a as)
    then have "lstrip_if is_space (fp @ [LF]) = fp @ [LF]" using assms(2) by (simp add: lstrip_if_def)
    moreover have "rstrip_if is_space fp = fp"
      using assms(2) Cons by (intro rstrip_if_idle) auto
    ultimately show ?thesis by (simp add: strip_def strip_if_def)
  qed
  ultimately show ?thesis
    using assms(1) by (auto simp: mark_applied_def atomic_write_text_def applied_fingerprint_def read_text_def)
qed

end
