(* ===== verification/Routing.thy ===== *)
theory Routing
  imports List_Cache Pushed_Routing
begin

text \<open>
  \<open>services/routing.py\<close>: the routing lists (inline, editable files, static files, cached
  URLs), their editing operations, and \<open>list_targets\<close>, which decides the mark, table, tunnel
  device and nft sets of the default target and of every profile with its own lists. The file
  lock of the editing operations makes each one a single step here.
\<close>

section \<open>Normalisers\<close>

definition routing_domain_re :: "string \<Rightarrow> bool" where
  "routing_domain_re s = (let t = re_dollar s in
     t \<noteq> [] \<and> list_all (\<lambda>c. is_alnum c \<or> c \<in> {CHR ''.'', CHR ''-''}) t)"

definition normalize_route :: "string \<Rightarrow> string result" where
  "normalize_route value =
     (if CHR ''/'' \<in> set value
      then (case ip_network False value of Inl _ \<Rightarrow> Inl ValueError | Inr n \<Rightarrow> Inr (show_net n))
      else (case ip_address value of None \<Rightarrow> Inl ValueError | Some a \<Rightarrow> Inr (show_ip a)))"

definition normalize_domain :: "string \<Rightarrow> string result" where
  "normalize_domain value = (let domain = rstrip_char CHR ''.'' (lower (strip value)) in
     if domain = [] \<or> \<not> routing_domain_re domain then Inl ValueError else Inr domain)"

definition split_by_family :: "string list \<Rightarrow> string list \<times> string list" where
  "split_by_family routes = foldl (\<lambda>(v4, v6) r. case ip_network False r of
      Inl _ \<Rightarrow> (v4, v6)
    | Inr n \<Rightarrow> if net_version n = 4 then (v4 @ [r], v6) else (v4, v6 @ [r])) ([], []) routes"

section \<open>The lists\<close>

definition merge_unique :: "string list list \<Rightarrow> string list" where
  "merge_unique sources = unique_lines_loop (concat sources) [] []"

definition routing_cache_dir :: "app_config \<Rightarrow> string \<Rightarrow> string" where
  "routing_cache_dir c name = path_join (path_join (data_dir (app_system c)) ''routing'') name"

definition file_items :: "(string \<Rightarrow> string result) \<Rightarrow> world \<Rightarrow> string \<Rightarrow> string list result" where
  "file_items nrm w path = items_in_file nrm (files w path)"

definition all_file_items :: "(string \<Rightarrow> string result) \<Rightarrow> world \<Rightarrow> string list \<Rightarrow> string list result" where
  "all_file_items nrm w paths = res_bind (res_map (file_items nrm w) paths) (\<lambda>xss. Inr (concat xss))"

definition all_url_cache_items :: "env \<Rightarrow> string \<Rightarrow> (string \<Rightarrow> string result) \<Rightarrow> world \<Rightarrow> string list
    \<Rightarrow> string list result" where
  "all_url_cache_items env dir nrm w urls =
     res_bind (res_map (\<lambda>u. items_in_file nrm (files w (cache_path env dir u))) urls) (\<lambda>xss. Inr (concat xss))"

definition list_of_routes :: "env \<Rightarrow> 'a split_config_scheme \<Rightarrow> string \<Rightarrow> world \<Rightarrow> string list result" where
  "list_of_routes env sp dir w =
     res_bind (all_file_items normalize_route w (routes_files sp)) (\<lambda>fs.
     res_bind (all_url_cache_items env dir normalize_route w (routes_urls sp)) (\<lambda>us.
     Inr (merge_unique [s_routes sp, read_lines_of (files w (routes_file sp)), fs, us])))"

definition list_of_domains :: "env \<Rightarrow> 'a split_config_scheme \<Rightarrow> string \<Rightarrow> world \<Rightarrow> string list result" where
  "list_of_domains env sp dir w =
     res_bind (all_file_items normalize_domain w (domains_files sp)) (\<lambda>fs.
     res_bind (all_url_cache_items env dir normalize_domain w (domains_urls sp)) (\<lambda>us.
     Inr (merge_unique [s_domains sp, read_lines_of (files w (domains_file sp)), fs, us])))"

definition list_routes :: "env \<Rightarrow> app_config \<Rightarrow> world \<Rightarrow> string list result" where
  "list_routes env c w = list_of_routes env (rt_split (app_routing c)) (routing_cache_dir c ''route-urls'') w"

definition list_domains :: "env \<Rightarrow> app_config \<Rightarrow> world \<Rightarrow> string list result" where
  "list_domains env c w = list_of_domains env (rt_split (app_routing c)) (routing_cache_dir c ''domain-urls'') w"

definition list_host_routes :: "env \<Rightarrow> app_config \<Rightarrow> world \<Rightarrow> string list result" where
  "list_host_routes env c w =
     list_of_routes env (host_split (app_routing c)) (routing_cache_dir c ''host-route-urls'') w"

definition list_host_domains :: "env \<Rightarrow> app_config \<Rightarrow> world \<Rightarrow> string list result" where
  "list_host_domains env c w =
     list_of_domains env (host_split (app_routing c)) (routing_cache_dir c ''host-domain-urls'') w"

record file_status =
  fs_path :: string
  fs_exists :: bool
  fs_count :: nat

definition files_status :: "(string \<Rightarrow> string result) \<Rightarrow> world \<Rightarrow> string list \<Rightarrow> file_status list result" where
  "files_status nrm w paths = res_map (\<lambda>p. res_bind (file_items nrm w p) (\<lambda>xs.
     Inr \<lparr>fs_path = p, fs_exists = files w p \<noteq> None, fs_count = length xs\<rparr>)) paths"

record url_status =
  us_url :: string
  us_count :: nat
  us_meta :: "json option"

definition urls_status :: "env \<Rightarrow> string \<Rightarrow> (string \<Rightarrow> string result) \<Rightarrow> world \<Rightarrow> string list
    \<Rightarrow> url_status list result" where
  "urls_status env dir nrm w urls = res_map (\<lambda>u.
     res_bind (items_in_file nrm (files w (cache_path env dir u))) (\<lambda>xs.
     Inr \<lparr>us_url = u, us_count = length xs, us_meta = list_meta env dir u w\<rparr>)) urls"

definition refresh_listed_url :: "env \<Rightarrow> string list \<Rightarrow> string \<Rightarrow> (string \<Rightarrow> string result) \<Rightarrow> string \<Rightarrow> bool
    \<Rightarrow> (world, list_fetch) action" where
  "refresh_listed_url env urls dir nrm url preview =
     (if url \<notin> set urls then throw ValueError else refresh env dir nrm url preview)"

definition refresh_route_url :: "env \<Rightarrow> app_config \<Rightarrow> string \<Rightarrow> bool \<Rightarrow> (world, list_fetch) action" where
  "refresh_route_url env c url preview = refresh_listed_url env (routes_urls (rt_split (app_routing c)))
     (routing_cache_dir c ''route-urls'') normalize_route url preview"

definition refresh_host_route_url :: "env \<Rightarrow> app_config \<Rightarrow> string \<Rightarrow> bool \<Rightarrow> (world, list_fetch) action" where
  "refresh_host_route_url env c url preview = refresh_listed_url env (routes_urls (host_split (app_routing c)))
     (routing_cache_dir c ''host-route-urls'') normalize_route url preview"

definition refresh_domain_url :: "env \<Rightarrow> app_config \<Rightarrow> string \<Rightarrow> bool \<Rightarrow> (world, list_fetch) action" where
  "refresh_domain_url env c url preview = refresh_listed_url env (domains_urls (rt_split (app_routing c)))
     (routing_cache_dir c ''domain-urls'') normalize_domain url preview"

definition refresh_host_domain_url :: "env \<Rightarrow> app_config \<Rightarrow> string \<Rightarrow> bool \<Rightarrow> (world, list_fetch) action" where
  "refresh_host_domain_url env c url preview = refresh_listed_url env (domains_urls (host_split (app_routing c)))
     (routing_cache_dir c ''host-domain-urls'') normalize_domain url preview"

section \<open>Editing the lists\<close>

definition add_line :: "string \<Rightarrow> string \<Rightarrow> (world, unit) action" where
  "add_line path item = andthen (read_lines path) (\<lambda>lines.
     if item \<notin> set (map strip lines) then write_unique_lines path (lines @ [item]) 420 else ret ())"

definition delete_line :: "string \<Rightarrow> string \<Rightarrow> (world, unit) action" where
  "delete_line path item = andthen (read_lines path) (\<lambda>lines.
     write_unique_lines path (filter (\<lambda>l. strip l \<noteq> item) lines) 420)"

definition add_route :: "app_config \<Rightarrow> string \<Rightarrow> (world, unit) action" where
  "add_route c v = andthen (lift_result (normalize_route v)) (add_line (routes_file (rt_split (app_routing c))))"

definition delete_route :: "app_config \<Rightarrow> string \<Rightarrow> (world, unit) action" where
  "delete_route c v = andthen (lift_result (normalize_route v)) (delete_line (routes_file (rt_split (app_routing c))))"

definition add_domain :: "app_config \<Rightarrow> string \<Rightarrow> (world, unit) action" where
  "add_domain c v = andthen (lift_result (normalize_domain v)) (add_line (domains_file (rt_split (app_routing c))))"

definition delete_domain :: "app_config \<Rightarrow> string \<Rightarrow> (world, unit) action" where
  "delete_domain c v = andthen (lift_result (normalize_domain v)) (delete_line (domains_file (rt_split (app_routing c))))"

definition set_list :: "(string \<Rightarrow> string result) \<Rightarrow> string \<Rightarrow> string list \<Rightarrow> (world, unit) action" where
  "set_list nrm path items = andthen (lift_result (res_map nrm items)) (\<lambda>xs. write_unique_lines path xs 420)"

definition set_routes :: "app_config \<Rightarrow> string list \<Rightarrow> (world, unit) action" where
  "set_routes c items = set_list normalize_route (routes_file (rt_split (app_routing c))) items"

definition set_domains :: "app_config \<Rightarrow> string list \<Rightarrow> (world, unit) action" where
  "set_domains c items = set_list normalize_domain (domains_file (rt_split (app_routing c))) items"

definition set_host_routes :: "app_config \<Rightarrow> string list \<Rightarrow> (world, unit) action" where
  "set_host_routes c items = set_list normalize_route (routes_file (host_split (app_routing c))) items"

definition set_host_domains :: "app_config \<Rightarrow> string list \<Rightarrow> (world, unit) action" where
  "set_host_domains c items = set_list normalize_domain (domains_file (host_split (app_routing c))) items"

section \<open>Routing targets\<close>

record routing_target =
  t_name :: string
  t_fwmark :: string
  t_table_id :: int
  t_interface :: string
  set_v4_static :: string
  set_v4_dynamic :: string
  set_v6_static :: string
  set_v6_dynamic :: string
  t_mode :: split_mode
  t_routes :: "string list"
  t_domains :: "string list"
  t_killswitch :: bool
  t_profile :: "upstream_profile option"
  t_host_routes :: "string list"
  t_host_domains :: "string list"
  host_set_v4_static :: "string option"
  host_set_v4_dynamic :: "string option"
  host_set_v6_static :: "string option"
  host_set_v6_dynamic :: "string option"
  t_host_routes_v6 :: "string list"
  t_server_domains :: "string list"
  t_server_dns :: "string list"

definition host_enabled :: "routing_target \<Rightarrow> bool" where
  "host_enabled t = is_set (host_set_v4_static t)"

text \<open>\<open>f'0x{n:0{width}x}'\<close>; a negative width is an invalid format.\<close>

definition format_mark :: "int \<Rightarrow> int \<Rightarrow> string result" where
  "format_mark width n = (if width < 0 then Inl ValueError
     else Inr (''0x'' @ (if 0 \<le> n then zero_pad (nat width) (show_hex (nat n))
        else CHR ''-'' # zero_pad (nat width - 1) (show_hex (nat (- n))))))"

definition upstream_active :: "app_config \<Rightarrow> bool" where
  "upstream_active c = (up_enabled (app_upstream c) \<and> selected_profile (app_upstream c) \<noteq> None)"

definition default_target :: "app_config \<Rightarrow> string \<Rightarrow> string list \<Rightarrow> string list \<Rightarrow> routing_target" where
  "default_target c default_interface routes domains = (let rt = app_routing c in
     \<lparr>t_name = ''default'', t_fwmark = fwmark rt, t_table_id = table_id rt,
      t_interface = (if client_traffic rt then default_interface else main_interface rt),
      set_v4_static = ''split_v4_static'', set_v4_dynamic = ''split_v4_dynamic'',
      set_v6_static = ''split_v6_static'', set_v6_dynamic = ''split_v6_dynamic'',
      t_mode = rt_mode rt, t_routes = routes, t_domains = domains,
      t_killswitch = (upstream_active c \<and> client_traffic rt),
      t_profile = selected_profile (app_upstream c),
      t_host_routes = [], t_host_domains = [], host_set_v4_static = None, host_set_v4_dynamic = None,
      host_set_v6_static = None, host_set_v6_dynamic = None, t_host_routes_v6 = [],
      t_server_domains = [], t_server_dns = []\<rparr>)"

definition host_route_list :: "app_config \<Rightarrow> world \<Rightarrow> upstream_profile \<Rightarrow> string list" where
  "host_route_list c w p = (let pushed = effective_pushed c p w in
     merge_unique [p_host_routes p, pr_routes pushed,
        (if pr_domains pushed \<noteq> [] then dns_host_routes pushed else [])])"

definition host_domain_list :: "app_config \<Rightarrow> world \<Rightarrow> upstream_profile \<Rightarrow> string list" where
  "host_domain_list c w p = merge_unique [p_host_domains p, pr_domains (effective_pushed c p w)]"

definition client_active :: "upstream_profile \<Rightarrow> bool" where
  "client_active p = (route_clients_enabled p \<and> (p_routes p \<noteq> [] \<or> p_domains p \<noteq> []))"

definition host_active :: "app_config \<Rightarrow> world \<Rightarrow> upstream_profile \<Rightarrow> bool" where
  "host_active c w p = (route_host_enabled p \<and> (host_route_list c w p \<noteq> [] \<or> host_domain_list c w p \<noteq> []))"

definition set_name :: "string \<Rightarrow> string \<Rightarrow> string \<Rightarrow> string" where
  "set_name pfx safe sfx = pfx @ safe @ sfx"

definition profile_target :: "app_config \<Rightarrow> world \<Rightarrow> int \<Rightarrow> upstream_profile \<Rightarrow> routing_target option result" where
  "profile_target c w base_fwmark p =
     (let up = app_upstream c; rt = app_routing c; pushed = effective_pushed c p w; h = host_active c w p in
      if \<not> client_active p \<and> \<not> h then Inr None
      else let offset = profile_routing_offset up p; safe = profile_safe_name (p_name p);
               (v4, v6) = split_by_family (host_route_list c w p);
               hs = (\<lambda>pfx sfx. if h then Some (set_name pfx safe sfx) else None)
        in res_bind (format_mark (int (length (fwmark rt)) - 2) (base_fwmark + offset)) (\<lambda>mark.
           Inr (Some \<lparr>t_name = p_name p, t_fwmark = mark, t_table_id = table_id rt + offset,
             t_interface = profile_interface up p,
             set_v4_static = set_name ''split_v4_'' safe ''_static'',
             set_v4_dynamic = set_name ''split_v4_'' safe ''_dynamic'',
             set_v6_static = set_name ''split_v6_'' safe ''_static'',
             set_v6_dynamic = set_name ''split_v6_'' safe ''_dynamic'',
             t_mode = Split,
             t_routes = (if route_clients_enabled p then p_routes p else []),
             t_domains = (if route_clients_enabled p then p_domains p else []),
             t_killswitch = True, t_profile = Some p,
             t_host_routes = (if h then v4 else []),
             t_host_domains = (if h then host_domain_list c w p else []),
             host_set_v4_static = hs ''host_v4_'' ''_static'', host_set_v4_dynamic = hs ''host_v4_'' ''_dynamic'',
             host_set_v6_static = hs ''host_v6_'' ''_static'', host_set_v6_dynamic = hs ''host_v6_'' ''_dynamic'',
             t_host_routes_v6 = (if h then v6 else []),
             t_server_domains = (if h then pr_domains pushed else []),
             t_server_dns = (if h then pr_dns pushed else [])\<rparr>)))"

definition some_values :: "'a option list \<Rightarrow> 'a list" where
  "some_values xs = concat (map (\<lambda>x. case x of None \<Rightarrow> [] | Some y \<Rightarrow> [y]) xs)"

definition list_targets :: "env \<Rightarrow> app_config \<Rightarrow> string \<Rightarrow> world \<Rightarrow> routing_target list result" where
  "list_targets env c default_interface w =
     res_bind (list_routes env c w) (\<lambda>routes.
     res_bind (if rt_mode (app_routing c) = Split then list_domains env c w else Inr []) (\<lambda>domains.
     let dflt = default_target c default_interface routes domains in
     if \<not> up_enabled (app_upstream c) then Inr [dflt]
     else case py_int0 (fwmark (app_routing c)) of
       None \<Rightarrow> Inl ValueError
     | Some base \<Rightarrow>
         res_bind (res_map (profile_target c w base) (profiles (app_upstream c))) (\<lambda>ts.
         Inr (dflt # some_values ts))))"

end
