(* ===== verification/Routing_Facts.thy ===== *)
theory Routing_Facts
  imports Routing
begin

text \<open>
  Lemmas on the routing service: the normalisers keep the contract of the list cache (so the
  cache lemmas apply to them), the editing operations do to the stored list what they promise,
  and the targets have distinct tables, marks and set names.
\<close>

section \<open>The normalisers provide the cache's interface\<close>

lemma digit_code: "is_ascii_digit c \<Longrightarrow> \<not> is_space c \<and> c \<noteq> CHR ''#'' \<and> c \<noteq> CHR ''!'' \<and> c \<noteq> CHR '';''"
  by (auto simp: is_ascii_digit_def is_space_def Let_def code_def)

definition addr_char :: "char \<Rightarrow> bool" where
  "addr_char c = (is_ascii_digit c \<or> 97 \<le> code c \<and> code c \<le> 102 \<or> c \<in> {CHR ''.'', CHR '':'', CHR ''/'', CHR ''%''})"

lemma addr_char_clean: "addr_char c \<Longrightarrow> \<not> is_space c \<and> c \<noteq> CHR ''#'' \<and> c \<noteq> CHR ''!'' \<and> c \<noteq> CHR '';''"
  by (auto simp: addr_char_def is_ascii_digit_def is_space_def Let_def code_def)

fun scope_chars :: "ip \<Rightarrow> char set" where
  "scope_chars (V4 _) = {}"
| "scope_chars (V6 _ z) = (case z of None \<Rightarrow> {} | Some t \<Rightarrow> set t)"

lemma show_v4_addr: "c \<in> set (show_v4 os) \<Longrightarrow> addr_char c"
  using show_nat_ascii by (auto simp: show_v4_def addr_char_def dest!: set_join_mem)

lemma show_ip_chars: "c \<in> set (show_ip a) \<Longrightarrow> addr_char c \<or> c \<in> scope_chars a"
proof (cases a)
  case (V6 hs z)
  assume "c \<in> set (show_ip a)"
  with V6 have "c \<in> set (join '':'' (compress_parts hs)) \<or> c = CHR ''%'' \<or> c \<in> scope_chars a"
    by (auto simp: show_v6_def split: option.splits)
  then show ?thesis using show_hex_chars by (auto simp: addr_char_def dest!: join_colon_chars)
qed (auto dest: show_v4_addr)

lemma show_ip_hd: "wf_ip a \<Longrightarrow> show_ip a \<noteq> [] \<and> addr_char (hd (show_ip a))"
proof (cases a)
  case (V4 os)
  assume "wf_ip a"
  with V4 have "show_v4 os \<noteq> []"
    by (cases os rule: list.exhaust; cases "tl os") (auto simp: show_v4_def show_nat_def)
  with V4 show ?thesis using show_v4_addr [of "hd (show_v4 os)" os] by simp
next
  case (V6 hs z)
  assume "wf_ip a"
  with V6 have "3 \<le> length (compress_parts hs)" using compress_parts_length [of hs] by simp
  then have "\<exists>x y ys. compress_parts hs = x # y # ys"
    by (auto simp: numeral_eq_Suc Suc_le_length_iff)
  then have ne: "join '':'' (compress_parts hs) \<noteq> []" by auto
  then have "addr_char (hd (join '':'' (compress_parts hs)))"
    using show_hex_chars join_colon_chars [of "hd (join '':'' (compress_parts hs))" hs]
    by (auto simp: addr_char_def)
  with ne V6 show ?thesis by (simp add: show_v6_def split: option.splits)
qed

lemma parse_v6_scope: "parse_v6 s = Some (hs, Some t) \<Longrightarrow> set t \<subseteq> set s"
  using cut_subset by (auto simp: parse_v6_def split: if_splits option.splits prod.splits)

lemma ip_address_scope: "ip_address s = Some a \<Longrightarrow> scope_chars a \<subseteq> set s"
  using parse_v6_scope by (fastforce simp: ip_address_def split: option.splits)

lemma split_netmask_subset: "split_netmask s = Some (a, m) \<Longrightarrow> set a \<subseteq> set s"
proof -
  assume "split_netmask s = Some (a, m)"
  then have "a \<in> set (split_on CHR ''/'' s)" by (auto simp: split_netmask_def split: list.splits)
  moreover have "s = join [CHR ''/''] (split_on CHR ''/'' s)" by (simp add: join_split_on)
  moreover have "x \<in> set ls \<Longrightarrow> set x \<subseteq> set (join sep ls)" for x :: string and sep ls
    by (induction sep ls rule: join.induct) auto
  ultimately show ?thesis by metis
qed

lemma ip_network_scope: "ip_network strict s = Inr (Net a p) \<Longrightarrow> scope_chars a \<subseteq> set s"
proof -
  assume "ip_network strict s = Inr (Net a p)"
  then obtain ad m where sn: "split_netmask s = Some (ad, m)"
    and n: "network4 strict ad m = Some (Inr (Net a p)) \<or> network6 strict ad m = Some (Inr (Net a p))"
    by (auto simp: ip_network_def split: option.splits)
  have "scope_chars a \<subseteq> set ad"
    using n parse_v6_scope by (fastforce simp: network4_def network6_def split: option.splits if_splits)
  with split_netmask_subset [OF sn] show ?thesis by blast
qed

lemma clean_entry_show_ip:
  assumes "clean_entry s" "wf_ip a" "scope_chars a \<subseteq> set s" "ws = [] \<or> (\<forall>c \<in> set ws. addr_char c)"
  shows "clean_entry (show_ip a @ ws)"
proof -
  have "\<not> is_space x \<and> x \<noteq> CHR ''#''" if "x \<in> set (show_ip a @ ws)" for x
  proof -
    from that assms(4) have "addr_char x \<or> x \<in> scope_chars a" using show_ip_chars [of x a] by auto
    then show ?thesis
    proof
      assume "addr_char x"
      then show ?thesis using addr_char_clean by blast
    next
      assume "x \<in> scope_chars a"
      with assms(3) have "x \<in> set s" by blast
      with assms(1) show ?thesis unfolding clean_entry_def by blast
    qed
  qed
  moreover have "hd (show_ip a @ ws) \<notin> {CHR ''!'', CHR '';''}" "show_ip a @ ws \<noteq> []"
    using show_ip_hd [OF assms(2)] addr_char_clean by auto
  ultimately show ?thesis by (simp add: clean_entry_def)
qed

lemma normalize_route_canonical:
  assumes "clean_entry c" "normalize_route c = Inr n"
  shows "clean_entry n \<and> normalize_route n = Inr n"
proof (cases "CHR ''/'' \<in> set c")
  case True
  with assms obtain a p where net: "ip_network False c = Inr (Net a p)" and n: "n = show_net (Net a p)"
    by (auto simp: normalize_route_def split: sum.splits) (metis ipnet.exhaust)
  have wf: "wf_net (Net a p)" using ip_network_wf [OF net] .
  then have "wf_ip a" by (cases a) auto
  then have "clean_entry (show_ip a @ (''/'' @ show_nat p))"
    using clean_entry_show_ip [OF assms(1)] ip_network_scope [OF net] show_nat_ascii
    by (auto simp: addr_char_def)
  then show ?thesis using ip_network_show [OF wf, of False] by (simp add: n normalize_route_def)
next
  case False
  with assms obtain a where ad: "ip_address c = Some a" and n: "n = show_ip a"
    by (auto simp: normalize_route_def split: option.splits)
  have wf: "wf_ip a" using ip_address_wf [OF ad] .
  have "clean_entry (show_ip a @ [])"
    by (rule clean_entry_show_ip [OF assms(1) wf ip_address_scope [OF ad]]) simp
  then show ?thesis using show_ip_no_slash [OF wf] ip_address_show [OF wf] by (simp add: n normalize_route_def)
qed

interpretation route_list: entry_normalizer normalize_route
proof unfold_locales
  show "e = ValueError" if "normalize_route c = Inl e" for c e
    using that by (auto simp: normalize_route_def split: if_splits sum.splits option.splits)
  show "clean_entry n \<and> normalize_route n = Inr n" if "clean_entry c" "normalize_route c = Inr n" for c n
    using that by (rule normalize_route_canonical)
qed

lemma lower_id_iff: "lower s = s \<longleftrightarrow> (\<forall>c \<in> set s. lower_char c = c)"
  by (induction s) (auto simp: lower_def)

lemma set_rstrip_char: "set (rstrip_char c s) \<subseteq> set s"
  unfolding rstrip_char_def by (rule set_mono_prefix [OF rstrip_if_prefix])

lemma lower_rstrip: "lower (rstrip_char c (lower s)) = rstrip_char c (lower s)"
proof -
  have "\<forall>x \<in> set (lower s). lower_char x = x" by (auto simp: lower_def)
  then show ?thesis using set_rstrip_char by (subst lower_id_iff) blast
qed

lemma rstrip_char_idem [simp]: "rstrip_char c (rstrip_char c s) = rstrip_char c s"
  by (simp add: rstrip_char_def)

lemma normalize_domain_canonical:
  assumes "clean_entry c" "normalize_domain c = Inr n"
  shows "clean_entry n \<and> normalize_domain n = Inr n"
proof -
  have sc: "strip c = c" using assms(1) by (rule clean_entry_line)
  with assms(2) have n: "n = rstrip_char CHR ''.'' (lower c)" and ne: "n \<noteq> []" and re: "routing_domain_re n"
    by (auto simp: normalize_domain_def Let_def split: if_splits)
  have ls: "\<not> is_space (lower_char x)" if "\<not> is_space x" for x
    using that by (auto simp: lower_char_def Let_def is_space_def code_char_of)
  have nsp: "\<forall>x \<in> set n. \<not> is_space x"
  proof
    fix x assume "x \<in> set n"
    then have "x \<in> set (lower c)" using set_rstrip_char n by blast
    then obtain y where "y \<in> set c" "x = lower_char y" by (auto simp: lower_def)
    then show "\<not> is_space x" using assms(1) ls by (auto simp: clean_entry_def)
  qed
  then have "last n \<noteq> LF" using ne by (metis LF_space last_in_set)
  then have "re_dollar n = n" by (simp add: re_dollar_def)
  with re have ch: "\<forall>x \<in> set n. is_alnum x \<or> x \<in> {CHR ''.'', CHR ''-''}"
    by (simp add: routing_domain_re_def Let_def list_all_iff)
  have bad: "\<not> (is_alnum x \<or> x \<in> {CHR ''.'', CHR ''-''})"
    if "x \<in> {CHR ''#'', CHR ''!'', CHR '';''}" for x
    using that by (auto simp: is_alnum_def is_alpha_def is_ascii_digit_def code_def)
  have "CHR ''#'' \<notin> set n" "hd n \<notin> {CHR ''!'', CHR '';''}"
    using ch hd_in_set [OF ne] bad by blast+
  then have "clean_entry n" using ne nsp by (auto simp: clean_entry_def)
  moreover have "strip n = n" using nsp by (rule strip_no_space)
  moreover have "lower n = n" unfolding n by (rule lower_rstrip)
  moreover have "rstrip_char CHR ''.'' n = n" unfolding n by simp
  ultimately show ?thesis using ne re by (simp add: normalize_domain_def Let_def)
qed

interpretation domain_list: entry_normalizer normalize_domain
proof unfold_locales
  show "e = ValueError" if "normalize_domain c = Inl e" for c e
    using that by (auto simp: normalize_domain_def Let_def split: if_splits)
  show "clean_entry n \<and> normalize_domain n = Inr n" if "clean_entry c" "normalize_domain c = Inr n" for c n
    using that by (rule normalize_domain_canonical)
qed


section \<open>Editing\<close>

text \<open>The entries a list file holds, as every reader of it sees them.\<close>

definition entries_at :: "string \<Rightarrow> world \<Rightarrow> string list" where
  "entries_at p w = filter keepable (map strip (read_lines_of (files w p)))"

lemma entries_at_written:
  assumes "write_unique_lines p ls m w = (r, w')" "\<forall>l \<in> set ls. no_breaks l"
  shows "set (entries_at p w') = set (filter keepable (map strip ls))"
proof -
  from assms(1) have "files w' p = Some (lines_text (unique_lines ls))"
    by (auto simp: write_unique_lines_def atomic_write_text_def)
  then have rd: "read_lines_of (files w' p) = unique_lines ls" using lf.load_save [OF assms(2)] by simp
  have "map strip (unique_lines ls) = unique_lines ls" using unique_lines_facts(2) by (intro map_idI) blast
  moreover have "filter keepable (unique_lines ls) = unique_lines ls"
    using unique_lines_facts(2) by (intro filter_True) blast
  ultimately show ?thesis unfolding entries_at_def rd by (simp add: unique_lines_eq)
qed

lemma add_line_entries:
  assumes "add_line p item w = (r, w')" "clean_entry item"
  shows "r = Inr () \<and> set (entries_at p w') = insert item (set (entries_at p w))"
proof (cases "item \<in> set (map strip (read_lines_of (files w p)))")
  case True
  with assms(1) have "w' = w \<and> r = Inr ()" by (auto simp: add_line_def read_lines_def result_simps)
  with True clean_entry_line(5) [OF assms(2)] show ?thesis by (auto simp: entries_at_def)
next
  case False
  with assms(1) have w: "write_unique_lines p (read_lines_of (files w p) @ [item]) 420 w = (r, w')"
    by (auto simp: add_line_def read_lines_def result_simps)
  then have "r = Inr ()" by (auto simp: write_unique_lines_def atomic_write_text_def)
  have "\<forall>l \<in> set (read_lines_of (files w p) @ [item]). no_breaks l"
    using read_lines_of_no_breaks clean_entry_line(4) [OF assms(2)] by auto
  note e = entries_at_written [OF w this]
  with \<open>r = Inr ()\<close> clean_entry_line(1,5) [OF assms(2)] show ?thesis
    by (simp add: entries_at_def)
qed

lemma delete_line_entries:
  assumes "delete_line p item w = (r, w')"
  shows "r = Inr () \<and> set (entries_at p w') = set (entries_at p w) - {item}"
proof -
  from assms have w: "write_unique_lines p (filter (\<lambda>l. strip l \<noteq> item) (read_lines_of (files w p))) 420 w = (r, w')"
    by (auto simp: delete_line_def read_lines_def result_simps)
  then have "r = Inr ()" by (auto simp: write_unique_lines_def atomic_write_text_def)
  moreover have "\<forall>l \<in> set (filter (\<lambda>l. strip l \<noteq> item) (read_lines_of (files w p))). no_breaks l"
    using read_lines_of_no_breaks by auto
  note entries_at_written [OF w this]
  ultimately show ?thesis by (auto simp: entries_at_def)
qed

lemma add_line_others: "add_line p item w = (r, w') \<Longrightarrow> q \<noteq> p \<Longrightarrow> files w' q = files w q"
  by (auto simp: add_line_def read_lines_def write_unique_lines_def atomic_write_text_def result_simps split: if_splits)

lemma delete_line_others: "delete_line p item w = (r, w') \<Longrightarrow> q \<noteq> p \<Longrightarrow> files w' q = files w q"
  by (auto simp: delete_line_def read_lines_def write_unique_lines_def atomic_write_text_def result_simps)

section \<open>Marks\<close>

lemma drop_underscores_id: "CHR ''_'' \<notin> set s \<Longrightarrow> drop_underscores s = Some s"
  by (induction s rule: drop_underscores.induct) auto

lemma py_int_show_int [simp]: "py_int (show_int i) = Some i"
proof -
  have d: "\<forall>c \<in> set (show_nat n). is_ascii_digit c" for n using show_nat_ascii by blast
  have us: "CHR ''_'' \<notin> set (show_nat n)" for n using d [of n] by (auto simp: is_ascii_digit_def code_def)
  have ne: "show_nat n \<noteq> []" for n by (simp add: show_nat_def)
  have hd: "hd (show_nat n) \<noteq> CHR ''_''" for n using us ne hd_in_set by metis
  have v: "digits_value 10 (show_nat n) = Some n" for n
    using ne [of n] hd [of n] us [of n] by (simp add: digits_value_def drop_underscores_id)
  have "\<forall>c \<in> set (show_int i). \<not> is_space c"
    using digit_code [OF show_nat_ascii] by (auto simp: show_int_def) (auto simp: is_space_def code_def)
  then have s: "strip (show_int i) = show_int i" by (rule strip_no_space)
  show ?thesis
  proof (cases "i < 0")
    case True
    then show ?thesis by (simp add: py_int_def s) (simp add: show_int_def split_sign_def v signed_def)
  next
    case False
    obtain c cs where cs: "show_nat (nat i) = c # cs" using ne by (meson neq_Nil_conv)
    then have "c \<noteq> CHR ''-''" "c \<noteq> CHR ''+''" using d [of "nat i"] by (auto simp: is_ascii_digit_def code_def)
    with False cs have "split_sign (show_int i) = (False, show_nat (nat i))"
      by (simp add: show_int_def split_sign_def)
    with False show ?thesis by (simp add: py_int_def s v signed_def)
  qed
qed

lemma py_int0_hex:
  assumes "s \<noteq> []" "\<forall>c \<in> set s. is_ascii_digit c \<or> 97 \<le> code c \<and> code c \<le> 102" "parse_base 16 0 s = Some n"
  shows "py_int0 (''0x'' @ s) = Some (int n)"
proof -
  have us: "CHR ''_'' \<notin> set s" using assms(2) by (auto simp: is_ascii_digit_def code_def)
  then have "hd s \<noteq> CHR ''_''" using assms(1) hd_in_set by metis
  have "\<forall>c \<in> set (''0x'' @ s). \<not> is_space c"
    using assms(2) by (auto simp: is_ascii_digit_def is_space_def code_def Let_def)
  then have "strip (''0x'' @ s) = ''0x'' @ s" by (rule strip_no_space)
  then show ?thesis
    using assms(1,3) us \<open>hd s \<noteq> CHR ''_''\<close>
    by (simp add: py_int0_def split_sign_def base_prefix_def digits_value_def drop_underscores_id signed_def)
qed

lemma format_mark_value:
  assumes "format_mark width n = Inr m" "0 \<le> n"
  shows "py_int0 m = Some n"
proof -
  let ?s = "zero_pad (nat width) (show_hex (nat n))"
  have m: "m = ''0x'' @ ?s" using assms by (auto simp: format_mark_def split: if_splits)
  have "parse_base 16 0 ?s = Some (nat n)"
    by (simp add: zero_pad_def parse_base_zeros show_hex_def parse_show_base)
  moreover have "\<forall>c \<in> set ?s. is_ascii_digit c \<or> 97 \<le> code c \<and> code c \<le> 102"
    using show_hex_chars by (auto simp: zero_pad_def is_ascii_digit_def)
  ultimately show ?thesis
    using py_int0_hex [of ?s "nat n"] assms(2) by (simp add: m zero_pad_def)
qed

section \<open>Targets\<close>

lemma some_values_simps [simp]:
  "some_values [] = []" "some_values (None # xs) = some_values xs" "some_values (Some x # xs) = x # some_values xs"
  by (simp_all add: some_values_def)

lemma res_map_some_values:
  "res_map f ps = Inr xs \<Longrightarrow>
   \<exists>qs. subseq qs ps \<and> list_all2 (\<lambda>q t. f q = Inr (Some t)) qs (some_values xs)"
proof (induction ps arbitrary: xs)
  case (Cons p ps)
  then obtain y ys where y: "f p = Inr y" "res_map f ps = Inr ys" "xs = y # ys"
    by (auto simp: res_bind_Inr_iff)
  with Cons.IH obtain qs where qs: "subseq qs ps" "list_all2 (\<lambda>q t. f q = Inr (Some t)) qs (some_values ys)" by blast
  show ?case
  proof (cases y)
    case None
    with qs y show ?thesis by auto
  next
    case (Some t)
    with qs y have "subseq (p # qs) (p # ps)" "list_all2 (\<lambda>q t. f q = Inr (Some t)) (p # qs) (some_values xs)"
      by auto
    then show ?thesis by blast
  qed
qed simp

lemma profile_target_fields:
  assumes "profile_target c w base p = Inr (Some t)"
  shows "t_name t = p_name p" "t_profile t = Some p" "t_killswitch t" "t_mode t = Split"
    "t_table_id t = derived_table_id c p"
    "t_interface t = profile_interface (app_upstream c) p"
    "format_mark (int (length (fwmark (app_routing c))) - 2) (base + profile_routing_offset (app_upstream c) p)
       = Inr (t_fwmark t)"
    "set_v4_static t = set_name ''split_v4_'' (profile_safe_name (p_name p)) ''_static''"
    "set_v6_static t = set_name ''split_v6_'' (profile_safe_name (p_name p)) ''_static''"
    "set_v4_dynamic t = set_name ''split_v4_'' (profile_safe_name (p_name p)) ''_dynamic''"
    "set_v6_dynamic t = set_name ''split_v6_'' (profile_safe_name (p_name p)) ''_dynamic''"
    "client_active p \<or> host_active c w p"
    "host_set_v4_static t = (if host_active c w p then Some (set_name ''host_v4_'' (profile_safe_name (p_name p)) ''_static'') else None)"
    "host_set_v6_static t = (if host_active c w p then Some (set_name ''host_v6_'' (profile_safe_name (p_name p)) ''_static'') else None)"
    "host_set_v4_dynamic t = (if host_active c w p then Some (set_name ''host_v4_'' (profile_safe_name (p_name p)) ''_dynamic'') else None)"
    "host_set_v6_dynamic t = (if host_active c w p then Some (set_name ''host_v6_'' (profile_safe_name (p_name p)) ''_dynamic'') else None)"
  using assms
  by (auto simp: profile_target_def Let_def res_bind_Inr_iff derived_table_id_def split: if_splits prod.splits)

text \<open>The shape of every successful result: the default target, then one target for each of a
  subsequence of the profiles.\<close>

lemma list_targets_shape:
  assumes "list_targets env c d w = Inr ts"
  obtains routes domains rest qs base where
    "ts = default_target c d routes domains # rest"
    "list_routes env c w = Inr routes"
    "if rt_mode (app_routing c) = Split then list_domains env c w = Inr domains else domains = []"
    "subseq qs (profiles (app_upstream c))"
    "list_all2 (\<lambda>q t. profile_target c w base q = Inr (Some t)) qs rest"
    "\<not> up_enabled (app_upstream c) \<Longrightarrow> rest = [] \<and> qs = []"
    "up_enabled (app_upstream c) \<Longrightarrow> py_int0 (fwmark (app_routing c)) = Some base"
proof -
  from assms obtain routes domains where rd: "list_routes env c w = Inr routes"
    "if rt_mode (app_routing c) = Split then list_domains env c w = Inr domains else domains = []"
    and t: "(if \<not> up_enabled (app_upstream c) then Inr [default_target c d routes domains]
     else case py_int0 (fwmark (app_routing c)) of None \<Rightarrow> Inl ValueError
     | Some base \<Rightarrow> res_bind (res_map (profile_target c w base) (profiles (app_upstream c))) (\<lambda>ts.
         Inr (default_target c d routes domains # some_values ts))) = Inr ts"
    by (auto simp: list_targets_def res_bind_Inr_iff Let_def split: if_splits)
  show ?thesis
  proof (cases "up_enabled (app_upstream c)")
    case False
    with t rd show ?thesis by (intro that [of routes domains "[]" "[]"]) auto
  next
    case True
    with t obtain base xs where b: "py_int0 (fwmark (app_routing c)) = Some base"
      and xs: "res_map (profile_target c w base) (profiles (app_upstream c)) = Inr xs"
      and ts: "ts = default_target c d routes domains # some_values xs"
      by (auto simp: res_bind_Inr_iff split: option.splits)
    from res_map_some_values [OF xs] obtain qs where "subseq qs (profiles (app_upstream c))"
      "list_all2 (\<lambda>q t. profile_target c w base q = Inr (Some t)) qs (some_values xs)" by blast
    with True b rd ts show ?thesis by (intro that [of routes domains "some_values xs" qs base]) auto
  qed
qed

lemma list_all2_map_eq: "list_all2 P qs ts \<Longrightarrow> (\<And>q t. P q t \<Longrightarrow> g t = h q) \<Longrightarrow> map g ts = map h qs"
  by (induction rule: list_all2_induct) auto

lemma subseq_set: "subseq qs ps \<Longrightarrow> set qs \<subseteq> set ps"
  by (induction rule: list_emb.induct) auto

lemma subseq_map_distinct: "subseq qs ps \<Longrightarrow> distinct (map f ps) \<Longrightarrow> distinct (map f qs)"
  by (induction rule: list_emb.induct) (auto dest: subseq_set)

lemma list_targets_tables:
  assumes "valid_app c" "list_targets env c d w = Inr ts"
  shows "distinct (map t_table_id ts)"
  using assms(2)
proof (rule list_targets_shape)
  fix routes domains rest qs base
  assume ts: "ts = default_target c d routes domains # rest"
    and sub: "subseq qs (profiles (app_upstream c))"
    and l2: "list_all2 (\<lambda>q t. profile_target c w base q = Inr (Some t)) qs rest"
  let ?o = "profile_routing_offset (app_upstream c)"
  let ?base = "table_id (app_routing c)"
  have m: "map t_table_id rest = map (\<lambda>q. ?base + ?o q) qs"
    by (rule list_all2_map_eq [OF l2]) (simp add: profile_target_fields derived_table_id_def)
  have "distinct (map ?o (profiles (app_upstream c)))"
    and pos: "\<forall>q \<in> set (profiles (app_upstream c)). 1 \<le> ?o q"
    using assms(1) by (auto simp: valid_app_def valid_upstream_def)
  then have "distinct (map ?o qs)" using subseq_map_distinct [OF sub] by blast
  then have "distinct (map (\<lambda>q. ?base + ?o q) qs)" by (simp add: distinct_map inj_on_def)
  moreover have "?base \<notin> set (map (\<lambda>q. ?base + ?o q) qs)"
  proof
    assume "?base \<in> set (map (\<lambda>q. ?base + ?o q) qs)"
    then obtain q where "q \<in> set qs" "?o q = 0" by auto
    with pos subseq_set [OF sub] show False by force
  qed
  ultimately show ?thesis by (simp add: ts m default_target_def Let_def)
qed

lemma list_targets_marks:
  assumes "valid_app c" "list_targets env c d w = Inr ts"
    and "py_int0 (fwmark (app_routing c)) = Some base" "0 < base"
  shows "distinct (map (\<lambda>t. py_int0 (t_fwmark t)) ts) \<and> (\<forall>t \<in> set ts. py_int0 (t_fwmark t) \<noteq> None)"
  using assms(2)
proof (rule list_targets_shape)
  fix routes domains rest qs b
  assume ts: "ts = default_target c d routes domains # rest"
    and sub: "subseq qs (profiles (app_upstream c))"
    and l2: "list_all2 (\<lambda>q t. profile_target c w b q = Inr (Some t)) qs rest"
    and off: "\<not> up_enabled (app_upstream c) \<Longrightarrow> rest = [] \<and> qs = []"
    and on: "up_enabled (app_upstream c) \<Longrightarrow> py_int0 (fwmark (app_routing c)) = Some b"
  let ?o = "profile_routing_offset (app_upstream c)"
  have pos: "\<forall>q \<in> set qs. 1 \<le> ?o q"
    using assms(1) subseq_set [OF sub] unfolding valid_app_def valid_upstream_def by blast
  have "distinct (map ?o (profiles (app_upstream c)))"
    using assms(1) by (auto simp: valid_app_def valid_upstream_def)
  then have dist: "distinct (map ?o qs)" using subseq_map_distinct [OF sub] by blast
  have m: "map (\<lambda>t. py_int0 (t_fwmark t)) rest = map (\<lambda>q. Some (base + ?o q)) qs"
  proof (cases "up_enabled (app_upstream c)")
    case True
    with on assms(3) have "b = base" by simp
    have "list_all2 (\<lambda>q t. profile_target c w b q = Inr (Some t) \<and> 1 \<le> ?o q) qs rest"
      using l2 pos by (auto simp: list_all2_conv_all_nth)
    then show ?thesis
    proof (rule list_all2_map_eq)
      fix q t
      assume "profile_target c w b q = Inr (Some t) \<and> 1 \<le> ?o q"
      then show "py_int0 (t_fwmark t) = Some (base + ?o q)"
        using profile_target_fields(7) [of c w b q t] assms(4) \<open>b = base\<close>
        by (intro format_mark_value) auto
    qed
  qed (use off in simp)
  have "distinct (map (\<lambda>q. Some (base + ?o q)) qs)" using dist by (simp add: distinct_map inj_on_def)
  moreover have "Some base \<notin> set (map (\<lambda>q. Some (base + ?o q)) qs)"
  proof
    assume "Some base \<in> set (map (\<lambda>q. Some (base + ?o q)) qs)"
    then obtain q where "q \<in> set qs" "?o q = 0" by auto
    with pos show False by force
  qed
  moreover have "\<forall>t \<in> set rest. py_int0 (t_fwmark t) \<noteq> None"
  proof
    fix t assume "t \<in> set rest"
    then have "py_int0 (t_fwmark t) \<in> set (map (\<lambda>t. py_int0 (t_fwmark t)) rest)" by simp
    then show "py_int0 (t_fwmark t) \<noteq> None" unfolding m by auto
  qed
  ultimately show ?thesis using assms(3) by (simp add: ts m default_target_def Let_def)
qed

lemma list_targets_members:
  assumes "list_targets env c d w = Inr ts" "t \<in> set (tl ts)"
  shows "\<exists>p base. p \<in> set (profiles (app_upstream c)) \<and> profile_target c w base p = Inr (Some t)
    \<and> up_enabled (app_upstream c)"
  using assms(1)
proof (rule list_targets_shape)
  fix routes domains rest qs base
  assume ts: "ts = default_target c d routes domains # rest"
    and sub: "subseq qs (profiles (app_upstream c))"
    and l2: "list_all2 (\<lambda>q t. profile_target c w base q = Inr (Some t)) qs rest"
    and off: "\<not> up_enabled (app_upstream c) \<Longrightarrow> rest = [] \<and> qs = []"
  from assms(2) ts have "t \<in> set rest" by simp
  then obtain i where i: "i < length rest" "t = rest ! i" by (auto simp: in_set_conv_nth)
  with l2 have "qs ! i \<in> set qs" "profile_target c w base (qs ! i) = Inr (Some t)"
    by (auto simp: list_all2_conv_all_nth)
  moreover from this have "qs ! i \<in> set (profiles (app_upstream c))" using subseq_set [OF sub] by blast
  moreover have "up_enabled (app_upstream c)" using off \<open>t \<in> set rest\<close> by fastforce
  ultimately show ?thesis by blast
qed

end
