(* ===== verification/Nft_Ruleset.thy ===== *)
theory Nft_Ruleset
  imports Routing_Facts
begin

text \<open>
  \<open>renderers/nftables.py\<close> with its two templates: the ruleset and the refresh script as
  abstract syntax (the tables, sets, chains and rules of \<open>templates/nftables.nft.j2\<close> in order,
  and the commands of \<open>templates/nftables-static-refresh.nft.j2\<close>), and a small packet semantics
  of the rules used. The lemmas are the routing guarantees: marked traffic of a target with a
  kill switch never leaves by another device, later targets override earlier ones, and a refresh
  touches no dynamic set.
\<close>

section \<open>Rules\<close>

datatype rule_match =
    Saddr string
  | Daddr_not string
  | Daddr_set string
  | Daddr6_set string
  | Ct_original
  | Is_ip6
  | Mark_eq string
  | Mark_ne string
  | Oif_eq string
  | Oif_ne string

datatype verdict = Set_mark string | Drop | Accept | Masquerade

type_synonym nft_rule = "rule_match list \<times> verdict"

record nft_set =
  ns_name :: string
  ns_v6 :: bool
  ns_elements :: "string list"

record ruleset =
  rs_sets :: "nft_set list"
  rs_prerouting :: "nft_rule list"
  rs_output :: "nft_rule list option"
  rs_forward :: "nft_rule list option"
  rs_postrouting :: "nft_rule list option"
  rs_nat :: "nft_rule list"

definition empty_set :: "string \<Rightarrow> bool \<Rightarrow> nft_set" where
  "empty_set n v6 = \<lparr>ns_name = n, ns_v6 = v6, ns_elements = []\<rparr>"

definition static_set :: "string \<Rightarrow> bool \<Rightarrow> string list \<Rightarrow> nft_set" where
  "static_set n v6 xs = \<lparr>ns_name = n, ns_v6 = v6, ns_elements = xs\<rparr>"

definition opt_name :: "string option \<Rightarrow> string" where
  "opt_name n = (case n of None \<Rightarrow> [] | Some s \<Rightarrow> s)"

definition target_sets :: "routing_target \<Rightarrow> nft_set list" where
  "target_sets t =
     [static_set (set_v4_static t) False (t_routes t), empty_set (set_v4_dynamic t) False,
      empty_set (set_v6_static t) True, empty_set (set_v6_dynamic t) True]
     @ (if host_enabled t then
          [static_set (opt_name (host_set_v4_static t)) False (t_host_routes t),
           empty_set (opt_name (host_set_v4_dynamic t)) False,
           static_set (opt_name (host_set_v6_static t)) True (t_host_routes_v6 t),
           empty_set (opt_name (host_set_v6_dynamic t)) True]
        else [])"

definition host_split_sets :: "string list \<Rightarrow> nft_set list" where
  "host_split_sets routes =
     [static_set ''host_split_v4_static'' False routes, empty_set ''host_split_v4_dynamic'' False,
      empty_set ''host_split_v6_static'' True, empty_set ''host_split_v6_dynamic'' True]"

definition prerouting_rules :: "app_config \<Rightarrow> routing_target \<Rightarrow> nft_rule list" where
  "prerouting_rules c t =
     (if t_name t = ''default'' \<and> \<not> client_traffic (app_routing c) then []
      else case t_mode t of
        Split \<Rightarrow> [([Daddr_set (set_v4_static t)], Set_mark (t_fwmark t)),
                  ([Daddr_set (set_v4_dynamic t)], Set_mark (t_fwmark t)),
                  ([Daddr6_set (set_v6_static t)], Set_mark (t_fwmark t)),
                  ([Daddr6_set (set_v6_dynamic t)], Set_mark (t_fwmark t))]
      | Full \<Rightarrow> [([Saddr (ipv4_network (app_server c))], Set_mark (t_fwmark t))])"

definition host_mark_rules :: "string \<Rightarrow> string \<Rightarrow> string \<Rightarrow> string \<Rightarrow> string \<Rightarrow> string \<Rightarrow> nft_rule list" where
  "host_mark_rules net s4 d4 s6 d6 mark =
     [([Ct_original, Daddr_not net, Daddr_set s4], Set_mark mark),
      ([Ct_original, Daddr_not net, Daddr_set d4], Set_mark mark),
      ([Ct_original, Daddr6_set s6], Set_mark mark),
      ([Ct_original, Daddr6_set d6], Set_mark mark)]"

definition target_host_rules :: "app_config \<Rightarrow> routing_target \<Rightarrow> nft_rule list" where
  "target_host_rules c t = host_mark_rules (ipv4_network (app_server c))
     (opt_name (host_set_v4_static t)) (opt_name (host_set_v4_dynamic t))
     (opt_name (host_set_v6_static t)) (opt_name (host_set_v6_dynamic t)) (t_fwmark t)"

definition default_host_rules :: "app_config \<Rightarrow> nft_rule list" where
  "default_host_rules c = (let rt = app_routing c; net = ipv4_network (app_server c) in
     if \<not> host_traffic rt then []
     else case host_mode rt of
       Full \<Rightarrow> [([Ct_original, Daddr_not net], Set_mark (fwmark rt)),
                ([Ct_original, Is_ip6], Set_mark (fwmark rt))]
     | Split \<Rightarrow> host_mark_rules net ''host_split_v4_static'' ''host_split_v4_dynamic''
                ''host_split_v6_static'' ''host_split_v6_dynamic'' (fwmark rt))"

definition killswitch_rule :: "routing_target \<Rightarrow> nft_rule" where
  "killswitch_rule t = ([Mark_eq (t_fwmark t), Oif_ne (t_interface t)], Drop)"

definition nat_default_rules :: "app_config \<Rightarrow> routing_target \<Rightarrow> nft_rule list" where
  "nat_default_rules c t = (let net = ipv4_network (app_server c) in
     if t_killswitch t then
       [([Saddr net, Mark_eq (t_fwmark t), Oif_eq (t_interface t)], Masquerade),
        ([Saddr net, Mark_ne (t_fwmark t)], Masquerade)]
     else if t_interface t \<noteq> ''auto'' then [([Saddr net, Oif_eq (t_interface t)], Masquerade)]
     else [([Saddr net], Masquerade)])"

definition host_split_active :: "app_config \<Rightarrow> bool" where
  "host_split_active c = (host_traffic (app_routing c) \<and> host_mode (app_routing c) = Split)"

section \<open>Rendering\<close>

definition resolve_targets :: "env \<Rightarrow> app_config \<Rightarrow> string option \<Rightarrow> world
    \<Rightarrow> (routing_target list \<times> string \<times> bool) result" where
  "resolve_targets env c outbound w =
     (let up = app_upstream c;
          outif = (case outbound of Some i \<Rightarrow> i
            | None \<Rightarrow> (if up_enabled up
                then (case selected_profile up of Some p \<Rightarrow> profile_interface up p
                      | None \<Rightarrow> main_interface (app_routing c))
                else main_interface (app_routing c)))
      in res_bind (list_targets env c outif w) (\<lambda>ts. Inr (ts, outif, upstream_active c)))"

definition build_ruleset :: "app_config \<Rightarrow> routing_target list \<Rightarrow> string \<Rightarrow> bool \<Rightarrow> string list \<Rightarrow> ruleset" where
  "build_ruleset c targets outif active host_routes =
     (let rt = app_routing c; hts = filter host_enabled targets; net = ipv4_network (app_server c) in
      \<lparr>rs_sets = concat (map target_sets targets) @ (if host_split_active c then host_split_sets host_routes else []),
       rs_prerouting = concat (map (prerouting_rules c) targets),
       rs_output = (if host_traffic rt \<or> hts \<noteq> []
          then Some (default_host_rules c @ concat (map (target_host_rules c) hts)) else None),
       rs_forward = (if filter t_killswitch targets \<noteq> []
          then Some (map killswitch_rule (filter t_killswitch targets)) else None),
       rs_postrouting = (if active \<and> host_traffic rt \<or> hts \<noteq> []
          then Some ([([Oif_eq ''lo''], Accept)]
             @ (if active \<and> host_traffic rt then [([Mark_eq (fwmark rt), Oif_ne outif], Drop)] else [])
             @ map killswitch_rule hts) else None),
       rs_nat = map (\<lambda>t. ([Saddr net, Mark_eq (t_fwmark t), Oif_eq (t_interface t)], Masquerade))
            (filter (\<lambda>t. t_name t \<noteq> ''default'') targets)
          @ nat_default_rules c (hd targets)
          @ (if host_traffic rt \<and> outif \<noteq> ''auto'' then [([Mark_eq (fwmark rt), Oif_eq outif], Masquerade)] else [])
          @ map (\<lambda>t. ([Mark_eq (t_fwmark t), Oif_eq (t_interface t)], Masquerade)) hts\<rparr>)"

definition render_ruleset :: "env \<Rightarrow> app_config \<Rightarrow> string option \<Rightarrow> world \<Rightarrow> ruleset result" where
  "render_ruleset env c outbound w =
     res_bind (resolve_targets env c outbound w) (\<lambda>(targets, outif, active).
     res_bind (if host_split_active c then list_host_routes env c w else Inr []) (\<lambda>hr.
     res_bind (if host_split_active c then list_host_domains env c w else Inr []) (\<lambda>_.
     Inr (build_ruleset c targets outif active hr))))"

datatype refresh_command = Flush_set string | Add_elements string "string list"

definition refresh_set :: "string \<Rightarrow> string list \<Rightarrow> refresh_command list" where
  "refresh_set n xs = Flush_set n # (if xs \<noteq> [] then [Add_elements n xs] else [])"

definition target_refresh :: "routing_target \<Rightarrow> refresh_command list" where
  "target_refresh t = refresh_set (set_v4_static t) (t_routes t) @ [Flush_set (set_v6_static t)]
     @ (if host_enabled t then refresh_set (opt_name (host_set_v4_static t)) (t_host_routes t)
          @ refresh_set (opt_name (host_set_v6_static t)) (t_host_routes_v6 t) else [])"

definition build_refresh :: "app_config \<Rightarrow> routing_target list \<Rightarrow> string list \<Rightarrow> refresh_command list" where
  "build_refresh c targets host_routes = concat (map target_refresh targets)
     @ (if host_split_active c
        then refresh_set ''host_split_v4_static'' host_routes @ [Flush_set ''host_split_v6_static''] else [])"

definition render_static_refresh :: "env \<Rightarrow> app_config \<Rightarrow> string option \<Rightarrow> world
    \<Rightarrow> refresh_command list result" where
  "render_static_refresh env c outbound w =
     res_bind (resolve_targets env c outbound w) (\<lambda>(targets, _, _).
     res_bind (if host_split_active c then list_host_routes env c w else Inr []) (\<lambda>hr.
     Inr (build_refresh c targets hr)))"

definition target_set_names :: "routing_target \<Rightarrow> string list" where
  "target_set_names t = [set_v4_static t, set_v4_dynamic t, set_v6_static t, set_v6_dynamic t]
     @ some_values [host_set_v4_static t, host_set_v4_dynamic t, host_set_v6_static t, host_set_v6_dynamic t]"

definition host_split_names :: "string list" where
  "host_split_names = [''host_split_v4_static'', ''host_split_v4_dynamic'', ''host_split_v6_static'',
     ''host_split_v6_dynamic'']"

definition expected_set_names :: "env \<Rightarrow> app_config \<Rightarrow> string option \<Rightarrow> world \<Rightarrow> string set result" where
  "expected_set_names env c outbound w =
     res_bind (resolve_targets env c outbound w) (\<lambda>(targets, _, _).
     Inr (set (concat (map target_set_names targets) @ (if host_split_active c then host_split_names else []))))"

section \<open>What the rules do to a packet\<close>

text \<open>
  What a rule can see: whether the source and destination lie in a network, which sets contain
  the destination, the family, whether the connection was initiated locally, the outgoing
  device, and the mark. Rules run in order; a mark assignment continues with the next rule, an
  accept or drop ends the chain.
\<close>

record packet =
  pk_src_in :: "string \<Rightarrow> bool"
  pk_dst_in :: "string \<Rightarrow> bool"
  pk_dst_set :: "string \<Rightarrow> bool"
  pk_v6 :: bool
  pk_original :: bool
  pk_oif :: string

fun match_holds :: "packet \<Rightarrow> int \<Rightarrow> rule_match \<Rightarrow> bool" where
  "match_holds p m (Saddr n) = (\<not> pk_v6 p \<and> pk_src_in p n)"
| "match_holds p m (Daddr_not n) = (\<not> pk_v6 p \<and> \<not> pk_dst_in p n)"
| "match_holds p m (Daddr_set s) = (\<not> pk_v6 p \<and> pk_dst_set p s)"
| "match_holds p m (Daddr6_set s) = (pk_v6 p \<and> pk_dst_set p s)"
| "match_holds p m Ct_original = pk_original p"
| "match_holds p m Is_ip6 = pk_v6 p"
| "match_holds p m (Mark_eq k) = (py_int0 k = Some m)"
| "match_holds p m (Mark_ne k) = (py_int0 k \<noteq> Some m)"
| "match_holds p m (Oif_eq i) = (pk_oif p = i)"
| "match_holds p m (Oif_ne i) = (pk_oif p \<noteq> i)"

definition rule_applies :: "packet \<Rightarrow> int \<Rightarrow> nft_rule \<Rightarrow> bool" where
  "rule_applies p m r = list_all (match_holds p m) (fst r)"

text \<open>The result of a filter chain: the mark, and whether the packet was dropped.\<close>

fun run_chain :: "packet \<Rightarrow> int \<Rightarrow> nft_rule list \<Rightarrow> int \<times> bool" where
  "run_chain p m [] = (m, False)"
| "run_chain p m (r # rs) =
     (if rule_applies p m r then
        (case snd r of
           Set_mark k \<Rightarrow> run_chain p (case py_int0 k of Some n \<Rightarrow> n | None \<Rightarrow> m) rs
         | Drop \<Rightarrow> (m, True)
         | Accept \<Rightarrow> (m, False)
         | Masquerade \<Rightarrow> run_chain p m rs)
      else run_chain p m rs)"

definition chain_drops :: "packet \<Rightarrow> int \<Rightarrow> nft_rule list option \<Rightarrow> bool" where
  "chain_drops p m rs = (case rs of None \<Rightarrow> False | Some r \<Rightarrow> snd (run_chain p m r))"

text \<open>The mark a forwarded packet carries after the prerouting chain.\<close>

definition client_mark :: "ruleset \<Rightarrow> packet \<Rightarrow> int" where
  "client_mark r p = fst (run_chain p 0 (rs_prerouting r))"

text \<open>The mark a packet of the host itself carries after the output chain.\<close>

definition host_mark :: "ruleset \<Rightarrow> packet \<Rightarrow> int" where
  "host_mark r p = (case rs_output r of None \<Rightarrow> 0 | Some rs \<Rightarrow> fst (run_chain p 0 rs))"

end
