(* ===== verification/Nft_Facts.thy ===== *)
theory Nft_Facts
  imports Nft_Ruleset
begin

text \<open>
  Facts about the rendered ruleset: the set names are distinct and exactly the expected ones,
  every set a rule reads is declared, the marks and kill switches, and the effect of the
  refresh script on the loaded sets.
\<close>

section \<open>Set names\<close>

definition name_prefixes :: "string list" where
  "name_prefixes = [''split_v4_'', ''split_v6_'', ''host_v4_'', ''host_v6_'']"

definition name_suffixes :: "string list" where
  "name_suffixes = [''_static'', ''_dynamic'']"

lemma set_name_inject:
  assumes "p \<in> set name_prefixes" "p' \<in> set name_prefixes" "x \<in> set name_suffixes" "x' \<in> set name_suffixes"
    and "set_name p s x = set_name p' s' x'"
  shows "p = p' \<and> s = s' \<and> x = x'"
proof -
  have "rev (set_name p s x) = rev (set_name p' s' x')" using assms(5) by simp
  then have x: "x = x'" using assms(3,4) by (auto simp: set_name_def name_suffixes_def)
  have p: "p = p'" using assms(1,2,5) by (auto simp: set_name_def name_prefixes_def)
  show ?thesis using assms(5) x p by (simp add: set_name_def)
qed

definition plain_names :: "string list" where
  "plain_names = [''split_v4_static'', ''split_v4_dynamic'', ''split_v6_static'', ''split_v6_dynamic'']"

lemma no_plain_tail:
  assumes "x \<in> set name_suffixes" "y \<in> {''static'', ''dynamic''}"
  shows "s @ x \<noteq> y"
proof
  assume "s @ x = y"
  then have "rev x @ rev s = rev y" by (metis rev_append)
  with assms show False by (auto simp: name_suffixes_def)
qed

lemma set_name_plain:
  assumes "p \<in> set name_prefixes" "x \<in> set name_suffixes"
  shows "set_name p s x \<notin> set plain_names" "set_name p s x \<notin> set host_split_names"
proof -
  have "s @ x \<noteq> ''static''" "s @ x \<noteq> ''dynamic''" using no_plain_tail [OF assms(2)] by blast+
  then show "set_name p s x \<notin> set plain_names"
    using assms(1) by (auto simp: plain_names_def name_prefixes_def set_name_def)
  show "set_name p s x \<notin> set host_split_names"
    using assms(1) by (auto simp: host_split_names_def name_prefixes_def set_name_def)
qed

definition profile_names :: "string \<Rightarrow> bool \<Rightarrow> string list" where
  "profile_names safe h =
     [set_name ''split_v4_'' safe ''_static'', set_name ''split_v4_'' safe ''_dynamic'',
      set_name ''split_v6_'' safe ''_static'', set_name ''split_v6_'' safe ''_dynamic'']
     @ (if h then [set_name ''host_v4_'' safe ''_static'', set_name ''host_v4_'' safe ''_dynamic'',
          set_name ''host_v6_'' safe ''_static'', set_name ''host_v6_'' safe ''_dynamic''] else [])"

lemma profile_names_mem:
  "n \<in> set (profile_names safe h) \<Longrightarrow> \<exists>p \<in> set name_prefixes. \<exists>x \<in> set name_suffixes. n = set_name p safe x"
  by (auto simp: profile_names_def name_prefixes_def name_suffixes_def split: if_splits)

lemma profile_names_distinct: "distinct (profile_names safe h)"
  by (auto simp: profile_names_def set_name_def)

lemma profile_names_disjoint:
  assumes "s \<noteq> s'"
  shows "set (profile_names s h) \<inter> set (profile_names s' h') = {}"
  using assms set_name_inject profile_names_mem by (metis disjoint_iff)

lemma distinct_concat_profile_names:
  "distinct (map f qs) \<Longrightarrow> distinct (concat (map (\<lambda>q. profile_names (f q) (g q)) qs))"
proof (induction qs)
  case (Cons q qs)
  have "set (profile_names (f q) (g q)) \<inter> set (concat (map (\<lambda>q. profile_names (f q) (g q)) qs)) = {}"
  proof -
    have "set (profile_names (f q) (g q)) \<inter> set (profile_names (f r) (g r)) = {}" if "r \<in> set qs" for r
      using Cons.prems that by (intro profile_names_disjoint) force
    then show ?thesis by auto
  qed
  with Cons show ?case by (simp add: profile_names_distinct)
qed simp

lemma profile_target_names:
  assumes "profile_target c w base q = Inr (Some t)"
  shows "target_set_names t = profile_names (profile_safe_name (p_name q)) (host_active c w q)"
    and "map ns_name (target_sets t) = target_set_names t"
    and "host_enabled t = host_active c w q"
proof -
  note f = profile_target_fields [OF assms]
  show "target_set_names t = profile_names (profile_safe_name (p_name q)) (host_active c w q)"
    by (simp add: target_set_names_def profile_names_def f)
  show h: "host_enabled t = host_active c w q"
    by (simp add: host_enabled_def is_set_def f set_name_def)
  show "map ns_name (target_sets t) = target_set_names t"
    using h by (simp add: target_sets_def target_set_names_def static_set_def empty_set_def f opt_name_def)
qed

lemma default_target_names:
  "target_set_names (default_target c d rs ds) = plain_names"
  "map ns_name (target_sets (default_target c d rs ds)) = plain_names"
  "\<not> host_enabled (default_target c d rs ds)"
  by (simp_all add: target_set_names_def target_sets_def default_target_def Let_def plain_names_def
      host_enabled_def is_set_def static_set_def empty_set_def)

text \<open>What the default target and the named targets have in common, for the facts below.\<close>

lemma list_targets_names:
  assumes "list_targets env c d w = Inr ts"
  shows "map (\<lambda>t. map ns_name (target_sets t)) ts = map target_set_names ts"
  using assms
proof (rule list_targets_shape)
  fix routes domains rest qs base
  assume ts: "ts = default_target c d routes domains # rest"
    and l2: "list_all2 (\<lambda>q t. profile_target c w base q = Inr (Some t)) qs rest"
  have "map ns_name (target_sets t) = target_set_names t" if "t \<in> set rest" for t
  proof -
    from that obtain i where "i < length rest" "t = rest ! i" by (auto simp: in_set_conv_nth)
    then have "profile_target c w base (qs ! i) = Inr (Some t)" using l2 by (auto simp: list_all2_conv_all_nth)
    then show ?thesis by (rule profile_target_names)
  qed
  then show ?thesis by (simp add: ts default_target_names)
qed

lemma host_split_set_names: "map ns_name (host_split_sets hr) = host_split_names"
  by (simp add: host_split_sets_def host_split_names_def static_set_def empty_set_def)

lemma render_ruleset_parts:
  assumes "render_ruleset env c outbound w = Inr r"
  obtains targets outif active hr where
    "resolve_targets env c outbound w = Inr (targets, outif, active)"
    "list_targets env c outif w = Inr targets" "active = upstream_active c"
    "if host_split_active c then list_host_routes env c w = Inr hr else hr = []"
    "r = build_ruleset c targets outif active hr"
  using assms
  by (auto simp: render_ruleset_def resolve_targets_def Let_def res_bind_Inr_iff split: if_splits)

lemma build_set_names:
  "map ns_name (rs_sets (build_ruleset c ts o1 a hr)) =
     concat (map (\<lambda>t. map ns_name (target_sets t)) ts) @ (if host_split_active c then host_split_names else [])"
  by (simp add: build_ruleset_def Let_def host_split_set_names map_concat comp_def)

lemma set_names_as_expected:
  assumes "render_ruleset env c outbound w = Inr r"
  shows "expected_set_names env c outbound w = Inr (set (map ns_name (rs_sets r)))"
  using assms
proof (rule render_ruleset_parts)
  fix targets outif active hr
  assume rt: "resolve_targets env c outbound w = Inr (targets, outif, active)"
    and lt: "list_targets env c outif w = Inr targets"
    and r: "r = build_ruleset c targets outif active hr"
  show ?thesis
    unfolding r build_set_names list_targets_names [OF lt] by (simp add: expected_set_names_def rt)
qed

lemma set_names_distinct:
  assumes "render_ruleset env c outbound w = Inr r" "valid_app c"
  shows "distinct (map ns_name (rs_sets r))"
  using assms(1)
proof (rule render_ruleset_parts)
  fix targets outif active hr
  assume lt: "list_targets env c outif w = Inr targets" and r: "r = build_ruleset c targets outif active hr"
  show ?thesis
    using lt
  proof (rule list_targets_shape)
    fix routes domains rest qs base
    assume ts: "targets = default_target c outif routes domains # rest"
      and sub: "subseq qs (profiles (app_upstream c))"
      and l2: "list_all2 (\<lambda>q t. profile_target c w base q = Inr (Some t)) qs rest"
    let ?f = "\<lambda>q. profile_safe_name (p_name q)"
    let ?pn = "concat (map (\<lambda>q. profile_names (?f q) (host_active c w q)) qs)"
    have m: "map target_set_names rest = map (\<lambda>q. profile_names (?f q) (host_active c w q)) qs"
      using l2 by (rule list_all2_map_eq) (simp add: profile_target_names)
    have names: "map ns_name (rs_sets r) = plain_names @ ?pn @ (if host_split_active c then host_split_names else [])"
      unfolding r build_set_names list_targets_names [OF lt] by (simp add: ts m default_target_names)
    have "distinct (map ?f (profiles (app_upstream c)))"
      using assms(2) by (auto simp: valid_app_def valid_upstream_def comp_def)
    then have "distinct (map ?f qs)" using subseq_map_distinct [OF sub] by blast
    then have dp: "distinct ?pn" by (rule distinct_concat_profile_names)
    have np: "n \<notin> set plain_names \<and> n \<notin> set host_split_names" if "n \<in> set ?pn" for n
    proof -
      from that obtain q where "n \<in> set (profile_names (?f q) (host_active c w q))" by auto
      from profile_names_mem [OF this] set_name_plain show ?thesis by blast
    qed
    have "distinct plain_names" "distinct host_split_names" "set plain_names \<inter> set host_split_names = {}"
      by (auto simp: plain_names_def host_split_names_def)
    with dp np have "distinct (plain_names @ ?pn @ (if host_split_active c then host_split_names else []))"
      unfolding distinct_append by (auto simp del: set_concat)
    then show ?thesis unfolding names .
  qed
qed

section \<open>Every set a rule reads is declared\<close>

fun match_sets :: "rule_match \<Rightarrow> string list" where
  "match_sets (Daddr_set s) = [s]"
| "match_sets (Daddr6_set s) = [s]"
| "match_sets _ = []"

definition chain_sets :: "nft_rule list \<Rightarrow> string list" where
  "chain_sets rs = concat (map (\<lambda>r. concat (map match_sets (fst r))) rs)"

lemma chain_sets_simps [simp]:
  "chain_sets [] = []" "chain_sets (r # rs) = concat (map match_sets (fst r)) @ chain_sets rs"
  "chain_sets (xs @ ys) = chain_sets xs @ chain_sets ys"
  by (simp_all add: chain_sets_def)

lemma chain_sets_concat: "set (chain_sets (concat (map f xs))) = (\<Union>x \<in> set xs. set (chain_sets (f x)))"
  by (induction xs) auto

lemma prerouting_sets: "set (chain_sets (prerouting_rules c t)) \<subseteq> set (map ns_name (target_sets t))"
  by (auto simp: prerouting_rules_def target_sets_def static_set_def empty_set_def split: split_mode.splits if_splits)

lemma target_host_sets: "host_enabled t \<Longrightarrow> set (chain_sets (target_host_rules c t)) \<subseteq> set (map ns_name (target_sets t))"
  by (auto simp: target_host_rules_def host_mark_rules_def target_sets_def static_set_def empty_set_def)

lemma default_host_sets: "set (chain_sets (default_host_rules c)) \<subseteq> (if host_split_active c then set host_split_names else {})"
  by (auto simp: default_host_rules_def host_mark_rules_def host_split_active_def host_split_names_def Let_def
      split: split_mode.splits)

lemma rule_sets_declared:
  "set (chain_sets (rs_prerouting (build_ruleset c ts o1 a hr))) \<subseteq> set (map ns_name (rs_sets (build_ruleset c ts o1 a hr)))"
  "rs_output (build_ruleset c ts o1 a hr) = Some rs \<Longrightarrow>
   set (chain_sets rs) \<subseteq> set (map ns_name (rs_sets (build_ruleset c ts o1 a hr)))"
proof -
  let ?N = "set (map ns_name (rs_sets (build_ruleset c ts o1 a hr)))"
  have t: "set (map ns_name (target_sets t)) \<subseteq> ?N" if "t \<in> set ts" for t
    unfolding build_set_names using that by auto
  have h: "host_split_active c \<Longrightarrow> set host_split_names \<subseteq> ?N"
    unfolding build_set_names by simp
  have "set (chain_sets (prerouting_rules c t)) \<subseteq> ?N" if "t \<in> set ts" for t
    using prerouting_sets t [OF that] by blast
  then show "set (chain_sets (rs_prerouting (build_ruleset c ts o1 a hr))) \<subseteq> ?N"
    by (simp only: build_ruleset_def Let_def ruleset.simps chain_sets_concat) blast
  assume "rs_output (build_ruleset c ts o1 a hr) = Some rs"
  then have rs: "rs = default_host_rules c @ concat (map (target_host_rules c) (filter host_enabled ts))"
    by (auto simp: build_ruleset_def Let_def split: if_splits)
  have 1: "set (chain_sets (default_host_rules c)) \<subseteq> ?N"
    using default_host_sets [of c] h by (auto split: if_splits simp del: set_map)
  have 2: "set (chain_sets (target_host_rules c u)) \<subseteq> ?N" if "u \<in> set (filter host_enabled ts)" for u
    using that target_host_sets [of u c] t [of u] by auto
  show "set (chain_sets rs) \<subseteq> ?N"
    unfolding rs chain_sets_simps set_append chain_sets_concat using 1 2 by blast
qed

end
