(* ===== verification/Nft_Refresh.thy ===== *)
theory Nft_Refresh
  imports Nft_Safety
begin

text \<open>
  The effect of the refresh script on the sets of the loaded table. The script is shown to be
  one flush-and-add block per static set of the full ruleset, so running it on a table with the
  same sets leaves every static set as a full load would and every dynamic set as it was.
\<close>

section \<open>The sets of the kernel\<close>

text \<open>
  A command on a set that does not exist fails, and a failing command undoes the whole script.
\<close>

type_synonym loaded_sets = "string \<Rightarrow> string set option"

fun run_refresh_command :: "refresh_command \<Rightarrow> loaded_sets \<Rightarrow> loaded_sets option" where
  "run_refresh_command (Flush_set n) tbl = (case tbl n of None \<Rightarrow> None | Some _ \<Rightarrow> Some (tbl(n \<mapsto> {})))"
| "run_refresh_command (Add_elements n xs) tbl =
     (case tbl n of None \<Rightarrow> None | Some ys \<Rightarrow> Some (tbl(n \<mapsto> ys \<union> set xs)))"

fun run_refresh :: "refresh_command list \<Rightarrow> loaded_sets \<Rightarrow> loaded_sets option" where
  "run_refresh [] tbl = Some tbl"
| "run_refresh (c # cs) tbl = (case run_refresh_command c tbl of None \<Rightarrow> None | Some tbl' \<Rightarrow> run_refresh cs tbl')"

definition is_static_name :: "string \<Rightarrow> bool" where
  "is_static_name n = (drop (length n - 7) n = ''_static'')"

lemma run_refresh_append:
  "run_refresh (xs @ ys) tbl = (case run_refresh xs tbl of None \<Rightarrow> None | Some t \<Rightarrow> run_refresh ys t)"
  by (induction xs arbitrary: tbl) (auto split: option.splits)

lemma run_refresh_set:
  "tbl n \<noteq> None \<Longrightarrow> run_refresh (refresh_set n xs) tbl = Some (tbl(n \<mapsto> set xs))"
  by (auto simp: refresh_set_def)

lemma run_refresh_blocks:
  assumes "distinct (map ns_name ss)" "\<forall>s \<in> set ss. tbl (ns_name s) \<noteq> None"
  shows "run_refresh (concat (map (\<lambda>s. refresh_set (ns_name s) (ns_elements s)) ss)) tbl
    = Some (\<lambda>n. case map_of (map (\<lambda>s. (ns_name s, set (ns_elements s))) ss) n of
        Some xs \<Rightarrow> Some xs | None \<Rightarrow> tbl n)"
  using assms
proof (induction ss arbitrary: tbl)
  case (Cons s ss)
  let ?t = "tbl(ns_name s \<mapsto> set (ns_elements s))"
  have "ns_name s \<notin> set (map ns_name ss)" using Cons.prems(1) by simp
  then have none: "map_of (map (\<lambda>s. (ns_name s, set (ns_elements s))) ss) (ns_name s) = None"
    by (auto simp: map_of_eq_None_iff)
  have "run_refresh (refresh_set (ns_name s) (ns_elements s)) tbl = Some ?t"
    by (rule run_refresh_set) (use Cons.prems in simp)
  moreover have "\<forall>q \<in> set ss. ?t (ns_name q) \<noteq> None" using Cons.prems by auto
  moreover have "distinct (map ns_name ss)" using Cons.prems by simp
  ultimately have "run_refresh (concat (map (\<lambda>s. refresh_set (ns_name s) (ns_elements s)) (s # ss))) tbl
      = Some (\<lambda>n. case map_of (map (\<lambda>s. (ns_name s, set (ns_elements s))) ss) n of
          Some xs \<Rightarrow> Some xs | None \<Rightarrow> ?t n)"
    using Cons.IH [of ?t] by (simp add: run_refresh_append del: fun_upd_apply)
  moreover have "(case map_of (map (\<lambda>s. (ns_name s, set (ns_elements s))) ss) n of Some xs \<Rightarrow> Some xs | None \<Rightarrow> ?t n)
      = (case map_of (map (\<lambda>s. (ns_name s, set (ns_elements s))) (s # ss)) n of Some xs \<Rightarrow> Some xs | None \<Rightarrow> tbl n)" for n
    using none by (cases "n = ns_name s") (simp_all cong: option.case_cong)
  ultimately show ?case by simp
qed simp

section \<open>The script is the static part of the ruleset\<close>

lemma is_static_set_name [simp]:
  "is_static_name (set_name p s ''_static'')" "\<not> is_static_name (set_name p s ''_dynamic'')"
  by (simp_all add: is_static_name_def set_name_def)

definition static_part :: "nft_set list \<Rightarrow> nft_set list" where
  "static_part ss = filter (\<lambda>s. is_static_name (ns_name s)) ss"

definition refresh_of :: "nft_set list \<Rightarrow> refresh_command list" where
  "refresh_of ss = concat (map (\<lambda>s. refresh_set (ns_name s) (ns_elements s)) (static_part ss))"

lemma refresh_of_append [simp]: "refresh_of (xs @ ys) = refresh_of xs @ refresh_of ys"
  by (simp add: refresh_of_def static_part_def)

lemma refresh_of_concat: "refresh_of (concat xss) = concat (map refresh_of xss)"
  by (induction xss) (simp_all add: refresh_of_def static_part_def)

lemma refresh_set_Nil [simp]: "refresh_set n [] = [Flush_set n]"
  by (simp add: refresh_set_def)

lemma profile_target_refresh:
  assumes "profile_target c w base q = Inr (Some t)"
  shows "target_refresh t = refresh_of (target_sets t)"
proof -
  note f = profile_target_fields [OF assms]
  have h: "host_enabled t = host_active c w q" by (rule profile_target_names [OF assms])
  show ?thesis
    by (simp add: target_refresh_def refresh_of_def static_part_def target_sets_def h static_set_def
        empty_set_def f opt_name_def)
qed

lemma default_target_refresh:
  "target_refresh (default_target c d rs ds) = refresh_of (target_sets (default_target c d rs ds))"
proof -
  have "is_static_name ''split_v4_static''" "is_static_name ''split_v6_static''"
    "\<not> is_static_name ''split_v4_dynamic''" "\<not> is_static_name ''split_v6_dynamic''"
    by (simp_all add: is_static_name_def)
  then show ?thesis
    by (simp add: target_refresh_def refresh_of_def static_part_def target_sets_def default_target_names(3)
        static_set_def empty_set_def) (simp add: default_target_def Let_def)
qed

lemma host_split_refresh:
  "refresh_set ''host_split_v4_static'' hr @ [Flush_set ''host_split_v6_static''] = refresh_of (host_split_sets hr)"
proof -
  have "is_static_name ''host_split_v4_static''" "is_static_name ''host_split_v6_static''"
    "\<not> is_static_name ''host_split_v4_dynamic''" "\<not> is_static_name ''host_split_v6_dynamic''"
    by (simp_all add: is_static_name_def)
  then show ?thesis
    by (simp add: refresh_of_def static_part_def host_split_sets_def static_set_def empty_set_def)
qed

lemma build_refresh_static:
  assumes "list_targets env c d w = Inr ts"
  shows "build_refresh c ts hr = refresh_of (rs_sets (build_ruleset c ts o1 a hr))"
  using assms
proof (rule list_targets_shape)
  fix routes domains rest qs base
  assume ts: "ts = default_target c d routes domains # rest"
    and l2: "list_all2 (\<lambda>q t. profile_target c w base q = Inr (Some t)) qs rest"
  have "map target_refresh rest = map (\<lambda>t. refresh_of (target_sets t)) rest"
  proof (rule map_cong [OF refl])
    fix t assume "t \<in> set rest"
    then obtain i where "i < length rest" "t = rest ! i" by (auto simp: in_set_conv_nth)
    with l2 have "profile_target c w base (qs ! i) = Inr (Some t)" by (auto simp: list_all2_conv_all_nth)
    then show "target_refresh t = refresh_of (target_sets t)" by (rule profile_target_refresh)
  qed
  then have rest: "concat (map target_refresh rest) = refresh_of (concat (map target_sets rest))"
    by (simp only: refresh_of_concat map_map comp_def)
  have "rs_sets (build_ruleset c ts o1 a hr) = target_sets (default_target c d routes domains)
      @ concat (map target_sets rest) @ (if host_split_active c then host_split_sets hr else [])"
    by (simp add: build_ruleset_def Let_def ts)
  moreover have "refresh_of [] = []" by (simp add: refresh_of_def static_part_def)
  ultimately show ?thesis
    by (simp add: build_refresh_def ts default_target_refresh rest host_split_refresh)
qed

lemma render_static_refresh_eq:
  assumes "render_ruleset env c outbound w = Inr r"
  shows "render_static_refresh env c outbound w = Inr (refresh_of (rs_sets r))"
  using assms
proof (rule render_ruleset_parts)
  fix ts outif a hr
  assume rt: "resolve_targets env c outbound w = Inr (ts, outif, a)" and lt: "list_targets env c outif w = Inr ts"
    and hr: "if host_split_active c then list_host_routes env c w = Inr hr else hr = []"
    and r: "r = build_ruleset c ts outif a hr"
  show ?thesis
    using hr build_refresh_static [OF lt, of hr outif a]
    by (cases "host_split_active c") (simp_all add: render_static_refresh_def rt r)
qed

lemma refresh_equals_full_load:
  assumes "render_ruleset env c outbound w = Inr r" "valid_app c"
    and "\<forall>s \<in> set (rs_sets r). tbl (ns_name s) \<noteq> None"
  shows "\<exists>cmds tbl'. render_static_refresh env c outbound w = Inr cmds \<and> run_refresh cmds tbl = Some tbl'
    \<and> (\<forall>s \<in> set (rs_sets r). is_static_name (ns_name s) \<longrightarrow> tbl' (ns_name s) = Some (set (ns_elements s)))
    \<and> (\<forall>n. \<not> is_static_name n \<longrightarrow> tbl' n = tbl n)"
proof -
  let ?ss = "static_part (rs_sets r)"
  let ?m = "map_of (map (\<lambda>s. (ns_name s, set (ns_elements s))) ?ss)"
  let ?t = "\<lambda>n. case ?m n of Some xs \<Rightarrow> Some xs | None \<Rightarrow> tbl n"
  have d: "distinct (map ns_name ?ss)"
    using set_names_distinct [OF assms(1,2)] by (simp add: static_part_def distinct_map_filter)
  have run: "run_refresh (refresh_of (rs_sets r)) tbl = Some ?t"
    unfolding refresh_of_def using assms(3) d by (intro run_refresh_blocks) (auto simp: static_part_def)
  have dm: "distinct (map fst (map (\<lambda>s. (ns_name s, set (ns_elements s))) ?ss))" using d by (simp add: comp_def)
  have "?t (ns_name s) = Some (set (ns_elements s))" if "s \<in> set (rs_sets r)" "is_static_name (ns_name s)" for s
  proof -
    have "(ns_name s, set (ns_elements s)) \<in> set (map (\<lambda>s. (ns_name s, set (ns_elements s))) ?ss)"
      using that by (auto simp: static_part_def)
    from map_of_is_SomeI [OF dm this] show ?thesis by simp
  qed
  moreover have "?t n = tbl n" if "\<not> is_static_name n" for n
  proof -
    have "?m n = None" using that by (auto simp: map_of_eq_None_iff static_part_def)
    then show ?thesis by simp
  qed
  ultimately show ?thesis using run render_static_refresh_eq [OF assms(1)] by blast
qed

end
