(* ===== verification/Policy_Routing.thy ===== *)
theory Policy_Routing
  imports Command Json_Text Config_App
begin

text \<open>
  \<open>services/policy_routing.py\<close>: the \<open>ip rule\<close> that sends marked packets to a target's own
  routing table, and the single default route of that table. Every operation is a sequence of
  unchecked \<open>ip\<close> commands; \<open>ensure\<close> is the one that may run at any time without opening a
  window in which the rule is missing.
\<close>

definition rule_priority :: int where
  "rule_priority = 100"

definition dry :: "bool \<Rightarrow> run_options" where
  "dry b = no_check\<lparr>o_dry_run := b\<rparr>"

definition rule_args :: "string \<Rightarrow> string \<Rightarrow> string \<Rightarrow> string list" where
  "rule_args verb fw tb = [''ip'', ''rule'', verb, ''fwmark'', fw, ''table'', tb, ''priority'', show_int rule_priority]"

definition route_args :: "string \<Rightarrow> string \<Rightarrow> string list" where
  "route_args dev tb = [''ip'', ''route'', ''replace'', ''default'', ''dev'', dev, ''table'', tb]"

definition flush_args :: "string \<Rightarrow> string list" where
  "flush_args tb = [''ip'', ''route'', ''flush'', ''table'', tb]"

definition list_rules_args :: "string list" where
  "list_rules_args = [''ip'', ''-j'', ''rule'', ''show'']"

definition delete_rule :: "env \<Rightarrow> string list \<Rightarrow> string \<Rightarrow> int \<Rightarrow> bool \<Rightarrow> (world, command_result list) action" where
  "delete_rule env sec fw table b =
     andthen (run_command env sec (rule_args ''del'' fw (show_int table)) (dry b)) (\<lambda>r. ret [r])"

definition device_or_default :: "app_config \<Rightarrow> string option \<Rightarrow> string" where
  "device_or_default c interface = (if is_set interface then the interface else up_interface (app_upstream c))"

definition policy_apply :: "env \<Rightarrow> string list \<Rightarrow> app_config \<Rightarrow> string \<Rightarrow> int \<Rightarrow> string option \<Rightarrow> bool
    \<Rightarrow> (world, command_result list) action" where
  "policy_apply env sec c fw table interface b =
     andthen (delete_rule env sec fw table b) (\<lambda>d.
     andthen (run_command env sec (rule_args ''add'' fw (show_int table)) (dry b)) (\<lambda>a.
     andthen (run_command env sec (route_args (device_or_default c interface) (show_int table)) (dry b)) (\<lambda>r.
     ret (d @ [a, r]))))"

text \<open>\<open>str(value)\<close> of a decoded value. The text of a list or dictionary begins with a bracket,
  so it is neither a number nor a table id; only that matters here.\<close>

fun py_str :: "json \<Rightarrow> string" where
  "py_str (JStr s) = s"
| "py_str (JInt i) = show_int i"
| "py_str (JBool b) = (if b then ''True'' else ''False'')"
| "py_str JNull = ''None''"
| "py_str (JList _) = ''[''"
| "py_str (JDict _) = ''{''"

definition rule_matches :: "int \<Rightarrow> string \<Rightarrow> json \<Rightarrow> bool" where
  "rule_matches expected tb rule = (is_dict rule \<and>
     (case json_get rule ''fwmark'' of None \<Rightarrow> False | Some JNull \<Rightarrow> False
      | Some m \<Rightarrow> py_int0 (py_str m) = Some expected) \<and>
     (case json_get rule ''table'' of None \<Rightarrow> [] | Some t \<Rightarrow> py_str t) = tb)"

definition rules_of_output :: "string \<Rightarrow> json option" where
  "rules_of_output out = json_loads (if out = [] then ''[]'' else out)"

definition rule_present :: "env \<Rightarrow> string list \<Rightarrow> string \<Rightarrow> int \<Rightarrow> (world, bool) action" where
  "rule_present env sec fw table =
     andthen (run_command env sec list_rules_args (no_check\<lparr>o_timeout := 5\<rparr>)) (\<lambda>r.
       if \<not> ok r then ret False
       else case rules_of_output (r_out r) of
         None \<Rightarrow> ret False
       | Some rules \<Rightarrow> (case py_int0 fw of
           None \<Rightarrow> throw ValueError
         | Some expected \<Rightarrow> (case rules of
             JList rs \<Rightarrow> ret (list_ex (rule_matches expected (show_int table)) rs)
           | JDict _ \<Rightarrow> ret False
           | JStr _ \<Rightarrow> ret False
           | _ \<Rightarrow> throw TypeError)))"

definition policy_ensure :: "env \<Rightarrow> string list \<Rightarrow> app_config \<Rightarrow> string \<Rightarrow> int \<Rightarrow> string option \<Rightarrow> bool
    \<Rightarrow> (world, command_result list) action" where
  "policy_ensure env sec c fw table interface b =
     andthen (rule_present env sec fw table) (\<lambda>present.
     andthen (if present then ret []
              else andthen (run_command env sec (rule_args ''add'' fw (show_int table)) (dry b)) (\<lambda>a. ret [a])) (\<lambda>rs.
     andthen (run_command env sec (route_args (device_or_default c interface) (show_int table)) (dry b)) (\<lambda>r.
     ret (rs @ [r]))))"

definition policy_cleanup :: "env \<Rightarrow> string list \<Rightarrow> string \<Rightarrow> int \<Rightarrow> bool \<Rightarrow> (world, command_result list) action" where
  "policy_cleanup env sec fw table b =
     andthen (delete_rule env sec fw table b) (\<lambda>d.
     andthen (run_command env sec (flush_args (show_int table)) (dry b)) (\<lambda>r.
     ret (d @ [r])))"

section \<open>Lemmas\<close>

definition runs_only :: "(string list \<Rightarrow> bool) \<Rightarrow> event \<Rightarrow> bool" where
  "runs_only P e = (case e of Ran argv _ \<Rightarrow> P argv | Stopped_child _ _ \<Rightarrow> True | _ \<Rightarrow> False)"

lemma runs_only_simps [simp]:
  "runs_only P (Ran argv i) = P argv" "runs_only P (Stopped_child argv s)"
  "\<not> runs_only P (Wrote p c m)" "\<not> runs_only P (Unlinked p)" "\<not> runs_only P (Slept n)"
  "\<not> runs_only P (Signalled n s)" "\<not> runs_only P (Fetched u)"
  by (simp_all add: runs_only_def)

lemma only_runs [emits_intros]: "P argv \<Longrightarrow> only_emits (runs_only P) (run_command env sec argv opts)"
  by (rule only_emits_run_command) simp_all

lemma only_runs_delete [emits_intros]:
  "P (rule_args ''del'' fw (show_int t)) \<Longrightarrow> only_emits (runs_only P) (delete_rule env sec fw t b)"
  unfolding delete_rule_def by (intro emits_intros)

lemma only_emits_json [emits_intros]:
  "(\<And>xs. only_emits P (f xs)) \<Longrightarrow> (\<And>xs. only_emits P (g xs)) \<Longrightarrow> (\<And>s. only_emits P (h s)) \<Longrightarrow>
   only_emits P i \<Longrightarrow> (\<And>b. only_emits P (k b)) \<Longrightarrow> (\<And>n. only_emits P (m n)) \<Longrightarrow>
   only_emits P (case j of JList xs \<Rightarrow> f xs | JDict xs \<Rightarrow> g xs | JStr s \<Rightarrow> h s | JNull \<Rightarrow> i | JBool b \<Rightarrow> k b | JInt n \<Rightarrow> m n)"
  by (cases j) auto

lemma only_runs_present [emits_intros]:
  "P list_rules_args \<Longrightarrow> only_emits (runs_only P) (rule_present env sec fw t)"
  unfolding rule_present_def by (intro emits_intros)

definition ensure_command :: "string \<Rightarrow> string \<Rightarrow> string \<Rightarrow> string list \<Rightarrow> bool" where
  "ensure_command fw tb dev argv = (argv = list_rules_args \<or> argv = rule_args ''add'' fw tb \<or> argv = route_args dev tb)"

lemma only_runs_ensure:
  "only_emits (runs_only (ensure_command fw (show_int t) (device_or_default c i))) (policy_ensure env sec c fw t i b)"
  unfolding policy_ensure_def by (intro emits_intros) (simp_all add: ensure_command_def)

lemma delete_not_ensure: "\<not> ensure_command fw tb dev (rule_args ''del'' fw' tb')"
  "\<not> ensure_command fw tb dev (flush_args tb')"
  by (simp_all add: ensure_command_def rule_args_def route_args_def list_rules_args_def flush_args_def)

text \<open>The unchecked runs never raise, so the three commands of \<open>policy_apply\<close> always run.\<close>

lemma show_int_nonempty [simp]: "show_int i \<noteq> []" "[] \<noteq> show_int i"
  using show_base_nonempty by (auto simp: show_int_def show_nat_def dest: sym)

lemma rule_args_ok: "verb \<noteq> [] \<Longrightarrow> fw \<noteq> [] \<Longrightarrow> tb \<noteq> [] \<Longrightarrow> rule_args verb fw tb \<noteq> [] \<and> [] \<notin> set (rule_args verb fw tb)"
  by (auto simp: rule_args_def)

lemma run_dry_returns:
  assumes "argv \<noteq> []" "[] \<notin> set argv"
  shows "\<exists>r w'. run_command env own argv (dry b) w = (Inr r, w')"
  by (rule run_unchecked_returns) (use assms in \<open>simp_all add: dry_def no_check_def default_options_def\<close>)

lemma policy_apply_returns:
  assumes "fw \<noteq> []" "device_or_default c i \<noteq> []"
  shows "\<exists>d a r w'. policy_apply env sec c fw t i b w = (Inr [d, a, r], w')"
proof -
  have n: "rule_args ''del'' fw (show_int t) \<noteq> [] \<and> [] \<notin> set (rule_args ''del'' fw (show_int t))"
    "rule_args ''add'' fw (show_int t) \<noteq> [] \<and> [] \<notin> set (rule_args ''add'' fw (show_int t))"
    using assms(1) by (simp_all add: rule_args_ok)
  have nr: "route_args (device_or_default c i) (show_int t) \<noteq> []"
    "[] \<notin> set (route_args (device_or_default c i) (show_int t))"
    using assms(2) by (auto simp: route_args_def)
  obtain d w1 where 1: "run_command env sec (rule_args ''del'' fw (show_int t)) (dry b) w = (Inr d, w1)"
    using run_dry_returns n by blast
  obtain a w2 where 2: "run_command env sec (rule_args ''add'' fw (show_int t)) (dry b) w1 = (Inr a, w2)"
    using run_dry_returns n by blast
  obtain r w3 where 3: "run_command env sec (route_args (device_or_default c i) (show_int t)) (dry b) w2 = (Inr r, w3)"
    using run_dry_returns nr by blast
  show ?thesis by (simp add: policy_apply_def delete_rule_def andthen_def ret_def 1 2 3)
qed

end
