(* ===== verification/Routing_Properties.thy ===== *)
theory Routing_Properties
  imports Nft_Refresh Policy_Routing Config_Properties
begin

text \<open>
  The properties of routing: the routing lists and their caches, the routing targets, the
  traffic guarantees of the rendered ruleset, the refresh script, the policy rules, and the
  routing data an upstream server pushes.
\<close>

text \<open>A packet that the kernel would send out by the uplink.\<close>

definition sample_packet :: packet where
  "sample_packet = \<lparr>pk_src_in = (\<lambda>n. n = ''10.10.10.0/24''), pk_dst_in = (\<lambda>_. False),
     pk_dst_set = (\<lambda>n. n \<in> {''split_v4_my_vpn_static'', ''host_v4_my_vpn_static''}), pk_v6 = False,
     pk_original = True, pk_oif = ''eth0''\<rparr>"

abbreviation sample_checked :: app_config where
  "sample_checked \<equiv> default_paths sample_app"

lemma sample_target_list:
  "\<exists>d t. list_targets sample_env sample_checked ''oc-middle0'' sample_world = Inr [d, t]
     \<and> in_target_sets sample_packet t \<and> t_name t \<noteq> ''default'' \<and> py_int0 (t_fwmark t) = Some 3075
     \<and> host_mark (build_ruleset sample_checked [d, t] ''oc-middle0'' True []) sample_packet = 3075"
proof -
  have "case list_targets sample_env sample_checked ''oc-middle0'' sample_world of
      Inl _ \<Rightarrow> False | Inr ts \<Rightarrow> length ts = 2 \<and>
        in_target_sets sample_packet (ts ! 1) \<and> t_name (ts ! 1) \<noteq> ''default'' \<and> py_int0 (t_fwmark (ts ! 1)) = Some 3075
     \<and> host_mark (build_ruleset sample_checked ts ''oc-middle0'' True []) sample_packet = 3075"
    by code_simp
  then show ?thesis
    by (cases "list_targets sample_env sample_checked ''oc-middle0'' sample_world")
      (auto simp: numeral_2_eq_2 length_Suc_conv)
qed

lemma sample_rendered:
  "\<exists>r. render_ruleset sample_env sample_checked None sample_world = Inr r \<and> client_mark r sample_packet = 3075"
proof -
  have "case render_ruleset sample_env sample_checked None sample_world of Inl _ \<Rightarrow> False
      | Inr r \<Rightarrow> client_mark r sample_packet = 3075"
    by code_simp
  then show ?thesis by (cases "render_ruleset sample_env sample_checked None sample_world") auto
qed

lemma sample_mark: "py_int0 (fwmark (app_routing sample_checked)) = Some 3073"
  by code_simp

lemma sample_target_facts: "upstream_active sample_checked"
  "rt_mode (app_routing sample_checked) = Full" "client_traffic (app_routing sample_checked)"
  "pk_src_in sample_packet (ipv4_network (app_server sample_checked))" "\<not> pk_v6 sample_packet"
  by code_simp+

section \<open>Client traffic\<close>

text \<open>
  C1. In full mode no IPv4 packet of a VPN client leaks: with an upstream active, every such
  packet is marked, and it either leaves by the tunnel device of the target whose mark it
  carries or the forward chain drops it.
\<close>

theorem full_mode_never_leaks:
  assumes "render_ruleset env c outbound w = Inr r" "valid_app c" "upstream_active c"
    and "py_int0 (fwmark (app_routing c)) = Some base" "0 < base"
    and "rt_mode (app_routing c) = Full" "client_traffic (app_routing c)"
    and "pk_src_in p (ipv4_network (app_server c))" "\<not> pk_v6 p"
  shows "client_mark r p \<noteq> 0 \<and> (\<exists>ts outif a t. resolve_targets env c outbound w = Inr (ts, outif, a) \<and> t \<in> set ts
    \<and> py_int0 (t_fwmark t) = Some (client_mark r p)
    \<and> (pk_oif p = t_interface t \<or> chain_drops p (client_mark r p) (rs_forward r)))"
proof -
  have "client_mark r p \<noteq> 0" by (rule full_mode_marks [OF assms(1,2,4-9)])
  with client_traffic_contained [OF assms(1,3) refl this] show ?thesis by blast
qed

theorem full_mode_never_leaks_witness:
  "\<exists>r. render_ruleset sample_env sample_checked None sample_world = Inr r \<and> client_mark r sample_packet \<noteq> 0"
proof -
  obtain r where r: "render_ruleset sample_env sample_checked None sample_world = Inr r"
    using sample_rendered by blast
  from full_mode_never_leaks [OF r sample_app_valid sample_target_facts(1) sample_mark _ sample_target_facts(2-5)] r
  show ?thesis by simp
qed

text \<open>
  C2. In every mode, a client packet that carries a mark carries that of a routing target, and
  leaves by no device but that target's while an upstream is active.
\<close>

theorem marked_traffic_is_contained:
  assumes "render_ruleset env c outbound w = Inr r" "upstream_active c" "client_mark r p \<noteq> 0"
  shows "\<exists>ts outif a t. resolve_targets env c outbound w = Inr (ts, outif, a) \<and> t \<in> set ts
    \<and> py_int0 (t_fwmark t) = Some (client_mark r p)
    \<and> (pk_oif p = t_interface t \<or> chain_drops p (client_mark r p) (rs_forward r))"
  by (rule client_traffic_contained [OF assms(1,2) refl assms(3)])

theorem marked_traffic_is_contained_witness:
  "\<exists>r (t :: routing_target). render_ruleset sample_env sample_checked None sample_world = Inr r
     \<and> py_int0 (t_fwmark t) = Some 3075
     \<and> (pk_oif sample_packet = t_interface t \<or> chain_drops sample_packet 3075 (rs_forward r))"
proof -
  obtain r where r: "render_ruleset sample_env sample_checked None sample_world = Inr r"
    "client_mark r sample_packet = 3075" using sample_rendered by blast
  then have "client_mark r sample_packet \<noteq> 0" by simp
  from marked_traffic_is_contained [OF r(1) sample_target_facts(1) this] r(1) show ?thesis
    unfolding r(2) by blast
qed

text \<open>
  A named target overrides the default and every target before it: a client packet whose
  destination is in its sets, and in those of no later target, carries exactly its mark.
\<close>

theorem later_target_wins:
  assumes "list_targets env c d w = Inr ts" "tl ts = before @ t # after"
    and "in_target_sets p t" "\<forall>u \<in> set after. \<not> in_target_sets p u" "t_name t \<noteq> ''default''"
    and "py_int0 (t_fwmark t) = Some m"
  shows "client_mark (build_ruleset c ts outif a hr) p = m"
  by (rule named_target_wins [OF assms])

theorem later_target_wins_witness:
  "\<exists>ts. list_targets sample_env sample_checked ''oc-middle0'' sample_world = Inr ts
     \<and> client_mark (build_ruleset sample_checked ts ''oc-middle0'' True []) sample_packet = 3075"
proof -
  obtain d t where "list_targets sample_env sample_checked ''oc-middle0'' sample_world = Inr [d, t]"
    "in_target_sets sample_packet t" "t_name t \<noteq> ''default''" "py_int0 (t_fwmark t) = Some 3075"
    using sample_target_list by blast
  then show ?thesis using later_target_wins [of _ _ _ _ "[d, t]" "[]" t "[]"] by fastforce
qed

section \<open>The host's own traffic\<close>

text \<open>
  C26. The kill switch of the host's own traffic: with an upstream active, a marked packet of
  the host that does not stay on the host leaves by the device of a target it was marked for,
  or by the outbound device when the default mark applies to host traffic, or it is dropped.
\<close>

theorem marked_host_traffic_is_contained:
  assumes "r = build_ruleset c ts outif True hr" "host_mark r p \<noteq> 0" "pk_oif p \<noteq> ''lo''"
  shows "(\<exists>t \<in> set ts. host_enabled t \<and> py_int0 (t_fwmark t) = Some (host_mark r p)
            \<and> (pk_oif p = t_interface t \<or> chain_drops p (host_mark r p) (rs_postrouting r)))
       \<or> py_int0 (fwmark (app_routing c)) = Some (host_mark r p) \<and> host_traffic (app_routing c)
            \<and> (pk_oif p = outif \<or> chain_drops p (host_mark r p) (rs_postrouting r))"
  by (rule host_traffic_contained [OF assms(1) TrueI refl assms(2,3)])

theorem marked_host_traffic_is_contained_witness:
  "\<exists>d t. (host_enabled d \<or> host_enabled t \<or> host_traffic (app_routing sample_checked))
     \<and> host_mark (build_ruleset sample_checked [d, t] ''oc-middle0'' True []) sample_packet = 3075"
proof -
  obtain d t where h: "host_mark (build_ruleset sample_checked [d, t] ''oc-middle0'' True []) sample_packet = 3075"
    using sample_target_list by blast
  then have "host_mark (build_ruleset sample_checked [d, t] ''oc-middle0'' True []) sample_packet \<noteq> 0" by simp
  from marked_host_traffic_is_contained [OF refl this] h show ?thesis
    by (auto simp: sample_packet_def)
qed

section \<open>Targets\<close>

text \<open>
  The routing targets of an accepted configuration have pairwise different routing tables,
  and marks that are pairwise different numbers.
\<close>

theorem targets_are_separate:
  assumes "valid_app c" "list_targets env c d w = Inr ts"
    and "py_int0 (fwmark (app_routing c)) = Some base" "0 < base"
  shows "distinct (map t_table_id ts) \<and> distinct (map (\<lambda>t. py_int0 (t_fwmark t)) ts)
    \<and> (\<forall>t \<in> set ts. py_int0 (t_fwmark t) \<noteq> None)"
  using list_targets_tables [OF assms(1,2)] list_targets_marks [OF assms] by blast

theorem targets_are_separate_witness:
  "\<exists>d t. list_targets sample_env sample_checked ''oc-middle0'' sample_world = Inr [d, t] \<and> t_table_id d \<noteq> t_table_id t"
proof -
  obtain d t where l: "list_targets sample_env sample_checked ''oc-middle0'' sample_world = Inr [d, t]"
    using sample_target_list by blast
  from targets_are_separate [OF sample_app_valid l sample_mark] l show ?thesis by auto
qed

text \<open>
  C4. The rendered ruleset declares its sets under distinct names, which are exactly the names
  the service expects in the kernel, and no rule of its marking chains reads a set that is not
  declared.
\<close>

theorem ruleset_sets_are_consistent:
  assumes "render_ruleset env c outbound w = Inr r" "valid_app c"
  shows "distinct (map ns_name (rs_sets r))
    \<and> expected_set_names env c outbound w = Inr (set (map ns_name (rs_sets r)))
    \<and> set (chain_sets (rs_prerouting r @ (case rs_output r of None \<Rightarrow> [] | Some rs \<Rightarrow> rs)))
        \<subseteq> set (map ns_name (rs_sets r))"
  using assms(1)
proof (rule render_ruleset_parts)
  fix ts outif a hr
  assume r: "r = build_ruleset c ts outif a hr"
  have "set (chain_sets (rs_prerouting r @ (case rs_output r of None \<Rightarrow> [] | Some rs \<Rightarrow> rs)))
        \<subseteq> set (map ns_name (rs_sets r))"
    using rule_sets_declared(1) [of c ts outif a hr] rule_sets_declared(2) [of c ts outif a hr]
    unfolding r by (auto simp del: set_map split: option.split)
  then show ?thesis using set_names_distinct [OF assms] set_names_as_expected [OF assms(1)] by blast
qed

theorem ruleset_sets_are_consistent_witness:
  "\<exists>r. render_ruleset sample_env sample_checked None sample_world = Inr r \<and> distinct (map ns_name (rs_sets r))"
proof -
  obtain r where r: "render_ruleset sample_env sample_checked None sample_world = Inr r"
    using sample_rendered by blast
  from ruleset_sets_are_consistent [OF r sample_app_valid] r show ?thesis by blast
qed

text \<open>
  C3. A refresh does what a full load would do to the configured sets and nothing else: on a
  kernel that has the sets of the ruleset the script succeeds, leaves each static set with
  exactly the elements the full ruleset gives it, and leaves every other set, the dynamic ones
  among them, as it was.
\<close>

theorem refresh_matches_full_load:
  assumes "render_ruleset env c outbound w = Inr r" "valid_app c"
    and "\<forall>s \<in> set (rs_sets r). tbl (ns_name s) \<noteq> None"
  shows "\<exists>cmds tbl'. render_static_refresh env c outbound w = Inr cmds \<and> run_refresh cmds tbl = Some tbl'
    \<and> (\<forall>s \<in> set (rs_sets r). is_static_name (ns_name s) \<longrightarrow> tbl' (ns_name s) = Some (set (ns_elements s)))
    \<and> (\<forall>n. \<not> is_static_name n \<longrightarrow> tbl' n = tbl n)"
  by (rule refresh_equals_full_load [OF assms])

theorem refresh_matches_full_load_witness:
  "\<exists>cmds tbl'. render_static_refresh sample_env sample_checked None sample_world = Inr cmds
     \<and> run_refresh cmds (\<lambda>_. Some {''192.0.2.1''}) = Some tbl'
     \<and> tbl' ''split_v4_dynamic'' = Some {''192.0.2.1''}"
proof -
  obtain r where "render_ruleset sample_env sample_checked None sample_world = Inr r"
    using sample_rendered by blast
  moreover have "\<not> is_static_name ''split_v4_dynamic''" by (simp add: is_static_name_def)
  ultimately show ?thesis
    using refresh_matches_full_load [OF _ sample_app_valid, of sample_env None sample_world r "\<lambda>_. Some {''192.0.2.1''}"]
    by blast
qed

section \<open>The routing lists\<close>

text \<open>
  The normal form of a route is a route in normal form, safe to store as a line of its own,
  and denotes the same network or address as what was entered.
\<close>

theorem route_normal_form:
  assumes "clean_entry v" "normalize_route v = Inr n"
  shows "clean_entry n \<and> normalize_route n = Inr n
    \<and> (if CHR ''/'' \<in> set v then ip_network False n = ip_network False v else ip_address n = ip_address v)"
proof -
  have "if CHR ''/'' \<in> set v then ip_network False n = ip_network False v else ip_address n = ip_address v"
  proof (cases "CHR ''/'' \<in> set v")
    case True
    with assms(2) obtain m where "ip_network False v = Inr m" "n = show_net m"
      by (auto simp: normalize_route_def split: sum.splits)
    with True show ?thesis by (simp add: ip_network_canonical)
  next
    case False
    with assms(2) obtain a where "ip_address v = Some a" "n = show_ip a"
      by (auto simp: normalize_route_def split: option.splits)
    with False show ?thesis by (simp add: ip_address_canonical)
  qed
  with route_list.canonical [OF assms] show ?thesis by blast
qed

theorem route_normal_form_witness:
  "ip_network False ''10.1.2.0/24'' = ip_network False ''10.1.2.3/255.255.255.0''"
proof -
  have "clean_entry ''10.1.2.3/255.255.255.0''" by code_simp
  moreover have "normalize_route ''10.1.2.3/255.255.255.0'' = Inr ''10.1.2.0/24''" by code_simp
  ultimately show ?thesis using route_normal_form [of "''10.1.2.3/255.255.255.0''" "''10.1.2.0/24''"] by simp
qed

text \<open>
  Adding a route puts its normal form among the entries of the routes file and deleting it
  takes it out; no other entry and no other file changes; a value that is not a route is
  refused and changes nothing.
\<close>

theorem editing_routes:
  assumes "clean_entry v"
  shows "case normalize_route v of
      Inl e \<Rightarrow> add_route c v w = (Inl e, w) \<and> delete_route c v w = (Inl e, w)
    | Inr n \<Rightarrow> (\<exists>wa wd. add_route c v w = (Inr (), wa) \<and> delete_route c v w = (Inr (), wd)
        \<and> set (entries_at (routes_file (rt_split (app_routing c))) wa)
            = insert n (set (entries_at (routes_file (rt_split (app_routing c))) w))
        \<and> set (entries_at (routes_file (rt_split (app_routing c))) wd)
            = set (entries_at (routes_file (rt_split (app_routing c))) w) - {n}
        \<and> (\<forall>q. q \<noteq> routes_file (rt_split (app_routing c)) \<longrightarrow> files wa q = files w q \<and> files wd q = files w q))"
proof (cases "normalize_route v")
  case (Inl e)
  then show ?thesis by (simp add: add_route_def delete_route_def result_simps)
next
  case (Inr n)
  let ?f = "routes_file (rt_split (app_routing c))"
  obtain r wa where a: "add_line ?f n w = (r, wa)" by (cases "add_line ?f n w")
  obtain r' wd where d: "delete_line ?f n w = (r', wd)" by (cases "delete_line ?f n w")
  have "clean_entry n" using route_list.canonical [OF assms Inr] by blast
  note e = add_line_entries [OF a this] delete_line_entries [OF d]
  have "add_route c v w = (r, wa)" "delete_route c v w = (r', wd)"
    using a d Inr by (simp_all add: add_route_def delete_route_def result_simps)
  then show ?thesis
    using e add_line_others [OF a] delete_line_others [OF d] Inr by simp
qed

theorem editing_routes_witness:
  "\<exists>w. add_route sample_app ''192.0.2.9'' sample_world = (Inr (), w)
     \<and> ''192.0.2.9'' \<in> set (entries_at ''/var/lib/korserver/routes.txt'' w)"
proof -
  have "clean_entry ''192.0.2.9''" "normalize_route ''192.0.2.9'' = Inr ''192.0.2.9''" by code_simp+
  with editing_routes [of "''192.0.2.9''" sample_app sample_world] show ?thesis
    by (auto simp: sample_app_def defaults)
qed

text \<open>
  Reading an external list of routes is tolerant: it yields the normal forms of the entry
  lines that have one, once each and in order, counts the entry lines and those without, and
  fails only when there are more than the limit.
\<close>

theorem route_list_parse:
  "parse_list_text normalize_route t =
     (let ns = normal_forms normalize_route (candidates (splitlines t)) in
      if max_list_entries < length (uniq [] ns) then Inl ValueError
      else Inr \<lparr>lp_items = uniq [] ns, lp_total = length (candidates (splitlines t)),
                 lp_skipped = length (candidates (splitlines t)) - length ns\<rparr>)"
  by (simp add: route_list.parse_list_text_spec list_spec_def Let_def)

text \<open>
  Refreshing a list from its address: an address that is not configured is refused without
  a download; a refresh that fails, and a preview, leave every file as it was; and after one
  that succeeds the cached list reads back with as many entries as the result reports.
\<close>

theorem refreshing_a_route_list:
  "(url \<notin> set (routes_urls (rt_split (app_routing c))) \<longrightarrow>
      refresh_route_url env c url preview w = (Inl ValueError, w))
   \<and> (\<forall>r w'. refresh_route_url env c url preview w = (r, w') \<longrightarrow> preview \<or> (\<exists>e. r = Inl e) \<longrightarrow> files w' = files w)
   \<and> (\<forall>res w'. refresh_route_url env c url False w = (Inr res, w') \<longrightarrow>
      (\<exists>items. fst (cached_items env (routing_cache_dir c ''route-urls'') normalize_route url w') = Inr items
        \<and> length items = lf_valid res \<and> items \<noteq> [] \<and> distinct items))"
proof (cases "url \<in> set (routes_urls (rt_split (app_routing c)))")
  case True
  then have e: "refresh_route_url env c url b = refresh env (routing_cache_dir c ''route-urls'') normalize_route url b" for b
    by (simp add: refresh_route_url_def refresh_listed_url_def)
  show ?thesis
    using True refresh_error_keeps_files refresh_preview_keeps_files route_list.refresh_then_cached
    unfolding e by (metis fst_conv)
next
  case False
  then have "refresh_route_url env c url b w = (Inl ValueError, w)" for b
    by (simp add: refresh_route_url_def refresh_listed_url_def throw_def)
  with False show ?thesis by simp
qed

definition sample_listing :: app_config where
  "sample_listing = sample_app\<lparr>app_routing := default_routing\<lparr>rt_split :=
     default_split\<lparr>routes_urls := [''http://a.example/l'']\<rparr>\<rparr>\<rparr>"

theorem refreshing_a_route_list_witness:
  "\<exists>w items. fst (cached_items (serving_env ''192.0.2.0/24 x'') (routing_cache_dir sample_listing ''route-urls'')
     normalize_route ''http://a.example/l'' w) = Inr items \<and> length items = 1"
proof -
  let ?r = "refresh_route_url (serving_env ''192.0.2.0/24 x'') sample_listing ''http://a.example/l'' False sample_world"
  have "http_url_ok ''http://a.example/l''" by code_simp
  moreover have "parse_list_text normalize_route ''192.0.2.0/24 x''
      = Inr \<lparr>lp_items = [''192.0.2.0/24''], lp_total = 1, lp_skipped = 0\<rparr>"
  proof -
    have c: "candidates (splitlines ''192.0.2.0/24 x'') = [''192.0.2.0/24'']" by code_simp
    have "normalize_route ''192.0.2.0/24'' = Inr ''192.0.2.0/24''" by code_simp
    then show ?thesis
      by (simp add: route_list.parse_list_text_spec list_spec_def c Let_def max_list_entries_def)
  qed
  ultimately have "\<exists>res w'. ?r = (Inr res, w') \<and> lf_valid res = 1"
    by (simp add: refresh_route_url_def refresh_listed_url_def sample_listing_def refresh_def fetch_url_text_def
        result_simps serving_env_def sample_env_def default_split_def write_unique_lines_def
        atomic_write_text_def max_list_bytes_def)
  then obtain res w' where "?r = (Inr res, w')" "lf_valid res = 1" by blast
  with refreshing_a_route_list [of "''http://a.example/l''" sample_listing "serving_env ''192.0.2.0/24 x''" False sample_world]
  show ?thesis by metis
qed

section \<open>Policy rules\<close>

text \<open>
  Re-asserting the policy rules on a running system never takes anything away: whatever the
  commands answer, it only lists the rules, adds the one rule of this target, and replaces the
  default route of its table.
\<close>

theorem ensure_never_deletes:
  "\<forall>e \<in> set (new_events w (snd (policy_ensure env sec c fw t i b w))).
     case e of Ran argv _ \<Rightarrow> argv \<in> {list_rules_args, rule_args ''add'' fw (show_int t),
                 route_args (device_or_default c i) (show_int t)}
     | Stopped_child _ _ \<Rightarrow> True | _ \<Rightarrow> False"
proof -
  have "emits (runs_only (ensure_command fw (show_int t) (device_or_default c i))) w
      (snd (policy_ensure env sec c fw t i b w))"
    using only_runs_ensure unfolding only_emits_def by blast
  then show ?thesis
    by (auto simp: emits_def runs_only_def ensure_command_def split: event.splits)
qed

theorem ensure_never_deletes_witness:
  "Ran (rule_args ''del'' ''0x1'' ''5'') None \<notin>
     set (new_events sample_world (snd (policy_ensure sample_env [] sample_app ''0x1'' 5 None False sample_world)))"
  using ensure_never_deletes [of sample_world sample_env "[]" sample_app "''0x1''" 5 None False]
  by (auto simp: list_rules_args_def rule_args_def route_args_def)

section \<open>Pushed routing data\<close>

text \<open>
  What the store of pushed routing data saves it loads again unchanged, and the data of a
  new handshake keeps the time of the last synchronisation, so reconnecting does not bring the
  next one forward.
\<close>

theorem pushed_store_round_trip:
  "load_pushed c p (snd (save_pushed c p r w)) = r
   \<and> load_pushed c p (snd (save_handshake c p r w)) = r\<lparr>pr_synced_at := pr_synced_at (load_pushed c p w)\<rparr>"
proof -
  have "save_pushed c p x w = (Inr (), snd (save_pushed c p x w))" for x
    by (simp add: save_pushed_def atomic_write_text_def)
  moreover from this have "save_handshake c p r w = (Inr (), snd (save_handshake c p r w))"
    by (simp add: save_handshake_def result_simps)
  ultimately show ?thesis using load_save_pushed save_handshake_keeps_pacing by blast
qed

text \<open>
  The lists of a synchronisation answer are the normal forms of its routes and domains, each
  once and in order; entries that are not strings or have no normal form are skipped, and an
  answer that is not an object is refused. The stored routes are all valid networks.
\<close>

theorem sync_payload_lists:
  "parse_sync_payload py_repr j =
     (case j of
        JDict kvs \<Rightarrow> Inr (uniq [] (collected pushed_normalize_route (payload_strings j ''routes'')),
           uniq [] (collected pushed_normalize_domain (payload_strings j ''split_dns'')),
           (case map_of kvs ''version'' of None \<Rightarrow> []
            | Some v \<Rightarrow> if truthy v then version_text py_repr v else []))
      | _ \<Rightarrow> Inl ValueError)
   \<and> (\<forall>r \<in> set (collected pushed_normalize_route (payload_strings j ''routes'')).
        \<exists>n. wf_net n \<and> r = show_net n \<and> ip_network False r = Inr n)"
proof
  show "parse_sync_payload py_repr j = (case j of
        JDict kvs \<Rightarrow> Inr (uniq [] (collected pushed_normalize_route (payload_strings j ''routes'')),
           uniq [] (collected pushed_normalize_domain (payload_strings j ''split_dns'')),
           (case map_of kvs ''version'' of None \<Rightarrow> []
            | Some v \<Rightarrow> if truthy v then version_text py_repr v else []))
      | _ \<Rightarrow> Inl ValueError)"
    using parse_sync_payload_eq by (cases j) (auto simp: parse_sync_payload_def)
  show "\<forall>r \<in> set (collected pushed_normalize_route (payload_strings j ''routes'')).
      \<exists>n. wf_net n \<and> r = show_net n \<and> ip_network False r = Inr n"
    using collected_mem pushed_route_canonical by meson
qed

theorem sync_payload_lists_witness:
  "parse_sync_payload (\<lambda>_. []) (JDict [(''routes'', JList [JStr '' 192.0.2.1/24'', JInt 1])]) = Inr ([''192.0.2.0/24''], [], [])"
proof -
  let ?j = "JDict [(''routes'', JList [JStr '' 192.0.2.1/24'', JInt 1])]"
  have p: "payload_strings ?j ''routes'' = ['' 192.0.2.1/24'']" "payload_strings ?j ''split_dns'' = []"
    by (simp_all add: payload_strings_def json_get_def)
  have "collected pushed_normalize_route ['' 192.0.2.1/24''] = [''192.0.2.0/24'']"
    "collected pushed_normalize_domain [] = []" by code_simp+
  then have "uniq [] (collected pushed_normalize_route (payload_strings ?j ''routes'')) = [''192.0.2.0/24'']"
    "uniq [] (collected pushed_normalize_domain (payload_strings ?j ''split_dns'')) = []"
    by (simp_all only: p) simp_all
  moreover have "map_of [(''routes'', JList [JStr '' 192.0.2.1/24'', JInt 1])] ''version'' = None" by simp
  ultimately show ?thesis
    using conjunct1 [OF sync_payload_lists [of "\<lambda>_. []" ?j]] by (simp only: json.case option.case)
qed

end
