(* ===== verification/Nftables_Service.thy ===== *)
theory Nftables_Service
  imports Nft_Refresh Policy_Routing "HOL-Library.AList"
begin

text \<open>
  \<open>services/nftables.py\<close>: loading or refreshing the ruleset, re-asserting the policy rules of
  every target, cleaning up after targets that are gone, the rules that let client traffic
  through Docker's forward chain, and removal. How a ruleset prints is the template engine's
  work and a parameter.
\<close>

record printer =
  print_ruleset :: "app_config \<Rightarrow> ruleset \<Rightarrow> string"
  print_refresh :: "app_config \<Rightarrow> refresh_command list \<Rightarrow> string"

definition filter_table :: "app_config \<Rightarrow> string" where
  "filter_table c = nft_prefix (app_routing c) @ ''_filter''"

definition nat_table :: "app_config \<Rightarrow> string" where
  "nat_table c = nft_prefix (app_routing c) @ ''_nat''"

definition target_path :: "app_config \<Rightarrow> string" where
  "target_path c = generated_path c ''nftables.nft''"

definition static_refresh_path :: "app_config \<Rightarrow> string" where
  "static_refresh_path c = generated_path c ''nftables-static-refresh.nft''"

definition targets_state_path :: "app_config \<Rightarrow> string" where
  "targets_state_path c = path_join (generated_dir (app_system c)) ''.routing_targets.json''"

definition nft_load_args :: "string \<Rightarrow> string list" where
  "nft_load_args p = [''nft'', ''-f'', p]"

definition nft_probe_args :: "app_config \<Rightarrow> string list" where
  "nft_probe_args c = [''nft'', ''-j'', ''list'', ''table'', ''inet'', filter_table c]"

section \<open>Is the loaded table the expected one?\<close>

text \<open>\<open>item['set']['name']\<close> of the entries that have a set.\<close>

definition set_name_of_item :: "json \<Rightarrow> json option result" where
  "set_name_of_item item =
     (if \<not> is_dict item then Inr None
      else case json_get item ''set'' of
        None \<Rightarrow> Inr None
      | Some (JDict kvs) \<Rightarrow> (case map_of kvs ''name'' of None \<Rightarrow> Inl KeyError | Some n \<Rightarrow> Inr (Some n))
      | Some _ \<Rightarrow> Inl TypeError)"

text \<open>A list or dictionary cannot be a member of a set.\<close>

fun hashable :: "json \<Rightarrow> bool" where
  "hashable (JList _) = False"
| "hashable (JDict _) = False"
| "hashable _ = True"

definition loaded_set_names :: "json \<Rightarrow> json list result" where
  "loaded_set_names data = (case data of
      JDict kvs \<Rightarrow> (case map_of kvs ''nftables'' of
          None \<Rightarrow> Inr []
        | Some (JList items) \<Rightarrow> res_bind (res_map set_name_of_item items) (\<lambda>ns.
            if list_all hashable (some_values ns) then Inr (some_values ns) else Inl TypeError)
        | Some (JStr _) \<Rightarrow> Inr []
        | Some (JDict _) \<Rightarrow> Inr []
        | Some _ \<Rightarrow> Inl TypeError)
    | _ \<Rightarrow> Inl AttributeError)"

definition static_sets_ready :: "env \<Rightarrow> string list \<Rightarrow> app_config \<Rightarrow> string option \<Rightarrow> (world, bool) action" where
  "static_sets_ready env sec c outbound =
     andthen current (\<lambda>w.
     andthen (lift_result (expected_set_names env c outbound w)) (\<lambda>expected.
     andthen (run_command env sec (nft_probe_args c) (no_check\<lparr>o_timeout := 10\<rparr>)) (\<lambda>probe.
       if \<not> ok probe then ret False
       else case json_loads (r_out probe) of
         None \<Rightarrow> ret False
       | Some data \<Rightarrow> andthen (lift_result (loaded_set_names data)) (\<lambda>names.
           ret (set names = JStr ` expected)))))"

section \<open>Loading\<close>

definition apply_static_refresh :: "env \<Rightarrow> string list \<Rightarrow> printer \<Rightarrow> app_config \<Rightarrow> string option
    \<Rightarrow> (world, command_result) action" where
  "apply_static_refresh env sec pr c outbound =
     andthen current (\<lambda>w.
     andthen (lift_result (render_static_refresh env c outbound w)) (\<lambda>cmds.
     andthen (atomic_write_text (static_refresh_path c) (print_refresh pr c cmds) 420) (\<lambda>_.
     run_command env sec (nft_load_args (static_refresh_path c)) no_check)))"

definition apply_full_recreate :: "env \<Rightarrow> string list \<Rightarrow> printer \<Rightarrow> app_config \<Rightarrow> string option
    \<Rightarrow> (world, command_result) action" where
  "apply_full_recreate env sec pr c outbound =
     andthen current (\<lambda>w.
     andthen (lift_result (render_ruleset env c outbound w)) (\<lambda>r.
     andthen (atomic_write_text (target_path c) (print_ruleset pr c r) 420) (\<lambda>_.
     run_command env sec (nft_load_args (target_path c)) no_check)))"

definition apply_ruleset :: "env \<Rightarrow> string list \<Rightarrow> printer \<Rightarrow> app_config \<Rightarrow> string option
    \<Rightarrow> (world, command_result) action" where
  "apply_ruleset env sec pr c outbound =
     andthen (static_sets_ready env sec c outbound) (\<lambda>ready.
       if ready
       then andthen (apply_static_refresh env sec pr c outbound) (\<lambda>r.
              if ok r then ret r else apply_full_recreate env sec pr c outbound)
       else apply_full_recreate env sec pr c outbound)"

section \<open>Policy rules of the targets\<close>

definition reassert_policy_routing :: "env \<Rightarrow> string list \<Rightarrow> app_config \<Rightarrow> routing_target list \<Rightarrow> bool
    \<Rightarrow> (world, command_result list) action" where
  "reassert_policy_routing env sec c targets b =
     (if \<not> up_enabled (app_upstream c) then ret []
      else andthen (action_map (\<lambda>t.
          if t_name t = ''default'' \<and> selected_profile (app_upstream c) = None then ret []
          else policy_apply env sec c (t_fwmark t) (t_table_id t) (Some (t_interface t)) b) targets)
        (\<lambda>rss. ret (concat rss)))"

text \<open>The targets of the previous apply, from the state file.\<close>

definition previous_targets :: "string option \<Rightarrow> (string \<times> json) list result" where
  "previous_targets content = (case content of
      None \<Rightarrow> Inr []
    | Some t \<Rightarrow> (case json_loads (read_text t) of
        None \<Rightarrow> Inr []
      | Some (JDict kvs) \<Rightarrow> Inr kvs
      | Some _ \<Rightarrow> Inl AttributeError))"

definition item_of :: "json \<Rightarrow> string \<Rightarrow> json result" where
  "item_of info k = (case info of
      JDict kvs \<Rightarrow> (case map_of kvs k of None \<Rightarrow> Inl KeyError | Some v \<Rightarrow> Inr v)
    | _ \<Rightarrow> Inl TypeError)"

definition cleanup_previous :: "env \<Rightarrow> string list \<Rightarrow> string set \<Rightarrow> string \<times> json
    \<Rightarrow> (world, command_result list) action" where
  "cleanup_previous env sec names entry = (case entry of (name, info) \<Rightarrow>
     if name \<in> names then ret []
     else andthen (lift_result (item_of info ''fwmark'')) (\<lambda>fw.
          andthen (lift_result (item_of info ''table_id'')) (\<lambda>tb.
          case py_int (py_str tb) of
            None \<Rightarrow> throw ValueError
          | Some table \<Rightarrow> policy_cleanup env sec (py_str fw) table False)))"

definition targets_document :: "routing_target list \<Rightarrow> json" where
  "targets_document targets = JDict (foldl (\<lambda>kvs t.
     AList.update (t_name t) (JDict [(''fwmark'', JStr (t_fwmark t)), (''table_id'', JInt (t_table_id t))]) kvs) []
     targets)"

definition cleanup_stale_targets :: "env \<Rightarrow> string list \<Rightarrow> app_config \<Rightarrow> routing_target list
    \<Rightarrow> (world, command_result list) action" where
  "cleanup_stale_targets env sec c targets =
     andthen (read_file (targets_state_path c)) (\<lambda>content.
     andthen (lift_result (previous_targets content)) (\<lambda>previous.
     andthen (action_map (cleanup_previous env sec (set (map t_name targets))) previous) (\<lambda>rss.
     andthen (atomic_write_text (targets_state_path c) (json_dumps_indent (targets_document targets) @ [LF]) 420) (\<lambda>_.
     ret (concat rss)))))"

section \<open>Docker's forward chain\<close>

definition docker_exprs :: "app_config \<Rightarrow> string list" where
  "docker_exprs c = (let network = ipv4_network (app_server c) in
     [''ip saddr '' @ network @ '' accept'', ''ip daddr '' @ network @ '' accept''])"

definition docker_list_args :: "string list" where
  "docker_list_args = [''nft'', ''list'', ''chain'', ''ip'', ''filter'', ''DOCKER-USER'']"

definition docker_handles_args :: "string list" where
  "docker_handles_args = [''nft'', ''-a'', ''list'', ''chain'', ''ip'', ''filter'', ''DOCKER-USER'']"

definition docker_insert_args :: "string \<Rightarrow> string list" where
  "docker_insert_args expr = [''nft'', ''insert'', ''rule'', ''ip'', ''filter'', ''DOCKER-USER''] @ split_ws expr"

definition docker_delete_args :: "string \<Rightarrow> string list" where
  "docker_delete_args handle = [''nft'', ''delete'', ''rule'', ''ip'', ''filter'', ''DOCKER-USER'', ''handle'', handle]"

definition quick :: "bool \<Rightarrow> run_options" where
  "quick b = no_check\<lparr>o_timeout := 10, o_dry_run := b\<rparr>"

definition ensure_docker_forward :: "env \<Rightarrow> string list \<Rightarrow> app_config \<Rightarrow> bool
    \<Rightarrow> (world, command_result list) action" where
  "ensure_docker_forward env sec c b =
     andthen (run_command env sec docker_list_args (quick b)) (\<lambda>chain.
       if b then ret [chain]
       else if \<not> ok chain then ret []
       else action_map (\<lambda>expr. run_command env sec (docker_insert_args expr) (quick False))
              (filter (\<lambda>expr. \<not> contains expr (r_out chain)) (docker_exprs c)))"

text \<open>\<open>_HANDLE_RE.search\<close>: the first hash sign from which the rest of the line is a handle.\<close>

definition handle_here :: "string \<Rightarrow> string option" where
  "handle_here s = (case s of [] \<Rightarrow> None
     | c # r \<Rightarrow> if c \<noteq> CHR ''#'' then None
         else (let r1 = dropWhile is_space r in
           if \<not> prefix ''handle'' r1 then None
           else (let r2 = drop 6 r1; r3 = dropWhile is_space r2; ds = takeWhile is_ascii_digit r3 in
             if r3 \<noteq> r2 \<and> ds \<noteq> [] \<and> dropWhile is_space (dropWhile is_ascii_digit r3) = [] then Some ds else None)))"

fun find_handle :: "string \<Rightarrow> string option" where
  "find_handle [] = None"
| "find_handle (c # r) = (case handle_here (c # r) of Some h \<Rightarrow> Some h | None \<Rightarrow> find_handle r)"

definition docker_handles :: "app_config \<Rightarrow> string \<Rightarrow> string list" where
  "docker_handles c out = some_values (map find_handle
     (filter (\<lambda>l. list_ex (\<lambda>expr. prefix expr l) (docker_exprs c)) (map strip (splitlines out))))"

definition remove_docker_forward :: "env \<Rightarrow> string list \<Rightarrow> app_config \<Rightarrow> bool
    \<Rightarrow> (world, command_result list) action" where
  "remove_docker_forward env sec c b =
     andthen (run_command env sec docker_handles_args (quick b)) (\<lambda>chain.
       if b then ret [chain]
       else if \<not> ok chain then ret []
       else action_map (\<lambda>h. run_command env sec (docker_delete_args h) (quick False)) (docker_handles c (r_out chain)))"

section \<open>The service\<close>

definition signal_note :: "int \<Rightarrow> string" where
  "signal_note rc = (if rc < 0 then
     [LF] @ ''nft exited from signal '' @ show_int \<bar>rc\<bar> @ ''. If this works on the host but ''
     @ ''fails in the container, the container nft userspace package may be ''
     @ ''incompatible with the host kernel/netfilter stack. Run the same command ''
     @ ''inside the container to verify it.'' else [])"

definition explain_apply_failure :: "command_result \<Rightarrow> command_result" where
  "explain_apply_failure r =
     (let err = rstrip_if is_space (r_err r) in
      r\<lparr>r_err := (if err \<noteq> [] then err else ''nft did not print an error message before failing.'')
          @ signal_note (r_code r)\<rparr>)"

definition applied_message :: "app_config \<Rightarrow> string" where
  "applied_message c = ''Applied korserver-owned nftables rules.'' @ [LF]
     @ ''- refreshed inet table: '' @ filter_table c @ [LF]
     @ ''- refreshed ip NAT table: '' @ nat_table c @ [LF]
     @ ''- VPN client routing, split-routing marks and masquerading now match the generated config.''"

definition report_applied :: "app_config \<Rightarrow> command_result \<Rightarrow> command_result" where
  "report_applied c r =
     (if ok r \<and> strip (r_out r) = [] then r\<lparr>r_out := applied_message c\<rparr>
      else if \<not> ok r then explain_apply_failure r else r)"

definition after_apply :: "env \<Rightarrow> string list \<Rightarrow> app_config \<Rightarrow> routing_target list
    \<Rightarrow> (world, command_result list) action" where
  "after_apply env sec c targets =
     andthen (reassert_policy_routing env sec c targets False) (\<lambda>p.
     andthen (cleanup_stale_targets env sec c targets) (\<lambda>s.
     andthen (ensure_docker_forward env sec c False) (\<lambda>d. ret (p @ s @ d))))"

definition nft_apply :: "env \<Rightarrow> string list \<Rightarrow> printer \<Rightarrow> app_config \<Rightarrow> bool \<Rightarrow> string option
    \<Rightarrow> (world, command_result list) action" where
  "nft_apply env sec pr c b outbound =
     andthen current (\<lambda>w.
     andthen (lift_result (resolve_targets env c outbound w)) (\<lambda>(targets, _, _).
       if b then
         andthen (lift_result (render_ruleset env c outbound w)) (\<lambda>r.
         andthen (reassert_policy_routing env sec c targets True) (\<lambda>p.
         andthen (ensure_docker_forward env sec c True) (\<lambda>d.
         ret (\<lparr>r_argv = nft_load_args (target_path c), r_code = 0, r_out = print_ruleset pr c r,
               r_err = [], r_dry = True\<rparr> # p @ d))))
       else
         andthen (apply_ruleset env sec pr c outbound) (\<lambda>applied.
         andthen (if ok applied then after_apply env sec c targets else ret []) (\<lambda>rest.
         ret (report_applied c applied # rest)))))"

definition nft_show :: "env \<Rightarrow> string list \<Rightarrow> app_config \<Rightarrow> (world, command_result) action" where
  "nft_show env sec c =
     andthen (run_command env sec [''nft'', ''list'', ''table'', ''inet'', filter_table c] no_check) (\<lambda>r.
       if ok r \<or> \<not> contains ''no such file'' (lower (r_err r)) then ret r
       else ret (r\<lparr>r_code := 0,
          r_out := ''project-owned nftables table is not installed yet; run korctl nft apply to create it'',
          r_err := []\<rparr>))"

definition nft_cleanup :: "env \<Rightarrow> string list \<Rightarrow> app_config \<Rightarrow> bool \<Rightarrow> (world, command_result list) action" where
  "nft_cleanup env sec c b =
     andthen (run_command env sec [''nft'', ''delete'', ''table'', ''inet'', filter_table c] (dry b)) (\<lambda>f.
     andthen (run_command env sec [''nft'', ''delete'', ''table'', ''ip'', nat_table c] (dry b)) (\<lambda>n.
     andthen (remove_docker_forward env sec c b) (\<lambda>ds. ret (f # n # ds))))"

section \<open>What an apply may do\<close>

definition policy_command :: "string list \<Rightarrow> bool" where
  "policy_command argv = (\<exists>verb fw tb dev. argv = rule_args verb fw tb \<and> verb \<in> {''add'', ''del''}
     \<or> argv = route_args dev tb \<or> argv = flush_args tb)"

definition load_command :: "app_config \<Rightarrow> string list \<Rightarrow> bool" where
  "load_command c argv = (argv \<in> {nft_probe_args c, nft_load_args (target_path c), nft_load_args (static_refresh_path c)})"

definition docker_command :: "app_config \<Rightarrow> string list \<Rightarrow> bool" where
  "docker_command c argv = (argv = docker_list_args \<or> argv \<in> docker_insert_args ` set (docker_exprs c))"

definition load_event :: "app_config \<Rightarrow> event \<Rightarrow> bool" where
  "load_event c e = (case e of Ran argv _ \<Rightarrow> load_command c argv | Stopped_child _ _ \<Rightarrow> True
     | Wrote p _ _ \<Rightarrow> p \<in> {target_path c, static_refresh_path c} | _ \<Rightarrow> False)"

definition apply_event :: "app_config \<Rightarrow> event \<Rightarrow> bool" where
  "apply_event c e = (load_event c e \<or> (case e of
       Ran argv _ \<Rightarrow> policy_command argv \<or> docker_command c argv
     | Wrote p _ _ \<Rightarrow> p = targets_state_path c | _ \<Rightarrow> False))"

lemma load_event_simps [simp]:
  "load_event c (Ran argv i) = load_command c argv" "load_event c (Stopped_child a s)"
  "load_event c (Wrote p t m) = (p \<in> {target_path c, static_refresh_path c})"
  "\<not> load_event c (Unlinked p)" "\<not> load_event c (Slept n)" "\<not> load_event c (Signalled n s)"
  "\<not> load_event c (Fetched u)"
  by (simp_all add: load_event_def)

lemma apply_event_simps [simp]:
  "apply_event c (Ran argv i) = (load_command c argv \<or> policy_command argv \<or> docker_command c argv)"
  "apply_event c (Stopped_child a s)"
  "apply_event c (Wrote p t m) = (p \<in> {target_path c, static_refresh_path c, targets_state_path c})"
  by (auto simp: apply_event_def)

lemma policy_commands [simp]:
  "policy_command (rule_args ''add'' fw tb)" "policy_command (rule_args ''del'' fw tb)"
  "policy_command (route_args dev tb)" "policy_command (flush_args tb)"
  by (auto simp: policy_command_def)

lemma only_load_apply_ruleset: "only_emits (load_event c) (apply_ruleset env sec pr c outbound)"
  unfolding apply_ruleset_def static_sets_ready_def apply_static_refresh_def apply_full_recreate_def
  by (intro emits_intros only_emits_run_command) (simp_all add: load_command_def)

lemma only_policy_apply: "only_emits (apply_event c) (policy_apply env sec c' fw t i b)"
  unfolding policy_apply_def delete_rule_def by (intro emits_intros only_emits_run_command) simp_all

lemma only_policy_cleanup: "only_emits (apply_event c) (policy_cleanup env sec fw t b)"
  unfolding policy_cleanup_def delete_rule_def by (intro emits_intros only_emits_run_command) simp_all

lemma only_cleanup_previous: "only_emits (apply_event c) (cleanup_previous env sec names entry)"
  unfolding cleanup_previous_def by (cases entry) (auto intro!: emits_intros only_policy_cleanup)

lemma only_docker: "only_emits (apply_event c) (ensure_docker_forward env sec c b)"
  unfolding ensure_docker_forward_def
  by (intro emits_intros only_emits_run_command) (auto simp: docker_command_def)

lemma only_reassert: "only_emits (apply_event c) (reassert_policy_routing env sec c targets b)"
  unfolding reassert_policy_routing_def by (intro emits_intros only_policy_apply)

lemma only_stale: "only_emits (apply_event c) (cleanup_stale_targets env sec c targets)"
  unfolding cleanup_stale_targets_def by (intro emits_intros only_cleanup_previous) simp_all

lemma only_nft_apply: "only_emits (apply_event c) (nft_apply env sec pr c b outbound)"
proof -
  have "only_emits (apply_event c) (apply_ruleset env sec pr c outbound)"
    using only_load_apply_ruleset by (rule only_emits_mono) (simp add: apply_event_def)
  then show ?thesis
    unfolding nft_apply_def after_apply_def
    by (auto intro!: emits_intros only_reassert only_docker only_stale split: prod.split)
qed

lemma delete_not_applied:
  "\<not> apply_event c (Ran (''nft'' # ''delete'' # args) i)"
  by (auto simp: load_command_def docker_command_def policy_command_def nft_probe_args_def nft_load_args_def
      docker_list_args_def docker_insert_args_def rule_args_def route_args_def flush_args_def)

lemma ok_report_applied: "ok (report_applied c r) = ok r"
  by (simp add: report_applied_def explain_apply_failure_def ok_def Let_def)

lemma failed_apply_only_loads:
  assumes "nft_apply env sec pr c False outbound w = (Inr (r # rs), w')" "\<not> ok r"
  shows "rs = [] \<and> emits (load_event c) w w'"
proof -
  from assms(1) obtain targets outif a applied w1 where
    ap: "apply_ruleset env sec pr c outbound w = (Inr applied, w1)" and r: "r = report_applied c applied"
    and rest: "(if ok applied then after_apply env sec c targets else ret []) w1 = (Inr rs, w')"
    by (auto simp: nft_apply_def result_simps split: sum.splits prod.splits)
  from assms(2) r have "\<not> ok applied" by (simp add: ok_report_applied)
  with rest have "rs = []" "w' = w1" by (auto simp: ret_def)
  with only_emitsD [OF only_load_apply_ruleset ap] show ?thesis by simp
qed

section \<open>Stale targets\<close>

lemma foldl_update_keys:
  "fst ` set (foldl (\<lambda>kvs t. AList.update (k t) (v t) kvs) kvs ts) = fst ` set kvs \<union> k ` set ts"
  by (induction ts arbitrary: kvs) (auto simp: dom_update)

lemma foldl_update_distinct:
  "distinct (map fst kvs) \<Longrightarrow> distinct (map fst (foldl (\<lambda>kvs t. AList.update (k t) (v t) kvs) kvs ts))"
  by (induction ts arbitrary: kvs) (auto simp: distinct_update)

lemma foldl_update_values:
  "(\<forall>kv \<in> set kvs. Q (snd kv)) \<Longrightarrow> (\<And>t. Q (v t)) \<Longrightarrow>
   \<forall>kv \<in> set (foldl (\<lambda>kvs t. AList.update (k t) (v t) kvs) kvs ts). Q (snd kv)"
proof (induction ts arbitrary: kvs)
  case (Cons t ts)
  have "\<forall>kv \<in> set (AList.update (k t) (v t) kvs). Q (snd kv)"
    using Cons.prems by (induction kvs) auto
  then show ?case using Cons.IH Cons.prems(2) by simp
qed simp

lemma previous_targets_written:
  assumes "files w (targets_state_path c) = Some (json_dumps_indent (targets_document ts) @ [LF])"
  shows "\<exists>kvs. previous_targets (files w (targets_state_path c)) = Inr kvs \<and> fst ` set kvs = t_name ` set ts"
proof -
  let ?kvs = "foldl (\<lambda>kvs t. AList.update (t_name t)
     (JDict [(''fwmark'', JStr (t_fwmark t)), (''table_id'', JInt (t_table_id t))]) kvs) [] ts"
  have "\<forall>kv \<in> set ?kvs. wf_json (snd kv)" by (rule foldl_update_values) simp_all
  then have wf: "wf_json (JDict ?kvs)" by (simp add: foldl_update_distinct)
  have "CR \<notin> set (json_dumps_indent (JDict ?kvs) @ [LF])" by (simp add: json_dumps_indent_no_CR)
  moreover have "json_loads (json_dumps_indent (JDict ?kvs) @ [LF]) = Some (JDict ?kvs)"
    unfolding json_dumps_indent_def
    by (rule loads_dumps [OF ok_indented wf]) (simp add: ws_text_def json_ws_def)
  ultimately show ?thesis
    using assms foldl_update_keys [of t_name _ "[]" ts]
    by (simp add: previous_targets_def targets_document_def read_text_def del: set_append)
qed

lemma cleanup_stale_writes:
  assumes "cleanup_stale_targets env sec c ts w = (Inr rs, w')"
  shows "files w' (targets_state_path c) = Some (json_dumps_indent (targets_document ts) @ [LF])"
  using assms by (auto simp: cleanup_stale_targets_def result_simps atomic_write_text_def
      split: sum.splits prod.splits)

lemma cleanup_previous_current:
  "\<forall>e \<in> set prev. fst e \<in> names \<Longrightarrow>
   action_map (cleanup_previous env sec names) prev w = (Inr (map (\<lambda>_. []) prev), w)"
  by (induction prev) (auto simp: cleanup_previous_def result_simps split: prod.splits)

text \<open>A second apply with the same targets finds nothing to clean up.\<close>

lemma cleanup_stale_idempotent:
  assumes "cleanup_stale_targets env sec c ts w = (Inr rs, w1)"
    and "files w2 (targets_state_path c) = files w1 (targets_state_path c)"
  shows "\<exists>w'. cleanup_stale_targets env sec c ts w2 = (Inr [], w') \<and>
    new_events w2 w' = [Wrote (targets_state_path c) (json_dumps_indent (targets_document ts) @ [LF]) 420]"
proof -
  have "files w2 (targets_state_path c) = Some (json_dumps_indent (targets_document ts) @ [LF])"
    using cleanup_stale_writes [OF assms(1)] assms(2) by simp
  from previous_targets_written [OF this] obtain kvs where
    kvs: "previous_targets (files w2 (targets_state_path c)) = Inr kvs" "fst ` set kvs = t_name ` set ts" by blast
  then have "\<forall>e \<in> set kvs. fst e \<in> set (map t_name ts)" by auto
  from cleanup_previous_current [OF this] kvs(1) show ?thesis
    by (simp add: cleanup_stale_targets_def read_file_def andthen_def lift_result_def ret_def
        atomic_write_text_def new_events_def)
qed

section \<open>Every stale target is cleaned up\<close>

lemma run_command_runs:
  assumes "run_command env own argv opts w = (r, w')" "argv \<noteq> []" "[] \<notin> set argv" "\<not> o_dry_run opts"
  shows "Ran argv (o_input opts) \<in> set (new_events w w')"
proof -
  have ex: "\<not> list_ex (\<lambda>a. a = []) argv" using assms(3) by (auto simp: list_ex_iff)
  have f: "\<And>c x v. finish c x v = (r, w') \<Longrightarrow> w' = v" by (auto simp: finish_def result_simps split: if_splits)
  show ?thesis
    using assms(1,2,4) ex
    by (auto simp: run_command_def run_to_file_def run_graceful_def run_captured_def Let_def new_events_def
        andthen_def current_def append_log_def spawn_def emit_def ret_def stop_gracefully_def
        dest!: f split: if_splits option.splits outcome.splits)
qed

lemma new_events_mono:
  assumes "extends a b" "extends b c" "extends c d" "e \<in> set (new_events b c)"
  shows "e \<in> set (new_events a d)"
  using assms new_events_trans [of a b d] new_events_trans [of b c d] extends_trans by fastforce

lemma action_map_ran:
  assumes "\<And>x. x \<in> set xs \<Longrightarrow> only_emits P (f x)" "action_map f xs w = (Inr ys, w')" "x \<in> set xs"
  shows "\<exists>y w1 w2. f x w1 = (Inr y, w2) \<and> set (new_events w1 w2) \<subseteq> set (new_events w w')"
  using assms
proof (induction xs arbitrary: w ys)
  case (Cons a as)
  from Cons.prems(2) obtain y w1 ys' where a: "f a w = (Inr y, w1)" and as: "action_map f as w1 = (Inr ys', w')"
    by (auto simp: andthen_def ret_def split: prod.splits sum.splits)
  have e1: "extends w w1" using only_emitsD [OF Cons.prems(1) a] by (simp add: emits_def)
  have "only_emits P (action_map f as)" using Cons.prems(1) by (intro emits_intros) simp
  from only_emitsD [OF this as] have e2: "extends w1 w'" by (simp add: emits_def)
  note ev = new_events_trans [OF e1 e2]
  show ?case
  proof (cases "x = a")
    case True
    with a ev show ?thesis by auto
  next
    case False
    with Cons.IH [OF Cons.prems(1) as] Cons.prems(3) ev show ?thesis by auto
  qed
qed simp

lemma policy_cleanup_runs:
  assumes "policy_cleanup env sec fw t False w = (Inr rs, w')" "fw \<noteq> []"
  shows "Ran (rule_args ''del'' fw (show_int t)) None \<in> set (new_events w w')"
    and "Ran (flush_args (show_int t)) None \<in> set (new_events w w')"
proof -
  let ?d = "rule_args ''del'' fw (show_int t)" and ?f = "flush_args (show_int t)"
  from assms(1) obtain a b w1 where
    1: "run_command env sec ?d (dry False) w = (Inr a, w1)" and 2: "run_command env sec ?f (dry False) w1 = (Inr b, w')"
    by (auto simp: policy_cleanup_def delete_rule_def result_simps split: prod.splits sum.splits)
  have o: "o_input (dry False) = None" "\<not> o_dry_run (dry False)" by (simp_all add: dry_def no_check_def default_options_def)
  have n: "?d \<noteq> []" "[] \<notin> set ?d" "?f \<noteq> []" "[] \<notin> set ?f"
    using rule_args_ok [of "''del''" fw "show_int t"] assms(2) by (auto simp: flush_args_def)
  have "extends w w1" "extends w1 w'"
    using only_emitsD [OF only_runs [of "\<lambda>_. True"] 1] only_emitsD [OF only_runs [of "\<lambda>_. True"] 2]
    by (simp_all add: emits_def)
  note ev = new_events_trans [OF this]
  from run_command_runs [OF 1 n(1,2) o(2)] run_command_runs [OF 2 n(3,4) o(2)] ev o(1)
  show "Ran ?d None \<in> set (new_events w w')" "Ran ?f None \<in> set (new_events w w')" by simp_all
qed

lemma policy_apply_runs:
  assumes "policy_apply env sec c fw t i False w = (Inr rs, w')" "device_or_default c i \<noteq> []"
  shows "Ran (route_args (device_or_default c i) (show_int t)) None \<in> set (new_events w w')"
proof -
  let ?r = "route_args (device_or_default c i) (show_int t)"
  from assms(1) obtain d a ra wa w1 where 0: "delete_rule env sec fw t False w = (Inr d, wa)"
    "run_command env sec (rule_args ''add'' fw (show_int t)) (dry False) wa = (Inr a, w1)"
    and 1: "run_command env sec ?r (dry False) w1 = (Inr ra, w')"
    by (auto simp: policy_apply_def andthen_def ret_def split: prod.splits sum.splits)
  have d: "only_emits (\<lambda>_. True) (delete_rule env sec fw t False)"
    unfolding delete_rule_def by (intro emits_intros only_emits_run_command) simp_all
  have "extends w wa" using only_emitsD [OF d 0(1)] by (simp add: emits_def)
  moreover have "extends wa w1" using only_emitsD [OF only_emits_run_command [of "\<lambda>_. True"] 0(2)] by (simp add: emits_def)
  ultimately have e1: "extends w w1" by (rule extends_trans)
  have e2: "extends w1 w'"
    using only_emitsD [OF only_emits_run_command [of "\<lambda>_. True"] 1] by (simp add: emits_def)
  have "Ran ?r (o_input (dry False)) \<in> set (new_events w1 w')"
    using assms(2) by (intro run_command_runs [OF 1]) (auto simp: route_args_def dry_def no_check_def default_options_def)
  then show ?thesis
    unfolding new_events_trans [OF e1 e2] by (simp add: dry_def no_check_def default_options_def)
qed

text \<open>Every target is re-asserted, the default one only when a profile is selected.\<close>

lemma reassert_runs:
  assumes "reassert_policy_routing env sec c targets False w = (Inr rs, w')" "up_enabled (app_upstream c)"
    and "t \<in> set targets" "t_name t \<noteq> ''default'' \<or> selected_profile (app_upstream c) \<noteq> None" "t_interface t \<noteq> []"
  shows "Ran (route_args (t_interface t) (show_int (t_table_id t))) None \<in> set (new_events w w')"
proof -
  let ?f = "\<lambda>t. if t_name t = ''default'' \<and> selected_profile (app_upstream c) = None then ret []
     else policy_apply env sec c (t_fwmark t) (t_table_id t) (Some (t_interface t)) False"
  from assms(1,2) obtain rss where am: "action_map ?f targets w = (Inr rss, w')"
    by (auto simp: reassert_policy_routing_def result_simps split: prod.splits sum.splits)
  have o: "only_emits (apply_event c) (?f t)" for t by (intro emits_intros only_policy_apply)
  from action_map_ran [OF o am assms(3)] obtain y u v where
    f: "?f t u = (Inr y, v)" and sub: "set (new_events u v) \<subseteq> set (new_events w w')" by blast
  from f assms(4) have "policy_apply env sec c (t_fwmark t) (t_table_id t) (Some (t_interface t)) False u = (Inr y, v)"
    by (auto split: if_splits)
  from policy_apply_runs [OF this] sub assms(5) show ?thesis by (auto simp: device_or_default_def is_set_def)
qed

lemma stale_target_cleaned:
  assumes "cleanup_stale_targets env sec c ts w = (Inr rs, w')"
    and "previous_targets (files w (targets_state_path c)) = Inr prev"
    and "(name, JDict [(''fwmark'', JStr fw), (''table_id'', JInt t)]) \<in> set prev" "name \<notin> set (map t_name ts)" "fw \<noteq> []"
  shows "Ran (rule_args ''del'' fw (show_int t)) None \<in> set (new_events w w')"
    and "Ran (flush_args (show_int t)) None \<in> set (new_events w w')"
proof -
  let ?f = "cleanup_previous env sec (set (map t_name ts))"
  let ?info = "JDict [(''fwmark'', JStr fw), (''table_id'', JInt t)]"
  from assms(1,2) obtain rss w1 where am: "action_map ?f prev w = (Inr rss, w1)"
    and w': "w' = record_event (Wrote (targets_state_path c) (json_dumps_indent (targets_document ts) @ [LF]) 420)
       (w1\<lparr>files := (files w1)(targets_state_path c \<mapsto> json_dumps_indent (targets_document ts) @ [LF])\<rparr>)"
    by (auto simp: cleanup_stale_targets_def result_simps atomic_write_text_def split: sum.splits prod.splits)
  have o: "only_emits (apply_event c) (?f e)" for e by (rule only_cleanup_previous)
  from action_map_ran [OF o am assms(3)] obtain y u v where
    f: "?f (name, ?info) u = (Inr y, v)" and sub: "set (new_events u v) \<subseteq> set (new_events w w1)" by blast
  from f assms(4) have pc: "policy_cleanup env sec fw t False u = (Inr y, v)"
    by (simp add: cleanup_previous_def item_of_def lift_result_def andthen_def)
  have "only_emits (apply_event c) (action_map ?f prev)" using o by (intro emits_intros)
  from only_emitsD [OF this am] have "extends w w1" by (simp add: emits_def)
  then have "set (new_events w w1) \<subseteq> set (new_events w w')"
    unfolding w' by (auto simp: new_events_def extends_def prefix_def)
  with sub policy_cleanup_runs [OF pc assms(5)] show
    "Ran (rule_args ''del'' fw (show_int t)) None \<in> set (new_events w w')"
    "Ran (flush_args (show_int t)) None \<in> set (new_events w w')" by auto
qed

end
