(* ===== verification/Nft_Properties.thy ===== *)
theory Nft_Properties
  imports Nftables_Service Routing_Properties
begin

text \<open>
  The properties of the nftables service: what an apply may do, what it does when loading
  fails, the cleanup of stale targets, and two cases in which the loaded state does not follow
  the configuration.
\<close>

section \<open>Applying\<close>

text \<open>
  Applying never takes the protection away while it works: it deletes no table, chain or
  rule of nftables, and it writes no file but its two scripts and its own state, whatever the
  commands answer and however the apply ends.
\<close>

theorem apply_never_deletes:
  "(\<forall>argv i. Ran argv i \<in> set (new_events w (snd (nft_apply env sec pr c b outbound w))) \<longrightarrow>
      take 2 argv \<noteq> [''nft'', ''delete''])
   \<and> (\<forall>p t m. Wrote p t m \<in> set (new_events w (snd (nft_apply env sec pr c b outbound w))) \<longrightarrow>
      p \<in> {target_path c, static_refresh_path c, targets_state_path c})
   \<and> (\<forall>p. Unlinked p \<notin> set (new_events w (snd (nft_apply env sec pr c b outbound w))))"
proof -
  have e: "apply_event c e" if "e \<in> set (new_events w (snd (nft_apply env sec pr c b outbound w)))" for e
    using only_nft_apply that unfolding only_emits_def emits_def by blast
  have "take 2 argv \<noteq> [''nft'', ''delete'']" if "apply_event c (Ran argv i)" for argv i
  proof
    assume "take 2 argv = [''nft'', ''delete'']"
    then obtain args where "argv = ''nft'' # ''delete'' # args"
      by (metis append.simps append_take_drop_id)
    with that show False using delete_not_applied by simp
  qed
  moreover have "\<not> apply_event c (Unlinked p)" for p by (simp add: apply_event_def)
  ultimately show ?thesis using e by fastforce
qed

theorem apply_never_deletes_witness:
  "Ran [''nft'', ''delete'', ''table'', ''inet'', ''korserver_filter''] None \<notin>
     set (new_events sample_world (snd (nft_apply sample_env [] \<lparr>print_ruleset = (\<lambda>_ _. []), print_refresh = (\<lambda>_ _. [])\<rparr>
       sample_checked False None sample_world)))"
  using apply_never_deletes by fastforce

text \<open>
  When the ruleset cannot be loaded nothing else changes: the apply reports that one result,
  and all it did was to look at the loaded table and to load its own scripts; no policy rule,
  no route and no other table was touched.
\<close>

theorem failed_load_stops:
  assumes "nft_apply env sec pr c False outbound w = (Inr (r # rs), w')" "r_code r \<noteq> 0"
  shows "rs = [] \<and> (\<forall>e \<in> set (new_events w w'). case e of
      Ran argv _ \<Rightarrow> argv \<in> {nft_probe_args c, nft_load_args (target_path c), nft_load_args (static_refresh_path c)}
    | Wrote p _ _ \<Rightarrow> p \<in> {target_path c, static_refresh_path c}
    | Stopped_child _ _ \<Rightarrow> True | _ \<Rightarrow> False)"
proof -
  have "rs = [] \<and> emits (load_event c) w w'"
    using failed_apply_only_loads [OF assms(1)] assms(2) by (simp add: ok_def)
  then show ?thesis
    by (auto simp: emits_def load_event_def load_command_def split: event.splits)
qed

text \<open>An environment in which every command fails.\<close>

definition failing_env :: env where
  "failing_env = sample_env\<lparr>e_run := (\<lambda>_ _ _. Completed 1 [] [])\<rparr>"

definition nft_fails :: "env \<Rightarrow> bool" where
  "nft_fails env = ((\<forall>w argv i. hd argv = ''nft'' \<longrightarrow> e_run env w argv i = Completed 1 [] []) \<and> e_after env = (\<lambda>w _ _. files w))"

lemma failing_env_fails: "nft_fails failing_env"
  by (simp add: nft_fails_def failing_env_def sample_env_def)

lemma failing_run:
  assumes "nft_fails env" "hd argv = ''nft''"
  shows "argv \<noteq> [] \<Longrightarrow> [] \<notin> set argv \<Longrightarrow> \<exists>r w'. run_command env [] argv (no_check\<lparr>o_timeout := n\<rparr>) w = (Inr r, w') \<and> r_code r = 1
     \<and> files w' = files w"
  using assms
  by (auto simp: nft_fails_def run_command_def run_captured_def no_check_def default_options_def
      andthen_def spawn_def masked_result_def list_ex_iff Let_def)

lemma failing_apply:
  assumes "render_ruleset env c outbound w = Inr rs" and fails: "nft_fails env"
    and "\<And>w'. files w' = files w \<Longrightarrow> render_ruleset env c outbound w' = render_ruleset env c outbound w"
  shows "\<exists>r w'. nft_apply env [] pr c False outbound w = (Inr [r], w') \<and> r_code r \<noteq> 0
    \<and> files w' = (files w)(target_path c \<mapsto> print_ruleset pr c rs)"
proof -
  have probe: "hd (nft_probe_args c) = ''nft''" "nft_probe_args c \<noteq> []" "[] \<notin> set (nft_probe_args c)"
    by (auto simp: nft_probe_args_def filter_table_def)
  have load: "hd (nft_load_args (target_path c)) = ''nft''" "nft_load_args (target_path c) \<noteq> []" "[] \<notin> set (nft_load_args (target_path c))"
    by (auto simp: nft_load_args_def target_path_def generated_path_def path_join_def)
  obtain r1 w1 where 1: "run_command env [] (nft_probe_args c) (no_check\<lparr>o_timeout := 10\<rparr>) w = (Inr r1, w1)"
    "r_code r1 = 1" "files w1 = files w" using failing_run [OF fails probe] by blast
  let ?w2 = "snd (atomic_write_text (target_path c) (print_ruleset pr c rs) 420 w1)"
  have n: "no_check\<lparr>o_timeout := 30\<rparr> = no_check" by (simp add: no_check_def default_options_def)
  obtain r2 w3 where 2: "run_command env [] (nft_load_args (target_path c)) no_check ?w2 = (Inr r2, w3)"
    "r_code r2 = 1" "files w3 = files ?w2" using failing_run [OF fails load, where n = 30] unfolding n by blast
  from set_names_as_expected [OF assms(1)] have e: "\<exists>ns. expected_set_names env c outbound w = Inr ns" by blast
  obtain ts o1 a where t: "resolve_targets env c outbound w = Inr (ts, o1, a)"
    using assms(1) by (rule render_ruleset_parts)
  have "apply_ruleset env [] pr c outbound w = (Inr r2, w3)"
    using e 1 2 assms(1) assms(3) [of w1]
    by (auto simp: apply_ruleset_def static_sets_ready_def apply_full_recreate_def andthen_def current_def lift_result_def
        ret_def ok_def atomic_write_text_def)
  moreover have "\<not> ok r2" using 2 by (simp add: ok_def)
  moreover have "files w3 = (files w)(target_path c \<mapsto> print_ruleset pr c rs)"
    using 1(3) 2(3) by (simp add: atomic_write_text_def)
  ultimately show ?thesis
    using t ok_report_applied [of c r2]
    by (auto simp: nft_apply_def andthen_def current_def lift_result_def ret_def ok_def)
qed

text \<open>What is rendered depends on the files only.\<close>

lemma lists_files:
  assumes "files w' = files w"
  shows "list_of_routes env sp dir w' = list_of_routes env sp dir w"
    "list_of_domains env sp dir w' = list_of_domains env sp dir w"
    "effective_pushed c p w' = effective_pushed c p w"
  using assms by (simp_all add: list_of_routes_def list_of_domains_def all_file_items_def file_items_def [abs_def]
      all_url_cache_items_def effective_pushed_def load_pushed_def)

lemma profile_target_files: "files w' = files w \<Longrightarrow> profile_target c w' = profile_target c w"
proof (intro ext)
  fix base p
  assume f: "files w' = files w"
  have e: "effective_pushed c p w' = effective_pushed c p w" using f by (rule lists_files)
  have r: "host_route_list c w' p = host_route_list c w p" "host_domain_list c w' p = host_domain_list c w p"
    by (simp_all only: host_route_list_def host_domain_list_def e)
  show "profile_target c w' base p = profile_target c w base p"
    by (simp only: profile_target_def host_active_def e r)
qed

lemma resolve_files:
  assumes "files w' = files w"
  shows "resolve_targets env c outbound w' = resolve_targets env c outbound w"
  by (simp only: resolve_targets_def list_targets_def list_routes_def list_domains_def lists_files [OF assms]
      profile_target_files [OF assms])

lemma render_files:
  assumes "files w' = files w"
  shows "render_ruleset env c outbound w' = render_ruleset env c outbound w"
  by (simp only: render_ruleset_def resolve_files [OF assms] list_host_routes_def list_host_domains_def
      lists_files [OF assms])

theorem failed_load_stops_witness:
  "\<exists>r rs w'. nft_apply failing_env [] \<lparr>print_ruleset = (\<lambda>_ _. []), print_refresh = (\<lambda>_ _. [])\<rparr> sample_checked False None
       sample_world = (Inr (r # rs), w') \<and> rs = []"
proof -
  have "\<exists>r. render_ruleset failing_env sample_checked None sample_world = Inr r"
  proof -
    have "case render_ruleset failing_env sample_checked None sample_world of Inl _ \<Rightarrow> False | Inr r \<Rightarrow> True" by code_simp
    then show ?thesis by (cases "render_ruleset failing_env sample_checked None sample_world") auto
  qed
  then obtain r where "render_ruleset failing_env sample_checked None sample_world = Inr r" by blast
  from failing_apply [OF this failing_env_fails render_files] obtain r' w' where
    a: "nft_apply failing_env [] \<lparr>print_ruleset = (\<lambda>_ _. []), print_refresh = (\<lambda>_ _. [])\<rparr> sample_checked False None
       sample_world = (Inr [r'], w')" "r_code r' \<noteq> 0" by blast
  from a(1) failed_load_stops [OF a] show ?thesis by blast
qed

section \<open>Stale targets\<close>

text \<open>
  A target of the previous apply that is gone now has its rule deleted and its table
  flushed; afterwards the state file holds the present targets, so that repeating the cleanup
  with the same targets runs no command.
\<close>

theorem stale_targets_are_cleaned:
  assumes "cleanup_stale_targets env sec c ts w = (Inr rs, w')"
  shows "(\<forall>prev name fw t. previous_targets (files w (targets_state_path c)) = Inr prev \<longrightarrow>
      (name, JDict [(''fwmark'', JStr fw), (''table_id'', JInt t)]) \<in> set prev \<longrightarrow>
      name \<notin> t_name ` set ts \<longrightarrow> fw \<noteq> [] \<longrightarrow>
      {Ran (rule_args ''del'' fw (show_int t)) None, Ran (flush_args (show_int t)) None} \<subseteq> set (new_events w w'))
    \<and> (\<exists>kvs. previous_targets (files w' (targets_state_path c)) = Inr kvs \<and> fst ` set kvs = t_name ` set ts)
    \<and> (\<exists>w2. cleanup_stale_targets env sec c ts w' = (Inr [], w2) \<and> (\<forall>argv i. Ran argv i \<notin> set (new_events w' w2)))"
proof (intro conjI allI impI)
  fix prev name fw t
  assume a: "previous_targets (files w (targets_state_path c)) = Inr prev"
    "(name, JDict [(''fwmark'', JStr fw), (''table_id'', JInt t)]) \<in> set prev" "name \<notin> t_name ` set ts" "fw \<noteq> []"
  then have "name \<notin> set (map t_name ts)" by simp
  from stale_target_cleaned [OF assms a(1,2) this a(4)]
  show "{Ran (rule_args ''del'' fw (show_int t)) None, Ran (flush_args (show_int t)) None} \<subseteq> set (new_events w w')"
    by blast
next
  show "\<exists>kvs. previous_targets (files w' (targets_state_path c)) = Inr kvs \<and> fst ` set kvs = t_name ` set ts"
    using cleanup_stale_writes [OF assms] by (rule previous_targets_written)
next
  show "\<exists>w2. cleanup_stale_targets env sec c ts w' = (Inr [], w2) \<and> (\<forall>argv i. Ran argv i \<notin> set (new_events w' w2))"
    using cleanup_stale_idempotent [OF assms refl] by auto
qed

lemma first_cleanup:
  assumes "files w (targets_state_path c) = None"
  shows "\<exists>w'. cleanup_stale_targets env sec c ts w = (Inr [], w')"
proof -
  have "previous_targets (files w (targets_state_path c)) = Inr []" using assms by (simp add: previous_targets_def)
  then show ?thesis
    by (simp add: cleanup_stale_targets_def read_file_def andthen_def lift_result_def ret_def atomic_write_text_def)
qed

theorem stale_targets_are_cleaned_witness:
  "\<exists>w1 w2. cleanup_stale_targets sample_env [] sample_app [] w1 = (Inr [], w2)"
proof -
  have "files sample_world (targets_state_path sample_app) = None" by (simp add: sample_world_def)
  from first_cleanup [OF this] obtain w' where "cleanup_stale_targets sample_env [] sample_app [] sample_world = (Inr [], w')"
    by blast
  from stale_targets_are_cleaned [OF this, THEN conjunct2, THEN conjunct2] obtain w2
    where "cleanup_stale_targets sample_env [] sample_app [] w' = (Inr [], w2)" by (elim exE conjE)
  then show ?thesis by (intro exI)
qed

section \<open>Where the loaded state does not follow\<close>

abbreviation with_client_traffic :: "bool \<Rightarrow> app_config \<Rightarrow> app_config" where
  "with_client_traffic b c \<equiv> c\<lparr>app_routing := (app_routing c)\<lparr>client_traffic := b\<rparr>\<rparr>"

lemma profile_target_client_traffic: "profile_target (with_client_traffic b c) = profile_target c"
proof (intro ext)
  fix w base p
  let ?c = "with_client_traffic b c"
  have s: "app_upstream ?c = app_upstream c" "fwmark (app_routing ?c) = fwmark (app_routing c)"
    "table_id (app_routing ?c) = table_id (app_routing c)" by simp_all
  have e: "effective_pushed ?c p w = effective_pushed c p w"
    by (simp add: effective_pushed_def load_pushed_def pushed_path_def pushed_dir_def)
  have r: "host_route_list ?c w p = host_route_list c w p" "host_domain_list ?c w p = host_domain_list c w p"
    by (simp_all only: host_route_list_def host_domain_list_def e)
  show "profile_target ?c w base p = profile_target c w base p"
    by (simp only: profile_target_def host_active_def e r s Let_def)
qed

text \<open>Everything of the targets that does not depend on the outbound device.\<close>

definition target_parts :: "env \<Rightarrow> app_config \<Rightarrow> world \<Rightarrow> (string list \<times> string list \<times> routing_target list) result" where
  "target_parts env c w =
     res_bind (list_routes env c w) (\<lambda>routes.
     res_bind (if rt_mode (app_routing c) = Split then list_domains env c w else Inr []) (\<lambda>domains.
     if \<not> up_enabled (app_upstream c) then Inr (routes, domains, [])
     else case py_int0 (fwmark (app_routing c)) of None \<Rightarrow> Inl ValueError
       | Some base \<Rightarrow> res_bind (res_map (profile_target c w base) (profiles (app_upstream c))) (\<lambda>ts.
           Inr (routes, domains, some_values ts))))"

lemma list_targets_parts:
  "list_targets env c d w = res_bind (target_parts env c w) (\<lambda>(rs, ds, ts). Inr (default_target c d rs ds # ts))"
  by (simp add: list_targets_def target_parts_def res_bind_def Let_def split: sum.split option.split)

lemma target_parts_client_traffic: "target_parts env (with_client_traffic b c) w = target_parts env c w"
proof -
  have "list_routes env (with_client_traffic b c) w = list_routes env c w"
    "list_domains env (with_client_traffic b c) w = list_domains env c w"
    by (simp_all add: list_routes_def list_domains_def routing_cache_dir_def)
  then show ?thesis by (simp add: target_parts_def profile_target_client_traffic cong: if_cong option.case_cong)
qed

lemma expected_names_client_traffic:
  "expected_set_names env (with_client_traffic b c) outbound w = expected_set_names env c outbound w"
  by (simp add: expected_set_names_def resolve_targets_def list_targets_parts target_parts_client_traffic
      Let_def host_split_active_def upstream_active_def res_bind_def default_target_names split: sum.split prod.split)

lemma ready_client_traffic:
  "static_sets_ready env sec (with_client_traffic b c) outbound = static_sets_ready env sec c outbound"
  by (simp add: fun_eq_iff static_sets_ready_def expected_names_client_traffic nft_probe_args_def filter_table_def)

lemma refresh_never_loads_ruleset:
  "only_emits (\<lambda>e. \<forall>i. e \<noteq> Ran (nft_load_args (target_path c)) i) (apply_static_refresh env sec pr c outbound)"
  unfolding apply_static_refresh_def
  by (intro emits_intros only_emits_run_command)
    (simp_all add: nft_load_args_def target_path_def static_refresh_path_def generated_path_def path_join_def)

text \<open>
  A change of the rules that keeps the set names is not loaded. Toggling whether client
  traffic uses the upstream leaves the expected set names as they are, so on a kernel that has
  them the apply under the new configuration refreshes the sets and never loads the new
  ruleset, although its forward chain differs: with client traffic turned on, the kill switch
  of the default target is missing from what the kernel keeps running.
\<close>

theorem client_traffic_toggle_is_not_loaded:
  assumes "static_sets_ready env sec c outbound w = (Inr True, w1)"
    and "apply_static_refresh env sec pr (with_client_traffic True c) outbound w1 = (Inr r, w2)" "ok r"
  shows "apply_ruleset env sec pr (with_client_traffic True c) outbound w = (Inr r, w2)
    \<and> (\<forall>i. Ran (nft_load_args (target_path (with_client_traffic True c))) i \<notin> set (new_events w1 w2))
    \<and> (upstream_active c \<longrightarrow>
        killswitch_rule (default_target (with_client_traffic True c) d rs ds)
          \<in> set (the (rs_forward (build_ruleset (with_client_traffic True c)
                (default_target (with_client_traffic True c) d rs ds # ts) d a hr)))
        \<and> \<not> t_killswitch (default_target (with_client_traffic False c) d rs ds))"
proof -
  let ?c = "with_client_traffic True c"
  have "apply_ruleset env sec pr ?c outbound w = (Inr r, w2)"
    using assms ready_client_traffic [of env sec True c outbound]
    by (simp add: apply_ruleset_def andthen_def ret_def)
  moreover have "emits (\<lambda>e. \<forall>i. e \<noteq> Ran (nft_load_args (target_path ?c)) i) w1 w2"
    using refresh_never_loads_ruleset assms(2) by (rule only_emitsD)
  moreover have "t_killswitch (default_target ?c d rs ds)" if "upstream_active c"
    using that by (simp add: default_target_def Let_def upstream_active_def)
  moreover have "\<not> t_killswitch (default_target (with_client_traffic False c) d rs ds)"
    by (simp add: default_target_def Let_def)
  ultimately show ?thesis by (auto simp: emits_def build_ruleset_def Let_def)
qed

text \<open>A configuration with one profile, and a kernel whose table has its four sets.\<close>

definition toggle_app :: app_config where
  "toggle_app = default_app\<lparr>app_upstream := default_upstream\<lparr>up_enabled := True, profiles := [sample_first]\<rparr>\<rparr>"

definition table_listing :: string where
  "table_listing = ''{\"nftables\": [{\"set\": {\"name\": \"split_v4_static\"}}, {\"set\": {\"name\": \"split_v4_dynamic\"}}, ''
     @ ''{\"set\": {\"name\": \"split_v6_static\"}}, {\"set\": {\"name\": \"split_v6_dynamic\"}}]}''"

definition listing_env :: env where
  "listing_env = sample_env\<lparr>e_run := (\<lambda>_ _ _. Completed 0 table_listing [])\<rparr>"

lemma listing_run:
  "argv \<noteq> [] \<Longrightarrow> [] \<notin> set argv \<Longrightarrow> \<exists>r w'. run_command listing_env [] argv (no_check\<lparr>o_timeout := n\<rparr>) w = (Inr r, w')
     \<and> r_code r = 0 \<and> r_out r = table_listing \<and> files w' = files w"
proof -
  have "mask_text table_listing [] = table_listing" by code_simp
  then show "argv \<noteq> [] \<Longrightarrow> [] \<notin> set argv \<Longrightarrow> ?thesis"
    by (auto simp: run_command_def run_captured_def listing_env_def sample_env_def no_check_def default_options_def
        andthen_def spawn_def masked_result_def list_ex_iff Let_def)
qed

lemma listing_expected:
  "expected_set_names listing_env (default_paths toggle_app) (Some ''tun0'') sample_world
     = Inr {''split_v4_static'', ''split_v4_dynamic'', ''split_v6_static'', ''split_v6_dynamic''}"
  by code_simp

lemma listing_ready:
  "\<exists>w1. static_sets_ready listing_env [] (default_paths toggle_app) (Some ''tun0'') sample_world = (Inr True, w1)
     \<and> files w1 = files sample_world"
proof -
  let ?c = "default_paths toggle_app"
  let ?names = "[''split_v4_static'', ''split_v4_dynamic'', ''split_v6_static'', ''split_v6_dynamic'']"
  have "nft_probe_args ?c \<noteq> []" "[] \<notin> set (nft_probe_args ?c)" by (auto simp: nft_probe_args_def filter_table_def)
  from listing_run [OF this] obtain r w1 where
    r: "run_command listing_env [] (nft_probe_args ?c) (no_check\<lparr>o_timeout := 10\<rparr>) sample_world = (Inr r, w1)"
      "r_code r = 0" "r_out r = table_listing" "files w1 = files sample_world" by blast
  have l: "json_loads table_listing = Some (JDict [(''nftables'', JList (map (\<lambda>n. JDict [(''set'', JDict [(''name'', JStr n)])])
      ?names))])" by code_simp
  have "loaded_set_names (the (json_loads table_listing)) = Inr (map JStr ?names)"
    unfolding l by code_simp
  with l r listing_expected show ?thesis
    by (simp add: static_sets_ready_def andthen_def current_def lift_result_def ret_def ok_def)
qed

theorem client_traffic_toggle_is_not_loaded_witness:
  "\<exists>r w1 w2. apply_ruleset listing_env [] \<lparr>print_ruleset = (\<lambda>_ _. []), print_refresh = (\<lambda>_ _. [])\<rparr>
     (with_client_traffic True (default_paths toggle_app)) (Some ''tun0'') sample_world = (Inr r, w2) \<and> ok r
   \<and> Ran (nft_load_args (target_path (with_client_traffic True (default_paths toggle_app)))) None \<notin> set (new_events w1 w2)"
proof -
  let ?c = "default_paths toggle_app" and ?pr = "\<lparr>print_ruleset = (\<lambda>_ _. []), print_refresh = (\<lambda>_ _. [])\<rparr>"
  let ?d = "with_client_traffic True ?c"
  obtain w1 where 1: "static_sets_ready listing_env [] ?c (Some ''tun0'') sample_world = (Inr True, w1)"
    "files w1 = files sample_world" using listing_ready by blast
  have "expected_set_names listing_env ?d (Some ''tun0'') sample_world \<noteq> Inl e" for e
    using listing_expected by (simp only: expected_names_client_traffic) simp
  then obtain ts o1 a where t: "resolve_targets listing_env ?d (Some ''tun0'') w1 = Inr (ts, o1, a)"
    unfolding resolve_files [OF 1(2)] expected_set_names_def
    by (cases "resolve_targets listing_env ?d (Some ''tun0'') sample_world") auto
  have "\<not> host_split_active ?d" by code_simp
  with t obtain cmds where c: "render_static_refresh listing_env ?d (Some ''tun0'') w1 = Inr cmds"
    by (simp add: render_static_refresh_def)
  let ?w = "snd (atomic_write_text (static_refresh_path ?d) (print_refresh ?pr ?d cmds) 420 w1)"
  have "nft_load_args (static_refresh_path ?d) \<noteq> []" "[] \<notin> set (nft_load_args (static_refresh_path ?d))"
    by (auto simp: nft_load_args_def static_refresh_path_def generated_path_def path_join_def)
  from listing_run [OF this, of 30 ?w] obtain r w2 where
    r: "run_command listing_env [] (nft_load_args (static_refresh_path ?d)) no_check ?w = (Inr r, w2)" "ok r"
    by (auto simp: no_check_def default_options_def ok_def)
  with c have 2: "apply_static_refresh listing_env [] ?pr ?d (Some ''tun0'') w1 = (Inr r, w2)"
    by (simp add: apply_static_refresh_def andthen_def current_def lift_result_def atomic_write_text_def)
  from client_traffic_toggle_is_not_loaded [OF 1(1) 2 r(2)] r(2) show ?thesis by blast
qed

text \<open>
  Re-asserting the routes can break the host's own traffic. With the upstream used for the
  host but not for clients, the default target's interface is the main one, and that is where
  re-asserting points the default route of the target's table; a host packet that carries the
  target's mark is sent out there, and the kill switch of the same ruleset drops it.
\<close>

theorem reassert_misroutes_host_traffic:
  assumes "reassert_policy_routing env sec c (default_target c d rs ds # ts) False w = (Inr out, w')"
    and "\<not> client_traffic (app_routing c)" "host_traffic (app_routing c)" "upstream_active c"
    and "main_interface (app_routing c) \<notin> {[], d, ''lo''}" "py_int0 (fwmark (app_routing c)) = Some m"
  shows "Ran (route_args (main_interface (app_routing c)) (show_int (table_id (app_routing c)))) None
      \<in> set (new_events w w')
    \<and> (\<forall>pk. pk_oif pk = main_interface (app_routing c) \<longrightarrow>
        chain_drops pk m (rs_postrouting (build_ruleset c (default_target c d rs ds # ts) d True hr)))"
proof -
  let ?t = "default_target c d rs ds"
  have t: "t_interface ?t = main_interface (app_routing c)" "t_table_id ?t = table_id (app_routing c)"
    using assms(2) by (simp_all add: default_target_def Let_def)
  have "Ran (route_args (t_interface ?t) (show_int (t_table_id ?t))) None \<in> set (new_events w w')"
    using assms(1) by (rule reassert_runs) (use assms t in \<open>simp_all add: upstream_active_def\<close>)
  moreover have "chain_drops pk m (rs_postrouting (build_ruleset c (?t # ts) d True hr))"
    if "pk_oif pk = main_interface (app_routing c)" for pk
    using assms that by (simp add: chain_drops_def build_ruleset_def Let_def rule_applies_def)
  ultimately show ?thesis using t by simp
qed

theorem reassert_misroutes_host_traffic_witness:
  "\<exists>c :: app_config. chain_drops (sample_packet\<lparr>pk_oif := ''eth0''\<rparr>) 1
     (rs_postrouting (build_ruleset c [default_target c ''tun0'' [] []] ''tun0'' True []))"
proof -
  let ?c = "sample_app\<lparr>app_routing := (app_routing sample_app)\<lparr>client_traffic := False, host_traffic := True,
     main_interface := ''eth0'', fwmark := ''0x1''\<rparr>\<rparr>"
  let ?t = "default_target ?c ''tun0'' [] []"
  have i: "device_or_default ?c (Some (t_interface ?t)) \<noteq> []" "t_fwmark ?t \<noteq> []"
    by (simp_all add: default_target_def Let_def device_or_default_def is_set_def)
  obtain r w' where "policy_apply sample_env [] ?c (t_fwmark ?t) (t_table_id ?t) (Some (t_interface ?t)) False sample_world
     = (Inr r, w')" using policy_apply_returns [OF i(2,1)] by blast
  moreover have e: "up_enabled (app_upstream ?c)" "selected_profile (app_upstream ?c) \<noteq> None" by code_simp+
  ultimately have r: "reassert_policy_routing sample_env [] ?c [?t] False sample_world = (Inr r, w')"
    unfolding reassert_policy_routing_def by (simp only: action_map.simps andthen_def ret_def simp_thms if_False not_True_eq_False)
      (simp only: prod.case sum.case concat.simps append_Nil2)
  have "upstream_active ?c" "py_int0 (fwmark (app_routing ?c)) = Some 1" by code_simp+
  from reassert_misroutes_host_traffic [OF r _ _ this(1) _ this(2), of "[]"] show ?thesis
    by (intro exI [of _ ?c]) simp
qed

end
