(* ===== verification/Internal_Dns.thy ===== *)
theory Internal_Dns
  imports Routing Command
begin

text \<open>
  \<open>services/internal_dns.py\<close>: the blocklist parser (hosts files, AdBlock rules and plain
  lists), the per-URL blocklist cache, the merged blocklist and the dnsmasq file it becomes, and
  the address dnsmasq listens on.
\<close>

definition max_blocklist_bytes :: nat where
  "max_blocklist_bytes = 10 * 1024 * 1024"

definition max_blocklist_entries :: nat where
  "max_blocklist_entries = 500000"

definition hosts_file_noise :: "string list" where
  "hosts_file_noise = [''localhost'', ''localhost.localdomain'', ''local'', ''broadcasthost'', ''ip6-localhost'',
     ''ip6-loopback'', ''ip6-localnet'', ''ip6-mcastprefix'', ''ip6-allnodes'', ''ip6-allrouters'', ''ip6-allhosts'']"

record blocklist_parse =
  bp_domains :: "string list"
  bp_total :: nat
  bp_skipped :: nat

record blocklist_fetch =
  bf_url :: string
  bf_total :: nat
  bf_valid :: nat
  bf_skipped :: nat
  bf_sample :: "string list"
  bf_saved :: bool

section \<open>Parsing\<close>

definition is_ip_text :: "string \<Rightarrow> bool" where
  "is_ip_text v = (ip_address v \<noteq> None)"

definition ends_with :: "string \<Rightarrow> string \<Rightarrow> bool" where
  "ends_with e s = (length e \<le> length s \<and> drop (length s - length e) s = e)"

text \<open>\<open>first[2:-1]\<close> of an AdBlock rule.\<close>

definition line_candidates :: "string \<Rightarrow> string list" where
  "line_candidates line = (case split_ws line of
      [] \<Rightarrow> []
    | first # rest \<Rightarrow>
        if is_ip_text first then rest
        else if rest \<noteq> [] then []
        else if starts_with ''||'' first \<and> ends_with ''^'' first then [drop 2 (butlast first)]
        else [first])"

definition accept_candidate :: "string \<Rightarrow> string option" where
  "accept_candidate candidate = (let domain = rstrip_char CHR ''.'' (lower (strip candidate)) in
     if domain \<noteq> [] \<and> domain \<notin> set hosts_file_noise \<and> blocklist_domain_re domain then Some domain else None)"

text \<open>One candidate: the domains so far, and whether any candidate of the line matched.\<close>

fun take_candidate :: "string list \<times> bool \<Rightarrow> string \<Rightarrow> string list \<times> bool" where
  "take_candidate (domains, matched) candidate = (case accept_candidate candidate of
      None \<Rightarrow> (domains, matched)
    | Some d \<Rightarrow> (if d \<in> set domains then domains else domains @ [d], True))"

definition strip_comment :: "string \<Rightarrow> string" where
  "strip_comment line = (if CHR ''#'' \<in> set line then strip (fst (cut CHR ''#'' line)) else line)"

fun parse_blocklist_loop :: "string list \<Rightarrow> blocklist_parse \<Rightarrow> blocklist_parse result" where
  "parse_blocklist_loop [] st = Inr st"
| "parse_blocklist_loop (raw # rest) st =
     (let line = strip raw in
      if is_comment_line line then parse_blocklist_loop rest st
      else let st1 = st\<lparr>bp_total := bp_total st + 1\<rparr>; cs = line_candidates (strip_comment line) in
        if cs = [] then parse_blocklist_loop rest (st1\<lparr>bp_skipped := bp_skipped st1 + 1\<rparr>)
        else let (ds, matched) = foldl take_candidate (bp_domains st1, False) cs;
                 st2 = st1\<lparr>bp_domains := ds, bp_skipped := bp_skipped st1 + (if matched then 0 else 1)\<rparr>
          in if max_blocklist_entries < length ds then Inl ValueError else parse_blocklist_loop rest st2)"

definition parse_blocklist_text :: "string \<Rightarrow> blocklist_parse result" where
  "parse_blocklist_text text = parse_blocklist_loop (splitlines text) \<lparr>bp_domains = [], bp_total = 0, bp_skipped = 0\<rparr>"

section \<open>The lists\<close>

definition blocklist_dir :: "app_config \<Rightarrow> string" where
  "blocklist_dir c = path_join (path_join (data_dir (app_system c)) ''internal-dns'') ''urls''"

definition blocklist_cache_path :: "env \<Rightarrow> app_config \<Rightarrow> string \<Rightarrow> string" where
  "blocklist_cache_path env c url = path_join (blocklist_dir c) (url_slug env url @ ''.txt'')"

definition blocklist_meta_path :: "env \<Rightarrow> app_config \<Rightarrow> string \<Rightarrow> string" where
  "blocklist_meta_path env c url = path_join (blocklist_dir c) (url_slug env url @ ''.json'')"

definition blocklist_conf_path :: "app_config \<Rightarrow> string" where
  "blocklist_conf_path c = generated_path c ''dnsmasq-blocklist.conf''"

definition file_blocklist :: "world \<Rightarrow> string \<Rightarrow> string list result" where
  "file_blocklist w path = res_bind (parse_blocklist_text (join [LF] (read_lines_of (files w path))))
     (\<lambda>r. Inr (bp_domains r))"

definition url_cache_blocklist :: "env \<Rightarrow> app_config \<Rightarrow> world \<Rightarrow> string \<Rightarrow> string list result" where
  "url_cache_blocklist env c w url = file_blocklist w (blocklist_cache_path env c url)"

definition merged_blocklist :: "env \<Rightarrow> app_config \<Rightarrow> world \<Rightarrow> string list result" where
  "merged_blocklist env c w = (let dns = app_internal_dns c in
     res_bind (res_map (file_blocklist w) (blocklist_files dns)) (\<lambda>fs.
     res_bind (res_map (url_cache_blocklist env c w) (blocklist_urls dns)) (\<lambda>us.
     Inr (fst (foldl append_unseen ([], []) (blocklist_domains dns @ concat fs @ concat us))))))"

definition blocklist_meta :: "env \<Rightarrow> app_config \<Rightarrow> string \<Rightarrow> world \<Rightarrow> json option" where
  "blocklist_meta env c url w = (case files w (blocklist_meta_path env c url) of None \<Rightarrow> None
     | Some t \<Rightarrow> (case json_loads (read_text t) of Some (JDict kvs) \<Rightarrow> Some (JDict kvs) | _ \<Rightarrow> None))"

definition fetch_blocklist_text :: "env \<Rightarrow> string \<Rightarrow> (world, string) action" where
  "fetch_blocklist_text env url =
     (if \<not> http_url_ok url then throw ValueError
      else andthen current (\<lambda>w.
           andthen (emit (Fetched url)) (\<lambda>_.
             case e_fetch env w url of
               None \<Rightarrow> throw ValueError
             | Some payload \<Rightarrow> if max_blocklist_bytes < length payload then throw ValueError else ret payload)))"

definition refresh_url_blocklist :: "env \<Rightarrow> app_config \<Rightarrow> string \<Rightarrow> bool \<Rightarrow> (world, blocklist_fetch) action" where
  "refresh_url_blocklist env c url preview =
     (if url \<notin> set (blocklist_urls (app_internal_dns c)) then throw ValueError
      else andthen (fetch_blocklist_text env url) (\<lambda>text.
      andthen (lift_result (parse_blocklist_text text)) (\<lambda>parsed.
        if bp_domains parsed = [] then throw ValueError
        else andthen
          (if preview then ret False
           else andthen (write_unique_lines (blocklist_cache_path env c url) (bp_domains parsed) 420) (\<lambda>_.
                andthen current (\<lambda>w.
                andthen (atomic_write_text (blocklist_meta_path env c url)
                   (json_dumps (meta_document url (e_now env w) (length (bp_domains parsed)) (bp_skipped parsed))
                     @ [LF]) 420) (\<lambda>_. ret True))))
          (\<lambda>saved. ret \<lparr>bf_url = url, bf_total = bp_total parsed, bf_valid = length (bp_domains parsed),
             bf_skipped = bp_skipped parsed, bf_sample = take 20 (bp_domains parsed), bf_saved = saved\<rparr>))))"

section \<open>Status\<close>

fun reason_name :: "dns_reason \<Rightarrow> string" where
  "reason_name Resolver_enabled = ''resolver_enabled''"
| "reason_name Blocklist_enabled = ''blocklist_enabled''"
| "reason_name Local_records_enabled = ''local_records_enabled''"
| "reason_name Split_dns = ''split_dns''"
| "reason_name Profile_domains = ''profile_domains''"
| "reason_name Host_split_domains = ''host_split_domains''"
| "reason_name Profile_host_domains = ''profile_host_domains''"
| "reason_name Profile_server_routes = ''profile_server_routes''"

definition path_exists :: "world \<Rightarrow> string \<Rightarrow> bool" where
  "path_exists w p = (files w p \<noteq> None)"

definition blocklist_file_status :: "world \<Rightarrow> string \<Rightarrow> json result" where
  "blocklist_file_status w path =
     res_bind (if path_exists w path then file_blocklist w path else Inr []) (\<lambda>ds.
     Inr (JDict [(''path'', JStr path), (''exists'', JBool (path_exists w path)), (''count'', JInt (int (length ds)))]))"

definition blocklist_url_status :: "env \<Rightarrow> app_config \<Rightarrow> world \<Rightarrow> string \<Rightarrow> json result" where
  "blocklist_url_status env c w url =
     res_bind (url_cache_blocklist env c w url) (\<lambda>ds.
     Inr (JDict [(''url'', JStr url), (''count'', JInt (int (length ds))),
        (''meta'', case blocklist_meta env c url w of None \<Rightarrow> JNull | Some m \<Rightarrow> m)]))"

definition strings :: "string list \<Rightarrow> json" where
  "strings xs = JList (map JStr xs)"

definition internal_dns_status :: "env \<Rightarrow> app_config \<Rightarrow> world \<Rightarrow> json result" where
  "internal_dns_status env c w =
     (let dns = app_internal_dns c; active = dnsmasq_active_reasons (path_exists w) c \<noteq> [];
          configured = [(''resolver_enabled'', JBool (resolver_enabled dns)),
            (''blocklist_enabled'', JBool (blocklist_enabled dns)),
            (''local_records_enabled'', JBool (local_records_enabled dns))]
      in res_bind (res_map (blocklist_file_status w) (blocklist_files dns)) (\<lambda>fs.
         res_bind (res_map (blocklist_url_status env c w) (blocklist_urls dns)) (\<lambda>us.
         res_bind (merged_blocklist env c w) (\<lambda>merged.
         Inr (JDict ([(''configured'', JDict configured),
           (''effective'', JDict [(''dnsmasq_active'', JBool active),
              (''client_dns_uses_dnsmasq'', JBool (client_dns_reasons (path_exists w) c \<noteq> [])),
              (''resolver_enabled'', JBool (resolver_enabled dns)),
              (''blocklist_enabled'', JBool (blocklist_enabled dns \<and> active)),
              (''local_records_enabled'', JBool (local_records_enabled dns \<and> active))]),
           (''effective_reasons'', strings (map reason_name (dnsmasq_active_reasons (path_exists w) c))),
           (''client_dns_reasons'', strings (map reason_name (client_dns_reasons (path_exists w) c)))]
          @ configured @
          [(''enabled'', JBool (resolver_enabled dns)), (''server_dns'', strings (srv_dns (app_server c))),
           (''search_domains'', strings (search_domains (app_server c))),
           (''tunnel_dns'', JBool (tunnel_dns (rt_split (app_routing c)))),
           (''listen'', JStr (dns_listen dns)), (''port'', JInt (dns_port dns)),
           (''client_dns'', strings (client_dns_servers (path_exists w) c)),
           (''blocklist_domains'', strings (blocklist_domains dns)),
           (''blocklist_files'', JList fs), (''blocklist_urls'', JList us),
           (''total'', JInt (int (length merged))), (''cache_size'', JInt (cache_size dns)),
           (''log_queries'', JBool (log_queries dns)), (''local_records'', strings (local_records dns)),
           (''public_upstreams'', strings (public_upstreams dns)),
           (''public_domains'', strings (public_domains dns))]))))))"

section \<open>dnsmasq\<close>

definition listen_args :: "app_config \<Rightarrow> string \<Rightarrow> string list" where
  "listen_args c verb = [''ip'', ''addr'', verb, dns_listen (app_internal_dns c) @ ''/32'', ''dev'', ''lo'']"

definition ensure_listen_address :: "env \<Rightarrow> string list \<Rightarrow> app_config \<Rightarrow> bool \<Rightarrow> (world, command_result) action" where
  "ensure_listen_address env sec c b = run_command env sec (listen_args c ''replace'') (no_check\<lparr>o_dry_run := b\<rparr>)"

definition remove_listen_address :: "env \<Rightarrow> string list \<Rightarrow> app_config \<Rightarrow> bool \<Rightarrow> (world, command_result) action" where
  "remove_listen_address env sec c b = run_command env sec (listen_args c ''del'') (no_check\<lparr>o_dry_run := b\<rparr>)"

definition dnsmasq_argv :: "app_config \<Rightarrow> string list" where
  "dnsmasq_argv c = [''/usr/sbin/dnsmasq'', ''--conf-file='' @ generated_path c ''dnsmasq.conf'', ''--keep-in-foreground'']"

definition sorted_strings :: "string list \<Rightarrow> string list" where
  "sorted_strings xs = map fst (sort_keys (map (\<lambda>x. (x, ())) xs))"

definition blocklist_lines :: "string list \<Rightarrow> string list" where
  "blocklist_lines domains =
     [''# Generated by korserver. Internal DNS blocklist for the project-owned'',
      ''# dnsmasq instance. Manual edits may be overwritten.'']
     @ concat (map (\<lambda>d. [''address=/'' @ d @ ''/0.0.0.0'', ''address=/'' @ d @ ''/::'']) (sorted_strings domains))"

definition render_blocklist_conf :: "env \<Rightarrow> app_config \<Rightarrow> world \<Rightarrow> string result" where
  "render_blocklist_conf env c w = res_bind (merged_blocklist env c w)
     (\<lambda>domains. Inr (join [LF] (blocklist_lines domains) @ [LF]))"

section \<open>What the parser computes\<close>

definition accepted_of_line :: "string \<Rightarrow> string list" where
  "accepted_of_line raw = (let line = strip raw in if is_comment_line line then []
     else concat (map (\<lambda>c. case accept_candidate c of None \<Rightarrow> [] | Some d \<Rightarrow> [d]) (line_candidates (strip_comment line))))"

lemma foldl_take_candidate:
  "fst (foldl take_candidate (ds, m) cs)
     = ds @ uniq ds (concat (map (\<lambda>c. case accept_candidate c of None \<Rightarrow> [] | Some d \<Rightarrow> [d]) cs))"
  "snd (foldl take_candidate (ds, m) cs) = (m \<or> (\<exists>c \<in> set cs. accept_candidate c \<noteq> None))"
proof (induction cs arbitrary: ds m)
  case (Cons c cs)
  { case 1 then show ?case using Cons.IH(1) by (cases "accept_candidate c") auto }
  { case 2 then show ?case using Cons.IH(2) by (cases "accept_candidate c") auto }
qed simp_all

text \<open>The domains are the accepted names of all lines without duplicates; every entry line is
  counted, and those without an accepted name are counted as skipped.\<close>

definition entry_lines :: "string list \<Rightarrow> string list" where
  "entry_lines ls = filter (\<lambda>l. \<not> is_comment_line (strip l)) ls"

lemma line_no_candidates: "line_candidates (strip_comment (strip l)) = [] \<Longrightarrow> accepted_of_line l = []"
  by (simp add: accepted_of_line_def Let_def)

lemma matched_iff: "\<not> is_comment_line (strip l) \<Longrightarrow>
   (\<exists>c \<in> set (line_candidates (strip_comment (strip l))). accept_candidate c \<noteq> None) \<longleftrightarrow> accepted_of_line l \<noteq> []"
  by (auto simp: accepted_of_line_def Let_def split: option.splits)

lemma parse_blocklist_loop_spec:
  "length (bp_domains st) \<le> max_blocklist_entries \<Longrightarrow>
   parse_blocklist_loop ls st = Inr r \<Longrightarrow>
   bp_domains r = bp_domains st @ uniq (bp_domains st) (concat (map accepted_of_line ls))
   \<and> bp_total r = bp_total st + length (entry_lines ls)
   \<and> bp_skipped r = bp_skipped st + length (filter (\<lambda>l. accepted_of_line l = []) (entry_lines ls))
   \<and> length (bp_domains r) \<le> max_blocklist_entries"
proof (induction ls arbitrary: st)
  case (Cons l ls)
  let ?line = "strip l" and ?cs = "line_candidates (strip_comment (strip l))"
  show ?case
  proof (cases "is_comment_line ?line")
    case True
    then have "accepted_of_line l = []" by (simp add: accepted_of_line_def)
    moreover from True Cons.prems have "parse_blocklist_loop ls st = Inr r" by simp
    ultimately show ?thesis using Cons.IH [OF Cons.prems(1)] True by (auto simp: entry_lines_def)
  next
    case False
    show ?thesis
    proof (cases "?cs = []")
      case True
      with False Cons.prems have "parse_blocklist_loop ls (st\<lparr>bp_total := bp_total st + 1, bp_skipped := bp_skipped st + 1\<rparr>) = Inr r"
        by (simp add: Let_def)
      from Cons.IH [OF _ this] Cons.prems(1) line_no_candidates [OF True] False show ?thesis
        by (auto simp: entry_lines_def)
    next
      case ne: False
      let ?f = "foldl take_candidate (bp_domains st, False) ?cs"
      have a: "concat (map (\<lambda>c. case accept_candidate c of None \<Rightarrow> [] | Some d \<Rightarrow> [d]) ?cs) = accepted_of_line l"
        using False by (simp add: accepted_of_line_def Let_def)
      have d: "fst ?f = bp_domains st @ uniq (bp_domains st) (accepted_of_line l)"
        using foldl_take_candidate(1) [of "bp_domains st" False ?cs] a by simp
      have m: "snd ?f \<longleftrightarrow> accepted_of_line l \<noteq> []"
        using foldl_take_candidate(2) [of "bp_domains st" False ?cs] matched_iff [OF False] by simp
      from Cons.prems(2) False ne have "length (fst ?f) \<le> max_blocklist_entries"
        "parse_blocklist_loop ls (st\<lparr>bp_total := bp_total st + 1, bp_domains := fst ?f,
           bp_skipped := bp_skipped st + (if snd ?f then 0 else 1)\<rparr>) = Inr r"
        by (auto simp: Let_def split: prod.splits if_splits)
      from Cons.IH [OF _ this(2)] this(1) d m False show ?thesis
        by (auto simp: entry_lines_def uniq_append)
    qed
  qed
qed (simp add: entry_lines_def)

lemma accepted_valid: "d \<in> set (accepted_of_line l) \<Longrightarrow> d \<notin> set hosts_file_noise \<and> blocklist_domain_re d"
  by (auto simp: accepted_of_line_def accept_candidate_def Let_def split: if_splits option.splits)

lemma set_sorted_strings: "set (sorted_strings xs) = set xs"
  by (force simp: sorted_strings_def)

end
