(* ===== verification/Daemon_Conf.thy ===== *)
theory Daemon_Conf
  imports Internal_Dns
begin

text \<open>
  The configuration files of the two daemons, as the texts their templates produce:
  \<open>renderers/ocserv.py\<close> with \<open>ocserv.conf.j2\<close> and the group policy files, \<open>renderers/dnsmasq.py\<close>
  with \<open>dnsmasq.conf.j2\<close>. The template engine runs with \<open>trim_blocks\<close>: a line end right after
  a block tag is dropped, also at the end of a line that prints something.
\<close>

definition text_line :: "string \<Rightarrow> string" where
  "text_line s = s @ [LF]"

definition lines_of :: "string list \<Rightarrow> string" where
  "lines_of ls = concat (map text_line ls)"

definition show_bool :: "bool \<Rightarrow> string" where
  "show_bool b = (if b then ''true'' else ''false'')"

text \<open>How the engine prints an optional path.\<close>

definition show_option :: "string option \<Rightarrow> string" where
  "show_option v = (case v of None \<Rightarrow> ''None'' | Some s \<Rightarrow> s)"

definition setting :: "string \<Rightarrow> string \<Rightarrow> string" where
  "setting key value = key @ '' = '' @ value"

definition optional_setting :: "string \<Rightarrow> string option \<Rightarrow> string list" where
  "optional_setting key v = (if is_set v then [setting key (the v)] else [])"

section \<open>ocserv\<close>

fun show_separator :: "separator \<Rightarrow> string" where
  "show_separator Semicolon = '';''"
| "show_separator Comma = '',''"

definition oidc_auth_line :: "oidc_auth_config \<Rightarrow> string" where
  "oidc_auth_line o1 = (case connector o1 of
      Pam \<Rightarrow> ''pam['' @ join '','' ([''service='' @ pam_service o1]
        @ (case pam_gid_min o1 of None \<Rightarrow> [] | Some g \<Rightarrow> [''gid-min='' @ show_int g])) @ '']''
    | Radius \<Rightarrow> ''radius['' @ join '','' ([''config='' @ radius_config_file o1,
          ''groupconfig='' @ show_bool (radius_groupconfig o1), ''group-separator='' @ show_separator (group_separator o1)]
        @ (if is_set (nas_identifier o1) then [''nas-identifier='' @ the (nas_identifier o1)] else [])) @ '']'')"

definition auth_lines :: "app_config \<Rightarrow> string list" where
  "auth_lines c = (let a = app_auth c in
     (if password_auth a then [''plain[passwd='' @ secret_path c ''ocpasswd'' @ '']''] else [])
     @ (if oidc_enabled (oidc a) then [oidc_auth_line (oidc a)] else [])
     @ (if certificate_auth a then [''certificate''] else [])
     @ (if otp_enabled (otp a) \<and> ocserv_oath_auth (otp a) then [''oath[usersfile='' @ secret_path c ''users.oath'' @ '']'']
        else []))"

definition select_group_lines :: "app_config \<Rightarrow> string list" where
  "select_group_lines c = map (\<lambda>g. if is_set (display_name g)
     then gp_name g @ ''['' @ the (display_name g) @ '']'' else gp_name g) (group_policies (app_identity c))"

definition server_files :: "app_config \<Rightarrow> string option \<times> string option \<times> string option" where
  "server_files c = (let certs = app_certificates c in
     if cert_mode certs = External_certs then (server_cert certs, server_key certs, ca_cert certs)
     else (Some (cert_path c ''server.crt''), Some (cert_path c ''server.key''), Some (cert_path c ''ca.crt'')))"

text \<open>One entry of the raw options when they are a mapping. The line end after the closing
  \<open>endif\<close> is dropped.\<close>

fun show_raw_value :: "json \<Rightarrow> string" where
  "show_raw_value (JStr s) = s"
| "show_raw_value (JInt i) = show_int i"
| "show_raw_value (JBool b) = (if b then ''True'' else ''False'')"
| "show_raw_value _ = []"

definition raw_entry :: "string \<times> json \<Rightarrow> string" where
  "raw_entry kv = (if snd kv = JNull then fst kv else setting (fst kv) (show_raw_value (snd kv)))"

definition raw_options :: "json \<Rightarrow> string" where
  "raw_options j = (case j of JDict kvs \<Rightarrow> concat (map raw_entry kvs) | JList xs \<Rightarrow> lines_of (strings_in xs) | _ \<Rightarrow> [])"

definition ocserv_head :: "app_config \<Rightarrow> string list" where
  "ocserv_head c = (let srv = app_server c; ident = app_identity c; (cert, key, ca) = server_files c in
     [''# Generated by korserver. Manual edits may be overwritten.'', setting ''tcp-port'' (show_int (srv_port srv))]
     @ (if udp_enabled srv then [setting ''udp-port'' (show_int (srv_port srv))] else [])
     @ [setting ''listen-host'' (srv_listen srv), setting ''device'' (device srv), ''run-as-user = nobody'',
        ''run-as-group = nogroup'', ''use-occtl = true'', setting ''occtl-socket-file'' (generated_path c ''occtl.sock''),
        setting ''socket-file'' (path_join (generated_dir (app_system c)) ''ocserv.sock'')]
     @ (if debug_level srv > 0 then [setting ''log-level'' (show_int (debug_level srv))] else [])
     @ [[], setting ''server-cert'' (show_option cert), setting ''server-key'' (show_option key),
        setting ''ca-cert'' (show_option ca)]
     @ (if certificate_auth (app_auth c) then [''cert-user-oid = 2.5.4.3''] else [])
     @ [[]] @ map (\<lambda>item. setting ''auth'' ([CHR 0x22] @ item @ [CHR 0x22])) (auth_lines c)
     @ optional_setting ''config-per-user'' (config_per_user_dir ident)
     @ [setting ''config-per-group'' (show_option (config_per_group_dir ident))]
     @ optional_setting ''default-group-config'' (default_group_config ident)
     @ map (setting ''select-group'') (select_group_lines c)
     @ [setting ''select-group-by-url'' (show_bool (select_group_by_url ident))]
     @ optional_setting ''default-select-group'' (default_select_group ident) @ [[]])"

definition ocserv_tail :: "(string \<Rightarrow> bool) \<Rightarrow> app_config \<Rightarrow> string list" where
  "ocserv_tail exists_file c = (let srv = app_server c; cam = camouflage srv in
     [''# UI/API realm label: '' @ srv_realm srv, setting ''max-clients'' (show_int (max_clients srv)),
      setting ''max-same-clients'' (show_int (max_same_clients srv)), setting ''keepalive'' (show_int (keepalive srv)),
      setting ''compression'' (show_bool (compression srv)), setting ''cisco-client-compat'' (show_bool (cisco_client_compat srv)),
      ''try-mtu-discovery = true'', ''isolate-workers = true'', [], setting ''ipv4-network'' (ipv4_network srv)]
     @ map (setting ''dns'') (client_dns_servers exists_file c)
     @ (if dns_tunnel_active exists_file c then [''tunnel-all-dns = true''] else [])
     @ map (setting ''split-dns'') (search_domains srv)
     @ (if search_domains srv \<noteq> [] then [setting ''default-domain'' (hd (search_domains srv))] else [])
     @ map (setting ''route'') (srv_routes srv) @ map (setting ''no-route'') (srv_no_routes srv) @ [[]]
     @ optional_setting ''connect-script'' (connect_script srv)
     @ optional_setting ''disconnect-script'' (disconnect_script srv) @ [[]]
     @ (if cam_enabled cam then [''camouflage = true'', setting ''camouflage_secret'' (show_option (cam_secret cam)),
          setting ''camouflage_realm'' (cam_realm cam)] else []) @ [[]])"

definition render_ocserv :: "(string \<Rightarrow> bool) \<Rightarrow> app_config \<Rightarrow> string" where
  "render_ocserv exists_file c =
     lines_of (ocserv_head c @ ocserv_tail exists_file c) @ raw_options (app_raw_ocserv_options c)"

definition ocserv_target_path :: "app_config \<Rightarrow> string" where
  "ocserv_target_path c = generated_path c ''ocserv.conf''"

definition group_policy_target_path :: "app_config \<Rightarrow> group_policy_config \<Rightarrow> string" where
  "group_policy_target_path c g =
     path_join (case config_per_group_dir (app_identity c) of
        Some d \<Rightarrow> d | None \<Rightarrow> path_join (generated_dir (app_system c)) ''config-per-group'') (gp_name g)"

definition opt_line :: "string \<Rightarrow> ('a \<Rightarrow> string) \<Rightarrow> 'a option \<Rightarrow> string list" where
  "opt_line key f v = (case v of None \<Rightarrow> [] | Some x \<Rightarrow> [setting key (f x)])"

definition render_group_policy :: "group_policy_config \<Rightarrow> string" where
  "render_group_policy g = join [LF]
     ([''# Generated by korserver. Manual edits may be overwritten.'', ''# Group policy: '' @ gp_name g]
      @ map (setting ''route'') (gp_routes g) @ map (setting ''no-route'') (gp_no_routes g)
      @ map (setting ''dns'') (gp_dns g) @ map (setting ''split-dns'') (gp_split_dns g)
      @ opt_line ''tunnel-all-dns'' show_bool (tunnel_all_dns g)
      @ opt_line ''max-same-clients'' show_int (gp_max_same_clients g)
      @ opt_line ''session-timeout'' show_int (session_timeout g)
      @ opt_line ''idle-timeout'' show_int (idle_timeout g)
      @ opt_line ''no-udp'' show_bool (gp_no_udp g)) @ [LF]"

end
