(* ===== verification/Dnsmasq_Conf.thy ===== *)
theory Dnsmasq_Conf
  imports Daemon_Conf Nft_Ruleset Nftables_Service
begin

text \<open>
  \<open>renderers/dnsmasq.py\<close> with \<open>dnsmasq.conf.j2\<close>: the upstream servers, the domains answered by
  other servers, and the domains whose answers dnsmasq adds to a dynamic nft set.
\<close>

definition server_line :: "string \<Rightarrow> string \<Rightarrow> string" where
  "server_line domain dns = ''server=/'' @ domain @ ''/'' @ dns"

definition nftset_line :: "string \<Rightarrow> string \<Rightarrow> string \<Rightarrow> string \<Rightarrow> string" where
  "nftset_line table domain v4 v6 =
     ''nftset=/'' @ domain @ ''/4#inet#'' @ table @ ''#'' @ v4 @ '',6#inet#'' @ table @ ''#'' @ v6"

definition split_dns_active :: "app_config \<Rightarrow> bool" where
  "split_dns_active c = (client_traffic (app_routing c) \<and> rt_mode (app_routing c) = Split
     \<and> tunnel_dns (rt_split (app_routing c)))"

definition upstream_dns :: "app_config \<Rightarrow> string list" where
  "upstream_dns c = filter (\<lambda>d. d \<noteq> dns_listen (app_internal_dns c)) (srv_dns (app_server c))"

text \<open>\<open>host, ip = record.split()\<close>.\<close>

definition record_line :: "string \<Rightarrow> string result" where
  "record_line r = (case split_ws r of [host, ip] \<Rightarrow> Inr (''address=/'' @ host @ ''/'' @ ip) | _ \<Rightarrow> Inl ValueError)"

definition dnsmasq_head :: "app_config \<Rightarrow> string list" where
  "dnsmasq_head c = (let dns = app_internal_dns c in
     [''# Generated by korserver. Project-owned dnsmasq instance only.'',
      ''port='' @ show_int (dns_port dns), ''listen-address='' @ dns_listen dns, ''bind-interfaces'', ''no-hosts'',
      ''domain-needed'', ''bogus-priv'',
      ''# Don't cache NXDOMAIN/NODATA: a transient wrong answer from one upstream'',
      ''# would otherwise stick for the negative TTL, making a single name fail'',
      ''# for minutes while its neighbours keep resolving.'', ''no-negcache'',
      ''cache-size='' @ show_int (cache_size dns)]
     @ (if log_queries dns then [''log-queries''] else []) @ [[]]
     @ (if upstream_dns c \<noteq> [] then
          [''# Explicit upstreams only; the host's resolv.conf may point at a container'',
           ''# or stub resolver with a different view of the same zones.'', ''no-resolv''] else [])
     @ map (\<lambda>d. ''server='' @ d) (upstream_dns c) @ [[]]
     @ concat (map (\<lambda>domain. map (server_line domain) (public_upstreams dns)) (public_domains dns)) @ [[]])"

definition split_lines :: "app_config \<Rightarrow> string list \<Rightarrow> string list" where
  "split_lines c domains = (if split_dns_active c \<and> upstream_dns c \<noteq> [] then
     concat (map (\<lambda>d. (if d \<notin> set (public_domains (app_internal_dns c)) then [server_line d (hd (upstream_dns c))] else [])
        @ [nftset_line (filter_table c) d ''split_v4_dynamic'' ''split_v6_dynamic'']) domains) else [])"

definition named_target_lines :: "app_config \<Rightarrow> routing_target \<Rightarrow> string list" where
  "named_target_lines c t = (if t_name t \<noteq> ''default'' \<and> t_domains t \<noteq> [] then
     map (\<lambda>d. nftset_line (filter_table c) d (set_v4_dynamic t) (set_v6_dynamic t)) (t_domains t) else [])"

definition host_target_lines :: "app_config \<Rightarrow> routing_target \<Rightarrow> string list" where
  "host_target_lines c t = (if host_enabled t \<and> t_host_domains t \<noteq> [] then
     concat (map (\<lambda>d. if d \<notin> set (public_domains (app_internal_dns c)) then map (server_line d) (t_server_dns t) else [])
        (t_server_domains t))
     @ map (\<lambda>d. nftset_line (filter_table c) d (opt_name (host_set_v4_dynamic t)) (opt_name (host_set_v6_dynamic t)))
        (t_host_domains t) else [])"

definition dnsmasq_lines :: "app_config \<Rightarrow> routing_target list \<Rightarrow> string list \<Rightarrow> string list \<Rightarrow> string list \<Rightarrow> string list" where
  "dnsmasq_lines c targets split_domains host_domains records =
     dnsmasq_head c @ split_lines c split_domains @ [[]]
     @ concat (map (named_target_lines c) targets) @ [[]]
     @ concat (map (host_target_lines c) targets) @ [[]]
     @ map (\<lambda>d. nftset_line (filter_table c) d ''host_split_v4_dynamic'' ''host_split_v6_dynamic'') host_domains @ [[]]
     @ records @ [[]]
     @ (if blocklist_enabled (app_internal_dns c) then [''conf-file='' @ blocklist_conf_path c] else [])"

definition render_dnsmasq :: "env \<Rightarrow> app_config \<Rightarrow> world \<Rightarrow> string result" where
  "render_dnsmasq env c w =
     res_bind (if local_records_enabled (app_internal_dns c)
       then res_map record_line (local_records (app_internal_dns c)) else Inr []) (\<lambda>records.
     res_bind (list_targets env c (main_interface (app_routing c)) w) (\<lambda>targets.
     res_bind (if split_dns_active c then list_domains env c w else Inr []) (\<lambda>split_domains.
     res_bind (if host_split_active c then list_host_domains env c w else Inr []) (\<lambda>host_domains.
     Inr (lines_of (dnsmasq_lines c targets split_domains host_domains records))))))"

definition dnsmasq_target_path :: "app_config \<Rightarrow> string" where
  "dnsmasq_target_path c = generated_path c ''dnsmasq.conf''"

section \<open>The sets dnsmasq writes to\<close>

text \<open>Every dynamic set the file names is one the ruleset declares for the same targets.\<close>

definition dynamic_sets :: "app_config \<Rightarrow> routing_target list \<Rightarrow> string set" where
  "dynamic_sets c targets = set (concat (map target_set_names targets))
     \<union> (if host_split_active c then set host_split_names else {})"

end
