(* ===== verification/Server_Service.thy ===== *)
theory Server_Service
  imports Dnsmasq_Conf
begin

text \<open>
  \<open>services/ocserv_reload.py\<close>, \<open>services/config.py\<close> and \<open>services/server.py\<close>: which change of
  the ocserv configuration needs a restart, the set of rendered files, and the control of the
  supervised processes. How supervisord answers is the environment; the texts of the nft and
  supervisor templates are parameters.
\<close>

section \<open>Reload or restart\<close>

definition restart_only_directives :: "string list" where
  "restart_only_directives = [''auth'', ''enable-auth'', ''acct'', ''cert-user-oid'', ''cert-group-oid'', ''tcp-port'',
     ''udp-port'', ''listen-host'', ''udp-listen-host'', ''listen-proxy-proto'', ''device'', ''run-as-user'',
     ''run-as-group'', ''socket-file'', ''occtl-socket-file'', ''use-occtl'', ''isolate-workers'', ''pid-file'']"

definition restart_setting :: "string \<Rightarrow> (string \<times> string) list" where
  "restart_setting raw = (let line = strip raw in
     if line = [] \<or> starts_with ''#'' line \<or> CHR ''='' \<notin> set line then []
     else case cut CHR ''='' line of
       (k, Some v) \<Rightarrow> (if strip k \<in> set restart_only_directives then [(strip k, strip v)] else [])
     | _ \<Rightarrow> [])"

definition restart_only_settings :: "string \<Rightarrow> (string \<times> string) list" where
  "restart_only_settings conf = concat (map restart_setting (splitlines conf))"

definition restart_required :: "string \<Rightarrow> string \<Rightarrow> bool" where
  "restart_required previous current_conf = (restart_only_settings previous \<noteq> restart_only_settings current_conf)"

section \<open>The rendered files\<close>

record templates =
  t_printer :: printer
  t_supervisor :: "app_config \<Rightarrow> string"
  t_vpnc_script :: string

record rendered_file =
  rf_path :: string
  rf_content :: string
  rf_mode :: nat

definition rendered :: "string \<Rightarrow> string \<Rightarrow> rendered_file" where
  "rendered p t = \<lparr>rf_path = p, rf_content = t, rf_mode = 420\<rparr>"

definition supervisor_target_path :: "app_config \<Rightarrow> string" where
  "supervisor_target_path c = generated_path c ''supervisor.conf''"

definition render_files :: "env \<Rightarrow> templates \<Rightarrow> app_config \<Rightarrow> world \<Rightarrow> rendered_file list result" where
  "render_files env tm c w =
     res_bind (render_ruleset env c None w) (\<lambda>r.
     res_bind (if dns_tunnel_active (path_exists w) c
       then res_bind (render_dnsmasq env c w) (\<lambda>t. Inr [rendered (dnsmasq_target_path c) t]) else Inr []) (\<lambda>dns.
     res_bind (if blocklist_enabled (app_internal_dns c)
       then res_bind (render_blocklist_conf env c w) (\<lambda>t. Inr [rendered (blocklist_conf_path c) t]) else Inr []) (\<lambda>blocks.
     Inr ([rendered (ocserv_target_path c) (render_ocserv (path_exists w) c),
           rendered (target_path c) (print_ruleset (t_printer tm) c r),
           rendered (supervisor_target_path c) (t_supervisor tm c)] @ dns @ blocks
          @ map (\<lambda>g. rendered (group_policy_target_path c g) (render_group_policy g)) (group_policies (app_identity c))))))"

definition write_rendered :: "rendered_file \<Rightarrow> (world, string) action" where
  "write_rendered f = andthen (atomic_write_text (rf_path f) (rf_content f) (rf_mode f)) (\<lambda>_. ret (rf_path f))"

definition write_rendered_files :: "env \<Rightarrow> templates \<Rightarrow> app_config \<Rightarrow> (world, string list) action" where
  "write_rendered_files env tm c =
     andthen current (\<lambda>w. andthen (lift_result (render_files env tm c w)) (action_map write_rendered))"

section \<open>Supervised processes\<close>

text \<open>One remote call: a fault raises, as does a failure to reach supervisord.\<close>

definition rpc_call :: "env \<Rightarrow> string \<Rightarrow> string list \<Rightarrow> (world, json) action" where
  "rpc_call env method args =
     andthen current (\<lambda>w.
     andthen (happen env (Called method args)) (\<lambda>_.
       case e_rpc env w method args of Rpc_fault f \<Rightarrow> throw (RpcError f) | Rpc_value v \<Rightarrow> ret v))"

definition rpc_result :: "string list \<Rightarrow> int \<Rightarrow> string \<Rightarrow> string \<Rightarrow> command_result" where
  "rpc_result argv rc out err =
     \<lparr>r_argv = ''supervisor-rpc'' # argv, r_code = rc, r_out = out, r_err = err, r_dry = False\<rparr>"

definition dry_run_result :: "string list \<Rightarrow> command_result" where
  "dry_run_result argv = (rpc_result argv 0 [] [])\<lparr>r_dry := True\<rparr>"

text \<open>\<open>_run\<close>: only a remote fault becomes a failed result.\<close>

definition run_rpc :: "(world, 'a) action \<Rightarrow> string list \<Rightarrow> (world, command_result) action" where
  "run_rpc action argv = (\<lambda>w. case action w of
      (Inr _, w') \<Rightarrow> (Inr (rpc_result argv 0 [] []), w')
    | (Inl (RpcError f), w') \<Rightarrow> (Inr (rpc_result argv 1 [] f), w')
    | (Inl e, w') \<Rightarrow> (Inl e, w'))"

definition start_process :: "env \<Rightarrow> string \<Rightarrow> (world, json) action" where
  "start_process env name = rpc_call env ''startProcess'' [name]"

definition stop_process :: "env \<Rightarrow> string \<Rightarrow> (world, json) action" where
  "stop_process env name = rpc_call env ''stopProcess'' [name]"

definition signal_process :: "env \<Rightarrow> string \<Rightarrow> string \<Rightarrow> (world, json) action" where
  "signal_process env name sig = rpc_call env ''signalProcess'' [name, sig]"

text \<open>Upper case of the ASCII letters, the only ones in the markers.\<close>

definition upper_char :: "char \<Rightarrow> char" where
  "upper_char c = (if 97 \<le> code c \<and> code c \<le> 122 then char_of (code c - 32) else c)"

definition upper :: "string \<Rightarrow> string" where
  "upper s = map upper_char s"

definition not_running_faults :: "string list" where
  "not_running_faults = [''NOT_RUNNING'', ''STOPPED'', ''already stopped'']"

definition is_expected_fault :: "string list \<Rightarrow> py_error \<Rightarrow> bool" where
  "is_expected_fault markers e = (case e of
     RpcError f \<Rightarrow> list_ex (\<lambda>m. contains (upper m) (upper f)) markers | _ \<Rightarrow> False)"

text \<open>Stop, unless it is not running, then start.\<close>

definition restart_process :: "env \<Rightarrow> string \<Rightarrow> (world, json) action" where
  "restart_process env name =
     andthen (catch (is_expected_fault not_running_faults)
        (andthen (stop_process env name) (\<lambda>_. ret ())) (ret ())) (\<lambda>_. start_process env name)"

definition server_start :: "env \<Rightarrow> templates \<Rightarrow> app_config \<Rightarrow> bool \<Rightarrow> (world, command_result) action" where
  "server_start env tm c b = (if b then ret (dry_run_result [''startProcess'', ''ocserv''])
     else andthen (write_rendered_files env tm c) (\<lambda>_.
       run_rpc (start_process env ''ocserv'') [''startProcess'', ''ocserv'']))"

definition server_stop :: "env \<Rightarrow> bool \<Rightarrow> (world, command_result) action" where
  "server_stop env b = (if b then ret (dry_run_result [''stopProcess'', ''ocserv''])
     else run_rpc (stop_process env ''ocserv'') [''stopProcess'', ''ocserv''])"

definition server_reload :: "env \<Rightarrow> bool \<Rightarrow> (world, command_result) action" where
  "server_reload env b = (let argv = [''signalProcess'', ''ocserv'', ''HUP''] in
     if b then ret (dry_run_result argv) else run_rpc (signal_process env ''ocserv'' ''HUP'') argv)"

definition server_restart :: "env \<Rightarrow> templates \<Rightarrow> app_config \<Rightarrow> bool \<Rightarrow> (world, command_result) action" where
  "server_restart env tm c b = (let argv = [''restartProcess'', ''ocserv''] in
     if b then ret (dry_run_result argv)
     else andthen (write_rendered_files env tm c) (\<lambda>_. run_rpc (restart_process env ''ocserv'') argv))"

definition apply_config_change :: "env \<Rightarrow> templates \<Rightarrow> app_config \<Rightarrow> string \<Rightarrow> bool
    \<Rightarrow> (world, command_result option) action" where
  "apply_config_change env tm c previous b =
     (if \<not> srv_enabled (app_server c) then ret None
      else andthen current (\<lambda>w.
        andthen (if restart_required previous (render_ocserv (path_exists w) c)
                 then server_restart env tm c b else server_reload env b) (\<lambda>r. ret (Some r))))"

section \<open>Process status\<close>

record process_status =
  ps_name :: string
  ps_state :: string
  ps_description :: string

definition text_field :: "json \<Rightarrow> string \<Rightarrow> string \<Rightarrow> string" where
  "text_field entry k dflt = (case json_get entry k of None \<Rightarrow> dflt | Some v \<Rightarrow> py_str v)"

definition format_process_line :: "json \<Rightarrow> string" where
  "format_process_line entry = rstrip_if is_space
     (text_field entry ''name'' [] @ '' '' @ text_field entry ''statename'' ''UNKNOWN'' @ '' '' @ text_field entry ''description'' [])"

definition server_status :: "env \<Rightarrow> (world, command_result) action" where
  "server_status env = (\<lambda>w. case rpc_call env ''getAllProcessInfo'' [] w of
      (Inr info, w') \<Rightarrow> (Inr (rpc_result [''getAllProcessInfo''] 0 (join [LF] (map format_process_line (items_of info))) []), w')
    | (Inl (RpcError f), w') \<Rightarrow> (Inr (rpc_result [''getAllProcessInfo''] 1 [] f), w')
    | (Inl e, w') \<Rightarrow> (Inl e, w'))"

text \<open>\<open>line.split(None, 2)\<close>: two words and the rest.\<close>

definition split_process_line :: "string \<Rightarrow> process_status option" where
  "split_process_line line =
     (let l = strip line; a = takeWhile (\<lambda>c. \<not> is_space c) l; r1 = dropWhile is_space (drop (length a) l);
          b = takeWhile (\<lambda>c. \<not> is_space c) r1; r2 = dropWhile is_space (drop (length b) r1) in
      if l = [] \<or> b = [] then None else Some \<lparr>ps_name = a, ps_state = b, ps_description = r2\<rparr>)"

definition parse_processes :: "string \<Rightarrow> process_status list" where
  "parse_processes out = some_values (map split_process_line (splitlines out))"

definition expected_process_names :: "string list" where
  "expected_process_names = [''api'', ''ocserv'', ''dnsmasq'', ''certbot-renew'', ''upstream-watchdog'']"

definition missing_process_state :: "(string \<Rightarrow> bool) \<Rightarrow> app_config \<Rightarrow> string \<Rightarrow> string \<times> string" where
  "missing_process_state exists_file c name =
     (let le = letsencrypt (app_certificates c) in
      if name = ''dnsmasq'' \<and> \<not> dns_tunnel_active exists_file c
        then (''DISABLED'', ''internal DNS and split DNS are disabled'')
      else if name = ''certbot-renew'' \<and> \<not> le_enabled le then (''DISABLED'', ''Let's Encrypt is disabled'')
      else if name = ''certbot-renew'' \<and> \<not> auto_renew_enabled le then (''DISABLED'', ''Let's Encrypt auto-renew is disabled'')
      else if name = ''upstream-watchdog'' \<and> \<not> up_enabled (app_upstream c) then (''DISABLED'', ''upstream is disabled'')
      else (''UNKNOWN'', ''not reported by supervisor''))"

text \<open>The last entry of a name wins in the dictionary of observed processes.\<close>

definition observed_process :: "process_status list \<Rightarrow> string \<Rightarrow> process_status option" where
  "observed_process ps name = map_of (map (\<lambda>p. (ps_name p, p)) (rev ps)) name"

definition process_or_missing :: "(string \<Rightarrow> bool) \<Rightarrow> app_config \<Rightarrow> process_status list \<Rightarrow> string \<Rightarrow> process_status" where
  "process_or_missing exists_file c ps name = (case observed_process ps name of
      Some p \<Rightarrow> p
    | None \<Rightarrow> (case missing_process_state exists_file c name of
        (st, d) \<Rightarrow> \<lparr>ps_name = name, ps_state = st, ps_description = d\<rparr>))"

definition server_processes :: "env \<Rightarrow> app_config \<Rightarrow> (world, process_status list) action" where
  "server_processes env c =
     andthen (server_status env) (\<lambda>st.
     andthen current (\<lambda>w.
     ret (map (process_or_missing (path_exists w) c (parse_processes (r_out st))) expected_process_names)))"

definition process_action :: "env \<Rightarrow> string \<Rightarrow> string \<Rightarrow> bool \<Rightarrow> (world, command_result) action" where
  "process_action env action name b =
     (if action \<notin> {''start'', ''stop'', ''restart'', ''status''} then throw ValueError
      else if name \<notin> set expected_process_names then throw ValueError
      else if b then ret (dry_run_result [action, name])
      else if action = ''start'' then run_rpc (start_process env name) [''startProcess'', name]
      else if action = ''stop'' then run_rpc (stop_process env name) [''stopProcess'', name]
      else if action = ''restart'' then run_rpc (restart_process env name) [''restartProcess'', name]
      else (\<lambda>w. case rpc_call env ''getProcessInfo'' [name] w of
          (Inr info, w') \<Rightarrow> (Inr (rpc_result [''getProcessInfo'', name] 0 (format_process_line info) []), w')
        | (Inl (RpcError f), w') \<Rightarrow> (Inr (rpc_result [''getProcessInfo'', name] 1 [] f), w')
        | (Inl e, w') \<Rightarrow> (Inl e, w')))"

end
