(* ===== verification/Reload_Facts.thy ===== *)
theory Reload_Facts
  imports Server_Service
begin

text \<open>
  What the text comparison of \<open>services/ocserv_reload.py\<close> means for rendered configurations:
  the settings a running ocserv cannot pick up, read off the configuration itself.
\<close>

section \<open>Settings of a line\<close>

lemma splitlines_lines_of: "\<forall>l \<in> set ls. no_breaks l \<Longrightarrow> splitlines (lines_of ls) = ls"
proof (induction ls)
  case (Cons l ls)
  then show ?case
    using splitlines_acc_line [of l "[]" "lines_of ls"] by (simp add: lines_of_def text_line_def splitlines_def)
qed (simp add: lines_of_def splitlines_def)

lemma settings_lines_of:
  "\<forall>l \<in> set ls. no_breaks l \<Longrightarrow> restart_only_settings (lines_of ls) = concat (map restart_setting ls)"
  by (simp add: restart_only_settings_def splitlines_lines_of)

lemma rstrip_append: "rstrip_if p (a @ b) = (if rstrip_if p b = [] then rstrip_if p a else a @ rstrip_if p b)"
  by (induction b rule: rev_induct) (auto simp flip: append_assoc)

lemma rstrip_keep: "a \<noteq> [] \<Longrightarrow> \<not> p (last a) \<Longrightarrow> rstrip_if p (a @ b) = a @ rstrip_if p b"
  using rstrip_if_idle [of a p] by (simp add: rstrip_append)

lemma rstrip_all: "\<forall>c \<in> set s. p c \<Longrightarrow> rstrip_if p s = []"
  by (simp add: rstrip_if_def dropWhile_eq_Nil_conv)

lemma dropWhile_rstrip: "dropWhile p (rstrip_if p s) = rstrip_if p (dropWhile p s)"
proof (induction s rule: rev_induct)
  case (snoc x xs)
  then show ?case
    by (cases "\<forall>c \<in> set xs. p c") (auto simp: dropWhile_append rstrip_all dropWhile_eq_Nil_conv rstrip_if_def dest: set_dropWhileD)
qed simp

lemma lstrip_head: "k \<noteq> [] \<Longrightarrow> \<not> is_space (hd k) \<Longrightarrow> dropWhile is_space (k @ r) = k @ r"
  by (cases k) auto

definition key_ok :: "string \<Rightarrow> bool" where
  "key_ok k = (k \<noteq> [] \<and> CHR ''='' \<notin> set k \<and> hd k \<noteq> CHR ''#'' \<and> \<not> is_space (hd k) \<and> \<not> is_space (last k))"

lemma strip_setting:
  assumes "key_ok k"
  shows "\<exists>v'. strip (setting k v) = k @ '' ='' @ v' \<and> strip v' = strip v"
proof -
  have eq: "\<not> is_space CHR ''=''" by code_simp
  have sp: "is_space CHR '' ''" by code_simp
  have l: "dropWhile is_space (setting k v) = setting k v"
    using assms by (simp add: setting_def key_ok_def lstrip_head)
  have "rstrip_if is_space (setting k v) = k @ '' ='' @ rstrip_if is_space ('' '' @ v)"
    using rstrip_keep [of "k @ '' =''" is_space "'' '' @ v"] eq by (simp add: setting_def)
  moreover have "strip (rstrip_if is_space ('' '' @ v)) = strip v"
    using sp by (simp add: strip_def strip_if_def lstrip_if_def dropWhile_rstrip)
  ultimately show ?thesis using l by (auto simp: strip_def strip_if_def lstrip_if_def)
qed

lemma restart_setting_setting:
  assumes "key_ok k"
  shows "restart_setting (setting k v) = (if k \<in> set restart_only_directives then [(k, strip v)] else [])"
proof -
  obtain v' where v: "strip (setting k v) = k @ '' ='' @ v'" "strip v' = strip v" using strip_setting [OF assms] by blast
  have k: "k \<noteq> []" "CHR ''='' \<notin> set k" "hd k \<noteq> CHR ''#''" using assms by (auto simp: key_ok_def)
  have "cut CHR ''='' (k @ '' ='' @ v') = (k @ '' '', Some v')"
    using cut_append [of "CHR ''=''" "k @ '' ''" v'] k(2) by simp
  moreover have "strip (k @ '' '') = k"
  proof -
    have sp: "is_space CHR '' ''" by code_simp
    have "strip (k @ '' '') = rstrip_if is_space (k @ '' '')"
      using assms by (simp add: strip_def strip_if_def lstrip_if_def lstrip_head key_ok_def)
    also have "\<dots> = k" using assms sp by (simp add: rstrip_if_idle key_ok_def)
    finally show ?thesis .
  qed
  moreover have "\<not> starts_with ''#'' (k @ '' ='' @ v')" using k by (cases k) (auto simp: starts_with_def)
  ultimately show ?thesis using v k by (simp add: restart_setting_def)
qed

section \<open>The settings of a configuration\<close>

text \<open>What a running ocserv keeps until it restarts.\<close>

definition boot_settings :: "app_config \<Rightarrow> (string \<times> string) list" where
  "boot_settings c = (let srv = app_server c in
     [(''tcp-port'', show_int (srv_port srv))]
     @ (if udp_enabled srv then [(''udp-port'', show_int (srv_port srv))] else [])
     @ [(''listen-host'', strip (srv_listen srv)), (''device'', strip (device srv)), (''run-as-user'', ''nobody''),
        (''run-as-group'', ''nogroup''), (''use-occtl'', ''true''),
        (''occtl-socket-file'', strip (generated_path c ''occtl.sock'')),
        (''socket-file'', strip (path_join (generated_dir (app_system c)) ''ocserv.sock''))]
     @ (if certificate_auth (app_auth c) then [(''cert-user-oid'', ''2.5.4.3'')] else [])
     @ map (\<lambda>item. (''auth'', [CHR 0x22] @ item @ [CHR 0x22])) (auth_lines c)
     @ [(''isolate-workers'', ''true'')])"

definition plain_conf :: "(string \<Rightarrow> bool) \<Rightarrow> app_config \<Rightarrow> bool" where
  "plain_conf exists_file c = (list_all no_breaks (ocserv_head c @ ocserv_tail exists_file c)
     \<and> app_raw_ocserv_options c = JList [])"

lemma restart_setting_Nil [simp]: "restart_setting [] = []"
  by (simp add: restart_setting_def)

lemma comment_setting [simp]: "restart_setting (CHR ''#'' # s) = []"
proof -
  have "\<not> is_space CHR ''#''" by code_simp
  then have "strip (CHR ''#'' # s) = rstrip_if is_space (CHR ''#'' # s)" by (simp add: strip_def strip_if_def lstrip_if_def)
  then have "strip (CHR ''#'' # s) = [] \<or> hd (strip (CHR ''#'' # s)) = CHR ''#''"
    using rstrip_if_hd [of is_space "CHR ''#'' # s"] by auto
  then have "strip (CHR ''#'' # s) = [] \<or> starts_with ''#'' (strip (CHR ''#'' # s))"
    by (cases "strip (CHR ''#'' # s)") (auto simp: starts_with_def)
  then show ?thesis by (auto simp: restart_setting_def Let_def)
qed

lemma map_setting_none: "key_ok k \<Longrightarrow> k \<notin> set restart_only_directives \<Longrightarrow>
    concat (map (restart_setting \<circ> setting k) vs) = []"
  by (induction vs) (simp_all add: restart_setting_setting)

lemma optional_setting_none: "key_ok k \<Longrightarrow> k \<notin> set restart_only_directives \<Longrightarrow>
    concat (map restart_setting (optional_setting k v)) = []"
  by (simp add: optional_setting_def restart_setting_setting)

lemma keys_ok [simp]:
  "list_all key_ok ([''server-cert'', ''server-key'', ''ca-cert'', ''log-level'', ''config-per-user'', ''config-per-group'',
     ''default-group-config'', ''select-group'', ''select-group-by-url'', ''default-select-group'', ''max-clients'',
     ''max-same-clients'', ''keepalive'', ''compression'', ''cisco-client-compat'', ''ipv4-network'', ''dns'', ''split-dns'',
     ''default-domain'', ''route'', ''no-route'', ''connect-script'', ''disconnect-script'', ''camouflage_secret'',
     ''camouflage_realm''] @ restart_only_directives)"
  by code_simp

lemmas setting_keys = keys_ok [unfolded restart_only_directives_def, simplified]

lemma set_directives: "k \<in> set restart_only_directives \<longleftrightarrow> k \<in> {''auth'', ''enable-auth'', ''acct'', ''cert-user-oid'',
    ''cert-group-oid'', ''tcp-port'', ''udp-port'', ''listen-host'', ''udp-listen-host'', ''listen-proxy-proto'', ''device'',
    ''run-as-user'', ''run-as-group'', ''socket-file'', ''occtl-socket-file'', ''use-occtl'', ''isolate-workers'', ''pid-file''}"
  by (simp add: restart_only_directives_def)

lemma fixed_settings [simp]:
  "restart_setting ''run-as-user = nobody'' = [(''run-as-user'', ''nobody'')]"
  "restart_setting ''run-as-group = nogroup'' = [(''run-as-group'', ''nogroup'')]"
  "restart_setting ''use-occtl = true'' = [(''use-occtl'', ''true'')]"
  "restart_setting ''cert-user-oid = 2.5.4.3'' = [(''cert-user-oid'', ''2.5.4.3'')]"
  "restart_setting ''try-mtu-discovery = true'' = []"
  "restart_setting ''isolate-workers = true'' = [(''isolate-workers'', ''true'')]"
  "restart_setting ''tunnel-all-dns = true'' = []"
  "restart_setting ''camouflage = true'' = []"
  by code_simp+

lemma strip_show_int [simp]: "strip (show_int i) = show_int i"
proof (rule strip_no_space, rule ballI)
  fix d assume "d \<in> set (show_int i)"
  then have "is_ascii_digit d \<or> d = CHR ''-''"
    by (auto simp: show_int_def split: if_splits dest: show_nat_ascii)
  moreover have "\<not> is_space CHR ''-''" by code_simp
  ultimately show "\<not> is_space d" by (auto simp: is_ascii_digit_def is_space_def)
qed

lemma strip_quoted [simp]: "strip (CHR 0x22 # item @ [CHR 0x22]) = CHR 0x22 # item @ [CHR 0x22]"
proof -
  have "\<not> is_space CHR 0x22" by code_simp
  then show ?thesis unfolding strip_def by (intro strip_if_idle) simp
qed

lemma map_setting_auth: "concat (map (restart_setting \<circ> (\<lambda>item. setting ''auth'' (CHR 0x22 # item @ [CHR 0x22]))) vs)
    = map (\<lambda>item. (''auth'', CHR 0x22 # item @ [CHR 0x22])) vs"
  using setting_keys by (induction vs) (simp_all add: restart_setting_setting set_directives)

lemma settings_of_head:
  "concat (map restart_setting (ocserv_head c)) = butlast (boot_settings c)"
  using setting_keys
  by (simp add: ocserv_head_def boot_settings_def Let_def restart_setting_setting set_directives map_setting_auth
      map_setting_none optional_setting_none comp_def split: prod.split)

lemma settings_of_tail:
  "concat (map restart_setting (ocserv_tail exists_file c)) = [(''isolate-workers'', ''true'')]"
  by (simp add: ocserv_tail_def Let_def restart_setting_setting set_directives map_setting_none optional_setting_none
      setting_keys) (auto simp: restart_setting_setting set_directives setting_keys)

lemma boot_settings_split: "boot_settings c = butlast (boot_settings c) @ [(''isolate-workers'', ''true'')]"
  by (simp add: boot_settings_def Let_def)

lemma settings_of_rendered:
  assumes "plain_conf exists_file c"
  shows "restart_only_settings (render_ocserv exists_file c) = boot_settings c"
proof -
  have "render_ocserv exists_file c = lines_of (ocserv_head c @ ocserv_tail exists_file c)"
    using assms by (simp add: render_ocserv_def plain_conf_def raw_options_def lines_of_def)
  moreover have "\<forall>l \<in> set (ocserv_head c @ ocserv_tail exists_file c). no_breaks l"
    using assms by (simp add: plain_conf_def list_all_iff)
  ultimately show ?thesis
    using settings_lines_of boot_settings_split [of c] by (simp add: settings_of_head settings_of_tail)
qed

text \<open>The settings determine, and are determined by, the fields they are made of.\<close>

definition boot_fields :: "app_config \<Rightarrow> int \<times> bool \<times> string \<times> string \<times> string \<times> string \<times> bool \<times> string list" where
  "boot_fields c = (let srv = app_server c in
     (srv_port srv, udp_enabled srv, strip (srv_listen srv), strip (device srv), strip (generated_path c ''occtl.sock''),
      strip (path_join (generated_dir (app_system c)) ''ocserv.sock''), certificate_auth (app_auth c), auth_lines c))"

lemma map_auth_inject:
  "map (\<lambda>item. (''auth'', CHR 0x22 # item @ [CHR 0x22])) xs = map (\<lambda>item. (''auth'', CHR 0x22 # item @ [CHR 0x22])) ys
   \<longleftrightarrow> xs = ys"
  by (simp add: inj_map_eq_map inj_def)

lemma show_int_inject: "show_int a = show_int b \<longleftrightarrow> a = b"
  using py_int_show_int by (metis option.inject)

definition settings_of_fields :: "int \<times> bool \<times> string \<times> string \<times> string \<times> string \<times> bool \<times> string list \<Rightarrow> (string \<times> string) list" where
  "settings_of_fields f = (case f of (port, udp, listen, dev, occtl, sock, cert, auth) \<Rightarrow>
     [(''tcp-port'', show_int port)] @ (if udp then [(''udp-port'', show_int port)] else [])
     @ [(''listen-host'', listen), (''device'', dev), (''run-as-user'', ''nobody''),
        (''run-as-group'', ''nogroup''), (''use-occtl'', ''true''), (''occtl-socket-file'', occtl), (''socket-file'', sock)]
     @ (if cert then [(''cert-user-oid'', ''2.5.4.3'')] else [])
     @ map (\<lambda>item. (''auth'', CHR 0x22 # item @ [CHR 0x22])) auth @ [(''isolate-workers'', ''true'')])"

lemma settings_of_fields_inject: "settings_of_fields f = settings_of_fields g \<longleftrightarrow> f = g"
proof -
  obtain p1 u1 l1 d1 o1 s1 c1 a1 where f: "f = (p1, u1, l1, d1, o1, s1, c1, a1)" by (cases f) auto
  obtain p2 u2 l2 d2 o2 s2 c2 a2 where g: "g = (p2, u2, l2, d2, o2, s2, c2, a2)" by (cases g) auto
  show ?thesis
    by (cases u1; cases u2; cases c1; cases c2)
      (auto simp: f g settings_of_fields_def show_int_inject map_auth_inject Cons_eq_append_conv append_eq_Cons_conv)
qed

lemma boot_settings_iff: "boot_settings c = boot_settings d \<longleftrightarrow> boot_fields c = boot_fields d"
proof -
  have "boot_settings c = settings_of_fields (boot_fields c)" for c
    by (simp add: boot_settings_def settings_of_fields_def boot_fields_def Let_def)
  then show ?thesis by (simp add: settings_of_fields_inject)
qed

end
