(* ===== verification/Base64.thy ===== *)
theory Base64
  imports Py_Str
begin

text \<open>
  The standard library's \<open>base64\<close> on byte strings (characters below 256): \<open>b64encode\<close>,
  \<open>b64decode\<close> of a text the validator of the configuration accepted, \<open>bytes.fromhex\<close>, and the
  round trip of encoding.
\<close>

definition b64_char :: "nat \<Rightarrow> char" where
  "b64_char n = (if n < 26 then char_of (65 + n) else if n < 52 then char_of (71 + n)
     else if n < 62 then char_of (n - 4) else if n = 62 then CHR ''+'' else CHR ''/'')"

definition b64_value :: "char \<Rightarrow> nat option" where
  "b64_value c = (let n = code c in
     if 65 \<le> n \<and> n \<le> 90 then Some (n - 65)
     else if 97 \<le> n \<and> n \<le> 122 then Some (n - 71)
     else if 48 \<le> n \<and> n \<le> 57 then Some (n + 4)
     else if c = CHR ''+'' then Some 62 else if c = CHR ''/'' then Some 63 else None)"

definition byte :: "nat \<Rightarrow> char" where
  "byte n = char_of (n mod 256)"

fun b64_encode :: "string \<Rightarrow> string" where
  "b64_encode (a # b # c # r) =
     [b64_char (code a div 4), b64_char ((code a mod 4) * 16 + code b div 16),
      b64_char ((code b mod 16) * 4 + code c div 64), b64_char (code c mod 64)] @ b64_encode r"
| "b64_encode [a, b] =
     [b64_char (code a div 4), b64_char ((code a mod 4) * 16 + code b div 16),
      b64_char ((code b mod 16) * 4), CHR ''='']"
| "b64_encode [a] = [b64_char (code a div 4), b64_char ((code a mod 4) * 16), CHR ''='', CHR ''='']"
| "b64_encode [] = []"

text \<open>The sextets of the characters before the padding, four to three bytes.\<close>

fun b64_bytes :: "nat list \<Rightarrow> string" where
  "b64_bytes (w # x # y # z # r) =
     [byte (w * 4 + x div 16), byte (x * 16 + y div 4), byte (y * 64 + z)] @ b64_bytes r"
| "b64_bytes [w, x, y] = [byte (w * 4 + x div 16), byte (x * 16 + y div 4)]"
| "b64_bytes [w, x] = [byte (w * 4 + x div 16)]"
| "b64_bytes _ = []"

text \<open>
  \<open>binascii.a2b_base64\<close>, not strict: other characters are skipped, a completed padding ends the
  input, and an incomplete group at the end is a \<open>ValueError\<close>.
\<close>

fun a2b :: "nat list \<Rightarrow> nat \<Rightarrow> string \<Rightarrow> string result" where
  "a2b q pads [] = (if q = [] then Inr [] else Inl ValueError)"
| "a2b q pads (c # r) =
     (if c = CHR ''='' then
        (if length q < 2 then a2b q pads r
         else if length q + pads + 1 \<ge> 4 then Inr (b64_bytes q) else a2b q (pads + 1) r)
      else case b64_value c of
        None \<Rightarrow> a2b q pads r
      | Some v \<Rightarrow> if length q = 3 then res_bind (a2b [] 0 r) (\<lambda>out. Inr (b64_bytes (q @ [v]) @ out))
          else a2b (q @ [v]) 0 r)"

definition b64_decode :: "string \<Rightarrow> string result" where
  "b64_decode s = a2b [] 0 s"

fun bytes_of_hex :: "string \<Rightarrow> string" where
  "bytes_of_hex (a # b # r) =
     (case (digit_value a, digit_value b) of (Some x, Some y) \<Rightarrow> byte (x * 16 + y) # bytes_of_hex r | _ \<Rightarrow> [])"
| "bytes_of_hex _ = []"

section \<open>Decoding what was encoded\<close>

lemma code_less [simp]: "code c < 256"
  by (simp add: code_def)

lemma byte_code [simp]: "byte (code c) = c"
  by (simp add: byte_def code_def)

lemma b64_value_char [simp]: "n < 64 \<Longrightarrow> b64_value (b64_char n) = Some n"
  by (auto simp: b64_value_def b64_char_def Let_def code_char_of) (simp_all add: code_def)

lemma b64_value_pad [simp]: "b64_value CHR ''='' = None"
  by (simp add: b64_value_def code_def)

lemma join_parts: "y < n \<Longrightarrow> (x * n + y) div n = x" "y < n \<Longrightarrow> (x * n + y) mod n = y" for x y n :: nat
  by simp_all

lemma byte_parts:
  fixes a b c :: nat
  assumes "a < 256" "b < 256" "c < 256"
  shows "byte (a div 4 * 4 + ((a mod 4) * 16 + b div 16) div 16) = byte a"
    "byte (((a mod 4) * 16 + b div 16) * 16 + ((b mod 16) * 4 + c div 64) div 4) = byte b"
    "byte (((b mod 16) * 4 + c div 64) * 64 + c mod 64) = byte c"
proof -
  have q: "b div 16 < 16" "c div 64 < 4" using assms by (simp_all add: less_mult_imp_div_less)
  show "byte (a div 4 * 4 + ((a mod 4) * 16 + b div 16) div 16) = byte a"
    unfolding join_parts(1) [OF q(1)] by (simp only: div_mult_mod_eq)
  have "((a mod 4) * 16 + b div 16) * 16 + ((b mod 16) * 4 + c div 64) div 4 = (a mod 4) * 256 + (b div 16 * 16 + b mod 16)"
    unfolding join_parts(1) [OF q(2)] by (simp add: algebra_simps)
  then show "byte (((a mod 4) * 16 + b div 16) * 16 + ((b mod 16) * 4 + c div 64) div 4) = byte b"
    by (simp only: div_mult_mod_eq) (simp add: byte_def)
  have "((b mod 16) * 4 + c div 64) * 64 + c mod 64 = (b mod 16) * 256 + (c div 64 * 64 + c mod 64)"
    by (simp add: algebra_simps)
  then show "byte (((b mod 16) * 4 + c div 64) * 64 + c mod 64) = byte c"
    by (simp only: div_mult_mod_eq) (simp add: byte_def)
qed

lemma sextets:
  fixes a b c :: nat
  assumes "a < 256" "b < 256" "c < 256"
  shows "a div 4 < 64" "(a mod 4) * 16 + b div 16 < 64" "(b mod 16) * 4 + c div 64 < 64" "c mod 64 < 64"
    "(a mod 4) * 16 < 64" "(b mod 16) * 4 < 64"
proof -
  have q: "b div 16 < 16" "c div 64 < 4" "a mod 4 < 4" "b mod 16 < 16"
    using assms by (simp_all add: less_mult_imp_div_less)
  then show "(a mod 4) * 16 + b div 16 < 64" "(b mod 16) * 4 + c div 64 < 64" "(a mod 4) * 16 < 64" "(b mod 16) * 4 < 64"
    by linarith+
qed (use assms in \<open>simp_all add: less_mult_imp_div_less\<close>)

lemma b64_char_not_pad [simp]: "n < 64 \<Longrightarrow> b64_char n \<noteq> CHR ''=''"
  using b64_value_char [of n] b64_value_pad by (metis option.distinct(1))

lemma b64_decode_encode: "b64_decode (b64_encode s) = Inr s"
proof (induction s rule: b64_encode.induct)
  case (1 a b c r)
  from 1 byte_parts [of "code a" "code b" "code c"] show ?case
    using sextets [of "code a" "code b" "code c"] by (simp add: b64_decode_def)
next
  case (2 a b)
  from byte_parts [of "code a" "code b" 0] show ?case
    using sextets [of "code a" "code b" 0] by (simp add: b64_decode_def)
next
  case (3 a)
  from byte_parts [of "code a" 0 0] show ?case
    using sextets [of "code a" 0 0] by (simp add: b64_decode_def)
qed (simp add: b64_decode_def)

end
