(* ===== verification/Cert_Pin.thy ===== *)
theory Cert_Pin
  imports Base64 Effects
begin

text \<open>
  \<open>services/cert_pin.py\<close>: the pin of a certificate in the form openconnect accepts, taken from
  a PEM file or from the certificate a TLS server presents. Bytes are characters; the DER
  reader is the source's own, with its bounds checks and their errors.
\<close>

record certificate_pin =
  cp_pin :: string
  cp_sha256 :: string

section \<open>PEM\<close>

definition begin_cert :: string where
  "begin_cert = ''-----BEGIN CERTIFICATE-----''"

definition end_cert :: string where
  "end_cert = ''-----END CERTIFICATE-----''"

text \<open>White space of a byte pattern, and of \<open>bytes.split\<close>.\<close>

definition byte_space :: "char \<Rightarrow> bool" where
  "byte_space c = (c = CHR '' '' \<or> 9 \<le> code c \<and> code c \<le> 13)"

text \<open>The shortest non-empty text that is followed, after white space, by the end marker.\<close>

fun lazy_body :: "string \<Rightarrow> string option" where
  "lazy_body [] = None"
| "lazy_body (c # r) = (if prefix end_cert (dropWhile byte_space r) then Some [c]
     else case lazy_body r of None \<Rightarrow> None | Some b \<Rightarrow> Some (c # b))"

text \<open>After a begin marker: the white space is skipped; a body of white space only is matched
  when the marker gives one character back.\<close>

definition pem_body :: "string \<Rightarrow> string option" where
  "pem_body s = (let t = dropWhile byte_space s in
     case lazy_body t of Some b \<Rightarrow> Some b
     | None \<Rightarrow> if t \<noteq> s \<and> prefix end_cert t then Some '' '' else None)"

fun pem_search :: "string \<Rightarrow> string option" where
  "pem_search [] = None"
| "pem_search (c # r) = (case (if prefix begin_cert (c # r) then pem_body (drop (length begin_cert) (c # r)) else None) of
     Some b \<Rightarrow> Some b | None \<Rightarrow> pem_search r)"

definition pem_to_der :: "string \<Rightarrow> string result" where
  "pem_to_der pem = (case pem_search pem of None \<Rightarrow> Inl ValueError
     | Some b \<Rightarrow> b64_decode (filter (\<lambda>c. \<not> byte_space c) b))"

section \<open>DER\<close>

definition byte_at :: "string \<Rightarrow> nat \<Rightarrow> nat" where
  "byte_at data i = code (data ! i)"

definition big_endian :: "string \<Rightarrow> nat" where
  "big_endian bs = foldl (\<lambda>n b. n * 256 + code b) 0 bs"

definition read_tlv :: "string \<Rightarrow> nat \<Rightarrow> (nat \<times> nat \<times> nat) result" where
  "read_tlv data offset =
     (if offset + 2 > length data then Inl ValueError
      else let tag = byte_at data offset; len = byte_at data (offset + 1); pos = offset + 2 in
        if len \<ge> 128 then
          (let count = len - 128 in
           if count = 0 \<or> count > 4 \<or> pos + count > length data then Inl ValueError
           else let p = pos + count; stop = p + big_endian (take count (drop pos data)) in
             if stop > length data then Inl ValueError else Inr (tag, p, stop))
        else if pos + len > length data then Inl ValueError else Inr (tag, pos, pos + len))"

definition sequence_tag :: nat where "sequence_tag = 48"

definition context_0 :: nat where "context_0 = 160"

definition skip_tlv :: "string \<Rightarrow> nat \<Rightarrow> nat result" where
  "skip_tlv data offset = res_bind (read_tlv data offset) (\<lambda>(_, _, e). Inr e)"

fun skip_tlvs :: "nat \<Rightarrow> string \<Rightarrow> nat \<Rightarrow> nat result" where
  "skip_tlvs 0 data offset = Inr offset"
| "skip_tlvs (Suc n) data offset = res_bind (skip_tlv data offset) (skip_tlvs n data)"

definition slice :: "string \<Rightarrow> nat \<Rightarrow> nat \<Rightarrow> string" where
  "slice data a b = take (b - a) (drop a data)"

definition subject_public_key_info :: "string \<Rightarrow> string result" where
  "subject_public_key_info der =
     res_bind (read_tlv der 0) (\<lambda>(tag, cert_start, _).
     if tag \<noteq> sequence_tag then Inl ValueError
     else res_bind (read_tlv der cert_start) (\<lambda>(tag, tbs_start, tbs_end).
     if tag \<noteq> sequence_tag then Inl ValueError
     else if tbs_start \<ge> length der then Inl IndexError
     else res_bind (if byte_at der tbs_start = context_0 then skip_tlv der tbs_start else Inr tbs_start) (\<lambda>o1.
     res_bind (skip_tlvs 5 der o1) (\<lambda>offset.
     res_bind (read_tlv der offset) (\<lambda>(tag, _, spki_end).
     if tag \<noteq> sequence_tag \<or> spki_end > tbs_end then Inl ValueError
     else Inr (slice der offset spki_end))))))"

definition certificate_pin_of :: "env \<Rightarrow> string \<Rightarrow> certificate_pin result" where
  "certificate_pin_of env der =
     res_bind (subject_public_key_info der) (\<lambda>spki.
     Inr \<lparr>cp_pin = ''pin-sha256:'' @ b64_encode (bytes_of_hex (e_sha env spki)),
          cp_sha256 = ''sha256:'' @ e_sha env der\<rparr>)"

definition certificate_file_pin :: "env \<Rightarrow> string \<Rightarrow> world \<Rightarrow> certificate_pin result" where
  "certificate_file_pin env path w = (case files w path of
     None \<Rightarrow> Inl OSError
   | Some pem \<Rightarrow> res_bind (pem_to_der pem) (certificate_pin_of env))"

definition fetch_server_certificate :: "env \<Rightarrow> string \<Rightarrow> string \<Rightarrow> world \<Rightarrow> string result" where
  "fetch_server_certificate env host port w = (case e_tls env w host port of
     None \<Rightarrow> Inl OSError
   | Some der \<Rightarrow> if der = [] then Inl ValueError else Inr der)"

definition fetch_server_pin :: "env \<Rightarrow> string \<Rightarrow> string \<Rightarrow> world \<Rightarrow> certificate_pin result" where
  "fetch_server_pin env host port w =
     res_bind (fetch_server_certificate env host port w) (certificate_pin_of env)"

section \<open>What the reader guarantees\<close>

lemma read_tlv_bounds:
  "read_tlv data o1 = Inr (tag, p, e) \<Longrightarrow> o1 + 2 \<le> p \<and> p \<le> e \<and> e \<le> length data"
  by (auto simp: read_tlv_def Let_def split: if_splits) arith+

lemma skip_tlvs_bounds: "skip_tlvs n data o1 = Inr e \<Longrightarrow> o1 \<le> e"
proof (induction n arbitrary: o1)
  case (Suc n)
  then obtain m where "skip_tlv data o1 = Inr m" "skip_tlvs n data m = Inr e" by (auto simp: res_bind_Inr_iff)
  with Suc.IH read_tlv_bounds show ?case
    by (fastforce simp: skip_tlv_def res_bind_Inr_iff)
qed simp

section \<open>An encoder, to say what is read\<close>

text \<open>The reference encoding of an element, in the short form or with up to four length bytes.\<close>

fun be_bytes :: "nat \<Rightarrow> nat \<Rightarrow> string" where
  "be_bytes 0 n = []"
| "be_bytes (Suc k) n = be_bytes k (n div 256) @ [byte n]"

definition tlv :: "nat \<Rightarrow> nat \<Rightarrow> string \<Rightarrow> string" where
  "tlv k tag content =
     (if k = 0 then byte tag # byte (length content) # content
      else byte tag # byte (128 + k) # be_bytes k (length content) @ content)"

definition tlv_ok :: "nat \<Rightarrow> nat \<Rightarrow> string \<Rightarrow> bool" where
  "tlv_ok k tag content = (tag < 256 \<and> k \<le> 4 \<and> (if k = 0 then length content < 128 else length content < 256 ^ k))"

lemma length_be_bytes [simp]: "length (be_bytes k n) = k"
  by (induction k arbitrary: n) auto

lemma big_endian_snoc: "big_endian (bs @ [b]) = big_endian bs * 256 + code b"
  by (simp add: big_endian_def)

lemma code_byte: "code (byte n) = n mod 256"
  by (simp add: byte_def code_def)

lemma big_endian_be_bytes: "n < 256 ^ k \<Longrightarrow> big_endian (be_bytes k n) = n"
proof (induction k arbitrary: n)
  case (Suc k)
  then have "n div 256 < 256 ^ k" by (simp add: less_mult_imp_div_less mult.commute)
  with Suc.IH show ?case by (simp add: big_endian_snoc code_byte)
qed (simp add: big_endian_def)

definition tlv_header :: "nat \<Rightarrow> nat" where
  "tlv_header k = 2 + k"

lemma length_tlv: "length (tlv k tag content) = tlv_header k + length content"
  by (simp add: tlv_def tlv_header_def)

lemma tlv_parts: "tlv k tag content = take (tlv_header k) (tlv k tag content) @ content"
  by (simp add: tlv_def tlv_header_def)

text \<open>Reading an element at its offset gives its tag, where its content starts, and where it ends.\<close>

lemma read_tlv_tlv:
  assumes "tlv_ok k tag content"
  shows "read_tlv (pre @ tlv k tag content @ post) (length pre)
    = Inr (tag, length pre + tlv_header k, length pre + length (tlv k tag content))"
proof (cases "k = 0")
  case True
  with assms show ?thesis
    by (simp add: read_tlv_def byte_at_def nth_append tlv_def tlv_ok_def tlv_header_def code_byte)
next
  case False
  let ?len = "length content"
  have k: "k \<le> 4" "0 < k" "tag < 256" "?len < 256 ^ k" using assms False by (auto simp: tlv_ok_def)
  have t: "tlv k tag content = byte tag # byte (128 + k) # be_bytes k ?len @ content" using False by (simp add: tlv_def)
  have b: "big_endian (be_bytes k ?len) = ?len" using k(4) by (rule big_endian_be_bytes)
  show ?thesis
    unfolding t using k b
    by (simp add: read_tlv_def byte_at_def nth_append tlv_header_def code_byte Let_def)
qed

lemma skip_tlv_tlv:
  "tlv_ok k tag content \<Longrightarrow> skip_tlv (pre @ tlv k tag content @ post) (length pre)
     = Inr (length pre + length (tlv k tag content))"
  by (simp add: skip_tlv_def read_tlv_tlv)

text \<open>Several elements in a row.\<close>

definition elements :: "(nat \<times> nat \<times> string) list \<Rightarrow> string" where
  "elements es = concat (map (\<lambda>(k, tag, content). tlv k tag content) es)"

lemma skip_tlvs_elements:
  "\<forall>(k, tag, content) \<in> set es. tlv_ok k tag content \<Longrightarrow>
   skip_tlvs (length es) (pre @ elements es @ post) (length pre) = Inr (length pre + length (elements es))"
proof (induction es arbitrary: pre)
  case (Cons e es)
  obtain k tag content where e: "e = (k, tag, content)" by (cases e) auto
  let ?t = "tlv k tag content"
  from Cons.IH [of "pre @ ?t"] Cons.prems have
    "skip_tlvs (length es) (pre @ ?t @ elements es @ post) (length pre + length ?t)
      = Inr (length pre + length ?t + length (elements es))" by simp
  moreover have "skip_tlv (pre @ ?t @ elements es @ post) (length pre) = Inr (length pre + length ?t)"
    using Cons.prems e skip_tlv_tlv [of k tag content pre "elements es @ post"] by simp
  ultimately show ?case by (simp add: e elements_def)
qed (simp add: elements_def)

text \<open>An X.509 certificate as far as the reader looks: an optional version, five elements, the
  public key information, and whatever follows.\<close>

definition encode_certificate :: "nat \<Rightarrow> nat \<Rightarrow> (nat \<times> nat \<times> string) list \<Rightarrow> nat \<times> string \<Rightarrow> string \<Rightarrow> string \<Rightarrow> string" where
  "encode_certificate k1 k2 es spki rest sig =
     tlv k1 sequence_tag (tlv k2 sequence_tag (elements es @ tlv (fst spki) sequence_tag (snd spki) @ rest) @ sig)"

definition certificate_ok :: "nat \<Rightarrow> nat \<Rightarrow> (nat \<times> nat \<times> string) list \<Rightarrow> nat \<times> string \<Rightarrow> string \<Rightarrow> string \<Rightarrow> bool" where
  "certificate_ok k1 k2 es spki rest sig =
     (list_all (\<lambda>(k, tag, content). tlv_ok k tag content) es \<and> tlv_ok (fst spki) sequence_tag (snd spki)
      \<and> (let tbs = elements es @ tlv (fst spki) sequence_tag (snd spki) @ rest in
         tlv_ok k2 sequence_tag tbs \<and> tlv_ok k1 sequence_tag (tlv k2 sequence_tag tbs @ sig))
      \<and> es \<noteq> [] \<and> length es = (if fst (snd (hd es)) = context_0 then 6 else 5))"

lemma slice_middle: "slice (pre @ m @ post) (length pre) (length pre + length m) = m"
  by (simp add: slice_def)

lemma first_tag: "tlv_ok k tag content \<Longrightarrow> byte_at (pre @ tlv k tag content @ post) (length pre) = tag"
  by (auto simp: byte_at_def nth_append tlv_def tlv_ok_def code_byte)

lemma spki_of_encoded:
  assumes "certificate_ok k1 k2 es spki rest sig"
  shows "subject_public_key_info (encode_certificate k1 k2 es spki rest sig) = Inr (tlv (fst spki) sequence_tag (snd spki))"
proof -
  define key where "key = tlv (fst spki) sequence_tag (snd spki)"
  define tbs where "tbs = elements es @ key @ rest"
  define body where "body = tlv k2 sequence_tag tbs @ sig"
  define der where "der = tlv k1 sequence_tag body"
  define h1 where "h1 = take (tlv_header k1) der"
  define h2 where "h2 = take (tlv_header k2) (tlv k2 sequence_tag tbs)"
  have oks: "tlv_ok k1 sequence_tag body" "tlv_ok k2 sequence_tag tbs" "tlv_ok (fst spki) sequence_tag (snd spki)"
    "\<forall>(k, tag, content) \<in> set es. tlv_ok k tag content" and ne: "es \<noteq> []"
    and len: "length es = (if fst (snd (hd es)) = context_0 then 6 else 5)"
    using assms by (auto simp: certificate_ok_def Let_def tbs_def key_def body_def list_all_iff)
  have d1: "der = h1 @ body" unfolding der_def h1_def by (rule tlv_parts)
  have d2: "tlv k2 sequence_tag tbs = h2 @ tbs" unfolding h2_def by (rule tlv_parts)
  have l1: "length h1 = tlv_header k1" by (simp add: h1_def der_def length_tlv)
  have l2: "length h2 = tlv_header k2" by (simp add: h2_def length_tlv)
  define pre where "pre = h1 @ h2"
  have d: "der = pre @ elements es @ key @ rest @ sig" unfolding d1 body_def d2 pre_def by (simp add: tbs_def)
  have r1: "read_tlv der 0 = Inr (sequence_tag, length h1, length der)"
    using read_tlv_tlv [OF oks(1), of "[]" "[]"] by (simp add: der_def l1)
  have r2: "read_tlv der (length h1) = Inr (sequence_tag, length pre, length pre + length tbs)"
    using read_tlv_tlv [OF oks(2), of h1 sig] by (simp add: d1 body_def l2 pre_def d2)
  obtain k tag content es' where es: "es = (k, tag, content) # es'" using ne by (cases es) auto
  have e: "elements es = tlv k tag content @ elements es'" by (simp add: es elements_def)
  have ok: "tlv_ok k tag content" using oks(4) es by auto
  have t: "byte_at der (length pre) = tag" using first_tag [OF ok, of pre] by (simp add: d e)
  have skip: "skip_tlv der (length pre) = Inr (length pre + length (tlv k tag content))"
    using skip_tlv_tlv [OF ok, of pre] by (simp add: d e)
  let ?o1 = "if tag = context_0 then length pre + length (tlv k tag content) else length pre"
  have all: "skip_tlvs 5 der ?o1 = Inr (length pre + length (elements es))"
  proof (cases "tag = context_0")
    case True
    then have "length es' = 5" using len es by simp
    moreover have "\<forall>(k, tag, content) \<in> set es'. tlv_ok k tag content" using oks(4) es by simp
    ultimately show ?thesis
      using skip_tlvs_elements [of es' "pre @ tlv k tag content" "key @ rest @ sig"] True by (simp add: d e)
  next
    case False
    then have "length es = 5" using len es by simp
    with skip_tlvs_elements [of es pre "key @ rest @ sig"] oks(4) False show ?thesis by (simp add: d)
  qed
  have r3: "read_tlv der (length pre + length (elements es))
      = Inr (sequence_tag, length pre + length (elements es) + tlv_header (fst spki), length pre + length (elements es) + length key)"
    using read_tlv_tlv [OF oks(3), of "pre @ elements es" "rest @ sig"] by (simp add: d key_def)
  have "length pre < length der" by (simp add: d e length_tlv tlv_header_def)
  moreover have "slice der (length pre + length (elements es)) (length pre + length (elements es) + length key) = key"
    using slice_middle [of "pre @ elements es" key "rest @ sig"] by (simp add: d)
  moreover have "encode_certificate k1 k2 es spki rest sig = der"
    by (simp add: encode_certificate_def der_def body_def tbs_def key_def)
  ultimately show ?thesis
    using r1 r2 t skip all r3
    by (cases "tag = context_0") (simp_all add: subject_public_key_info_def key_def [symmetric] tbs_def)
qed

text \<open>The key information lies inside the certificate.\<close>

lemma spki_inside:
  assumes "subject_public_key_info der = Inr s"
  shows "\<exists>pre post. der = pre @ s @ post \<and> 2 \<le> length s \<and> byte_at s 0 = sequence_tag"
proof -
  from assms obtain off p e where r: "read_tlv der off = Inr (sequence_tag, p, e)" and s: "s = slice der off e"
    by (auto simp: subject_public_key_info_def res_bind_Inr_iff split: if_splits)
  from read_tlv_bounds [OF r] have b: "off + 2 \<le> e" "e \<le> length der" by auto
  have "byte_at der off = sequence_tag" using r by (auto simp: read_tlv_def Let_def split: if_splits)
  with b have "byte_at s 0 = sequence_tag" by (simp add: s slice_def byte_at_def)
  moreover have "der = take off der @ s @ drop (e - off) (drop off der)"
    unfolding s slice_def by (simp only: append_take_drop_id)
  moreover have "2 \<le> length s" using b by (simp add: s slice_def)
  ultimately show ?thesis by blast
qed

end
