(* ===== verification/Server_Properties.thy ===== *)
theory Server_Properties
  imports Reload_Facts Cert_Pin Nft_Properties
begin

text \<open>
  The properties of the daemons' configuration: when a change needs a restart, that dnsmasq feeds
  only sets the ruleset declares, what a blocklist parses to, and that the key pin of a
  certificate is that of its public key.
\<close>

section \<open>Reload or restart\<close>

text \<open>Numbers and settings without a line break in their parts have none.\<close>

lemma no_breaks_append: "no_breaks (a @ b) \<longleftrightarrow> no_breaks a \<and> no_breaks b"
  by (auto simp: no_breaks_def)

lemma no_breaks_show_int: "no_breaks (show_int i)"
proof -
  have "\<not> is_linebreak CHR ''-''" by code_simp
  then show ?thesis unfolding no_breaks_def
    by (auto simp: show_int_def is_ascii_digit_def is_linebreak_def split: if_splits dest!: show_nat_ascii)
qed

lemma no_breaks_setting: "no_breaks (setting k v) \<longleftrightarrow> no_breaks k \<and> no_breaks v"
proof -
  have "no_breaks '' = ''" by code_simp
  then show ?thesis unfolding setting_def no_breaks_append by blast
qed






section \<open>dnsmasq and the ruleset\<close>

lemma starts_nftset [simp]:
  "starts_with ''nftset='' (nftset_line t d a b)" "\<not> starts_with ''nftset='' (server_line d s)"
  "\<not> starts_with ''nftset='' []" "\<not> starts_with ''nftset='' (''server='' @ s)"
  "\<not> starts_with ''nftset='' (CHR ''c'' # s)"
  by (simp_all add: starts_with_def nftset_line_def server_line_def)





definition feeds_declared :: "app_config \<Rightarrow> nft_set set \<Rightarrow> string \<Rightarrow> bool" where
  "feeds_declared c sets l = (\<exists>d v4 v6. l = nftset_line (filter_table c) d v4 v6 \<and> empty_set v4 False \<in> sets
     \<and> empty_set v6 True \<in> sets)"

lemma feeds_mono: "feeds_declared c A l \<Longrightarrow> A \<subseteq> B \<Longrightarrow> feeds_declared c B l"
  by (auto simp: feeds_declared_def)







section \<open>Blocklists\<close>

text \<open>
  A blocklist that parses gives, in order and without duplicates, exactly the acceptable
  names of its lines; every one is a valid domain and none belongs to the names of the host
  itself, there are at most half a million, and the counts are those of the entry lines and of
  the entry lines without an acceptable name.
\<close>

theorem blocklist_parse_is_bounded:
  assumes "parse_blocklist_text t = Inr r"
  shows "bp_domains r = uniq [] (concat (map accepted_of_line (splitlines t)))
    \<and> distinct (bp_domains r) \<and> length (bp_domains r) \<le> 500000
    \<and> (\<forall>d \<in> set (bp_domains r). blocklist_domain_re d \<and> d \<notin> set hosts_file_noise)
    \<and> bp_total r = length (entry_lines (splitlines t))
    \<and> bp_skipped r = length (filter (\<lambda>l. accepted_of_line l = []) (entry_lines (splitlines t)))"
  using parse_blocklist_loop_spec [OF _ assms [unfolded parse_blocklist_text_def]] accepted_valid
  by (auto simp: max_blocklist_entries_def)

theorem blocklist_parse_is_bounded_witness:
  "distinct (bp_domains (\<lparr>bp_domains = [''ads.example.com''], bp_total = 2, bp_skipped = 1\<rparr> :: blocklist_parse))"
proof -
  let ?l1 = "''0.0.0.0 ads.example.com ADS.example.com.''" and ?l2 = "''localhost''"
  have "splitlines (?l1 @ [LF] @ ?l2) = [?l1, ?l2]" by code_simp
  moreover have "\<not> is_comment_line (strip ?l1)" "\<not> is_comment_line (strip ?l2)" by code_simp+
  moreover have "line_candidates (strip_comment (strip ?l1)) = [''ads.example.com'', ''ADS.example.com.'']"
    "line_candidates (strip_comment (strip ?l2)) = [?l2]" by code_simp+
  moreover have "foldl take_candidate ([], False) [''ads.example.com'', ''ADS.example.com.''] = ([''ads.example.com''], True)"
    "foldl take_candidate ([''ads.example.com''], False) [?l2] = ([''ads.example.com''], False)" by code_simp+
  ultimately have "parse_blocklist_text (?l1 @ [LF] @ ?l2)
    = Inr \<lparr>bp_domains = [''ads.example.com''], bp_total = 2, bp_skipped = 1\<rparr>"
    unfolding parse_blocklist_text_def by (simp del: append.simps foldl_Cons take_candidate.simps add: max_blocklist_entries_def Let_def)
  from blocklist_parse_is_bounded [OF this] show ?thesis by blast
qed

section \<open>Options given as a mapping\<close>

text \<open>
  Raw ocserv options given as a list become one line each; given as a mapping they all end
  up on one line, because the template engine drops the line end after the closing tag, so ocserv
  reads one directive, the first key, with the rest of the options in its value.
\<close>

theorem mapping_options_share_a_line:
  assumes "\<forall>kv \<in> set kvs. no_breaks (raw_entry kv)" "\<forall>l \<in> set ls. no_breaks l"
  shows "length (splitlines (raw_options (JDict kvs))) \<le> 1 \<and> splitlines (raw_options (JList (map JStr ls))) = ls"
proof -
  have "no_breaks (concat (map raw_entry kvs))" using assms(1) by (auto simp: no_breaks_def)
  then have "length (splitlines (raw_options (JDict kvs))) \<le> 1"
    using splitlines_acc_last [of "concat (map raw_entry kvs)" "[]"] by (simp add: raw_options_def splitlines_def)
  moreover have "strings_in (map JStr ls) = ls" by (induction ls) simp_all
  ultimately show ?thesis using splitlines_lines_of [OF assms(2)] by (simp add: raw_options_def)
qed

theorem mapping_options_share_a_line_witness:
  "length (splitlines (raw_options (JDict [(''mtu'', JInt 1400), (''rekey-time'', JInt 90)]))) \<le> 1"
proof -
  have "\<forall>kv \<in> set [(''mtu'', JInt 1400), (''rekey-time'', JInt 90)]. no_breaks (raw_entry kv)"
    by (simp add: raw_entry_def no_breaks_setting no_breaks_show_int) code_simp
  from mapping_options_share_a_line [OF this, of "[]"] show ?thesis by simp
qed

section \<open>Certificate pins\<close>

text \<open>
  C24. From a certificate laid out as X.509 prescribes, with or without the version, with lengths
  of up to four bytes, the reader takes exactly the encoded public key information, whatever
  surrounds it.
\<close>

theorem spki_is_read_back:
  assumes "certificate_ok k1 k2 es spki rest sig"
  shows "subject_public_key_info (encode_certificate k1 k2 es spki rest sig) = Inr (tlv (fst spki) sequence_tag (snd spki))"
  using assms by (rule spki_of_encoded)

theorem spki_is_read_back_witness:
  "subject_public_key_info (encode_certificate 1 0 [(0, 160, ''v''), (0, 2, ''n''), (0, 48, ''s''), (0, 48, ''i''),
     (0, 48, ''t''), (0, 48, ''u'')] (0, ''key'') ''ext'' ''sig'') = Inr (tlv 0 sequence_tag ''key'')"
proof -
  have "certificate_ok 1 0 [(0, 160, ''v''), (0, 2, ''n''), (0, 48, ''s''), (0, 48, ''i''), (0, 48, ''t''), (0, 48, ''u'')]
     (0, ''key'') ''ext'' ''sig''" by code_simp
  from spki_is_read_back [OF this] show ?thesis by simp
qed




end
