(* ===== verification/Upstream.thy ===== *)
theory Upstream
  imports Server_Service Cert_Pin
begin

text \<open>
  \<open>services/upstream.py\<close>, first part: which profile is active, which connections are up, what
  openconnect is called with, and applying the routes a server pushed. The service object is a
  record of its environment, its runner's secrets, the templates and the configuration. Holding
  the lock makes each operation one step; texts of error messages inside log lines are left out.
\<close>

record service =
  sv_env :: env
  sv_secrets :: "string list"
  sv_templates :: templates
  sv_config :: app_config

definition resolv_conf_path :: string where
  "resolv_conf_path = ''/etc/resolv.conf''"

definition vpnc_marker :: string where
  "vpnc_marker = ''#@VPNC_GENERATED@''"

definition disconnect_grace_ms :: nat where
  "disconnect_grace_ms = 5000"

definition background_grace_ms :: nat where
  "background_grace_ms = 2000"

section \<open>The active profile\<close>

definition active_profile_file :: "app_config \<Rightarrow> string" where
  "active_profile_file c = path_join (generated_dir (app_system c)) ''active-upstream''"

definition upstream_log :: "app_config \<Rightarrow> string" where
  "upstream_log c = path_join (log_dir (app_system c)) ''upstream.log''"

text \<open>A dictionary by name: of two profiles with one name the later is kept.\<close>

definition profiles_by_name :: "app_config \<Rightarrow> string \<Rightarrow> upstream_profile option" where
  "profiles_by_name c name = map_of (map (\<lambda>p. (p_name p, p)) (rev (profiles (app_upstream c)))) name"

definition runtime_selected :: "app_config \<Rightarrow> world \<Rightarrow> upstream_profile option" where
  "runtime_selected c w =
     (case find (\<lambda>n. n \<noteq> [] \<and> profiles_by_name c n \<noteq> None)
        (map strip (read_lines_of (files w (active_profile_file c)))) of
        Some n \<Rightarrow> (let p = the (profiles_by_name c n) in if p_enabled p then Some p else None)
      | None \<Rightarrow> selected_profile (app_upstream c))"

definition profile_by_name :: "app_config \<Rightarrow> string \<Rightarrow> upstream_profile result" where
  "profile_by_name c name = (case find (\<lambda>p. p_name p = name) (profiles (app_upstream c)) of
     Some p \<Rightarrow> Inr p | None \<Rightarrow> Inl ValueError)"

definition interface_of :: "app_config \<Rightarrow> upstream_profile \<Rightarrow> string" where
  "interface_of c p = profile_interface (app_upstream c) p"

definition active_interface :: "app_config \<Rightarrow> world \<Rightarrow> string" where
  "active_interface c w = (case runtime_selected c w of None \<Rightarrow> up_interface (app_upstream c)
     | Some p \<Rightarrow> interface_of c p)"

text \<open>The routing targets of the profiles with lists of their own.\<close>

definition named_target_routing :: "service \<Rightarrow> world \<Rightarrow> (upstream_profile \<times> string \<times> int) list result" where
  "named_target_routing sv w = (let c = sv_config sv in
     if \<not> up_enabled (app_upstream c) then Inr []
     else res_bind (list_targets (sv_env sv) c (main_interface (app_routing c)) w) (\<lambda>ts.
       let by_name = map_of (map (\<lambda>t. (t_name t, t)) (rev (filter (\<lambda>t. t_name t \<noteq> ''default'') ts))) in
       Inr (some_values (map (\<lambda>p. case by_name (p_name p) of None \<Rightarrow> None
          | Some t \<Rightarrow> Some (p, t_fwmark t, t_table_id t)) (profiles (app_upstream c))))))"

section \<open>Connections\<close>

definition file_safe_name :: "string \<Rightarrow> string" where
  "file_safe_name name = map (\<lambda>c. if is_alnum c \<or> c \<in> {CHR ''.'', CHR ''_'', CHR ''-''} then c else CHR ''_'') name"

definition pid_file :: "app_config \<Rightarrow> upstream_profile \<Rightarrow> string" where
  "pid_file c p = path_join (generated_dir (app_system c)) (''upstream-'' @ file_safe_name (p_name p) @ ''.pid'')"

text \<open>\<open>str.isdigit\<close> accepts superscript digits, which \<open>int\<close> then rejects.\<close>

definition read_pid :: "app_config \<Rightarrow> world \<Rightarrow> upstream_profile \<Rightarrow> nat option result" where
  "read_pid c w p = (case files w (pid_file c p) of None \<Rightarrow> Inr None
     | Some t \<Rightarrow> (let s = strip (read_text t) in
         if s = [] \<or> \<not> list_all is_digit_char s then Inr None
         else case py_int s of Some n \<Rightarrow> Inr (Some (nat n)) | None \<Rightarrow> Inl ValueError))"

text \<open>The process exists, and its command line, if readable, names openconnect.\<close>

definition cmdline_path :: "nat \<Rightarrow> string" where
  "cmdline_path pid = ''/proc/'' @ show_nat pid @ ''/cmdline''"

definition is_running :: "env \<Rightarrow> world \<Rightarrow> nat \<Rightarrow> bool" where
  "is_running env w pid = (e_alive env w pid \<and>
     (case files w (cmdline_path pid) of None \<Rightarrow> True | Some cmd \<Rightarrow> contains ''openconnect'' cmd))"

definition profile_connected :: "service \<Rightarrow> world \<Rightarrow> upstream_profile \<Rightarrow> bool result" where
  "profile_connected sv w p = res_bind (read_pid (sv_config sv) w p) (\<lambda>pid. case pid of
     None \<Rightarrow> Inr False | Some n \<Rightarrow> Inr (is_running (sv_env sv) w n))"

definition ask :: "('s \<Rightarrow> 'a result) \<Rightarrow> ('s, 'a) action" where
  "ask f = (\<lambda>w. (f w, w))"

definition upstream_log_line :: "service \<Rightarrow> string \<Rightarrow> (world, unit) action" where
  "upstream_log_line sv t = append_log (upstream_log (sv_config sv))
     (if t \<noteq> [] \<and> last t = LF then t else t @ [LF])"

text \<open>Poll every 200 milliseconds while the condition holds and the deadline has not passed. The
  fuel bounds the number of sleeps; each lasts 200 milliseconds, so a grace period of \<open>n\<close>
  milliseconds needs at most \<open>n div 200\<close>.\<close>

primrec poll_while :: "env \<Rightarrow> (world \<Rightarrow> bool result) \<Rightarrow> nat \<Rightarrow> nat \<Rightarrow> (world, unit) action" where
  "poll_while env waiting deadline 0 = ret ()"
| "poll_while env waiting deadline (Suc fuel) =
     andthen current (\<lambda>w. andthen (ask waiting) (\<lambda>b.
       if b \<and> e_mono env w < deadline
       then andthen (sleep_for env 200) (\<lambda>_. poll_while env waiting deadline fuel) else ret ()))"

definition wait_for :: "env \<Rightarrow> (world \<Rightarrow> bool result) \<Rightarrow> nat \<Rightarrow> (world, unit) action" where
  "wait_for env waiting grace =
     andthen current (\<lambda>w. poll_while env waiting (e_mono env w + grace) (grace div 200))"

section \<open>Addresses\<close>

definition inet_local :: "json \<Rightarrow> string option" where
  "inet_local a = (case (json_get a ''family'', json_get a ''local'') of
     (Some (JStr f), Some l) \<Rightarrow> if f = ''inet'' \<and> truthy l then Some (py_str l) else None | _ \<Rightarrow> None)"

definition first_some :: "'a option list \<Rightarrow> 'a option" where
  "first_some xs = (case some_values xs of [] \<Rightarrow> None | x # _ \<Rightarrow> Some x)"

definition addresses_of_output :: "string \<Rightarrow> string option" where
  "addresses_of_output out = (case json_loads out of
     Some (JList es) \<Rightarrow> first_some (map inet_local (concat (map (\<lambda>e.
        case json_get e ''addr_info'' of Some (JList xs) \<Rightarrow> xs | _ \<Rightarrow> []) es)))
   | _ \<Rightarrow> None)"

definition interface_address :: "service \<Rightarrow> string \<Rightarrow> (world, string option) action" where
  "interface_address sv interface =
     andthen (run_command (sv_env sv) (sv_secrets sv) [''ip'', ''-j'', ''addr'', ''show'', ''dev'', interface]
        (no_check\<lparr>o_timeout := 5\<rparr>)) (\<lambda>r.
     ret (if ok r then addresses_of_output (r_out r) else None))"

text \<open>\<open>peer.rsplit(':', 1)[0].strip('[]')\<close>.\<close>

definition peer_address :: "string \<Rightarrow> string" where
  "peer_address peer = strip_if (\<lambda>c. c \<in> {CHR ''['', CHR '']''})
     (if CHR '':'' \<in> set peer then rev (tl (dropWhile (\<lambda>c. c \<noteq> CHR '':'') (rev peer))) else peer)"

definition peer_of_line :: "nat \<Rightarrow> string \<Rightarrow> string option" where
  "peer_of_line pid l = (if contains (''pid='' @ show_nat pid @ '','') l \<and> 5 \<le> length (split_ws l)
     then Some (peer_address (split_ws l ! 4)) else None)"

definition remote_address :: "service \<Rightarrow> upstream_profile \<Rightarrow> (world, string option) action" where
  "remote_address sv p =
     andthen (ask (\<lambda>w. read_pid (sv_config sv) w p)) (\<lambda>pid. case pid of
        None \<Rightarrow> ret None
      | Some n \<Rightarrow> andthen (run_command (sv_env sv) (sv_secrets sv) [''ss'', ''-H'', ''-tnp''] (no_check\<lparr>o_timeout := 5\<rparr>)) (\<lambda>r.
          ret (if ok r then first_some (map (peer_of_line n) (splitlines (r_out r))) else None)))"

record connection_status =
  cn_profile :: string
  cn_interface :: string
  cn_connected :: bool
  cn_local :: "string option"
  cn_remote :: "string option"

record status_report =
  st_enabled :: bool
  st_active :: "string option"
  st_interface :: string
  st_connected :: bool
  st_local :: "string option"
  st_remote :: "string option"
  st_connections :: "connection_status list"

definition connection_of :: "service \<Rightarrow> upstream_profile \<Rightarrow> (world, connection_status) action" where
  "connection_of sv p = (let ifc = interface_of (sv_config sv) p in
     andthen (ask (\<lambda>w. profile_connected sv w p)) (\<lambda>up.
     andthen (if up then interface_address sv ifc else ret None) (\<lambda>l.
     andthen (if up then remote_address sv p else ret None) (\<lambda>r.
     ret \<lparr>cn_profile = p_name p, cn_interface = ifc, cn_connected = up, cn_local = l, cn_remote = r\<rparr>))))"

text \<open>The connection of the selected profile; the last one of that name.\<close>

definition upstream_status :: "service \<Rightarrow> (world, status_report) action" where
  "upstream_status sv = (let c = sv_config sv in
     andthen current (\<lambda>w0. let selected = runtime_selected c w0 in
     andthen (action_map (connection_of sv) (profiles (app_upstream c))) (\<lambda>cs.
     andthen current (\<lambda>w.
       let act = (case selected of None \<Rightarrow> None | Some p \<Rightarrow> find (\<lambda>x. cn_profile x = p_name p) (rev cs)) in
       ret \<lparr>st_enabled = up_enabled (app_upstream c),
         st_active = (case selected of None \<Rightarrow> None | Some p \<Rightarrow> Some (p_name p)),
         st_interface = active_interface c w,
         st_connected = (case act of None \<Rightarrow> False | Some x \<Rightarrow> cn_connected x),
         st_local = (case act of None \<Rightarrow> None | Some x \<Rightarrow> cn_local x),
         st_remote = (case act of None \<Rightarrow> None | Some x \<Rightarrow> cn_remote x),
         st_connections = cs\<rparr>))))"

section \<open>Dialing\<close>

definition secrets_of_profile :: "app_config \<Rightarrow> upstream_profile \<Rightarrow> string" where
  "secrets_of_profile c p = path_join (path_join (secrets_dir (app_system c)) ''upstream'') (p_name p)"

definition store_base64 :: "string \<Rightarrow> string option \<Rightarrow> string option \<Rightarrow> (world, string option) action" where
  "store_base64 path content fallback =
     (if \<not> is_set content then ret fallback
      else andthen (lift_result (b64_decode (the content))) (\<lambda>bytes.
           andthen (atomic_write_bytes path bytes 384) (\<lambda>_. ret (Some path))))"

definition materialize_cert :: "app_config \<Rightarrow> upstream_profile \<Rightarrow> (world, string option \<times> string option) action" where
  "materialize_cert c p = (let dir = secrets_of_profile c p in
     andthen (store_base64 (path_join dir ''cert'') (cert_file_base64 p) (cert_file p)) (\<lambda>cert.
     andthen (store_base64 (path_join dir ''key'') (key_file_base64 p) (key_file p)) (\<lambda>key. ret (cert, key))))"

definition materialize_key_password :: "app_config \<Rightarrow> upstream_profile \<Rightarrow> (world, string) action" where
  "materialize_key_password c p = (let path = path_join (secrets_of_profile c p) ''openconnect.conf'' in
     andthen (atomic_write_text path (''key-password='' @ the (cert_pass p) @ [LF]) 384) (\<lambda>_. ret path))"

definition ensure_vpnc_script :: "service \<Rightarrow> (world, string) action" where
  "ensure_vpnc_script sv = (let target = path_join (generated_dir (app_system (sv_config sv))) ''vpnc-script-korserver'' in
     andthen (atomic_write_text target (t_vpnc_script (sv_templates sv)) 493) (\<lambda>_. ret target))"

definition server_address :: "upstream_profile \<Rightarrow> string" where
  "server_address p = p_server p @ '':'' @ p_port p
     @ (if is_set (camouflage_secret p) then ''/?'' @ the (camouflage_secret p) else [])"

definition certificate_args :: "service \<Rightarrow> upstream_profile \<Rightarrow> (world, string list) action" where
  "certificate_args sv p =
     (if p_auth_type p \<notin> {Cert_auth, P12_auth} then ret []
      else andthen (materialize_cert (sv_config sv) p) (\<lambda>(cert, key). case cert of
          None \<Rightarrow> ret []
        | Some cf \<Rightarrow> andthen (if is_set (cert_pass p)
             then andthen (materialize_key_password (sv_config sv) p) (\<lambda>path. ret [''--config='' @ path]) else ret []) (\<lambda>pw.
           ret ([''--certificate'', cf] @ (case key of None \<Rightarrow> [] | Some k \<Rightarrow> [''--sslkey'', k]) @ pw))))"

definition openconnect_argv :: "service \<Rightarrow> upstream_profile \<Rightarrow> string option \<Rightarrow> (world, string list) action" where
  "openconnect_argv sv p accepted = (let c = sv_config sv in
     andthen (ensure_vpnc_script sv) (\<lambda>script.
     andthen (certificate_args sv p) (\<lambda>cert_args.
       let pin = (if is_set (server_cert_pin p) then server_cert_pin p else accepted) in
       ret ([''openconnect'', ''--interface'', interface_of c p, ''--protocol=anyconnect'', ''--non-inter'', ''--background'',
             ''--pid-file='' @ pid_file c p, ''--script='' @ script]
         @ (if is_set pin then [''--servercert'', the pin] else [])
         @ (if p_auth_type p = Password_auth \<or> is_set (p_password p) then [''--passwd-on-stdin''] else [])
         @ (if is_set (p_username p) then [''--user'', the (p_username p)] else [])
         @ cert_args @ [server_address p]))))"

definition accepted_pin_file :: "app_config \<Rightarrow> upstream_profile \<Rightarrow> string" where
  "accepted_pin_file c p = path_join (generated_dir (app_system c)) (''upstream-'' @ file_safe_name (p_name p) @ ''.accepted-pin'')"

definition read_accepted_pin :: "app_config \<Rightarrow> world \<Rightarrow> upstream_profile \<Rightarrow> string option" where
  "read_accepted_pin c w p = (case files w (accepted_pin_file c p) of None \<Rightarrow> None
     | Some t \<Rightarrow> (let s = strip (read_text t) in if s = [] then None else Some s))"

definition fetched_pin :: "service \<Rightarrow> upstream_profile \<Rightarrow> world \<Rightarrow> string result" where
  "fetched_pin sv p w =
     (case (if py_int (p_port p) = None then Inl ValueError
            else fetch_server_pin (sv_env sv) (p_server p) (p_port p) w) of
        Inr pin \<Rightarrow> Inr (cp_pin pin)
      | Inl e \<Rightarrow> Inl (if e \<in> {OSError, ValueError} then CommandError else e))"

definition pin_note :: "upstream_profile \<Rightarrow> string option \<Rightarrow> string \<Rightarrow> string option" where
  "pin_note p previous pin = (case previous of
      Some old \<Rightarrow> if old \<noteq> pin then Some (''WARNING profile '' @ [CHR 0x27] @ p_name p @ [CHR 0x27]
          @ '': the server now presents a different key ('' @ old @ '' -> '' @ pin @ ''); accepted automatically because the ''
          @ ''certificate check is disabled. Expected after a key rotation on the ''
          @ ''upstream; otherwise it may be a man-in-the-middle.'') else None
    | None \<Rightarrow> Some (''profile '' @ [CHR 0x27] @ p_name p @ [CHR 0x27] @ '': certificate check disabled, accepting the ''
          @ ''certificate the server presented ('' @ pin @ ''); set server_cert_pin to it ''
          @ ''to stop trusting whatever the server presents''))"

definition accepted_server_pin :: "service \<Rightarrow> upstream_profile \<Rightarrow> bool \<Rightarrow> (world, string option) action" where
  "accepted_server_pin sv p b = (let c = sv_config sv in
     if \<not> trusted_cert p \<or> is_set (server_cert_pin p) then ret None
     else if b then ret (Some ''pin-sha256:<fetched-from-server-at-connect>'')
     else andthen (ask (fetched_pin sv p)) (\<lambda>pin.
          andthen current (\<lambda>w.
          andthen (case pin_note p (read_accepted_pin c w p) pin of
             None \<Rightarrow> ret () | Some t \<Rightarrow> upstream_log_line sv t) (\<lambda>_.
          andthen (atomic_write_text (accepted_pin_file c p) (pin @ [LF]) 420) (\<lambda>_. ret (Some pin))))))"

definition unmarked_lines :: "string list \<Rightarrow> string list" where
  "unmarked_lines ls = filter (\<lambda>l. \<not> starts_with ''# and will be overwritten by vpnc'' l
     \<and> \<not> starts_with ''# as long as the above mark is intact'' l) (tl ls)"

definition repair_stale_resolv_conf :: "(world, unit) action" where
  "repair_stale_resolv_conf =
     andthen (read_file resolv_conf_path) (\<lambda>content. case content of
        None \<Rightarrow> ret ()
      | Some t \<Rightarrow> (let ls = splitlines (read_text t) in
          if ls = [] \<or> \<not> starts_with vpnc_marker (hd ls) then ret ()
          else atomic_write_text resolv_conf_path (lines_text (unmarked_lines ls)) 420))"

section \<open>Server-pushed routing\<close>

definition all_errors :: "py_error \<Rightarrow> bool" where
  "all_errors e = True"

text \<open>Any failure of the DNS restart is logged and ignored; the results so far are kept.\<close>

definition restart_pushed_dns :: "service \<Rightarrow> (world, command_result list) action" where
  "restart_pushed_dns sv =
     (let note = upstream_log_line sv ''could not restart dnsmasq for pushed domains'' in
      catch all_errors
        (andthen (ensure_listen_address (sv_env sv) [] (sv_config sv) False) (\<lambda>a.
           catch all_errors (andthen (process_action (sv_env sv) ''restart'' ''dnsmasq'' False) (\<lambda>r. ret [a, r]))
             (andthen note (\<lambda>_. ret [a]))))
        (andthen note (\<lambda>_. ret [])))"

definition apply_server_routing_if_changed :: "service \<Rightarrow> bool \<Rightarrow> (world, command_result list) action" where
  "apply_server_routing_if_changed sv force = (let c = sv_config sv; env = sv_env sv in
     andthen current (\<lambda>w. let fp = pushed_fingerprint env c w in
     if \<not> force \<and> fp = applied_fingerprint c w then ret []
     else andthen (nft_apply env (sv_secrets sv) (t_printer (sv_templates sv)) c False (Some (active_interface c w))) (\<lambda>rs.
       if rs \<noteq> [] \<and> \<not> ok (hd rs)
       then andthen (upstream_log_line sv ''applying server-pushed routes failed: nftables reload error'') (\<lambda>_. ret rs)
       else andthen current (\<lambda>w1.
         andthen (if dns_tunnel_active (path_exists w1) c
           then andthen (lift_result (render_dnsmasq env c w1)) (\<lambda>t.
                andthen (atomic_write_text (dnsmasq_target_path c) t 420) (\<lambda>_. restart_pushed_dns sv))
           else ret []) (\<lambda>dns.
         andthen (mark_applied c fp) (\<lambda>_.
         andthen (upstream_log_line sv (''applied server-pushed routes/domains ('' @ fp @ '')'')) (\<lambda>_.
         ret (rs @ dns))))))))"

end
