(* ===== verification/Upstream_Ops.thy ===== *)
theory Upstream_Ops
  imports Upstream
begin

text \<open>
  \<open>services/upstream.py\<close>, second part: the operations that change which tunnels are up and
  which one carries the redirected traffic.
\<close>

section \<open>Policy routing of the service\<close>

definition main_policy_apply :: "service \<Rightarrow> string \<Rightarrow> (world, command_result list) action" where
  "main_policy_apply sv interface = (let c = sv_config sv in
     policy_apply (sv_env sv) (sv_secrets sv) c (fwmark (app_routing c)) (table_id (app_routing c)) (Some interface) False)"

definition main_policy_ensure :: "service \<Rightarrow> string \<Rightarrow> (world, command_result list) action" where
  "main_policy_ensure sv interface = (let c = sv_config sv in
     policy_ensure (sv_env sv) (sv_secrets sv) c (fwmark (app_routing c)) (table_id (app_routing c)) (Some interface) False)"

definition main_policy_cleanup :: "service \<Rightarrow> (world, command_result list) action" where
  "main_policy_cleanup sv = (let c = sv_config sv in
     policy_cleanup (sv_env sv) (sv_secrets sv) (fwmark (app_routing c)) (table_id (app_routing c)) False)"

definition named_policy :: "service \<Rightarrow> upstream_profile \<Rightarrow> (string \<Rightarrow> int \<Rightarrow> (world, command_result list) action)
    \<Rightarrow> (world, unit) action" where
  "named_policy sv p f =
     andthen (ask (named_target_routing sv)) (\<lambda>nts.
     andthen (action_map (\<lambda>(q, fw, t). f fw t) (filter (\<lambda>(q, _, _). p_name q = p_name p) nts)) (\<lambda>_. ret ()))"

definition load_rules :: "service \<Rightarrow> string \<Rightarrow> (world, command_result list) action" where
  "load_rules sv outbound =
     nft_apply (sv_env sv) (sv_secrets sv) (t_printer (sv_templates sv)) (sv_config sv) False (Some outbound)"

section \<open>Switching\<close>

definition switch_profile :: "service \<Rightarrow> string \<Rightarrow> (world, unit) action" where
  "switch_profile sv name = (let c = sv_config sv in
     andthen (lift_result (profile_by_name c name)) (\<lambda>p.
     andthen (atomic_write_text (active_profile_file c) (name @ [LF]) 384) (\<lambda>_.
     andthen (load_rules sv (interface_of c p)) (\<lambda>_.
     andthen (ask (\<lambda>w. profile_connected sv w p)) (\<lambda>up.
       if up then andthen (main_policy_apply sv (interface_of c p)) (\<lambda>_. ret ()) else ret ())))))"

section \<open>Connecting\<close>

definition quote_name :: "string \<Rightarrow> string" where
  "quote_name name = [CHR 0x27] @ name @ [CHR 0x27]"

definition plain_result :: "string list \<Rightarrow> string \<Rightarrow> bool \<Rightarrow> command_result" where
  "plain_result argv out b = \<lparr>r_argv = argv, r_code = 0, r_out = out, r_err = [], r_dry = b\<rparr>"

definition named_or_selected :: "service \<Rightarrow> string option \<Rightarrow> (world, upstream_profile option) action" where
  "named_or_selected sv name =
     (if is_set name then andthen (lift_result (profile_by_name (sv_config sv) (the name))) (\<lambda>p. ret (Some p))
      else ask (\<lambda>w. Inr (runtime_selected (sv_config sv) w)))"

definition verify_backgrounded :: "service \<Rightarrow> upstream_profile \<Rightarrow> (world, unit) action" where
  "verify_backgrounded sv p =
     andthen (wait_for (sv_env sv) (\<lambda>w. res_bind (profile_connected sv w p) (\<lambda>b. Inr (\<not> b))) background_grace_ms) (\<lambda>_.
     andthen (ask (\<lambda>w. profile_connected sv w p)) (\<lambda>up. if up then ret () else throw CommandError))"

definition dial_options :: "service \<Rightarrow> upstream_profile \<Rightarrow> bool \<Rightarrow> run_options" where
  "dial_options sv p b = default_options\<lparr>o_timeout := 60, o_dry_run := b, o_graceful := Some 5,
     o_input := (if is_set (p_password p) then Some (the (p_password p) @ [LF]) else None),
     o_output_file := Some (upstream_log (sv_config sv)),
     o_extra_secrets := [case p_password p of None \<Rightarrow> [] | Some s \<Rightarrow> s, case cert_pass p of None \<Rightarrow> [] | Some s \<Rightarrow> s, p_port p]\<rparr>"

definition dial :: "service \<Rightarrow> upstream_profile \<Rightarrow> bool \<Rightarrow> (world, command_result) action" where
  "dial sv p b =
     andthen (accepted_server_pin sv p b) (\<lambda>pin.
     andthen (openconnect_argv sv p pin) (\<lambda>argv.
     run_command (sv_env sv) (sv_secrets sv) argv (dial_options sv p b)))"

text \<open>After the tunnel is up: the routes of the active profile and of its named target, and
  whatever the server pushed.\<close>

definition after_dial :: "service \<Rightarrow> upstream_profile \<Rightarrow> bool \<Rightarrow> (world, unit) action" where
  "after_dial sv p is_active = (let c = sv_config sv; ifc = interface_of c p in
     andthen (verify_backgrounded sv p) (\<lambda>_.
     andthen (if is_active then andthen (main_policy_apply sv ifc) (\<lambda>_. ret ()) else ret ()) (\<lambda>_.
     andthen (named_policy sv p (\<lambda>fw t. policy_apply (sv_env sv) (sv_secrets sv) c fw t (Some ifc) False)) (\<lambda>_.
     andthen (apply_server_routing_if_changed sv False) (\<lambda>_. ret ())))))"

definition is_active_profile :: "app_config \<Rightarrow> world \<Rightarrow> upstream_profile \<Rightarrow> bool" where
  "is_active_profile c w p = (case runtime_selected c w of None \<Rightarrow> False | Some s \<Rightarrow> p_name s = p_name p)"

definition connect_profile :: "service \<Rightarrow> upstream_profile \<Rightarrow> bool \<Rightarrow> (world, command_result) action" where
  "connect_profile sv p b = (let c = sv_config sv in
     andthen (if b then ret False else ask (\<lambda>w. profile_connected sv w p)) (\<lambda>up.
     if up then ret (plain_result [''openconnect'', ''<already-running>'']
        (''profile '' @ quote_name (p_name p) @ '' is already connected'') False)
     else andthen current (\<lambda>w. let is_active = is_active_profile c w p in
       andthen (if b then ret [] else andthen repair_stale_resolv_conf (\<lambda>_.
          andthen current (\<lambda>w1. load_rules sv (active_interface c w1)))) (\<lambda>_.
       andthen (dial sv p b) (\<lambda>r.
       andthen (if b then ret () else after_dial sv p is_active) (\<lambda>_. ret r))))))"

definition connect :: "service \<Rightarrow> string option \<Rightarrow> bool \<Rightarrow> (world, command_result) action" where
  "connect sv name b = andthen (named_or_selected sv name) (\<lambda>p. case p of
     None \<Rightarrow> throw ValueError | Some q \<Rightarrow> connect_profile sv q b)"

section \<open>Disconnecting\<close>

definition terminate_process :: "service \<Rightarrow> nat \<Rightarrow> (world, unit) action" where
  "terminate_process sv pid = (let env = sv_env sv in
     andthen (kill_process env pid ''SIGTERM'') (\<lambda>_.
     andthen (wait_for env (\<lambda>w. Inr (is_running env w pid)) disconnect_grace_ms) (\<lambda>_.
     andthen current (\<lambda>w. if is_running env w pid
       then andthen (upstream_log_line sv (''pid '' @ show_nat pid @ '' did not exit within 5s, sending SIGKILL'')) (\<lambda>_.
            kill_process env pid ''SIGKILL'')
       else ret ()))))"

definition disconnect_profile :: "service \<Rightarrow> upstream_profile option \<Rightarrow> bool \<Rightarrow> (world, command_result) action" where
  "disconnect_profile sv prof b = (let c = sv_config sv; env = sv_env sv in
     andthen (case prof of None \<Rightarrow> ret None | Some p \<Rightarrow> ask (\<lambda>w. read_pid c w p)) (\<lambda>pid.
     andthen current (\<lambda>w. case (prof, pid) of
       (Some p, Some n) \<Rightarrow>
         if \<not> is_running env w n then ret (plain_result [''kill'', ''-TERM'', ''<upstream-pid>''] ''not connected'' b)
         else let argv = [''kill'', ''-TERM'', show_nat n] in
           if b then ret (plain_result argv [] True)
           else andthen (upstream_log_line sv (''--- disconnect '' @ quote_name (p_name p) @ '' requested (pid '' @ show_nat n @ '') ---'')) (\<lambda>_.
                andthen (terminate_process sv n) (\<lambda>_.
                andthen current (\<lambda>w1.
                andthen (if is_active_profile c w1 p then andthen (main_policy_cleanup sv) (\<lambda>_. ret ()) else ret ()) (\<lambda>_.
                andthen (named_policy sv p (\<lambda>fw t. policy_cleanup env (sv_secrets sv) fw t False)) (\<lambda>_.
                andthen (upstream_log_line sv (quote_name (p_name p) @ '' disconnected'')) (\<lambda>_.
                ret (plain_result argv ''disconnected'' False)))))))
     | _ \<Rightarrow> ret (plain_result [''kill'', ''-TERM'', ''<upstream-pid>''] ''not connected'' b))))"

definition disconnect :: "service \<Rightarrow> string option \<Rightarrow> bool \<Rightarrow> (world, command_result) action" where
  "disconnect sv name b = andthen (named_or_selected sv name) (\<lambda>p. disconnect_profile sv p b)"

section \<open>Health\<close>

definition ping_args :: "string \<Rightarrow> string \<Rightarrow> string list" where
  "ping_args interface host = [''ping'', ''-I'', interface, ''-c'', ''3'', ''-i'', ''0.3'', ''-W'', ''2'', host]"

definition healthcheck :: "service \<Rightarrow> bool \<Rightarrow> (world, command_result option) action" where
  "healthcheck sv b = (let c = sv_config sv in
     andthen current (\<lambda>w. case runtime_selected c w of
        None \<Rightarrow> ret None
      | Some p \<Rightarrow> if \<not> is_set (check_host p) then ret None
          else andthen (run_command (sv_env sv) (sv_secrets sv) (ping_args (interface_of c p) (the (check_host p)))
                 (no_check\<lparr>o_timeout := 8, o_dry_run := b\<rparr>)) (\<lambda>r. ret (Some r))))"

definition is_healthy :: "service \<Rightarrow> (world, bool) action" where
  "is_healthy sv =
     andthen current (\<lambda>w. case runtime_selected (sv_config sv) w of
        None \<Rightarrow> ret False
      | Some p \<Rightarrow> andthen (ask (\<lambda>w. profile_connected sv w p)) (\<lambda>up.
          if \<not> up then ret False
          else andthen (healthcheck sv False) (\<lambda>r. ret (case r of None \<Rightarrow> True | Some x \<Rightarrow> ok x))))"

definition ensure_policy_routing :: "service \<Rightarrow> (world, command_result list) action" where
  "ensure_policy_routing sv = (let c = sv_config sv in
     andthen current (\<lambda>w.
     andthen (case runtime_selected c w of None \<Rightarrow> ret []
       | Some p \<Rightarrow> andthen (ask (\<lambda>w. profile_connected sv w p)) (\<lambda>up.
           if up then main_policy_ensure sv (interface_of c p) else ret [])) (\<lambda>rs.
     andthen (ask (named_target_routing sv)) (\<lambda>nts.
     andthen (action_map (\<lambda>(p, fw, t). andthen (ask (\<lambda>w. profile_connected sv w p)) (\<lambda>up.
        if up then policy_ensure (sv_env sv) (sv_secrets sv) c fw t (Some (interface_of c p)) False else ret [])) nts) (\<lambda>rss.
     ret (rs @ concat rss))))))"

section \<open>The watchdog's repairs\<close>

definition dial_error :: "py_error \<Rightarrow> bool" where
  "dial_error e = (e \<in> {ValueError, CommandError})"

text \<open>One profile of \<open>enforce_profile_enablement\<close>; \<open>active\<close> was read before the loop.\<close>

definition enforce_profile :: "service \<Rightarrow> string option \<Rightarrow> upstream_profile \<Rightarrow> (world, command_result list) action" where
  "enforce_profile sv active p =
     andthen (ask (\<lambda>w. profile_connected sv w p)) (\<lambda>up.
       if \<not> p_enabled p then
         (if up then andthen (disconnect sv (Some (p_name p)) False) (\<lambda>r. ret [r]) else ret [])
       else if Some (p_name p) = active \<or> up then ret []
       else catch dial_error (andthen (connect sv (Some (p_name p)) False) (\<lambda>r. ret [r]))
              (andthen (upstream_log_line sv (''standby connect to '' @ quote_name (p_name p) @ '' failed'')) (\<lambda>_. ret [])))"

definition enforce_profile_enablement :: "service \<Rightarrow> (world, command_result list) action" where
  "enforce_profile_enablement sv = (let c = sv_config sv in
     andthen current (\<lambda>w. let active = map_option p_name (runtime_selected c w) in
     andthen (action_map (enforce_profile sv active) (profiles (app_upstream c))) (\<lambda>rss. ret (concat rss))))"

fun index_of :: "'a \<Rightarrow> 'a list \<Rightarrow> nat" where
  "index_of x [] = 0"
| "index_of x (y # ys) = (if x = y then 0 else Suc (index_of x ys))"

text \<open>The names to try: the current one, then, with failover, the next ones in list order.\<close>

definition recovery_order :: "bool \<Rightarrow> string list \<Rightarrow> string \<Rightarrow> string list" where
  "recovery_order failover_on names current_name =
     (if failover_on \<and> 1 < length names
      then (let start = (if current_name \<in> set names then index_of current_name names else 0) in
        map (\<lambda>offset. names ! ((start + offset) mod length names)) [0..<length names])
      else [current_name])"

text \<open>Bring one candidate up: whether it is up now.\<close>

definition raise_candidate :: "service \<Rightarrow> bool \<Rightarrow> upstream_profile \<Rightarrow> (world, bool) action" where
  "raise_candidate sv current_and_active p = (let name = p_name p in
     if current_and_active then
       andthen (ask (\<lambda>w. profile_connected sv w p)) (\<lambda>up.
       andthen (if up then andthen (disconnect sv (Some name) False) (\<lambda>_. ret ()) else ret ()) (\<lambda>_.
         catch dial_error (andthen (connect sv (Some name) False) (\<lambda>_. ret True))
           (andthen (upstream_log_line sv (''reconnect attempt to '' @ quote_name name @ '' failed'')) (\<lambda>_. ret False))))
     else andthen (ask (\<lambda>w. profile_connected sv w p)) (\<lambda>up.
       if up then ret True
       else catch dial_error (andthen (connect sv (Some name) False) (\<lambda>_. ret True))
           (andthen (upstream_log_line sv (''failover connect to '' @ quote_name name @ '' failed'')) (\<lambda>_. ret False))))"

fun recover_loop :: "service \<Rightarrow> string \<Rightarrow> bool \<Rightarrow> string list \<Rightarrow> (world, bool) action" where
  "recover_loop sv current_name already_active [] =
     andthen (upstream_log_line sv ''all reconnect attempts failed'') (\<lambda>_. ret False)"
| "recover_loop sv current_name already_active (name # rest) =
     andthen (lift_result (profile_by_name (sv_config sv) name)) (\<lambda>p.
     let current_and_active = (name = current_name \<and> already_active) in
     andthen (raise_candidate sv current_and_active p) (\<lambda>up.
       if \<not> up then recover_loop sv current_name already_active rest
       else andthen (if current_and_active then upstream_log_line sv (''reconnected to '' @ quote_name name)
              else andthen (switch_profile sv name) (\<lambda>_.
                upstream_log_line sv (''failed over to '' @ quote_name name @ '' (redirection rules switched)''))) (\<lambda>_.
            ret True)))"

definition recover :: "service \<Rightarrow> (world, bool) action" where
  "recover sv = (let c = sv_config sv; up = app_upstream c;
       names = map p_name (filter p_enabled (profiles up)) in
     if profiles up = [] then ret False
     else if names = [] then andthen (upstream_log_line sv ''no enabled upstream profile to recover'') (\<lambda>_. ret False)
     else andthen current (\<lambda>w. let active = runtime_selected c w;
            current_name = (case active of Some p \<Rightarrow> p_name p | None \<Rightarrow> hd names) in
          recover_loop sv current_name (active \<noteq> None) (recovery_order (failover up) names current_name)))"

section \<open>Server-pushed routing\<close>

definition profile_for_interface :: "app_config \<Rightarrow> string \<Rightarrow> upstream_profile option" where
  "profile_for_interface c interface = find (\<lambda>p. interface_of c p = interface) (profiles (app_upstream c))"

definition record_vpnc_event :: "service \<Rightarrow> string \<Rightarrow> environ \<Rightarrow> (world, upstream_profile option) action" where
  "record_vpnc_event sv reason e = (let c = sv_config sv in
     if reason \<notin> {''connect'', ''reconnect''} then ret None
     else case profile_for_interface c (environ_get e ''TUNDEV'') of
         None \<Rightarrow> ret None
       | Some p \<Rightarrow> andthen current (\<lambda>w.
           andthen (save_handshake c p (parse_vpnc_environment e (e_now (sv_env sv) w))) (\<lambda>_. ret (Some p))))"

datatype routing_warning =
    Accept_without_host_routing
  | Inside_own_network "string list"

definition item_overlaps :: "ipnet \<Rightarrow> string \<Rightarrow> bool" where
  "item_overlaps net item = (case ip_network False item of Inl _ \<Rightarrow> False | Inr n \<Rightarrow> overlaps n net)"

definition server_routing_warnings :: "app_config \<Rightarrow> upstream_profile \<Rightarrow> pushed_routing \<Rightarrow> routing_warning list result" where
  "server_routing_warnings c p pushed =
     res_bind (ip_network False (ipv4_network (app_server c))) (\<lambda>own.
     let inside = filter (item_overlaps own) (pr_routes pushed @ pr_dns pushed) in
     Inr ((if accept_server_routes p \<and> \<not> route_host_enabled p then [Accept_without_host_routing] else [])
        @ (if inside \<noteq> [] then [Inside_own_network inside] else [])))"

record routing_status =
  rs_accept :: bool
  rs_active :: bool
  rs_pushed :: pushed_routing
  rs_warnings :: "routing_warning list"

definition server_routing_status :: "app_config \<Rightarrow> world \<Rightarrow> upstream_profile \<Rightarrow> routing_status result" where
  "server_routing_status c w p = (let pushed = load_pushed c p w in
     res_bind (server_routing_warnings c p pushed) (\<lambda>ws.
     Inr \<lparr>rs_accept = accept_server_routes p, rs_active = (accept_server_routes p \<and> route_host_enabled p),
        rs_pushed = pushed, rs_warnings = ws\<rparr>))"

definition sync_args :: "app_config \<Rightarrow> upstream_profile \<Rightarrow> string list" where
  "sync_args c p = [''curl'', ''--silent'', ''--show-error'', ''--fail'', ''--max-time'', ''20'', ''--max-filesize'', ''1048576'',
     ''--interface'', interface_of c p, ''--user-agent'', ''korserver-client-sync/1.0'', ''--header'', ''Accept: application/json'']
     @ (if sync_verify_tls p then [] else [''--insecure'']) @ [the (sync_url p) @ ''/api/client/routing'']"

text \<open>The text of the error that is stored: what curl printed, or a note.\<close>

definition sync_answer :: "(json \<Rightarrow> string) \<Rightarrow> command_result \<Rightarrow> string + (string list \<times> string list \<times> string)" where
  "sync_answer py_repr r =
     (if \<not> ok r then Inl (if strip (r_err r) \<noteq> [] then strip (r_err r) else ''curl exited '' @ show_int (r_code r))
      else case json_loads (if r_out r = [] then ''null'' else r_out r) of
        None \<Rightarrow> Inl ''invalid answer''
      | Some j \<Rightarrow> (case parse_sync_payload py_repr j of Inl _ \<Rightarrow> Inl ''invalid answer'' | Inr x \<Rightarrow> Inr x))"

definition synced_routing :: "app_config \<Rightarrow> upstream_profile \<Rightarrow> pushed_routing \<Rightarrow> int
    \<Rightarrow> string + (string list \<times> string list \<times> string) \<Rightarrow> pushed_routing" where
  "synced_routing c p previous now answer = (case answer of
      Inl err \<Rightarrow> previous\<lparr>pr_synced_at := now, pr_sync_error := take 500 err\<rparr>
    | Inr (routes, domains, version) \<Rightarrow>
        previous\<lparr>pr_routes := routes, pr_domains := domains, pr_source := ''sync'', pr_version := version,
          pr_interface := interface_of c p,
          pr_updated_at := (if version \<noteq> pr_version previous then now else pr_updated_at previous),
          pr_synced_at := now, pr_sync_error := []\<rparr>)"

definition sync_server_routes :: "service \<Rightarrow> (json \<Rightarrow> string) \<Rightarrow> upstream_profile \<Rightarrow> (world, pushed_routing) action" where
  "sync_server_routes sv py_repr p = (let c = sv_config sv in
     if \<not> is_set (sync_url p) then throw ValueError
     else andthen current (\<lambda>w.
          andthen (run_command (sv_env sv) (sv_secrets sv) (sync_args c p) (no_check\<lparr>o_timeout := 25\<rparr>)) (\<lambda>r.
          let new = synced_routing c p (load_pushed c p w) (int (e_now (sv_env sv) w)) (sync_answer py_repr r) in
          andthen (save_pushed c p new) (\<lambda>_. ret new))))"

definition sync_due :: "service \<Rightarrow> int \<Rightarrow> world \<Rightarrow> upstream_profile \<Rightarrow> bool result" where
  "sync_due sv now w p =
     (if \<not> (p_enabled p \<and> accept_server_routes p \<and> route_host_enabled p \<and> is_set (sync_url p)) then Inr False
      else res_bind (profile_connected sv w p) (\<lambda>up.
        Inr (up \<and> \<not> now - pr_synced_at (load_pushed (sv_config sv) p w) < sync_interval p)))"

definition refresh_profile_routes :: "service \<Rightarrow> (json \<Rightarrow> string) \<Rightarrow> int \<Rightarrow> upstream_profile \<Rightarrow> (world, unit) action" where
  "refresh_profile_routes sv py_repr now p =
     andthen (ask (\<lambda>w. sync_due sv now w p)) (\<lambda>due.
       if \<not> due then ret ()
       else andthen (sync_server_routes sv py_repr p) (\<lambda>new.
         if pr_sync_error new = [] then ret ()
         else upstream_log_line sv (''routing sync for '' @ quote_name (p_name p) @ '' failed: '' @ pr_sync_error new)))"

definition refresh_server_routes :: "service \<Rightarrow> (json \<Rightarrow> string) \<Rightarrow> int option \<Rightarrow> (world, command_result list) action" where
  "refresh_server_routes sv py_repr now =
     andthen current (\<lambda>w. let t = (case now of Some n \<Rightarrow> n | None \<Rightarrow> int (e_now (sv_env sv) w)) in
     andthen (action_map (refresh_profile_routes sv py_repr t) (profiles (app_upstream (sv_config sv)))) (\<lambda>_.
     apply_server_routing_if_changed sv False))"

end
