(* ===== verification/Upstream_Facts.thy ===== *)
theory Upstream_Facts
  imports Upstream_Ops
begin

text \<open>
  Lemmas about the upstream service: what each operation runs, what its loops guarantee, and
  which file decides the active profile.
\<close>

section \<open>Steps\<close>

lemma andthen_Inr: "andthen m f w = (Inr y, w') \<longleftrightarrow> (\<exists>x w1. m w = (Inr x, w1) \<and> f x w1 = (Inr y, w'))"
  by (auto simp: andthen_def split: prod.splits sum.splits)

lemma extends_of: "only_emits P m \<Longrightarrow> m w = (r, w') \<Longrightarrow> extends w w'"
  using only_emitsD unfolding emits_def by blast

lemma only_emits_ask [emits_intros, intro]: "only_emits P (ask f)"
  by (simp add: only_emits_def ask_def)

lemma only_emits_True [simp]: "only_emits P m \<Longrightarrow> only_emits (\<lambda>_. True) m"
  by (rule only_emits_mono) simp_all

lemma only_emits_log_line [emits_intros, intro]: "only_emits P (upstream_log_line sv t)"
  by (simp add: upstream_log_line_def only_emits_append_log)

lemma only_emits_poll [emits_intros, intro]: "P (Slept 200) \<Longrightarrow> only_emits P (poll_while env f d n)"
  by (induction n) (auto intro!: emits_intros)

lemma only_emits_wait [emits_intros, intro]: "P (Slept 200) \<Longrightarrow> only_emits P (wait_for env f g)"
  unfolding wait_for_def by (intro emits_intros)

lemma andthen_ask: "andthen (ask f) g w = (case f w of Inl e \<Rightarrow> (Inl e, w) | Inr x \<Rightarrow> g x w)"
  by (simp add: andthen_def ask_def)

lemma andthen_lift: "andthen (lift_result r) g w = (case r of Inl e \<Rightarrow> (Inl e, w) | Inr x \<Rightarrow> g x w)"
  by (simp add: andthen_def lift_result_def)

lemma andthen_write: "andthen (atomic_write_text p t m) g w = g () (snd (atomic_write_text p t m w))"
  by (simp add: andthen_def atomic_write_text_def)

lemma andthen_current: "andthen current g w = g w w"
  by (simp add: andthen_def current_def)

section \<open>Loading the rules\<close>

definition loads_ruleset :: "app_config \<Rightarrow> event list \<Rightarrow> bool" where
  "loads_ruleset c es = (\<exists>i. Ran (nft_load_args (target_path c)) i \<in> set es \<or> Ran (nft_load_args (static_refresh_path c)) i \<in> set es)"

lemma run_no_check_runs:
  assumes "run_command env own argv no_check w = (r, w')" "argv \<noteq> []" "[] \<notin> set argv"
  shows "Ran argv None \<in> set (new_events w w')"
  using run_command_runs [OF assms] by (simp add: no_check_def default_options_def)

lemma load_args_ok: "nft_load_args (target_path c) \<noteq> []" "[] \<notin> set (nft_load_args (target_path c))"
    "nft_load_args (static_refresh_path c) \<noteq> []" "[] \<notin> set (nft_load_args (static_refresh_path c))"
  by (auto simp: nft_load_args_def target_path_def static_refresh_path_def generated_path_def path_join_def)

lemma any_event: "only_emits (\<lambda>_. True) (run_command env own argv opts)"
  by (rule only_emits_run_command) simp_all

lemma loads_mono: "loads_ruleset c (new_events b d) \<Longrightarrow> extends a b \<Longrightarrow> extends b d \<Longrightarrow> loads_ruleset c (new_events a d)"
  unfolding loads_ruleset_def using new_events_trans [of a b d] by auto

lemma full_recreate_loads:
  assumes "apply_full_recreate env sec pr c outbound w = (Inr r, w')"
  shows "loads_ruleset c (new_events w w') \<and> extends w w'"
proof -
  from assms obtain rs w1 where 1: "atomic_write_text (target_path c) (print_ruleset pr c rs) 420 w = (Inr (), w1)"
    and 2: "run_command env sec (nft_load_args (target_path c)) no_check w1 = (Inr r, w')"
    by (auto simp: apply_full_recreate_def andthen_Inr current_def lift_result_def)
  have "extends w w1" using only_emits_write [of "\<lambda>_. True"] 1 by (rule extends_of) simp
  moreover have "extends w1 w'" using any_event 2 by (rule extends_of)
  moreover have "loads_ruleset c (new_events w1 w')"
    using run_no_check_runs [OF 2 load_args_ok(1,2)] by (auto simp: loads_ruleset_def)
  ultimately show ?thesis using loads_mono extends_trans by blast
qed

lemma static_refresh_loads:
  assumes "apply_static_refresh env sec pr c outbound w = (Inr r, w')"
  shows "loads_ruleset c (new_events w w') \<and> extends w w'"
proof -
  from assms obtain cs w1 where 1: "atomic_write_text (static_refresh_path c) (print_refresh pr c cs) 420 w = (Inr (), w1)"
    and 2: "run_command env sec (nft_load_args (static_refresh_path c)) no_check w1 = (Inr r, w')"
    by (auto simp: apply_static_refresh_def andthen_Inr current_def lift_result_def)
  have "extends w w1" using only_emits_write [of "\<lambda>_. True"] 1 by (rule extends_of) simp
  moreover have "extends w1 w'" using any_event 2 by (rule extends_of)
  moreover have "loads_ruleset c (new_events w1 w')"
    using run_no_check_runs [OF 2 load_args_ok(3,4)] by (auto simp: loads_ruleset_def)
  ultimately show ?thesis using loads_mono extends_trans by blast
qed

lemma loads_then: "loads_ruleset c (new_events a b) \<Longrightarrow> extends a b \<Longrightarrow> extends b d \<Longrightarrow> loads_ruleset c (new_events a d)"
  unfolding loads_ruleset_def using new_events_trans [of a b d] by auto

lemma apply_ruleset_loads:
  assumes "apply_ruleset env sec pr c outbound w = (Inr r, w')"
  shows "loads_ruleset c (new_events w w') \<and> extends w w'"
proof -
  from assms obtain ready w1 where 1: "static_sets_ready env sec c outbound w = (Inr ready, w1)"
    and 2: "(if ready then andthen (apply_static_refresh env sec pr c outbound) (\<lambda>r.
       if ok r then ret r else apply_full_recreate env sec pr c outbound) else apply_full_recreate env sec pr c outbound) w1 = (Inr r, w')"
    by (auto simp: apply_ruleset_def andthen_Inr)
  have "only_emits (\<lambda>_. True) (static_sets_ready env sec c outbound)"
    unfolding static_sets_ready_def by (intro emits_intros any_event)
  from extends_of [OF this 1] have e: "extends w w1" .
  have "loads_ruleset c (new_events w1 w') \<and> extends w1 w'"
  proof (cases ready)
    case False
    with 2 full_recreate_loads show ?thesis by simp
  next
    case True
    with 2 obtain r1 w2 where 3: "apply_static_refresh env sec pr c outbound w1 = (Inr r1, w2)"
      and 4: "(if ok r1 then ret r1 else apply_full_recreate env sec pr c outbound) w2 = (Inr r, w')"
      by (auto simp: andthen_Inr)
    from static_refresh_loads [OF 3] have l: "loads_ruleset c (new_events w1 w2)" "extends w1 w2" by auto
    have "extends w2 w'" using 4 full_recreate_loads by (cases "ok r1") (auto simp: ret_def)
    with l show ?thesis using loads_then extends_trans by blast
  qed
  with e show ?thesis using loads_mono extends_trans by blast
qed

lemma only_apply_after: "only_emits (apply_event c) (after_apply env sec c ts)"
  unfolding after_apply_def by (intro emits_intros only_reassert only_stale only_docker)

lemma load_rules_loads:
  assumes "load_rules sv outbound w = (Inr rs, w')"
  shows "loads_ruleset (sv_config sv) (new_events w w') \<and> extends w w'"
proof -
  from assms obtain ts applied w1 rest where
    1: "apply_ruleset (sv_env sv) (sv_secrets sv) (t_printer (sv_templates sv)) (sv_config sv) (Some outbound) w = (Inr applied, w1)"
    and 2: "(if ok applied then after_apply (sv_env sv) (sv_secrets sv) (sv_config sv) ts else ret []) w1 = (Inr rest, w')"
    by (auto simp: load_rules_def nft_apply_def andthen_Inr current_def lift_result_def ret_def split: prod.splits)
  from apply_ruleset_loads [OF 1] have l: "loads_ruleset (sv_config sv) (new_events w w1)" "extends w w1" by auto
  have "only_emits (apply_event (sv_config sv)) (if ok applied then after_apply (sv_env sv) (sv_secrets sv) (sv_config sv) ts else ret [])"
    by (intro emits_intros only_apply_after)
  from extends_of [OF this 2] l show ?thesis using loads_then extends_trans by blast
qed

section \<open>Dialing behind the rules\<close>

definition dials :: "event \<Rightarrow> bool" where
  "dials e = (case e of Ran argv _ \<Rightarrow> hd argv = ''openconnect'' | _ \<Rightarrow> False)"

lemma dials_simps [simp]:
  "dials (Ran argv i) = (hd argv = ''openconnect'')" "\<not> dials (Wrote p t m)" "\<not> dials (Stopped_child a s)"
  "\<not> dials (Slept n)" "\<not> dials (Signalled n s)" "\<not> dials (Called meth xs)" "\<not> dials (Unlinked p)" "\<not> dials (Fetched u)"
  by (simp_all add: dials_def)

lemma apply_event_not_dials: "apply_event c e \<Longrightarrow> \<not> dials e"
  by (cases e) (auto simp: load_command_def docker_command_def policy_command_def nft_probe_args_def nft_load_args_def
      docker_list_args_def docker_insert_args_def rule_args_def route_args_def flush_args_def)

lemma no_dial_load: "only_emits (\<lambda>e. \<not> dials e) (load_rules sv outbound)"
  unfolding load_rules_def using only_nft_apply apply_event_not_dials by (rule only_emits_mono)

lemma no_dial_repair: "only_emits (\<lambda>e. \<not> dials e) repair_stale_resolv_conf"
  unfolding repair_stale_resolv_conf_def Let_def by (intro emits_intros) simp

lemma only_emits_new: "only_emits P m \<Longrightarrow> m w = (r, w') \<Longrightarrow> \<forall>e \<in> set (new_events w w'). P e"
  using only_emitsD unfolding emits_def by blast

lemma ask_same: "ask f w = (r, w') \<longleftrightarrow> r = f w \<and> w' = w"
  by (auto simp: ask_def)

named_theorems any_events \<open>every event is allowed\<close>

lemmas [any_events] = any_event only_emits_log_line

lemma any_rpc [any_events]: "only_emits (\<lambda>_. True) (rpc_call env m xs)"
proof -
  have "only_emits P (case a of Rpc_fault f \<Rightarrow> throw (RpcError f) | Rpc_value v \<Rightarrow> ret v)" for P :: "event \<Rightarrow> bool" and a
    by (cases a) (auto intro: emits_intros)
  then show ?thesis unfolding rpc_call_def by (intro emits_intros) simp_all
qed

lemma run_rpc_world: "snd (run_rpc m xs w) = snd (m w)"
  by (cases "m w") (auto simp: run_rpc_def split: sum.splits py_error.splits)

lemma any_run_rpc [any_events]: "only_emits P m \<Longrightarrow> only_emits P (run_rpc m xs)"
  by (simp add: only_emits_def run_rpc_world)

lemma any_process_action [any_events]: "only_emits (\<lambda>_. True) (process_action env ''restart'' name False)"
  unfolding process_action_def restart_process_def stop_process_def start_process_def
  by (auto intro!: emits_intros any_run_rpc any_rpc)

lemma any_load [any_events]: "only_emits (\<lambda>_. True) (load_rules sv outbound)"
  unfolding load_rules_def using only_nft_apply by (rule only_emits_mono) simp

lemma any_policy [any_events]: "only_emits (\<lambda>_. True) (policy_apply env sec c fw t i b)"
  "only_emits (\<lambda>_. True) (policy_cleanup env sec fw t b)" "only_emits (\<lambda>_. True) (policy_ensure env sec c fw t i b)"
proof -
  show "only_emits (\<lambda>_. True) (policy_apply env sec c fw t i b)" using only_policy_apply by (rule only_emits_mono) simp
  show "only_emits (\<lambda>_. True) (policy_cleanup env sec fw t b)" using only_policy_cleanup by (rule only_emits_mono) simp
  show "only_emits (\<lambda>_. True) (policy_ensure env sec c fw t i b)" using only_runs_ensure by (rule only_emits_mono) simp
qed

lemma any_apply_routing [any_events]: "only_emits (\<lambda>_. True) (apply_server_routing_if_changed sv f)"
proof -
  have n: "only_emits (\<lambda>_. True) (nft_apply env sec pr c b ob)" for env sec pr c b ob
    using only_nft_apply by (rule only_emits_mono) simp
  show ?thesis
    unfolding apply_server_routing_if_changed_def restart_pushed_dns_def mark_applied_def ensure_listen_address_def Let_def
    by (intro emits_intros any_events n) simp_all
qed

lemma any_named [any_events]: "(\<And>fw t. only_emits P (f fw t)) \<Longrightarrow> only_emits P (named_policy sv p f)"
  unfolding named_policy_def by (intro emits_intros) (auto split: prod.split)

lemma any_dial [any_events]: "only_emits (\<lambda>_. True) (dial sv p b)"
  unfolding dial_def accepted_server_pin_def openconnect_argv_def certificate_args_def materialize_cert_def store_base64_def
    materialize_key_password_def ensure_vpnc_script_def Let_def
  by (intro emits_intros any_events) (auto intro!: emits_intros any_events split: prod.split)

lemma any_after_dial [any_events]: "only_emits (\<lambda>_. True) (after_dial sv p a)"
  unfolding after_dial_def verify_backgrounded_def main_policy_apply_def Let_def
  by (intro emits_intros any_events) simp

lemma extends_dial_rest: "only_emits (\<lambda>_. True) (andthen (dial sv p False) (\<lambda>r. andthen (after_dial sv p a) (\<lambda>_. ret r)))"
  by (intro emits_intros any_events)

text \<open>What a connect does to the world once it goes ahead: the rules are loaded, then it dials.\<close>

lemma connect_guarded:
  assumes "connect_profile sv p False w = (r, w')" "e \<in> set (new_events w w')" "dials e"
  shows "\<exists>A B. new_events w w' = A @ B \<and> (\<forall>e \<in> set A. \<not> dials e) \<and> loads_ruleset (sv_config sv) A"
proof -
  let ?c = "sv_config sv"
  let ?load = "andthen repair_stale_resolv_conf (\<lambda>_. andthen current (\<lambda>w1. load_rules sv (active_interface ?c w1)))"
  let ?rest = "\<lambda>a. andthen (dial sv p False) (\<lambda>r. andthen (after_dial sv p a) (\<lambda>_. ret r))"
  have nd: "only_emits (\<lambda>e. \<not> dials e) ?load" by (intro emits_intros no_dial_repair no_dial_load)
  have up: "profile_connected sv w p = Inr False"
    using assms by (cases "profile_connected sv w p")
      (auto simp: connect_profile_def andthen_def ask_def ret_def Let_def split: if_splits)
  have c: "andthen ?load (\<lambda>_. ?rest (is_active_profile ?c w p)) w = (r, w')"
    using assms(1) unfolding connect_profile_def Let_def by (simp only: if_False andthen_ask up sum.case andthen_current)
  show ?thesis
  proof (cases "?load w")
    case (Pair r1 w1)
    from only_emits_new [OF nd Pair] have A: "\<forall>e \<in> set (new_events w w1). \<not> dials e" .
    show ?thesis
    proof (cases r1)
      case (Inl e1)
      with c Pair have "w' = w1" by (simp add: andthen_def)
      with assms A show ?thesis by blast
    next
      case (Inr rs)
      with c Pair have rest: "?rest (is_active_profile ?c w p) w1 = (r, w')" by (simp add: andthen_def)
      from Pair Inr obtain w0 wa where r0: "repair_stale_resolv_conf w = (Inr (), w0)"
        and l: "load_rules sv (active_interface ?c w0) w0 = (Inr rs, w1)"
        by (auto simp: andthen_Inr current_def)
      from load_rules_loads [OF l] have "loads_ruleset ?c (new_events w0 w1)" "extends w0 w1" by auto
      with extends_of [OF no_dial_repair r0] have "loads_ruleset ?c (new_events w w1)" by (simp add: loads_mono)
      moreover have "extends w w1" using nd Pair by (rule extends_of)
      moreover have "extends w1 w'" using extends_dial_rest rest by (rule extends_of)
      ultimately show ?thesis using A new_events_trans by blast
    qed
  qed
qed

end
