(* ===== verification/Upstream_Keeps.thy ===== *)
theory Upstream_Keeps
  imports Upstream_Facts
begin

text \<open>
  Which file an operation leaves alone, and from that which profile is active after switching
  and recovering; the order in which profiles are tried; how long the polling loops may run.
\<close>

section \<open>Files an action keeps\<close>

definition keeps :: "string \<Rightarrow> (world, 'a) action \<Rightarrow> bool" where
  "keeps p m = (\<forall>w. files (snd (m w)) p = files w p)"

text \<open>Other programs do not write the file.\<close>

definition quiet :: "env \<Rightarrow> string \<Rightarrow> bool" where
  "quiet env p = ((\<forall>w argv i. e_after env w argv i p = files w p) \<and> (\<forall>w e. e_tick env w e p = files w p))"

named_theorems keeps_intros \<open>introduction rules for keeps\<close>

lemma keeps_basic [keeps_intros]:
  "keeps p (ret x)" "keeps p (throw e)" "keeps p (lift_result r)" "keeps p current" "keeps p (read_file q)" "keeps p (ask f)"
  "keeps p (emit ev)"
  by (simp_all add: keeps_def result_simps ask_def)

lemma keeps_write [keeps_intros]:
  "q \<noteq> p \<Longrightarrow> keeps p (atomic_write_text q t m)" "q \<noteq> p \<Longrightarrow> keeps p (atomic_write_bytes q t m)"
  "q \<noteq> p \<Longrightarrow> keeps p (append_log q t)"
  by (simp_all add: keeps_def atomic_write_text_def atomic_write_bytes_def append_log_def)

lemma keeps_happen [keeps_intros]:
  "quiet env p \<Longrightarrow> keeps p (happen env e)" "quiet env p \<Longrightarrow> keeps p (sleep_for env n)"
  "quiet env p \<Longrightarrow> keeps p (kill_process env pid sig)" "quiet env p \<Longrightarrow> keeps p (spawn env argv i)"
  by (simp_all add: keeps_def happen_def sleep_for_def kill_process_def quiet_def throw_def spawn_def)

lemma keeps_andthen [keeps_intros]: "keeps p m \<Longrightarrow> (\<And>x. keeps p (f x)) \<Longrightarrow> keeps p (andthen m f)"
  by (simp add: keeps_def andthen_def split: prod.split sum.split) (metis snd_conv)

lemma keeps_catch [keeps_intros]: "keeps p m \<Longrightarrow> keeps p h \<Longrightarrow> keeps p (catch q m h)"
  by (simp add: keeps_def catch_def split: prod.split sum.split) (metis snd_conv)

lemma keeps_map [keeps_intros]: "(\<And>x. keeps p (f x)) \<Longrightarrow> keeps p (action_map f xs)"
  by (induction xs) (auto intro!: keeps_intros)

lemma keeps_if [keeps_intros]: "(b \<Longrightarrow> keeps p m) \<Longrightarrow> (\<not> b \<Longrightarrow> keeps p n) \<Longrightarrow> keeps p (if b then m else n)"
  by simp

lemma keeps_option [keeps_intros]:
  "(x = None \<Longrightarrow> keeps p m) \<Longrightarrow> (\<And>y. x = Some y \<Longrightarrow> keeps p (f y)) \<Longrightarrow> keeps p (case x of None \<Rightarrow> m | Some y \<Rightarrow> f y)"
  by (cases x) auto

lemma keeps_outcome [keeps_intros]:
  "(\<And>r. keeps p (f r)) \<Longrightarrow> (\<And>a b c. keeps p (g a b c)) \<Longrightarrow> (\<And>a b c. keeps p (h a b c)) \<Longrightarrow>
   keeps p (case x of Spawn_failed r \<Rightarrow> f r | Timed_out a b c \<Rightarrow> g a b c | Completed a b c \<Rightarrow> h a b c)"
  by (cases x) auto

lemma keeps_json [keeps_intros]:
  "(\<And>xs. keeps p (f xs)) \<Longrightarrow> (\<And>xs. keeps p (g xs)) \<Longrightarrow> (\<And>s. keeps p (h s)) \<Longrightarrow> keeps p i \<Longrightarrow> (\<And>b. keeps p (k b)) \<Longrightarrow>
   (\<And>n. keeps p (m n)) \<Longrightarrow>
   keeps p (case j of JList xs \<Rightarrow> f xs | JDict xs \<Rightarrow> g xs | JStr s \<Rightarrow> h s | JNull \<Rightarrow> i | JBool b \<Rightarrow> k b | JInt n \<Rightarrow> m n)"
  by (cases j) auto

lemma keeps_run [keeps_intros]:
  "quiet env p \<Longrightarrow> o_output_file opts \<noteq> Some p \<Longrightarrow> keeps p (run_command env own argv opts)"
  unfolding run_command_def run_to_file_def run_graceful_def run_captured_def finish_def stop_gracefully_def Let_def
  by (intro keeps_intros) simp_all

lemma keeps_poll [keeps_intros]: "quiet env p \<Longrightarrow> keeps p (poll_while env f d n)"
  by (induction n) (auto intro!: keeps_intros)

lemma keeps_wait [keeps_intros]: "quiet env p \<Longrightarrow> keeps p (wait_for env f g)"
  unfolding wait_for_def by (intro keeps_intros)

lemma keepsD: "keeps p m \<Longrightarrow> m w = (r, w') \<Longrightarrow> files w' p = files w p"
  unfolding keeps_def by (metis snd_conv)

section \<open>The file of the active profile\<close>

text \<open>The last component of a path tells the files of the program apart.\<close>

definition last_part :: "string \<Rightarrow> string" where
  "last_part s = rev (takeWhile (\<lambda>c. c \<noteq> CHR ''/'') (rev s))"

lemma last_part_join: "CHR ''/'' \<notin> set n \<Longrightarrow> last_part (path_join d n) = n"
proof -
  assume "CHR ''/'' \<notin> set n"
  then have "takeWhile (\<lambda>c. c \<noteq> CHR ''/'') (rev n @ CHR ''/'' # rev d) = rev n"
    by (subst takeWhile_append2) auto
  then show ?thesis by (simp add: last_part_def path_join_def)
qed

lemma last_part_active: "last_part (active_profile_file c) = ''active-upstream''"
  by (simp add: active_profile_file_def last_part_join)

lemma not_active: "last_part q \<noteq> ''active-upstream'' \<Longrightarrow> q \<noteq> active_profile_file c"
  using last_part_active by metis

lemma safe_name_no_slash: "CHR ''/'' \<notin> set (file_safe_name n)"
proof -
  have "\<not> is_alnum CHR ''/''" by code_simp
  then show ?thesis by (auto simp: file_safe_name_def split: if_splits)
qed

lemma profile_files_last:
  "last_part (accepted_pin_file c p) = ''upstream-'' @ file_safe_name (p_name p) @ ''.accepted-pin''"
  using safe_name_no_slash by (simp add: accepted_pin_file_def last_part_join)

lemma other_files [simp]:
  "target_path c \<noteq> active_profile_file d" "static_refresh_path c \<noteq> active_profile_file d"
  "targets_state_path c \<noteq> active_profile_file d" "upstream_log c \<noteq> active_profile_file d"
  "resolv_conf_path \<noteq> active_profile_file d" "dnsmasq_target_path c \<noteq> active_profile_file d"
  "applied_path c \<noteq> active_profile_file d" "accepted_pin_file c p \<noteq> active_profile_file d"
  "path_join e ''vpnc-script-korserver'' \<noteq> active_profile_file d" "path_join e ''cert'' \<noteq> active_profile_file d"
  "path_join e ''key'' \<noteq> active_profile_file d" "path_join e ''openconnect.conf'' \<noteq> active_profile_file d"
proof -
  have "last_part resolv_conf_path = ''resolv.conf''" by (simp add: resolv_conf_path_def last_part_def)
  then show "resolv_conf_path \<noteq> active_profile_file d" by (intro not_active) simp
qed (rule not_active, simp add: target_path_def static_refresh_path_def targets_state_path_def upstream_log_def
    dnsmasq_target_path_def applied_path_def profile_files_last generated_path_def last_part_join)+

text \<open>Every operation but switching keeps the file.\<close>

lemma keeps_policy [keeps_intros]:
  "quiet env p \<Longrightarrow> keeps p (policy_apply env sec c fw t i b)" "quiet env p \<Longrightarrow> keeps p (policy_cleanup env sec fw t b)"
  "quiet env p \<Longrightarrow> keeps p (policy_ensure env sec c fw t i b)"
  unfolding policy_apply_def policy_cleanup_def policy_ensure_def rule_present_def delete_rule_def
  by (intro keeps_intros; simp add: dry_def no_check_def default_options_def)+

lemma keeps_nft [keeps_intros]:
  "quiet env (active_profile_file d) \<Longrightarrow> keeps (active_profile_file d) (nft_apply env sec pr c False ob)"
  unfolding nft_apply_def apply_ruleset_def static_sets_ready_def apply_static_refresh_def apply_full_recreate_def
    after_apply_def reassert_policy_routing_def cleanup_stale_targets_def cleanup_previous_def ensure_docker_forward_def
  by (auto intro!: keeps_intros simp: no_check_def default_options_def quick_def split: prod.split)

lemma keeps_rpc [keeps_intros]: "quiet env p \<Longrightarrow> keeps p (rpc_call env m xs)"
proof -
  have "keeps p (case a of Rpc_fault f \<Rightarrow> throw (RpcError f) | Rpc_value v \<Rightarrow> ret v)" for a
    by (cases a) (auto intro: keeps_intros)
  then show "quiet env p \<Longrightarrow> ?thesis" unfolding rpc_call_def by (intro keeps_intros) simp_all
qed

lemma keeps_run_rpc [keeps_intros]: "keeps p m \<Longrightarrow> keeps p (run_rpc m xs)"
  by (simp add: keeps_def run_rpc_world)

lemma keeps_process [keeps_intros]: "quiet env p \<Longrightarrow> keeps p (process_action env ''restart'' name False)"
  unfolding process_action_def restart_process_def stop_process_def start_process_def
  by (auto intro!: keeps_intros)

abbreviation active_quiet :: "service \<Rightarrow> bool" where
  "active_quiet sv \<equiv> quiet (sv_env sv) (active_profile_file (sv_config sv))"

abbreviation keeps_active :: "service \<Rightarrow> (world, 'a) action \<Rightarrow> bool" where
  "keeps_active sv m \<equiv> keeps (active_profile_file (sv_config sv)) m"

lemma keeps_service [keeps_intros]:
  "keeps_active sv (upstream_log_line sv t)"
  "active_quiet sv \<Longrightarrow> keeps_active sv (load_rules sv ob)"
  "active_quiet sv \<Longrightarrow> keeps_active sv (main_policy_apply sv ifc)"
  "active_quiet sv \<Longrightarrow> keeps_active sv (main_policy_cleanup sv)"
  unfolding upstream_log_line_def load_rules_def main_policy_apply_def main_policy_cleanup_def Let_def
  by (intro keeps_intros; simp)+

lemma keeps_named [keeps_intros]: "(\<And>fw t. keeps p (f fw t)) \<Longrightarrow> keeps p (named_policy sv q f)"
  unfolding named_policy_def by (intro keeps_intros) (auto split: prod.split)

lemma keeps_apply_routing [keeps_intros]: "active_quiet sv \<Longrightarrow> keeps_active sv (apply_server_routing_if_changed sv f)"
  unfolding apply_server_routing_if_changed_def restart_pushed_dns_def mark_applied_def ensure_listen_address_def Let_def
  by (intro keeps_intros) (simp_all add: no_check_def default_options_def)

lemma keeps_certs [keeps_intros]:
  "keeps (active_profile_file d) (store_base64 (path_join e ''cert'') x y)"
  "keeps (active_profile_file d) (store_base64 (path_join e ''key'') x y)"
  "keeps (active_profile_file d) (materialize_key_password c p)"
  "keeps (active_profile_file d) (ensure_vpnc_script sv)"
  unfolding store_base64_def materialize_key_password_def ensure_vpnc_script_def Let_def
  by (intro keeps_intros; simp)+

lemma keeps_certificate_args [keeps_intros]: "keeps (active_profile_file d) (certificate_args sv p)"
proof -
  have "keeps (active_profile_file d) (case x of (cert, key) \<Rightarrow> (case cert of
          None \<Rightarrow> ret []
        | Some cf \<Rightarrow> andthen (if is_set (cert_pass p)
             then andthen (materialize_key_password (sv_config sv) p) (\<lambda>path. ret [''--config='' @ path]) else ret []) (\<lambda>pw.
           ret ([''--certificate'', cf] @ (case key of None \<Rightarrow> [] | Some k \<Rightarrow> [''--sslkey'', k]) @ pw))))" for x
    by (cases x; simp only: prod.case; intro keeps_intros)
  then show ?thesis
    unfolding certificate_args_def materialize_cert_def Let_def by (intro keeps_intros)
qed

lemma keeps_argv [keeps_intros]: "keeps (active_profile_file d) (openconnect_argv sv p acc)"
  unfolding openconnect_argv_def Let_def by (intro keeps_intros)

lemma keeps_pin [keeps_intros]: "keeps_active sv (accepted_server_pin sv p b)"
  unfolding accepted_server_pin_def Let_def by (intro keeps_intros) simp_all

lemma keeps_dial [keeps_intros]: "active_quiet sv \<Longrightarrow> keeps_active sv (dial sv p b)"
  unfolding dial_def by (intro keeps_intros) (simp_all add: dial_options_def)

lemma keeps_after_dial [keeps_intros]: "active_quiet sv \<Longrightarrow> keeps_active sv (after_dial sv p a)"
  unfolding after_dial_def verify_backgrounded_def Let_def by (intro keeps_intros)

lemma keeps_connect [keeps_intros]: "active_quiet sv \<Longrightarrow> keeps_active sv (connect sv name False)"
  unfolding connect_def connect_profile_def named_or_selected_def repair_stale_resolv_conf_def Let_def
  by (intro keeps_intros) simp_all

lemma keeps_disconnect [keeps_intros]: "active_quiet sv \<Longrightarrow> keeps_active sv (disconnect sv name False)"
proof -
  assume q: "active_quiet sv"
  have "keeps_active sv (terminate_process sv n)" for n
    using q unfolding terminate_process_def Let_def by (intro keeps_intros)
  then show ?thesis
    using q unfolding disconnect_def disconnect_profile_def named_or_selected_def Let_def
    by (intro keeps_intros) (auto intro!: keeps_intros split: option.split)
qed

lemma keeps_raise [keeps_intros]: "active_quiet sv \<Longrightarrow> keeps_active sv (raise_candidate sv b p)"
  unfolding raise_candidate_def Let_def by (intro keeps_intros)

text \<open>The profile that is selected depends on that file only.\<close>

lemma runtime_selected_file:
  "files w' (active_profile_file c) = files w (active_profile_file c) \<Longrightarrow> runtime_selected c w' = runtime_selected c w"
  by (simp add: runtime_selected_def)

section \<open>Switching\<close>

text \<open>A name that is read back from the file as it was written.\<close>

definition storable :: "string \<Rightarrow> bool" where
  "storable n = (n \<noteq> [] \<and> no_breaks n \<and> strip n = n)"

definition storable_names :: "app_config \<Rightarrow> bool" where
  "storable_names c = (distinct (map p_name (profiles (app_upstream c))) \<and> (\<forall>p \<in> set (profiles (app_upstream c)). storable (p_name p)))"

lemma profiles_by_name_mem:
  assumes "distinct (map p_name (profiles (app_upstream c)))" "p \<in> set (profiles (app_upstream c))"
  shows "profiles_by_name c (p_name p) = Some p"
proof -
  have "distinct (map fst (map (\<lambda>p. (p_name p, p)) (rev (profiles (app_upstream c)))))"
    using assms(1) by (simp add: comp_def flip: rev_map)
  then show ?thesis using assms(2) unfolding profiles_by_name_def by (intro map_of_is_SomeI) auto
qed

lemma written_name_selects:
  assumes "files w (active_profile_file c) = Some (p_name p @ [LF])" "storable_names c" "p \<in> set (profiles (app_upstream c))"
  shows "runtime_selected c w = (if p_enabled p then Some p else None)"
proof -
  have n: "storable (p_name p)" using assms(2,3) by (auto simp: storable_names_def)
  then have "read_lines_of (Some (p_name p @ [LF])) = [p_name p]"
    using read_lines_of_text [of "[p_name p]"] by (auto simp: storable_def lines_text_def)
  moreover have "profiles_by_name c (p_name p) = Some p"
    using assms(2,3) by (intro profiles_by_name_mem) (simp_all add: storable_names_def)
  ultimately show ?thesis using assms(1) n by (simp add: runtime_selected_def storable_def Let_def)
qed

lemma profile_by_name_Inr: "profile_by_name c name = Inr p \<Longrightarrow> p \<in> set (profiles (app_upstream c)) \<and> p_name p = name"
  by (auto simp: profile_by_name_def find_Some_iff split: option.splits)

lemma switch_selects:
  assumes "switch_profile sv name w = (Inr (), w')" "active_quiet sv" "storable_names (sv_config sv)"
  shows "\<exists>p. profile_by_name (sv_config sv) name = Inr p
    \<and> runtime_selected (sv_config sv) w' = (if p_enabled p then Some p else None)"
proof -
  let ?c = "sv_config sv"
  from assms(1) obtain p w1 where p: "profile_by_name ?c name = Inr p"
    and w1: "w1 = snd (atomic_write_text (active_profile_file ?c) (name @ [LF]) 384 w)"
    and rest: "andthen (load_rules sv (interface_of ?c p)) (\<lambda>_. andthen (ask (\<lambda>w. profile_connected sv w p)) (\<lambda>up.
       if up then andthen (main_policy_apply sv (interface_of ?c p)) (\<lambda>_. ret ()) else ret ())) w1 = (Inr (), w')"
    unfolding switch_profile_def Let_def andthen_lift andthen_write
    by (cases "profile_by_name ?c name") auto
  have "keeps_active sv (andthen (load_rules sv (interface_of ?c p)) (\<lambda>_. andthen (ask (\<lambda>w. profile_connected sv w p)) (\<lambda>up.
       if up then andthen (main_policy_apply sv (interface_of ?c p)) (\<lambda>_. ret ()) else ret ())))"
    using assms(2) by (intro keeps_intros)
  from keepsD [OF this rest] have "files w' (active_profile_file ?c) = Some (name @ [LF])"
    by (simp add: w1 atomic_write_text_def)
  with p profile_by_name_Inr [OF p] written_name_selects [of w' ?c p] assms(3) show ?thesis by auto
qed

section \<open>Recovery\<close>

lemma index_of_nth: "x \<in> set xs \<Longrightarrow> index_of x xs < length xs \<and> xs ! index_of x xs = x"
  by (induction xs) auto

text \<open>With failover the order is a rotation of the list that begins with the current name.\<close>

lemma recovery_order_rotate:
  assumes "1 < length names" "cur \<in> set names"
  shows "recovery_order True names cur = rotate (index_of cur names) names"
  using assms index_of_nth [OF assms(2)]
  by (intro nth_equalityI) (simp_all add: recovery_order_def nth_rotate)

lemma recovery_order_hd:
  assumes "1 < length names" "cur \<in> set names"
  shows "hd (recovery_order True names cur) = cur"
  using assms index_of_nth [OF assms(2)] hd_rotate_conv_nth [of names "index_of cur names"]
  by (cases names) (simp_all add: recovery_order_rotate)

lemma recovery_order_mem: "cur \<in> set names \<Longrightarrow> set (recovery_order f names cur) \<subseteq> set names"
proof -
  assume c: "cur \<in> set names"
  then have "0 < length names" by (cases names) auto
  then have "names ! ((i + x) mod length names) \<in> set names" for i x by (intro nth_mem) simp
  then show ?thesis using c by (auto simp: recovery_order_def Let_def)
qed

lemma runtime_selected_mem:
  "runtime_selected c w = Some p \<Longrightarrow> p \<in> set (profiles (app_upstream c)) \<and> p_enabled p"
  by (auto simp: runtime_selected_def profiles_by_name_def selected_profile_def first_enabled_def Let_def find_Some_iff
      split: option.splits if_splits dest: map_of_SomeD)

lemma recover_loop_selects:
  assumes "recover_loop sv cur act order w = (Inr b, w')" "active_quiet sv" "storable_names (sv_config sv)"
    and "\<forall>n \<in> set order. \<exists>p \<in> set (profiles (app_upstream (sv_config sv))). p_enabled p \<and> p_name p = n"
    and "act \<Longrightarrow> \<exists>p. runtime_selected (sv_config sv) w = Some p \<and> p_name p = cur"
  shows "b \<longrightarrow> (\<exists>p. runtime_selected (sv_config sv) w' = Some p \<and> p_enabled p \<and> p_name p \<in> set order)"
  using assms
proof (induction order arbitrary: w)
  case Nil
  then show ?case by (auto simp: andthen_Inr ret_def)
next
  case (Cons name rest)
  let ?c = "sv_config sv"
  obtain p up w1 where p: "profile_by_name ?c name = Inr p"
    and r: "raise_candidate sv (name = cur \<and> act) p w = (Inr up, w1)"
    and k: "(if \<not> up then recover_loop sv cur act rest
       else andthen (if name = cur \<and> act then upstream_log_line sv (''reconnected to '' @ quote_name name)
              else andthen (switch_profile sv name) (\<lambda>_.
                upstream_log_line sv (''failed over to '' @ quote_name name @ '' (redirection rules switched)''))) (\<lambda>_.
            ret True)) w1 = (Inr b, w')"
    using Cons.prems(1) by (cases "profile_by_name ?c name") (auto simp: andthen_lift andthen_Inr Let_def)
  have "keeps_active sv (raise_candidate sv (name = cur \<and> act) p)" using Cons.prems(2) by (intro keeps_intros)
  from keepsD [OF this r] have same: "runtime_selected ?c w1 = runtime_selected ?c w" by (rule runtime_selected_file)
  show ?case
  proof (cases up)
    case False
    with k have "recover_loop sv cur act rest w1 = (Inr b, w')" by simp
    from Cons.IH [OF this Cons.prems(2,3)] Cons.prems(4,5) same show ?thesis by auto
  next
    case True
    from Cons.prems(4) obtain q where q: "q \<in> set (profiles (app_upstream ?c))" "p_enabled q" "p_name q = name" by auto
    have "p = q"
      using profile_by_name_Inr [OF p] q Cons.prems(3) unfolding storable_names_def distinct_map by (metis inj_onD)
    show ?thesis
    proof (cases "name = cur \<and> act")
      case True
      from Cons.prems(5) True obtain s where s: "runtime_selected ?c w = Some s" "p_name s = cur" by auto
      have "p_enabled s" using runtime_selected_mem [OF s(1)] by simp
      moreover have "runtime_selected ?c w' = runtime_selected ?c w1"
        using k True \<open>up\<close> keepsD [OF keeps_service(1)] by (intro runtime_selected_file) (auto simp: andthen_Inr ret_def)
      ultimately show ?thesis using s same True by auto
    next
      case False
      with k \<open>up\<close> obtain w2 where sw: "switch_profile sv name w1 = (Inr (), w2)"
        and l: "upstream_log_line sv (''failed over to '' @ quote_name name @ '' (redirection rules switched)'') w2 = (Inr (), w')"
        by (auto simp: andthen_Inr ret_def)
      from switch_selects [OF sw Cons.prems(2,3)] p \<open>p = q\<close> q(2) have "runtime_selected ?c w2 = Some p" by auto
      moreover have "runtime_selected ?c w' = runtime_selected ?c w2"
        using keepsD [OF keeps_service(1) l] by (rule runtime_selected_file)
      ultimately show ?thesis using q \<open>p = q\<close> by auto
    qed
  qed
qed

end
