(* ===== verification/Watchdog.thy ===== *)
theory Watchdog
  imports Upstream_Keeps
begin

text \<open>
  \<open>cli.py\<close>, the upstream watchdog: one tick of its loop and the loop over the configurations it
  reloads. Its memory is three variables of the loop: the failures in a row, the time until which
  failures do not count, and whether it has ever seen a healthy connection. Times are in
  milliseconds of the monotonic clock.
\<close>

record watch =
  failures :: nat
  settled_until :: nat
  ever_connected :: bool

definition watch_start :: watch where
  "watch_start = \<lparr>failures = 0, settled_until = 0, ever_connected = False\<rparr>"

text \<open>One more failure, and recovery at the threshold.\<close>

definition count_failure :: "service \<Rightarrow> watch \<Rightarrow> (world, watch) action" where
  "count_failure sv st = (let u = app_upstream (sv_config sv); n = failures st + 1 in
     if int n < check_threshold u then ret (st\<lparr>failures := n\<rparr>)
     else andthen (recover sv) (\<lambda>up. andthen current (\<lambda>w.
       ret (if up then st\<lparr>failures := 0, ever_connected := True,
                 settled_until := e_mono (sv_env sv) w + nat (check_settle_seconds u) * 1000\<rparr>
            else st\<lparr>failures := 0\<rparr>))))"

text \<open>The branch of a profile that is not healthy.\<close>

definition unhealthy :: "service \<Rightarrow> watch \<Rightarrow> (world, watch) action" where
  "unhealthy sv st =
     (if \<not> connect_on_boot (app_upstream (sv_config sv)) \<and> \<not> ever_connected st then ret (st\<lparr>failures := 0\<rparr>)
      else andthen current (\<lambda>w. if e_mono (sv_env sv) w < settled_until st then ret st else count_failure sv st))"

definition watch_active :: "service \<Rightarrow> watch \<Rightarrow> (world, watch) action" where
  "watch_active sv st =
     andthen current (\<lambda>w. if runtime_selected (sv_config sv) w = None then ret (st\<lparr>failures := 0\<rparr>)
       else andthen (is_healthy sv) (\<lambda>healthy.
         if healthy then andthen (ensure_policy_routing sv) (\<lambda>_. ret (st\<lparr>failures := 0, ever_connected := True\<rparr>))
         else unhealthy sv st))"

text \<open>One tick. The last step may fail in any way without stopping the watchdog.\<close>

definition watch_tick :: "service \<Rightarrow> (json \<Rightarrow> string) \<Rightarrow> watch \<Rightarrow> (world, watch) action" where
  "watch_tick sv py_repr st =
     (if \<not> up_enabled (app_upstream (sv_config sv)) then ret (st\<lparr>failures := 0\<rparr>)
      else andthen (watch_active sv st) (\<lambda>st1.
           andthen (enforce_profile_enablement sv) (\<lambda>_.
           andthen (catch all_errors (andthen (refresh_server_routes sv py_repr None) (\<lambda>_. ret ())) (ret ())) (\<lambda>_.
           ret st1))))"

text \<open>The loop: the services stand for the configurations loaded at successive ticks. It ends
  only when a tick raises.\<close>

fun watch_loop :: "(json \<Rightarrow> string) \<Rightarrow> service list \<Rightarrow> watch \<Rightarrow> (world, watch) action" where
  "watch_loop py_repr [] st = ret st"
| "watch_loop py_repr (sv # rest) st =
     andthen (watch_tick sv py_repr st) (\<lambda>st1.
     andthen (sleep_for (sv_env sv) (nat (check_interval (app_upstream (sv_config sv))) * 1000)) (\<lambda>_.
     watch_loop py_repr rest st1))"

section \<open>The counter\<close>

lemma count_failure_bound:
  assumes "count_failure sv st w = (Inr st', w')" "1 \<le> check_threshold (app_upstream (sv_config sv))"
  shows "int (failures st') < check_threshold (app_upstream (sv_config sv))"
  using assms by (auto simp: count_failure_def Let_def andthen_Inr current_def ret_def split: if_splits)

lemma watch_active_bound:
  assumes "watch_active sv st w = (Inr st', w')" "1 \<le> check_threshold (app_upstream (sv_config sv))"
    and "int (failures st) < check_threshold (app_upstream (sv_config sv))"
  shows "int (failures st') < check_threshold (app_upstream (sv_config sv))"
  using assms count_failure_bound [of sv st _ st' w']
  by (auto simp: watch_active_def unhealthy_def andthen_Inr andthen_current current_def ret_def split: if_splits)

lemma watch_tick_active:
  "watch_tick sv py_repr st w = (Inr st', w') \<Longrightarrow> up_enabled (app_upstream (sv_config sv)) \<Longrightarrow>
   \<exists>w1. watch_active sv st w = (Inr st', w1)"
  by (auto simp: watch_tick_def andthen_Inr ret_def)

lemma watch_tick_bound:
  assumes "watch_tick sv py_repr st w = (Inr st', w')" "1 \<le> check_threshold (app_upstream (sv_config sv))"
    and "int (failures st) < check_threshold (app_upstream (sv_config sv))"
  shows "int (failures st') < check_threshold (app_upstream (sv_config sv))"
proof (cases "up_enabled (app_upstream (sv_config sv))")
  case True
  from watch_tick_active [OF assms(1) True] watch_active_bound assms(2,3) show ?thesis by blast
next
  case False
  with assms show ?thesis by (auto simp: watch_tick_def ret_def)
qed

end
