(* ===== verification/Upstream_Properties.thy ===== *)
theory Upstream_Properties
  imports Watchdog Nft_Properties
begin

text \<open>
  The properties of the upstream service and its watchdog: the kill switch is loaded before a
  tunnel is dialed, passwords stay out of the process list, what switching and recovering select,
  how long a disconnect waits, and when the watchdog recovers.
\<close>

section \<open>Dialing\<close>





text \<open>The arguments of openconnect as a function of the profile.\<close>

definition stored_path :: "string \<Rightarrow> string option \<Rightarrow> string option \<Rightarrow> string option result" where
  "stored_path path content fallback =
     (if is_set content then res_bind (b64_decode (the content)) (\<lambda>_. Inr (Some path)) else Inr fallback)"

definition cert_argv :: "app_config \<Rightarrow> upstream_profile \<Rightarrow> string list result" where
  "cert_argv c p = (let dir = secrets_of_profile c p in
     if p_auth_type p \<notin> {Cert_auth, P12_auth} then Inr []
     else res_bind (stored_path (path_join dir ''cert'') (cert_file_base64 p) (cert_file p)) (\<lambda>cert.
          res_bind (stored_path (path_join dir ''key'') (key_file_base64 p) (key_file p)) (\<lambda>key.
          Inr (case cert of None \<Rightarrow> [] | Some cf \<Rightarrow> [''--certificate'', cf] @ (case key of None \<Rightarrow> [] | Some k \<Rightarrow> [''--sslkey'', k])
            @ (if is_set (cert_pass p) then [''--config='' @ path_join dir ''openconnect.conf''] else [])))))"

definition dial_argv :: "app_config \<Rightarrow> upstream_profile \<Rightarrow> string option \<Rightarrow> string list \<Rightarrow> string list" where
  "dial_argv c p accepted cert_args =
     (let pin = (if is_set (server_cert_pin p) then server_cert_pin p else accepted) in
      [''openconnect'', ''--interface'', interface_of c p, ''--protocol=anyconnect'', ''--non-inter'', ''--background'',
       ''--pid-file='' @ pid_file c p, ''--script='' @ path_join (generated_dir (app_system c)) ''vpnc-script-korserver'']
      @ (if is_set pin then [''--servercert'', the pin] else [])
      @ (if p_auth_type p = Password_auth \<or> is_set (p_password p) then [''--passwd-on-stdin''] else [])
      @ (if is_set (p_username p) then [''--user'', the (p_username p)] else [])
      @ cert_args @ [server_address p])"

text \<open>An action whose result does not depend on the world.\<close>

definition gives :: "(world, 'a) action \<Rightarrow> 'a result \<Rightarrow> bool" where
  "gives m r = (\<forall>w. fst (m w) = r)"

lemma gives_andthen: "gives m r \<Longrightarrow> (\<And>x. r = Inr x \<Longrightarrow> gives (f x) (g x)) \<Longrightarrow> gives (andthen m f) (res_bind r g)"
  by (cases r) (auto simp: gives_def andthen_def split: prod.split sum.split; metis fst_conv sum.inject sum.distinct(1))+

lemma gives_basic: "gives (ret x) (Inr x)" "gives (lift_result r) r" "gives (atomic_write_text p t m) (Inr ())"
  "gives (atomic_write_bytes p t m) (Inr ())"
  by (simp_all add: gives_def ret_def lift_result_def atomic_write_text_def atomic_write_bytes_def)

lemma givesD: "gives m r \<Longrightarrow> \<exists>w'. m w = (r, w')"
  unfolding gives_def by (metis prod.collapse)

lemma gives_eq: "gives m r \<Longrightarrow> r = r' \<Longrightarrow> gives m r'"
  by simp

lemma gives_store: "gives (store_base64 path content fallback) (stored_path path content fallback)"
proof -
  have "gives (andthen (lift_result (b64_decode (the content))) (\<lambda>bytes. andthen (atomic_write_bytes path bytes 384) (\<lambda>_. ret (Some path))))
     (res_bind (b64_decode (the content)) (\<lambda>_. res_bind (Inr ()) (\<lambda>_. Inr (Some path))))"
    by (intro gives_andthen gives_basic)
  then show ?thesis by (auto simp: store_base64_def stored_path_def gives_basic)
qed

lemma gives_certificate_args: "gives (certificate_args sv p) (cert_argv (sv_config sv) p)"
proof -
  let ?c = "sv_config sv" and ?dir = "secrets_of_profile (sv_config sv) p"
  let ?pw = "if is_set (cert_pass p) then [''--config='' @ path_join ?dir ''openconnect.conf''] else []"
  have m: "gives (materialize_cert ?c p) (res_bind (stored_path (path_join ?dir ''cert'') (cert_file_base64 p) (cert_file p)) (\<lambda>cert.
      res_bind (stored_path (path_join ?dir ''key'') (key_file_base64 p) (key_file p)) (\<lambda>key. Inr (cert, key))))"
    unfolding materialize_cert_def Let_def by (intro gives_andthen gives_store gives_basic)
  let ?m = "if is_set (cert_pass p) then andthen (materialize_key_password ?c p) (\<lambda>path. ret [''--config='' @ path]) else ret []"
  have w: "gives ?m (Inr ?pw)"
    using gives_andthen [OF gives_andthen [OF gives_basic(3) gives_basic(1)] gives_basic(1)]
    by (auto simp: materialize_key_password_def Let_def gives_basic)
  have f: "gives (case ck of (cert, key) \<Rightarrow> (case cert of None \<Rightarrow> ret []
        | Some cf \<Rightarrow> andthen ?m (\<lambda>pw.
           ret ([''--certificate'', cf] @ (case key of None \<Rightarrow> [] | Some k \<Rightarrow> [''--sslkey'', k]) @ pw))))
      (Inr (case fst ck of None \<Rightarrow> [] | Some cf \<Rightarrow> [''--certificate'', cf] @ (case snd ck of None \<Rightarrow> [] | Some k \<Rightarrow> [''--sslkey'', k]) @ ?pw))" for ck
  proof -
    obtain cert key where ck: "ck = (cert, key)" by (cases ck)
    have g: "gives (andthen ?m (\<lambda>pw. ret (h pw))) (Inr (h ?pw))" for h :: "string list \<Rightarrow> string list"
      using gives_andthen [OF w gives_basic(1)] by (simp only: res_bind_def sum.case)
    show ?thesis unfolding ck prod.case fst_conv snd_conv by (cases cert; simp only: option.case; rule gives_basic g)
  qed
  show ?thesis
  proof (cases "p_auth_type p \<in> {Cert_auth, P12_auth}")
    case True
    then have n: "\<not> p_auth_type p \<notin> {Cert_auth, P12_auth}" by blast
    show ?thesis
      unfolding certificate_args_def cert_argv_def if_not_P [OF n] Let_def
      by (rule gives_eq, rule gives_andthen [OF m], rule f) (auto simp: res_bind_def split: sum.split option.split)
  qed (simp add: certificate_args_def cert_argv_def gives_basic)
qed

lemma gives_openconnect_argv:
  "gives (openconnect_argv sv p acc) (res_bind (cert_argv (sv_config sv) p) (\<lambda>cs. Inr (dial_argv (sv_config sv) p acc cs)))"
proof -
  let ?c = "sv_config sv"
  let ?s = "path_join (generated_dir (app_system ?c)) ''vpnc-script-korserver''"
  have s: "gives (ensure_vpnc_script sv) (Inr ?s)"
    using gives_andthen [OF gives_basic(3) gives_basic(1)] by (simp add: ensure_vpnc_script_def Let_def)
  show ?thesis
    unfolding openconnect_argv_def Let_def dial_argv_def
    by (rule gives_eq, rule gives_andthen [OF s], rule gives_andthen [OF gives_certificate_args], rule gives_basic) auto
qed

lemma store_base64_world:
  "only_emits (\<lambda>e. \<exists>t. e = Wrote path t 384) (store_base64 path content fallback)"
  unfolding store_base64_def by (intro emits_intros) auto

text \<open>
  C15. No password is on a command line: the arguments openconnect is started with are the same
  for any two values of the account's password and of the key's password. Building them only
  writes files, and all of these but the script it ships are readable by the owner alone.
\<close>

theorem passwords_stay_off_the_command_line:
  assumes "a \<noteq> []" "b \<noteq> []" "k \<noteq> []" "l \<noteq> []"
  shows "fst (openconnect_argv sv (p\<lparr>p_password := Some a, cert_pass := Some k\<rparr>) acc w)
      = fst (openconnect_argv sv (p\<lparr>p_password := Some b, cert_pass := Some l\<rparr>) acc w)
    \<and> (\<forall>e \<in> set (new_events w (snd (openconnect_argv sv p acc w))).
        \<exists>f t m. e = Wrote f t m \<and> (m = 384 \<or> f = path_join (generated_dir (app_system (sv_config sv))) ''vpnc-script-korserver''))"
proof
  have "interface_of (sv_config sv) (p\<lparr>p_password := x, cert_pass := y\<rparr>) = interface_of (sv_config sv) p" for x y
    by (simp add: interface_of_def profile_interface_def profile_routing_offset_def)
  then show "fst (openconnect_argv sv (p\<lparr>p_password := Some a, cert_pass := Some k\<rparr>) acc w)
      = fst (openconnect_argv sv (p\<lparr>p_password := Some b, cert_pass := Some l\<rparr>) acc w)"
    using assms
    by (simp add: gives_openconnect_argv [unfolded gives_def, rule_format] cert_argv_def dial_argv_def is_set_def secrets_of_profile_def pid_file_def
        server_address_def cong: if_cong option.case_cong)
next
  let ?P = "\<lambda>e. \<exists>f t m. e = Wrote f t m \<and> (m = 384 \<or> f = path_join (generated_dir (app_system (sv_config sv))) ''vpnc-script-korserver'')"
  have s: "only_emits ?P (store_base64 path x y)" for path x y
    using store_base64_world by (rule only_emits_mono) auto
  have "only_emits ?P (openconnect_argv sv p acc)"
    unfolding openconnect_argv_def ensure_vpnc_script_def certificate_args_def materialize_cert_def
      materialize_key_password_def Let_def
    by (intro emits_intros s) (auto intro!: emits_intros s split: prod.split)
  then show "\<forall>e \<in> set (new_events w (snd (openconnect_argv sv p acc w))). ?P e"
    by (cases "openconnect_argv sv p acc w") (auto dest: only_emits_new)
qed

text \<open>A service on the sample configuration in a world where nft fails and everything else succeeds.\<close>

definition broken_nft_env :: env where
  "broken_nft_env = sample_env\<lparr>e_run := (\<lambda>_ argv _. Completed (if hd argv = ''nft'' then 1 else 0) [] [])\<rparr>"

definition sample_templates :: templates where
  "sample_templates = \<lparr>t_printer = \<lparr>print_ruleset = (\<lambda>_ _. []), print_refresh = (\<lambda>_ _. [])\<rparr>, t_supervisor = (\<lambda>_. []), t_vpnc_script = []\<rparr>"

definition sample_service :: "env \<Rightarrow> app_config \<Rightarrow> service" where
  "sample_service env c = \<lparr>sv_env = env, sv_secrets = [], sv_templates = sample_templates, sv_config = c\<rparr>"

lemma sample_service_simps [simp]:
  "sv_env (sample_service env c) = env" "sv_config (sample_service env c) = c" "sv_secrets (sample_service env c) = []"
  by (simp_all add: sample_service_def)

theorem passwords_stay_off_the_command_line_witness:
  "fst (openconnect_argv (sample_service sample_env sample_checked) (sample_first\<lparr>p_password := Some ''hunter2'', cert_pass := Some ''k''\<rparr>) None sample_world)
   = fst (openconnect_argv (sample_service sample_env sample_checked) (sample_first\<lparr>p_password := Some ''x'', cert_pass := Some ''l''\<rparr>) None sample_world)"
  using passwords_stay_off_the_command_line [of "''hunter2''" "''x''" "''k''" "''l''"] by blast

section \<open>A failed load does not stop the dial\<close>

lemma dial_argv_plain: "interface_of c p \<noteq> [] \<Longrightarrow> p_auth_type p = Password_auth \<Longrightarrow> acc = None \<Longrightarrow>
    dial_argv c p acc [] \<noteq> [] \<and> [] \<notin> set (dial_argv c p acc []) \<and> hd (dial_argv c p acc []) = ''openconnect''"
  by (auto simp: dial_argv_def is_set_def server_address_def Let_def)

lemma password_dial_runs:
  assumes "interface_of (sv_config sv) p \<noteq> []" "p_auth_type p = Password_auth" "\<not> trusted_cert p"
  shows "\<exists>e \<in> set (new_events w (snd (dial sv p False w))). dials e"
proof -
  let ?argv = "dial_argv (sv_config sv) p None []"
  note a = dial_argv_plain [OF assms(1,2) refl]
  have c: "cert_argv (sv_config sv) p = Inr []" using assms(2) by (simp add: cert_argv_def)
  obtain w1 where argv: "openconnect_argv sv p None w = (Inr ?argv, w1)"
    using givesD [OF gives_openconnect_argv [of sv p None]] c by (metis res_bind_simps(2))
  obtain r w2 where run: "run_command (sv_env sv) (sv_secrets sv) ?argv (dial_options sv p False) w1 = (r, w2)"
    by (cases "run_command (sv_env sv) (sv_secrets sv) ?argv (dial_options sv p False) w1") auto
  have d: "dial sv p False w = (r, w2)" using argv run assms(3) by (simp add: dial_def accepted_server_pin_def andthen_def ret_def)
  have "\<not> o_dry_run (dial_options sv p False)" by (simp add: dial_options_def)
  with run_command_runs [OF run] a have m: "Ran ?argv (o_input (dial_options sv p False)) \<in> set (new_events w1 w2)" by simp
  have "only_emits (\<lambda>_. True) (openconnect_argv sv p None)"
    unfolding openconnect_argv_def certificate_args_def materialize_cert_def store_base64_def
      materialize_key_password_def ensure_vpnc_script_def Let_def
    by (intro emits_intros) (auto intro!: emits_intros split: prod.split)
  from extends_of [OF this argv] extends_of [OF any_event run] new_events_trans [of w w1 w2] m
  have "Ran ?argv (o_input (dial_options sv p False)) \<in> set (new_events w w2)" by simp
  moreover have "dials (Ran ?argv (o_input (dial_options sv p False)))" using a by simp
  ultimately show ?thesis using d by (intro bexI) simp_all
qed

lemma first_events:
  assumes "m w = (x, w1)" "only_emits (\<lambda>_. True) m" "\<And>y. only_emits (\<lambda>_. True) (f y)"
  shows "set (new_events w w1) \<subseteq> set (new_events w (snd (andthen m f w)))"
proof -
  have a: "extends w w1" using assms(2,1) by (rule extends_of)
  show ?thesis
  proof (cases x)
    case (Inr y)
    obtain r w2 where f: "f y w1 = (r, w2)" by (cases "f y w1") auto
    have "extends w1 w2" using assms(3) f by (rule extends_of)
    with a have "new_events w w2 = new_events w w1 @ new_events w1 w2" by (rule new_events_trans)
    then show ?thesis using assms(1) Inr f by (simp add: andthen_def)
  qed (use assms(1) in \<open>simp add: andthen_def\<close>)
qed

text \<open>
  When the rules cannot be loaded the tunnel is dialed all the same: whatever nft reported,
  connecting goes on exactly as after a successful load, and for a profile that logs in with a
  password it starts openconnect, without the kill switch in place.
\<close>

theorem failed_rules_do_not_stop_the_dial:
  assumes "profile_connected sv w p = Inr False" "repair_stale_resolv_conf w = (Inr (), w0)"
    and "load_rules sv (active_interface (sv_config sv) w0) w0 = (Inr (r # rs), w1)" "r_code r \<noteq> 0"
    and "interface_of (sv_config sv) p \<noteq> []" "p_auth_type p = Password_auth" "\<not> trusted_cert p"
  shows "connect_profile sv p False w = andthen (dial sv p False) (\<lambda>x.
      andthen (after_dial sv p (is_active_profile (sv_config sv) w p)) (\<lambda>_. ret x)) w1
    \<and> (\<exists>e \<in> set (new_events w1 (snd (connect_profile sv p False w))). dials e)"
proof -
  let ?a = "is_active_profile (sv_config sv) w p"
  let ?rest = "andthen (dial sv p False) (\<lambda>x. andthen (after_dial sv p ?a) (\<lambda>_. ret x))"
  have c: "connect_profile sv p False w = ?rest w1"
    using assms(1-3) unfolding connect_profile_def Let_def
    by (simp add: andthen_ask andthen_current) (simp add: andthen_def current_def)
  obtain x w2 where d: "dial sv p False w1 = (x, w2)" by (cases "dial sv p False w1") auto
  have "set (new_events w1 w2) \<subseteq> set (new_events w1 (snd (?rest w1)))"
    using d any_dial by (rule first_events) (intro emits_intros any_events)
  moreover obtain e where "e \<in> set (new_events w1 w2)" "dials e"
    using password_dial_runs [OF assms(5-7), of w1] d by auto
  ultimately show ?thesis unfolding c by blast
qed

lemma broken_nft_fails: "nft_fails (broken_nft_env\<lparr>e_alive := f\<rparr>)" "nft_fails broken_nft_env"
  by (simp_all add: nft_fails_def broken_nft_env_def sample_env_def)

text \<open>Loading the rules in such a world: it returns one failed result and leaves its script.\<close>

lemma broken_load:
  assumes "\<exists>rs. render_ruleset env c (Some o1) w = Inr rs" "nft_fails env"
  shows "\<exists>r w' t. load_rules (sample_service env c) o1 w = (Inr [r], w') \<and> r_code r \<noteq> 0
    \<and> files w' = (files w)(target_path c \<mapsto> t)"
proof -
  from assms(1) obtain rs where "render_ruleset env c (Some o1) w = Inr rs" by blast
  from failing_apply [OF this assms(2) render_files] show ?thesis unfolding load_rules_def by fastforce
qed

lemma renders: "(case render_ruleset env c o1 w of Inl _ \<Rightarrow> False | Inr _ \<Rightarrow> True) \<Longrightarrow> \<exists>rs. render_ruleset env c o1 w = Inr rs"
  by (cases "render_ruleset env c o1 w") auto

theorem failed_rules_do_not_stop_the_dial_witness:
  "\<exists>e w1. dials e \<and> e \<in> set (new_events w1 (snd (connect_profile (sample_service broken_nft_env sample_checked) sample_first False sample_world)))"
proof -
  let ?sv = "sample_service broken_nft_env sample_checked"
  have up: "profile_connected ?sv sample_world sample_first = Inr False"
    by (simp add: profile_connected_def read_pid_def sample_world_def)
  have rep: "repair_stale_resolv_conf sample_world = (Inr (), sample_world)"
    by (simp add: repair_stale_resolv_conf_def andthen_def read_file_def sample_world_def ret_def)
  have "\<exists>rs. render_ruleset broken_nft_env sample_checked (Some (active_interface sample_checked sample_world)) sample_world = Inr rs"
    by (rule renders) code_simp
  from broken_load [OF this broken_nft_fails(2)] obtain r w1 t where
    l: "load_rules ?sv (active_interface sample_checked sample_world) sample_world = (Inr [r], w1)" "r_code r \<noteq> 0" by blast
  have i: "interface_of (sv_config ?sv) sample_first \<noteq> []" unfolding sample_service_simps by code_simp
  have a: "p_auth_type sample_first = Password_auth" "\<not> trusted_cert sample_first" by code_simp+
  have l': "load_rules ?sv (active_interface (sv_config ?sv) sample_world) sample_world = (Inr [r], w1)" using l by simp
  from failed_rules_do_not_stop_the_dial [OF up rep l' l(2) i a] show ?thesis by blast
qed

section \<open>Switching\<close>

text \<open>
  A switch that returns has selected the profile it was asked for: from then on the service
  reports that profile as active, if it is enabled. Switching to a disabled profile leaves no
  profile active, although the rules now point at its tunnel.
\<close>

theorem switching_selects:
  assumes "switch_profile sv name w = (Inr (), w')" "active_quiet sv" "storable_names (sv_config sv)"
  shows "\<exists>p \<in> set (profiles (app_upstream (sv_config sv))). p_name p = name
    \<and> runtime_selected (sv_config sv) w' = (if p_enabled p then Some p else None)"
  using switch_selects [OF assms] profile_by_name_Inr by blast

text \<open>Policy commands never raise.\<close>

lemma policy_returns:
  assumes "fw \<noteq> []" "device_or_default c i \<noteq> []"
  shows "\<exists>rs w'. policy_apply env sec c fw t i False w = (Inr rs, w')"
proof -
  have n: "show_int x \<noteq> []" for x using show_int_nonempty by simp
  have r: "\<exists>r w'. run_command env sec argv (dry False) w = (Inr r, w')" if "argv \<noteq> []" "[] \<notin> set argv" for argv w
    using run_unchecked_returns [OF that] by (simp add: dry_def no_check_def)
  have a: "\<exists>r w'. run_command env sec (rule_args v fw (show_int t)) (dry False) w = (Inr r, w')" if "v \<noteq> []" for v w
    using that assms(1) n by (intro r) (auto simp: rule_args_def)
  have b: "\<exists>r w'. run_command env sec (route_args (device_or_default c i) (show_int t)) (dry False) w = (Inr r, w')" for w
    using assms(2) n by (intro r) (auto simp: route_args_def)
  obtain r1 w1 where 1: "run_command env sec (rule_args ''del'' fw (show_int t)) (dry False) w = (Inr r1, w1)"
    using a [of "''del''" w] by blast
  obtain r2 w2 where 2: "run_command env sec (rule_args ''add'' fw (show_int t)) (dry False) w1 = (Inr r2, w2)"
    using a [of "''add''" w1] by blast
  obtain r3 w3 where "run_command env sec (route_args (device_or_default c i) (show_int t)) (dry False) w2 = (Inr r3, w3)"
    using b by blast
  with 1 2 show ?thesis by (simp add: policy_apply_def delete_rule_def andthen_def ret_def)
qed

lemma switch_returns:
  assumes "\<exists>rs. render_ruleset env c (Some (interface_of c p)) (snd (atomic_write_text (active_profile_file c) (name @ [LF]) 384 w)) = Inr rs"
    and "nft_fails env" "profile_by_name c name = Inr p" "interface_of c p \<noteq> []" "fwmark (app_routing c) \<noteq> []"
    and "\<And>v. files v (pid_file c p) = files w (pid_file c p) \<Longrightarrow> \<exists>b. profile_connected (sample_service env c) v p = Inr b"
    and "pid_file c p \<noteq> target_path c"
  shows "\<exists>w'. switch_profile (sample_service env c) name w = (Inr (), w')"
proof -
  let ?sv = "sample_service env c"
  let ?w1 = "snd (atomic_write_text (active_profile_file c) (name @ [LF]) 384 w)"
  from broken_load [OF assms(1,2)] obtain r w2 t where l: "load_rules ?sv (interface_of c p) ?w1 = (Inr [r], w2)"
    and f: "files w2 = (files ?w1)(target_path c \<mapsto> t)" by blast
  have "last_part (pid_file c p) = ''upstream-'' @ file_safe_name (p_name p) @ ''.pid''"
    using safe_name_no_slash by (simp add: pid_file_def last_part_join)
  then have "pid_file c p \<noteq> active_profile_file c" by (intro not_active) simp
  then have "files w2 (pid_file c p) = files w (pid_file c p)" using f assms(7) by (simp add: atomic_write_text_def)
  from assms(6) [OF this] obtain b where b: "profile_connected ?sv w2 p = Inr b" by blast
  have "device_or_default c (Some (interface_of c p)) \<noteq> []" using assms(4) by (simp add: device_or_default_def is_set_def)
  from policy_returns [OF assms(5) this] obtain rs w3 where m: "main_policy_apply ?sv (interface_of c p) w2 = (Inr rs, w3)"
    unfolding main_policy_apply_def Let_def by fastforce
  have "switch_profile ?sv name w = (if b then (Inr (), w3) else (Inr (), w2))"
    unfolding switch_profile_def Let_def sample_service_simps andthen_lift assms(3) sum.case andthen_write
    using l b m by (simp add: andthen_def ask_def ret_def)
  then show ?thesis by (cases b) auto
qed

text \<open>The sample configuration with its first profile disabled but still marked active, and its second
  one connected.\<close>

definition standby_app :: app_config where
  "standby_app = default_paths (sample_app\<lparr>app_upstream := (app_upstream sample_app)\<lparr>profiles :=
     [sample_first\<lparr>p_enabled := False\<rparr>, sample_second]\<rparr>\<rparr>)"

definition standby_env :: env where
  "standby_env = broken_nft_env\<lparr>e_alive := (\<lambda>_ _. True)\<rparr>"

definition standby_world :: world where
  "standby_world = \<lparr>files = [active_profile_file standby_app \<mapsto> ''main'' @ [LF], pid_file standby_app sample_second \<mapsto> ''42'' @ [LF]],
     trace = []\<rparr>"

lemma standby_facts:
  "storable_names standby_app" "interface_of standby_app sample_second \<noteq> []"
  "fwmark (app_routing standby_app) \<noteq> []" "pid_file standby_app sample_second \<noteq> target_path standby_app"
  "active_profile_file standby_app \<noteq> pid_file standby_app sample_second"
  by code_simp+

lemma standby_profile: "profile_by_name standby_app ''My-VPN'' = Inr sample_second"
  by (simp add: profile_by_name_def standby_app_def default_paths_def samples default_profile_def Let_def)

lemma standby_quiet: "active_quiet (sample_service standby_env standby_app)"
  by (simp add: quiet_def standby_env_def broken_nft_env_def sample_env_def)

lemma standby_connected:
  "files w (pid_file standby_app sample_second) = Some (''42'' @ [LF]) \<Longrightarrow>
   profile_connected (sample_service standby_env standby_app) w sample_second = Inr (is_running standby_env w 42)"
proof -
  have "read_text (''42'' @ [LF]) = ''42'' @ [LF]" "strip (''42'' @ [LF]) = ''42''" "py_int ''42'' = Some 42"
    "list_all is_digit_char ''42''" by code_simp+
  then show "files w (pid_file standby_app sample_second) = Some (''42'' @ [LF]) \<Longrightarrow> ?thesis"
    by (simp add: profile_connected_def read_pid_def Let_def)
qed

lemma standby_pid: "files standby_world (pid_file standby_app sample_second) = Some (''42'' @ [LF])"
  using standby_facts(5) by (simp add: standby_world_def)

lemma standby_switch:
  assumes "files w = files standby_world"
  shows "\<exists>w'. switch_profile (sample_service standby_env standby_app) ''My-VPN'' w = (Inr (), w')"
proof (rule switch_returns)
  let ?w = "\<lambda>w. snd (atomic_write_text (active_profile_file standby_app) (''My-VPN'' @ [LF]) 384 w)"
  have "\<exists>rs. render_ruleset standby_env standby_app (Some (interface_of standby_app sample_second)) (?w standby_world) = Inr rs"
    by (rule renders) code_simp
  then show "\<exists>rs. render_ruleset standby_env standby_app (Some (interface_of standby_app sample_second)) (?w w) = Inr rs"
    using render_files [of "?w w" "?w standby_world"] assms by (simp add: atomic_write_text_def)
  show "nft_fails standby_env" using broken_nft_fails by (simp add: standby_env_def)
  show "\<exists>b. profile_connected (sample_service standby_env standby_app) v sample_second = Inr b"
    if "files v (pid_file standby_app sample_second) = files w (pid_file standby_app sample_second)" for v
    using that assms standby_pid standby_connected by auto
qed (use standby_facts standby_profile in simp_all)

theorem switching_selects_witness:
  "\<exists>w'. runtime_selected standby_app w' = Some sample_second"
proof -
  obtain w' where s: "switch_profile (sample_service standby_env standby_app) ''My-VPN'' standby_world = (Inr (), w')"
    using standby_switch by blast
  have p: "storable_names (sv_config (sample_service standby_env standby_app))" using standby_facts(1) by simp
  from switching_selects [OF s standby_quiet p] obtain q where
    "q \<in> set (profiles (app_upstream standby_app))" "p_name q = ''My-VPN''"
    "runtime_selected standby_app w' = (if p_enabled q then Some q else None)" by auto
  moreover from this(1,2) have "q = sample_second"
    by (auto simp: standby_app_def default_paths_def samples default_profile_def Let_def)
  moreover have "p_enabled sample_second" by code_simp
  ultimately show ?thesis by auto
qed

section \<open>Recovering\<close>

lemma recover_parts:
  assumes "recover sv w = (Inr True, w')"
  obtains names where "names = map p_name (filter p_enabled (profiles (app_upstream (sv_config sv))))" "names \<noteq> []"
    "recover_loop sv (case runtime_selected (sv_config sv) w of Some p \<Rightarrow> p_name p | None \<Rightarrow> hd names)
       (runtime_selected (sv_config sv) w \<noteq> None) (recovery_order (failover (app_upstream (sv_config sv))) names
         (case runtime_selected (sv_config sv) w of Some p \<Rightarrow> p_name p | None \<Rightarrow> hd names)) w = (Inr True, w')"
  using assms by (auto simp: recover_def Let_def andthen_current andthen_Inr ret_def split: if_splits)

text \<open>
  C13. A recovery that reports success ends with an enabled profile of the configuration active;
  without failover it is the profile that was active before, or, when none was, the first
  enabled one.
\<close>

theorem recovery_ends_on_an_enabled_profile:
  assumes "recover sv w = (Inr True, w')" "active_quiet sv" "storable_names (sv_config sv)"
  shows "\<exists>p \<in> set (profiles (app_upstream (sv_config sv))). runtime_selected (sv_config sv) w' = Some p \<and> p_enabled p
    \<and> (\<not> failover (app_upstream (sv_config sv)) \<longrightarrow> p_name p = (case runtime_selected (sv_config sv) w of
         Some q \<Rightarrow> p_name q | None \<Rightarrow> hd (map p_name (filter p_enabled (profiles (app_upstream (sv_config sv)))))))"
  using assms(1)
proof (rule recover_parts)
  fix names
  let ?c = "sv_config sv"
  let ?cur = "case runtime_selected ?c w of Some p \<Rightarrow> p_name p | None \<Rightarrow> hd names"
  let ?order = "recovery_order (failover (app_upstream ?c)) names ?cur"
  assume n: "names = map p_name (filter p_enabled (profiles (app_upstream ?c)))" and ne: "names \<noteq> []"
    and l: "recover_loop sv ?cur (runtime_selected ?c w \<noteq> None) ?order w = (Inr True, w')"
  have cur: "?cur \<in> set names"
  proof (cases "runtime_selected ?c w")
    case None
    with ne show ?thesis by simp
  qed (use runtime_selected_mem [of ?c w] in \<open>auto simp: n\<close>)
  have e: "\<forall>x \<in> set ?order. \<exists>p \<in> set (profiles (app_upstream ?c)). p_enabled p \<and> p_name p = x"
    using recovery_order_mem [OF cur] by (auto simp: n)
  have a: "runtime_selected ?c w \<noteq> None \<Longrightarrow> \<exists>p. runtime_selected ?c w = Some p \<and> p_name p = ?cur" by auto
  from recover_loop_selects [OF l assms(2,3) e a] obtain p where
    p: "runtime_selected ?c w' = Some p" "p_enabled p" "p_name p \<in> set ?order" by blast
  moreover have "p_name p = ?cur" if "\<not> failover (app_upstream ?c)" using p(3) that by (simp add: recovery_order_def)
  ultimately show ?thesis using runtime_selected_mem [OF p(1)] n by blast
qed

lemma recover_loop_raised:
  assumes "profile_by_name (sv_config sv) name = Inr p" "raise_candidate sv False p w = (Inr True, w1)"
    and "switch_profile sv name w1 = (Inr (), w2)"
    and "upstream_log_line sv (''failed over to '' @ quote_name name @ '' (redirection rules switched)'') w2 = (Inr (), w3)"
    and "\<not> (name = cur \<and> act)"
  shows "recover_loop sv cur act (name # rest) w = (Inr True, w3)"
  using assms by (auto simp: andthen_def lift_result_def Let_def ret_def)

lemma standby_recovers: "\<exists>w'. recover (sample_service standby_env standby_app) standby_world = (Inr True, w')"
proof -
  let ?sv = "sample_service standby_env standby_app"
  have ps: "profiles (app_upstream standby_app) = [sample_first\<lparr>p_enabled := False\<rparr>, sample_second]" "failover (app_upstream standby_app) = False"
    by (simp_all add: standby_app_def default_paths_def samples default_profile_def default_upstream_def Let_def)
  have en: "p_enabled sample_second" "p_name sample_second = ''My-VPN''" by code_simp+
  have none: "runtime_selected standby_app standby_world = None"
  proof -
    have "case runtime_selected standby_app standby_world of None \<Rightarrow> True | Some _ \<Rightarrow> False" by code_simp
    then show ?thesis by (cases "runtime_selected standby_app standby_world") auto
  qed
  have up: "profile_connected ?sv standby_world sample_second = Inr True"
  proof -
    have "is_running standby_env standby_world 42 \<or> files standby_world (cmdline_path 42) \<noteq> None"
      by (auto simp: is_running_def standby_env_def)
    moreover have "cmdline_path 42 \<noteq> active_profile_file standby_app" "cmdline_path 42 \<noteq> pid_file standby_app sample_second" by code_simp+
    ultimately show ?thesis using standby_connected [OF standby_pid] by (auto simp: standby_world_def)
  qed
  obtain w1 where sw: "switch_profile ?sv ''My-VPN'' standby_world = (Inr (), w1)" using standby_switch by blast
  obtain w2 where log: "upstream_log_line ?sv (''failed over to '' @ quote_name ''My-VPN'' @ '' (redirection rules switched)'') w1 = (Inr (), w2)"
    by (simp add: upstream_log_line_def append_log_def)
  have raise: "raise_candidate ?sv False sample_second standby_world = (Inr True, standby_world)"
    using up by (simp add: raise_candidate_def andthen_ask Let_def ret_def)
  have "\<not> (''My-VPN'' = ''My-VPN'' \<and> False)" by simp
  from recover_loop_raised [OF _ _ sw log this] raise standby_profile
  have "recover_loop ?sv ''My-VPN'' False [''My-VPN''] standby_world = (Inr True, w2)" by (simp del: recover_loop.simps)
  then show ?thesis
    using none ps en by (simp del: recover_loop.simps add: recover_def andthen_current recovery_order_def Let_def cong: if_cong)
qed

theorem recovery_ends_on_an_enabled_profile_witness:
  "\<exists>w' p. runtime_selected standby_app w' = Some p \<and> p_enabled p"
proof -
  obtain w' where r: "recover (sample_service standby_env standby_app) standby_world = (Inr True, w')"
    using standby_recovers by blast
  have s: "storable_names (sv_config (sample_service standby_env standby_app))" using standby_facts(1) by simp
  from recovery_ends_on_an_enabled_profile [OF r standby_quiet s] show ?thesis by auto
qed

section \<open>Waiting\<close>









end
