(* ===== verification/Watchdog_Properties.thy ===== *)
theory Watchdog_Properties
  imports Upstream_Properties
begin

text \<open>
  The properties of the upstream watchdog: its counter stays below the threshold, a streak of
  unhealthy ticks makes it recover exactly at the threshold, and what it leaves alone while no
  connection has been seen.
\<close>

lemma watch_loop_bound:
  assumes "watch_loop py_repr svs st w = (Inr st', w')" "\<forall>sv \<in> set svs. check_threshold (app_upstream (sv_config sv)) = T"
    and "1 \<le> T" "int (failures st) < T"
  shows "int (failures st') < T"
  using assms
proof (induction svs arbitrary: st w)
  case (Cons sv svs)
  then obtain st1 w1 w2 where t: "watch_tick sv py_repr st w = (Inr st1, w1)"
    and r: "watch_loop py_repr svs st1 w2 = (Inr st', w')" by (auto simp: andthen_Inr)
  have "int (failures st1) < T" using watch_tick_bound [OF t] Cons.prems by simp
  with Cons.IH [OF r] Cons.prems show ?case by simp
qed (simp add: ret_def)

text \<open>
  Over any number of ticks with an unchanged threshold the watchdog's counter of consecutive
  failures stays below it, whatever happened in the ticks.
\<close>

theorem failure_counter_stays_below_threshold:
  assumes "watch_loop py_repr svs watch_start w = (Inr st, w')"
    and "\<forall>sv \<in> set svs. check_threshold (app_upstream (sv_config sv)) = T" "1 \<le> T"
  shows "int (failures st) < T"
  using watch_loop_bound [OF assms] assms(3) by (simp add: watch_start_def)

theorem failure_counter_stays_below_threshold_witness:
  "\<exists>st w'. watch_loop (\<lambda>_. []) [sample_service sample_env default_app] watch_start sample_world = (Inr st, w') \<and> int (failures st) < 3"
proof -
  let ?sv = "sample_service sample_env default_app"
  have c: "check_threshold (app_upstream default_app) = 3" "\<not> up_enabled (app_upstream default_app)" by code_simp+
  have "\<exists>w'. watch_loop (\<lambda>_. []) [?sv] watch_start sample_world = (Inr watch_start, w')"
    using c by (simp add: watch_tick_def andthen_def ret_def sleep_for_def happen_def watch_start_def)
  then obtain w' where w: "watch_loop (\<lambda>_. []) [?sv] watch_start sample_world = (Inr watch_start, w')" by blast
  have t: "\<forall>sv \<in> set [?sv]. check_threshold (app_upstream (sv_config sv)) = 3" using c by simp
  from failure_counter_stays_below_threshold [OF w t] w show ?thesis by auto
qed

section \<open>Recovery at the threshold\<close>

text \<open>A tick that counts a failure: a profile is selected, it is not healthy, no grace period
  applies, and the boot guard does not hold the watchdog back.\<close>

definition counts_failure :: "service \<Rightarrow> watch \<Rightarrow> world \<Rightarrow> world \<Rightarrow> bool" where
  "counts_failure sv st w v = (runtime_selected (sv_config sv) w \<noteq> None \<and> is_healthy sv w = (Inr False, v)
     \<and> settled_until st \<le> e_mono (sv_env sv) v \<and> (connect_on_boot (app_upstream (sv_config sv)) \<or> ever_connected st))"

lemma watch_active_failure:
  "counts_failure sv st w v \<Longrightarrow> watch_active sv st w = count_failure sv st v"
  unfolding counts_failure_def watch_active_def andthen_current by (auto simp: andthen_def unhealthy_def current_def)

lemma count_failure_below:
  "int (failures st) + 1 < check_threshold (app_upstream (sv_config sv)) \<Longrightarrow>
   count_failure sv st w = (Inr (st\<lparr>failures := failures st + 1\<rparr>), w)"
  by (simp add: count_failure_def Let_def ret_def)

lemma count_failure_at:
  assumes "int (failures st) + 1 = check_threshold (app_upstream (sv_config sv))" "count_failure sv st w = (Inr st', w')"
  shows "(\<exists>up. recover sv w = (Inr up, w')) \<and> failures st' = 0"
  using assms by (auto simp: count_failure_def Let_def andthen_Inr current_def ret_def split: if_splits)

text \<open>
  C12. A streak of unhealthy ticks makes the watchdog recover, at the threshold and not before:
  starting from zero, each counted failure raises the counter by one and changes nothing else,
  and the tick that reaches the threshold runs the recovery and starts the count again.
\<close>

theorem unhealthy_streak_triggers_recovery:
  assumes "check_threshold (app_upstream (sv_config sv)) = int (Suc n)" "failures (st 0) = 0"
    and "\<forall>i \<le> n. counts_failure sv (st i) (ws i) (vs i)"
    and "\<forall>i \<le> n. watch_active sv (st i) (ws i) = (Inr (st (Suc i)), us i)"
  shows "(\<forall>i \<le> n. st i = (st 0)\<lparr>failures := i\<rparr>) \<and> (\<forall>i < n. us i = vs i)
    \<and> (\<exists>up. recover sv (vs n) = (Inr up, us n)) \<and> failures (st (Suc n)) = 0"
proof -
  have step: "count_failure sv (st i) (vs i) = (Inr (st (Suc i)), us i)" if "i \<le> n" for i
    using watch_active_failure assms(3,4) that by metis
  have s: "st i = (st 0)\<lparr>failures := i\<rparr>" if "i \<le> n" for i
    using that
  proof (induction i)
    case (Suc i)
    then have i: "st i = (st 0)\<lparr>failures := i\<rparr>" "i < n" by auto
    then have "failures (st i) = i" by simp
    with count_failure_below [of "st i" sv "vs i"] assms(1) i step [of i] show ?case by simp
  qed (use assms(2) in simp)
  have "us i = vs i" if "i < n" for i
  proof -
    have "failures (st i) = i" using s [of i] that by simp
    with count_failure_below [of "st i" sv "vs i"] assms(1) that step [of i] show ?thesis by simp
  qed
  moreover have "failures (st n) = n" using s [of n] by simp
  with count_failure_at [of "st n" sv "vs n"] assms(1) step [of n]
  have "(\<exists>up. recover sv (vs n) = (Inr up, us n)) \<and> failures (st (Suc n)) = 0" by auto
  ultimately show ?thesis using s by blast
qed

text \<open>A profile that accepts any certificate of a server that does not answer: every dial fails.\<close>

definition flaky_profile :: upstream_profile where
  "flaky_profile = sample_first\<lparr>trusted_cert := True\<rparr>"

definition flaky_app :: app_config where
  "flaky_app = default_paths (sample_app\<lparr>app_upstream := (app_upstream sample_app)\<lparr>profiles := [flaky_profile]\<rparr>\<rparr>)"

abbreviation flaky :: service where
  "flaky \<equiv> sample_service broken_nft_env flaky_app"

lemma flaky_facts:
  "profile_by_name flaky_app ''main'' = Inr flaky_profile" "runtime_selected flaky_app sample_world = Some flaky_profile"
  "profile_connected flaky sample_world flaky_profile = Inr False" "p_name flaky_profile = ''main''" "p_enabled flaky_profile"
  "profiles (app_upstream flaky_app) = [flaky_profile]" "\<not> failover (app_upstream flaky_app)"
  by (simp_all add: profile_by_name_def runtime_selected_def flaky_app_def flaky_profile_def default_paths_def samples
      default_profile_def default_upstream_def Let_def sample_world_def read_lines_of_def selected_profile_def is_set_def
      first_enabled_def profile_connected_def read_pid_def)

lemma flaky_dial: "dial flaky flaky_profile False w = (Inl CommandError, w)"
proof -
  have t: "trusted_cert flaky_profile" "server_cert_pin flaky_profile = None" "p_port flaky_profile = ''443''" by code_simp+
  have "py_int ''443'' \<noteq> None" by code_simp
  then have "fetched_pin flaky flaky_profile w = Inl CommandError"
    by (simp add: fetched_pin_def t fetch_server_pin_def fetch_server_certificate_def broken_nft_env_def sample_env_def)
  then show ?thesis using t
    by (simp add: dial_def accepted_server_pin_def andthen_def ask_def is_set_def Let_def)
qed

lemma flaky_connect: "\<exists>w'. connect flaky (Some ''main'') False sample_world = (Inl CommandError, w')"
proof -
  have rep: "repair_stale_resolv_conf sample_world = (Inr (), sample_world)"
    by (simp add: repair_stale_resolv_conf_def andthen_def read_file_def sample_world_def ret_def)
  have "\<exists>rs. render_ruleset broken_nft_env flaky_app (Some (active_interface flaky_app sample_world)) sample_world = Inr rs"
    by (rule renders) code_simp
  from broken_load [OF this broken_nft_fails(2)] obtain r w1 where
    l: "load_rules flaky (active_interface flaky_app sample_world) sample_world = (Inr [r], w1)" by blast
  have "connect_profile flaky flaky_profile False sample_world = (Inl CommandError, w1)"
    unfolding connect_profile_def Let_def andthen_def if_False ask_def sample_service_simps flaky_facts(3)
    using rep l flaky_dial by (simp add: current_def)
  then show ?thesis
    using flaky_facts(1) by (simp add: connect_def named_or_selected_def is_set_def andthen_def lift_result_def ret_def)
qed

lemma flaky_recover: "\<exists>w'. recover flaky sample_world = (Inr False, w')"
proof -
  obtain w1 where c: "connect flaky (Some ''main'') False sample_world = (Inl CommandError, w1)" using flaky_connect by blast
  have log: "\<exists>v'. upstream_log_line flaky t v = (Inr (), v')" for t v
    by (simp add: upstream_log_line_def append_log_def)
  obtain w2 where l1: "upstream_log_line flaky (''reconnect attempt to '' @ quote_name ''main'' @ '' failed'') w1 = (Inr (), w2)"
    using log by blast
  obtain w3 where l2: "upstream_log_line flaky ''all reconnect attempts failed'' w2 = (Inr (), w3)" using log by blast
  have "raise_candidate flaky True flaky_profile sample_world = (Inr False, w2)"
    using flaky_facts(3,4) c l1
    by (simp add: raise_candidate_def andthen_ask Let_def) (simp add: andthen_def catch_def dial_error_def ret_def)
  then have "recover_loop flaky ''main'' True [''main''] sample_world = (Inr False, w3)"
    using flaky_facts(1) l2 by (simp add: andthen_def lift_result_def ret_def Let_def)
  then show ?thesis
    using flaky_facts by (simp del: recover_loop.simps add: recover_def andthen_current recovery_order_def Let_def)
qed

theorem unhealthy_streak_triggers_recovery_witness:
  "\<exists>up w'. recover flaky sample_world = (Inr up, w')"
proof -
  obtain w' where r: "recover flaky sample_world = (Inr False, w')" using flaky_recover by blast
  have c: "check_threshold (app_upstream flaky_app) = 3" "connect_on_boot (app_upstream flaky_app)" by code_simp+
  define st :: "nat \<Rightarrow> watch" where "st i = (if i \<le> 2 then watch_start\<lparr>failures := i\<rparr> else watch_start)" for i
  define us where "us i = (if i < 2 then sample_world else w')" for i :: nat
  have f: "counts_failure flaky (st i) sample_world sample_world" for i
    using flaky_facts(2,3) c by (simp add: counts_failure_def is_healthy_def andthen_def current_def ask_def ret_def st_def
        watch_start_def)
  have a: "watch_active flaky (st i) sample_world = (Inr (st (Suc i)), us i)" if "i \<le> 2" for i
  proof (cases "i = 2")
    case True
    then show ?thesis
      unfolding watch_active_failure [OF f] using r c
      by (simp add: count_failure_def st_def us_def watch_start_def andthen_def current_def ret_def)
  next
    case False
    with that have "i < 2" by simp
    then show ?thesis
      unfolding watch_active_failure [OF f] using count_failure_below [of "st i" flaky] c
      by (simp add: st_def us_def watch_start_def)
  qed
  have t: "check_threshold (app_upstream (sv_config flaky)) = int (Suc 2)" "failures (st 0) = 0"
    using c by (simp_all add: st_def)
  from unhealthy_streak_triggers_recovery [where st = st and ws = "\<lambda>_. sample_world" and vs = "\<lambda>_. sample_world" and us = us, OF t] f a
  show ?thesis by blast
qed

end
