(* ===== verification/Host_Dns.thy ===== *)
theory Host_Dns
  imports Config_App Files
begin

text \<open>
  \<open>services/host_dns.py\<close> and the \<open>host-dns guard\<close> program of \<open>cli.py\<close>: the host's own
  resolver is pointed at the local DNS server through a bind-mounted \<open>resolv.conf\<close> or a
  systemd-resolved drop-in, and put back when the feature ends. The two mount points are the
  constructor's path arguments. The lemmas state when the host gets its own file back.
\<close>

section \<open>The service\<close>

record host_mount =
  resolv_conf :: string
  resolved_dir :: string

definition host_mount_default :: host_mount where
  "host_mount_default = \<lparr>resolv_conf = ''/host/etc/resolv.conf'', resolved_dir = ''/host/resolved.conf.d''\<rparr>"

record host_dns_result =
  hd_mode :: host_dns_mode
  hd_changed :: bool
  hd_detail :: string

definition managed_mark :: string where
  "managed_mark = ''# Generated by korserver''"

definition host_ours :: "string \<Rightarrow> bool" where
  "host_ours content = contains managed_mark content"

text \<open>\<open>_read\<close>: an unreadable file is empty. Decoding errors are outside the model.\<close>

definition host_read :: "world \<Rightarrow> string \<Rightarrow> string" where
  "host_read w p = (case files w p of None \<Rightarrow> [] | Some c \<Rightarrow> read_text c)"

text \<open>\<open>_write_in_place\<close>: truncated and rewritten, the mode kept.\<close>

definition write_in_place :: "string \<Rightarrow> string \<Rightarrow> (world, unit) action" where
  "write_in_place p content = (\<lambda>w. (Inr (), w\<lparr>files := (files w)(p \<mapsto> content)\<rparr>))"

definition host_backup_path :: "app_config \<Rightarrow> string" where
  "host_backup_path c = path_join (data_dir (app_system c)) ''host-resolv.conf.orig''"

definition dropin_path :: "host_mount \<Rightarrow> string" where
  "dropin_path m = path_join (resolved_dir m) ''korserver.conf''"

definition host_wanted :: "app_config \<Rightarrow> world \<Rightarrow> bool" where
  "host_wanted c w = (host_dns (app_routing c) \<noteq> Off \<and> dns_tunnel_active (\<lambda>p. files w p \<noteq> None) c)"

definition desired_resolv_conf :: "app_config \<Rightarrow> string" where
  "desired_resolv_conf c =
     managed_mark @ '': host lookups go through the korserver dnsmasq.'' @ [LF]
     @ ''# The original is kept in '' @ host_backup_path c @ '' and restored when'' @ [LF]
     @ ''# korserver stops or routing.host_dns is turned off.'' @ [LF]
     @ ''nameserver '' @ dns_listen (app_internal_dns c) @ [LF]"

definition desired_dropin :: "app_config \<Rightarrow> string" where
  "desired_dropin c = (let listen = dns_listen (app_internal_dns c); port = dns_port (app_internal_dns c);
       server = (if port = 53 then listen else listen @ '':'' @ show_int port) in
     managed_mark @ '': send all host DNS to the korserver dnsmasq.'' @ [LF]
     @ ''# Delete this file and restart systemd-resolved to undo.'' @ [LF]
     @ ''[Resolve]'' @ [LF] @ ''DNS='' @ [LF] @ ''DNS='' @ server @ [LF] @ ''Domains=~.'' @ [LF])"

definition point_resolv_conf :: "host_mount \<Rightarrow> app_config \<Rightarrow> (world, bool \<times> string) action" where
  "point_resolv_conf m c = (\<lambda>w. let p = resolv_conf m; present = host_read w p in
     if files w p = None then ret (False, p @ '' is not mounted; add '' @ CHR 0x27 # ''/etc/resolv.conf:'' @ p
        @ CHR 0x27 # '' to the container volumes'') w
     else if dns_port (app_internal_dns c) \<noteq> 53 then
       ret (False, ''resolv.conf can'' @ CHR 0x27 # ''t name a port: internal_dns.port must be 53 (or use routing.host_dns: resolved)'') w
     else if present = desired_resolv_conf c then ret (False, ''host resolv.conf already points at dnsmasq'') w
     else andthen (if host_ours present then ret () else atomic_write_text (host_backup_path c) present 420) (\<lambda>_.
          andthen (write_in_place p (desired_resolv_conf c)) (\<lambda>_.
          ret (True, ''host resolv.conf now points at dnsmasq''))) w)"

definition restore_resolv_conf :: "host_mount \<Rightarrow> app_config \<Rightarrow> (world, bool) action" where
  "restore_resolv_conf m c = (\<lambda>w. let p = resolv_conf m in
     if files w p = None \<or> \<not> host_ours (host_read w p) then ret False w
     else if files w (host_backup_path c) = None then ret False w
     else andthen (write_in_place p (host_read w (host_backup_path c))) (\<lambda>_. ret True) w)"

definition write_dropin :: "env \<Rightarrow> host_mount \<Rightarrow> app_config \<Rightarrow> (world, bool \<times> string) action" where
  "write_dropin env m c = (\<lambda>w. let p = dropin_path m in
     if \<not> e_dir env w (resolved_dir m) then ret (False, resolved_dir m @ '' is not mounted; add ''
        @ CHR 0x27 # ''/etc/systemd/resolved.conf.d:'' @ resolved_dir m @ CHR 0x27 # '' to the container volumes'') w
     else if files w p \<noteq> None \<and> host_read w p = desired_dropin c
     then ret (False, ''systemd-resolved drop-in already in place'') w
     else andthen (atomic_write_text p (desired_dropin c) 420) (\<lambda>_.
          ret (True, ''wrote '' @ p @ ''; run `systemctl restart systemd-resolved` on the host to apply it'')) w)"

definition remove_dropin :: "host_mount \<Rightarrow> (world, bool) action" where
  "remove_dropin m = (\<lambda>w. let p = dropin_path m in
     if files w p = None \<or> \<not> host_ours (host_read w p) then ret False w
     else andthen (unlink p) (\<lambda>_. ret True) w)"

definition host_dns_apply :: "env \<Rightarrow> host_mount \<Rightarrow> app_config \<Rightarrow> (world, host_dns_result) action" where
  "host_dns_apply env m c = (let mode = host_dns (app_routing c) in
     andthen current (\<lambda>w.
     if \<not> host_wanted c w then
       andthen (restore_resolv_conf m c) (\<lambda>a. andthen (remove_dropin m) (\<lambda>b.
       ret \<lparr>hd_mode = mode, hd_changed = (a \<or> b), hd_detail = ''host resolver untouched (''
         @ (if mode = Off then ''off'' else ''dnsmasq is not running'') @ '')''\<rparr>))
     else if mode = Resolv_conf then
       andthen (remove_dropin m) (\<lambda>a. andthen (point_resolv_conf m c) (\<lambda>(b, d).
       ret \<lparr>hd_mode = mode, hd_changed = (a \<or> b), hd_detail = d\<rparr>))
     else
       andthen (restore_resolv_conf m c) (\<lambda>a. andthen (write_dropin env m c) (\<lambda>(b, d).
       ret \<lparr>hd_mode = mode, hd_changed = (a \<or> b), hd_detail = d\<rparr>))))"

definition host_dns_restore :: "host_mount \<Rightarrow> app_config \<Rightarrow> (world, host_dns_result) action" where
  "host_dns_restore m c =
     andthen (restore_resolv_conf m c) (\<lambda>a. ret \<lparr>hd_mode = host_dns (app_routing c), hd_changed = a,
       hd_detail = (if a then ''host resolv.conf restored'' else ''nothing to restore'')\<rparr>)"

record host_dns_status =
  hs_mode :: host_dns_mode
  hs_wanted :: bool
  hs_nameserver :: string
  hs_resolv_conf_mounted :: bool
  hs_resolv_conf_managed :: bool
  hs_resolved_dir_mounted :: bool
  hs_dropin_present :: bool

definition host_dns_status_of :: "env \<Rightarrow> host_mount \<Rightarrow> app_config \<Rightarrow> world \<Rightarrow> host_dns_status" where
  "host_dns_status_of env m c w = (let mounted = (files w (resolv_conf m) \<noteq> None) in
     \<lparr>hs_mode = host_dns (app_routing c), hs_wanted = host_wanted c w,
      hs_nameserver = dns_listen (app_internal_dns c), hs_resolv_conf_mounted = mounted,
      hs_resolv_conf_managed = (mounted \<and> host_ours (host_read w (resolv_conf m))),
      hs_resolved_dir_mounted = e_dir env w (resolved_dir m),
      hs_dropin_present = (files w (dropin_path m) \<noteq> None)\<rparr>)"

section \<open>The guard\<close>

text \<open>
  One turn of the guard: the configuration loaded at this turn (\<open>None\<close> when loading raises)
  and the number of half-second sleeps before the next turn. Every error of a turn is caught.
\<close>

definition guard_turn :: "env \<Rightarrow> host_mount \<Rightarrow> app_config option \<times> nat \<Rightarrow> (world, unit) action" where
  "guard_turn env m t = (case t of (oc, naps) \<Rightarrow>
     andthen (case oc of None \<Rightarrow> ret ()
        | Some c \<Rightarrow> catch (\<lambda>_. True) (andthen (host_dns_apply env m c) (\<lambda>_. ret ())) (ret ())) (\<lambda>_.
     andthen (action_map (\<lambda>_. sleep_for env 500) [0..<naps]) (\<lambda>_. ret ())))"

text \<open>The whole program: the turns until the stop signal, then the restore with the
  configuration loaded at that moment; an error of that last load is not caught.\<close>

definition host_dns_guard :: "env \<Rightarrow> host_mount \<Rightarrow> (app_config option \<times> nat) list \<Rightarrow> app_config option
    \<Rightarrow> (world, host_dns_result) action" where
  "host_dns_guard env m turns final =
     andthen (action_map (guard_turn env m) turns) (\<lambda>_.
     case final of None \<Rightarrow> throw ValueError | Some c \<Rightarrow> host_dns_restore m c)"

section \<open>Facts\<close>

lemma host_ours_desired [simp]: "host_ours (desired_resolv_conf c)"
  by (simp add: host_ours_def contains_def desired_resolv_conf_def)

lemma host_ours_dropin [simp]: "host_ours (desired_dropin c)"
  by (simp add: host_ours_def contains_def desired_dropin_def Let_def)

lemmas host_dns_steps = Let_def andthen_def current_def ret_def write_in_place_def unlink_def
  atomic_write_text_def

text \<open>What each operation does to the host's file; none of them raises.\<close>

lemma restore_resolv_conf_files:
  "files (snd (restore_resolv_conf m c w)) =
     (if files w (resolv_conf m) \<noteq> None \<and> host_ours (host_read w (resolv_conf m))
         \<and> files w (host_backup_path c) \<noteq> None
      then (files w)(resolv_conf m \<mapsto> host_read w (host_backup_path c)) else files w)"
  by (auto simp: restore_resolv_conf_def host_dns_steps)

lemma restore_resolv_conf_total: "\<exists>b. restore_resolv_conf m c w = (Inr b, snd (restore_resolv_conf m c w))"
  by (auto simp: restore_resolv_conf_def host_dns_steps ex_bool_eq)

lemma remove_dropin_files:
  "files (snd (remove_dropin m w)) =
     (if files w (dropin_path m) \<noteq> None \<and> host_ours (host_read w (dropin_path m))
      then (files w)(dropin_path m := None) else files w)"
  by (auto simp: remove_dropin_def host_dns_steps)

lemma remove_dropin_total: "\<exists>b. remove_dropin m w = (Inr b, snd (remove_dropin m w))"
  by (auto simp: remove_dropin_def host_dns_steps ex_bool_eq)

lemma write_dropin_files:
  "files (snd (write_dropin env m c w)) \<in> {files w, (files w)(dropin_path m \<mapsto> desired_dropin c)}"
  by (auto simp: write_dropin_def host_dns_steps)

lemma write_dropin_total: "\<exists>b d. write_dropin env m c w = (Inr (b, d), snd (write_dropin env m c w))"
  by (auto simp: write_dropin_def host_dns_steps)

lemma point_resolv_conf_files:
  "files (snd (point_resolv_conf m c w)) =
     (if files w (resolv_conf m) = None \<or> dns_port (app_internal_dns c) \<noteq> 53
         \<or> host_read w (resolv_conf m) = desired_resolv_conf c then files w
      else (if host_ours (host_read w (resolv_conf m)) then files w
            else (files w)(host_backup_path c \<mapsto> host_read w (resolv_conf m)))
           (resolv_conf m \<mapsto> desired_resolv_conf c))"
  by (auto simp: point_resolv_conf_def host_dns_steps)

lemma point_resolv_conf_total: "\<exists>b d. point_resolv_conf m c w = (Inr (b, d), snd (point_resolv_conf m c w))"
  by (auto simp: point_resolv_conf_def host_dns_steps)

text \<open>An application of the configuration is two of these, by what is wanted.\<close>

lemma host_dns_apply_parts:
  "\<exists>r. host_dns_apply env m c w = (Inr r,
     (if \<not> host_wanted c w then snd (remove_dropin m (snd (restore_resolv_conf m c w)))
      else if host_dns (app_routing c) = Resolv_conf then snd (point_resolv_conf m c (snd (remove_dropin m w)))
      else snd (write_dropin env m c (snd (restore_resolv_conf m c w)))))"
proof -
  obtain a v where first: "restore_resolv_conf m c w = (Inr a, v)"
    using restore_resolv_conf_total [of m c w] by (elim exE) (rule that, assumption)
  obtain b u where early: "remove_dropin m w = (Inr b, u)"
    using remove_dropin_total [of m w] by (elim exE) (rule that, assumption)
  obtain a' v' where second: "remove_dropin m v = (Inr a', v')"
    using remove_dropin_total [of m v] by (elim exE) (rule that, assumption)
  obtain x d u' where point: "point_resolv_conf m c u = (Inr (x, d), u')"
    using point_resolv_conf_total [of m c u] by (elim exE) (rule that, assumption)
  obtain y d' z where drop: "write_dropin env m c v = (Inr (y, d'), z)"
    using write_dropin_total [of env m c v] by (elim exE) (rule that, assumption)
  show ?thesis
    by (cases "host_wanted c w"; cases "host_dns (app_routing c) = Resolv_conf")
       (simp_all add: host_dns_apply_def Let_def andthen_def current_def ret_def first early second point drop)
qed

section \<open>Histories of the host's file\<close>

text \<open>
  \<open>host_history m dir own w\<close>: the world \<open>w\<close> is reached from one in which the mounted
  \<open>resolv.conf\<close> was the host's, by applying configurations that keep their data under \<open>dir\<close>
  and by the host (DHCP, NetworkManager) rewriting the file; \<open>own\<close> is what the host wrote last.
\<close>

inductive host_history :: "host_mount \<Rightarrow> string \<Rightarrow> string \<Rightarrow> world \<Rightarrow> bool" for m dir where
  Host_start: "files w (resolv_conf m) = Some own \<Longrightarrow> \<not> host_ours own \<Longrightarrow> CR \<notin> set own
     \<Longrightarrow> host_history m dir own w"
| Host_apply: "host_history m dir own w \<Longrightarrow> data_dir (app_system c) = dir
     \<Longrightarrow> host_history m dir own (snd (host_dns_apply env m c w))"
| Host_restore: "host_history m dir own w \<Longrightarrow> data_dir (app_system c) = dir
     \<Longrightarrow> host_history m dir own (snd (host_dns_restore m c w))"
| Host_rewrite: "host_history m dir own w \<Longrightarrow> \<not> host_ours own' \<Longrightarrow> CR \<notin> set own'
     \<Longrightarrow> host_history m dir own' (w\<lparr>files := (files w)(resolv_conf m \<mapsto> own')\<rparr>)"

text \<open>The invariant: the file is the host's own, or ours with the host's own in the backup.\<close>

definition host_kept :: "host_mount \<Rightarrow> string \<Rightarrow> string \<Rightarrow> world \<Rightarrow> bool" where
  "host_kept m backup own w = (\<not> host_ours own \<and> CR \<notin> set own
     \<and> (files w (resolv_conf m) = Some own
        \<or> (\<exists>t. files w (resolv_conf m) = Some t \<and> host_ours (read_text t)) \<and> files w backup = Some own))"

definition apart :: "host_mount \<Rightarrow> string \<Rightarrow> bool" where
  "apart m backup = (resolv_conf m \<noteq> backup \<and> resolv_conf m \<noteq> dropin_path m \<and> backup \<noteq> dropin_path m)"

lemma read_own: "CR \<notin> set own \<Longrightarrow> read_text own = own"
  by (simp add: read_text_def)

lemma ours_not_own: "host_kept m b own w \<Longrightarrow> files w (resolv_conf m) = Some own \<Longrightarrow> \<not> host_ours (host_read w (resolv_conf m))"
  by (simp add: host_kept_def host_read_def read_own)

lemma kept_files: "files w' = files w \<Longrightarrow> host_kept m b own w' = host_kept m b own w"
  by (simp add: host_kept_def)

lemma kept_elsewhere:
  assumes "host_kept m b own w" "\<And>p. p = resolv_conf m \<or> p = b \<Longrightarrow> files w' p = files w p"
  shows "host_kept m b own w'"
  using assms by (simp add: host_kept_def)

lemma universal_newlines_append: "CR \<notin> set a \<Longrightarrow> universal_newlines (a @ b) = a @ universal_newlines b"
  by (induction a) auto

lemma host_ours_desired_read [simp]: "host_ours (read_text (desired_resolv_conf c))"
proof -
  have "CR \<notin> set managed_mark" by code_simp
  then show ?thesis
    by (simp add: desired_resolv_conf_def read_text_def universal_newlines_append host_ours_def contains_def
        del: universal_newlines.simps)
qed

text \<open>A restore gives the host its own file back, whatever the invariant's case.\<close>

lemma restore_gives_own:
  assumes "host_kept m (host_backup_path c) own w"
  shows "files (snd (restore_resolv_conf m c w)) (resolv_conf m) = Some own"
  using assms by (auto simp: host_kept_def restore_resolv_conf_files host_read_def read_own)

lemma restore_keeps:
  assumes "host_kept m (host_backup_path c) own w"
  shows "host_kept m (host_backup_path c) own (snd (restore_resolv_conf m c w))"
  using assms restore_gives_own [OF assms] by (simp add: host_kept_def)

lemma remove_dropin_keeps:
  assumes "host_kept m b own w" "apart m b"
  shows "host_kept m b own (snd (remove_dropin m w))"
  by (rule kept_elsewhere [OF assms(1)]) (use assms(2) in \<open>auto simp: remove_dropin_files apart_def\<close>)

lemma write_dropin_keeps:
  assumes "host_kept m b own w" "apart m b"
  shows "host_kept m b own (snd (write_dropin env m c w))"
proof (rule kept_elsewhere [OF assms(1)])
  fix p assume "p = resolv_conf m \<or> p = b"
  then show "files (snd (write_dropin env m c w)) p = files w p"
    using write_dropin_files [of env m c w] assms(2) by (auto simp: apart_def)
qed

lemma point_keeps:
  assumes "host_kept m (host_backup_path c) own w" "apart m (host_backup_path c)"
  shows "host_kept m (host_backup_path c) own (snd (point_resolv_conf m c w))"
proof (cases "files w (resolv_conf m) = Some own")
  case True
  with assms have "\<not> host_ours (host_read w (resolv_conf m))" "host_read w (resolv_conf m) = own"
    by (auto simp: host_kept_def host_read_def read_own)
  with True assms show ?thesis
    by (auto simp: host_kept_def point_resolv_conf_files apart_def)
next
  case False
  with assms obtain t where "files w (resolv_conf m) = Some t" "host_ours (read_text t)"
    "files w (host_backup_path c) = Some own" by (auto simp: host_kept_def)
  with assms show ?thesis
    by (auto simp: host_kept_def point_resolv_conf_files apart_def host_read_def)
qed

lemma apply_keeps:
  assumes "host_kept m (host_backup_path c) own w" "apart m (host_backup_path c)"
  shows "host_kept m (host_backup_path c) own (snd (host_dns_apply env m c w))"
proof -
  obtain r where "host_dns_apply env m c w = (Inr r,
     (if \<not> host_wanted c w then snd (remove_dropin m (snd (restore_resolv_conf m c w)))
      else if host_dns (app_routing c) = Resolv_conf then snd (point_resolv_conf m c (snd (remove_dropin m w)))
      else snd (write_dropin env m c (snd (restore_resolv_conf m c w)))))"
    using host_dns_apply_parts by blast
  with assms show ?thesis
    by (simp add: remove_dropin_keeps restore_keeps point_keeps write_dropin_keeps)
qed

lemma restore_snd: "snd (host_dns_restore m c w) = snd (restore_resolv_conf m c w)"
  using restore_resolv_conf_total [of m c w]
  by (auto simp: host_dns_restore_def andthen_def ret_def split: prod.splits sum.splits)

lemma restore_total: "\<exists>r. fst (host_dns_restore m c w) = Inr r"
  by (auto simp: host_dns_restore_def restore_resolv_conf_def host_dns_steps)

lemma history_kept:
  assumes "host_history m dir own w" "apart m (path_join dir ''host-resolv.conf.orig'')"
  shows "host_kept m (path_join dir ''host-resolv.conf.orig'') own w"
  using assms
proof (induction rule: host_history.induct)
  case (Host_start w own)
  then show ?case by (simp add: host_kept_def)
next
  case (Host_apply own w c env)
  then show ?case using apply_keeps [of m c own w env] by (simp add: host_backup_path_def)
next
  case (Host_restore own w c)
  then show ?case using restore_keeps [of m c own w] by (simp add: host_backup_path_def restore_snd)
next
  case (Host_rewrite own w own')
  then show ?case by (simp add: host_kept_def)
qed

section \<open>The guard, with a host that may rewrite its file at any time\<close>

text \<open>What the rest of the host does while the guard sleeps: it may rewrite its own resolver
  file, never the backup, and never writes our mark.\<close>

definition host_behaves :: "env \<Rightarrow> host_mount \<Rightarrow> string \<Rightarrow> bool" where
  "host_behaves env m backup = (\<forall>w e. e_tick env w e backup = files w backup
     \<and> (e_tick env w e (resolv_conf m) = files w (resolv_conf m)
        \<or> (\<exists>own. e_tick env w e (resolv_conf m) = Some own \<and> \<not> host_ours own \<and> CR \<notin> set own)))"

definition host_safe :: "host_mount \<Rightarrow> string \<Rightarrow> world \<Rightarrow> bool" where
  "host_safe m backup w = (\<exists>own. host_kept m backup own w)"

lemma sleep_safe:
  assumes "host_behaves env m b" "host_safe m b w"
  shows "host_safe m b (snd (sleep_for env n w))"
proof -
  from assms(2) obtain own where own: "host_kept m b own w" by (auto simp: host_safe_def)
  from assms(1) have "e_tick env w (Slept n) b = files w b"
    "e_tick env w (Slept n) (resolv_conf m) = files w (resolv_conf m)
     \<or> (\<exists>own. e_tick env w (Slept n) (resolv_conf m) = Some own \<and> \<not> host_ours own \<and> CR \<notin> set own)"
    by (auto simp: host_behaves_def)
  with own show ?thesis
    by (auto simp: host_safe_def host_kept_def sleep_for_def happen_def)
qed

lemma naps_safe:
  assumes "host_behaves env m b" "host_safe m b w"
  shows "\<exists>xs. fst (action_map (\<lambda>_. sleep_for env n) ns w) = Inr xs
     \<and> host_safe m b (snd (action_map (\<lambda>_. sleep_for env n) ns w))"
  using assms(2)
proof (induction ns arbitrary: w)
  case Nil
  then show ?case by (simp add: ret_def)
next
  case (Cons k ns)
  obtain w1 where 1: "sleep_for env n w = (Inr (), w1)" by (simp add: sleep_for_def happen_def)
  with sleep_safe [OF assms(1) Cons.prems, of n] have "host_safe m b w1" by simp
  with Cons.IH [of w1] 1 show ?case by (auto simp: andthen_def ret_def split: prod.splits sum.splits)
qed

lemma turn_safe:
  assumes "host_behaves env m b" "host_safe m b w" "apart m b"
    "\<And>c. fst t = Some c \<Longrightarrow> host_backup_path c = b"
  shows "fst (guard_turn env m t w) = Inr () \<and> host_safe m b (snd (guard_turn env m t w))"
proof -
  obtain oc naps where t: "t = (oc, naps)" by (cases t) auto
  define w1 where "w1 = (case oc of None \<Rightarrow> w | Some c \<Rightarrow> snd (host_dns_apply env m c w))"
  have w1: "host_safe m b w1"
    using assms(2-4) t by (auto simp: w1_def host_safe_def split: option.splits intro: apply_keeps)
  have "(case oc of None \<Rightarrow> ret ()
      | Some c \<Rightarrow> catch (\<lambda>_. True) (andthen (host_dns_apply env m c) (\<lambda>_. ret ())) (ret ())) w = (Inr (), w1)"
  proof (cases oc)
    case (Some c)
    then show ?thesis using host_dns_apply_parts [of env m c w]
      by (auto simp: w1_def catch_def andthen_def ret_def simp del: snd_conv) (simp_all add: prod_eq_iff)
  qed (simp add: w1_def ret_def)
  with naps_safe [OF assms(1) w1, of 500 "[0..<naps]"] show ?thesis
    by (auto simp: guard_turn_def t andthen_def ret_def split: prod.splits sum.splits)
qed

lemma turns_safe:
  assumes "host_behaves env m b" "host_safe m b w" "apart m b"
    "\<forall>t \<in> set ts. \<forall>c. fst t = Some c \<longrightarrow> host_backup_path c = b"
  shows "\<exists>xs. fst (action_map (guard_turn env m) ts w) = Inr xs
     \<and> host_safe m b (snd (action_map (guard_turn env m) ts w))"
  using assms(2,4)
proof (induction ts arbitrary: w)
  case Nil
  then show ?case by (simp add: ret_def)
next
  case (Cons t ts)
  have "fst (guard_turn env m t w) = Inr () \<and> host_safe m b (snd (guard_turn env m t w))"
    by (rule turn_safe [OF assms(1) Cons.prems(1) assms(3)]) (use Cons.prems(2) in simp)
  then obtain w1 where 1: "guard_turn env m t w = (Inr (), w1)" "host_safe m b w1"
    by (cases "guard_turn env m t w") simp
  with Cons.IH [of w1] Cons.prems(2) show ?case
    by (auto simp: andthen_def ret_def split: prod.splits sum.splits)
qed

end
