(* ===== verification/Host_Properties.thy ===== *)
theory Host_Properties
  imports Host_Dns Samples
begin

text \<open>
  What holds of the host resolver integration: the host gets its own file back, whatever
  configurations were applied and whatever the host wrote in between, and what a shutdown
  leaves behind in the cases the restore does not cover.
\<close>

text \<open>
  C30. The host gets its own resolver file back. Take any history that starts with the host's
  own resolv.conf mounted: configurations applied in any order (any mode, the feature on or
  off, any listen address or port, whatever files exist), restores, and rewrites by the host
  itself at any point. A restore at the end leaves exactly what the host wrote last.
\<close>

theorem host_file_comes_back:
  assumes "host_history m dir own w" "data_dir (app_system c) = dir"
    "apart m (path_join dir ''host-resolv.conf.orig'')"
  shows "files (snd (host_dns_restore m c w)) (resolv_conf m) = Some own"
  using restore_gives_own [of m c own w] history_kept [OF assms(1,3)] assms(2)
  by (simp add: host_backup_path_def restore_snd)

definition host_sample :: app_config where
  "host_sample = sample_app\<lparr>app_routing := (app_routing sample_app)\<lparr>host_dns := Resolv_conf\<rparr>,
     app_internal_dns := (app_internal_dns sample_app)\<lparr>resolver_enabled := True\<rparr>\<rparr>"

definition host_world :: world where
  "host_world = sample_world\<lparr>files := [''/host/etc/resolv.conf'' \<mapsto> ''nameserver 192.0.2.53'' @ [LF]]\<rparr>"

lemmas host_samples = host_sample_def host_world_def host_mount_default_def apart_def path_join_def dropin_path_def

lemma host_sample_apart: "apart host_mount_default (path_join (data_dir (app_system host_sample)) ''host-resolv.conf.orig'')"
  by code_simp

lemma host_sample_start: "host_history host_mount_default (data_dir (app_system host_sample))
    (''nameserver 192.0.2.53'' @ [LF]) host_world"
proof (rule Host_start)
  show "files host_world (resolv_conf host_mount_default) = Some (''nameserver 192.0.2.53'' @ [LF])"
    by (simp add: host_world_def host_mount_default_def)
  show "\<not> host_ours (''nameserver 192.0.2.53'' @ [LF])" by code_simp
  show "CR \<notin> set (''nameserver 192.0.2.53'' @ [LF])" by code_simp
qed

theorem host_file_comes_back_witness:
  "files (snd (host_dns_restore host_mount_default host_sample
      (snd (host_dns_apply sample_env host_mount_default host_sample host_world)))) (resolv_conf host_mount_default)
    = Some (''nameserver 192.0.2.53'' @ [LF])"
  by (rule host_file_comes_back [OF Host_apply [OF host_sample_start refl] refl host_sample_apart])

text \<open>
  The guard never leaves the host pointing at the resolver it stops. While the guard sleeps
  the host may rewrite its own resolver file; the guard may be stopped after any number of
  turns, with configurations that change from turn to turn or fail to load. When the
  configuration loads at the end, the guard returns and the mounted file is not a generated one.
\<close>

theorem guard_leaves_no_redirect:
  assumes "host_behaves env m b" "host_safe m b w" "apart m b"
    "\<And>c naps. (Some c, naps) \<in> set turns \<Longrightarrow> host_backup_path c = b" "host_backup_path c = b"
  shows "\<exists>r. fst (host_dns_guard env m turns (Some c) w) = Inr r
    \<and> (\<exists>own. files (snd (host_dns_guard env m turns (Some c) w)) (resolv_conf m) = Some own \<and> \<not> host_ours own)"
proof -
  have "\<exists>xs. fst (action_map (guard_turn env m) turns w) = Inr xs
     \<and> host_safe m b (snd (action_map (guard_turn env m) turns w))"
    by (rule turns_safe [OF assms(1-3)]) (use assms(4) in \<open>auto simp: prod_eq_iff\<close>)
  then obtain xs w1 where 1: "action_map (guard_turn env m) turns w = (Inr xs, w1)" "host_safe m b w1"
    by (cases "action_map (guard_turn env m) turns w") auto
  then obtain own where own: "host_kept m (host_backup_path c) own w1"
    using assms(5) by (auto simp: host_safe_def)
  obtain r where "fst (host_dns_restore m c w1) = Inr r"
    using restore_total by blast
  with 1 own restore_gives_own [OF own] show ?thesis
    by (auto simp: host_dns_guard_def andthen_def restore_snd host_kept_def)
qed

lemma sample_env_behaves: "host_behaves sample_env m b"
  by (simp add: host_behaves_def sample_env_def)

theorem guard_leaves_no_redirect_witness:
  "\<exists>r. fst (host_dns_guard sample_env host_mount_default [(Some host_sample, 2), (None, 1)] (Some host_sample) host_world) = Inr r
    \<and> (\<exists>own. files (snd (host_dns_guard sample_env host_mount_default [(Some host_sample, 2), (None, 1)] (Some host_sample) host_world))
       (resolv_conf host_mount_default) = Some own \<and> \<not> host_ours own)"
proof (rule guard_leaves_no_redirect [OF sample_env_behaves, of _ "host_backup_path host_sample"])
  show "host_safe host_mount_default (host_backup_path host_sample) host_world"
    using history_kept [OF host_sample_start host_sample_apart] by (auto simp: host_safe_def host_backup_path_def)
  show "apart host_mount_default (host_backup_path host_sample)"
    using host_sample_apart by (simp add: host_backup_path_def)
qed auto

section \<open>What a shutdown leaves behind\<close>

text \<open>A configuration that does not load at the end leaves the redirect in place.\<close>

theorem guard_needs_a_config_to_restore:
  "fst (host_dns_guard env m turns None w) = Inl e \<Longrightarrow>
   files (snd (host_dns_guard env m turns None w)) = files (snd (action_map (guard_turn env m) turns w))"
  by (auto simp: host_dns_guard_def andthen_def throw_def split: prod.splits sum.splits)

text \<open>The restore of a shutdown leaves the systemd-resolved drop-in in place.\<close>

theorem restore_keeps_the_dropin:
  "resolv_conf m \<noteq> dropin_path m \<Longrightarrow>
   files (snd (host_dns_restore m c w)) (dropin_path m) = files w (dropin_path m)"
  by (simp add: restore_snd restore_resolv_conf_files)

text \<open>A port other than 53 leaves an earlier redirect, whatever address it names.\<close>

theorem other_port_keeps_the_redirect:
  assumes "host_wanted c w" "host_dns (app_routing c) = Resolv_conf" "dns_port (app_internal_dns c) \<noteq> 53"
    "resolv_conf m \<noteq> dropin_path m"
  shows "files (snd (host_dns_apply env m c w)) (resolv_conf m) = files w (resolv_conf m)"
proof -
  obtain r where "host_dns_apply env m c w = (Inr r, snd (point_resolv_conf m c (snd (remove_dropin m w))))"
    using host_dns_apply_parts [of env m c w] assms by auto
  with assms show ?thesis by (simp add: point_resolv_conf_files remove_dropin_files)
qed

end
