(* ===== verification/Users.thy ===== *)
theory Users
  imports Daemon_Conf Command
begin

text \<open>
  \<open>services/users.py\<close>: the ocpasswd file, one record per line, edited in place or by the
  \<open>ocpasswd\<close> program, and the per-user ocserv settings, validated, rendered to a file of their
  own and parsed back. The read-modify-write cycles run under one lock: each operation is a step.
\<close>

section \<open>Validators\<close>

text \<open>\<open>USERNAME_RE.match\<close>.\<close>

definition username_re :: "string \<Rightarrow> bool" where
  "username_re s = (let t = re_dollar s in
     t \<notin> {''.'', ''..''} \<and> t \<noteq> [] \<and> length t \<le> 64 \<and> list_all (name_chars ''_.@-'') t)"

definition validate_username :: "string \<Rightarrow> string result" where
  "validate_username n = (if username_re n then Inr n else Inl ValueError)"

definition user_group_name :: "string \<Rightarrow> string result" where
  "user_group_name g = (if username_re g then Inr g else Inl ValueError)"

text \<open>\<open>HOSTNAME_RE.match\<close> and \<open>PORT_RULE_RE.match\<close>; \<open>\s\<close> is any white space, the final
  newline included.\<close>

definition hostname_re :: "string \<Rightarrow> bool" where
  "hostname_re s = (let t = re_dollar s in
     t \<noteq> [] \<and> length t \<le> 253 \<and> list_all plain_label (split_on CHR ''.'' t))"

definition port_rule_re :: "string \<Rightarrow> bool" where
  "port_rule_re s = (s \<noteq> [] \<and> list_all (\<lambda>c. name_chars ''_(),!:-'' c \<or> is_space c) s)"

definition user_ip :: "string \<Rightarrow> string result" where
  "user_ip v = (if ip_address v = None then Inl ValueError else Inr v)"

definition user_network :: "string \<Rightarrow> string result" where
  "user_network v = res_bind (ip_network False v) (\<lambda>_. Inr v)"

definition user_route :: "string \<Rightarrow> string result" where
  "user_route v =
     (if v = ''default'' then Inr v
      else case cut CHR ''/'' v of
        (l, Some r) \<Rightarrow> (case ip_network False v of
            Inr _ \<Rightarrow> Inr v
          | Inl _ \<Rightarrow> res_bind (user_ip l) (\<lambda>_. res_bind (user_ip r) (\<lambda>_. Inr v)))
      | (_, None) \<Rightarrow> user_network v)"

definition user_domain :: "string \<Rightarrow> string result" where
  "user_domain v = (let candidate = rstrip_char CHR ''.'' (strip v) in
     if candidate = [] \<or> \<not> domain_re candidate then Inl ValueError else Inr candidate)"

definition strip_optional :: "string option \<Rightarrow> string option" where
  "strip_optional v = (case v of None \<Rightarrow> None
     | Some s \<Rightarrow> (if strip s = [] then None else Some (strip s)))"

definition user_parse_bool :: "string \<Rightarrow> bool option" where
  "user_parse_bool v = (let l = lower (strip v) in
     if l \<in> {''true'', ''yes'', ''1'', ''on''} then Some True
     else if l \<in> {''false'', ''no'', ''0'', ''off''} then Some False else None)"

definition user_parse_int :: "string \<Rightarrow> int option" where
  "user_parse_int v = py_int (strip v)"

section \<open>Per-user settings\<close>

record user_config =
  uc_dns :: "string list"
  uc_nbns :: "string list"
  uc_split_dns :: "string list"
  uc_routes :: "string list"
  uc_no_routes :: "string list"
  uc_iroutes :: "string list"
  uc_ipv4_network :: "string option"
  uc_ipv4_netmask :: "string option"
  uc_ipv6_network :: "string option"
  uc_ipv6_subnet_prefix :: "int option"
  uc_explicit_ipv4 :: "string option"
  uc_explicit_ipv6 :: "string option"
  uc_rx_data_per_sec :: "int option"
  uc_tx_data_per_sec :: "int option"
  uc_net_priority :: "string option"
  uc_deny_roaming :: "bool option"
  uc_no_udp :: "bool option"
  uc_keepalive :: "int option"
  uc_dpd :: "int option"
  uc_mobile_dpd :: "int option"
  uc_max_same_clients :: "int option"
  uc_tunnel_all_dns :: "bool option"
  uc_restrict_user_to_routes :: "bool option"
  uc_stats_report_time :: "int option"
  uc_mtu :: "int option"
  uc_idle_timeout :: "int option"
  uc_mobile_idle_timeout :: "int option"
  uc_restrict_user_to_ports :: "string option"
  uc_session_timeout :: "int option"
  uc_hostname :: "string option"

definition empty_user_config :: user_config where
  "empty_user_config = \<lparr>uc_dns = [], uc_nbns = [], uc_split_dns = [], uc_routes = [], uc_no_routes = [],
     uc_iroutes = [], uc_ipv4_network = None, uc_ipv4_netmask = None, uc_ipv6_network = None,
     uc_ipv6_subnet_prefix = None, uc_explicit_ipv4 = None, uc_explicit_ipv6 = None,
     uc_rx_data_per_sec = None, uc_tx_data_per_sec = None, uc_net_priority = None, uc_deny_roaming = None,
     uc_no_udp = None, uc_keepalive = None, uc_dpd = None, uc_mobile_dpd = None,
     uc_max_same_clients = None, uc_tunnel_all_dns = None, uc_restrict_user_to_routes = None,
     uc_stats_report_time = None, uc_mtu = None, uc_idle_timeout = None, uc_mobile_idle_timeout = None,
     uc_restrict_user_to_ports = None, uc_session_timeout = None, uc_hostname = None\<rparr>"

definition optional_network :: "string option \<Rightarrow> string option result" where
  "optional_network v = optional user_network (strip_optional v)"

definition optional_address :: "nat \<Rightarrow> string option \<Rightarrow> string option result" where
  "optional_address version v = optional (\<lambda>s. case ip_address s of None \<Rightarrow> Inl ValueError
     | Some a \<Rightarrow> if ip_version a \<noteq> version then Inl ValueError else Inr s) (strip_optional v)"

definition user_items :: "(string \<Rightarrow> string result) \<Rightarrow> string list \<Rightarrow> string list result" where
  "user_items f xs = res_map (\<lambda>x. f (strip x)) (filter (\<lambda>x. strip x \<noteq> []) xs)"

definition user_split_dns :: "string list \<Rightarrow> string list result" where
  "user_split_dns xs = res_map user_domain (filter (\<lambda>x. strip x \<noteq> []) xs)"

definition net_priority_ok :: "string option \<Rightarrow> string option result" where
  "net_priority_ok v = optional (\<lambda>s. case py_int0 s of None \<Rightarrow> Inl ValueError
     | Some n \<Rightarrow> if n < 0 then Inl ValueError else Inr s) (strip_optional v)"

definition port_rules_ok :: "string option \<Rightarrow> string option result" where
  "port_rules_ok v = optional (\<lambda>s. if port_rule_re s then Inr s else Inl ValueError) (strip_optional v)"

definition hostname_ok :: "string option \<Rightarrow> string option result" where
  "hostname_ok v = optional (\<lambda>s. if hostname_re s then Inr s else Inl ValueError) (strip_optional v)"

definition validate_ipv4_pair :: "user_config \<Rightarrow> user_config result" where
  "validate_ipv4_pair u =
     (if is_set (uc_ipv4_netmask u) \<and> \<not> is_set (uc_ipv4_network u) then Inl ValueError else Inr u)"

text \<open>\<open>UserConfig(...)\<close>: the field validators and ranges, in any order, then the model validator.\<close>

definition check_user_numbers :: "user_config \<Rightarrow> unit result" where
  "check_user_numbers u =
     res_bind (optional (in_range 1 128) (uc_ipv6_subnet_prefix u)) (\<lambda>_.
     res_bind (optional (at_least 0) (uc_rx_data_per_sec u)) (\<lambda>_.
     res_bind (optional (at_least 0) (uc_tx_data_per_sec u)) (\<lambda>_.
     res_bind (optional (at_least 0) (uc_keepalive u)) (\<lambda>_.
     res_bind (optional (at_least 0) (uc_dpd u)) (\<lambda>_.
     res_bind (optional (at_least 0) (uc_mobile_dpd u)) (\<lambda>_.
     res_bind (optional (at_least 1) (uc_max_same_clients u)) (\<lambda>_.
     res_bind (optional (at_least 0) (uc_stats_report_time u)) (\<lambda>_.
     res_bind (optional (in_range 576 65535) (uc_mtu u)) (\<lambda>_.
     res_bind (optional (at_least 1) (uc_idle_timeout u)) (\<lambda>_.
     res_bind (optional (at_least 1) (uc_mobile_idle_timeout u)) (\<lambda>_.
     res_bind (optional (at_least 1) (uc_session_timeout u)) (\<lambda>_. Inr ()))))))))))))"

definition check_user_config :: "user_config \<Rightarrow> user_config result" where
  "check_user_config u =
     res_bind (check_user_numbers u) (\<lambda>_.
     res_bind (user_items user_ip (uc_dns u)) (\<lambda>dns.
     res_bind (user_items user_ip (uc_nbns u)) (\<lambda>nbns.
     res_bind (user_split_dns (uc_split_dns u)) (\<lambda>sd.
     res_bind (user_items user_route (uc_routes u)) (\<lambda>rs.
     res_bind (user_items user_route (uc_no_routes u)) (\<lambda>nrs.
     res_bind (user_items user_route (uc_iroutes u)) (\<lambda>irs.
     res_bind (optional_network (uc_ipv4_network u)) (\<lambda>n4.
     res_bind (optional_network (uc_ipv6_network u)) (\<lambda>n6.
     res_bind (optional_address 4 (uc_ipv4_netmask u)) (\<lambda>m4.
     res_bind (optional_address 4 (uc_explicit_ipv4 u)) (\<lambda>e4.
     res_bind (optional_address 6 (uc_explicit_ipv6 u)) (\<lambda>e6.
     res_bind (net_priority_ok (uc_net_priority u)) (\<lambda>np.
     res_bind (port_rules_ok (uc_restrict_user_to_ports u)) (\<lambda>pr.
     res_bind (hostname_ok (uc_hostname u)) (\<lambda>h.
     validate_ipv4_pair (u\<lparr>uc_dns := dns, uc_nbns := nbns, uc_split_dns := sd, uc_routes := rs,
       uc_no_routes := nrs, uc_iroutes := irs, uc_ipv4_network := n4, uc_ipv6_network := n6,
       uc_ipv4_netmask := m4, uc_explicit_ipv4 := e4, uc_explicit_ipv6 := e6, uc_net_priority := np,
       uc_restrict_user_to_ports := pr, uc_hostname := h\<rparr>))))))))))))))))"

text \<open>The field tables of the parser and the renderer: key, accessor and update.\<close>

definition user_lists :: "(string \<times> (user_config \<Rightarrow> string list) \<times> ((string list \<Rightarrow> string list) \<Rightarrow> user_config \<Rightarrow> user_config)) list" where
  "user_lists = [(''dns'', uc_dns, uc_dns_update), (''nbns'', uc_nbns, uc_nbns_update),
     (''split-dns'', uc_split_dns, uc_split_dns_update), (''route'', uc_routes, uc_routes_update),
     (''no-route'', uc_no_routes, uc_no_routes_update), (''iroute'', uc_iroutes, uc_iroutes_update)]"

datatype scalar_field =
    Text_field "user_config \<Rightarrow> string option" "(string option \<Rightarrow> string option) \<Rightarrow> user_config \<Rightarrow> user_config"
  | Int_field "user_config \<Rightarrow> int option" "(int option \<Rightarrow> int option) \<Rightarrow> user_config \<Rightarrow> user_config"

definition user_scalars :: "(string \<times> scalar_field) list" where
  "user_scalars =
     [(''ipv4-network'', Text_field uc_ipv4_network uc_ipv4_network_update),
      (''ipv4-netmask'', Text_field uc_ipv4_netmask uc_ipv4_netmask_update),
      (''ipv6-network'', Text_field uc_ipv6_network uc_ipv6_network_update),
      (''ipv6-subnet-prefix'', Int_field uc_ipv6_subnet_prefix uc_ipv6_subnet_prefix_update),
      (''explicit-ipv4'', Text_field uc_explicit_ipv4 uc_explicit_ipv4_update),
      (''explicit-ipv6'', Text_field uc_explicit_ipv6 uc_explicit_ipv6_update),
      (''rx-data-per-sec'', Int_field uc_rx_data_per_sec uc_rx_data_per_sec_update),
      (''tx-data-per-sec'', Int_field uc_tx_data_per_sec uc_tx_data_per_sec_update),
      (''net-priority'', Text_field uc_net_priority uc_net_priority_update),
      (''keepalive'', Int_field uc_keepalive uc_keepalive_update),
      (''dpd'', Int_field uc_dpd uc_dpd_update),
      (''mobile-dpd'', Int_field uc_mobile_dpd uc_mobile_dpd_update),
      (''max-same-clients'', Int_field uc_max_same_clients uc_max_same_clients_update),
      (''stats-report-time'', Int_field uc_stats_report_time uc_stats_report_time_update),
      (''mtu'', Int_field uc_mtu uc_mtu_update),
      (''idle-timeout'', Int_field uc_idle_timeout uc_idle_timeout_update),
      (''mobile-idle-timeout'', Int_field uc_mobile_idle_timeout uc_mobile_idle_timeout_update),
      (''restrict-user-to-ports'', Text_field uc_restrict_user_to_ports uc_restrict_user_to_ports_update),
      (''session-timeout'', Int_field uc_session_timeout uc_session_timeout_update),
      (''hostname'', Text_field uc_hostname uc_hostname_update)]"

definition user_booleans :: "(string \<times> (user_config \<Rightarrow> bool option) \<times> ((bool option \<Rightarrow> bool option) \<Rightarrow> user_config \<Rightarrow> user_config)) list" where
  "user_booleans = [(''deny-roaming'', uc_deny_roaming, uc_deny_roaming_update),
     (''no-udp'', uc_no_udp, uc_no_udp_update),
     (''tunnel-all-dns'', uc_tunnel_all_dns, uc_tunnel_all_dns_update),
     (''restrict-user-to-routes'', uc_restrict_user_to_routes, uc_restrict_user_to_routes_update)]"

text \<open>\<open>is_empty\<close>: every value is \<open>None\<close>, an empty list or an empty string.\<close>

definition user_config_is_empty :: "user_config \<Rightarrow> bool" where
  "user_config_is_empty u =
     (list_all (\<lambda>(_, get, _). get u = []) user_lists
      \<and> list_all (\<lambda>(_, f). case f of Text_field get _ \<Rightarrow> \<not> is_set (get u) | Int_field get _ \<Rightarrow> get u = None) user_scalars
      \<and> list_all (\<lambda>(_, get, _). get u = None) user_booleans)"

section \<open>Parsing and rendering\<close>

text \<open>One line: the key and the value, or nothing to do.\<close>

definition user_setting :: "string \<Rightarrow> (string \<times> string) option" where
  "user_setting line = (let clean = strip (fst (cut CHR ''#'' line)) in
     if clean = [] then None
     else case cut CHR ''='' clean of
       (_, None) \<Rightarrow> None
     | (k, Some v) \<Rightarrow> Some (strip k, strip_if (\<lambda>c. c = CHR 0x22) (strip (strip v))))"

definition store_setting :: "string \<times> string \<Rightarrow> user_config \<Rightarrow> user_config" where
  "store_setting kv u = (case kv of (k, v) \<Rightarrow>
     (case map_of user_lists k of Some (_, upd) \<Rightarrow> upd (\<lambda>xs. xs @ [v]) u
      | None \<Rightarrow> (case map_of user_booleans k of Some (_, upd) \<Rightarrow> upd (\<lambda>_. user_parse_bool v) u
      | None \<Rightarrow> (case map_of user_scalars k of
            Some (Text_field _ upd) \<Rightarrow> upd (\<lambda>_. Some v) u
          | Some (Int_field _ upd) \<Rightarrow> upd (\<lambda>_. user_parse_int v) u
          | None \<Rightarrow> u))))"

definition parse_user_line :: "user_config \<Rightarrow> string \<Rightarrow> user_config" where
  "parse_user_line u line = (case user_setting line of None \<Rightarrow> u | Some kv \<Rightarrow> store_setting kv u)"

definition parse_user_config_file :: "string \<Rightarrow> world \<Rightarrow> user_config" where
  "parse_user_config_file p w = foldl parse_user_line empty_user_config (read_lines_of (files w p))"

text \<open>A line \<open>key = value\<close> is \<open>setting\<close>, as in the daemon configuration files.\<close>

definition scalar_line :: "user_config \<Rightarrow> string \<times> scalar_field \<Rightarrow> string list" where
  "scalar_line u kf = (case kf of (k, f) \<Rightarrow> (case f of
     Text_field get _ \<Rightarrow> (case get u of None \<Rightarrow> [] | Some v \<Rightarrow> [setting k v])
   | Int_field get _ \<Rightarrow> (case get u of None \<Rightarrow> [] | Some n \<Rightarrow> [setting k (show_int n)])))"

definition user_config_header :: string where
  "user_config_header = ''# Generated by korserver. Manual edits may be overwritten.''"

definition user_config_lines :: "user_config \<Rightarrow> string list" where
  "user_config_lines u = user_config_header
     # concat (map (\<lambda>(k, get, _). map (setting k) (get u)) user_lists)
     @ concat (map (scalar_line u) user_scalars)
     @ concat (map (\<lambda>(k, get, _). case get u of None \<Rightarrow> []
         | Some b \<Rightarrow> [setting k (if b then ''true'' else ''false'')]) user_booleans)"

definition render_user_config :: "user_config \<Rightarrow> string" where
  "render_user_config u = join [LF] (user_config_lines u) @ [LF]"

definition user_config_dir :: "app_config \<Rightarrow> string" where
  "user_config_dir c = (case config_per_user_dir (app_identity c) of
     None \<Rightarrow> path_join (generated_dir (app_system c)) ''config-per-user'' | Some d \<Rightarrow> d)"

definition user_config_path :: "app_config \<Rightarrow> string \<Rightarrow> string result" where
  "user_config_path c n = res_bind (validate_username n) (\<lambda>_. Inr (path_join (user_config_dir c) n))"

definition read_user_config :: "app_config \<Rightarrow> string \<Rightarrow> world \<Rightarrow> user_config result" where
  "read_user_config c n w = res_bind (user_config_path c n) (\<lambda>p. check_user_config (parse_user_config_file p w))"

definition korctl_result :: "string list \<Rightarrow> string \<Rightarrow> command_result" where
  "korctl_result argv out = \<lparr>r_argv = argv, r_code = 0, r_out = out, r_err = [], r_dry = False\<rparr>"

definition delete_user_config :: "app_config \<Rightarrow> string \<Rightarrow> (world, bool) action" where
  "delete_user_config c n =
     andthen (lift_result (user_config_path c n)) (\<lambda>p.
     andthen current (\<lambda>w. if files w p = None then ret False else andthen (unlink p) (\<lambda>_. ret True)))"

definition save_user_config :: "app_config \<Rightarrow> string \<Rightarrow> user_config \<Rightarrow> (world, command_result) action" where
  "save_user_config c n u =
     andthen (lift_result (user_config_path c n)) (\<lambda>p.
     andthen (if user_config_is_empty u
        then andthen (delete_user_config c n) (\<lambda>deleted.
          ret (if deleted then ''deleted empty per-user config'' @ [LF] else ''per-user config already empty'' @ [LF]))
        else andthen (atomic_write_private_text p (render_user_config u)) (\<lambda>_.
          ret (''written '' @ p @ [LF]))) (\<lambda>out.
     ret (korctl_result [''korctl'', ''user'', ''config'', ''save'', n] out)))"

end
