(* ===== verification/Passwd.thy ===== *)
theory Passwd
  imports Users
begin

text \<open>
  The ocpasswd file of \<open>services/users.py\<close>: reading its records, rewriting the groups of one
  user, deleting a user, and the \<open>ocpasswd\<close> commands that create, lock and unlock accounts.
\<close>

section \<open>Records\<close>

record passwd_record =
  pw_username :: string
  pw_fields :: "string list"
  pw_disabled :: bool
  pw_groups :: "string list"

record user_record =
  ur_username :: string
  ur_disabled :: bool
  ur_certificate_exists :: bool
  ur_p12_exists :: bool
  ur_groups :: "string list"

definition passwd_file :: "app_config \<Rightarrow> string" where
  "passwd_file c = secret_path c ''ocpasswd''"

text \<open>\<open>re.split('[,;]', s)\<close>.\<close>

definition split_groups :: "string \<Rightarrow> string list" where
  "split_groups s = split_on CHR '','' (map (\<lambda>x. if x = CHR '';'' then CHR '','' else x) s)"

definition parse_groups_field :: "string \<Rightarrow> string list" where
  "parse_groups_field v = map strip (filter (\<lambda>i. strip i \<noteq> [] \<and> length (strip i) > 1)
     (split_groups (lstrip_char CHR ''!'' v)))"

definition looks_like_password_hash :: "string \<Rightarrow> bool" where
  "looks_like_password_hash v = (let s = lstrip_char CHR ''!'' v in
     if s = [] then False else starts_with ''$'' s \<or> length s > 32)"

definition group_field :: "string list \<Rightarrow> string" where
  "group_field tail =
     (let legacy_lock = (2 \<le> length tail \<and> starts_with ''!'' (tail ! 1) \<and> \<not> looks_like_password_hash (tail ! 1))
      in if 2 \<le> length tail \<and> \<not> legacy_lock \<and> \<not> looks_like_password_hash (hd tail) then hd tail else [])"

definition parse_passwd_record :: "string \<Rightarrow> passwd_record" where
  "parse_passwd_record line = (let fields = split_on CHR '':'' line; tail = tl fields in
     \<lparr>pw_username = lstrip_char CHR ''!'' (hd fields), pw_fields = fields,
      pw_disabled = (starts_with ''!'' (hd fields) \<or> list_ex (starts_with ''!'') tail),
      pw_groups = parse_groups_field (group_field tail)\<rparr>)"

definition render_passwd_record :: "passwd_record \<Rightarrow> string list \<Rightarrow> string" where
  "render_passwd_record r groups = (let fields = pw_fields r; group_value = join '','' groups in
     if length fields \<le> 1 then join '':'' fields
     else if length fields = 2 then
       (if group_value \<noteq> [] then join '':'' [fields ! 0, group_value, fields ! 1] else join '':'' fields)
     else if group_value = [] then join '':'' (fields ! 0 # drop 2 fields)
     else join '':'' (fields[1 := group_value]))"

section \<open>Operations\<close>

definition user_cert_file :: "app_config \<Rightarrow> string \<Rightarrow> string" where
  "user_cert_file c n = path_join (path_join (path_join (data_dir (app_system c)) ''certs'') ''users'') n"

definition is_passwd_line :: "string \<Rightarrow> bool" where
  "is_passwd_line line = (line \<noteq> [] \<and> \<not> starts_with ''#'' line \<and> CHR '':'' \<in> set line)"

definition user_record_of :: "app_config \<Rightarrow> world \<Rightarrow> string \<Rightarrow> user_record" where
  "user_record_of c w line = (let r = parse_passwd_record line in
     \<lparr>ur_username = pw_username r, ur_disabled = pw_disabled r,
      ur_certificate_exists = (files w (user_cert_file c (pw_username r @ ''.crt'')) \<noteq> None),
      ur_p12_exists = (files w (user_cert_file c (pw_username r @ ''.p12'')) \<noteq> None),
      ur_groups = pw_groups r\<rparr>)"

definition list_users :: "app_config \<Rightarrow> world \<Rightarrow> user_record list" where
  "list_users c w = map (user_record_of c w) (filter is_passwd_line (read_lines_of (files w (passwd_file c))))"

definition read_user_groups :: "app_config \<Rightarrow> string \<Rightarrow> world \<Rightarrow> string list result" where
  "read_user_groups c n w = res_bind (validate_username n) (\<lambda>_.
     Inr (case find (\<lambda>r. ur_username r = n) (list_users c w) of None \<Rightarrow> [] | Some r \<Rightarrow> ur_groups r))"

definition clean_groups :: "string list \<Rightarrow> string list result" where
  "clean_groups gs = res_map user_group_name (filter (\<lambda>g. g \<noteq> []) (map strip gs))"

definition regroup_line :: "string \<Rightarrow> string list \<Rightarrow> string \<Rightarrow> string" where
  "regroup_line n gs line = (let r = parse_passwd_record line in
     if pw_username r \<noteq> n then line else render_passwd_record r gs)"

definition set_user_groups :: "app_config \<Rightarrow> string \<Rightarrow> string list \<Rightarrow> (world, command_result) action" where
  "set_user_groups c n groups =
     andthen (lift_result (validate_username n)) (\<lambda>_.
     andthen (lift_result (clean_groups groups)) (\<lambda>gs.
     andthen (read_lines (passwd_file c)) (\<lambda>lines.
     andthen (if list_ex (\<lambda>l. pw_username (parse_passwd_record l) = n) lines
        then atomic_write_private_text (passwd_file c) (lines_text (map (regroup_line n gs) lines)) else ret ()) (\<lambda>_.
     ret (korctl_result [''korctl'', ''user'', ''groups'', ''set'', n]
       (''groups for '' @ n @ '': '' @ (if gs \<noteq> [] then join '', '' gs else ''none'') @ [LF]))))))"

definition passwd_argv :: "app_config \<Rightarrow> string list \<Rightarrow> string list" where
  "passwd_argv c args = [''ocpasswd'', ''-c'', passwd_file c] @ args"

definition create_user :: "env \<Rightarrow> string list \<Rightarrow> app_config \<Rightarrow> string \<Rightarrow> string \<Rightarrow> bool \<Rightarrow> (world, command_result) action" where
  "create_user env secrets c n password dry =
     andthen (lift_result (validate_username n)) (\<lambda>_.
     run_command env secrets (passwd_argv c [n])
       (default_options\<lparr>o_timeout := 30, o_dry_run := dry,
          o_input := Some (password @ [LF] @ password @ [LF]), o_extra_secrets := [password]\<rparr>))"

definition change_password :: "env \<Rightarrow> string list \<Rightarrow> app_config \<Rightarrow> string \<Rightarrow> string \<Rightarrow> bool \<Rightarrow> (world, command_result) action" where
  "change_password env secrets c n password dry = create_user env secrets c n password dry"

definition keeps_user_line :: "string \<Rightarrow> string \<Rightarrow> bool" where
  "keeps_user_line n line = (\<not> starts_with (n @ '':'') line \<and> \<not> starts_with (''!'' @ n @ '':'') line)"

definition delete_user :: "app_config \<Rightarrow> string \<Rightarrow> (world, bool) action" where
  "delete_user c n =
     andthen (lift_result (validate_username n)) (\<lambda>_.
     andthen (read_lines (passwd_file c)) (\<lambda>lines.
     let kept = filter (keeps_user_line n) lines; changed = (length kept \<noteq> length lines) in
     andthen (if changed then atomic_write_private_text (passwd_file c) (lines_text kept) else ret ()) (\<lambda>_.
     ret changed)))"

definition lock_user :: "env \<Rightarrow> string list \<Rightarrow> app_config \<Rightarrow> string \<Rightarrow> string \<Rightarrow> bool \<Rightarrow> (world, command_result) action" where
  "lock_user env secrets c flag n dry =
     andthen (lift_result (validate_username n)) (\<lambda>_.
     run_command env secrets (passwd_argv c [flag, n]) (default_options\<lparr>o_timeout := 30, o_dry_run := dry\<rparr>))"

definition disable_user :: "env \<Rightarrow> string list \<Rightarrow> app_config \<Rightarrow> string \<Rightarrow> bool \<Rightarrow> (world, command_result) action" where
  "disable_user env secrets c n dry = lock_user env secrets c ''-l'' n dry"

definition enable_user :: "env \<Rightarrow> string list \<Rightarrow> app_config \<Rightarrow> string \<Rightarrow> bool \<Rightarrow> (world, command_result) action" where
  "enable_user env secrets c n dry = lock_user env secrets c ''-u'' n dry"

end
