(* ===== verification/Otp.thy ===== *)
theory Otp
  imports Passwd
begin

text \<open>
  \<open>services/otp.py\<close>: one-time password secrets in the users.oath file, one line per user,
  and the provisioning URI with its two percent encodings. The random bytes of a new secret are
  an argument.
\<close>

section \<open>Secrets and URIs\<close>

text \<open>\<open>base64.b32encode\<close> without padding: 5-bit groups of the big-endian bits.\<close>

definition byte_bits :: "char \<Rightarrow> bool list" where
  "byte_bits c = map (\<lambda>i. odd (code c div 2 ^ i)) [7,6,5,4,3,2,1,0]"

definition bits_value :: "bool list \<Rightarrow> nat" where
  "bits_value bs = foldl (\<lambda>n b. 2 * n + (if b then 1 else 0)) 0 bs"

definition b32_char :: "nat \<Rightarrow> char" where
  "b32_char n = char_of (if n < 26 then 65 + n else 24 + n)"

fun b32_groups :: "bool list \<Rightarrow> bool list list" where
  "b32_groups (a # b # c # d # e # rest) = [a, b, c, d, e] # b32_groups rest"
| "b32_groups [] = []"
| "b32_groups bs = [take 5 (bs @ replicate 5 False)]"

definition b32_encode :: "string \<Rightarrow> string" where
  "b32_encode bytes = map (b32_char \<circ> bits_value) (b32_groups (concat (map byte_bits bytes)))"

definition generate_secret :: "string \<Rightarrow> string" where
  "generate_secret random20 = b32_encode random20"

text \<open>\<open>urllib.parse.quote\<close> with its safe characters, over the UTF-8 bytes.\<close>

definition utf8_bytes :: "char \<Rightarrow> nat list" where
  "utf8_bytes c = (let n = code c in if n < 128 then [n] else [192 + n div 64, 128 + n mod 64])"

definition upper_hex :: "nat \<Rightarrow> char" where
  "upper_hex d = char_of (if d < 10 then 48 + d else 55 + d)"

definition quote_char :: "string \<Rightarrow> char \<Rightarrow> string" where
  "quote_char safe c = (if name_chars ''_.-~'' c \<or> c \<in> set safe then [c]
     else concat (map (\<lambda>n. [CHR ''%'', upper_hex (n div 16), upper_hex (n mod 16)]) (utf8_bytes c)))"

definition url_quote :: "string \<Rightarrow> string" where
  "url_quote s = concat (map (quote_char ''/'') s)"

definition quote_plus :: "string \<Rightarrow> string" where
  "quote_plus s = concat (map (\<lambda>c. if c = CHR '' '' then ''+'' else quote_char '''' c) s)"

definition urlencode :: "(string \<times> string) list \<Rightarrow> string" where
  "urlencode kvs = join ''&'' (map (\<lambda>(k, v). quote_plus k @ ''='' @ quote_plus v) kvs)"

section \<open>The users.oath file\<close>

record otp_record =
  otp_username :: string
  otp_on :: bool

definition oath_file :: "app_config \<Rightarrow> string" where
  "oath_file c = secret_path c ''users.oath''"

definition otp_list_records :: "app_config \<Rightarrow> world \<Rightarrow> otp_record list" where
  "otp_list_records c w = concat (map (\<lambda>line.
     if line = [] \<or> starts_with ''#'' line then []
     else case split_ws line of _ # name # _ \<Rightarrow> [\<lparr>otp_username = name, otp_on = True\<rparr>] | _ \<Rightarrow> [])
     (read_lines_of (files w (oath_file c))))"

text \<open>\<open>line.split()[1:2] == [username]\<close>.\<close>

definition otp_line_of :: "string \<Rightarrow> string \<Rightarrow> bool" where
  "otp_line_of n line = (take 1 (drop 1 (split_ws line)) = [n])"

definition otp_entry :: "string \<Rightarrow> string \<Rightarrow> string" where
  "otp_entry n secret = ''HOTP/T30/6 '' @ n @ '' - '' @ secret"

definition otp_enable :: "app_config \<Rightarrow> string \<Rightarrow> string \<Rightarrow> (world, string) action" where
  "otp_enable c random20 n =
     andthen (lift_result (validate_username n)) (\<lambda>_.
     let secret = generate_secret random20 in
     andthen (read_lines (oath_file c)) (\<lambda>lines.
     andthen (atomic_write_private_text (oath_file c)
        (join [LF] (filter (\<lambda>l. \<not> otp_line_of n l) lines @ [otp_entry n secret]) @ [LF])) (\<lambda>_.
     ret secret)))"

definition otp_disable :: "app_config \<Rightarrow> string \<Rightarrow> (world, bool) action" where
  "otp_disable c n =
     andthen (lift_result (validate_username n)) (\<lambda>_.
     andthen (read_lines (oath_file c)) (\<lambda>lines.
     let kept = filter (\<lambda>l. \<not> otp_line_of n l) lines; changed = (length kept \<noteq> length lines) in
     andthen (if changed then atomic_write_private_text (oath_file c) (lines_text kept) else ret ()) (\<lambda>_.
     ret changed)))"

definition otp_secret_line :: "string \<Rightarrow> string \<Rightarrow> string option" where
  "otp_secret_line n line = (case split_ws line of
     _ # name # _ # secret # _ \<Rightarrow> if name = n then Some secret else None | _ \<Rightarrow> None)"

definition secret_for_user :: "app_config \<Rightarrow> string \<Rightarrow> world \<Rightarrow> string option result" where
  "secret_for_user c n w = res_bind (validate_username n) (\<lambda>_.
     Inr (case find (\<lambda>l. otp_secret_line n l \<noteq> None) (read_lines_of (files w (oath_file c))) of
       None \<Rightarrow> None | Some l \<Rightarrow> otp_secret_line n l))"

definition otpauth_uri :: "app_config \<Rightarrow> string \<Rightarrow> world \<Rightarrow> string result" where
  "otpauth_uri c n w = res_bind (secret_for_user c n w) (\<lambda>s. case s of None \<Rightarrow> Inl ValueError
     | Some secret \<Rightarrow> (let iss = issuer (otp (app_auth c)) in
        Inr (''otpauth://totp/'' @ url_quote (iss @ '':'' @ n) @ ''?''
          @ urlencode [(''secret'', secret), (''issuer'', iss), (''digits'', ''6'')])))"

definition qr_command :: "env \<Rightarrow> string list \<Rightarrow> app_config \<Rightarrow> string \<Rightarrow> string \<Rightarrow> (world, command_result) action" where
  "qr_command env secrets c format n =
     andthen current (\<lambda>w. andthen (lift_result (otpauth_uri c n w)) (\<lambda>uri.
     andthen (lift_result (secret_for_user c n w)) (\<lambda>s.
     run_command env secrets [''qrencode'', ''-t'', format, ''-o'', ''-'']
       (default_options\<lparr>o_timeout := 10, o_input := Some uri,
          o_extra_secrets := [uri, case s of None \<Rightarrow> [] | Some x \<Rightarrow> x]\<rparr>))))"

definition qr_ansi :: "env \<Rightarrow> string list \<Rightarrow> app_config \<Rightarrow> string \<Rightarrow> (world, command_result) action" where
  "qr_ansi env secrets c n = qr_command env secrets c ''ANSIUTF8'' n"

definition qr_svg :: "env \<Rightarrow> string list \<Rightarrow> app_config \<Rightarrow> string \<Rightarrow> (world, command_result) action" where
  "qr_svg env secrets c n = qr_command env secrets c ''SVG'' n"

end
