(* ===== verification/Account_Facts.thy ===== *)
theory Account_Facts
  imports Otp
begin

text \<open>
  The line files of the accounts: what a rewrite of one user's groups does to the ocpasswd
  records, and the one-time password file as a keyed store, through an interface whose laws
  the line operations keep.
\<close>

section \<open>User names\<close>

lemma name_char_facts:
  assumes "name_chars ''_.@-'' x"
  shows "\<not> is_space x" "x \<notin> {CHR '':'', CHR ''!'', CHR ''#'', CHR ''/'', CHR '','', CHR '';'', CHR ''$''}"
  using assms by (auto simp: name_chars_def is_alnum_def is_alpha_def is_ascii_digit_def is_space_def code_def Let_def)

lemma linebreak_not_name: "is_linebreak x \<Longrightarrow> \<not> name_chars ''_.@-'' x"
  using name_char_facts(1) linebreak_space by blast

lemma username_chars:
  assumes "username_re n" "LF \<notin> set n"
  shows "n \<noteq> []" "list_all (name_chars ''_.@-'') n" "n \<noteq> ''.''" "n \<noteq> ''..''" "length n \<le> 64"
proof -
  have "re_dollar n = n" using assms(2) by (auto simp: re_dollar_def dest: last_in_set)
  with assms(1) show "n \<noteq> []" "list_all (name_chars ''_.@-'') n" "n \<noteq> ''.''" "n \<noteq> ''..''" "length n \<le> 64"
    by (auto simp: username_re_def Let_def)
qed

lemma username_no_space: "username_re n \<Longrightarrow> LF \<notin> set n \<Longrightarrow> x \<in> set n \<Longrightarrow> \<not> is_space x"
  using username_chars(2) name_char_facts(1) by (auto simp: list_all_iff)

lemma validate_username_iff: "validate_username n = Inr m \<longleftrightarrow> username_re n \<and> m = n"
  by (auto simp: validate_username_def)

section \<open>Lines in a file\<close>

text \<open>What \<open>lines_text\<close> writes reads back, empty lines included.\<close>

lemma read_lines_text:
  assumes "\<forall>l \<in> set ls. no_breaks l"
  shows "read_lines_of (Some (lines_text ls)) = ls"
proof (cases "ls = []")
  case True
  then show ?thesis by (simp add: read_lines_of_def lines_text_def read_text_def splitlines_def)
next
  case False
  have "CR \<notin> set (lines_text ls)"
    using assms set_join [of "[LF]" ls] CR_not_no_breaks by (auto simp: lines_text_def split: if_splits)
  with False show ?thesis
    by (simp add: read_lines_of_def read_text_def) (simp add: lines_text_def splitlines_join_lines [OF assms])
qed

lemma read_lines_no_breaks: "l \<in> set (read_lines_of t) \<Longrightarrow> no_breaks l"
  by (auto simp: read_lines_of_def dest: splitlines_no_breaks split: option.splits)

section \<open>ocpasswd records\<close>

lemma join_cons: "xs \<noteq> [] \<Longrightarrow> join sep (x # xs) = x @ sep @ join sep xs"
  by (cases xs) auto

lemma split_on_no_sep_parts: "x \<in> set (split_on c s) \<Longrightarrow> c \<notin> set x"
  by (induction s arbitrary: x) (auto split: if_splits list.splits)

lemma split_on_subset: "p \<in> set (split_on c s) \<Longrightarrow> set p \<subseteq> set s"
  by (induction s arbitrary: p) (fastforce split: if_splits list.splits)+

lemma join_head: "join sep ((a # x) # xs) = a # join sep (x # xs)"
  by (cases xs) auto

lemma join_split: "join [c] (split_on c s) = s"
  by (induction s) (auto simp: join_cons join_head split: list.splits)

text \<open>A record in the current format: user, optional groups, password hash, where a hash field
  that starts with a lock mark is a locked hash.\<close>

definition hash_field :: "string \<Rightarrow> bool" where
  "hash_field h = (starts_with ''!'' h \<longrightarrow> looks_like_password_hash h)"

definition current_record :: "string \<Rightarrow> bool" where
  "current_record line = (case split_on CHR '':'' line of
     [a, h] \<Rightarrow> hash_field h | [a, g, h] \<Rightarrow> hash_field h | _ \<Rightarrow> False)"

lemma lstrip_hd: "lstrip_char c s = n \<Longrightarrow> n \<noteq> [] \<Longrightarrow> s \<noteq> [] \<and> (hd s = c \<or> hd s = hd n)"
  by (cases s) (auto simp: lstrip_char_def lstrip_if_def split: if_splits)

text \<open>The groups a listing shows for the record the rewrite produces.\<close>

definition groups_fit :: "string list \<Rightarrow> bool" where
  "groups_fit gs = (list_all (\<lambda>g. 2 \<le> length g \<and> LF \<notin> set g \<and> username_re g) gs \<and> length (join '','' gs) \<le> 32)"

lemma join_chars: "x \<in> set (join sep ls) \<Longrightarrow> x \<in> set sep \<or> (\<exists>l \<in> set ls. x \<in> set l)"
  by (rule set_join_mem)

lemma parse_joined_groups:
  assumes "groups_fit gs"
  shows "parse_groups_field (join '','' gs) = gs"
proof -
  have g: "g \<noteq> []" "2 \<le> length g" "list_all (name_chars ''_.@-'') g" if "g \<in> set gs" for g
    using that assms username_chars by (auto simp: groups_fit_def list_all_iff)
  have no: "CHR '','' \<notin> set g" "CHR '';'' \<notin> set g" "CHR ''!'' \<notin> set g" if "g \<in> set gs" for g
    using g(3) [OF that] name_char_facts(2) by (auto simp: list_all_iff)
  have st: "strip g = g" if "g \<in> set gs" for g
    using g(3) [OF that] name_char_facts(1) by (intro strip_no_space) (auto simp: list_all_iff)
  show ?thesis
  proof (cases "gs = []")
    case True
    moreover have "parse_groups_field [] = []" by code_simp
    ultimately show ?thesis by simp
  next
    case False
    have "CHR ''!'' \<notin> set (join '','' gs)" "CHR '';'' \<notin> set (join '','' gs)"
      using no by (fastforce dest!: join_chars)+
    then have "lstrip_char CHR ''!'' (join '','' gs) = join '','' gs"
      by (cases "join '','' gs") (auto simp: lstrip_char_def lstrip_if_def)
    moreover have "map (\<lambda>x. if x = CHR '';'' then CHR '','' else x) (join '','' gs) = join '','' gs"
      by (rule map_idI) (use \<open>CHR '';'' \<notin> set (join '','' gs)\<close> in auto)
    moreover have "split_on CHR '','' (join '','' gs) = gs"
      using split_on_join [OF False, of "CHR '',''"] no(1) by blast
    moreover have "1 < length g" if "g \<in> set gs" for g using g(2) [OF that] by simp
    then have "map strip (filter (\<lambda>i. strip i \<noteq> [] \<and> 1 < length (strip i)) gs) = gs"
      using g(1) st by (subst filter_True) (auto intro: map_idI)
    ultimately show ?thesis by (simp add: parse_groups_field_def split_groups_def)
  qed
qed

lemma groups_value_facts:
  assumes "groups_fit gs" "gs \<noteq> []"
  shows "join '','' gs \<noteq> []" "\<not> looks_like_password_hash (join '','' gs)" "CHR '':'' \<notin> set (join '','' gs)"
    "no_breaks (join '','' gs)"
proof -
  have g: "g \<noteq> []" "list_all (name_chars ''_.@-'') g" if "g \<in> set gs" for g
    using that assms username_chars by (auto simp: groups_fit_def list_all_iff)
  have c: "name_chars ''_.@-'' x \<or> x = CHR '',''" if "x \<in> set (join '','' gs)" for x
    using join_chars [OF that] g(2) by (auto simp: list_all_iff)
  obtain g0 gs' where gs: "gs = g0 # gs'" using assms(2) by (cases gs) auto
  then obtain y g1 where g0: "g0 = y # g1" using g(1) by (cases g0) auto
  show ne: "join '','' gs \<noteq> []" by (simp add: gs g0 join_head)
  have hd: "hd (join '','' gs) = y" by (simp add: gs g0 join_head)
  have y: "name_chars ''_.@-'' y" using g(2) [of g0] by (simp add: gs g0)
  then have "y \<noteq> CHR ''!''" "y \<noteq> CHR ''$''" using name_char_facts(2) by auto
  with ne hd have "lstrip_char CHR ''!'' (join '','' gs) = join '','' gs" "\<not> starts_with ''$'' (join '','' gs)"
    by (cases "join '','' gs"; auto simp: lstrip_char_def lstrip_if_def starts_with_def)+
  then show "\<not> looks_like_password_hash (join '','' gs)"
    using assms(1) by (simp add: looks_like_password_hash_def Let_def groups_fit_def)
  show "CHR '':'' \<notin> set (join '','' gs)"
  proof
    assume "CHR '':'' \<in> set (join '','' gs)"
    then have "name_chars ''_.@-'' CHR '':''" using c by fastforce
    then show False using name_char_facts(2) by blast
  qed
  have "\<not> is_linebreak CHR '',''" by code_simp
  with c show "no_breaks (join '','' gs)" using linebreak_not_name unfolding no_breaks_def by blast
qed

lemma split_two: "CHR '':'' \<notin> set a \<Longrightarrow> CHR '':'' \<notin> set h \<Longrightarrow> split_on CHR '':'' (a @ CHR '':'' # h) = [a, h]"
  by (simp add: split_on_append split_on_no_sep)

text \<open>The rewrite of a current record keeps the user and hash fields and shows the new groups.\<close>

lemma regrouped_record:
  assumes "current_record l" "groups_fit gs" "no_breaks l"
  defines "l' \<equiv> render_passwd_record (parse_passwd_record l) gs"
  shows "pw_groups (parse_passwd_record l') = gs"
    "hd (pw_fields (parse_passwd_record l')) = hd (pw_fields (parse_passwd_record l))"
    "last (pw_fields (parse_passwd_record l')) = last (pw_fields (parse_passwd_record l))"
    "no_breaks l'" "CHR '':'' \<in> set l'"
proof -
  from assms(1) obtain a h where h: "hash_field h"
    and sp: "split_on CHR '':'' l = [a, h] \<or> (\<exists>g. split_on CHR '':'' l = [a, g, h])"
    by (auto simp: current_record_def split: list.splits)
  then have m: "a \<in> set (split_on CHR '':'' l)" "h \<in> set (split_on CHR '':'' l)" by auto
  from m [THEN split_on_no_sep_parts] m [THEN split_on_subset] assms(3)
  have a: "CHR '':'' \<notin> set a" "CHR '':'' \<notin> set h" and nb: "no_breaks a" "no_breaks h"
    by (auto simp: no_breaks_def)
  have colon: "no_breaks '':''" by code_simp
  have fields: "pw_fields (parse_passwd_record l) = split_on CHR '':'' l"
    by (simp add: parse_passwd_record_def Let_def)
  have l': "l' = (if gs = [] then a @ CHR '':'' # h else a @ CHR '':'' # join '','' gs @ CHR '':'' # h)"
    using sp groups_value_facts(1) [OF assms(2)]
    by (auto simp: l'_def render_passwd_record_def fields Let_def numeral_2_eq_2)
  have sp': "split_on CHR '':'' l' = (if gs = [] then [a, h] else [a, join '','' gs, h])"
    using a groups_value_facts(3) [OF assms(2)] by (simp add: l' split_on_append split_on_no_sep)
  have gf: "group_field (tl (split_on CHR '':'' l')) = (if gs = [] then [] else join '','' gs)"
    using h groups_value_facts(2) [OF assms(2)] by (auto simp: sp' group_field_def hash_field_def Let_def)
  show "pw_groups (parse_passwd_record l') = gs"
    using gf parse_joined_groups [OF assms(2)] by (auto simp: parse_passwd_record_def Let_def split: if_splits)
  show "hd (pw_fields (parse_passwd_record l')) = hd (pw_fields (parse_passwd_record l))"
    "last (pw_fields (parse_passwd_record l')) = last (pw_fields (parse_passwd_record l))"
    using sp by (auto simp: parse_passwd_record_def Let_def sp')
  show "no_breaks l'"
    using nb colon groups_value_facts(4) [OF assms(2)] by (auto simp: l' no_breaks_def)
  show "CHR '':'' \<in> set l'" by (simp add: l')
qed

text \<open>The operation, when the user has a record.\<close>

lemma set_user_groups_run:
  assumes "validate_username n = Inr n" "clean_groups groups = Inr gs" "files w (passwd_file c) = Some t"
    "list_ex (\<lambda>l. pw_username (parse_passwd_record l) = n) (read_lines_of (Some t))"
  shows "\<exists>r. set_user_groups c n groups w = (Inr r,
     snd (atomic_write_private_text (passwd_file c) (lines_text (map (regroup_line n gs) (read_lines_of (Some t)))) w))"
proof -
  have r: "read_lines (passwd_file c) w = (Inr (read_lines_of (Some t)), w)" by (simp add: read_lines_def assms(3))
  show ?thesis
    unfolding set_user_groups_def andthen_def lift_result_def assms(1,2)
    by (simp only: prod.case sum.case r assms(4) if_True atomic_write_private_text_def atomic_write_text_def ret_def snd_conv)
      (rule exI, rule refl)
qed

text \<open>Every line of the file after the rewrite.\<close>

lemma regroup_lines_no_breaks:
  assumes "\<forall>l \<in> set ls. no_breaks l" "\<forall>l \<in> set ls. pw_username (parse_passwd_record l) = n \<longrightarrow> current_record l"
    "groups_fit gs"
  shows "\<forall>l \<in> set (map (regroup_line n gs) ls). no_breaks l"
  using assms regrouped_record(4) by (auto simp: regroup_line_def Let_def)

lemma find_case:
  assumes "\<exists>x \<in> set xs. P x" "\<forall>x \<in> set xs. P x \<longrightarrow> f x = y"
  shows "(case find P xs of None \<Rightarrow> d | Some x \<Rightarrow> f x) = y"
  using assms by (induction xs) auto

text \<open>The rewritten record is listed under the same user.\<close>

lemma username_of_fields: "pw_username (parse_passwd_record l) = lstrip_char CHR ''!'' (hd (pw_fields (parse_passwd_record l)))"
  by (simp add: parse_passwd_record_def Let_def)

lemma line_of_fields: "l = join '':'' (pw_fields (parse_passwd_record l))"
  by (simp add: parse_passwd_record_def Let_def join_split)

lemma hd_of_line:
  assumes "hd (pw_fields (parse_passwd_record l)) = x # xs"
  shows "l \<noteq> [] \<and> hd l = x"
proof -
  obtain fs where "pw_fields (parse_passwd_record l) = (x # xs) # fs"
    using assms by (cases "pw_fields (parse_passwd_record l)") (auto simp: parse_passwd_record_def Let_def)
  then show ?thesis using line_of_fields [of l] by (metis join_head list.distinct(1) list.sel(1))
qed

lemma regrouped_listed:
  assumes "current_record l" "groups_fit gs" "no_breaks l" "is_passwd_line l"
    "pw_username (parse_passwd_record l) \<noteq> []"
  defines "l' \<equiv> render_passwd_record (parse_passwd_record l) gs"
  shows "is_passwd_line l'" "pw_username (parse_passwd_record l') = pw_username (parse_passwd_record l)"
proof -
  note r = regrouped_record [OF assms(1-3), folded l'_def]
  show "pw_username (parse_passwd_record l') = pw_username (parse_passwd_record l)"
    by (simp add: username_of_fields r(2))
  obtain x xs where x: "hd (pw_fields (parse_passwd_record l)) = x # xs"
    using assms(5) by (cases "hd (pw_fields (parse_passwd_record l))")
      (auto simp: username_of_fields lstrip_char_def lstrip_if_def)
  have "hd l' = hd l" "l \<noteq> []" "l' \<noteq> []" using hd_of_line [OF x] hd_of_line [of l'] r(2) x by auto
  then show "is_passwd_line l'"
    using assms(4) r(5) by (cases l; cases l') (auto simp: is_passwd_line_def starts_with_def)
qed

section \<open>The one-time password file as a keyed store\<close>

text \<open>
  The interface of a file that keeps one entry per key: storing replaces the key's entries,
  removing drops them, and nothing else about the file is observed.
\<close>

locale keyed_lines =
  fixes key_ok' :: "'k \<Rightarrow> bool"
    and value_ok :: "'v \<Rightarrow> bool"
    and put :: "'k \<Rightarrow> 'v \<Rightarrow> 'f \<Rightarrow> 'f"
    and del :: "'k \<Rightarrow> 'f \<Rightarrow> 'f"
    and get :: "'k \<Rightarrow> 'f \<Rightarrow> 'v option"
  assumes get_put: "key_ok' k \<Longrightarrow> value_ok v \<Longrightarrow> get k (put k v f) = Some v"
    and get_put_other: "key_ok' k \<Longrightarrow> value_ok v \<Longrightarrow> k' \<noteq> k \<Longrightarrow> get k' (put k v f) = get k' f"
    and get_del: "get k (del k f) = None"
    and get_del_other: "k' \<noteq> k \<Longrightarrow> get k' (del k f) = get k' f"
begin

text \<open>Any sequence of updates leaves each key with what was done to it last.\<close>

fun apply_update :: "'k \<times> 'v option \<Rightarrow> 'f \<Rightarrow> 'f" where
  "apply_update (k, None) f = del k f"
| "apply_update (k, Some v) f = put k v f"

lemma get_apply_update:
  "key_ok' k \<Longrightarrow> (\<And>v. x = Some v \<Longrightarrow> value_ok v) \<Longrightarrow> get k' (apply_update (k, x) f) = (if k' = k then x else get k' f)"
  by (cases x) (auto simp: get_put get_put_other get_del get_del_other)

lemma get_updates:
  assumes "\<forall>(k, x) \<in> set us. key_ok' k \<and> (\<forall>v. x = Some v \<longrightarrow> value_ok v)"
  shows "get k (fold apply_update us f) = (case map_of (rev us) k of None \<Rightarrow> get k f | Some x \<Rightarrow> x)"
  using assms
proof (induction us rule: rev_induct)
  case (snoc u us)
  obtain k' x where u: "u = (k', x)" by (cases u)
  with snoc.prems have "key_ok' k'" "\<And>v. x = Some v \<Longrightarrow> value_ok v" by auto
  from get_apply_update [OF this, where k' = k and f = "fold apply_update us f"] snoc u show ?case by auto
qed simp

end

definition otp_put :: "string \<Rightarrow> string \<Rightarrow> string list \<Rightarrow> string list" where
  "otp_put n secret ls = filter (\<lambda>l. \<not> otp_line_of n l) ls @ [otp_entry n secret]"

definition otp_del :: "string \<Rightarrow> string list \<Rightarrow> string list" where
  "otp_del n ls = filter (\<lambda>l. \<not> otp_line_of n l) ls"

definition otp_get :: "string \<Rightarrow> string list \<Rightarrow> string option" where
  "otp_get n ls = (case find (\<lambda>l. otp_secret_line n l \<noteq> None) ls of None \<Rightarrow> None | Some l \<Rightarrow> otp_secret_line n l)"

definition word :: "string \<Rightarrow> bool" where
  "word s = (s \<noteq> [] \<and> (\<forall>c \<in> set s. \<not> is_space c))"

lemma split_otp_entry:
  assumes "word n" "word s"
  shows "split_ws (otp_entry n s) = [''HOTP/T30/6'', n, ''-'', s]"
proof -
  have sp: "is_space CHR '' ''" and w: "\<forall>c \<in> set ''HOTP/T30/6''. \<not> is_space c" "\<forall>c \<in> set ''-''. \<not> is_space c"
    by code_simp+
  have e: "otp_entry n s = ''HOTP/T30/6'' @ CHR '' '' # (n @ CHR '' '' # (''-'' @ CHR '' '' # s))"
    by (simp add: otp_entry_def)
  have "split_ws (otp_entry n s) = ''HOTP/T30/6'' # split_ws (n @ CHR '' '' # (''-'' @ CHR '' '' # s))"
    unfolding e by (rule split_ws_cons) (use sp w in auto)
  also have "split_ws (n @ CHR '' '' # (''-'' @ CHR '' '' # s)) = n # split_ws (''-'' @ CHR '' '' # s)"
    by (rule split_ws_cons) (use assms sp in \<open>auto simp: word_def\<close>)
  also have "split_ws (''-'' @ CHR '' '' # s) = ''-'' # split_ws s"
    by (rule split_ws_cons) (use sp w in auto)
  also have "split_ws s = [s]"
    by (rule split_ws_word) (use assms in \<open>auto simp: word_def\<close>)
  finally show ?thesis .
qed

lemma otp_secret_line_name: "otp_secret_line n l = Some s \<Longrightarrow> otp_line_of m l \<longleftrightarrow> n = m"
  by (auto simp: otp_secret_line_def otp_line_of_def split: list.splits if_splits)

lemma otp_get_Nil [simp]: "otp_get n [] = None"
  and otp_get_Cons: "otp_get n (l # ls) = (case otp_secret_line n l of None \<Rightarrow> otp_get n ls | Some s \<Rightarrow> Some s)"
  by (auto simp: otp_get_def split: option.splits)

lemma otp_get_append: "otp_get n (a @ b) = (case otp_get n a of None \<Rightarrow> otp_get n b | Some s \<Rightarrow> Some s)"
  by (induction a) (auto simp: otp_get_Cons split: option.splits)

lemma otp_get_removed: "otp_get m (filter (\<lambda>l. \<not> otp_line_of n l) ls) = (if m = n then None else otp_get m ls)"
  by (induction ls) (auto simp: otp_get_Cons otp_secret_line_name split: option.splits)

interpretation otp_store: keyed_lines word word otp_put otp_del otp_get
proof unfold_locales
  fix k k' v :: string and f :: "string list"
  show "otp_get k (otp_put k v f) = Some v" if "word k" "word v"
    using split_otp_entry [OF that]
    by (simp add: otp_put_def otp_get_append otp_get_removed otp_get_Cons otp_secret_line_def)
  show "otp_get k' (otp_put k v f) = otp_get k' f" if "word k" "word v" "k' \<noteq> k"
    using split_otp_entry [OF that(1,2)] that(3)
    by (auto simp: otp_put_def otp_get_append otp_get_removed otp_get_Cons otp_secret_line_def split: option.splits)
  show "otp_get k (otp_del k f) = None" by (simp add: otp_del_def otp_get_removed)
  show "otp_get k' (otp_del k f) = otp_get k' f" if "k' \<noteq> k"
    using that by (simp add: otp_del_def otp_get_removed)
qed

end
