(* ===== verification/User_Config_Facts.thy ===== *)
theory User_Config_Facts
  imports Users Reload_Facts Routing_Facts
begin

text \<open>
  The per-user settings file: a validated configuration is accepted unchanged, and what the
  renderer writes the parser reads back, field by field, when no text carries a character that
  the file format gives a meaning to.
\<close>

section \<open>Validation is idempotent\<close>

lemma user_ip_id: "user_ip v = Inr y \<Longrightarrow> y = v"
  and user_network_id: "user_network v = Inr y \<Longrightarrow> y = v"
  by (auto simp: user_ip_def user_network_def res_bind_Inr_iff split: if_splits)

lemma user_route_id: "user_route v = Inr y \<Longrightarrow> y = v"
  by (auto simp: user_route_def user_network_def res_bind_Inr_iff split: if_splits prod.splits option.splits sum.splits)

lemma list_all2_right: "list_all2 P xs ys \<Longrightarrow> y \<in> set ys \<Longrightarrow> \<exists>x \<in> set xs. P x y"
  by (induction rule: list_all2_induct) auto

lemma user_items_members:
  assumes "user_items f xs = Inr ys" "\<And>a b. f a = Inr b \<Longrightarrow> b = a" "y \<in> set ys"
  shows "strip y = y \<and> y \<noteq> [] \<and> f y = Inr y"
proof -
  have l: "list_all2 (\<lambda>x y. f (strip x) = Inr y) (filter (\<lambda>x. strip x \<noteq> []) xs) ys"
    using assms(1) by (simp add: user_items_def res_map_Inr_iff)
  from list_all2_right [OF l assms(3)] obtain x where "strip x \<noteq> []" "f (strip x) = Inr y" by auto
  with assms(2) [of "strip x" y] show ?thesis by auto
qed

lemma user_items_idem:
  assumes "user_items f xs = Inr ys" "\<And>a b. f a = Inr b \<Longrightarrow> b = a"
  shows "user_items f ys = Inr ys"
proof -
  have m: "\<forall>y \<in> set ys. strip y = y \<and> y \<noteq> [] \<and> f y = Inr y"
    using user_items_members [OF assms] by blast
  then have "filter (\<lambda>x. strip x \<noteq> []) ys = ys" by (intro filter_True) auto
  moreover from m have "res_map (\<lambda>x. f (strip x)) ys = Inr ys"
    by (induction ys) auto
  ultimately show ?thesis by (simp add: user_items_def)
qed

lemma strip_optional_idem:
  assumes "optional f (strip_optional v) = Inr r" "\<And>a b. f a = Inr b \<Longrightarrow> b = a"
  shows "r = strip_optional v" "optional f (strip_optional r) = Inr r"
proof -
  show r: "r = strip_optional v"
    using assms by (cases "strip_optional v") (auto simp: optional_def res_bind_Inr_iff)
  have "strip_optional (strip_optional v) = strip_optional v"
    by (simp add: strip_optional_def split: option.split)
  with r assms(1) show "optional f (strip_optional r) = Inr r" by simp
qed

lemma strip_optional_value: "strip_optional v = Some s \<Longrightarrow> strip s = s \<and> s \<noteq> []"
  by (auto simp: strip_optional_def split: option.splits if_splits)

text \<open>A domain without a line break is its own normal form.\<close>

lemma domain_re_no_space:
  assumes "domain_re d" "no_breaks d"
  shows "d \<noteq> [] \<and> (\<forall>x \<in> set d. \<not> is_space x \<and> x \<noteq> CHR ''#'' \<and> x \<noteq> CHR 0x22)"
proof -
  have "LF \<notin> set d" using assms(2) by (auto simp: no_breaks_def)
  then have "re_dollar d = d" by (auto simp: re_dollar_def dest: last_in_set)
  with assms(1) have b: "drop_final_dot d \<noteq> []" "list_all plain_label (split_on CHR ''.'' (drop_final_dot d))"
    by (auto simp: domain_re_def Let_def)
  have ok: "\<not> is_space x \<and> x \<noteq> CHR ''#'' \<and> x \<noteq> CHR 0x22" if "is_alnum x \<or> x = CHR ''-'' \<or> x = CHR ''.''" for x
    using that by (auto simp: is_alnum_def is_alpha_def is_ascii_digit_def is_space_def code_def Let_def)
  have "is_alnum x \<or> x = CHR ''-'' \<or> x = CHR ''.''" if x: "x \<in> set (drop_final_dot d)" for x
  proof (cases "x = CHR ''.''")
    case False
    then obtain l where "l \<in> set (split_on CHR ''.'' (drop_final_dot d))" "x \<in> set l" using split_on_mem [OF x] by blast
    with b(2) show ?thesis by (auto simp: list_all_iff plain_label_def is_label_def)
  qed simp
  moreover have "set d \<subseteq> insert CHR ''.'' (set (drop_final_dot d))"
    by (cases d rule: rev_cases) (auto simp: drop_final_dot_def)
  ultimately show ?thesis using b(1) ok by (auto simp: drop_final_dot_def)
qed

lemma user_domain_facts:
  assumes "user_domain v = Inr d" "no_breaks d"
  shows "d \<noteq> [] \<and> strip d = d \<and> user_domain d = Inr d"
proof -
  from assms(1) have d: "d = rstrip_char CHR ''.'' (strip v)" "d \<noteq> []" "domain_re d"
    by (auto simp: user_domain_def Let_def split: if_splits)
  then have "strip d = d" using domain_re_no_space [OF d(3) assms(2)] by (intro strip_no_space) blast
  moreover have "rstrip_char CHR ''.'' d = d" using d(1) by simp
  ultimately show ?thesis using d(2,3) by (simp add: user_domain_def Let_def)
qed

lemma user_split_dns_idem:
  assumes "user_split_dns xs = Inr ys" "list_all no_breaks ys"
  shows "user_split_dns ys = Inr ys \<and> (\<forall>y \<in> set ys. y \<noteq> [] \<and> strip y = y)"
proof -
  have l: "list_all2 (\<lambda>x y. user_domain x = Inr y) (filter (\<lambda>x. strip x \<noteq> []) xs) ys"
    using assms(1) by (simp add: user_split_dns_def res_map_Inr_iff)
  have "\<exists>x. user_domain x = Inr y" if "y \<in> set ys" for y
    using list_all2_right [OF l that] by blast
  with assms(2) have m: "\<forall>y \<in> set ys. y \<noteq> [] \<and> strip y = y \<and> user_domain y = Inr y"
    using user_domain_facts by (auto simp: list_all_iff)
  then have "filter (\<lambda>x. strip x \<noteq> []) ys = ys" by (intro filter_True) auto
  moreover from m have "res_map user_domain ys = Inr ys" by (induction ys) auto
  ultimately show ?thesis using m by (simp add: user_split_dns_def)
qed

section \<open>Lines\<close>

text \<open>A text the file format leaves alone.\<close>

definition plain_text :: "string \<Rightarrow> bool" where
  "plain_text v = (no_breaks v \<and> CHR ''#'' \<notin> set v \<and> CHR 0x22 \<notin> set v)"

definition file_key :: "string \<Rightarrow> bool" where
  "file_key k = (key_ok k \<and> CHR ''#'' \<notin> set k)"

lemma strip_key_space: "key_ok k \<Longrightarrow> strip (k @ '' '') = k"
proof -
  assume k: "key_ok k"
  have sp: "is_space CHR '' ''" by code_simp
  have "strip (k @ '' '') = rstrip_if is_space (k @ '' '')"
    using k by (simp add: strip_def strip_if_def lstrip_if_def lstrip_head key_ok_def)
  also have "\<dots> = k" using k sp by (simp add: rstrip_if_idle key_ok_def)
  finally show ?thesis .
qed

lemma cut_absent_all: "c \<notin> set s \<Longrightarrow> cut c s = (s, None)"
  by (rule cut_absent)

lemma user_setting_line:
  assumes "file_key k" "plain_text v" "strip v = v" "v \<noteq> []"
  shows "user_setting (setting k v) = Some (k, v)"
proof -
  have k: "key_ok k" "CHR ''#'' \<notin> set k" "k \<noteq> []" "CHR ''='' \<notin> set k"
    using assms(1) by (auto simp: file_key_def key_ok_def)
  have "CHR ''#'' \<notin> set (setting k v)"
    using k(2) assms(2) by (auto simp: setting_def plain_text_def)
  then have c: "cut CHR ''#'' (setting k v) = (setting k v, None)" by (rule cut_absent)
  obtain v' where v': "strip (setting k v) = k @ '' ='' @ v'" "strip v' = strip v" using strip_setting [OF k(1)] by blast
  have e: "cut CHR ''='' (k @ '' ='' @ v') = (k @ '' '', Some v')"
    using cut_append [of "CHR ''=''" "k @ '' ''" v'] k(4) by simp
  have "hd v \<in> set v" "last v \<in> set v" using assms(4) by simp_all
  then have "strip_if (\<lambda>c. c = CHR 0x22) v = v"
    using assms(2) by (intro strip_if_idle) (auto simp: plain_text_def)
  with c e v' k(1,3) assms(3) show ?thesis
    by (simp add: user_setting_def strip_key_space)
qed

lemma user_setting_header: "user_setting user_config_header = None"
  by (simp add: user_setting_def user_config_header_def cut_def)

section \<open>Round trip\<close>

text \<open>All the texts of a configuration are plain.\<close>

definition plain_user_config :: "user_config \<Rightarrow> bool" where
  "plain_user_config u =
     (list_all (\<lambda>(_, get, _). list_all plain_text (get u)) user_lists
      \<and> list_all (\<lambda>(_, f). case f of Text_field get _ \<Rightarrow> (case get u of None \<Rightarrow> True | Some v \<Rightarrow> plain_text v)
          | Int_field _ _ \<Rightarrow> True) user_scalars)"

text \<open>A value that survives a line: what the validators leave in a field.\<close>

definition line_value :: "string \<Rightarrow> bool" where
  "line_value v = (plain_text v \<and> strip v = v \<and> v \<noteq> [])"

lemma parse_setting: "file_key k \<Longrightarrow> line_value v \<Longrightarrow> parse_user_line u (setting k v) = store_setting (k, v) u"
  by (simp add: parse_user_line_def line_value_def user_setting_line)

lemma line_value_int: "line_value (show_int n)"
proof -
  have "x \<in> set (show_int n) \<Longrightarrow> is_ascii_digit x \<or> x = CHR ''-''" for x
    by (auto simp: show_int_def split: if_splits dest: show_nat_ascii)
  moreover have "\<not> is_linebreak x \<and> x \<noteq> CHR ''#'' \<and> x \<noteq> CHR 0x22" if "is_ascii_digit x \<or> x = CHR ''-''" for x
    using that by (auto simp: is_ascii_digit_def is_linebreak_def code_def Let_def)
  ultimately show ?thesis
    by (simp add: line_value_def plain_text_def no_breaks_def) blast
qed

lemma user_keys: "list_all (\<lambda>x. file_key (fst x)) user_lists" "list_all (\<lambda>x. file_key (fst x)) user_scalars"
  "list_all (\<lambda>x. file_key (fst x)) user_booleans"
  by code_simp+

lemma fold_list_lines:
  assumes "file_key k" "list_all line_value vs" "\<And>v u. store_setting (k, v) u = upd (\<lambda>xs. xs @ [v]) u"
    "\<And>f g u. upd f (upd g u) = upd (f \<circ> g) u" "\<And>u. upd (\<lambda>xs. xs) u = u"
  shows "foldl parse_user_line u (map (setting k) vs) = upd (\<lambda>xs. xs @ vs) u"
  using assms(2)
proof (induction vs arbitrary: u)
  case Nil
  then show ?case by (simp add: assms(5))
next
  case (Cons v vs)
  then show ?case by (simp add: parse_setting [OF assms(1)] assms(3,4) comp_def)
qed

definition store_opt :: "(('a option \<Rightarrow> 'a option) \<Rightarrow> user_config \<Rightarrow> user_config) \<Rightarrow> 'a option \<Rightarrow> user_config \<Rightarrow> user_config" where
  "store_opt upd v u = (case v of None \<Rightarrow> u | Some x \<Rightarrow> upd (\<lambda>_. Some x) u)"

lemma store_opt_blank: "upd (\<lambda>_. None) u = u \<Longrightarrow> store_opt upd v u = upd (\<lambda>_. v) u"
  by (cases v) (simp_all add: store_opt_def)

lemma fold_text_line:
  assumes "file_key k" "\<And>v u. store_setting (k, v) u = upd (\<lambda>_. Some v) u"
    "case get c of None \<Rightarrow> True | Some v \<Rightarrow> line_value v"
  shows "foldl parse_user_line u (scalar_line c (k, Text_field get upd))
    = store_opt upd (get c) u"
  using assms by (cases "get c") (simp_all add: scalar_line_def parse_setting store_opt_def)

lemma fold_int_line:
  assumes "file_key k" "\<And>v u. store_setting (k, v) u = upd (\<lambda>_. user_parse_int v) u"
  shows "foldl parse_user_line u (scalar_line c (k, Int_field get upd))
    = store_opt upd (get c) u"
  using assms
  by (cases "get c") (simp_all add: scalar_line_def parse_setting line_value_int user_parse_int_def store_opt_def)

lemma bool_texts: "line_value ''true''" "line_value ''false''"
  "user_parse_bool ''true'' = Some True" "user_parse_bool ''false'' = Some False"
  by code_simp+

lemma fold_bool_line:
  assumes "file_key k" "\<And>v u. store_setting (k, v) u = upd (\<lambda>_. user_parse_bool v) u"
  shows "foldl parse_user_line u (case b of None \<Rightarrow> [] | Some b \<Rightarrow> [setting k (if b then ''true'' else ''false'')])
    = store_opt upd b u"
  using assms bool_texts by (cases b) (simp_all add: parse_setting store_opt_def)

text \<open>The tables agree with the parser: a key of a table stores into the table's field.\<close>

lemma store_list: "(k, get, upd) \<in> set user_lists \<Longrightarrow> store_setting (k, v) u = upd (\<lambda>xs. xs @ [v]) u"
  by (auto simp: store_setting_def user_lists_def)

lemma table_keys_apart:
  "set (map fst user_lists) \<inter> set (map fst user_scalars) = {}" "set (map fst user_lists) \<inter> set (map fst user_booleans) = {}"
  "set (map fst user_scalars) \<inter> set (map fst user_booleans) = {}" "distinct (map fst user_scalars)" "distinct (map fst user_booleans)"
  by code_simp+

lemma other_table: "(k, x) \<in> set t \<Longrightarrow> set (map fst t') \<inter> set (map fst t) = {} \<Longrightarrow> map_of t' k = None"
  by (force simp: map_of_eq_None_iff)

lemma store_bool:
  assumes "(k, get, upd) \<in> set user_booleans"
  shows "store_setting (k, v) u = upd (\<lambda>_. user_parse_bool v) u"
  using other_table [OF assms table_keys_apart(2)] map_of_is_SomeI [OF table_keys_apart(5) assms]
  by (simp add: store_setting_def)

lemma store_scalar: "(k, f) \<in> set user_scalars \<Longrightarrow> store_setting (k, v) u =
    (case f of Text_field _ upd \<Rightarrow> upd (\<lambda>_. Some v) u | Int_field _ upd \<Rightarrow> upd (\<lambda>_. user_parse_int v) u)"
  using other_table [of k f user_scalars user_lists] other_table [of k f user_scalars user_booleans]
    map_of_is_SomeI [OF table_keys_apart(4), of k f] table_keys_apart(1,3)
  by (simp add: store_setting_def Int_commute split: scalar_field.split)

lemma list_update_laws: "(k, get, upd) \<in> set user_lists \<Longrightarrow>
    upd f (upd g u) = upd (f \<circ> g) u \<and> upd (\<lambda>xs. xs) u = u"
  by (auto simp: user_lists_def comp_def)

lemma fold_lists_table:
  "set tbl \<subseteq> set user_lists \<Longrightarrow> list_all (\<lambda>(_, get, _). list_all line_value (get c)) tbl \<Longrightarrow>
   foldl parse_user_line u (concat (map (\<lambda>(k, get, _). map (setting k) (get c)) tbl))
     = foldl (\<lambda>u (_, get, upd). upd (\<lambda>xs. xs @ get c) u) u tbl"
proof (induction tbl arbitrary: u)
  case (Cons x tbl)
  obtain k get upd where x: "x = (k, get, upd)" by (cases x) auto
  with Cons.prems have m: "(k, get, upd) \<in> set user_lists" "list_all line_value (get c)" by auto
  then have "file_key k" using user_keys(1) by (force simp: list_all_iff)
  then have "foldl parse_user_line u (map (setting k) (get c)) = upd (\<lambda>xs. xs @ get c) u"
    by (rule fold_list_lines [where upd = upd]) (use m list_update_laws [OF m(1)] store_list [OF m(1)] in simp_all)
  with Cons x show ?case by simp
qed simp

lemma fold_scalars_table:
  "set tbl \<subseteq> set user_scalars \<Longrightarrow> list_all (\<lambda>(_, f). case f of
       Text_field get _ \<Rightarrow> (case get c of None \<Rightarrow> True | Some v \<Rightarrow> line_value v) | Int_field _ _ \<Rightarrow> True) tbl \<Longrightarrow>
   foldl parse_user_line u (concat (map (scalar_line c) tbl))
     = foldl (\<lambda>u (_, f). case f of
         Text_field get upd \<Rightarrow> store_opt upd (get c) u
       | Int_field get upd \<Rightarrow> store_opt upd (get c) u) u tbl"
proof (induction tbl arbitrary: u)
  case (Cons x tbl)
  obtain k f where x: "x = (k, f)" by (cases x) auto
  with Cons.prems have m: "(k, f) \<in> set user_scalars" by auto
  then have k: "file_key k" using user_keys(2) by (force simp: list_all_iff)
  show ?case
  proof (cases f)
    case (Text_field get upd)
    with Cons.prems x have "case get c of None \<Rightarrow> True | Some v \<Rightarrow> line_value v" by simp
    with k have "foldl parse_user_line u (scalar_line c (k, Text_field get upd))
        = store_opt upd (get c) u"
      by (intro fold_text_line) (use store_scalar [OF m] Text_field in simp_all)
    with Cons x Text_field show ?thesis by simp
  next
    case (Int_field get upd)
    with k have "foldl parse_user_line u (scalar_line c (k, Int_field get upd))
        = store_opt upd (get c) u"
      by (intro fold_int_line) (use store_scalar [OF m] in simp_all)
    with Cons x Int_field show ?thesis by simp
  qed
qed simp

lemma fold_booleans_table:
  "set tbl \<subseteq> set user_booleans \<Longrightarrow>
   foldl parse_user_line u (concat (map (\<lambda>(k, get, _). case get c of None \<Rightarrow> []
       | Some b \<Rightarrow> [setting k (if b then ''true'' else ''false'')]) tbl))
     = foldl (\<lambda>u (_, get, upd). store_opt upd (get c) u) u tbl"
proof (induction tbl arbitrary: u)
  case (Cons x tbl)
  obtain k get upd where x: "x = (k, get, upd)" by (cases x) auto
  with Cons.prems have m: "(k, get, upd) \<in> set user_booleans" by auto
  then have "file_key k" using user_keys(3) by (force simp: list_all_iff)
  then have "foldl parse_user_line u (case get c of None \<Rightarrow> []
       | Some b \<Rightarrow> [setting k (if b then ''true'' else ''false'')])
     = store_opt upd (get c) u"
    by (rule fold_bool_line) (rule store_bool [OF m])
  with Cons x show ?case by simp
qed simp

text \<open>Storing every field of a configuration into the empty one gives it back.\<close>

definition ready :: "user_config \<Rightarrow> bool" where
  "ready c = (list_all (\<lambda>(_, get, _). list_all line_value (get c)) user_lists
     \<and> list_all (\<lambda>(_, f). case f of Text_field get _ \<Rightarrow> (case get c of None \<Rightarrow> True | Some v \<Rightarrow> line_value v)
         | Int_field _ _ \<Rightarrow> True) user_scalars)"

lemma stored_fields:
  "foldl (\<lambda>u (_, get, upd). store_opt upd (get c) u)
     (foldl (\<lambda>u (_, f). case f of Text_field get upd \<Rightarrow> store_opt upd (get c) u
        | Int_field get upd \<Rightarrow> store_opt upd (get c) u)
       (foldl (\<lambda>u (_, get, upd). upd (\<lambda>xs. xs @ get c) u) empty_user_config user_lists) user_scalars) user_booleans = c"
  by (cases c) (simp add: user_lists_def user_scalars_def user_booleans_def empty_user_config_def store_opt_blank)

lemma parsed_lines:
  assumes "ready c"
  shows "foldl parse_user_line empty_user_config (user_config_lines c) = c"
proof -
  have h: "parse_user_line u user_config_header = u" for u
    by (simp add: parse_user_line_def user_setting_header)
  show ?thesis
    using assms fold_lists_table [of user_lists c empty_user_config] fold_scalars_table [of user_scalars c]
      fold_booleans_table [of user_booleans _ c] stored_fields [of c]
    by (simp add: user_config_lines_def h ready_def)
qed

text \<open>What the validators accept is ready, if it is plain.\<close>

lemma check_user_config_parts:
  assumes "check_user_config u = Inr v"
  shows "user_items user_ip (uc_dns u) = Inr (uc_dns v)" "user_items user_ip (uc_nbns u) = Inr (uc_nbns v)"
    "user_split_dns (uc_split_dns u) = Inr (uc_split_dns v)" "user_items user_route (uc_routes u) = Inr (uc_routes v)"
    "user_items user_route (uc_no_routes u) = Inr (uc_no_routes v)" "user_items user_route (uc_iroutes u) = Inr (uc_iroutes v)"
    "optional_network (uc_ipv4_network u) = Inr (uc_ipv4_network v)" "optional_network (uc_ipv6_network u) = Inr (uc_ipv6_network v)"
    "optional_address 4 (uc_ipv4_netmask u) = Inr (uc_ipv4_netmask v)" "optional_address 4 (uc_explicit_ipv4 u) = Inr (uc_explicit_ipv4 v)"
    "optional_address 6 (uc_explicit_ipv6 u) = Inr (uc_explicit_ipv6 v)" "net_priority_ok (uc_net_priority u) = Inr (uc_net_priority v)"
    "port_rules_ok (uc_restrict_user_to_ports u) = Inr (uc_restrict_user_to_ports v)" "hostname_ok (uc_hostname u) = Inr (uc_hostname v)"
    "check_user_numbers v = Inr ()" "validate_ipv4_pair v = Inr v"
  using assms by (auto simp: check_user_config_def res_bind_Inr_iff validate_ipv4_pair_def check_user_numbers_def split: if_splits)

lemma check_user_configI:
  assumes "user_items user_ip (uc_dns v) = Inr (uc_dns v)" "user_items user_ip (uc_nbns v) = Inr (uc_nbns v)"
    "user_split_dns (uc_split_dns v) = Inr (uc_split_dns v)" "user_items user_route (uc_routes v) = Inr (uc_routes v)"
    "user_items user_route (uc_no_routes v) = Inr (uc_no_routes v)" "user_items user_route (uc_iroutes v) = Inr (uc_iroutes v)"
    "optional_network (uc_ipv4_network v) = Inr (uc_ipv4_network v)" "optional_network (uc_ipv6_network v) = Inr (uc_ipv6_network v)"
    "optional_address 4 (uc_ipv4_netmask v) = Inr (uc_ipv4_netmask v)" "optional_address 4 (uc_explicit_ipv4 v) = Inr (uc_explicit_ipv4 v)"
    "optional_address 6 (uc_explicit_ipv6 v) = Inr (uc_explicit_ipv6 v)" "net_priority_ok (uc_net_priority v) = Inr (uc_net_priority v)"
    "port_rules_ok (uc_restrict_user_to_ports v) = Inr (uc_restrict_user_to_ports v)" "hostname_ok (uc_hostname v) = Inr (uc_hostname v)"
    "check_user_numbers v = Inr ()" "validate_ipv4_pair v = Inr v"
  shows "check_user_config v = Inr v"
  using assms by (simp add: check_user_config_def)

lemmas optional_checks = optional_network_def optional_address_def net_priority_ok_def port_rules_ok_def hostname_ok_def

lemma optional_check_facts:
  "optional_network x = Inr y \<Longrightarrow> y = strip_optional x \<and> optional_network y = Inr y"
  "optional_address n x = Inr y \<Longrightarrow> y = strip_optional x \<and> optional_address n y = Inr y"
  "net_priority_ok x = Inr y \<Longrightarrow> y = strip_optional x \<and> net_priority_ok y = Inr y"
  "port_rules_ok x = Inr y \<Longrightarrow> y = strip_optional x \<and> port_rules_ok y = Inr y"
  "hostname_ok x = Inr y \<Longrightarrow> y = strip_optional x \<and> hostname_ok y = Inr y"
  unfolding optional_checks
  by (rule conjI; erule strip_optional_idem;
      auto simp: user_network_def res_bind_Inr_iff split: option.splits if_splits)+

lemma checked_again:
  assumes "check_user_config u = Inr v" "list_all no_breaks (uc_split_dns v)"
  shows "check_user_config v = Inr v"
proof -
  note parts = check_user_config_parts [OF assms(1)]
  have ips: "user_items user_ip ys = Inr ys" if "user_items user_ip xs = Inr ys" for xs ys
    by (rule user_items_idem [OF that]) (rule user_ip_id)
  have routes: "user_items user_route ys = Inr ys" if "user_items user_route xs = Inr ys" for xs ys
    by (rule user_items_idem [OF that]) (rule user_route_id)
  note again = optional_check_facts [THEN conjunct2]
  show ?thesis
    by (intro check_user_configI ips [OF parts(1)] ips [OF parts(2)] routes [OF parts(4)] routes [OF parts(5)]
        routes [OF parts(6)] conjunct1 [OF user_split_dns_idem [OF parts(3) assms(2)]] again(1) [OF parts(7)]
        again(1) [OF parts(8)] again(2) [OF parts(9)] again(2) [OF parts(10)] again(2) [OF parts(11)]
        again(3) [OF parts(12)] again(4) [OF parts(13)] again(5) [OF parts(14)] parts(15,16))
qed

lemma checked_ready:
  assumes "check_user_config u = Inr v" "plain_user_config v"
  shows "ready v"
proof -
  note parts = check_user_config_parts [OF assms(1)]
  have p: "list_all plain_text (uc_dns v)" "list_all plain_text (uc_nbns v)" "list_all plain_text (uc_split_dns v)"
    "list_all plain_text (uc_routes v)" "list_all plain_text (uc_no_routes v)" "list_all plain_text (uc_iroutes v)"
    using assms(2) by (simp_all add: plain_user_config_def user_lists_def)
  have ips: "list_all line_value ys" if "user_items user_ip xs = Inr ys" "list_all plain_text ys" for xs ys
    using user_items_members [OF that(1) user_ip_id] that(2) by (auto simp: list_all_iff line_value_def)
  have routes: "list_all line_value ys" if "user_items user_route xs = Inr ys" "list_all plain_text ys" for xs ys
    using user_items_members [OF that(1) user_route_id] that(2) by (auto simp: list_all_iff line_value_def)
  have "list_all no_breaks (uc_split_dns v)" using p(3) by (auto simp: list_all_iff plain_text_def)
  from user_split_dns_idem [OF parts(3) this] p(3) have domains: "list_all line_value (uc_split_dns v)"
    by (auto simp: list_all_iff line_value_def)
  have field: "case x of None \<Rightarrow> True | Some t \<Rightarrow> line_value t"
    if "x = strip_optional y" "case x of None \<Rightarrow> True | Some t \<Rightarrow> plain_text t" for x y
    using that strip_optional_value [of y] by (auto simp: line_value_def split: option.splits)
  have plain: "case uc_ipv4_network v of None \<Rightarrow> True | Some t \<Rightarrow> plain_text t"
    "case uc_ipv6_network v of None \<Rightarrow> True | Some t \<Rightarrow> plain_text t"
    "case uc_ipv4_netmask v of None \<Rightarrow> True | Some t \<Rightarrow> plain_text t"
    "case uc_explicit_ipv4 v of None \<Rightarrow> True | Some t \<Rightarrow> plain_text t"
    "case uc_explicit_ipv6 v of None \<Rightarrow> True | Some t \<Rightarrow> plain_text t"
    "case uc_net_priority v of None \<Rightarrow> True | Some t \<Rightarrow> plain_text t"
    "case uc_restrict_user_to_ports v of None \<Rightarrow> True | Some t \<Rightarrow> plain_text t"
    "case uc_hostname v of None \<Rightarrow> True | Some t \<Rightarrow> plain_text t"
    using assms(2) by (simp_all add: plain_user_config_def user_scalars_def)
  note stripped = optional_check_facts [THEN conjunct1]
  note fields = field [OF stripped(1) [OF parts(7)] plain(1)] field [OF stripped(1) [OF parts(8)] plain(2)]
    field [OF stripped(2) [OF parts(9)] plain(3)] field [OF stripped(2) [OF parts(10)] plain(4)]
    field [OF stripped(2) [OF parts(11)] plain(5)] field [OF stripped(3) [OF parts(12)] plain(6)]
    field [OF stripped(4) [OF parts(13)] plain(7)] field [OF stripped(5) [OF parts(14)] plain(8)]
  show ?thesis
    using ips [OF parts(1) p(1)] ips [OF parts(2) p(2)] domains routes [OF parts(4) p(4)] routes [OF parts(5) p(5)]
      routes [OF parts(6) p(6)]
    by (simp add: ready_def user_lists_def user_scalars_def fields)
qed

text \<open>The rendered lines hold no line break, so the file splits back into them.\<close>

lemma no_breaks_setting_line: "no_breaks k \<Longrightarrow> no_breaks v \<Longrightarrow> no_breaks (setting k v)"
  by (auto simp: setting_def no_breaks_def is_linebreak_def code_def Let_def)

lemma user_keys_no_breaks: "list_all (\<lambda>x. no_breaks (fst x)) user_lists" "list_all (\<lambda>x. no_breaks (fst x)) user_scalars"
  "list_all (\<lambda>x. no_breaks (fst x)) user_booleans" "no_breaks user_config_header" "no_breaks ''true''" "no_breaks ''false''"
  by (simp_all add: user_lists_def user_scalars_def user_booleans_def user_config_header_def no_breaks_def
      is_linebreak_def code_def)

lemma line_value_no_breaks: "line_value v \<Longrightarrow> no_breaks v"
  by (simp add: line_value_def plain_text_def)

lemma ready_lines:
  assumes "ready c" "l \<in> set (user_config_lines c)"
  shows "no_breaks l"
proof -
  consider "l = user_config_header"
    | k get upd v where "(k, get, upd) \<in> set user_lists" "v \<in> set (get c)" "l = setting k v"
    | k f where "(k, f) \<in> set user_scalars" "l \<in> set (scalar_line c (k, f))"
    | k get upd b where "(k, get, upd) \<in> set user_booleans" "l = setting k (if b then ''true'' else ''false'')"
    using assms(2) by (fastforce simp: user_config_lines_def split: option.splits)
  then show ?thesis
  proof cases
    case 1
    then show ?thesis by (simp add: user_keys_no_breaks)
  next
    case 2
    with assms(1) have "line_value v" by (fastforce simp: ready_def list_all_iff)
    moreover have "no_breaks k" using 2(1) user_keys_no_breaks(1) by (fastforce simp: list_all_iff)
    ultimately show ?thesis using 2(3) by (simp add: no_breaks_setting_line line_value_no_breaks)
  next
    case 3
    have k: "no_breaks k" using 3(1) user_keys_no_breaks(2) by (fastforce simp: list_all_iff)
    have f: "case f of Text_field get _ \<Rightarrow> (case get c of None \<Rightarrow> True | Some v \<Rightarrow> line_value v) | Int_field _ _ \<Rightarrow> True"
      using 3(1) assms(1) by (fastforce simp: ready_def list_all_iff)
    with k 3(2) show ?thesis
      by (auto simp: scalar_line_def no_breaks_setting_line line_value_no_breaks line_value_int
          split: scalar_field.splits option.splits)
  next
    case 4
    have "no_breaks k" using 4(1) user_keys_no_breaks(3) by (fastforce simp: list_all_iff)
    with 4(2) user_keys_no_breaks show ?thesis by (simp add: no_breaks_setting_line)
  qed
qed

lemma parse_rendered:
  assumes "ready c" "files w p = Some (render_user_config c)"
  shows "parse_user_config_file p w = c"
proof -
  have ne: "user_config_lines c \<noteq> []" by (simp add: user_config_lines_def)
  have nb: "\<forall>l \<in> set (user_config_lines c). no_breaks l" using ready_lines [OF assms(1)] by blast
  have "CR \<notin> set (render_user_config c)"
    using nb set_join [of "[LF]" "user_config_lines c"] CR_not_no_breaks by (auto simp: render_user_config_def)
  then have "read_lines_of (files w p) = user_config_lines c"
    using assms(2) splitlines_join_lines [OF nb ne] by (simp add: read_lines_of_def read_text_def render_user_config_def)
  then show ?thesis by (simp add: parse_user_config_file_def parsed_lines [OF assms(1)])
qed

end
