(* ===== verification/User_Groups.thy ===== *)
theory User_Groups
  imports Users Internal_Dns
begin

text \<open>
  \<open>services/groups.py\<close>: per-group ocserv settings, kept in the same format as the per-user
  ones. The names a directory listing yields are an argument.
\<close>

record group_record =
  gr_name :: string
  gr_config_exists :: bool
  gr_has_settings :: bool

definition group_config_dir :: "app_config \<Rightarrow> string" where
  "group_config_dir c = (case config_per_group_dir (app_identity c) of
     Some d \<Rightarrow> d | None \<Rightarrow> path_join (generated_dir (app_system c)) ''config-per-group'')"

definition group_config_path :: "app_config \<Rightarrow> string \<Rightarrow> string result" where
  "group_config_path c n = (if username_re n then Inr (path_join (group_config_dir c) n) else Inl ValueError)"

definition read_group_config :: "app_config \<Rightarrow> string \<Rightarrow> world \<Rightarrow> user_config result" where
  "read_group_config c n w = res_bind (group_config_path c n) (\<lambda>p. check_user_config (parse_user_config_file p w))"

definition group_record_of :: "app_config \<Rightarrow> world \<Rightarrow> string \<Rightarrow> group_record result" where
  "group_record_of c w n =
     res_bind (group_config_path c n) (\<lambda>p.
     if files w p = None then Inr \<lparr>gr_name = n, gr_config_exists = False, gr_has_settings = False\<rparr>
     else res_bind (read_group_config c n w) (\<lambda>u.
       Inr \<lparr>gr_name = n, gr_config_exists = True, gr_has_settings = (\<not> user_config_is_empty u)\<rparr>))"

definition list_groups :: "(world \<Rightarrow> string \<Rightarrow> string list) \<Rightarrow> app_config \<Rightarrow> world \<Rightarrow> group_record list result" where
  "list_groups listing c w = (let names = map gp_name (group_policies (app_identity c))
       @ filter (\<lambda>n. \<not> starts_with ''.'' n) (listing w (group_config_dir c)) in
     res_map (group_record_of c w) (sorted_strings (remdups names)))"

definition save_group_config :: "app_config \<Rightarrow> string \<Rightarrow> user_config \<Rightarrow> (world, command_result) action" where
  "save_group_config c n u =
     andthen (lift_result (group_config_path c n)) (\<lambda>p.
     andthen (atomic_write_private_text p (render_user_config u)) (\<lambda>_.
     ret (korctl_result [''korctl'', ''identity'', ''group'', ''config'', ''save'', n] (''written '' @ p @ [LF]))))"

definition delete_group_config :: "app_config \<Rightarrow> string \<Rightarrow> (world, bool) action" where
  "delete_group_config c n =
     andthen (lift_result (group_config_path c n)) (\<lambda>p.
     andthen current (\<lambda>w. if files w p = None then ret False else andthen (unlink p) (\<lambda>_. ret True)))"

end
