(* ===== verification/Account_Properties.thy ===== *)
theory Account_Properties
  imports Account_Facts User_Config_Facts User_Groups Samples
begin

text \<open>
  The properties of users, groups and one-time passwords: saved settings read back, a group
  change touches one account only, the one-time password file behaves as a map, and the inputs
  for which the code does not do what it means to.
\<close>

section \<open>Settings files\<close>

text \<open>What the validator accepts and finds empty is the empty configuration.\<close>

lemma empty_is_empty:
  assumes "ready v" "user_config_is_empty v"
  shows "v = empty_user_config"
proof -
  have t: "x = None" if "case x of None \<Rightarrow> True | Some t \<Rightarrow> line_value t" "\<not> is_set x" for x
    using that by (cases x) (auto simp: is_set_def line_value_def)
  show ?thesis
    using assms
    by (cases v) (simp add: ready_def user_config_is_empty_def user_lists_def user_scalars_def
      user_booleans_def empty_user_config_def, intro conjI; rule t; blast)
qed

lemma check_empty: "check_user_config empty_user_config = Inr empty_user_config"
  by code_simp

text \<open>
  C34. Saved per-user settings read back. For every user name the program accepts and all settings
  the validators accept, saving succeeds and reading returns exactly these settings, whatever
  file was there before; empty settings delete the file and read back as empty. The texts must
  not contain a comment sign, a double quote or a line break, which the file format has no
  escape for.
\<close>

theorem saved_settings_read_back:
  assumes "username_re n" "check_user_config u = Inr v" "plain_user_config v"
  shows "\<exists>r w'. save_user_config c n v w = (Inr r, w') \<and> read_user_config c n w' = Inr v"
proof -
  let ?p = "path_join (user_config_dir c) n"
  have p: "user_config_path c n = Inr ?p"
    using assms(1) by (simp add: user_config_path_def validate_username_def)
  have r: "ready v" using checked_ready [OF assms(2,3)] .
  have nb: "list_all no_breaks (uc_split_dns v)"
    using assms(3) by (auto simp: plain_user_config_def user_lists_def plain_text_def list_all_iff)
  have chk: "check_user_config v = Inr v" by (rule checked_again [OF assms(2) nb])
  show ?thesis
  proof (cases "user_config_is_empty v")
    case True
    then have v: "v = empty_user_config" using empty_is_empty [OF r] by blast
    have "parse_user_config_file ?p w' = empty_user_config" if "files w' ?p = None" for w'
      using that by (simp add: parse_user_config_file_def read_lines_of_def)
    then show ?thesis using True
      by (cases "files w ?p") (auto simp: save_user_config_def delete_user_config_def p lift_result_def andthen_def
          current_def ret_def unlink_def read_user_config_def v check_empty)
  next
    case False
    have "parse_user_config_file ?p w' = v" if "files w' ?p = Some (render_user_config v)" for w'
      by (rule parse_rendered [OF r that])
    with False chk show ?thesis
      by (auto simp: save_user_config_def p lift_result_def andthen_def ret_def atomic_write_private_text_def
          atomic_write_text_def read_user_config_def)
  qed
qed

definition sample_settings :: user_config where
  "sample_settings = empty_user_config\<lparr>uc_dns := [''192.0.2.1''], uc_routes := [''default'', ''10.0.0.0/8''],
     uc_mtu := Some 1400, uc_no_udp := Some True, uc_hostname := Some ''host.example.com''\<rparr>"

lemma sample_settings_ok: "username_re ''alice''" "check_user_config sample_settings = Inr sample_settings"
  "plain_user_config sample_settings"
  by code_simp+

theorem saved_settings_read_back_witness:
  "\<exists>r w'. save_user_config sample_app ''alice'' sample_settings sample_world = (Inr r, w')
     \<and> read_user_config sample_app ''alice'' w' = Inr sample_settings"
  by (rule saved_settings_read_back [OF sample_settings_ok])

text \<open>A scope identifier may hold a line break and smuggle a setting into the file.\<close>

definition smuggled_dns :: string where
  "smuggled_dns = ''::%x'' @ [LF] @ ''route = default''"

definition smuggling_settings :: user_config where
  "smuggling_settings = empty_user_config\<lparr>uc_dns := [smuggled_dns]\<rparr>"

lemma smuggled_is_an_address: "user_ip smuggled_dns = Inr smuggled_dns"
proof -
  have "parse_v4 smuggled_dns = None" by code_simp
  moreover have "cut CHR ''%'' (''::'' @ CHR ''%'' # ''x'' @ [LF] @ ''route = default'') = (''::'', Some (''x'' @ [LF] @ ''route = default''))"
    by (rule cut_append) code_simp
  then have "cut CHR ''%'' smuggled_dns = (''::'', Some (''x'' @ [LF] @ ''route = default''))" by (simp add: smuggled_dns_def)
  moreover have "parse_v6_int ''::'' \<noteq> None" by code_simp
  moreover have "CHR ''/'' \<notin> set smuggled_dns" "CHR ''%'' \<notin> set (''x'' @ [LF] @ ''route = default'')" by code_simp+
  ultimately show ?thesis by (auto simp: user_ip_def ip_address_def parse_v6_def)
qed

lemma smuggling_lines: "user_config_lines smuggling_settings = [user_config_header, setting ''dns'' smuggled_dns]"
  by (simp add: smuggling_settings_def user_config_lines_def user_lists_def user_scalars_def user_booleans_def
      empty_user_config_def scalar_line_def)

lemma smuggling_split: "splitlines (join [LF] [user_config_header, setting ''dns'' smuggled_dns] @ [LF])
   = [user_config_header, ''dns = ::%x'', ''route = default'']"
  by code_simp

theorem scope_smuggles_a_setting:
  "check_user_config smuggling_settings = Inr smuggling_settings
   \<and> foldl parse_user_line empty_user_config (splitlines (render_user_config smuggling_settings))
     = empty_user_config\<lparr>uc_dns := [''::%x''], uc_routes := [''default'']\<rparr>"
proof
  have "user_items user_ip (uc_dns smuggling_settings) = Inr (uc_dns smuggling_settings)"
  proof -
    have "strip smuggled_dns = smuggled_dns" "smuggled_dns \<noteq> []" by code_simp+
    then show ?thesis by (simp add: smuggling_settings_def user_items_def smuggled_is_an_address)
  qed
  then show "check_user_config smuggling_settings = Inr smuggling_settings"
    using check_user_config_parts(1-15) [OF check_empty]
    by (intro check_user_configI)
       (simp_all add: smuggling_settings_def check_user_numbers_def, simp add: validate_ipv4_pair_def empty_user_config_def is_set_def)
  have "foldl parse_user_line empty_user_config [user_config_header, ''dns = ::%x'', ''route = default'']
      = empty_user_config\<lparr>uc_dns := [''::%x''], uc_routes := [''default'']\<rparr>"
    by code_simp
  then show "foldl parse_user_line empty_user_config (splitlines (render_user_config smuggling_settings))
     = empty_user_config\<lparr>uc_dns := [''::%x''], uc_routes := [''default'']\<rparr>"
    unfolding render_user_config_def smuggling_lines smuggling_split .
qed

section \<open>Paths\<close>

text \<open>
  A settings file never leaves its directory: for every name the program accepts for a user
  or a group, the file is an entry of the configured directory itself, never that directory,
  its parent or anything below another directory, and different names have different files.
\<close>

theorem settings_stay_in_their_directory:
  assumes "user_config_path c n = Inr p \<or> group_config_path c n = Inr p"
  shows "p = path_join (if user_config_path c n = Inr p then user_config_dir c else group_config_dir c) n
    \<and> CHR ''/'' \<notin> set n \<and> n \<notin> {[], ''.'', ''..''}"
proof -
  have u: "username_re n"
    using assms by (auto simp: user_config_path_def group_config_path_def res_bind_Inr_iff validate_username_iff split: if_splits)
  then have t: "re_dollar n \<noteq> []" "list_all (name_chars ''_.@-'') (re_dollar n)" "re_dollar n \<notin> {''.'', ''..''}"
    by (auto simp: username_re_def Let_def)
  have sub: "set n \<subseteq> insert LF (set (re_dollar n))"
    by (cases n rule: rev_cases) (auto simp: re_dollar_def)
  have "CHR ''/'' \<notin> set n"
  proof
    assume "CHR ''/'' \<in> set n"
    moreover have "CHR ''/'' \<noteq> LF" by code_simp
    ultimately have "name_chars ''_.@-'' CHR ''/''" using sub t(2) by (auto simp: list_all_iff)
    then show False using name_char_facts(2) by blast
  qed
  moreover have "n \<notin> {[], ''.'', ''..''}"
  proof
    assume "n \<in> {[], ''.'', ''..''}"
    moreover have "CHR ''.'' \<noteq> LF" by code_simp
    ultimately have "re_dollar n = n" by (auto simp: re_dollar_def)
    with t \<open>n \<in> {[], ''.'', ''..''}\<close> show False by auto
  qed
  ultimately show ?thesis
    using assms by (auto simp: user_config_path_def group_config_path_def res_bind_Inr_iff validate_username_iff split: if_splits)
qed

theorem settings_stay_in_their_directory_witness:
  "path_join (user_config_dir sample_app) ''a.b@c'' = path_join (if user_config_path sample_app ''a.b@c''
       = Inr (path_join (user_config_dir sample_app) ''a.b@c'') then user_config_dir sample_app else group_config_dir sample_app) ''a.b@c''
    \<and> CHR ''/'' \<notin> set ''a.b@c'' \<and> ''a.b@c'' \<notin> {[], ''.'', ''..''}"
proof (rule settings_stay_in_their_directory)
  have "username_re ''a.b@c''" by code_simp
  then show "user_config_path sample_app ''a.b@c'' = Inr (path_join (user_config_dir sample_app) ''a.b@c'')
    \<or> group_config_path sample_app ''a.b@c'' = Inr (path_join (user_config_dir sample_app) ''a.b@c'')"
    by (simp add: user_config_path_def validate_username_def)
qed

section \<open>Groups of one account\<close>

text \<open>
  Setting the groups of a user changes that account only. Every other line of the
  ocpasswd file, comments included, stays as it was and in its place; every record of the user
  keeps its user field and its password hash, so neither the password nor its lock is touched;
  and the groups read back are exactly the ones set. The user's records are in the current
  format, and the groups together are at most 32 characters.
\<close>

theorem setting_groups_is_local:
  assumes "validate_username n = Inr n" "clean_groups groups = Inr gs" "groups_fit gs"
    and "files w (passwd_file c) = Some t"
    and "l0 \<in> set (read_lines_of (Some t))" "pw_username (parse_passwd_record l0) = n" "is_passwd_line l0"
    and "\<forall>l \<in> set (read_lines_of (Some t)). pw_username (parse_passwd_record l) = n \<longrightarrow> current_record l"
  shows "\<exists>r w'. set_user_groups c n groups w = (Inr r, w')
    \<and> list_all2 (\<lambda>l l'. if pw_username (parse_passwd_record l) = n
          then pw_groups (parse_passwd_record l') = gs
             \<and> hd (pw_fields (parse_passwd_record l')) = hd (pw_fields (parse_passwd_record l))
             \<and> last (pw_fields (parse_passwd_record l')) = last (pw_fields (parse_passwd_record l))
          else l' = l) (read_lines_of (Some t)) (read_lines_of (files w' (passwd_file c)))
    \<and> read_user_groups c n w' = Inr gs"
proof -
  let ?ls = "read_lines_of (Some t)" and ?p = "passwd_file c"
  define ls' where "ls' = map (regroup_line n gs) ?ls"
  have nb: "\<forall>l \<in> set ?ls. no_breaks l" using read_lines_no_breaks by blast
  have nb': "\<forall>l \<in> set ls'. no_breaks l"
    unfolding ls'_def by (rule regroup_lines_no_breaks [OF nb assms(8,3)])
  have ex: "list_ex (\<lambda>l. pw_username (parse_passwd_record l) = n) ?ls"
    using assms(5,6) by (auto simp: list_ex_iff)
  obtain r where run: "set_user_groups c n groups w = (Inr r, snd (atomic_write_private_text ?p (lines_text ls') w))"
    using set_user_groups_run [OF assms(1,2,4) ex] by (auto simp: ls'_def)
  define w' where "w' = snd (atomic_write_private_text ?p (lines_text ls') w)"
  have stored: "files w' ?p = Some (lines_text ls')"
    by (simp add: w'_def atomic_write_private_text_def atomic_write_text_def)
  have read: "read_lines_of (files w' ?p) = ls'" using read_lines_text [OF nb'] stored by simp
  have user: "l \<in> set ?ls \<Longrightarrow> pw_username (parse_passwd_record l) = n \<Longrightarrow> regroup_line n gs l = l' \<Longrightarrow>
      pw_groups (parse_passwd_record l') = gs
      \<and> hd (pw_fields (parse_passwd_record l')) = hd (pw_fields (parse_passwd_record l))
      \<and> last (pw_fields (parse_passwd_record l')) = last (pw_fields (parse_passwd_record l))
      \<and> CHR '':'' \<in> set l'" for l l'
    using regrouped_record [OF _ assms(3), of l] assms(8) nb by (auto simp: regroup_line_def Let_def)
  have "list_all2 (\<lambda>l l'. if pw_username (parse_passwd_record l) = n
          then pw_groups (parse_passwd_record l') = gs
             \<and> hd (pw_fields (parse_passwd_record l')) = hd (pw_fields (parse_passwd_record l))
             \<and> last (pw_fields (parse_passwd_record l')) = last (pw_fields (parse_passwd_record l))
          else l' = l) ?ls ls'"
    unfolding ls'_def list_all2_map2 using user
    by (auto simp: list_all2_same regroup_line_def Let_def)
  moreover have "read_user_groups c n w' = Inr gs"
  proof -
    have ne: "n \<noteq> []" using assms(1) by (auto simp: validate_username_iff username_re_def re_dollar_def)
    have l0: "regroup_line n gs l0 \<in> set ls'" "regroup_line n gs l0 = render_passwd_record (parse_passwd_record l0) gs"
      using assms(5,6) by (auto simp: ls'_def regroup_line_def Let_def)
    have "is_passwd_line (regroup_line n gs l0)" "pw_username (parse_passwd_record (regroup_line n gs l0)) = n"
      using regrouped_listed [of l0 gs] assms(3,5-8) nb ne l0(2) by auto
    with l0 have "\<exists>r \<in> set (list_users c w'). ur_username r = n"
      by (auto simp: list_users_def read user_record_of_def Let_def intro!: bexI)
    moreover have "\<forall>r \<in> set (list_users c w'). ur_username r = n \<longrightarrow> ur_groups r = gs"
    proof (intro ballI impI)
      fix r assume "r \<in> set (list_users c w')" "ur_username r = n"
      then obtain l' where l': "l' \<in> set ls'" "pw_username (parse_passwd_record l') = n"
          "ur_groups r = pw_groups (parse_passwd_record l')"
        by (auto simp: list_users_def read user_record_of_def Let_def)
      then obtain l where l: "l \<in> set ?ls" "regroup_line n gs l = l'" by (auto simp: ls'_def)
      with l'(2) have "pw_username (parse_passwd_record l) = n" by (auto simp: regroup_line_def Let_def split: if_splits)
      with user [OF l(1) _ l(2)] l'(3) show "ur_groups r = gs" by simp
    qed
    ultimately show ?thesis
      using assms(1) by (simp add: read_user_groups_def find_case)
  qed
  ultimately show ?thesis using run read by (auto simp: w'_def)
qed

definition sample_passwd :: string where
  "sample_passwd = lines_text [''# accounts'', ''alice:$5$abc$def'', ''bob:staff:!$5$ghi$jkl'']"

definition passwd_world :: world where
  "passwd_world = sample_world\<lparr>files := [passwd_file sample_app \<mapsto> sample_passwd]\<rparr>"

lemma sample_passwd_lines: "read_lines_of (Some sample_passwd) = [''# accounts'', ''alice:$5$abc$def'', ''bob:staff:!$5$ghi$jkl'']"
  unfolding sample_passwd_def by (rule read_lines_text) code_simp

theorem setting_groups_is_local_witness:
  "\<exists>r w'. set_user_groups sample_app ''bob'' ['' ops '', ''dev''] passwd_world = (Inr r, w')
    \<and> list_all2 (\<lambda>l l'. if pw_username (parse_passwd_record l) = ''bob''
          then pw_groups (parse_passwd_record l') = [''ops'', ''dev'']
             \<and> hd (pw_fields (parse_passwd_record l')) = hd (pw_fields (parse_passwd_record l))
             \<and> last (pw_fields (parse_passwd_record l')) = last (pw_fields (parse_passwd_record l))
          else l' = l) (read_lines_of (Some sample_passwd)) (read_lines_of (files w' (passwd_file sample_app)))
    \<and> read_user_groups sample_app ''bob'' w' = Inr [''ops'', ''dev'']"
proof (rule setting_groups_is_local [where ?l0.0 = "''bob:staff:!$5$ghi$jkl''"])
  show "validate_username ''bob'' = Inr ''bob''" "clean_groups ['' ops '', ''dev''] = Inr [''ops'', ''dev'']"
    "groups_fit [''ops'', ''dev'']" "pw_username (parse_passwd_record ''bob:staff:!$5$ghi$jkl'') = ''bob''"
    "is_passwd_line ''bob:staff:!$5$ghi$jkl''" by code_simp+
  show "files passwd_world (passwd_file sample_app) = Some sample_passwd" by (simp add: passwd_world_def)
  show "''bob:staff:!$5$ghi$jkl'' \<in> set (read_lines_of (Some sample_passwd))" by (simp add: sample_passwd_lines)
  show "\<forall>l \<in> set (read_lines_of (Some sample_passwd)). pw_username (parse_passwd_record l) = ''bob'' \<longrightarrow> current_record l"
    unfolding sample_passwd_lines by code_simp
qed

text \<open>More than 32 characters of groups are taken for a password hash and shown as none.\<close>

theorem long_groups_are_lost:
  assumes "32 < length g" "CHR ''!'' \<notin> set g" "CHR '':'' \<notin> set g" "CHR '':'' \<notin> set n" "CHR '':'' \<notin> set h"
  shows "pw_groups (parse_passwd_record (join '':'' [n, g, h])) = []"
proof -
  have "lstrip_char CHR ''!'' g = g" using assms(1,2) by (cases g) (auto simp: lstrip_char_def lstrip_if_def)
  then have "looks_like_password_hash g" using assms(1) by (auto simp: looks_like_password_hash_def Let_def)
  moreover have "split_on CHR '':'' (join '':'' [n, g, h]) = [n, g, h]"
    by (rule split_on_join) (use assms(3-5) in auto)
  moreover have "parse_groups_field [] = []" by code_simp
  ultimately show ?thesis by (simp add: parse_passwd_record_def group_field_def Let_def)
qed

text \<open>Setting the groups of a record with a legacy lock mark overwrites its password hash.\<close>

theorem legacy_lock_loses_the_hash:
  "render_passwd_record (parse_passwd_record ''bob:$5$abc$def:!'') [''ops''] = ''bob:ops:!''"
  by code_simp

section \<open>One-time passwords\<close>

lemma bits_value_bound: "bits_value bs < 2 ^ length bs"
  by (induction bs rule: rev_induct) (auto simp: bits_value_def)

lemma b32_groups_length: "g \<in> set (b32_groups bs) \<Longrightarrow> length g = 5"
  by (induction bs rule: b32_groups.induct) auto

lemma b32_char_not_space: "n < 32 \<Longrightarrow> \<not> is_space (b32_char n)"
  by (simp add: b32_char_def is_space_def code_char_of Let_def)

lemma b32_groups_Nil: "b32_groups bs = [] \<longleftrightarrow> bs = []"
  by (cases bs rule: b32_groups.cases) auto

lemma generated_secret_word: "bytes \<noteq> [] \<Longrightarrow> word (generate_secret bytes)"
proof -
  assume "bytes \<noteq> []"
  then have "concat (map byte_bits bytes) \<noteq> []" by (cases bytes) (auto simp: byte_bits_def)
  moreover have "\<not> is_space c" if c: "c \<in> set (b32_encode bytes)" for c
  proof -
    from c obtain g where g: "g \<in> set (b32_groups (concat (map byte_bits bytes)))" "c = b32_char (bits_value g)"
      by (auto simp: b32_encode_def)
    then have "bits_value g < 32" using bits_value_bound [of g] b32_groups_length [OF g(1)] by simp
    with g(2) b32_char_not_space show ?thesis by simp
  qed
  ultimately show ?thesis by (auto simp: word_def generate_secret_def b32_encode_def b32_groups_Nil)
qed

definition otp_user :: "string \<Rightarrow> bool" where
  "otp_user n = (username_re n \<and> LF \<notin> set n)"

lemma otp_user_word: "otp_user n \<Longrightarrow> word n"
  using username_chars(1) username_no_space by (auto simp: otp_user_def word_def)

lemma word_no_breaks: "word s \<Longrightarrow> no_breaks s"
  using linebreak_space by (auto simp: word_def no_breaks_def)

lemma otp_entry_no_breaks: "word n \<Longrightarrow> word s \<Longrightarrow> no_breaks (otp_entry n s)"
proof -
  have "no_breaks ''HOTP/T30/6 ''" "no_breaks '' - ''" by code_simp+
  then show "word n \<Longrightarrow> word s \<Longrightarrow> no_breaks (otp_entry n s)"
    using word_no_breaks unfolding otp_entry_def no_breaks_def by (metis UnE set_append)
qed

definition oath_lines :: "app_config \<Rightarrow> world \<Rightarrow> string list" where
  "oath_lines c w = read_lines_of (files w (oath_file c))"

lemma secret_of_lines: "username_re n \<Longrightarrow> secret_for_user c n w = Inr (otp_get n (oath_lines c w))"
  by (simp add: secret_for_user_def validate_username_def otp_get_def oath_lines_def)

lemma otp_enable_run:
  assumes "otp_user n" "bytes \<noteq> []"
  shows "\<exists>w'. otp_enable c bytes n w = (Inr (generate_secret bytes), w')
    \<and> oath_lines c w' = otp_put n (generate_secret bytes) (oath_lines c w)"
proof -
  let ?ls = "otp_put n (generate_secret bytes) (oath_lines c w)"
  have "no_breaks (otp_entry n (generate_secret bytes))"
    by (rule otp_entry_no_breaks [OF otp_user_word [OF assms(1)] generated_secret_word [OF assms(2)]])
  then have "\<forall>l \<in> set ?ls. no_breaks l"
    using read_lines_no_breaks by (auto simp: otp_put_def oath_lines_def)
  then have "read_lines_of (Some (lines_text ?ls)) = ?ls" by (rule read_lines_text)
  moreover have "lines_text ?ls = join [LF] ?ls @ [LF]" by (simp add: lines_text_def otp_put_def)
  ultimately show ?thesis
    using assms(1)
    by (simp add: otp_enable_def otp_user_def validate_username_def lift_result_def andthen_def read_lines_def ret_def Let_def
        atomic_write_private_text_def atomic_write_text_def oath_lines_def otp_put_def)
qed

lemma otp_disable_run:
  assumes "otp_user n"
  shows "\<exists>b w'. otp_disable c n w = (Inr b, w') \<and> oath_lines c w' = otp_del n (oath_lines c w)"
proof -
  let ?ls = "otp_del n (oath_lines c w)"
  have "\<forall>l \<in> set ?ls. no_breaks l" using read_lines_no_breaks by (auto simp: otp_del_def oath_lines_def)
  then have r: "read_lines_of (Some (lines_text ?ls)) = ?ls" by (rule read_lines_text)
  have same: "?ls = oath_lines c w" if "length ?ls = length (oath_lines c w)"
    using that by (metis otp_del_def length_filter_less linorder_neq_iff filter_True)
  show ?thesis
    using assms r same
    by (auto simp: otp_disable_def otp_user_def validate_username_def lift_result_def andthen_def read_lines_def ret_def Let_def
        atomic_write_private_text_def atomic_write_text_def oath_lines_def otp_del_def)
qed

text \<open>A request for one user: a new secret from random bytes, or none.\<close>

fun otp_update :: "app_config \<Rightarrow> string \<times> string option \<Rightarrow> (world, unit) action" where
  "otp_update c (n, Some bytes) = andthen (otp_enable c bytes n) (\<lambda>_. ret ())"
| "otp_update c (n, None) = andthen (otp_disable c n) (\<lambda>_. ret ())"

lemma otp_update_run:
  assumes "otp_user n" "x \<noteq> Some []"
  shows "\<exists>w'. otp_update c (n, x) w = (Inr (), w')
    \<and> oath_lines c w' = otp_store.apply_update (n, map_option generate_secret x) (oath_lines c w)"
proof (cases x)
  case None
  with otp_disable_run [OF assms(1), of c w] show ?thesis by (auto simp: andthen_def ret_def)
next
  case (Some b)
  with assms(2) otp_enable_run [OF assms(1), of b c w] show ?thesis by (auto simp: andthen_def ret_def)
qed

lemma otp_updates_run:
  assumes "\<forall>(n, x) \<in> set us. otp_user n \<and> x \<noteq> Some []"
  shows "\<exists>xs w'. action_map (otp_update c) us w = (Inr xs, w')
    \<and> oath_lines c w' = fold otp_store.apply_update (map (\<lambda>(n, x). (n, map_option generate_secret x)) us) (oath_lines c w)"
  using assms
proof (induction us arbitrary: w)
  case (Cons u us)
  obtain n x where u: "u = (n, x)" by (cases u)
  with Cons.prems obtain w1 where 1: "otp_update c u w = (Inr (), w1)"
      "oath_lines c w1 = otp_store.apply_update (n, map_option generate_secret x) (oath_lines c w)"
    using otp_update_run [of n x c w] by auto
  from Cons.prems have "\<forall>(n, x) \<in> set us. otp_user n \<and> x \<noteq> Some []" by simp
  from Cons.IH [OF this, of w1] 1 u show ?case by (auto simp: andthen_def ret_def)
qed (simp add: ret_def)

text \<open>
  C35. The one-time password file behaves as a map from users to secrets. After any sequence of
  enable and disable requests, for any users in any order and starting from any file, the
  secret found for a user is the one of the user's last request, none if that request disabled
  it, and what the file held before if no request named the user: no request for one user ever
  changes, hides or drops another user's secret.
\<close>

theorem otp_file_is_a_map:
  assumes "\<forall>(n, x) \<in> set us. otp_user n \<and> x \<noteq> Some []" "username_re k"
  shows "\<exists>xs w'. action_map (otp_update c) us w = (Inr xs, w')
    \<and> secret_for_user c k w' = (case map_of (rev us) k of None \<Rightarrow> secret_for_user c k w
        | Some x \<Rightarrow> Inr (map_option generate_secret x))"
proof -
  let ?us = "map (\<lambda>(n, x). (n, map_option generate_secret x)) us"
  obtain xs w' where run: "action_map (otp_update c) us w = (Inr xs, w')"
      "oath_lines c w' = fold otp_store.apply_update ?us (oath_lines c w)"
    using otp_updates_run [OF assms(1)] by blast
  have ok: "\<forall>(n, x) \<in> set ?us. word n \<and> (\<forall>v. x = Some v \<longrightarrow> word v)"
  proof (clarify)
    fix n x assume "(n, x) \<in> set ?us"
    then obtain b where "(n, b) \<in> set us" "x = map_option generate_secret b" by auto
    moreover from this(1) assms(1) have "otp_user n" "b \<noteq> Some []" by auto
    ultimately show "word n \<and> (\<forall>v. x = Some v \<longrightarrow> word v)"
      using otp_user_word generated_secret_word by auto
  qed
  have m: "map_of (rev ?us) k = map_option (map_option generate_secret) (map_of (rev us) k)"
    by (simp add: rev_map map_of_map)
  show ?thesis
    using run m otp_store.get_updates [OF ok, of k "oath_lines c w"]
    by (auto simp: secret_of_lines [OF assms(2)] split: option.splits)
qed

theorem otp_file_is_a_map_witness:
  "\<exists>xs w'. action_map (otp_update sample_app) [(''alice'', Some ''0123456789''), (''bob'', Some ''9876543210''), (''alice'', None)]
      sample_world = (Inr xs, w')
    \<and> secret_for_user sample_app ''bob'' w' = (case map_of (rev [(''alice'', Some ''0123456789''), (''bob'', Some ''9876543210''),
        (''alice'', None)]) ''bob'' of None \<Rightarrow> secret_for_user sample_app ''bob'' sample_world
        | Some x \<Rightarrow> Inr (map_option generate_secret x))"
  by (rule otp_file_is_a_map; code_simp)

text \<open>A user name that ends with a newline passes the check and splits the entry: the secret is
  never found again.\<close>

lemma split_ws_no_space: "x \<in> set (split_ws s) \<Longrightarrow> y \<in> set x \<Longrightarrow> \<not> is_space y"
proof (induction s rule: split_ws.induct)
  case (1 s)
  from "1.prems"(1) show ?case
    by (subst (asm) split_ws.simps) (use "1.IH" "1.prems"(2) in \<open>auto simp: Let_def split: if_splits dest: set_takeWhileD\<close>)
qed

lemma otp_secret_line_word: "otp_secret_line n l = Some s \<Longrightarrow> \<forall>y \<in> set n. \<not> is_space y"
proof -
  assume "otp_secret_line n l = Some s"
  then have "n \<in> set (split_ws l)" by (auto simp: otp_secret_line_def split: list.splits if_splits)
  then show ?thesis using split_ws_no_space by blast
qed

theorem newline_name_loses_the_secret:
  assumes "username_re (n @ [LF])"
  shows "secret_for_user c (n @ [LF]) w = Inr None"
proof -
  have "otp_secret_line (n @ [LF]) l = None" for l
    using otp_secret_line_word [of "n @ [LF]" l] by (cases "otp_secret_line (n @ [LF]) l") auto
  then have "otp_get (n @ [LF]) ls = None" for ls by (induction ls) (simp_all add: otp_get_Cons)
  then show ?thesis by (simp add: secret_of_lines [OF assms])
qed

end
