(* ===== verification/Credentials.thy ===== *)
theory Credentials
  imports Base64 Otp
begin

text \<open>
  \<open>services/password_hash.py\<close> and \<open>services/admin_totp.py\<close>: the stored scrypt hash of the
  administrator password and the time-based codes. The two primitives, scrypt with the fixed
  parameters and HMAC-SHA1, are arguments; what the code does around them is written out.
\<close>

section \<open>Comparing strings\<close>

text \<open>\<open>secrets.compare_digest\<close> of two \<open>str\<close>: both must be ASCII.\<close>

definition is_ascii :: "string \<Rightarrow> bool" where
  "is_ascii s = list_all (\<lambda>c. code c < 128) s"

definition compare_digest :: "string \<Rightarrow> string \<Rightarrow> bool result" where
  "compare_digest a b = (if is_ascii a \<and> is_ascii b then Inr (a = b) else Inl TypeError)"

section \<open>Password hashes\<close>

definition utf8_encode :: "string \<Rightarrow> string" where
  "utf8_encode s = concat (map (\<lambda>c. map byte (utf8_bytes c)) s)"

definition url_safe :: "char \<Rightarrow> char" where
  "url_safe c = (if c = CHR ''-'' then CHR ''+'' else if c = CHR ''_'' then CHR ''/'' else c)"

definition urlsafe_b64decode :: "string \<Rightarrow> string result" where
  "urlsafe_b64decode s = (if is_ascii s then b64_decode (map url_safe s) else Inl ValueError)"

definition url_safe_encoded :: "char \<Rightarrow> char" where
  "url_safe_encoded c = (if c = CHR ''+'' then CHR ''-'' else if c = CHR ''/'' then CHR ''_'' else c)"

definition urlsafe_b64encode :: "string \<Rightarrow> string" where
  "urlsafe_b64encode s = map url_safe_encoded (b64_encode s)"

text \<open>\<open>s.split('$', 5)\<close>: at most five cuts.\<close>

fun split_max :: "nat \<Rightarrow> char \<Rightarrow> string \<Rightarrow> string list" where
  "split_max 0 c s = [s]"
| "split_max (Suc n) c s = (case cut c s of (a, None) \<Rightarrow> [a] | (a, Some b) \<Rightarrow> a # split_max n c b)"

definition hash_password :: "(string \<Rightarrow> string \<Rightarrow> string) \<Rightarrow> string \<Rightarrow> string \<Rightarrow> string result" where
  "hash_password scrypt salt password =
     (if password = [] then Inl ValueError
      else Inr (join ''$'' [''scrypt'', ''16384'', ''8'', ''1'', urlsafe_b64encode salt,
        urlsafe_b64encode (scrypt (utf8_encode password) salt)]))"

text \<open>Every error of the parsing and decoding means a wrong password.\<close>

definition verify_password :: "(string \<Rightarrow> string \<Rightarrow> string) \<Rightarrow> string \<Rightarrow> string \<Rightarrow> bool" where
  "verify_password scrypt password encoded = (case split_max 5 CHR ''$'' encoded of
     [algorithm, raw_n, raw_r, raw_p, raw_salt, raw_expected] \<Rightarrow>
       (if algorithm \<noteq> ''scrypt'' then False
        else if (py_int raw_n, py_int raw_r, py_int raw_p) \<noteq> (Some 16384, Some 8, Some 1) then False
        else case (urlsafe_b64decode raw_salt, urlsafe_b64decode raw_expected) of
          (Inr salt, Inr expected) \<Rightarrow>
            if length salt \<noteq> 16 \<or> length expected \<noteq> 32 then False
            else scrypt (utf8_encode password) salt = expected
        | _ \<Rightarrow> False)
   | _ \<Rightarrow> False)"

section \<open>Time-based codes\<close>

text \<open>\<open>str.upper\<close> where it matters here: the sharp s has two capital letters.\<close>

definition upper_text :: "string \<Rightarrow> string" where
  "upper_text s = concat (map (\<lambda>c. let n = code c in
     if 97 \<le> n \<and> n \<le> 122 then [char_of (n - 32)] else if n = 223 then ''SS'' else [c]) s)"

definition b32_value :: "char \<Rightarrow> nat option" where
  "b32_value c = (let n = code c in
     if 65 \<le> n \<and> n \<le> 90 then Some (n - 65) else if 50 \<le> n \<and> n \<le> 55 then Some (n - 24) else None)"

definition five_bits :: "nat \<Rightarrow> bool list" where
  "five_bits n = map (\<lambda>i. odd (n div 2 ^ i)) [4,3,2,1,0]"

fun bytes_of_bits :: "nat \<Rightarrow> bool list \<Rightarrow> string" where
  "bytes_of_bits 0 bs = []"
| "bytes_of_bits (Suc n) bs = byte (bits_value (take 8 bs)) # bytes_of_bits n (drop 8 bs)"

definition b32_decode :: "string \<Rightarrow> string result" where
  "b32_decode s = (let body = rstrip_char CHR ''='' s; pad = length s - length body in
     if length s mod 8 \<noteq> 0 \<or> pad \<notin> {0, 1, 3, 4, 6} then Inl ValueError
     else case option_all (map b32_value body) of None \<Rightarrow> Inl ValueError
       | Some vs \<Rightarrow> Inr (bytes_of_bits (5 * length vs div 8) (concat (map five_bits vs))))"

text \<open>\<open>struct.pack('>Q', n)\<close>; a negative number is an error.\<close>

definition pack_counter :: "int \<Rightarrow> string result" where
  "pack_counter n = (if n < 0 \<or> 2 ^ 64 \<le> n then Inl ValueError
     else Inr (map (\<lambda>i. byte (nat n div 256 ^ i)) [7,6,5,4,3,2,1,0]))"

definition truncate_digest :: "string \<Rightarrow> nat" where
  "truncate_digest d = (let offset = code (last d) mod 16 in
     foldl (\<lambda>n c. n * 256 + code c) 0 (take 4 (drop offset d)) mod 2 ^ 31)"

definition code_at :: "(string \<Rightarrow> string \<Rightarrow> string) \<Rightarrow> string \<Rightarrow> int \<Rightarrow> string result" where
  "code_at hmac secret counter = (let u = upper_text secret; padded = u @ replicate ((8 - length u mod 8) mod 8) CHR ''='' in
     if \<not> is_ascii padded then Inl ValueError
     else res_bind (b32_decode padded) (\<lambda>key. res_bind (pack_counter counter) (\<lambda>msg.
       Inr (zero_pad 6 (show_nat (truncate_digest (hmac key msg) mod 1000000))))))"

fun verify_at :: "(string \<Rightarrow> string \<Rightarrow> string) \<Rightarrow> string \<Rightarrow> string \<Rightarrow> int list \<Rightarrow> bool result" where
  "verify_at hmac secret totp [] = Inr False"
| "verify_at hmac secret totp (n # ns) =
     res_bind (code_at hmac secret n) (\<lambda>expected. res_bind (compare_digest expected totp) (\<lambda>same.
       if same then Inr True else verify_at hmac secret totp ns))"

definition verify_code :: "(string \<Rightarrow> string \<Rightarrow> string) \<Rightarrow> nat \<Rightarrow> string \<Rightarrow> string \<Rightarrow> bool result" where
  "verify_code hmac wall secret given = (let totp = strip given; counter = int (wall div 30) in
     if totp = [] \<or> \<not> list_all is_digit_char totp \<or> length totp \<noteq> 6 then Inr False
     else verify_at hmac secret totp [counter - 1, counter, counter + 1])"

definition admin_otpauth_uri :: "app_config \<Rightarrow> string \<Rightarrow> string" where
  "admin_otpauth_uri c secret =
     ''otpauth://totp/'' @ url_quote (''Korvus Server:'' @ admin_user (app_web c)) @ ''?''
     @ urlencode [(''secret'', secret), (''issuer'', ''Korvus Server''), (''digits'', ''6'')]"

definition admin_qr_svg :: "env \<Rightarrow> string list \<Rightarrow> app_config \<Rightarrow> string \<Rightarrow> (world, command_result) action" where
  "admin_qr_svg env secrets c secret =
     run_command env secrets [''qrencode'', ''-t'', ''SVG'', ''-o'', ''-'']
       (default_options\<lparr>o_timeout := 10, o_input := Some (admin_otpauth_uri c secret),
          o_extra_secrets := [admin_otpauth_uri c secret, secret]\<rparr>)"

end
