(* ===== verification/Admin_Auth.thy ===== *)
theory Admin_Auth
  imports Credentials
begin

text \<open>
  \<open>api/auth.py\<close> and the login routes of \<open>api/routes_auth.py\<close>: browser sessions with a sliding
  and an absolute lifetime, the limit on failed logins, the second factor, and the check every
  protected route depends on. The clocks, the random tokens and the two cryptographic
  primitives are an environment. Times are milliseconds. A method that holds the registry's
  lock is one step.
\<close>

section \<open>Requests\<close>

record http_request =
  rq_method :: string
  rq_client :: "string option"
  rq_cookie :: "string option"
  rq_header :: "string \<Rightarrow> string option"

record basic_credentials =
  bc_username :: string
  bc_password :: string

text \<open>\<open>bytes.decode('utf-8')\<close> for code points up to 255; other sequences count as malformed,
  credentials with higher code points being outside the model.\<close>

fun utf8_decode :: "string \<Rightarrow> string option" where
  "utf8_decode [] = Some []"
| "utf8_decode (a # r) =
     (if code a < 128 then map_option (\<lambda>s. a # s) (utf8_decode r)
      else case r of [] \<Rightarrow> None
        | b # r' \<Rightarrow> if code a \<in> {194, 195} \<and> code b div 64 = 2
            then map_option (\<lambda>s. char_of ((code a - 192) * 64 + code b mod 64) # s) (utf8_decode r')
            else None)"

definition parse_basic_authorization :: "string option \<Rightarrow> basic_credentials option" where
  "parse_basic_authorization value = (case value of None \<Rightarrow> None
     | Some v \<Rightarrow> (case cut CHR '' '' v of (scheme, token) \<Rightarrow>
         (case token of None \<Rightarrow> None
          | Some t \<Rightarrow> if lower scheme \<noteq> ''basic'' \<or> t = [] \<or> \<not> b64_valid t then None
              else case b64_decode t of Inl _ \<Rightarrow> None
                | Inr bytes \<Rightarrow> (case utf8_decode bytes of None \<Rightarrow> None
                    | Some decoded \<Rightarrow> (case cut CHR '':'' decoded of
                        (_, None) \<Rightarrow> None
                      | (u, Some p) \<Rightarrow> Some \<lparr>bc_username = u, bc_password = p\<rparr>)))))"

text \<open>\<open>urlparse(url).hostname\<close>: leading control characters and blanks go, tabs and line breaks
  are removed, then scheme, network location, user part, port.\<close>

definition url_clean :: "string \<Rightarrow> string" where
  "url_clean u = filter (\<lambda>c. code c \<notin> {9, 10, 13}) (dropWhile (\<lambda>c. code c \<le> 32) u)"

definition drop_scheme :: "string \<Rightarrow> string" where
  "drop_scheme u = (case cut CHR '':'' u of
     (s, Some r) \<Rightarrow> if s \<noteq> [] \<and> is_alpha (hd s) \<and> list_all (name_chars ''+-.'') s then r else u
   | (_, None) \<Rightarrow> u)"

definition url_netloc :: "string \<Rightarrow> string" where
  "url_netloc u = (let r = drop_scheme (url_clean u) in
     if starts_with ''//'' r then takeWhile (\<lambda>c. c \<notin> {CHR ''/'', CHR ''?'', CHR ''#''}) (drop 2 r) else [])"

text \<open>\<open>_check_bracketed_host\<close>: a version address, or an IPv6 address.\<close>

definition bracketed_ok :: "string \<Rightarrow> bool" where
  "bracketed_ok h =
     (if h \<noteq> [] \<and> hd h = CHR ''v'' then (case cut CHR ''.'' (tl h) of
          (a, Some b) \<Rightarrow> a \<noteq> [] \<and> list_all (\<lambda>c. digit_value c \<noteq> None) a \<and> b \<noteq> [] \<and> LF \<notin> set b
        | _ \<Rightarrow> False)
      else case ip_address h of Some (V6 _ _) \<Rightarrow> True | _ \<Rightarrow> False)"

definition url_hostname :: "string \<Rightarrow> string option result" where
  "url_hostname u = (let n = url_netloc u;
       info = rev (takeWhile (\<lambda>c. c \<noteq> CHR ''@'') (rev n)) in
     if (CHR ''['' \<in> set n) \<noteq> (CHR '']'' \<in> set n) then Inl ValueError
     else if CHR ''['' \<in> set n
          \<and> \<not> bracketed_ok (fst (cut CHR '']'' (case cut CHR ''['' n of (_, Some b) \<Rightarrow> b | _ \<Rightarrow> []))) then Inl ValueError
     else let host = (case cut CHR ''['' info of (_, Some b) \<Rightarrow> fst (cut CHR '']'' b)
                      | (_, None) \<Rightarrow> fst (cut CHR '':'' info)) in
       if host = [] then Inr None
       else Inr (Some (case cut CHR ''%'' host of (h, None) \<Rightarrow> lower h | (h, Some z) \<Rightarrow> lower h @ CHR ''%'' # z)))"

definition nonempty_or :: "string option \<Rightarrow> string option \<Rightarrow> string option" where
  "nonempty_or a b = (if is_set a then a else b)"

definition reject_cross_origin :: "http_request \<Rightarrow> unit result" where
  "reject_cross_origin rq = (case nonempty_or (rq_header rq ''origin'') (rq_header rq ''referer'') of
     None \<Rightarrow> Inr ()
   | Some orig \<Rightarrow> if orig = [] then Inr ()
       else res_bind (url_hostname orig) (\<lambda>origin_host.
         let request_host = fst (cut CHR '':'' (case rq_header rq ''host'' of None \<Rightarrow> [] | Some h \<Rightarrow> h)) in
         if is_set origin_host \<and> request_host \<noteq> [] \<and> origin_host \<noteq> Some request_host
         then Inl (HttpError 403 ''cross-origin request rejected'') else Inr ()))"

section \<open>The session registry\<close>

record admin_session =
  as_username :: string
  as_csrf :: string
  as_expires :: nat
  as_created :: nat

record session_registry =
  sr_lifetime :: nat
  sr_sessions :: "string \<Rightarrow> admin_session option"
  sr_failures :: "string \<Rightarrow> nat list"

definition new_registry :: "int \<Rightarrow> session_registry" where
  "new_registry lifetime_seconds =
     \<lparr>sr_lifetime = nat lifetime_seconds * 1000, sr_sessions = Map.empty, sr_failures = (\<lambda>_. [])\<rparr>"

definition session_expired :: "nat \<Rightarrow> session_registry \<Rightarrow> admin_session \<Rightarrow> bool" where
  "session_expired now r s = (as_expires s \<le> now \<or> as_created s + sr_lifetime r * 4 < now)"

definition prune_sessions :: "nat \<Rightarrow> session_registry \<Rightarrow> session_registry" where
  "prune_sessions now r = r\<lparr>sr_sessions := (\<lambda>t. case sr_sessions r t of None \<Rightarrow> None
     | Some s \<Rightarrow> if session_expired now r s then None else Some s)\<rparr>"

definition registry_create :: "nat \<Rightarrow> nat \<Rightarrow> string \<Rightarrow> string \<Rightarrow> string \<Rightarrow> session_registry
    \<Rightarrow> admin_session \<times> session_registry" where
  "registry_create prune_time now token csrf username r = (let r1 = prune_sessions prune_time r;
       s = \<lparr>as_username = username, as_csrf = csrf, as_expires = now + sr_lifetime r, as_created = now\<rparr> in
     (s, r1\<lparr>sr_sessions := (sr_sessions r1)(token \<mapsto> s)\<rparr>))"

definition registry_get :: "nat \<Rightarrow> nat \<Rightarrow> string \<Rightarrow> session_registry
    \<Rightarrow> admin_session option \<times> session_registry" where
  "registry_get prune_time now token r = (let r1 = prune_sessions prune_time r in
     case sr_sessions r1 token of None \<Rightarrow> (None, r1)
     | Some s \<Rightarrow> (let s' = s\<lparr>as_expires := now + sr_lifetime r\<rparr> in
         (Some s', r1\<lparr>sr_sessions := (sr_sessions r1)(token \<mapsto> s')\<rparr>)))"

definition registry_revoke :: "string \<Rightarrow> session_registry \<Rightarrow> session_registry" where
  "registry_revoke token r = r\<lparr>sr_sessions := (sr_sessions r)(token := None)\<rparr>"

text \<open>The defaults of the code: five failures within 300 seconds.\<close>

definition failure_limit :: nat where "failure_limit = 5"

definition failure_window :: nat where "failure_window = 300000"

definition login_allowed :: "nat \<Rightarrow> string \<Rightarrow> session_registry \<Rightarrow> bool \<times> session_registry" where
  "login_allowed now source r = (let attempts = filter (\<lambda>t. now \<le> t + failure_window) (sr_failures r source) in
     (length attempts < failure_limit, r\<lparr>sr_failures := (sr_failures r)(source := attempts)\<rparr>))"

definition record_failure :: "nat \<Rightarrow> string \<Rightarrow> session_registry \<Rightarrow> session_registry" where
  "record_failure now source r = r\<lparr>sr_failures := (sr_failures r)(source := sr_failures r source @ [now])\<rparr>"

definition clear_failures :: "string \<Rightarrow> session_registry \<Rightarrow> session_registry" where
  "clear_failures source r = r\<lparr>sr_failures := (sr_failures r)(source := [])\<rparr>"

section \<open>The application state\<close>

record auth_env =
  ae_clock :: "nat \<Rightarrow> nat"
  ae_wall :: "nat \<Rightarrow> nat"
  ae_token :: "nat \<Rightarrow> string"
  ae_scrypt :: "string \<Rightarrow> string \<Rightarrow> string"
  ae_hmac :: "string \<Rightarrow> string \<Rightarrow> string"

text \<open>The registry is made at first use, with the session lifetime of that moment; the counters
  number the readings of the clocks and the random tokens.\<close>

record auth_state =
  st_registry :: "session_registry option"
  st_reads :: nat
  st_draws :: nat

definition read_clock :: "auth_env \<Rightarrow> (auth_state, nat) action" where
  "read_clock env = (\<lambda>st. (Inr (ae_clock env (st_reads st)), st\<lparr>st_reads := st_reads st + 1\<rparr>))"

definition read_wall :: "auth_env \<Rightarrow> (auth_state, nat) action" where
  "read_wall env = (\<lambda>st. (Inr (ae_wall env (st_reads st)), st\<lparr>st_reads := st_reads st + 1\<rparr>))"

definition draw_token :: "auth_env \<Rightarrow> (auth_state, string) action" where
  "draw_token env = (\<lambda>st. (Inr (ae_token env (st_draws st)), st\<lparr>st_draws := st_draws st + 1\<rparr>))"

definition auth_registry :: "web_config \<Rightarrow> auth_state \<Rightarrow> session_registry" where
  "auth_registry c st = (case st_registry st of Some r \<Rightarrow> r | None \<Rightarrow> new_registry (session_lifetime c))"

text \<open>Run one locked method of the registry.\<close>

definition on_registry :: "web_config \<Rightarrow> (session_registry \<Rightarrow> 'a \<times> session_registry) \<Rightarrow> (auth_state, 'a) action" where
  "on_registry c f = (\<lambda>st. case f (auth_registry c st) of (x, r) \<Rightarrow> (Inr x, st\<lparr>st_registry := Some r\<rparr>))"

definition source_of :: "http_request \<Rightarrow> string" where
  "source_of rq = (case rq_client rq of None \<Rightarrow> ''unknown'' | Some h \<Rightarrow> h)"

definition check_allowed :: "auth_env \<Rightarrow> web_config \<Rightarrow> string \<Rightarrow> (auth_state, unit) action" where
  "check_allowed env c source =
     andthen (read_clock env) (\<lambda>now. andthen (on_registry c (login_allowed now source)) (\<lambda>allowed.
     if allowed then ret () else throw (HttpError 429 ''too many failed login attempts'')))"

definition fail_login :: "auth_env \<Rightarrow> web_config \<Rightarrow> string \<Rightarrow> string \<Rightarrow> (auth_state, unit) action" where
  "fail_login env c source detail =
     andthen (read_clock env) (\<lambda>now. andthen (on_registry c (\<lambda>r. ((), record_failure now source r))) (\<lambda>_.
     throw (HttpError 401 detail)))"

definition password_matches :: "auth_env \<Rightarrow> web_config \<Rightarrow> string \<Rightarrow> bool result" where
  "password_matches env c password = (case admin_password_hash c of
     Some h \<Rightarrow> Inr (verify_password (ae_scrypt env) password h)
   | None \<Rightarrow> (case admin_password c of None \<Rightarrow> Inr False | Some p \<Rightarrow> compare_digest password p))"

text \<open>The password is compared first, then the name; either comparison may raise.\<close>

definition credentials_match :: "auth_env \<Rightarrow> web_config \<Rightarrow> string \<Rightarrow> string \<Rightarrow> bool result" where
  "credentials_match env c username password =
     res_bind (password_matches env c password) (\<lambda>pw.
     res_bind (compare_digest username (admin_user c)) (\<lambda>un. Inr (un \<and> pw)))"

definition authenticate_password :: "auth_env \<Rightarrow> web_config \<Rightarrow> http_request \<Rightarrow> string \<Rightarrow> string \<Rightarrow> (auth_state, unit) action" where
  "authenticate_password env c rq username password =
     (if admin_password c = None \<and> admin_password_hash c = None
      then throw (HttpError 403 ''admin password is not configured'')
      else andthen (check_allowed env c (source_of rq)) (\<lambda>_.
        andthen (lift_result (credentials_match env c username password)) (\<lambda>good.
        if \<not> good then fail_login env c (source_of rq) ''invalid credentials''
        else on_registry c (\<lambda>r. ((), clear_failures (source_of rq) r)))))"

definition mutating :: "string \<Rightarrow> bool" where
  "mutating m = (m \<in> {''POST'', ''PUT'', ''PATCH'', ''DELETE''})"

text \<open>The identity a request runs under: the user name and, for a cookie, the session.\<close>

type_synonym identity = "string \<times> admin_session option"

definition cookie_session :: "auth_env \<Rightarrow> web_config \<Rightarrow> string option \<Rightarrow> (auth_state, admin_session option) action" where
  "cookie_session env c cookie = (if \<not> is_set cookie then ret None
     else andthen (read_clock env) (\<lambda>t1. andthen (\<lambda>st. case sr_sessions (prune_sessions t1 (auth_registry c st)) (the cookie) of
         None \<Rightarrow> ret t1 st | Some _ \<Rightarrow> read_clock env st) (\<lambda>t2.
       on_registry c (registry_get t1 t2 (the cookie)))))"

definition header_or_empty :: "http_request \<Rightarrow> string \<Rightarrow> string" where
  "header_or_empty rq name = (case rq_header rq name of None \<Rightarrow> [] | Some v \<Rightarrow> v)"

definition require_basic :: "auth_env \<Rightarrow> web_config \<Rightarrow> http_request \<Rightarrow> (auth_state, identity) action" where
  "require_basic env c rq = (case parse_basic_authorization (rq_header rq ''authorization'') of
     None \<Rightarrow> throw (HttpError 401 ''authentication required'')
   | Some cr \<Rightarrow> andthen (authenticate_password env c rq (bc_username cr) (bc_password cr)) (\<lambda>_.
       andthen (if mutating (rq_method rq) then lift_result (reject_cross_origin rq) else ret ()) (\<lambda>_.
       ret (bc_username cr, None))))"

definition require_admin :: "auth_env \<Rightarrow> web_config \<Rightarrow> http_request \<Rightarrow> (auth_state, identity) action" where
  "require_admin env c rq =
     andthen (cookie_session env c (rq_cookie rq)) (\<lambda>found. case found of
       None \<Rightarrow> require_basic env c rq
     | Some s \<Rightarrow> andthen (if mutating (rq_method rq)
           then andthen (lift_result (compare_digest (header_or_empty rq ''x-korserver-csrf'') (as_csrf s))) (\<lambda>same.
             if same then ret () else throw (HttpError 403 ''CSRF validation failed''))
           else ret ()) (\<lambda>_. ret (as_username s, Some s)))"

section \<open>Login and logout\<close>

definition check_totp :: "auth_env \<Rightarrow> web_config \<Rightarrow> http_request \<Rightarrow> string option \<Rightarrow> (auth_state, unit) action" where
  "check_totp env c rq totp = (let source = ''totp:'' @ source_of rq in
     if \<not> admin_totp_enabled c then ret ()
     else if \<not> is_set totp then throw (HttpError 401 ''totp_code_required'')
     else andthen (check_allowed env c source) (\<lambda>_.
       andthen (case admin_totp_secret c of None \<Rightarrow> ret False
          | Some secret \<Rightarrow> andthen (read_wall env) (\<lambda>wall. lift_result (verify_code (ae_hmac env) wall secret (the totp)))) (\<lambda>good.
       if \<not> good then fail_login env c source ''invalid_totp_code''
       else on_registry c (\<lambda>r. ((), clear_failures source r)))))"

definition create_session :: "auth_env \<Rightarrow> web_config \<Rightarrow> string \<Rightarrow> (auth_state, string \<times> admin_session) action" where
  "create_session env c username =
     andthen (read_clock env) (\<lambda>t1. andthen (draw_token env) (\<lambda>token. andthen (read_clock env) (\<lambda>t2.
     andthen (draw_token env) (\<lambda>csrf.
     andthen (on_registry c (registry_create t1 t2 token csrf username)) (\<lambda>s. ret (token, s))))))"

definition login :: "auth_env \<Rightarrow> web_config \<Rightarrow> http_request \<Rightarrow> string \<Rightarrow> string \<Rightarrow> string option
    \<Rightarrow> (auth_state, string \<times> admin_session) action" where
  "login env c rq username password totp =
     andthen (authenticate_password env c rq username password) (\<lambda>_.
     andthen (check_totp env c rq totp) (\<lambda>_. create_session env c username))"

definition logout :: "web_config \<Rightarrow> http_request \<Rightarrow> (auth_state, unit) action" where
  "logout c rq = (if is_set (rq_cookie rq)
     then on_registry c (\<lambda>r. ((), registry_revoke (the (rq_cookie rq)) r)) else ret ())"

end
