(* ===== verification/Auth_Facts.thy ===== *)
theory Auth_Facts
  imports Admin_Auth
begin

text \<open>
  How the authentication steps change the registry. A relation on states that every step of an
  action respects is respected by the action (the locale); it is used for the sessions and for
  the failures of one client. A guarded guess is refused, or counted, or clears the count, so a
  run of guesses within the window is bounded.
\<close>

section \<open>What an action may change\<close>

definition moves :: "('s \<Rightarrow> 's \<Rightarrow> bool) \<Rightarrow> ('s, 'a) action \<Rightarrow> bool" where
  "moves R m = (\<forall>st. R st (snd (m st)))"

locale step_order =
  fixes R :: "'s \<Rightarrow> 's \<Rightarrow> bool"
  assumes stays: "R st st" and follows: "R a b \<Longrightarrow> R b d \<Longrightarrow> R a d"
begin

lemma moves_simple: "moves R (ret x)" "moves R (throw e)" "moves R (lift_result r)"
  by (simp_all add: moves_def ret_def throw_def lift_result_def stays)

lemma moves_andthen:
  assumes "moves R m" "\<And>x. moves R (f x)"
  shows "moves R (andthen m f)"
  unfolding moves_def
proof
  fix st
  obtain r s1 where m: "m st = (r, s1)" by (cases "m st")
  with assms(1) have "R st s1" by (metis moves_def snd_conv)
  with m assms(2) show "R st (snd (andthen m f st))"
    by (cases r) (auto simp: andthen_def moves_def intro: follows)
qed

lemma moves_if: "moves R a \<Longrightarrow> moves R b \<Longrightarrow> moves R (if p then a else b)"
  by simp

lemmas moves_rules = moves_simple moves_andthen moves_if

end

lemma auth_registry_set [simp]: "auth_registry c (st\<lparr>st_registry := Some r\<rparr>) = r"
  "auth_registry c (st\<lparr>st_reads := n\<rparr>) = auth_registry c st" "auth_registry c (st\<lparr>st_draws := n\<rparr>) = auth_registry c st"
  by (simp_all add: auth_registry_def)

text \<open>The sessions and the lifetime, which the password steps leave alone.\<close>

definition same_sessions :: "web_config \<Rightarrow> auth_state \<Rightarrow> auth_state \<Rightarrow> bool" where
  "same_sessions c st st' = (sr_sessions (auth_registry c st') = sr_sessions (auth_registry c st)
     \<and> sr_lifetime (auth_registry c st') = sr_lifetime (auth_registry c st)
     \<and> (st_registry st' = None \<longrightarrow> st_registry st = None) \<and> st_reads st \<le> st_reads st')"

interpretation sessions: step_order "same_sessions c" for c
  by unfold_locales (auto simp: same_sessions_def)

definition failures_of :: "string \<Rightarrow> auth_state \<Rightarrow> nat list" where
  "failures_of key st = (case st_registry st of None \<Rightarrow> [] | Some r \<Rightarrow> sr_failures r key)"

lemma registry_failures: "sr_failures (auth_registry c st) key = failures_of key st"
  by (simp add: failures_of_def auth_registry_def new_registry_def split: option.split)

lemma failures_of_set [simp]: "failures_of key (st\<lparr>st_registry := Some r\<rparr>) = sr_failures r key"
  "failures_of key (st\<lparr>st_reads := n\<rparr>) = failures_of key st" "failures_of key (st\<lparr>st_draws := n\<rparr>) = failures_of key st"
  by (simp_all add: failures_of_def)

text \<open>The failures of one key, which every step of another client leaves alone.\<close>

definition same_failures :: "string \<Rightarrow> auth_state \<Rightarrow> auth_state \<Rightarrow> bool" where
  "same_failures key st st' = (failures_of key st' = failures_of key st \<and> st_reads st \<le> st_reads st')"

interpretation failures: step_order "same_failures key" for key
  by unfold_locales (auto simp: same_failures_def)

text \<open>The clock never goes back between states.\<close>

definition later :: "auth_state \<Rightarrow> auth_state \<Rightarrow> bool" where
  "later st st' = (st_reads st \<le> st_reads st')"

interpretation later: step_order later
  by unfold_locales (auto simp: later_def)

section \<open>The relations the steps respect\<close>

lemma reads_move:
  "moves (same_sessions c) (read_clock env)" "moves (same_sessions c) (read_wall env)"
  "moves (same_failures key) (read_clock env)" "moves (same_failures key) (read_wall env)"
  "moves later (read_clock env)" "moves later (read_wall env)"
  by (simp_all add: moves_def same_sessions_def same_failures_def later_def read_clock_def read_wall_def)

lemma draw_moves: "moves (same_sessions c) (draw_token env)" "moves (same_failures key) (draw_token env)" "moves later (draw_token env)"
  by (simp_all add: moves_def same_sessions_def same_failures_def later_def draw_token_def)

lemma on_registry_sessions:
  "(\<And>r. sr_sessions (snd (f r)) = sr_sessions r \<and> sr_lifetime (snd (f r)) = sr_lifetime r) \<Longrightarrow> moves (same_sessions c) (on_registry c f)"
  by (simp add: moves_def same_sessions_def on_registry_def split: prod.split) (metis snd_conv)

lemma on_registry_failures:
  "(\<And>r. sr_failures (snd (f r)) key = sr_failures r key) \<Longrightarrow> moves (same_failures key) (on_registry c f)"
  by (simp add: moves_def same_failures_def on_registry_def registry_failures split: prod.split) (metis registry_failures snd_conv)

lemma on_registry_later: "moves later (on_registry c f)"
  by (simp add: moves_def later_def on_registry_def split: prod.split)

lemma locked_steps:
  "sr_sessions (snd (login_allowed n s r)) = sr_sessions r \<and> sr_lifetime (snd (login_allowed n s r)) = sr_lifetime r"
  "sr_sessions (record_failure n s r) = sr_sessions r" "sr_lifetime (record_failure n s r) = sr_lifetime r"
  "sr_sessions (clear_failures s r) = sr_sessions r" "sr_lifetime (clear_failures s r) = sr_lifetime r"
  "s \<noteq> key \<Longrightarrow> sr_failures (snd (login_allowed n s r)) key = sr_failures r key"
  "s \<noteq> key \<Longrightarrow> sr_failures (record_failure n s r) key = sr_failures r key"
  "s \<noteq> key \<Longrightarrow> sr_failures (clear_failures s r) key = sr_failures r key"
  "sr_failures (snd (registry_get t1 t2 tok r)) = sr_failures r"
  "sr_failures (snd (registry_create t1 t2 tok csrf u r)) = sr_failures r"
  "sr_failures (registry_revoke tok r) = sr_failures r"
  by (simp_all add: login_allowed_def record_failure_def clear_failures_def registry_get_def registry_create_def
      registry_revoke_def prune_sessions_def Let_def split: option.split)

text \<open>The steps of the password and of the code check.\<close>

lemma check_allowed_moves:
  "moves (same_sessions c) (check_allowed env c s)" "s \<noteq> key \<Longrightarrow> moves (same_failures key) (check_allowed env c s)"
  "moves later (check_allowed env c s)"
  unfolding check_allowed_def
  by (intro sessions.moves_rules reads_move on_registry_sessions, simp add: locked_steps,
      intro failures.moves_rules reads_move on_registry_failures, simp add: locked_steps)
    (intro later.moves_rules reads_move on_registry_later)

lemma fail_login_moves:
  "moves (same_sessions c) (fail_login env c s d)" "s \<noteq> key \<Longrightarrow> moves (same_failures key) (fail_login env c s d)"
  "moves later (fail_login env c s d)"
  unfolding fail_login_def
  by (intro sessions.moves_rules reads_move on_registry_sessions, simp add: locked_steps,
      intro failures.moves_rules reads_move on_registry_failures, simp add: locked_steps)
    (intro later.moves_rules reads_move on_registry_later)

lemma clear_moves:
  "moves (same_sessions c) (on_registry c (\<lambda>r. ((), clear_failures s r)))"
  "s \<noteq> key \<Longrightarrow> moves (same_failures key) (on_registry c (\<lambda>r. ((), clear_failures s r)))"
  by (intro on_registry_sessions on_registry_failures, simp add: locked_steps)
    (intro on_registry_failures, simp add: locked_steps)

section \<open>Guarded guesses\<close>

text \<open>The shape the password and the code check share: refused when too many failures are
  recent, otherwise counted or clearing the count.\<close>

definition guess :: "auth_env \<Rightarrow> web_config \<Rightarrow> string \<Rightarrow> string \<Rightarrow> (auth_state, bool) action \<Rightarrow> (auth_state, unit) action" where
  "guess env c key detail test =
     andthen (check_allowed env c key) (\<lambda>_. andthen test (\<lambda>good.
       if \<not> good then fail_login env c key detail else on_registry c (\<lambda>r. ((), clear_failures key r))))"

text \<open>A test only reads clocks.\<close>

definition only_reads :: "(auth_state, 'a) action \<Rightarrow> bool" where
  "only_reads test = (\<forall>st. \<exists>n \<ge> st_reads st. snd (test st) = st\<lparr>st_reads := n\<rparr>)"

lemma only_reads_intros:
  "only_reads (ret x)" "only_reads (throw e)" "only_reads (lift_result r)" "only_reads (read_wall env)"
proof -
  have same: "\<exists>n \<ge> st_reads st. st = st\<lparr>st_reads := n\<rparr>" for st :: auth_state
    by (rule exI [of _ "st_reads st"]) simp
  show "only_reads (ret x)" "only_reads (throw e)" "only_reads (lift_result r)"
    using same by (simp_all add: only_reads_def ret_def throw_def lift_result_def)
  show "only_reads (read_wall env)"
    unfolding only_reads_def by (auto simp: read_wall_def intro!: exI [where x = "Suc _"])
qed

lemma only_reads_andthen: "only_reads m \<Longrightarrow> (\<And>x. only_reads (f x)) \<Longrightarrow> only_reads (andthen m f)"
  unfolding only_reads_def
proof
  fix st assume m: "\<forall>st. \<exists>n \<ge> st_reads st. snd (m st) = st\<lparr>st_reads := n\<rparr>"
    and f: "\<And>x. \<forall>st. \<exists>n \<ge> st_reads st. snd (f x st) = st\<lparr>st_reads := n\<rparr>"
  from m obtain n where n: "n \<ge> st_reads st" "snd (m st) = st\<lparr>st_reads := n\<rparr>" by blast
  obtain r s1 where ms: "m st = (r, s1)" by (cases "m st")
  show "\<exists>n \<ge> st_reads st. snd (andthen m f st) = st\<lparr>st_reads := n\<rparr>"
  proof (cases r)
    case (Inl e)
    with n ms show ?thesis by (auto simp: andthen_def)
  next
    case (Inr x)
    from f obtain k where "k \<ge> st_reads s1" "snd (f x s1) = s1\<lparr>st_reads := k\<rparr>" by blast
    with n ms Inr show ?thesis by (intro exI [of _ k]) (auto simp: andthen_def)
  qed
qed

text \<open>The failures since a moment.\<close>

definition recent :: "nat \<Rightarrow> string \<Rightarrow> auth_state \<Rightarrow> nat" where
  "recent t0 key st = length (filter (\<lambda>t. t0 \<le> t) (failures_of key st))"

definition clock_mono :: "auth_env \<Rightarrow> bool" where
  "clock_mono env = (\<forall>m n. m \<le> n \<longrightarrow> ae_clock env m \<le> ae_clock env n)"

lemma check_allowed_run:
  "check_allowed env c key st = (let now = ae_clock env (st_reads st);
      att = filter (\<lambda>t. now \<le> t + failure_window) (failures_of key st) in
    (if length att < 5 then Inr () else Inl (HttpError 429 ''too many failed login attempts''),
     st\<lparr>st_reads := st_reads st + 1, st_registry := Some ((auth_registry c st)
       \<lparr>sr_failures := (sr_failures (auth_registry c st))(key := att)\<rparr>)\<rparr>))"
  by (simp add: check_allowed_def andthen_def read_clock_def on_registry_def login_allowed_def ret_def throw_def
      registry_failures failure_limit_def Let_def)

lemma fail_login_run:
  "fail_login env c key detail st = (Inl (HttpError 401 detail),
     st\<lparr>st_reads := st_reads st + 1, st_registry := Some ((auth_registry c st)
       \<lparr>sr_failures := (sr_failures (auth_registry c st))(key := failures_of key st @ [ae_clock env (st_reads st)])\<rparr>)\<rparr>)"
  by (simp add: fail_login_def andthen_def read_clock_def on_registry_def record_failure_def throw_def registry_failures)

text \<open>One guess: refused with nothing counted, or counted with fewer than five recent failures,
  or raising with nothing counted.\<close>

lemma guess_step:
  assumes run: "guess env c key detail test st = (r, st')" and "only_reads test" "clock_mono env"
    and time: "t0 \<le> ae_clock env (st_reads st)" "ae_clock env (st_reads st') \<le> t0 + failure_window" and "r \<noteq> Inr ()"
    and no401: "\<And>x s. fst (test s) \<noteq> Inl (HttpError 401 x)"
  shows "recent t0 key st' = recent t0 key st + (if r = Inl (HttpError 401 detail) then 1 else 0)
    \<and> (r = Inl (HttpError 401 detail) \<longrightarrow> recent t0 key st < 5) \<and> st_reads st \<le> st_reads st'"
proof -
  define now where "now = ae_clock env (st_reads st)"
  define att where "att = filter (\<lambda>t. now \<le> t + failure_window) (failures_of key st)"
  define st1 where "st1 = st\<lparr>st_reads := st_reads st + 1, st_registry := Some ((auth_registry c st)
       \<lparr>sr_failures := (sr_failures (auth_registry c st))(key := att)\<rparr>)\<rparr>"
  have chk: "check_allowed env c key st = (if length att < 5 then Inr () else Inl (HttpError 429 ''too many failed login attempts''), st1)"
    by (simp add: check_allowed_run now_def [symmetric] att_def [symmetric] st1_def Let_def)
  have f1: "failures_of key st1 = att" by (simp add: failures_of_def st1_def)
  have keep: "filter (\<lambda>t. t0 \<le> t) att = filter (\<lambda>t. t0 \<le> t) (failures_of key st)"
    if "now \<le> t0 + failure_window"
    using that by (auto simp: att_def intro!: filter_cong)
  from assms(2) obtain k where k: "k \<ge> st_reads st1" "snd (test st1) = st1\<lparr>st_reads := k\<rparr>"
    unfolding only_reads_def by blast
  obtain q where q: "test st1 = (q, st1\<lparr>st_reads := k\<rparr>)" using k(2) by (cases "test st1") auto
  have kn: "st_reads st < k" using k(1) by (simp add: st1_def)
  have mono: "now \<le> ae_clock env m" if "st_reads st \<le> m" for m
    using assms(3) that by (simp add: clock_mono_def now_def)
  consider (refused) "\<not> length att < 5" | (err) e where "length att < 5" "q = Inl e"
    | (bad) "length att < 5" "q = Inr False" | (good) "length att < 5" "q = Inr True"
    by (cases q; cases "length att < 5"; cases "q = Inr True") auto
  then show ?thesis
  proof cases
    case refused
    with run chk have r: "r = Inl (HttpError 429 ''too many failed login attempts'')" "st' = st1"
      by (auto simp: guess_def andthen_def)
    then have "now \<le> t0 + failure_window" using mono [of "st_reads st'"] time(2) by (simp add: st1_def)
    with r keep show ?thesis by (simp add: recent_def f1) (simp add: st1_def)
  next
    case err
    with run chk q have r: "r = Inl e" "st' = st1\<lparr>st_reads := k\<rparr>" by (auto simp: guess_def andthen_def)
    then have "now \<le> t0 + failure_window" using mono [of k] kn time(2) by simp
    moreover have "e \<noteq> HttpError 401 detail" using no401 [of st1 detail] q err by auto
    moreover have "failures_of key st' = att" using f1 r by (simp add: failures_of_def)
    ultimately show ?thesis using r keep kn by (simp add: recent_def)
  next
    case bad
    define st2 where "st2 = st1\<lparr>st_reads := k\<rparr>"
    have f2: "failures_of key st2 = att" using f1 by (simp add: failures_of_def st2_def)
    from bad run chk q have r: "(r, st') = fail_login env c key detail st2"
      by (auto simp: guess_def andthen_def st2_def)
    then have r': "r = Inl (HttpError 401 detail)" "st_reads st' = k + 1"
      by (simp_all add: fail_login_run st2_def)
    from r have f': "failures_of key st' = att @ [ae_clock env k]"
      unfolding fail_login_run f2 by (simp add: failures_of_def) (simp add: st2_def)
    have "now \<le> t0 + failure_window" using mono [of "k + 1"] kn time(2) r'(2) by simp
    moreover have "t0 \<le> ae_clock env k" using mono [of k] kn time(1) by (simp add: now_def)
    moreover have "length (filter (\<lambda>t. t0 \<le> t) att) \<le> length att" by simp
    ultimately show ?thesis using r' f' keep kn bad(1) by (simp add: recent_def)
  next
    case good
    with run chk q assms(6) show ?thesis by (auto simp: guess_def andthen_def on_registry_def)
  qed
qed

end
