(* ===== verification/Auth_Panel.thy ===== *)
theory Auth_Panel
  imports Auth_Facts
begin

text \<open>
  The panel as its clients see it: logins, logouts and requests to protected routes, from any
  number of clients and under a configuration that may change between them. The history of a
  panel names the login each cookie stands for, and every cookie the registry accepts has one.
\<close>

section \<open>Events and replies\<close>

datatype panel_event =
    Login http_request string string "string option"
  | Request http_request
  | Logout http_request

datatype panel_reply =
    Granted string admin_session
  | Runs_As string "admin_session option"
  | Logged_Out
  | Refused py_error

fun event_request :: "panel_event \<Rightarrow> http_request" where
  "event_request (Login rq u p t) = rq"
| "event_request (Request rq) = rq"
| "event_request (Logout rq) = rq"

definition event_source :: "panel_event \<Rightarrow> string" where
  "event_source ev = source_of (event_request ev)"

definition reply_of :: "('a \<Rightarrow> panel_reply) \<Rightarrow> 'a result \<times> auth_state \<Rightarrow> panel_reply \<times> auth_state" where
  "reply_of f out = ((case fst out of Inl e \<Rightarrow> Refused e | Inr x \<Rightarrow> f x), snd out)"

fun panel_step :: "auth_env \<Rightarrow> web_config \<Rightarrow> panel_event \<Rightarrow> auth_state \<Rightarrow> panel_reply \<times> auth_state" where
  "panel_step env c (Login rq u p t) st = reply_of (\<lambda>(tok, s). Granted tok s) (login env c rq u p t st)"
| "panel_step env c (Request rq) st = reply_of (\<lambda>(u, s). Runs_As u s) (require_admin env c rq st)"
| "panel_step env c (Logout rq) st = reply_of (\<lambda>_. Logged_Out) (logout c rq st)"

fun panel_run :: "auth_env \<Rightarrow> (web_config \<times> panel_event) list \<Rightarrow> auth_state \<Rightarrow> panel_reply list \<times> auth_state" where
  "panel_run env [] st = ([], st)"
| "panel_run env ((c, ev) # evs) st = (case panel_step env c ev st of (rep, s1) \<Rightarrow>
     (case panel_run env evs s1 of (reps, s2) \<Rightarrow> (rep # reps, s2)))"

definition wrong_password :: "panel_reply \<Rightarrow> bool" where
  "wrong_password rep = (rep = Refused (HttpError 401 ''invalid credentials''))"

definition wrong_code :: "panel_reply \<Rightarrow> bool" where
  "wrong_code rep = (rep = Refused (HttpError 401 ''invalid_totp_code''))"

definition is_granted :: "panel_reply \<Rightarrow> bool" where
  "is_granted rep = (case rep of Granted _ _ \<Rightarrow> True | _ \<Rightarrow> False)"

text \<open>The user name and password an event carries are the configured ones.\<close>

fun offers_credentials :: "auth_env \<Rightarrow> web_config \<Rightarrow> panel_event \<Rightarrow> bool" where
  "offers_credentials env c (Login rq u p t) = (credentials_match env c u p = Inr True)"
| "offers_credentials env c (Request rq) = (case parse_basic_authorization (rq_header rq ''authorization'') of
     None \<Rightarrow> False | Some cr \<Rightarrow> credentials_match env c (bc_username cr) (bc_password cr) = Inr True)"
| "offers_credentials env c (Logout rq) = False"

section \<open>A count bounded within the window\<close>

text \<open>When every step that is counted found fewer than five recent failures and added one, no
  run within the window counts more than five.\<close>

lemma bounded_run:
  assumes "clock_mono env"
    and mono: "\<forall>(c, ev) \<in> set evs. \<forall>st. later st (snd (panel_step env c ev st))"
    and step: "\<forall>(c, ev) \<in> set evs. \<forall>st rep st'. panel_step env c ev st = (rep, st')
      \<longrightarrow> t0 \<le> ae_clock env (st_reads st) \<longrightarrow> ae_clock env (st_reads st') \<le> t0 + failure_window \<longrightarrow> P ev rep
      \<longrightarrow> recent t0 key st + (if bad ev rep then 1 else 0) \<le> recent t0 key st' \<and> (bad ev rep \<longrightarrow> recent t0 key st < 5)"
    and "panel_run env evs st = (reps, st')" "list_all2 (\<lambda>(c, ev) rep. P ev rep) evs reps"
    and "t0 \<le> ae_clock env (st_reads st)" "ae_clock env (st_reads st') \<le> t0 + failure_window"
  shows "length (filter (\<lambda>((c, ev), rep). bad ev rep) (zip evs reps)) + recent t0 key st \<le> max 5 (recent t0 key st)
    \<and> later st st'"
  using assms(2-7)
proof (induction evs arbitrary: st reps)
  case Nil
  then show ?case by (simp add: later.stays)
next
  case (Cons e evs)
  obtain c ev where e: "e = (c, ev)" by force
  obtain rep s1 where p: "panel_step env c ev st = (rep, s1)" by force
  obtain reps' s2 where q: "panel_run env evs s1 = (reps', s2)" by force
  with Cons.prems(3) have reps: "reps = rep # reps'" "panel_run env evs s1 = (reps', st')" by (simp_all add: e p)
  have "later st (snd (panel_step env c ev st))" using Cons.prems(1) by (simp add: e)
  then have l1: "later st s1" by (simp add: p)
  then have "ae_clock env (st_reads st) \<le> ae_clock env (st_reads s1)"
    using assms(1) by (simp add: clock_mono_def later_def)
  with Cons.prems(5) have t1: "t0 \<le> ae_clock env (st_reads s1)" by simp
  have all: "list_all2 (\<lambda>(c, ev) rep. P ev rep) evs reps'" "P ev rep" using Cons.prems(4) by (simp_all add: reps(1) e)
  have IH: "length (filter (\<lambda>((c, ev), rep). bad ev rep) (zip evs reps')) + recent t0 key s1 \<le> max 5 (recent t0 key s1) \<and> later s1 st'"
    using Cons.prems(1,2) by (intro Cons.IH [OF _ _ reps(2) all(1) t1 Cons.prems(6)]) simp_all
  then have "ae_clock env (st_reads s1) \<le> ae_clock env (st_reads st')"
    using assms(1) by (simp add: clock_mono_def later_def)
  with Cons.prems(6) have "ae_clock env (st_reads s1) \<le> t0 + failure_window" by simp
  moreover have "\<forall>st rep st'. panel_step env c ev st = (rep, st')
      \<longrightarrow> t0 \<le> ae_clock env (st_reads st) \<longrightarrow> ae_clock env (st_reads st') \<le> t0 + failure_window \<longrightarrow> P ev rep
      \<longrightarrow> recent t0 key st + (if bad ev rep then 1 else 0) \<le> recent t0 key st' \<and> (bad ev rep \<longrightarrow> recent t0 key st < 5)"
    using Cons.prems(2) by (simp add: e)
  ultimately have now: "recent t0 key st + (if bad ev rep then 1 else 0) \<le> recent t0 key s1 \<and> (bad ev rep \<longrightarrow> recent t0 key st < 5)"
    using p all(2) Cons.prems(5) by blast
  have "later st st'" using later.follows [OF l1] IH by blast
  moreover have "length (filter (\<lambda>((c, ev), rep). bad ev rep) (zip (e # evs) reps))
      = (if bad ev rep then 1 else 0) + length (filter (\<lambda>((c, ev), rep). bad ev rep) (zip evs reps'))"
    by (simp add: reps(1) e)
  ultimately show ?case using IH now by (simp only:) (simp split: if_splits)
qed

section \<open>What one event does to the failures\<close>

lemma credentials_error: "credentials_match env c u p = Inl e \<Longrightarrow> e = TypeError"
  by (auto simp: credentials_match_def password_matches_def compare_digest_def res_bind_def split: option.splits sum.splits if_splits)

lemma authenticate_guess: "admin_password c \<noteq> None \<or> admin_password_hash c \<noteq> None \<Longrightarrow>
    authenticate_password env c rq u p = guess env c (source_of rq) ''invalid credentials'' (lift_result (credentials_match env c u p))"
  by (auto simp: authenticate_password_def guess_def)

definition code_test :: "auth_env \<Rightarrow> web_config \<Rightarrow> string \<Rightarrow> (auth_state, bool) action" where
  "code_test env c totp = (case admin_totp_secret c of None \<Rightarrow> ret False
     | Some secret \<Rightarrow> andthen (read_wall env) (\<lambda>wall. lift_result (verify_code (ae_hmac env) wall secret totp)))"

lemma totp_guess: "admin_totp_enabled c \<Longrightarrow> is_set t \<Longrightarrow>
    check_totp env c rq t = guess env c (''totp:'' @ source_of rq) ''invalid_totp_code'' (code_test env c (the t))"
  by (simp add: check_totp_def guess_def code_test_def Let_def)

lemma code_test_reads: "only_reads (code_test env c t)"
  unfolding code_test_def by (cases "admin_totp_secret c") (auto intro!: only_reads_andthen only_reads_intros)

lemma only_reads_moves:
  assumes "only_reads m"
  shows "moves (same_failures key) m" "moves later m" "moves (same_sessions c) m"
proof -
  have one: "same_failures key st (snd (m st)) \<and> later st (snd (m st)) \<and> same_sessions c st (snd (m st))" for st
  proof -
    from assms obtain n where "st_reads st \<le> n" "snd (m st) = st\<lparr>st_reads := n\<rparr>" unfolding only_reads_def by blast
    then show ?thesis by (simp add: same_failures_def later_def same_sessions_def)
  qed
  then show "moves (same_failures key) m" "moves later m" "moves (same_sessions c) m" by (simp_all add: moves_def)
qed

lemma authenticate_moves:
  "moves (same_sessions c) (authenticate_password env c rq u p)"
  "source_of rq \<noteq> key \<Longrightarrow> moves (same_failures key) (authenticate_password env c rq u p)"
  "moves later (authenticate_password env c rq u p)"
  unfolding authenticate_password_def
  by (intro sessions.moves_rules check_allowed_moves fail_login_moves clear_moves,
      intro failures.moves_rules check_allowed_moves fail_login_moves clear_moves, assumption+)
    (intro later.moves_rules check_allowed_moves fail_login_moves on_registry_later)

lemma code_test_moves: "moves (same_sessions c) (code_test env c t)" "moves (same_failures key) (code_test env c t)" "moves later (code_test env c t)"
  by (rule only_reads_moves [OF code_test_reads])+

lemma check_totp_moves:
  "moves (same_sessions c) (check_totp env c rq t)"
  "''totp:'' @ source_of rq \<noteq> key \<Longrightarrow> moves (same_failures key) (check_totp env c rq t)"
  "moves later (check_totp env c rq t)"
  unfolding check_totp_def Let_def code_test_def [symmetric]
  by (intro sessions.moves_rules check_allowed_moves fail_login_moves clear_moves code_test_moves,
      intro failures.moves_rules check_allowed_moves fail_login_moves clear_moves code_test_moves, assumption+)
    (intro later.moves_rules check_allowed_moves fail_login_moves on_registry_later code_test_moves)

lemma create_moves: "moves (same_failures key) (create_session env c u)" "moves later (create_session env c u)"
  unfolding create_session_def
  by (intro failures.moves_rules reads_move draw_moves on_registry_failures, simp add: locked_steps)
    (intro later.moves_rules reads_move draw_moves on_registry_later)

lemma cookie_moves: "moves (same_failures key) (cookie_session env c k)" "moves later (cookie_session env c k)"
proof -
  let ?peek = "\<lambda>t1 (st :: auth_state). case sr_sessions (prune_sessions t1 (auth_registry c st)) (the k) of
         None \<Rightarrow> ret t1 st | Some _ \<Rightarrow> read_clock env st"
  have p: "moves (same_failures key) (?peek t1)" "moves later (?peek t1)" for t1
    by (auto simp: moves_def same_failures_def later_def ret_def read_clock_def split: option.split)
  show "moves (same_failures key) (cookie_session env c k)" "moves later (cookie_session env c k)"
    unfolding cookie_session_def
    by (intro failures.moves_rules reads_move on_registry_failures p, simp add: locked_steps)
      (intro later.moves_rules reads_move on_registry_later p)
qed

lemma require_moves:
  "source_of rq \<noteq> key \<Longrightarrow> moves (same_failures key) (require_admin env c rq)"
  "moves later (require_admin env c rq)"
proof -
  have "source_of rq \<noteq> key \<Longrightarrow> moves (same_failures key) (require_basic env c rq)" "moves later (require_basic env c rq)"
    unfolding require_basic_def
    by (auto split: option.split intro!: failures.moves_rules authenticate_moves)
      (auto split: option.split intro!: later.moves_rules authenticate_moves)
  then show "source_of rq \<noteq> key \<Longrightarrow> moves (same_failures key) (require_admin env c rq)" "moves later (require_admin env c rq)"
    unfolding require_admin_def
    by (auto split: option.split intro!: failures.moves_rules cookie_moves)
      (auto split: option.split intro!: later.moves_rules cookie_moves)
qed

lemma login_moves:
  "source_of rq \<noteq> key \<Longrightarrow> ''totp:'' @ source_of rq \<noteq> key \<Longrightarrow> moves (same_failures key) (login env c rq u p t)"
  "moves later (login env c rq u p t)"
  unfolding login_def
  by (intro failures.moves_rules authenticate_moves check_totp_moves create_moves, assumption+)
    (intro later.moves_rules authenticate_moves check_totp_moves create_moves)

lemma logout_moves: "moves (same_failures key) (logout c rq)" "moves later (logout c rq)"
  unfolding logout_def
  by (intro failures.moves_rules on_registry_failures, simp add: locked_steps) (intro later.moves_rules on_registry_later)

lemma panel_step_later: "later st (snd (panel_step env c ev st))"
  using login_moves(2) require_moves(2) logout_moves(2) by (cases ev) (simp_all add: reply_of_def moves_def)

lemma other_source:
  assumes "event_source ev \<noteq> key" "''totp:'' @ event_source ev \<noteq> key"
  shows "same_failures key st (snd (panel_step env c ev st))"
  using assms login_moves(1) require_moves(1) logout_moves(1)
  by (cases ev) (simp_all add: reply_of_def moves_def event_source_def)

section \<open>Guesses of one client\<close>

text \<open>A step that leaves the failures alone and is not counted satisfies the bound.\<close>

lemma uncounted:
  assumes "same_failures key st st'" "\<not> b"
  shows "recent t0 key st + (if b then 1 else 0) \<le> recent t0 key st' \<and> (b \<longrightarrow> recent t0 key st < 5)"
  using assms by (simp add: same_failures_def recent_def)

lemma guess_fails: "q \<noteq> Inr True \<Longrightarrow> fst (guess env c key d (lift_result q) st) \<noteq> Inr ()"
  by (auto simp: guess_def andthen_def lift_result_def fail_login_run split: prod.splits sum.splits)

lemma wrong_never_passes:
  assumes "credentials_match env c u p \<noteq> Inr True"
  shows "fst (authenticate_password env c rq u p st) \<noteq> Inr ()"
proof (cases "admin_password c = None \<and> admin_password_hash c = None")
  case True
  then show ?thesis by (simp add: authenticate_password_def throw_def)
next
  case False
  then show ?thesis using guess_fails [OF assms] authenticate_guess by metis
qed

lemma password_step:
  assumes run: "authenticate_password env c rq u p st = (r, st')" and "clock_mono env"
    and wrong: "credentials_match env c u p \<noteq> Inr True"
    and time: "t0 \<le> ae_clock env (st_reads st)" "ae_clock env (st_reads st') \<le> t0 + failure_window"
  shows "\<exists>e. r = Inl e \<and> (let b = (Refused e = Refused (HttpError 401 ''invalid credentials'')) in
    recent t0 (source_of rq) st + (if b then 1 else 0) \<le> recent t0 (source_of rq) st' \<and> (b \<longrightarrow> recent t0 (source_of rq) st < 5))"
proof (cases "admin_password c = None \<and> admin_password_hash c = None")
  case True
  with run show ?thesis by (auto simp: authenticate_password_def throw_def)
next
  case False
  then have g: "guess env c (source_of rq) ''invalid credentials'' (lift_result (credentials_match env c u p)) st = (r, st')"
    using run authenticate_guess by (metis)
  have "r \<noteq> Inr ()" using run wrong_never_passes [OF wrong] by (metis fst_conv)
  moreover have "fst (lift_result (credentials_match env c u p) s) \<noteq> Inl (HttpError 401 x)" for s :: auth_state and x
    using credentials_error [of env c u p] by (auto simp: lift_result_def)
  ultimately have "recent t0 (source_of rq) st' = recent t0 (source_of rq) st + (if r = Inl (HttpError 401 ''invalid credentials'') then 1 else 0)
    \<and> (r = Inl (HttpError 401 ''invalid credentials'') \<longrightarrow> recent t0 (source_of rq) st < 5)"
    using guess_step [OF g only_reads_intros(3) assms(2) time] by blast
  with \<open>r \<noteq> Inr ()\<close> show ?thesis by (cases r) auto
qed

text \<open>The parts of a request before and after the password check.\<close>

lemma cookie_session_ok: "\<exists>x st'. cookie_session env c k st = (Inr x, st')"
  by (auto simp: cookie_session_def andthen_def read_clock_def on_registry_def ret_def split: option.split prod.split)

lemma require_cases:
  obtains (basic) s1 where "cookie_session env c (rq_cookie rq) st = (Inr None, s1)"
      "require_admin env c rq st = require_basic env c rq s1"
  | (session) s s1 where "cookie_session env c (rq_cookie rq) st = (Inr (Some s), s1)"
      "snd (require_admin env c rq st) = s1"
      "fst (require_admin env c rq st) = (if mutating (rq_method rq)
         then res_bind (compare_digest (header_or_empty rq ''x-korserver-csrf'') (as_csrf s))
           (\<lambda>same. if same then Inr (as_username s, Some s) else Inl (HttpError 403 ''CSRF validation failed''))
         else Inr (as_username s, Some s))"
proof -
  obtain x s1 where x: "cookie_session env c (rq_cookie rq) st = (Inr x, s1)" using cookie_session_ok by blast
  show thesis
  proof (cases x)
    case None
    show thesis by (rule basic [of s1]) (use x None in \<open>simp_all add: require_admin_def andthen_def\<close>)
  next
    case (Some s)
    show thesis
      by (rule session [of s s1]) (use x Some in \<open>auto simp: require_admin_def andthen_def lift_result_def ret_def
          throw_def res_bind_def split: sum.split\<close>)
  qed
qed

lemma basic_cases:
  obtains (refused) "require_basic env c rq st = (Inl (HttpError 401 ''authentication required''), st)"
      "parse_basic_authorization (rq_header rq ''authorization'') = None"
  | (wrong) cr e st1 where "parse_basic_authorization (rq_header rq ''authorization'') = Some cr"
      "authenticate_password env c rq (bc_username cr) (bc_password cr) st = (Inl e, st1)"
      "require_basic env c rq st = (Inl e, st1)"
  | (right) cr st1 where "parse_basic_authorization (rq_header rq ''authorization'') = Some cr"
      "authenticate_password env c rq (bc_username cr) (bc_password cr) st = (Inr (), st1)"
      "require_basic env c rq st = ((if mutating (rq_method rq)
          then res_bind (reject_cross_origin rq) (\<lambda>_. Inr (bc_username cr, None)) else Inr (bc_username cr, None)), st1)"
proof (cases "parse_basic_authorization (rq_header rq ''authorization'')")
  case None
  then show thesis by (intro refused) (simp_all add: require_basic_def throw_def)
next
  case (Some cr)
  obtain r st1 where a: "authenticate_password env c rq (bc_username cr) (bc_password cr) st = (r, st1)" by force
  show thesis
  proof (cases r)
    case (Inl e)
    show thesis by (rule wrong [OF Some, of e st1]) (use a Inl Some in \<open>simp_all add: require_basic_def andthen_def\<close>)
  next
    case (Inr x)
    show thesis by (rule right [OF Some, of st1]) (use a Inr Some in \<open>auto simp: require_basic_def andthen_def
        lift_result_def ret_def res_bind_def split: sum.split\<close>)
  qed
qed

lemma logout_ok: "fst (logout c rq st) = Inr ()"
  by (simp add: logout_def on_registry_def ret_def)

text \<open>One event of a client that never offers the credentials.\<close>

lemma wrong_password_step:
  assumes "clock_mono env" and run: "panel_step env c ev st = (rep, st')"
    and time: "t0 \<le> ae_clock env (st_reads st)" "ae_clock env (st_reads st') \<le> t0 + failure_window"
    and mine: "event_source ev = s \<Longrightarrow> \<not> offers_credentials env c ev"
    and other: "event_source ev \<noteq> s \<Longrightarrow> ''totp:'' @ event_source ev \<noteq> s"
  shows "recent t0 s st + (if event_source ev = s \<and> wrong_password rep then 1 else 0) \<le> recent t0 s st'
    \<and> (event_source ev = s \<and> wrong_password rep \<longrightarrow> recent t0 s st < 5)"
proof (cases "event_source ev = s")
  case False
  then show ?thesis using other_source [OF False other] run by (intro uncounted) (metis snd_conv, simp)
next
  case True
  show ?thesis
  proof (cases ev)
    case (Login rq u p t)
    then have s: "source_of rq = s" using True by (simp add: event_source_def)
    obtain r s1 where a: "authenticate_password env c rq u p st = (r, s1)" by force
    from mine [OF True] Login have w: "credentials_match env c u p \<noteq> Inr True" by simp
    have "ae_clock env (st_reads s1) \<le> t0 + failure_window"
    proof -
      have "r \<noteq> Inr ()" using a wrong_never_passes [OF w] by (metis fst_conv)
      then have "s1 = st'" using run a Login by (cases r) (auto simp: login_def andthen_def reply_of_def)
      with time(2) show ?thesis by simp
    qed
    from password_step [OF a assms(1) w time(1) this] obtain e where e: "r = Inl e"
      "let b = (Refused e = Refused (HttpError 401 ''invalid credentials'')) in
        recent t0 s st + (if b then 1 else 0) \<le> recent t0 s s1 \<and> (b \<longrightarrow> recent t0 s st < 5)"
      by (auto simp: s)
    then have "rep = Refused e" "st' = s1" using run a Login by (simp_all add: login_def andthen_def reply_of_def)
    with e(2) True show ?thesis by (simp add: wrong_password_def Let_def)
  next
    case (Request rq)
    then have s: "source_of rq = s" using True by (simp add: event_source_def)
    from run Request have run': "rep = (case fst (require_admin env c rq st) of Inl e \<Rightarrow> Refused e | Inr (u, x) \<Rightarrow> Runs_As u x)"
      "st' = snd (require_admin env c rq st)"
      by (auto simp: reply_of_def split: sum.split)
    from require_cases [of env c rq st] show ?thesis
    proof cases
      case (session se s1)
      then have "same_failures s st st'" using cookie_moves(1) [of s env c "rq_cookie rq"] run'(2) by (metis moves_def snd_conv)
      moreover have "\<not> wrong_password rep"
        unfolding run'(1) session(3) by (auto simp: wrong_password_def res_bind_def compare_digest_def split: sum.splits if_splits)
      ultimately show ?thesis by (intro uncounted) simp_all
    next
      case (basic s1)
      then have s1: "same_failures s st s1" using cookie_moves(1) [of s env c "rq_cookie rq"] by (metis moves_def snd_conv)
      have t1: "t0 \<le> ae_clock env (st_reads s1)"
        using s1 time(1) assms(1) unfolding clock_mono_def same_failures_def by (meson order_trans)
      from basic_cases [of env c rq s1] show ?thesis
      proof cases
        case refused
        then show ?thesis using s1 basic run' by (intro uncounted) (simp_all add: wrong_password_def)
      next
        case (wrong cr e st1)
        have w: "credentials_match env c (bc_username cr) (bc_password cr) \<noteq> Inr True"
          using mine [OF True] Request wrong(1) by simp
        have "st' = st1" "rep = Refused e" using run' basic wrong by simp_all
        with password_step [OF wrong(2) assms(1) w t1] time(2) s1 True show ?thesis
          by (simp add: s wrong_password_def Let_def same_failures_def recent_def)
      next
        case (right cr st1)
        have w: "credentials_match env c (bc_username cr) (bc_password cr) \<noteq> Inr True"
          using mine [OF True] Request right(1) by simp
        have "st' = st1" using run' basic right by simp
        with password_step [OF right(2) assms(1) w t1] time(2) show ?thesis by simp
      qed
    qed
  next
    case (Logout rq)
    with run have "same_failures s st st'" "\<not> wrong_password rep"
      using logout_moves(1) [of s c rq] by (auto simp: reply_of_def moves_def logout_ok wrong_password_def)
    then show ?thesis by (intro uncounted) simp_all
  qed
qed

text \<open>One event of a client whose codes are never accepted.\<close>

lemma pack_counter_error: "pack_counter n = Inl e \<Longrightarrow> e = ValueError"
  unfolding pack_counter_def by (metis sum.distinct(1) sum.inject(1))

lemma b32_decode_error: "b32_decode x = Inl e \<Longrightarrow> e = ValueError"
  unfolding b32_decode_def Let_def by (simp split: if_splits option.splits)

lemma code_error: "code_at hmac secret n = Inl e \<Longrightarrow> e = ValueError"
  unfolding code_at_def Let_def res_bind_def
  by (auto simp del: One_nat_def split: sum.splits if_splits dest: b32_decode_error pack_counter_error)

lemma verify_at_error: "verify_at hmac secret totp ns = Inl e \<Longrightarrow> e \<in> {ValueError, TypeError}"
  by (induction ns) (auto simp: res_bind_def compare_digest_def split: sum.splits if_splits dest: code_error)

lemma code_test_error: "fst (code_test env c t st) \<noteq> Inl (HttpError 401 x)"
  by (auto simp: code_test_def andthen_def read_wall_def lift_result_def ret_def verify_code_def Let_def
      simp del: verify_at.simps split: option.splits if_splits dest: verify_at_error)

lemma login_cases:
  obtains (password) e s1 where "authenticate_password env c rq u p st = (Inl e, s1)" "login env c rq u p t st = (Inl e, s1)"
  | (code) e s1 s2 where "authenticate_password env c rq u p st = (Inr (), s1)" "check_totp env c rq t s1 = (Inl e, s2)"
      "login env c rq u p t st = (Inl e, s2)"
  | (granted) tok se s1 s2 s3 where "authenticate_password env c rq u p st = (Inr (), s1)" "check_totp env c rq t s1 = (Inr (), s2)"
      "create_session env c u s2 = (Inr (tok, se), s3)" "login env c rq u p t st = (Inr (tok, se), s3)"
proof -
  obtain r1 s1 where a: "authenticate_password env c rq u p st = (r1, s1)" by force
  obtain r2 s2 where b: "check_totp env c rq t s1 = (r2, s2)" by force
  have c: "\<exists>tok se s3. create_session env c u s2 = (Inr (tok, se), s3)"
    by (simp add: create_session_def andthen_def read_clock_def draw_token_def on_registry_def ret_def split: prod.split)
  show thesis
  proof (cases r1)
    case (Inl e)
    show thesis by (rule password [of e s1]) (use a Inl in \<open>simp_all add: login_def andthen_def\<close>)
  next
    case Inr1: (Inr x)
    show thesis
    proof (cases r2)
      case (Inl e)
      show thesis by (rule code [of s1 e s2]) (use a b Inr1 Inl in \<open>simp_all add: login_def andthen_def\<close>)
    next
      case (Inr y)
      from c obtain tok se s3 where "create_session env c u s2 = (Inr (tok, se), s3)" by blast
      with a b Inr1 Inr show thesis by (intro granted [of s1 s2 tok se s3]) (simp_all add: login_def andthen_def)
    qed
  qed
qed

lemma password_reply:
  assumes "authenticate_password env c rq u p st = (Inl e, s1)"
  shows "e \<noteq> HttpError 401 ''invalid_totp_code''"
  using assms by (auto simp: authenticate_password_def check_allowed_run andthen_def lift_result_def fail_login_run throw_def
      on_registry_def Let_def split: if_splits sum.splits prod.splits dest: credentials_error)

lemma request_reply: "fst (require_admin env c rq st) \<noteq> Inl (HttpError 401 ''invalid_totp_code'')"
  using require_cases [of env c rq st]
proof cases
  case (basic s1)
  from basic_cases [of env c rq s1] show ?thesis
    by cases (auto simp: basic(2) res_bind_def reject_cross_origin_def url_hostname_def Let_def
        dest: password_reply split: sum.splits option.splits if_splits)
next
  case (session s s1)
  show ?thesis unfolding session(3) by (auto simp: res_bind_def compare_digest_def split: sum.splits)
qed

lemma wrong_code_step:
  assumes mono: "clock_mono env" and run: "panel_step env c ev st = (rep, st')"
    and time: "t0 \<le> ae_clock env (st_reads st)" "ae_clock env (st_reads st') \<le> t0 + failure_window"
    and mine: "event_source ev = s \<Longrightarrow> \<not> is_granted rep"
    and other: "event_source ev \<noteq> ''totp:'' @ s"
  shows "recent t0 (''totp:'' @ s) st + (if event_source ev = s \<and> wrong_code rep then 1 else 0) \<le> recent t0 (''totp:'' @ s) st'
    \<and> (event_source ev = s \<and> wrong_code rep \<longrightarrow> recent t0 (''totp:'' @ s) st < 5)"
proof (cases "event_source ev = s")
  case False
  then show ?thesis using other_source [OF other] run by (intro uncounted) (metis snd_conv same_append_eq, simp)
next
  case True
  show ?thesis
  proof (cases ev)
    case (Login rq u p t)
    then have s: "source_of rq = s" using True by (simp add: event_source_def)
    have key: "source_of rq \<noteq> ''totp:'' @ s" using other Login by (simp add: event_source_def)
    from login_cases [of env c rq u p st t] show ?thesis
    proof cases
      case (password e s1)
      with run Login have "rep = Refused e" "st' = s1" by (simp_all add: reply_of_def)
      moreover have "same_failures (''totp:'' @ s) st s1"
        using authenticate_moves(2) [OF key, of env c u p] password(1) by (metis moves_def snd_conv)
      ultimately show ?thesis using password_reply [OF password(1)] by (intro uncounted) (simp_all add: wrong_code_def)
    next
      case (code e s1 s2)
      have f: "same_failures (''totp:'' @ s) st s1"
        using authenticate_moves(2) [OF key, of env c u p] code(1) by (metis moves_def snd_conv)
      then have t1: "t0 \<le> ae_clock env (st_reads s1)"
        using time(1) mono unfolding clock_mono_def same_failures_def by (meson order_trans)
      from code(3) run Login have rep: "rep = Refused e" "st' = s2" by (simp_all add: reply_of_def)
      show ?thesis
      proof (cases "admin_totp_enabled c \<and> is_set t")
        case False
        with code(2) have "s2 = s1" "e = HttpError 401 ''totp_code_required''"
          by (auto simp: check_totp_def ret_def throw_def Let_def split: if_splits)
        with f rep show ?thesis by (intro uncounted) (simp_all add: wrong_code_def)
      next
        case True
        then have "guess env c (''totp:'' @ source_of rq) ''invalid_totp_code'' (code_test env c (the t)) s1 = (Inl e, s2)"
          using totp_guess [of c t env rq] code(2) by simp
        from guess_step [OF this code_test_reads mono t1 _ _ code_test_error] time(2) rep
        have "recent t0 (''totp:'' @ s) s2 = recent t0 (''totp:'' @ s) s1 + (if e = HttpError 401 ''invalid_totp_code'' then 1 else 0)
          \<and> (e = HttpError 401 ''invalid_totp_code'' \<longrightarrow> recent t0 (''totp:'' @ s) s1 < 5)"
          by (simp add: s)
        with f rep show ?thesis by (auto simp: wrong_code_def same_failures_def recent_def)
      qed
    next
      case (granted tok se s1 s2 s3)
      then have "rep = Granted tok se" using run Login by (auto simp: reply_of_def)
      with mine [OF True] show ?thesis by (simp add: is_granted_def)
    qed
  next
    case (Request rq)
    then have key: "source_of rq \<noteq> ''totp:'' @ s" using other by (simp add: event_source_def)
    from run Request have "st' = snd (require_admin env c rq st)" "\<not> wrong_code rep"
      using request_reply [of env c rq st] by (auto simp: reply_of_def wrong_code_def split: sum.splits)
    then show ?thesis using require_moves(1) [OF key] by (intro uncounted) (simp_all add: moves_def)
  next
    case (Logout rq)
    with run have "same_failures (''totp:'' @ s) st st'" "\<not> wrong_code rep"
      using logout_moves(1) [of "''totp:'' @ s" c rq] by (auto simp: reply_of_def moves_def logout_ok wrong_code_def)
    then show ?thesis by (intro uncounted) simp_all
  qed
qed

end
