(* ===== verification/Auth_History.thy ===== *)
theory Auth_History
  imports Auth_Panel
begin

text \<open>
  Which login a cookie stands for. The history of the panel is an inductive relation between the
  log of answered events (newest first) and the state; \<open>standing\<close> reads off the log what a
  registry of sessions promises, and the invariant says the code's registry holds no more.
\<close>

section \<open>Histories\<close>

type_synonym panel_log = "(web_config \<times> panel_event \<times> panel_reply) list"

inductive panel_history :: "auth_env \<Rightarrow> panel_log \<Rightarrow> auth_state \<Rightarrow> bool" for env where
  started: "panel_history env [] \<lparr>st_registry = None, st_reads = n, st_draws = k\<rparr>"
| answered: "panel_history env log st \<Longrightarrow> panel_step env c ev st = (rep, st') \<Longrightarrow> panel_history env ((c, ev, rep) # log) st'"

text \<open>The login the cookie was granted by, unless it was logged out since.\<close>

fun standing :: "panel_log \<Rightarrow> string \<Rightarrow> (web_config \<times> panel_event \<times> admin_session) option" where
  "standing [] tok = None"
| "standing ((c, Login rq u p t, Granted k s) # log) tok = (if k = tok then Some (c, Login rq u p t, s) else standing log tok)"
| "standing ((c, Logout rq, rep) # log) tok = (if is_set (rq_cookie rq) \<and> rq_cookie rq = Some tok then None else standing log tok)"
| "standing (e # log) tok = standing log tok"

text \<open>The credentials of a login were the configured ones, with a right code where one is asked for.\<close>

definition authentic :: "auth_env \<Rightarrow> web_config \<Rightarrow> string \<Rightarrow> string \<Rightarrow> string option \<Rightarrow> bool" where
  "authentic env c u p t = (credentials_match env c u p = Inr True
     \<and> (admin_totp_enabled c \<longrightarrow> is_set t \<and> (\<exists>wall secret. admin_totp_secret c = Some secret
          \<and> verify_code (ae_hmac env) wall secret (the t) = Inr True)))"

definition same_grant :: "admin_session \<Rightarrow> admin_session \<Rightarrow> bool" where
  "same_grant a b = (as_username a = as_username b \<and> as_csrf a = as_csrf b \<and> as_created a = as_created b)"

lemma same_grant_refl [simp]: "same_grant a a"
  by (simp add: same_grant_def)

section \<open>Steps that add no session\<close>

definition fewer :: "web_config \<Rightarrow> auth_state \<Rightarrow> auth_state \<Rightarrow> bool" where
  "fewer c st st' = ((\<forall>tok s'. sr_sessions (auth_registry c st') tok = Some s'
       \<longrightarrow> (\<exists>s. sr_sessions (auth_registry c st) tok = Some s \<and> same_grant s s'))
     \<and> sr_lifetime (auth_registry c st') = sr_lifetime (auth_registry c st))"

interpretation fewer: step_order "fewer c" for c
proof
  show "fewer c st st" for st by (auto simp: fewer_def)
  show "fewer c a d" if "fewer c a b" "fewer c b d" for a b d
    using that unfolding fewer_def same_grant_def by metis
qed

lemma same_fewer: "same_sessions c st st' \<Longrightarrow> fewer c st st'"
  by (simp add: fewer_def same_sessions_def)

lemma moves_fewer: "moves (same_sessions c) m \<Longrightarrow> moves (fewer c) m"
  by (simp add: moves_def same_fewer)

lemma on_registry_fewer:
  assumes "\<And>r tok s'. sr_sessions (snd (f r)) tok = Some s' \<Longrightarrow> \<exists>s. sr_sessions r tok = Some s \<and> same_grant s s'"
    "\<And>r. sr_lifetime (snd (f r)) = sr_lifetime r"
  shows "moves (fewer c) (on_registry c f)"
  unfolding moves_def
proof
  fix st
  obtain x r where "f (auth_registry c st) = (x, r)" by force
  with assms(1) [of "auth_registry c st"] assms(2) [of "auth_registry c st"]
  show "fewer c st (snd (on_registry c f st))" by (simp add: on_registry_def fewer_def)
qed

lemma prune_sub: "sr_sessions (prune_sessions t r) tok = Some s \<longleftrightarrow> sr_sessions r tok = Some s \<and> \<not> session_expired t r s"
  by (auto simp: prune_sessions_def split: option.splits if_splits)

lemma prune_lifetime [simp]: "sr_lifetime (prune_sessions t r) = sr_lifetime r"
  by (simp add: prune_sessions_def)

lemma get_fewer: "moves (fewer c) (on_registry c (registry_get t1 t2 tok))"
  by (rule on_registry_fewer) (auto simp: registry_get_def Let_def prune_sub same_grant_def split: option.splits if_splits)

lemma revoke_fewer: "moves (fewer c) (on_registry c (\<lambda>r. ((), registry_revoke tok r)))"
  by (rule on_registry_fewer) (auto simp: registry_revoke_def split: if_splits)

lemma cookie_fewer: "moves (fewer c) (cookie_session env c k)"
proof -
  have p: "moves (fewer c) (\<lambda>(st :: auth_state). case sr_sessions (prune_sessions t1 (auth_registry c st)) (the k) of
         None \<Rightarrow> ret t1 st | Some _ \<Rightarrow> read_clock env st)" for t1
    by (auto simp: moves_def ret_def read_clock_def fewer_def split: option.split)
  show ?thesis unfolding cookie_session_def
    by (intro fewer.moves_rules moves_fewer reads_move get_fewer p)
qed

lemma require_fewer: "moves (fewer c) (require_admin env c rq)"
proof -
  have "moves (fewer c) (require_basic env c rq)"
    unfolding require_basic_def
    by (auto split: option.split intro!: fewer.moves_rules moves_fewer [OF authenticate_moves(1)])
  then show ?thesis unfolding require_admin_def
    by (auto split: option.split intro!: fewer.moves_rules cookie_fewer)
qed

lemma logout_fewer: "moves (fewer c) (logout c rq)"
  unfolding logout_def by (intro fewer.moves_rules revoke_fewer)

section \<open>The registry against the log\<close>

definition registered :: "auth_env \<Rightarrow> panel_log \<Rightarrow> auth_state \<Rightarrow> bool" where
  "registered env log st = (\<forall>r. st_registry st = Some r \<longrightarrow>
     (\<exists>c1 \<in> fst ` set log. sr_lifetime r = nat (session_lifetime c1) * 1000)
     \<and> (\<forall>tok s. sr_sessions r tok = Some s \<longrightarrow> (\<exists>c rq u p t g. standing log tok = Some (c, Login rq u p t, g)
          \<and> same_grant g s \<and> as_username g = u \<and> authentic env c u p t)))"

lemma registered_fewer:
  assumes "registered env log st" "fewer c st st'" and e: "fst e = c"
    and "\<And>tok s. st_registry st' = Some r \<Longrightarrow> sr_sessions r tok = Some s \<Longrightarrow> standing (e # log) tok = standing log tok"
    and "st_registry st' = Some r"
  shows "(\<exists>c1 \<in> fst ` set (e # log). sr_lifetime r = nat (session_lifetime c1) * 1000)
     \<and> (\<forall>tok s. sr_sessions r tok = Some s \<longrightarrow> (\<exists>c rq u p t g. standing (e # log) tok = Some (c, Login rq u p t, g)
          \<and> same_grant g s \<and> as_username g = u \<and> authentic env c u p t))"
proof -
  have r: "auth_registry c st' = r" using assms(5) by (simp add: auth_registry_def)
  show ?thesis
  proof (cases "st_registry st")
    case None
    then have "auth_registry c st = new_registry (session_lifetime c)" by (simp add: auth_registry_def)
    with assms(2) e show ?thesis by (auto simp: fewer_def r new_registry_def)
  next
    case (Some q)
    then have q: "auth_registry c st = q" by (simp add: auth_registry_def)
    have life: "sr_lifetime r = sr_lifetime q" and sub: "\<And>tok s'. sr_sessions r tok = Some s' \<Longrightarrow>
        \<exists>s. sr_sessions q tok = Some s \<and> same_grant s s'"
      using assms(2) by (auto simp: fewer_def r q)
    have "\<exists>c rq u p t g. standing (e # log) tok = Some (c, Login rq u p t, g) \<and> same_grant g s \<and> as_username g = u \<and> authentic env c u p t"
      if s: "sr_sessions r tok = Some s" for tok s
    proof -
      from sub [OF s] obtain s0 where "sr_sessions q tok = Some s0" "same_grant s0 s" by blast
      with assms(1) Some assms(4) [OF assms(5) s] show ?thesis
        by (auto simp: registered_def same_grant_def) metis
    qed
    moreover have "\<exists>c1 \<in> fst ` set (e # log). sr_lifetime r = nat (session_lifetime c1) * 1000"
      using assms(1) Some life by (auto simp: registered_def)
    ultimately show ?thesis by blast
  qed
qed

lemma standing_refused: "standing ((c, ev, Refused e) # log) tok = standing log tok \<or> (\<exists>rq. ev = Logout rq)"
  by (cases ev) simp_all

lemma standing_request: "standing ((c, Request rq, rep) # log) tok = standing log tok"
  by simp

lemma create_run:
  "create_session env c u st = (let t1 = ae_clock env (st_reads st); now = ae_clock env (st_reads st + 1);
      tok = ae_token env (st_draws st); csrf = ae_token env (st_draws st + 1) in
    case registry_create t1 now tok csrf u (auth_registry c st) of (s, r) \<Rightarrow>
      (Inr (tok, s), st\<lparr>st_registry := Some r, st_reads := st_reads st + 2, st_draws := st_draws st + 2\<rparr>))"
  by (simp add: create_session_def andthen_def read_clock_def draw_token_def on_registry_def ret_def auth_registry_def
      registry_create_def Let_def split: prod.split option.split)

text \<open>A password or code that was accepted was right.\<close>

lemma password_right:
  "authenticate_password env c rq u p st = (Inr (), st') \<Longrightarrow> credentials_match env c u p = Inr True"
  using wrong_never_passes by (metis fst_conv)

lemma code_right:
  assumes "check_totp env c rq t st = (Inr (), st')" "admin_totp_enabled c"
  shows "is_set t \<and> (\<exists>wall secret. admin_totp_secret c = Some secret \<and> verify_code (ae_hmac env) wall secret (the t) = Inr True)"
proof -
  have t: "is_set t" using assms by (auto simp: check_totp_def throw_def Let_def split: if_splits)
  from assms totp_guess [OF assms(2) t]
  have g: "guess env c (''totp:'' @ source_of rq) ''invalid_totp_code'' (code_test env c (the t)) st = (Inr (), st')" by simp
  then obtain s1 s2 where "code_test env c (the t) s1 = (Inr True, s2)"
    by (auto simp: guess_def andthen_def fail_login_run split: prod.splits sum.splits if_splits)
  then show ?thesis using t
    by (auto simp: code_test_def andthen_def read_wall_def lift_result_def ret_def split: option.splits)
qed

lemma registered_login:
  assumes I: "registered env log st" and run: "panel_step env c (Login rq u p t) st = (rep, st')"
  shows "registered env ((c, Login rq u p t, rep) # log) st'"
  using login_cases [of env c rq u p st t]
proof cases
  case (password e s1)
  with run have r: "rep = Refused e" "st' = s1" by (auto simp: reply_of_def)
  have "fewer c st st'" using authenticate_moves(1) [of c env rq u p] password(1) r(2)
    by (metis moves_def same_fewer snd_conv)
  then show ?thesis unfolding registered_def by (intro allI impI registered_fewer [OF I]) (simp_all add: r)
next
  case (code e s1 s2)
  with run have r: "rep = Refused e" "st' = s2" by (auto simp: reply_of_def)
  have "same_sessions c st s1" "same_sessions c s1 s2"
    using authenticate_moves(1) [of c env rq u p] check_totp_moves(1) [of c env rq t] code by (metis moves_def snd_conv)+
  then have "fewer c st st'" unfolding r by (blast intro: same_fewer fewer.follows)
  then show ?thesis unfolding registered_def by (intro allI impI registered_fewer [OF I]) (simp_all add: r)
next
  case (granted tok se s1 s2 s3)
  with run have r: "rep = Granted tok se" "st' = s3" by (auto simp: reply_of_def)
  have "same_sessions c st s1" "same_sessions c s1 s2"
    using authenticate_moves(1) [of c env rq u p] check_totp_moves(1) [of c env rq t] granted by (metis moves_def snd_conv)+
  then have f: "fewer c st s2" by (blast intro: same_fewer fewer.follows)
  have ok: "authentic env c u p t" unfolding authentic_def using password_right [OF granted(1)] code_right [OF granted(2)] by blast
  let ?t1 = "ae_clock env (st_reads s2)" and ?q = "auth_registry c s2"
  from granted(3) have se: "as_username se = u" and reg: "st_registry s3 = Some ((prune_sessions ?t1 ?q)
      \<lparr>sr_sessions := (sr_sessions (prune_sessions ?t1 ?q))(tok \<mapsto> se)\<rparr>)"
    by (auto simp: create_run registry_create_def Let_def)
  define s2' where "s2' = s2\<lparr>st_registry := Some (prune_sessions ?t1 ?q\<lparr>sr_sessions := (sr_sessions (prune_sessions ?t1 ?q))(tok := None)\<rparr>)\<rparr>"
  have f': "fewer c st s2'"
    by (rule fewer.follows [OF f]) (auto simp: s2'_def fewer_def prune_sub split: if_splits)
  have I': "registered env ((c, Login rq u p t, rep) # log) s2'"
    unfolding registered_def
    by (intro allI impI registered_fewer [OF I f']) (auto simp: s2'_def r split: if_splits)
  show ?thesis unfolding registered_def
  proof (intro allI impI)
    fix r' assume "st_registry st' = Some r'"
    then have r': "r' = prune_sessions ?t1 ?q\<lparr>sr_sessions := (sr_sessions (prune_sessions ?t1 ?q))(tok \<mapsto> se)\<rparr>"
      by (simp add: r reg)
    have old: "(\<exists>c1 \<in> fst ` set ((c, Login rq u p t, rep) # log). sr_lifetime r' = nat (session_lifetime c1) * 1000)"
      using I' by (simp add: registered_def s2'_def r')
    have "\<exists>c2 rq2 u2 p2 t2 g. standing ((c, Login rq u p t, rep) # log) k = Some (c2, Login rq2 u2 p2 t2, g)
        \<and> same_grant g s \<and> as_username g = u2 \<and> authentic env c2 u2 p2 t2"
      if "sr_sessions r' k = Some s" for k s
    proof (cases "k = tok")
      case True
      with that ok se show ?thesis by (simp add: r' r)
    next
      case False
      with that have "sr_sessions (prune_sessions ?t1 ?q\<lparr>sr_sessions := (sr_sessions (prune_sessions ?t1 ?q))(tok := None)\<rparr>) k = Some s"
        by (simp add: r')
      with I' show ?thesis by (simp add: registered_def s2'_def)
    qed
    with old show "(\<exists>c1 \<in> fst ` set ((c, Login rq u p t, rep) # log). sr_lifetime r' = nat (session_lifetime c1) * 1000)
     \<and> (\<forall>tok s. sr_sessions r' tok = Some s \<longrightarrow> (\<exists>c' rq' u' p' t' g. standing ((c, Login rq u p t, rep) # log) tok = Some (c', Login rq' u' p' t', g)
          \<and> same_grant g s \<and> as_username g = u' \<and> authentic env c' u' p' t'))"
      by blast
  qed
qed

lemma history_registered: "panel_history env log st \<Longrightarrow> registered env log st"
proof (induction rule: panel_history.induct)
  case (started n k)
  then show ?case by (simp add: registered_def)
next
  case (answered log st c ev rep st')
  show ?case
  proof (cases ev)
    case (Login rq u p t)
    then show ?thesis using registered_login answered by blast
  next
    case (Request rq)
    have "fewer c st st'" using require_fewer answered(2) Request by (auto simp: reply_of_def moves_def)
    then show ?thesis unfolding registered_def
      by (intro allI impI registered_fewer [OF answered(3)]) (simp_all add: Request)
  next
    case (Logout rq)
    have f: "fewer c st st'" using logout_fewer answered(2) Logout by (auto simp: reply_of_def moves_def)
    have gone: "is_set (rq_cookie rq) \<Longrightarrow> st_registry st' = Some r \<Longrightarrow> sr_sessions r (the (rq_cookie rq)) = None" for r
      using answered(2) Logout by (auto simp: reply_of_def logout_def on_registry_def registry_revoke_def)
    show ?thesis unfolding registered_def
      by (intro allI impI registered_fewer [OF answered(3) f]) (use gone in \<open>auto simp: Logout\<close>)
  qed
qed

text \<open>What a cookie that is accepted needs.\<close>

lemma cookie_none:
  assumes "tok \<noteq> []" "sr_sessions (prune_sessions (ae_clock env (st_reads st)) (auth_registry c st)) tok = None"
  shows "cookie_session env c (Some tok) st = (Inr None, st\<lparr>st_reads := st_reads st + 1,
    st_registry := Some (prune_sessions (ae_clock env (st_reads st)) (auth_registry c st))\<rparr>)"
  using assms by (simp add: cookie_session_def is_set_def andthen_def read_clock_def ret_def on_registry_def registry_get_def Let_def)

lemma cookie_some:
  assumes "tok \<noteq> []" "sr_sessions (prune_sessions (ae_clock env (st_reads st)) (auth_registry c st)) tok = Some s"
    "s' = s\<lparr>as_expires := ae_clock env (st_reads st + 1) + sr_lifetime (auth_registry c st)\<rparr>"
    "r = prune_sessions (ae_clock env (st_reads st)) (auth_registry c st)"
  shows "cookie_session env c (Some tok) st = (Inr (Some s'), st\<lparr>st_reads := st_reads st + 2,
    st_registry := Some (r\<lparr>sr_sessions := (sr_sessions r)(tok \<mapsto> s')\<rparr>)\<rparr>)"
  using assms by (simp add: cookie_session_def is_set_def andthen_def read_clock_def ret_def on_registry_def registry_get_def Let_def)

lemma cookie_session_found:
  assumes "cookie_session env c k st = (Inr (Some s), st')"
  shows "\<exists>tok s0. k = Some tok \<and> tok \<noteq> [] \<and> sr_sessions (auth_registry c st) tok = Some s0 \<and> same_grant s0 s
    \<and> \<not> session_expired (ae_clock env (st_reads st)) (auth_registry c st) s0"
proof -
  from assms have "is_set k" by (auto simp: cookie_session_def ret_def split: if_splits)
  then obtain tok where tok: "k = Some tok" "tok \<noteq> []" by (cases k) (auto simp: is_set_def)
  let ?r = "prune_sessions (ae_clock env (st_reads st)) (auth_registry c st)"
  show ?thesis
  proof (cases "sr_sessions ?r tok")
    case None
    with assms cookie_none [OF tok(2) None] tok show ?thesis by simp
  next
    case (Some s0)
    then have "same_grant s0 s" using assms cookie_some [OF tok(2) Some refl refl] tok by (auto simp: same_grant_def)
    with Some tok show ?thesis by (auto simp: prune_sub)
  qed
qed

section \<open>A session in use\<close>

text \<open>The session of a grant is in the registry with at least the expiry it was granted with.\<close>

definition alive :: "string \<Rightarrow> admin_session \<Rightarrow> auth_state \<Rightarrow> bool" where
  "alive tok s st = (\<exists>r s1. st_registry st = Some r \<and> sr_sessions r tok = Some s1 \<and> same_grant s s1
     \<and> as_expires s \<le> as_expires s1 \<and> as_expires s = as_created s + sr_lifetime r)"

text \<open>It survives every step that reads the clock only between its grant and its first expiry.\<close>

definition survives :: "auth_env \<Rightarrow> string \<Rightarrow> admin_session \<Rightarrow> auth_state \<Rightarrow> auth_state \<Rightarrow> bool" where
  "survives env tok s st st' = (later st st' \<and>
     ((\<forall>n. st_reads st \<le> n \<and> n < st_reads st' \<longrightarrow> as_created s \<le> ae_clock env n \<and> ae_clock env n < as_expires s)
       \<longrightarrow> alive tok s st \<longrightarrow> alive tok s st'))"

interpretation survives: step_order "survives env tok s" for env tok s
proof
  show "survives env tok s st st" for st by (simp add: survives_def later_def)
  show "survives env tok s a d" if "survives env tok s a b" "survives env tok s b d" for a b d
    using that unfolding survives_def later_def by (meson less_le_trans order_trans)
qed

lemma same_alive: "same_sessions c st st' \<Longrightarrow> alive tok s st \<Longrightarrow> alive tok s st'"
  by (cases "st_registry st'") (auto simp: alive_def same_sessions_def auth_registry_def)

lemma same_survives: "moves (same_sessions c) m \<Longrightarrow> moves (survives env tok s) m"
  by (auto simp: moves_def survives_def later_def same_sessions_def intro: same_alive [unfolded same_sessions_def])

lemma alive_prune:
  assumes "alive tok s st" "t < as_expires s"
  obtains s1 where "sr_sessions (prune_sessions t (auth_registry c st)) tok = Some s1" "same_grant s s1"
    "as_expires s \<le> as_expires s1" "as_expires s = as_created s + sr_lifetime (auth_registry c st)"
proof -
  from assms(1) obtain r s1 where "st_registry st = Some r" "sr_sessions r tok = Some s1" "same_grant s s1"
    "as_expires s \<le> as_expires s1" "as_expires s = as_created s + sr_lifetime r" unfolding alive_def by blast
  with assms(2) show thesis
    by (intro that [of s1]) (auto simp: auth_registry_def prune_sub session_expired_def same_grant_def)
qed

lemma cookie_survives: "moves (survives env tok s) (cookie_session env c k)"
  unfolding moves_def
proof
  fix st
  show "survives env tok s st (snd (cookie_session env c k st))"
  proof (cases "is_set k")
    case False
    then show ?thesis by (simp add: cookie_session_def ret_def survives.stays)
  next
    case True
    then obtain tk where tk: "k = Some tk" "tk \<noteq> []" by (cases k) (auto simp: is_set_def)
    let ?r = "prune_sessions (ae_clock env (st_reads st)) (auth_registry c st)"
    show ?thesis
    proof (cases "sr_sessions ?r tk")
      case None
      have "alive tok s (snd (cookie_session env c k st))" if "alive tok s st" "ae_clock env (st_reads st) < as_expires s"
        by (rule alive_prune [OF that, of c]) (auto simp: tk(1) cookie_none [OF tk(2) None] alive_def)
      then show ?thesis by (simp add: survives_def tk(1) cookie_none [OF tk(2) None] later_def)
    next
      case (Some s0)
      have "alive tok s (snd (cookie_session env c k st))"
        if "alive tok s st" "ae_clock env (st_reads st) < as_expires s" "as_created s \<le> ae_clock env (st_reads st + 1)"
        by (rule alive_prune [OF that(1,2), of c])
          (use that(3) Some in \<open>auto simp: tk(1) cookie_some [OF tk(2) Some refl refl] alive_def same_grant_def\<close>)
      then show ?thesis by (simp add: survives_def tk(1) cookie_some [OF tk(2) Some refl refl] later_def)
    qed
  qed
qed

lemma require_survives: "moves (survives env tok s) (require_admin env' c rq)" if "env' = env"
proof -
  have "moves (survives env tok s) (require_basic env c rq)"
    unfolding require_basic_def
    by (auto split: option.split intro!: survives.moves_rules same_survives [OF authenticate_moves(1)])
  then show ?thesis unfolding require_admin_def that
    by (auto split: option.split intro!: survives.moves_rules cookie_survives)
qed

lemma create_survives:
  assumes "create_session env c u st = (Inr (tk, se), st')" "tk \<noteq> tok"
  shows "survives env tok s st st'"
proof -
  have "alive tok s st'" if "alive tok s st" "ae_clock env (st_reads st) < as_expires s"
    by (rule alive_prune [OF that, of c])
      (use assms in \<open>auto simp: create_run registry_create_def Let_def alive_def\<close>)
  then show ?thesis using assms(1) by (auto simp: survives_def later_def create_run registry_create_def Let_def)
qed

lemma step_survives:
  assumes "panel_step env c ev st = (rep, st')" "\<And>rq. ev = Logout rq \<Longrightarrow> rq_cookie rq \<noteq> Some tok" "\<And>s'. rep \<noteq> Granted tok s'"
  shows "survives env tok s st st'"
proof (cases ev)
  case (Login rq u p t)
  have pw: "survives env tok s st (snd (authenticate_password env c rq u p st))"
    and cd: "survives env tok s x (snd (check_totp env c rq t x))" for x
    using same_survives [OF authenticate_moves(1)] same_survives [OF check_totp_moves(1)] by (simp_all add: moves_def)
  from login_cases [of env c rq u p st t] show ?thesis
  proof cases
    case (password e s1)
    with pw assms(1) Login show ?thesis by (simp add: reply_of_def)
  next
    case (code e s1 s2)
    with pw cd [of s1] assms(1) Login show ?thesis by (auto simp: reply_of_def intro: survives.follows)
  next
    case (granted tk se s1 s2 s3)
    then have "rep = Granted tk se" "st' = s3" using assms(1) Login by (auto simp: reply_of_def)
    with assms(3) granted(3) have "survives env tok s s2 st'" by (blast intro: create_survives)
    moreover have "survives env tok s st s1" "survives env tok s s1 s2" using pw cd [of s1] granted by simp_all
    ultimately show ?thesis by (blast intro: survives.follows)
  qed
next
  case (Request rq)
  with assms(1) show ?thesis using require_survives by (auto simp: reply_of_def moves_def)
next
  case (Logout rq)
  with assms(1) have st': "st' = snd (logout c rq st)" by (auto simp: reply_of_def)
  have "alive tok s st \<Longrightarrow> alive tok s st'"
    using assms(2) [OF Logout] unfolding st'
    by (cases "rq_cookie rq") (auto simp: logout_def on_registry_def registry_revoke_def ret_def alive_def auth_registry_def is_set_def)
  then show ?thesis unfolding st' using logout_moves(2) by (simp add: survives_def moves_def)
qed

lemma run_survives:
  assumes "panel_run env evs st = (reps, st')" "\<forall>(c, ev) \<in> set evs. \<forall>rq. ev = Logout rq \<longrightarrow> rq_cookie rq \<noteq> Some tok"
    "\<forall>rep \<in> set reps. \<forall>s'. rep \<noteq> Granted tok s'"
  shows "survives env tok s st st'"
  using assms
proof (induction evs arbitrary: st reps)
  case Nil
  then show ?case by (simp add: survives.stays)
next
  case (Cons e evs)
  obtain c ev where e: "e = (c, ev)" by force
  obtain rep s1 where p: "panel_step env c ev st = (rep, s1)" by force
  obtain reps' s2 where q: "panel_run env evs s1 = (reps', s2)" by force
  with Cons.prems(1) have r: "reps = rep # reps'" "s2 = st'" by (simp_all add: e p)
  have "survives env tok s st s1" by (rule step_survives [OF p]) (use Cons.prems in \<open>auto simp: e r\<close>)
  moreover have "survives env tok s s1 st'" using Cons.IH [OF q [unfolded r(2)]] Cons.prems by (simp add: e r)
  ultimately show ?case by (rule survives.follows)
qed

text \<open>What a login grants.\<close>

lemma granted_alive:
  assumes "panel_step env c (Login rq u p t) st = (Granted tok s, st')"
  shows "alive tok s st' \<and> as_username s = u \<and> as_created s = ae_clock env (st_reads st' - 1) \<and> 0 < st_reads st'"
  using login_cases [of env c rq u p st t]
proof cases
  case (granted tk se s1 s2 s3)
  with assms show ?thesis
    by (auto simp: reply_of_def create_run registry_create_def Let_def alive_def)
qed (use assms in \<open>auto simp: reply_of_def\<close>)

lemma alive_accepted:
  assumes "alive tok s st" "ae_clock env (st_reads st) < as_expires s" "rq_cookie rq = Some tok" "tok \<noteq> []"
    "mutating (rq_method rq) \<Longrightarrow> header_or_empty rq ''x-korserver-csrf'' = as_csrf s \<and> is_ascii (as_csrf s)"
  shows "\<exists>s' st'. panel_step env c (Request rq) st = (Runs_As (as_username s) (Some s'), st') \<and> same_grant s s'"
proof -
  from alive_prune [OF assms(1,2), of c] obtain s1 where
    s1: "sr_sessions (prune_sessions (ae_clock env (st_reads st)) (auth_registry c st)) tok = Some s1" "same_grant s s1"
    by metis
  from cookie_some [OF assms(4) s1(1) refl refl] s1(2) assms(3,5) show ?thesis
    by (auto simp: reply_of_def require_admin_def andthen_def lift_result_def ret_def compare_digest_def same_grant_def)
qed

end
