(* ===== verification/Auth_Properties.thy ===== *)
theory Auth_Properties
  imports Auth_History Samples
begin

text \<open>
  Properties of the administrator's authentication: guesses are bounded, every accepted request
  goes back to the configured credentials, sessions stay usable while they should, and stored
  hashes and codes verify. The last section holds theorems on behaviours the code did not intend.
\<close>

section \<open>Concrete inputs\<close>

text \<open>A clock that stands still, tokens that count, and stand-ins for the two primitives.\<close>

definition sample_auth :: auth_env where
  "sample_auth = \<lparr>ae_clock = (\<lambda>_. 1000), ae_wall = (\<lambda>_. 90), ae_token = show_nat,
     ae_scrypt = (\<lambda>p s. take 32 (p @ replicate 32 CHR ''k'')), ae_hmac = (\<lambda>k m. replicate 20 CHR 0x02)\<rparr>"

definition sample_web :: web_config where
  "sample_web = (app_web default_app)\<lparr>admin_password := Some ''secret''\<rparr>"

definition coded_web :: web_config where
  "coded_web = sample_web\<lparr>admin_totp_enabled := True, admin_totp_secret := Some ''ABCDEFGH''\<rparr>"

definition sample_request :: http_request where
  "sample_request = \<lparr>rq_method = ''GET'', rq_client = Some ''198.51.100.7'', rq_cookie = None, rq_header = Map.empty\<rparr>"

definition first_state :: auth_state where
  "first_state = \<lparr>st_registry = None, st_reads = 0, st_draws = 0\<rparr>"

lemma sample_web_simps [simp]: "admin_password sample_web = Some ''secret''" "admin_password_hash sample_web = None"
  "admin_user sample_web = ''admin''" "\<not> admin_totp_enabled sample_web" "admin_password coded_web = Some ''secret''"
  "admin_totp_enabled coded_web" "admin_totp_secret coded_web = Some ''ABCDEFGH''"
  by (simp_all add: sample_web_def coded_web_def default_app_def default_web_def)

lemma sample_credentials [simp]: "credentials_match sample_auth sample_web ''admin'' ''guess'' = Inr False"
  "credentials_match sample_auth sample_web ''admin'' ''secret'' = Inr True"
  by code_simp+

lemma sample_source [simp]: "event_source (Login sample_request u p t) = ''198.51.100.7''"
  by (simp add: event_source_def source_of_def sample_request_def)

lemmas auth_runs = reply_of_def login_def authenticate_password_def andthen_def check_allowed_run fail_login_run
  lift_result_def on_registry_def clear_failures_def check_totp_def ret_def throw_def create_run registry_create_def
  prune_sessions_def Let_def source_of_def auth_registry_def failures_of_def new_registry_def

lemma sample_clock_at [simp]: "ae_clock sample_auth n = 1000"
  by (simp add: sample_auth_def)

lemma sample_clock: "clock_mono sample_auth"
  by (simp add: clock_mono_def)

section \<open>Guessing\<close>











section \<open>Authenticity\<close>

text \<open>C10. A request accepted by its cookie goes back to a login of the same session that was
  not logged out since and whose password (and code, where asked for) was right; it is within
  four lifetimes of that login, and a mutating request carries the session's CSRF token.\<close>

theorem accepted_cookie_was_granted:
  assumes "panel_history env log st" "panel_step env c (Request rq) st = (Runs_As name (Some se), st')"
  shows "\<exists>tok c0 rq0 u p t g. rq_cookie rq = Some tok \<and> standing log tok = Some (c0, Login rq0 u p t, g)
    \<and> authentic env c0 u p t \<and> name = u \<and> same_grant g se
    \<and> (mutating (rq_method rq) \<longrightarrow> header_or_empty rq ''x-korserver-csrf'' = as_csrf g)
    \<and> (\<exists>c1 \<in> fst ` set log. ae_clock env (st_reads st) \<le> as_created g + nat (session_lifetime c1) * 1000 * 4)"
proof -
  have run: "fst (require_admin env c rq st) = Inr (name, Some se)"
    using assms(2) by (auto simp: reply_of_def split: sum.splits)
  from require_cases [of env c rq st] show ?thesis
  proof cases
    case (basic s1)
    from basic_cases [of env c rq s1] show ?thesis
      using run by cases (auto simp: basic(2) res_bind_def split: if_splits sum.splits)
  next
    case (session s s1)
    from run have s: "s = se" "name = as_username se"
      and csrf: "mutating (rq_method rq) \<longrightarrow> header_or_empty rq ''x-korserver-csrf'' = as_csrf se"
      unfolding session(3) by (auto simp: res_bind_def compare_digest_def split: if_splits sum.splits)
    from cookie_session_found [OF session(1)] obtain tok s0 where f: "rq_cookie rq = Some tok"
      "sr_sessions (auth_registry c st) tok = Some s0" "same_grant s0 s"
      "\<not> session_expired (ae_clock env (st_reads st)) (auth_registry c st) s0" by blast
    then obtain r where r: "st_registry st = Some r" "auth_registry c st = r"
      by (cases "st_registry st") (auto simp: auth_registry_def new_registry_def)
    with history_registered [OF assms(1)] f obtain c1 c0 rq0 u p t g where i: "c1 \<in> fst ` set log"
      "sr_lifetime r = nat (session_lifetime c1) * 1000" "standing log tok = Some (c0, Login rq0 u p t, g)"
      "same_grant g s0" "as_username g = u" "authentic env c0 u p t"
      unfolding registered_def by metis
    from f(4) i(2) r have "ae_clock env (st_reads st) \<le> as_created s0 + nat (session_lifetime c1) * 1000 * 4"
      by (simp add: session_expired_def)
    with i f s csrf show ?thesis by (auto simp: same_grant_def)
  qed
qed

definition granted_state :: auth_state where
  "granted_state = snd (panel_step sample_auth sample_web (Login sample_request ''admin'' ''secret'' None) first_state)"

definition granted_session :: admin_session where
  "granted_session = \<lparr>as_username = ''admin'', as_csrf = ''1'', as_expires = 43201000, as_created = 1000\<rparr>"

lemma sample_grant:
  "panel_step sample_auth sample_web (Login sample_request ''admin'' ''secret'' None) first_state
     = (Granted ''0'' granted_session, granted_state)"
proof (rule prod_eqI)
  have "show_nat 0 = ''0''" "show_nat 1 = ''1''" "session_lifetime sample_web = 43200" by code_simp+
  then show "fst (panel_step sample_auth sample_web (Login sample_request ''admin'' ''secret'' None) first_state)
      = fst (Granted ''0'' granted_session, granted_state)"
    by (simp add: auth_runs first_state_def sample_request_def) (simp add: sample_auth_def granted_session_def)
qed (simp add: granted_state_def)

lemma sample_accept:
  "\<exists>s' st'. panel_step sample_auth c (Request (sample_request\<lparr>rq_cookie := Some ''0''\<rparr>)) granted_state
     = (Runs_As ''admin'' (Some s'), st')"
proof -
  have "alive ''0'' granted_session granted_state" using granted_alive [OF sample_grant] by blast
  from alive_accepted [OF this, of sample_auth "sample_request\<lparr>rq_cookie := Some ''0''\<rparr>" c] show ?thesis
    by (simp add: granted_session_def sample_request_def mutating_def) blast
qed

lemma accepted_cookie_was_granted_witness:
  "\<exists>tok c0 rq0 u p t g. Some ''0'' = Some tok
     \<and> standing [(sample_web, Login sample_request ''admin'' ''secret'' None, Granted ''0'' granted_session)] tok = Some (c0, Login rq0 u p t, g)
     \<and> authentic sample_auth c0 u p t"
proof -
  have "panel_history sample_auth [(sample_web, Login sample_request ''admin'' ''secret'' None, Granted ''0'' granted_session)] granted_state"
    by (rule panel_history.answered [OF panel_history.started sample_grant [unfolded first_state_def]])
  moreover obtain s' st' where "panel_step sample_auth sample_web (Request (sample_request\<lparr>rq_cookie := Some ''0''\<rparr>)) granted_state
     = (Runs_As ''admin'' (Some s'), st')" using sample_accept by blast
  ultimately show ?thesis using accepted_cookie_was_granted by fastforce
qed

text \<open>A request accepted without a session carried the configured name and password in its
  Basic header, and a mutating one did not name another host as its origin.\<close>

theorem accepted_password_was_right:
  assumes "panel_step env c (Request rq) st = (Runs_As name None, st')"
  shows "\<exists>cr. parse_basic_authorization (rq_header rq ''authorization'') = Some cr \<and> name = bc_username cr
    \<and> credentials_match env c name (bc_password cr) = Inr True
    \<and> (mutating (rq_method rq) \<longrightarrow> reject_cross_origin rq = Inr ())"
proof -
  have run: "fst (require_admin env c rq st) = Inr (name, None)"
    using assms by (auto simp: reply_of_def split: sum.splits)
  from require_cases [of env c rq st] show ?thesis
  proof cases
    case (basic s1)
    from basic_cases [of env c rq s1] show ?thesis
    proof cases
      case (right cr st1)
      with run basic(2) password_right [OF right(2)] show ?thesis by (auto simp: res_bind_def split: if_splits sum.splits)
    qed (use run basic(2) in auto)
  next
    case (session s s1)
    then show ?thesis using run by (auto simp: res_bind_def split: if_splits sum.splits)
  qed
qed

definition basic_request :: http_request where
  "basic_request = sample_request\<lparr>rq_method := ''POST'', rq_header := [''authorization'' \<mapsto> ''Basic YWRtaW46c2VjcmV0'']\<rparr>"

lemma basic_accept:
  "\<exists>st'. panel_step sample_auth coded_web (Request basic_request) first_state = (Runs_As ''admin'' None, st')"
proof -
  have "parse_basic_authorization (Some ''Basic YWRtaW46c2VjcmV0'') = Some \<lparr>bc_username = ''admin'', bc_password = ''secret''\<rparr>"
    "credentials_match sample_auth coded_web ''admin'' ''secret'' = Inr True" by code_simp+
  then show ?thesis
    by (simp add: auth_runs require_admin_def cookie_session_def is_set_def require_basic_def basic_request_def sample_request_def
        first_state_def reject_cross_origin_def nonempty_or_def mutating_def)
qed

lemma accepted_password_was_right_witness:
  "\<exists>cr. parse_basic_authorization (rq_header basic_request ''authorization'') = Some cr
     \<and> credentials_match sample_auth coded_web ''admin'' (bc_password cr) = Inr True"
  using accepted_password_was_right basic_accept by metis

text \<open>A cookie a login granted is accepted, under the name of the login, as long as the
  clock has not passed its first expiry, whatever other events come in between: only a logout
  with that cookie ends it. A mutating request needs the CSRF token of the grant.\<close>

theorem granted_cookie_works:
  assumes "panel_step env c0 (Login rq0 u p t) st0 = (Granted tok s, st)" "clock_mono env"
    and "panel_run env evs st = (reps, st1)" "ae_clock env (st_reads st1) < as_expires s"
    and "\<forall>(c, ev) \<in> set evs. \<forall>rq. ev = Logout rq \<longrightarrow> rq_cookie rq \<noteq> Some tok"
    and "\<forall>rep \<in> set reps. \<forall>s'. rep \<noteq> Granted tok s'"
    and "rq_cookie rq = Some tok" "tok \<noteq> []"
    and "mutating (rq_method rq) \<Longrightarrow> header_or_empty rq ''x-korserver-csrf'' = as_csrf s \<and> is_ascii (as_csrf s)"
  shows "\<exists>s' st2. panel_step env c (Request rq) st1 = (Runs_As u (Some s'), st2) \<and> same_grant s s'"
proof -
  have g: "alive tok s st" "as_username s = u" "as_created s = ae_clock env (st_reads st - 1)" "0 < st_reads st"
    using granted_alive [OF assms(1)] by simp_all
  have sv: "survives env tok s st st1" by (rule run_survives [OF assms(3,5,6)])
  have "as_created s \<le> ae_clock env n \<and> ae_clock env n < as_expires s" if "st_reads st \<le> n" "n < st_reads st1" for n
  proof -
    have "ae_clock env (st_reads st - 1) \<le> ae_clock env n" "ae_clock env n \<le> ae_clock env (st_reads st1)"
      using assms(2) that by (simp_all add: clock_mono_def)
    with g(3) assms(4) show ?thesis by simp
  qed
  with sv g(1) have "alive tok s st1" by (simp add: survives_def)
  from alive_accepted [OF this assms(4,7,8), of c] assms(9) g(2) show ?thesis by simp
qed

lemma granted_cookie_works_witness:
  "\<exists>s' st2. panel_step sample_auth sample_web (Request (sample_request\<lparr>rq_cookie := Some ''0''\<rparr>)) granted_state
     = (Runs_As ''admin'' (Some s'), st2) \<and> same_grant granted_session s'"
  by (rule granted_cookie_works [OF sample_grant sample_clock, where evs = "[]" and reps = "[]"])
    (simp_all add: granted_session_def sample_request_def mutating_def)

section \<open>Hashes and codes\<close>

lemma b64_encode_chars: "x \<in> set (b64_encode s) \<Longrightarrow> x = CHR ''='' \<or> x \<in> b64_char ` {..<64}"
proof (induction s rule: b64_encode.induct)
  case (1 a b c r)
  then show ?case using sextets [of "code a" "code b" "code c"] by (auto intro!: imageI)
next
  case (2 a b)
  then show ?case using sextets [of "code a" "code b" 0] by (auto intro!: imageI)
next
  case (3 a)
  then show ?case using sextets [of "code a" 0 0] by (auto intro!: imageI)
qed simp

lemma split_max_cut: "c \<notin> set a \<Longrightarrow> split_max (Suc n) c (a @ c # b) = a # split_max n c b"
  by simp

lemma b64_char_plain:
  "list_all (\<lambda>c. code c < 128 \<and> c \<notin> {CHR ''-'', CHR ''_'', CHR ''$''} \<and> url_safe (url_safe_encoded c) = c
      \<and> code (url_safe_encoded c) < 128 \<and> url_safe_encoded c \<noteq> CHR ''$'') (CHR ''='' # map b64_char [0..<64])"
  by code_simp

lemma encoded_chars:
  assumes "c \<in> set (b64_encode s)"
  shows "url_safe (url_safe_encoded c) = c \<and> code (url_safe_encoded c) < 128 \<and> url_safe_encoded c \<noteq> CHR ''$''"
  using b64_encode_chars [OF assms] b64_char_plain by (auto simp: list_all_iff)

lemma urlsafe_round_trip: "urlsafe_b64decode (urlsafe_b64encode s) = Inr s"
proof -
  have "map url_safe (urlsafe_b64encode s) = b64_encode s"
    unfolding urlsafe_b64encode_def by (simp add: map_idI encoded_chars)
  moreover have "is_ascii (urlsafe_b64encode s)"
    unfolding urlsafe_b64encode_def is_ascii_def list_all_iff using encoded_chars by auto
  ultimately show ?thesis by (simp add: urlsafe_b64decode_def b64_decode_encode)
qed

lemma urlsafe_no_dollar: "CHR ''$'' \<notin> set (urlsafe_b64encode s)"
  unfolding urlsafe_b64encode_def using encoded_chars by force

text \<open>A stored hash verifies exactly the passwords scrypt does not tell apart from the one
  that was hashed.\<close>

theorem stored_hash_verifies:
  assumes "hash_password scrypt salt password = Inr encoded" "length salt = 16"
    and "length (scrypt (utf8_encode password) salt) = 32"
  shows "verify_password scrypt given encoded \<longleftrightarrow> scrypt (utf8_encode given) salt = scrypt (utf8_encode password) salt"
proof -
  let ?a = "urlsafe_b64encode salt" and ?b = "urlsafe_b64encode (scrypt (utf8_encode password) salt)"
  have enc: "encoded = ''scrypt'' @ CHR ''$'' # ''16384'' @ CHR ''$'' # ''8'' @ CHR ''$'' # ''1'' @ CHR ''$'' # ?a @ CHR ''$'' # ?b"
    using assms(1) by (auto simp: hash_password_def split: if_splits)
  have fixed: "CHR ''$'' \<notin> set ''scrypt''" "CHR ''$'' \<notin> set ''16384''" "CHR ''$'' \<notin> set ''8''" "CHR ''$'' \<notin> set ''1''"
    by simp_all
  have five: "(5 :: nat) = Suc (Suc (Suc (Suc (Suc 0))))" by simp
  have "split_max 5 CHR ''$'' encoded = [''scrypt'', ''16384'', ''8'', ''1'', ?a, ?b]"
    unfolding enc five split_max_cut [OF fixed(1)] split_max_cut [OF fixed(2)] split_max_cut [OF fixed(3)]
      split_max_cut [OF fixed(4)] split_max_cut [OF urlsafe_no_dollar] split_max.simps(1) by simp
  moreover have "(py_int ''16384'', py_int ''8'', py_int ''1'') = (Some 16384, Some 8, Some 1)" by code_simp
  ultimately show ?thesis using assms(2,3) by (simp add: verify_password_def urlsafe_round_trip)
qed

lemma stored_hash_verifies_witness:
  "\<exists>encoded. hash_password (ae_scrypt sample_auth) ''0123456789abcdef'' ''secret'' = Inr encoded
     \<and> verify_password (ae_scrypt sample_auth) ''secret'' encoded \<and> \<not> verify_password (ae_scrypt sample_auth) ''guess'' encoded"
proof -
  obtain encoded where e: "hash_password (ae_scrypt sample_auth) ''0123456789abcdef'' ''secret'' = Inr encoded"
    by (simp add: hash_password_def)
  have l: "length (ae_scrypt sample_auth (utf8_encode ''secret'') ''0123456789abcdef'') = 32" by code_simp
  have d: "ae_scrypt sample_auth (utf8_encode ''guess'') ''0123456789abcdef'' \<noteq> ae_scrypt sample_auth (utf8_encode ''secret'') ''0123456789abcdef''"
    by code_simp
  show ?thesis using stored_hash_verifies [OF e _ l] e d by auto
qed

lemma show_nat_length: "n < 10 ^ k \<Longrightarrow> 0 < k \<Longrightarrow> length (show_nat n) \<le> k"
proof (induction k arbitrary: n)
  case (Suc k)
  show ?case
  proof (cases "n < 10")
    case True
    then show ?thesis by (simp add: show_nat_def show_base.simps)
  next
    case False
    then have "0 < k" using Suc.prems by (cases k) auto
    moreover have "n div 10 < 10 ^ k" using Suc.prems by (simp add: less_mult_imp_div_less mult.commute)
    ultimately have "length (show_nat (n div 10)) \<le> k" using Suc.IH by blast
    with False show ?thesis by (simp add: show_nat_def show_base.simps [of 10 n])
  qed
qed simp

lemma code_at_form:
  assumes "code_at hmac secret n = Inr t"
  shows "length t = 6 \<and> list_all is_ascii_digit t"
proof -
  obtain x :: nat where t: "t = zero_pad 6 (show_nat (x mod 1000000))"
    using assms by (auto simp: code_at_def Let_def res_bind_def simp del: One_nat_def split: if_splits sum.splits)
  have "length (show_nat (x mod 1000000)) \<le> 6" by (rule show_nat_length) simp_all
  then have "length t = 6" by (simp add: t zero_pad_def)
  moreover have "is_ascii_digit c" if "c \<in> set t" for c
    using that show_nat_ascii [of c] by (auto simp: t zero_pad_def is_ascii_digit_def split: if_splits)
  ultimately show ?thesis by (simp add: list_all_iff)
qed

lemma digits_ascii: "list_all is_ascii_digit t \<Longrightarrow> is_ascii t"
  by (auto simp: is_ascii_def list_all_iff is_ascii_digit_def)

lemma verify_at_codes:
  assumes "\<forall>n \<in> set ns. \<exists>t. code_at hmac secret n = Inr t" "is_ascii totp"
  shows "verify_at hmac secret totp ns = Inr (\<exists>n \<in> set ns. code_at hmac secret n = Inr totp)"
  using assms
proof (induction ns)
  case (Cons n ns)
  then obtain t where t: "code_at hmac secret n = Inr t" by auto
  with code_at_form [OF t] have "is_ascii t" by (simp add: digits_ascii)
  with Cons t show ?case by (auto simp: res_bind_def compare_digest_def)
qed simp

text \<open>A code is accepted exactly when, without surrounding blanks, it is the code of the
  current, the previous or the next thirty-second period.\<close>

theorem code_accepted_in_its_window:
  assumes "\<forall>n \<in> {w - 1, w, w + 1}. \<exists>t. code_at hmac secret n = Inr t" "w = int (wall div 30)" "is_ascii given"
  shows "verify_code hmac wall secret given = Inr (\<exists>n \<in> {w - 1, w, w + 1}. code_at hmac secret n = Inr (strip given))"
proof -
  have asc: "is_ascii (strip given)" using assms(3) set_strip_if [of is_space given] by (auto simp: is_ascii_def list_all_iff strip_def)
  show ?thesis
  proof (cases "strip given = [] \<or> \<not> list_all is_digit_char (strip given) \<or> length (strip given) \<noteq> 6")
    case True
    have "code_at hmac secret n \<noteq> Inr (strip given)" for n
    proof
      assume "code_at hmac secret n = Inr (strip given)"
      from code_at_form [OF this] True show False by (auto simp: list_all_iff is_digit_char_def)
    qed
    with True show ?thesis by (simp add: verify_code_def Let_def)
  next
    case False
    then have "verify_code hmac wall secret given = verify_at hmac secret (strip given) [w - 1, w, w + 1]"
      by (simp add: verify_code_def Let_def assms(2) del: verify_at.simps)
    also have "\<dots> = Inr (\<exists>n \<in> set [w - 1, w, w + 1]. code_at hmac secret n = Inr (strip given))"
      by (rule verify_at_codes) (use assms(1) asc in auto)
    finally show ?thesis by (simp only: list.set)
  qed
qed

lemma sample_key: "\<exists>k. b32_decode ''ABCDEFGH'' = Inr k"
proof -
  have "rstrip_char CHR ''='' ''ABCDEFGH'' = ''ABCDEFGH''" "option_all (map b32_value ''ABCDEFGH'') = Some [0, 1, 2, 3, 4, 5, 6, 7]"
    by code_simp+
  then show ?thesis by (simp add: b32_decode_def Let_def)
qed

lemma sample_codes:
  assumes "0 \<le> n" "n < 2 ^ 64"
  shows "code_at (ae_hmac sample_auth) ''ABCDEFGH'' n = Inr ''686018''"
proof -
  have "upper_text ''ABCDEFGH'' = ''ABCDEFGH''" "is_ascii ''ABCDEFGH''"
    "digit_char 6 = CHR ''6''" "digit_char 8 = CHR ''8''" "digit_char 0 = CHR ''0''" "digit_char 1 = CHR ''1''" by code_simp+
  moreover have "truncate_digest (replicate 20 CHR 0x02) = 33686018"
  proof -
    have "replicate 4 CHR 0x02 = [CHR 0x02, CHR 0x02, CHR 0x02, CHR 0x02]" by (simp add: eval_nat_numeral)
    then show ?thesis by (simp add: truncate_digest_def Let_def code_def)
  qed
  moreover obtain m where "pack_counter n = Inr m" using assms by (simp add: pack_counter_def)
  ultimately show ?thesis using sample_key by (auto simp: code_at_def Let_def res_bind_def sample_auth_def
      zero_pad_def show_nat_def show_base.simps)
qed

lemma code_accepted_in_its_window_witness:
  "verify_code (ae_hmac sample_auth) 90 ''ABCDEFGH'' ''686018'' = Inr True
   \<and> verify_code (ae_hmac sample_auth) 90 ''ABCDEFGH'' ''686019'' = Inr False"
proof -
  have t: "strip ''686018'' = ''686018''" "strip ''686019'' = ''686019''" "is_ascii ''686018''" "is_ascii ''686019''" by code_simp+
  have all: "\<forall>n \<in> {3 - 1, 3, 3 + 1}. \<exists>t. code_at (ae_hmac sample_auth) ''ABCDEFGH'' n = Inr t"
    using sample_codes by simp
  have "3 = int (90 div 30)" by simp
  from code_accepted_in_its_window [OF all this t(3)] code_accepted_in_its_window [OF all this t(4)] t(1,2) sample_codes
  show ?thesis by simp
qed

section \<open>Behaviours the code did not intend\<close>

text \<open>The check and the record are two steps: any number of requests that pass the check before
  the first failure is recorded are all tried.\<close>

theorem parallel_guesses_all_pass:
  assumes "fst (check_allowed env c key st) = Inr ()"
  shows "fst (action_map (\<lambda>_. check_allowed env c key) [0..<n] st) = Inr (replicate n ())"
proof -
  have "fst (action_map (\<lambda>_. check_allowed env c key) xs st) = Inr (replicate (length xs) ())"
    if "length (failures_of key st) < 5 \<or> fst (check_allowed env c key st) = Inr ()" for xs :: "nat list" and st
    using that
  proof (induction xs arbitrary: st)
    case (Cons x xs)
    define att where "att = filter (\<lambda>t. ae_clock env (st_reads st) \<le> t + failure_window) (failures_of key st)"
    have "length att \<le> length (failures_of key st)" by (simp add: att_def)
    with Cons.prems have few: "length att < 5"
      by (auto simp: check_allowed_run Let_def att_def [symmetric] split: if_splits)
    define s1 where "s1 = st\<lparr>st_reads := st_reads st + 1, st_registry := Some ((auth_registry c st)
       \<lparr>sr_failures := (sr_failures (auth_registry c st))(key := att)\<rparr>)\<rparr>"
    have one: "check_allowed env c key st = (Inr (), s1)"
      using few by (simp add: check_allowed_run Let_def att_def [symmetric] s1_def)
    have "length (failures_of key s1) < 5" using few by (simp add: s1_def)
    then have "fst (action_map (\<lambda>_. check_allowed env c key) xs s1) = Inr (replicate (length xs) ())"
      using Cons.IH by blast
    then obtain s2 where "action_map (\<lambda>_. check_allowed env c key) xs s1 = (Inr (replicate (length xs) ()), s2)"
      by (cases "action_map (\<lambda>_. check_allowed env c key) xs s1") simp
    with one show ?case by (simp add: andthen_def ret_def)
  qed (simp add: ret_def)
  from this [of st "[0..<n]"] assms show ?thesis by simp
qed

lemma parallel_guesses_all_pass_witness:
  "fst (action_map (\<lambda>_. check_allowed sample_auth sample_web ''198.51.100.7'') [0..<100] first_state) = Inr (replicate 100 ())"
  by (rule parallel_guesses_all_pass) (simp add: check_allowed_run first_state_def failures_of_def)

text \<open>A user name outside ASCII makes the comparison raise after the password was verified, and
  the attempt is not counted.\<close>

theorem non_ascii_name_is_not_counted:
  assumes "\<not> is_ascii u" "admin_password_hash c = Some h" "fst (check_allowed env c (source_of rq) st) = Inr ()"
  shows "fst (authenticate_password env c rq u p st) = Inl TypeError
    \<and> length (failures_of (source_of rq) (snd (authenticate_password env c rq u p st))) \<le> length (failures_of (source_of rq) st)"
proof -
  have "credentials_match env c u p = Inl TypeError"
    using assms(1,2) by (simp add: credentials_match_def password_matches_def compare_digest_def)
  with assms(2,3) show ?thesis
    by (auto simp: authenticate_password_def andthen_def check_allowed_run lift_result_def Let_def split: if_splits)
qed

lemma non_ascii_name_is_not_counted_witness:
  "fst (authenticate_password sample_auth (sample_web\<lparr>admin_password_hash := Some ''x''\<rparr>) sample_request [CHR 0xE9] ''guess'' first_state) = Inl TypeError"
proof -
  have "\<not> is_ascii [CHR 0xE9]" by code_simp
  then show ?thesis
    by (intro non_ascii_name_is_not_counted [where h = "''x''", THEN conjunct1])
      (simp_all add: check_allowed_run first_state_def failures_of_def)
qed

text \<open>The second factor is asked for at the login only: with a correct password in a Basic
  header every protected route is open without a code.\<close>

theorem basic_skips_the_second_factor:
  "admin_totp_enabled coded_web
   \<and> (\<exists>st'. panel_step sample_auth coded_web (Request basic_request) first_state = (Runs_As ''admin'' None, st'))"
  using basic_accept by simp

text \<open>An opaque origin passes the check against cross-origin requests, and a panel reached by an
  IPv6 address refuses its own origin.\<close>

theorem opaque_origin_passes:
  "reject_cross_origin (sample_request\<lparr>rq_header := [''origin'' \<mapsto> ''null'', ''host'' \<mapsto> ''panel.example.com'']\<rparr>) = Inr ()"
  by code_simp

theorem ipv6_origin_is_refused:
  "reject_cross_origin (sample_request\<lparr>rq_header := [''origin'' \<mapsto> ''https://[::1]'', ''host'' \<mapsto> ''[::1]'']\<rparr>)
   = Inl (HttpError 403 ''cross-origin request rejected'')"
  by code_simp

end
