(* ===== verification/Terminal.thy ===== *)
theory Terminal
  imports Admin_Auth Effects Secrets Json_Text Command
begin

text \<open>
  \<open>api/routes_terminal.py\<close>: tickets for the web terminal and the limit on open terminals, the
  life of a connection, the messages a browser sends, the output it gets, and how a shell is
  ended. Sockets and pseudo-terminals are not modelled; whether the server could accept a socket
  is an input. A method that holds the lock of the registry is one step.
\<close>

section \<open>Requests\<close>

record terminal_command_request =
  cr_command :: string
  cr_cwd :: string
  cr_timeout :: int

record terminal_session_request =
  sq_cwd :: string
  sq_rows :: int
  sq_cols :: int

definition check_command_request :: "terminal_command_request \<Rightarrow> terminal_command_request result" where
  "check_command_request q = (if cr_command q = [] \<or> 4000 < length (cr_command q) then Inl ValueError
     else res_bind (in_range 1 300 (cr_timeout q)) (\<lambda>_. Inr q))"

definition check_session_request :: "terminal_session_request \<Rightarrow> terminal_session_request result" where
  "check_session_request q = res_bind (in_range 10 80 (sq_rows q)) (\<lambda>_.
     res_bind (in_range 40 240 (sq_cols q)) (\<lambda>_. Inr q))"

definition require_terminal_enabled :: "web_config \<Rightarrow> unit result" where
  "require_terminal_enabled c = (if terminal_enabled c then Inr () else Inl (HttpError 403 ''web terminal is disabled''))"

text \<open>\<open>str(Path(value))\<close>: doubled slashes and single dots go; exactly two leading slashes stay.\<close>

definition path_text :: "string \<Rightarrow> string" where
  "path_text s = (let root = (if starts_with ''//'' s \<and> \<not> starts_with ''///'' s then ''//''
                    else if starts_with ''/'' s then ''/'' else []);
       p = root @ join ''/'' (filter (\<lambda>x. x \<noteq> [] \<and> x \<noteq> ''.'') (split_on CHR ''/'' s)) in
     if p = [] then ''.'' else p)"

definition validate_cwd :: "(string \<Rightarrow> bool) \<Rightarrow> string \<Rightarrow> string result" where
  "validate_cwd is_dir v = (let cwd = path_text v in
     if \<not> starts_with ''/'' cwd then Inl (HttpError 400 ''cwd must be an absolute path'')
     else if \<not> is_dir cwd then Inl (HttpError 400 ''cwd does not exist or is not a directory'')
     else Inr cwd)"

section \<open>The registry of terminals\<close>

record terminal_ticket =
  tt_cwd :: string
  tt_rows :: int
  tt_cols :: int
  tt_expires :: nat
  tt_actor :: string
  tt_source :: "string option"

record terminal_registry =
  tr_tickets :: "(string \<times> terminal_ticket) list"
  tr_active :: nat
  tr_max :: int

definition new_terminals :: "int \<Rightarrow> terminal_registry" where
  "new_terminals n = \<lparr>tr_tickets = [], tr_active = 0, tr_max = n\<rparr>"

definition prune_tickets :: "nat \<Rightarrow> terminal_registry \<Rightarrow> terminal_registry" where
  "prune_tickets now r = r\<lparr>tr_tickets := filter (\<lambda>(_, t). \<not> tt_expires t \<le> now) (tr_tickets r)\<rparr>"

text \<open>The life of a ticket, 60 seconds.\<close>

definition ticket_ttl :: nat where "ticket_ttl = 60000"

definition terminal_issue :: "nat \<Rightarrow> nat \<Rightarrow> string \<Rightarrow> terminal_ticket \<Rightarrow> terminal_registry
    \<Rightarrow> terminal_ticket result \<times> terminal_registry" where
  "terminal_issue prune_time now token wanted r = (let r1 = prune_tickets prune_time r in
     if tr_max r1 \<le> int (tr_active r1) + int (length (tr_tickets r1))
     then (Inl RuntimeError, r1)
     else let t = wanted\<lparr>tt_expires := now + ticket_ttl\<rparr> in
       (Inr t, r1\<lparr>tr_tickets := AList.update token t (tr_tickets r1)\<rparr>))"

definition terminal_consume :: "nat \<Rightarrow> string \<Rightarrow> terminal_registry \<Rightarrow> terminal_ticket option \<times> terminal_registry" where
  "terminal_consume now token r = (let r1 = prune_tickets now r in
     case map_of (tr_tickets r1) token of
       None \<Rightarrow> (None, r1)
     | Some t \<Rightarrow> (Some t, r1\<lparr>tr_tickets := AList.delete token (tr_tickets r1), tr_active := tr_active r1 + 1\<rparr>))"

definition terminal_release :: "terminal_registry \<Rightarrow> terminal_registry" where
  "terminal_release r = r\<lparr>tr_active := tr_active r - 1\<rparr>"

section \<open>The application state\<close>

text \<open>The registry, made at first use with the limit of that moment; the connections that run
  a terminal; and how often the clock and the random source were read.\<close>

record terminal_state =
  ts_registry :: "terminal_registry option"
  ts_open :: "terminal_ticket list"
  ts_reads :: nat
  ts_draws :: nat

definition terminals :: "web_config \<Rightarrow> terminal_state \<Rightarrow> terminal_registry" where
  "terminals c st = (case ts_registry st of Some r \<Rightarrow> r | None \<Rightarrow> new_terminals (terminal_max_sessions c))"

text \<open>\<open>_registry(request).issue\<close>: the limit is a 429 for the client. The token is only drawn
  when there is room.\<close>

definition issue_ticket :: "auth_env \<Rightarrow> web_config \<Rightarrow> terminal_ticket \<Rightarrow> (terminal_state, string \<times> terminal_ticket) action" where
  "issue_ticket env c wanted = (\<lambda>st. let token = ae_token env (ts_draws st) in
     case terminal_issue (ae_clock env (ts_reads st)) (ae_clock env (ts_reads st + 1)) token wanted (terminals c st) of
       (Inl e, r) \<Rightarrow> (Inl (HttpError 429 ''terminal session limit reached''),
          st\<lparr>ts_registry := Some r, ts_reads := ts_reads st + 1\<rparr>)
     | (Inr t, r) \<Rightarrow> (Inr (token, t), st\<lparr>ts_registry := Some r, ts_reads := ts_reads st + 2, ts_draws := ts_draws st + 1\<rparr>))"

definition create_terminal_session :: "auth_env \<Rightarrow> (string \<Rightarrow> bool) \<Rightarrow> web_config \<Rightarrow> string \<Rightarrow> string option
    \<Rightarrow> terminal_session_request \<Rightarrow> (terminal_state, string \<times> terminal_ticket) action" where
  "create_terminal_session env is_dir c actor source q =
     andthen (lift_result (check_session_request q)) (\<lambda>_.
     andthen (lift_result (require_terminal_enabled c)) (\<lambda>_.
     andthen (lift_result (validate_cwd is_dir (sq_cwd q))) (\<lambda>cwd.
     issue_ticket env c \<lparr>tt_cwd = cwd, tt_rows = sq_rows q, tt_cols = sq_cols q, tt_expires = 0,
       tt_actor = actor, tt_source = source\<rparr>)))"

text \<open>The start of \<open>terminal_websocket\<close>. \<open>accepted\<close> tells whether accepting the socket and the
  record of the opening succeeded; when they raise, the handler ends before its \<open>try\<close>.\<close>

datatype opened = Closed_1008 | Broken terminal_ticket | Running terminal_ticket

definition open_terminal :: "auth_env \<Rightarrow> web_config \<Rightarrow> string \<Rightarrow> bool \<Rightarrow> (terminal_state, opened) action" where
  "open_terminal env c token accepted = (\<lambda>st.
     if \<not> terminal_enabled c then (Inr Closed_1008, st)
     else case terminal_consume (ae_clock env (ts_reads st)) token (terminals c st) of (found, r) \<Rightarrow>
       (let st1 = st\<lparr>ts_registry := Some r, ts_reads := ts_reads st + 1\<rparr> in
        case found of None \<Rightarrow> (Inr Closed_1008, st1)
        | Some t \<Rightarrow> if accepted then (Inr (Running t), st1\<lparr>ts_open := ts_open st @ [t]\<rparr>)
            else (Inr (Broken t), st1)))"

text \<open>The end of the \<open>n\<close>-th running terminal, however it ends.\<close>

definition close_terminal :: "web_config \<Rightarrow> nat \<Rightarrow> (terminal_state, unit) action" where
  "close_terminal c n = (\<lambda>st. if n < length (ts_open st)
     then (Inr (), st\<lparr>ts_registry := Some (terminal_release (terminals c st)),
         ts_open := take n (ts_open st) @ drop (Suc n) (ts_open st)\<rparr>)
     else (Inr (), st))"

section \<open>Running one command\<close>

text \<open>\<open>POST /run\<close>. The directory the command runs in is not part of the model of a command.\<close>

definition run_terminal_command :: "env \<Rightarrow> string list \<Rightarrow> (string \<Rightarrow> bool) \<Rightarrow> web_config \<Rightarrow> terminal_command_request
    \<Rightarrow> (world, command_result) action" where
  "run_terminal_command env secrets is_dir c q =
     andthen (lift_result (check_command_request q)) (\<lambda>_.
     andthen (lift_result (require_terminal_enabled c)) (\<lambda>_.
     andthen (lift_result (validate_cwd is_dir (cr_cwd q))) (\<lambda>_.
     run_command env secrets [''/bin/bash'', ''-lc'', cr_command q]
       (no_check\<lparr>o_timeout := nat (cr_timeout q)\<rparr>))))"

section \<open>Messages\<close>

text \<open>\<open>_bounded_int\<close>; \<open>py_int\<close> is \<open>int(str)\<close>.\<close>

definition bounded_int :: "json option \<Rightarrow> int \<Rightarrow> int \<Rightarrow> int \<Rightarrow> int" where
  "bounded_int v lo hi fallback = (case (case v of Some (JInt i) \<Rightarrow> Some i | Some (JStr s) \<Rightarrow> py_int s | _ \<Rightarrow> None) of
     None \<Rightarrow> fallback | Some i \<Rightarrow> min (max i lo) hi)"

text \<open>\<open>json.loads\<close> is an argument, since a message may hold numbers with a fraction, which the
  documents of the model do not have; \<open>decode\<close> returns what the document is, if it is one.\<close>

definition terminal_message :: "(string \<Rightarrow> json option) \<Rightarrow> string \<Rightarrow> (string \<times> json) list" where
  "terminal_message decode raw = (case decode raw of Some (JDict kvs) \<Rightarrow> kvs
     | _ \<Rightarrow> [(''type'', JStr ''input''), (''data'', JStr raw)])"

datatype terminal_effect = Keys string | Resize int int | Ignored

text \<open>One round of \<open>_websocket_to_pty\<close>; \<open>show\<close> is \<open>str\<close> of a document.\<close>

definition terminal_input :: "(string \<Rightarrow> json option) \<Rightarrow> (json \<Rightarrow> string) \<Rightarrow> string \<Rightarrow> terminal_effect" where
  "terminal_input decode show raw = (let m = map_of (terminal_message decode raw) in
     if m ''type'' = Some (JStr ''input'') then
       (let data = (case m ''data'' of None \<Rightarrow> [] | Some d \<Rightarrow> show d) in if data = [] then Ignored else Keys data)
     else if m ''type'' = Some (JStr ''resize'') then
       Resize (bounded_int (m ''rows'') 10 80 30) (bounded_int (m ''cols'') 40 240 100)
     else Ignored)"

text \<open>What \<open>_pty_to_websocket\<close> sends for the chunks read from the shell until it has exited.\<close>

definition terminal_output :: "string list \<Rightarrow> string list \<Rightarrow> string list" where
  "terminal_output secrets chunks = map (\<lambda>c. mask_text c secrets) (filter (\<lambda>c. c \<noteq> []) chunks)
     @ [[CR, LF] @ ''[terminal exited]'' @ [CR, LF]]"

section \<open>Ending a shell\<close>

text \<open>\<open>_child_exited\<close>: a child that was reaped before counts as exited.\<close>

definition child_exited :: "env \<Rightarrow> world \<Rightarrow> nat \<Rightarrow> bool" where
  "child_exited env w pid = (\<not> e_alive env w pid)"

text \<open>The loop before the kill: it tells whether the child has gone. The fuel bounds the sleeps
  of 50 milliseconds within two seconds.\<close>

primrec child_gone :: "env \<Rightarrow> nat \<Rightarrow> nat \<Rightarrow> nat \<Rightarrow> (world, bool) action" where
  "child_gone env pid deadline 0 = ret False"
| "child_gone env pid deadline (Suc fuel) = (\<lambda>w.
     if \<not> e_mono env w < deadline then ret False w
     else if child_exited env w pid then ret True w
     else andthen (sleep_for env 50) (\<lambda>_. child_gone env pid deadline fuel) w)"

definition try_kill :: "env \<Rightarrow> nat \<Rightarrow> string \<Rightarrow> (world, unit) action" where
  "try_kill env pid sig = (\<lambda>w. case kill_process env pid sig w of (_, w') \<Rightarrow> (Inr (), w'))"

definition terminate_child :: "env \<Rightarrow> nat \<Rightarrow> (world, unit) action" where
  "terminate_child env pid =
     andthen (try_kill env pid ''SIGTERM'') (\<lambda>_.
     andthen current (\<lambda>w.
     andthen (child_gone env pid (e_mono env w + 2000) 40) (\<lambda>gone.
     if gone then ret () else try_kill env pid ''SIGKILL'')))"

end
