(* ===== verification/Terminal_Properties.thy ===== *)
theory Terminal_Properties
  imports Terminal Auth_Properties
begin

text \<open>
  Properties of the web terminal: the number of terminals is bounded, a terminal needs an unused
  ticket issued within a minute, a shell is ended within two seconds, and two behaviours the
  code did not intend.
\<close>

section \<open>Histories\<close>

datatype terminal_event =
    Ask string "string option" terminal_session_request
  | Connect string bool
  | End nat

datatype terminal_reply =
    Ticket string terminal_ticket
  | Opened opened
  | Ended
  | Denied py_error

fun terminal_step :: "auth_env \<Rightarrow> (string \<Rightarrow> bool) \<Rightarrow> web_config \<Rightarrow> terminal_event \<Rightarrow> terminal_state
    \<Rightarrow> terminal_reply \<times> terminal_state" where
  "terminal_step env is_dir c (Ask actor source q) st = (case create_terminal_session env is_dir c actor source q st of
     (Inl e, st') \<Rightarrow> (Denied e, st') | (Inr (tok, t), st') \<Rightarrow> (Ticket tok t, st'))"
| "terminal_step env is_dir c (Connect tok accepted) st = (case open_terminal env c tok accepted st of
     (Inl e, st') \<Rightarrow> (Denied e, st') | (Inr res, st') \<Rightarrow> (Opened res, st'))"
| "terminal_step env is_dir c (End n) st = (Ended, snd (close_terminal c n st))"

type_synonym terminal_log = "(web_config \<times> terminal_event \<times> terminal_reply) list"

inductive terminal_history :: "auth_env \<Rightarrow> (string \<Rightarrow> bool) \<Rightarrow> terminal_log \<Rightarrow> terminal_state \<Rightarrow> bool" for env is_dir where
  fresh: "terminal_history env is_dir [] \<lparr>ts_registry = None, ts_open = [], ts_reads = n, ts_draws = k\<rparr>"
| replied: "terminal_history env is_dir log st \<Longrightarrow> terminal_step env is_dir c ev st = (rep, st')
    \<Longrightarrow> terminal_history env is_dir ((c, ev, rep) # log) st'"

text \<open>The request a ticket was issued for, unless the ticket was used since; and how many
  connections broke before they ran.\<close>

fun pending :: "terminal_log \<Rightarrow> string \<Rightarrow> (string \<times> string option \<times> terminal_session_request \<times> terminal_ticket) option" where
  "pending [] tok = None"
| "pending ((c, Ask a s q, Ticket k t) # log) tok = (if k = tok then Some (a, s, q, t) else pending log tok)"
| "pending ((c, Connect k b, Opened res) # log) tok = (if k = tok \<and> res \<noteq> Closed_1008 then None else pending log tok)"
| "pending (e # log) tok = pending log tok"

definition is_broken :: "terminal_reply \<Rightarrow> bool" where
  "is_broken rep = (case rep of Opened (Broken _) \<Rightarrow> True | _ \<Rightarrow> False)"

definition broken :: "terminal_log \<Rightarrow> nat" where
  "broken log = length (filter (\<lambda>(c, ev, rep). is_broken rep) log)"

definition ticket_for :: "string \<Rightarrow> string option \<Rightarrow> terminal_session_request \<Rightarrow> terminal_ticket \<Rightarrow> bool" where
  "ticket_for a s q t = (tt_actor t = a \<and> tt_source t = s \<and> tt_rows t = sq_rows q \<and> tt_cols t = sq_cols q
     \<and> 10 \<le> tt_rows t \<and> tt_rows t \<le> 80 \<and> 40 \<le> tt_cols t \<and> tt_cols t \<le> 240)"

text \<open>What holds of the registry: the tickets are those of the log, no token is there twice, the
  limit is kept, and the active count is that of the open and of the broken connections.\<close>

definition registry_ok :: "terminal_log \<Rightarrow> terminal_ticket list \<Rightarrow> terminal_registry \<Rightarrow> bool" where
  "registry_ok log running r = (distinct (map fst (tr_tickets r))
     \<and> (\<forall>tok t. map_of (tr_tickets r) tok = Some t \<longrightarrow> (\<exists>a s q. pending log tok = Some (a, s, q, t) \<and> ticket_for a s q t))
     \<and> tr_active r = length running + broken log
     \<and> int (tr_active r) + int (length (tr_tickets r)) \<le> max 0 (tr_max r))"

definition terminals_ok :: "terminal_log \<Rightarrow> terminal_state \<Rightarrow> bool" where
  "terminals_ok log st = (case ts_registry st of
     None \<Rightarrow> ts_open st = [] \<and> broken log = 0
   | Some r \<Rightarrow> registry_ok log (ts_open st) r \<and> (\<exists>c \<in> fst ` set log. tr_max r = terminal_max_sessions c))"

section \<open>The registry keeps its promises\<close>

lemma map_of_filter_Some:
  "distinct (map fst xs) \<Longrightarrow> map_of (filter p xs) k = Some v \<Longrightarrow> map_of xs k = Some v \<and> p (k, v)"
  by (induction xs) (auto split: if_splits dest: map_of_SomeD intro: rev_image_eqI)

lemma distinct_fst_filter: "distinct (map fst xs) \<Longrightarrow> distinct (map fst (filter p xs))"
  by (simp add: distinct_map_filter)

lemma prune_ok:
  assumes "registry_ok log running r"
  shows "registry_ok log running (prune_tickets now r)"
proof -
  let ?ts = "filter (\<lambda>(_, t). \<not> tt_expires t \<le> now) (tr_tickets r)"
  have d: "distinct (map fst (tr_tickets r))" using assms by (simp add: registry_ok_def)
  have "length ?ts \<le> length (tr_tickets r)" by (rule length_filter_le)
  moreover have "map_of (tr_tickets r) k = Some t" if "map_of ?ts k = Some t" for k t
    using map_of_filter_Some [OF d that] by simp
  moreover have "distinct (map fst ?ts)" using d by (rule distinct_fst_filter)
  moreover have "tr_tickets (prune_tickets now r) = ?ts" "tr_active (prune_tickets now r) = tr_active r"
    "tr_max (prune_tickets now r) = tr_max r" by (simp_all add: prune_tickets_def)
  ultimately show ?thesis using assms unfolding registry_ok_def by (simp only: simp_thms) (metis add_left_mono of_nat_mono order_trans)
qed

lemma new_ok: "broken log = 0 \<Longrightarrow> registry_ok log [] (new_terminals n)"
  by (simp add: registry_ok_def new_terminals_def)

lemma registry_of_state: "terminals_ok log st \<Longrightarrow> registry_ok log (ts_open st) (terminals c st)"
  unfolding terminals_ok_def terminals_def by (cases "ts_registry st") (simp_all add: new_ok)

lemma max_of_state: "terminals_ok log st \<Longrightarrow> \<exists>c' \<in> fst ` set ((c, ev, rep) # log). tr_max (terminals c st) = terminal_max_sessions c'"
  unfolding terminals_ok_def terminals_def by (cases "ts_registry st") (simp_all add: new_terminals_def)

lemma length_update_le: "length (AList.update k v xs) \<le> Suc (length xs)"
  by (induction xs) auto

lemma delete_shrinks: "map_of xs k = Some v \<Longrightarrow> length (AList.delete k xs) < length xs"
  by (induction xs) (auto simp: length_delete_le le_imp_less_Suc split: if_splits)

lemma issue_ok:
  assumes "registry_ok log running r" "terminal_issue t1 t2 tok wanted r = (res, r')"
  shows "case res of Inl e \<Rightarrow> registry_ok log running r'
    | Inr t \<Rightarrow> t = wanted\<lparr>tt_expires := t2 + ticket_ttl\<rparr> \<and> (\<forall>a s q. ticket_for a s q t \<longrightarrow>
        registry_ok ((c, Ask a s q, Ticket tok t) # log) running r')"
proof -
  let ?r1 = "prune_tickets t1 r"
  have p: "registry_ok log running ?r1" using assms(1) by (rule prune_ok)
  show ?thesis
  proof (cases "tr_max ?r1 \<le> int (tr_active ?r1) + int (length (tr_tickets ?r1))")
    case True
    with p assms(2) show ?thesis by (auto simp: terminal_issue_def)
  next
    case False
    let ?t = "wanted\<lparr>tt_expires := t2 + ticket_ttl\<rparr>"
    from False assms(2) have r: "res = Inr ?t" "r' = ?r1\<lparr>tr_tickets := AList.update tok ?t (tr_tickets ?r1)\<rparr>"
      by (auto simp: terminal_issue_def Let_def)
    have "registry_ok ((c, Ask a s q, Ticket tok ?t) # log) running r'" if "ticket_for a s q ?t" for a s q
      using p that False length_update_le [of tok ?t "tr_tickets ?r1"] unfolding registry_ok_def r
      by (auto simp: update_conv' distinct_update broken_def is_broken_def split: if_splits)
    then show ?thesis by (simp add: r)
  qed
qed

lemma consume_ok:
  assumes "registry_ok log running r" "terminal_consume now tok r = (found, r')"
  shows "case found of None \<Rightarrow> registry_ok ((c, Connect tok b, Opened Closed_1008) # log) running r'
    | Some t \<Rightarrow> (\<exists>a s q. pending log tok = Some (a, s, q, t) \<and> ticket_for a s q t) \<and> now < tt_expires t
        \<and> registry_ok ((c, Connect tok b, Opened (Running t)) # log) (running @ [t]) r'
        \<and> registry_ok ((c, Connect tok b, Opened (Broken t)) # log) running r'"
proof -
  let ?r1 = "prune_tickets now r"
  have p: "registry_ok log running ?r1" using assms(1) by (rule prune_ok)
  show ?thesis
  proof (cases "map_of (tr_tickets ?r1) tok")
    case None
    with p assms(2) show ?thesis
      by (auto simp: terminal_consume_def registry_ok_def broken_def is_broken_def)
  next
    case (Some t)
    then have r: "found = Some t" "r' = ?r1\<lparr>tr_tickets := AList.delete tok (tr_tickets ?r1), tr_active := tr_active ?r1 + 1\<rparr>"
      using assms(2) by (auto simp: terminal_consume_def Let_def)
    have "now < tt_expires t" using map_of_filter_Some [OF _ Some [unfolded prune_tickets_def, simplified]] assms(1)
      by (simp add: registry_ok_def not_le)
    moreover have "\<exists>a s q. pending log tok = Some (a, s, q, t) \<and> ticket_for a s q t" using p Some by (simp add: registry_ok_def)
    ultimately show ?thesis using p delete_shrinks [OF Some] unfolding registry_ok_def r
      by (auto simp: delete_conv' distinct_delete broken_def is_broken_def split: if_splits)
  qed
qed

lemma release_ok: "registry_ok log running r \<Longrightarrow> n < length running
    \<Longrightarrow> registry_ok ((c, End m, Ended) # log) (take n running @ drop (Suc n) running) (terminal_release r)"
  unfolding registry_ok_def terminal_release_def by (auto simp: broken_def is_broken_def)

text \<open>The two requests, by their outcomes.\<close>

definition wanted_ticket :: "string \<Rightarrow> string option \<Rightarrow> terminal_session_request \<Rightarrow> string \<Rightarrow> terminal_ticket" where
  "wanted_ticket a s q cwd = \<lparr>tt_cwd = cwd, tt_rows = sq_rows q, tt_cols = sq_cols q, tt_expires = 0, tt_actor = a, tt_source = s\<rparr>"

lemma create_cases:
  obtains (early) e where "create_terminal_session env is_dir c a s q st = (Inl e, st)"
  | (issue) cwd where "create_terminal_session env is_dir c a s q st = issue_ticket env c (wanted_ticket a s q cwd) st"
      "10 \<le> sq_rows q" "sq_rows q \<le> 80" "40 \<le> sq_cols q" "sq_cols q \<le> 240"
proof (cases "check_session_request q")
  case (Inl e)
  show thesis by (rule early [of e]) (simp add: create_terminal_session_def andthen_def lift_result_def Inl)
next
  case Inr1: (Inr q')
  then have b: "10 \<le> sq_rows q" "sq_rows q \<le> 80" "40 \<le> sq_cols q" "sq_cols q \<le> 240"
    by (auto simp: check_session_request_def res_bind_def in_range_def split: if_splits)
  show thesis
  proof (cases "require_terminal_enabled c")
    case (Inl e)
    show thesis by (rule early [of e]) (simp add: create_terminal_session_def andthen_def lift_result_def Inl Inr1)
  next
    case Inr2: (Inr x)
    show thesis
    proof (cases "validate_cwd is_dir (sq_cwd q)")
      case (Inl e)
      show thesis by (rule early [of e]) (simp add: create_terminal_session_def andthen_def lift_result_def Inl Inr1 Inr2)
    next
      case (Inr cwd)
      show thesis
        by (rule issue [OF _ b, of cwd]) (simp add: create_terminal_session_def andthen_def lift_result_def Inr Inr1 Inr2 wanted_ticket_def)
    qed
  qed
qed

lemma connect_run:
  assumes "terminal_enabled c" "terminal_consume (ae_clock env (ts_reads st)) tok (terminals c st) = (found, r')"
  shows "terminal_step env is_dir c (Connect tok b) st =
    (let st1 = st\<lparr>ts_registry := Some r', ts_reads := ts_reads st + 1\<rparr> in
     case found of None \<Rightarrow> (Opened Closed_1008, st1)
     | Some t \<Rightarrow> if b then (Opened (Running t), st1\<lparr>ts_open := ts_open st @ [t]\<rparr>) else (Opened (Broken t), st1))"
  using assms by (simp add: open_terminal_def Let_def split: option.split)

lemma history_ok: "terminal_history env is_dir log st \<Longrightarrow> terminals_ok log st"
proof (induction rule: terminal_history.induct)
  case (fresh n k)
  then show ?case by (simp add: terminals_ok_def broken_def)
next
  case (replied log st c ev rep st')
  note reg = registry_of_state [OF replied(3), of c] and mx = max_of_state [OF replied(3), of c ev rep]
  have same: "terminals_ok ((c, ev, rep) # log) st" if "\<not> is_broken rep" "\<And>tok. pending ((c, ev, rep) # log) tok = pending log tok"
    using replied(3) that by (auto simp: terminals_ok_def registry_ok_def broken_def split: option.splits)
  show ?case
  proof (cases ev)
    case (Ask a s q)
    from create_cases [of env is_dir c a s q st] show ?thesis
    proof cases
      case (early e)
      with replied(2) Ask have "rep = Denied e" "st' = st" by simp_all
      then show ?thesis using same by (simp add: Ask is_broken_def)
    next
      case (issue cwd)
      obtain res r' where ti: "terminal_issue (ae_clock env (ts_reads st)) (ae_clock env (ts_reads st + 1)) (ae_token env (ts_draws st))
          (wanted_ticket a s q cwd) (terminals c st) = (res, r')" by force
      have m: "tr_max r' = tr_max (terminals c st)"
        using ti by (auto simp: terminal_issue_def prune_tickets_def Let_def split: if_splits)
      show ?thesis
      proof (cases res)
        case (Inl e)
        with replied(2) Ask issue(1) ti have o: "\<exists>e. rep = Denied e" "ts_open st' = ts_open st" "ts_registry st' = Some r'"
          by (auto simp: issue_ticket_def)
        with issue_ok [OF reg ti] Inl mx m show ?thesis
          by (auto simp: terminals_ok_def registry_ok_def broken_def is_broken_def Ask)
      next
        case (Inr t)
        with replied(2) Ask issue(1) ti have o: "rep = Ticket (ae_token env (ts_draws st)) t" "ts_open st' = ts_open st" "ts_registry st' = Some r'"
          by (auto simp: issue_ticket_def)
        have "ticket_for a s q t" using issue_ok [OF reg ti] Inr issue(2-) by (simp add: ticket_for_def wanted_ticket_def)
        moreover have "\<forall>a s q. ticket_for a s q t \<longrightarrow> registry_ok ((c, Ask a s q, Ticket (ae_token env (ts_draws st)) t) # log) (ts_open st) r'"
          using issue_ok [OF reg ti, of c] Inr by (simp only: sum.case) blast
        ultimately have "registry_ok ((c, ev, rep) # log) (ts_open st') r'" using o by (simp add: Ask)
        with mx o(3) m show ?thesis by (simp add: terminals_ok_def)
      qed
    qed
  next
    case (Connect tok b)
    show ?thesis
    proof (cases "terminal_enabled c")
      case False
      with replied(2) Connect have "rep = Opened Closed_1008" "st' = st" by (auto simp: open_terminal_def)
      then show ?thesis using same by (simp add: Connect is_broken_def)
    next
      case True
      obtain found r' where tc: "terminal_consume (ae_clock env (ts_reads st)) tok (terminals c st) = (found, r')" by force
      have m: "tr_max r' = tr_max (terminals c st)"
        using tc by (auto simp: terminal_consume_def prune_tickets_def Let_def split: option.splits)
      note run = trans [OF replied(2) [unfolded Connect, symmetric] connect_run [OF True tc, of is_dir b]]
      show ?thesis
      proof (cases found)
        case None
        with run have "rep = Opened Closed_1008" "ts_open st' = ts_open st" "ts_registry st' = Some r'" by (auto simp: Let_def)
        with consume_ok [OF reg tc, of c b] None mx m show ?thesis by (simp add: terminals_ok_def Connect)
      next
        case (Some t)
        with run have "ts_registry st' = Some r'"
          "rep = Opened (if b then Running t else Broken t)" "ts_open st' = (if b then ts_open st @ [t] else ts_open st)"
          by (cases b; simp add: Let_def)+
        with consume_ok [OF reg tc, of c b] Some mx m show ?thesis by (cases b) (simp_all add: terminals_ok_def Connect)
      qed
    qed
  next
    case (End n)
    with replied(2) have rep: "rep = Ended" "st' = snd (close_terminal c n st)" by auto
    show ?thesis
    proof (cases "n < length (ts_open st)")
      case True
      with release_ok [OF reg True, of c n] mx rep show ?thesis
        by (auto simp: terminals_ok_def close_terminal_def End terminal_release_def)
    next
      case False
      then show ?thesis using same by (simp add: rep End close_terminal_def is_broken_def)
    qed
  qed
qed

section \<open>Properties\<close>

text \<open>C36. However requests, connections and their ends interleave, the running terminals and the
  unused tickets together never exceed the limit (of the configuration in force when the
  registry was made), and the count the code keeps is that of the running terminals plus that of
  the connections that broke while they were accepted.\<close>

theorem terminals_are_bounded:
  assumes "terminal_history env is_dir log st" "ts_registry st = Some r"
  shows "int (tr_active r) + int (length (tr_tickets r)) \<le> max 0 (tr_max r)
    \<and> tr_active r = length (ts_open st) + broken log \<and> (\<exists>c \<in> fst ` set log. tr_max r = terminal_max_sessions c)"
  using history_ok [OF assms(1)] assms(2) by (simp add: terminals_ok_def registry_ok_def)

definition terminal_web :: web_config where
  "terminal_web = sample_web\<lparr>terminal_enabled := True\<rparr>"

definition sample_ask :: terminal_session_request where
  "sample_ask = \<lparr>sq_cwd = ''/srv'', sq_rows = 30, sq_cols = 100\<rparr>"

definition no_terminals :: terminal_state where
  "no_terminals = \<lparr>ts_registry = None, ts_open = [], ts_reads = 0, ts_draws = 0\<rparr>"

definition sample_ticket :: terminal_ticket where
  "sample_ticket = \<lparr>tt_cwd = ''/srv'', tt_rows = 30, tt_cols = 100, tt_expires = 61000, tt_actor = ''admin'', tt_source = None\<rparr>"

definition one_ticket :: terminal_state where
  "one_ticket = \<lparr>ts_registry = Some \<lparr>tr_tickets = [(''0'', sample_ticket)], tr_active = 0, tr_max = 2\<rparr>,
     ts_open = [], ts_reads = 2, ts_draws = 1\<rparr>"

lemma sample_cwd: "validate_cwd (\<lambda>_. True) (sq_cwd sample_ask) = Inr ''/srv''"
  by code_simp

lemma sample_asked:
  "terminal_step sample_auth (\<lambda>_. True) terminal_web (Ask ''admin'' None sample_ask) no_terminals = (Ticket ''0'' sample_ticket, one_ticket)"
proof -
  have "show_nat 0 = ''0''" "terminal_max_sessions terminal_web = 2" "terminal_enabled terminal_web" by code_simp+
  with sample_cwd show ?thesis
    by (simp add: create_terminal_session_def andthen_def lift_result_def check_session_request_def in_range_def sample_ask_def
        require_terminal_enabled_def issue_ticket_def terminal_issue_def prune_tickets_def terminals_def no_terminals_def
        new_terminals_def one_ticket_def sample_ticket_def ticket_ttl_def Let_def) (simp add: sample_auth_def)
qed

lemma sample_history:
  "terminal_history sample_auth (\<lambda>_. True) [(terminal_web, Ask ''admin'' None sample_ask, Ticket ''0'' sample_ticket)] one_ticket"
  by (rule terminal_history.replied [OF terminal_history.fresh sample_asked [unfolded no_terminals_def]])

lemma terminals_are_bounded_witness:
  "\<exists>r. ts_registry one_ticket = Some r \<and> int (tr_active r) + int (length (tr_tickets r)) \<le> max 0 (tr_max r)"
proof -
  have "ts_registry one_ticket = Some \<lparr>tr_tickets = [(''0'', sample_ticket)], tr_active = 0, tr_max = 2\<rparr>" by (simp add: one_ticket_def)
  from terminals_are_bounded [OF sample_history this] this show ?thesis by blast
qed





section \<open>Ending a shell\<close>

definition sleeps_advance :: "env \<Rightarrow> bool" where
  "sleeps_advance env = (\<forall>w n. e_mono env w + n \<le> e_mono env (snd (sleep_for env n w)))"

lemma child_gone_run:
  assumes "sleeps_advance env" "d \<le> e_mono env w + 50 * n"
  shows "\<exists>gone w'. child_gone env pid d n w = (Inr gone, w') \<and> extends w w' \<and> set (new_events w w') \<subseteq> {Slept 50}
    \<and> length (new_events w w') \<le> n \<and> (if gone then child_exited env w' pid else d \<le> e_mono env w')"
  using assms(2)
proof (induction n arbitrary: w)
  case 0
  then show ?case by (intro exI [of _ False]) (simp add: ret_def new_events_def extends_def)
next
  case (Suc n)
  show ?case
  proof (cases "e_mono env w < d \<and> \<not> child_exited env w pid")
    case False
    then show ?thesis by (auto simp: ret_def new_events_def extends_def)
  next
    case True
    let ?w1 = "snd (sleep_for env 50 w)"
    have s: "sleep_for env 50 w = (Inr (), ?w1)" by (simp add: sleep_for_def happen_def)
    have "e_mono env w + 50 \<le> e_mono env ?w1" using assms(1) by (simp add: sleeps_advance_def)
    then have "d \<le> e_mono env ?w1 + 50 * n" using Suc.prems by simp
    from Suc.IH [OF this] obtain gone w' where ih: "child_gone env pid d n ?w1 = (Inr gone, w')" "extends ?w1 w'"
      "set (new_events ?w1 w') \<subseteq> {Slept 50}" "length (new_events ?w1 w') \<le> n"
      "if gone then child_exited env w' pid else d \<le> e_mono env w'" by blast
    have "child_gone env pid d (Suc n) w = (Inr gone, w')"
      using True ih(1) unfolding child_gone.simps andthen_def by (subst s) simp
    moreover have e: "extends w ?w1" "new_events w ?w1 = [Slept 50]"
      by (auto simp: sleep_for_def happen_def record_event_def extends_def new_events_def)
    moreover have "new_events w w' = Slept 50 # new_events ?w1 w'" using new_events_trans [OF e(1) ih(2)] e(2) by simp
    moreover have "extends w w'" using e(1) ih(2) by (rule extends_trans)
    ultimately show ?thesis using ih(3-5) by (intro exI [of _ gone] exI [of _ w']) auto
  qed
qed

text \<open>Ending a shell always returns: after SIGTERM it sleeps at most 40 times, 50
  milliseconds each; a child that exits within two seconds gets no SIGKILL, and one that is still
  there then gets it.\<close>

theorem terminating_a_shell:
  assumes "sleeps_advance env" "try_kill env pid ''SIGTERM'' w = (Inr (), w0)"
  shows "\<exists>gone w1 w'. terminate_child env pid w = (Inr (), w') \<and> set (new_events w0 w1) \<subseteq> {Slept 50}
    \<and> length (new_events w0 w1) \<le> 40
    \<and> (if gone then child_exited env w1 pid \<and> w' = w1
       else e_mono env w0 + 2000 \<le> e_mono env w1 \<and> try_kill env pid ''SIGKILL'' w1 = (Inr (), w'))"
proof -
  from child_gone_run [OF assms(1), of "e_mono env w0 + 2000" w0 40 pid] obtain gone w1 where
    g: "child_gone env pid (e_mono env w0 + 2000) 40 w0 = (Inr gone, w1)" "set (new_events w0 w1) \<subseteq> {Slept 50}"
      "length (new_events w0 w1) \<le> 40" "if gone then child_exited env w1 pid else e_mono env w0 + 2000 \<le> e_mono env w1"
    by auto
  obtain w2 where k: "try_kill env pid ''SIGKILL'' w1 = (Inr (), w2)"
    by (cases "kill_process env pid ''SIGKILL'' w1") (simp add: try_kill_def)
  have "terminate_child env pid w = (if gone then (Inr (), w1) else try_kill env pid ''SIGKILL'' w1)"
    using assms(2) g(1) by (simp add: terminate_child_def andthen_def current_def ret_def)
  with g k show ?thesis
    by (intro exI [of _ gone] exI [of _ w1] exI [of _ "if gone then w1 else w2"]) (auto split: if_splits)
qed

definition slept_ms :: "event \<Rightarrow> nat" where
  "slept_ms e = (case e of Slept n \<Rightarrow> n | _ \<Rightarrow> 0)"

definition stuck_shell :: env where
  "stuck_shell = sample_env\<lparr>e_alive := (\<lambda>_ _. True), e_mono := (\<lambda>w. sum_list (map slept_ms (trace w)))\<rparr>"

lemma terminating_a_shell_witness: "\<exists>w'. terminate_child stuck_shell 7 sample_world = (Inr (), w')"
proof -
  have "sleeps_advance stuck_shell"
    by (simp add: sleeps_advance_def stuck_shell_def sleep_for_def happen_def record_event_def slept_ms_def)
  moreover obtain w0 where "try_kill stuck_shell 7 ''SIGTERM'' sample_world = (Inr (), w0)"
    by (cases "kill_process stuck_shell 7 ''SIGTERM'' sample_world") (simp add: try_kill_def)
  ultimately show ?thesis using terminating_a_shell by blast
qed

text \<open>Whatever a browser sends, the window size passed to the terminal is within the bounds,
  so packing it into 16-bit fields never fails.\<close>

theorem resize_is_bounded:
  "terminal_input decode show_doc raw \<in> {Resize r c | r c. 10 \<le> r \<and> r \<le> 80 \<and> 40 \<le> c \<and> c \<le> 240} \<union> {Keys k | k. k \<noteq> []} \<union> {Ignored}"
  by (auto simp: terminal_input_def Let_def bounded_int_def split: option.split)

section \<open>Behaviours the code did not intend\<close>

text \<open>A connection that breaks while it is accepted never gives its place back: after as many of
  them as the limit no terminal can be opened until the panel is restarted.\<close>

theorem broken_connections_block_the_terminal:
  assumes "terminal_history env is_dir log st" "ts_registry st = Some r" "tr_max r \<le> int (broken log)"
  shows "\<exists>e st'. terminal_step env is_dir c (Ask a s q) st = (Denied e, st')"
  using create_cases [of env is_dir c a s q st]
proof cases
  case (issue cwd)
  have "tr_max r \<le> int (tr_active r)" using history_ok [OF assms(1)] assms(2,3) by (simp add: terminals_ok_def registry_ok_def)
  with issue(1) assms(2) show ?thesis
    by (simp add: issue_ticket_def terminal_issue_def terminals_def prune_tickets_def Let_def)
qed simp

text \<open>The output is masked chunk by chunk, so a secret that a read cuts in two is shown.\<close>

theorem cut_secret_is_shown:
  "concat (butlast (terminal_output [''s3cret99''] [''s3cr'', ''et99''])) = ''s3cret99''"
  by code_simp

end
