(* ===== verification/Env_Loader.thy ===== *)
theory Env_Loader
  imports Terminal Files Config_App
begin

text \<open>
  \<open>config/env.py\<close> and \<open>config/loader.py\<close>: the \<open>.env\<close> file, configuration values from environment
  variables, the merge of the layers and the secret references. The YAML parser, \<open>json.loads\<close>
  (whose numbers may have fractions) and the conversion of the merged document to the data
  classes are arguments. A dictionary is an association list in insertion order.
\<close>

section \<open>The dotenv file\<close>

definition dotenv_key :: "string \<Rightarrow> bool" where
  "dotenv_key k = (let t = re_dollar k in t \<noteq> [] \<and> (is_alpha (hd t) \<or> hd t = CHR ''_'') \<and> list_all (name_chars ''_'') t)"

text \<open>\<open>_strip_inline_comment\<close>: the open quote, whether the last character escapes, the
  characters kept so far in reverse.\<close>

fun uncommented :: "char option \<Rightarrow> bool \<Rightarrow> string \<Rightarrow> string \<Rightarrow> string" where
  "uncommented quot escaped kept [] = rev kept"
| "uncommented quot escaped kept (c # r) =
     (if escaped then uncommented quot False (c # kept) r
      else if quot = Some (CHR 34) \<and> c = CHR 92 then uncommented quot True (c # kept) r
      else if c = CHR 39 \<or> c = CHR 34
      then uncommented (if quot = Some c then None else if quot = None then Some c else quot) False (c # kept) r
      else if c = CHR ''#'' \<and> quot = None \<and> (kept = [] \<or> is_space (hd kept)) then rstrip_if is_space (rev kept)
      else uncommented quot False (c # kept) r)"

definition strip_inline_comment :: "string \<Rightarrow> string" where
  "strip_inline_comment v = uncommented None False [] v"

definition unescape_dotenv :: "string \<Rightarrow> string" where
  "unescape_dotenv v = foldl (\<lambda>s (old, new). replace_all old [new] s) v
     [([CHR 92, CHR ''n''], LF), ([CHR 92, CHR ''r''], CR), ([CHR 92, CHR ''t''], char_of (9 :: nat)),
      ([CHR 92, CHR 34], CHR 34), ([CHR 92, CHR 92], CHR 92)]"

text \<open>\<open>s[1:-1]\<close>.\<close>

definition inner :: "string \<Rightarrow> string" where
  "inner s = butlast (tl s)"

definition parse_dotenv_value :: "string \<Rightarrow> string" where
  "parse_dotenv_value v = (let s = strip_inline_comment (strip v) in
     if s = [] then []
     else if hd s = CHR 39 \<and> last s = CHR 39 then inner s
     else if hd s = CHR 34 \<and> last s = CHR 34 then unescape_dotenv (inner s)
     else s)"

definition parse_dotenv_line :: "string \<Rightarrow> (string \<times> string) option" where
  "parse_dotenv_line raw = (let line = strip raw in
     if line = [] \<or> hd line = CHR ''#'' \<or> CHR ''='' \<notin> set line then None
     else let l = (if starts_with ''export '' line then lstrip_if is_space (drop 7 line) else line) in
       case cut CHR ''='' l of (k, Some v) \<Rightarrow> let key = strip k in
           if dotenv_key key then Some (key, parse_dotenv_value v) else None
         | (k, None) \<Rightarrow> None)"

definition parse_dotenv_text :: "string \<Rightarrow> (string \<times> string) list" where
  "parse_dotenv_text t = foldl (\<lambda>m l. case parse_dotenv_line l of None \<Rightarrow> m | Some (k, v) \<Rightarrow> AList.update k v m)
     [] (splitlines (read_text t))"

definition parse_dotenv_file :: "string option \<Rightarrow> world \<Rightarrow> (string \<times> string) list" where
  "parse_dotenv_file path w = (case path of None \<Rightarrow> []
     | Some p \<Rightarrow> (case files w p of None \<Rightarrow> [] | Some t \<Rightarrow> parse_dotenv_text t))"

text \<open>\<open>path.parent / name\<close>.\<close>

definition sibling :: "string \<Rightarrow> string \<Rightarrow> string" where
  "sibling p name = rev (dropWhile (\<lambda>c. c \<noteq> CHR ''/'') (rev (path_text p))) @ name"

definition discover_env_file :: "string \<Rightarrow> string option \<Rightarrow> string option \<Rightarrow> world \<Rightarrow> string option" where
  "discover_env_file cwd config_path explicit w = (case explicit of Some p \<Rightarrow> Some p
     | None \<Rightarrow> find (\<lambda>p. files w p \<noteq> None)
         ((case config_path of None \<Rightarrow> [] | Some p \<Rightarrow> [sibling p ''.env'']) @ [path_join cwd ''.env'']))"

definition combined_environment :: "string \<Rightarrow> string option \<Rightarrow> string option \<Rightarrow> (string \<times> string) list \<Rightarrow> world
    \<Rightarrow> (string \<times> string) list" where
  "combined_environment cwd config_path env_file environ w =
     foldl (\<lambda>m (k, v). AList.update k v m) (parse_dotenv_file (discover_env_file cwd config_path env_file w) w) environ"

section \<open>Values from the environment\<close>

definition parse_env_value :: "(string \<Rightarrow> json option) \<Rightarrow> string \<Rightarrow> json" where
  "parse_env_value decode value = (let s = strip value in
     if s = [] then JStr []
     else case decode s of Some j \<Rightarrow> j
       | None \<Rightarrow> let l = lower s in
           if l \<in> {''true'', ''yes'', ''on''} then JBool True
           else if l \<in> {''false'', ''no'', ''off''} then JBool False
           else if l \<in> {''null'', ''none''} then JNull
           else if starts_with ''0'' s \<and> s \<noteq> ''0'' \<and> \<not> starts_with ''0.'' s then JStr s
           else case py_int s of Some i \<Rightarrow> JInt i | None \<Rightarrow> JStr s)"

text \<open>\<open>str.split('__')\<close>, the characters of the current part in reverse.\<close>

fun split_dunder :: "string \<Rightarrow> string \<Rightarrow> string list" where
  "split_dunder acc (c # d # r) = (if c = CHR ''_'' \<and> d = CHR ''_'' then rev acc # split_dunder [] r
     else split_dunder (c # acc) (d # r))"
| "split_dunder acc s = [rev acc @ s]"

definition override_prefix :: string where
  "override_prefix = ''KORSERVER_''"

definition override_path :: "string \<Rightarrow> string list" where
  "override_path key = map lower (filter (\<lambda>s. s \<noteq> []) (split_dunder [] (drop (length override_prefix) key)))"

definition is_override :: "string \<Rightarrow> bool" where
  "is_override key = (starts_with override_prefix key \<and> key \<notin> {''KORSERVER_CONFIG'', ''KORSERVER_ENV_FILE''}
     \<and> 1 < length (split_dunder [] (drop (length override_prefix) key)) \<and> override_path key \<noteq> [])"

definition secret_segment :: "string \<Rightarrow> bool" where
  "secret_segment s = list_ex (\<lambda>w. suffix w (re_dollar (lower s))) [''password'', ''passphrase'', ''secret'', ''token'']"

definition override_value :: "(string \<Rightarrow> json option) \<Rightarrow> string list \<Rightarrow> string \<Rightarrow> json" where
  "override_value decode path raw = (if secret_segment (last path) then JStr raw else parse_env_value decode raw)"

text \<open>Walk down the segments, making dictionaries on the way, and assign.\<close>

fun set_at :: "string list \<Rightarrow> json \<Rightarrow> (string \<times> json) list \<Rightarrow> (string \<times> json) list result" where
  "set_at [] v d = Inr d"
| "set_at [k] v d = Inr (AList.update k v d)"
| "set_at (k # ks) v d = (case (case map_of d k of None \<Rightarrow> JDict [] | Some j \<Rightarrow> j) of
     JDict child \<Rightarrow> res_bind (set_at ks v child) (\<lambda>child'. Inr (AList.update k (JDict child') d))
   | _ \<Rightarrow> Inl ValueError)"

fun env_overrides_from :: "(string \<Rightarrow> json option) \<Rightarrow> (string \<times> string) list \<Rightarrow> (string \<times> json) list
    \<Rightarrow> (string \<times> json) list result" where
  "env_overrides_from decode [] d = Inr d"
| "env_overrides_from decode ((key, raw) # rest) d =
     (if is_override key
      then res_bind (set_at (override_path key) (override_value decode (override_path key) raw) d) (env_overrides_from decode rest)
      else env_overrides_from decode rest d)"

definition env_overrides :: "(string \<Rightarrow> json option) \<Rightarrow> (string \<times> string) list \<Rightarrow> (string \<times> json) list result" where
  "env_overrides decode values = env_overrides_from decode values []"

section \<open>Merging and resolving\<close>

function deep_merge :: "(string \<times> json) list \<Rightarrow> (string \<times> json) list \<Rightarrow> (string \<times> json) list" where
  "deep_merge base [] = base"
| "deep_merge base ((k, v) # rest) =
     deep_merge (AList.update k (case v of JDict y \<Rightarrow> (case map_of base k of Some (JDict x) \<Rightarrow> JDict (deep_merge x y) | _ \<Rightarrow> v) | _ \<Rightarrow> v) base) rest"
  by pat_completeness auto
termination by (relation "measure (\<lambda>(b, x). size_list (size_prod (\<lambda>_. 0) size) x)") auto

definition load_yaml_text :: "(string \<Rightarrow> json result) \<Rightarrow> string option \<Rightarrow> (string \<times> json) list result" where
  "load_yaml_text parse t = (case t of None \<Rightarrow> Inr []
     | Some x \<Rightarrow> res_bind (parse (read_text x)) (\<lambda>j. case j of JNull \<Rightarrow> Inr [] | JDict kvs \<Rightarrow> Inr kvs | _ \<Rightarrow> Inl ValueError))"

text \<open>\<open>SECRET_REF_RE.match\<close>: the whole value is a reference to a named secret.\<close>

definition whole_ref :: "string \<Rightarrow> string option" where
  "whole_ref v = (let t = re_dollar v in
     if starts_with ref_open t \<and> last t = CHR ''}'' \<and> length ref_open < length t
     then (let name = butlast (drop (length ref_open) t) in
       if name \<noteq> [] \<and> (is_alpha (hd name) \<or> hd name = CHR ''_'') \<and> list_all (name_chars ''_'') name then Some name else None)
     else None)"

fun resolve_secret_refs :: "(string \<Rightarrow> string option) \<Rightarrow> json \<Rightarrow> json result"
  and resolve_items :: "(string \<Rightarrow> string option) \<Rightarrow> json list \<Rightarrow> json list result"
  and resolve_entries :: "(string \<Rightarrow> string option) \<Rightarrow> (string \<times> json) list \<Rightarrow> (string \<times> json) list result" where
  "resolve_secret_refs secrets (JDict kvs) = res_bind (resolve_entries secrets kvs) (\<lambda>r. Inr (JDict r))"
| "resolve_secret_refs secrets (JList xs) = res_bind (resolve_items secrets xs) (\<lambda>r. Inr (JList r))"
| "resolve_secret_refs secrets (JStr s) = (case whole_ref s of None \<Rightarrow> Inr (JStr s)
     | Some name \<Rightarrow> (case secrets name of None \<Rightarrow> Inl ValueError | Some v \<Rightarrow> Inr (JStr v)))"
| "resolve_secret_refs secrets j = Inr j"
| "resolve_items secrets [] = Inr []"
| "resolve_items secrets (x # xs) = res_bind (resolve_secret_refs secrets x) (\<lambda>y. res_bind (resolve_items secrets xs) (\<lambda>ys. Inr (y # ys)))"
| "resolve_entries secrets [] = Inr []"
| "resolve_entries secrets ((k, v) # kvs) =
     res_bind (resolve_secret_refs secrets v) (\<lambda>y. res_bind (resolve_entries secrets kvs) (\<lambda>ys. Inr ((k, y) # ys)))"

record loader =
  ld_yaml :: "string \<Rightarrow> json result"
  ld_json :: "string \<Rightarrow> json option"
  ld_validate :: "json \<Rightarrow> app_config result"
  ld_defaults :: "(string \<times> json) list"
  ld_cwd :: string

definition default_config_path :: string where
  "default_config_path = ''/etc/korserver/config.yaml''"

definition load_document :: "loader \<Rightarrow> string option \<Rightarrow> string option \<Rightarrow> (string \<times> json) list \<Rightarrow> (string \<times> string) list
    \<Rightarrow> world \<Rightarrow> json result" where
  "load_document ld config_path env_file cli environ w =
     (let path = (case config_path of None \<Rightarrow> default_config_path | Some p \<Rightarrow> p);
          environment = combined_environment (ld_cwd ld) (Some path) env_file environ w in
      res_bind (load_yaml_text (ld_yaml ld) (files w path)) (\<lambda>yaml.
      res_bind (env_overrides (ld_json ld) environment) (\<lambda>overrides.
      resolve_secret_refs (map_of environment)
        (JDict (deep_merge (deep_merge (deep_merge (ld_defaults ld) yaml) overrides) cli)))))"

definition load_config :: "loader \<Rightarrow> string option \<Rightarrow> string option \<Rightarrow> (string \<times> json) list \<Rightarrow> (string \<times> string) list
    \<Rightarrow> world \<Rightarrow> app_config result" where
  "load_config ld config_path env_file cli environ w =
     res_bind (load_document ld config_path env_file cli environ w) (ld_validate ld)"

end
