(* ===== verification/Loader_Properties.thy ===== *)
theory Loader_Properties
  imports Env_Loader Samples
begin

text \<open>
  Properties of configuration loading: a layer overrides exactly what it names, environment
  variables reach the document whatever their order, and a quoted \<open>.env\<close> file reads back. Two
  theorems on behaviours the code did not intend close the theory.
\<close>

section \<open>Documents by path\<close>

fun at_path :: "string list \<Rightarrow> json \<Rightarrow> json option" where
  "at_path [] j = Some j"
| "at_path (k # ks) (JDict d) = (case map_of d k of None \<Rightarrow> None | Some j \<Rightarrow> at_path ks j)"
| "at_path (k # ks) j = None"

definition leaf_at :: "string list \<Rightarrow> json \<Rightarrow> bool" where
  "leaf_at p j = (case at_path p j of Some v \<Rightarrow> \<not> is_dict v | None \<Rightarrow> False)"

lemma at_path_none [simp]: "\<not> is_dict j \<Longrightarrow> at_path (k # ks) j = None"
  by (cases j) simp_all

lemma at_path_append: "at_path (p @ q) j = (case at_path p j of None \<Rightarrow> None | Some v \<Rightarrow> at_path q v)"
  by (induction p j rule: at_path.induct) (auto split: option.split)

section \<open>Merging\<close>

fun merge_value :: "json option \<Rightarrow> json \<Rightarrow> json" where
  "merge_value (Some (JDict x)) (JDict y) = JDict (deep_merge x y)"
| "merge_value old v = v"

lemma merge_value_step: "(case v of JDict y \<Rightarrow> (case old of Some (JDict x) \<Rightarrow> JDict (deep_merge x y) | _ \<Rightarrow> v) | _ \<Rightarrow> v) = merge_value old v"
  by (cases v; cases old) (auto split: json.split)

lemma deep_merge_Cons: "deep_merge base ((k, v) # rest) = deep_merge (AList.update k (merge_value (map_of base k) v) base) rest"
  by (simp only: deep_merge.simps merge_value_step)

lemma map_of_deep_merge:
  "distinct (map fst upper) \<Longrightarrow> map_of (deep_merge base upper) k =
    (case map_of upper k of None \<Rightarrow> map_of base k | Some v \<Rightarrow> Some (merge_value (map_of base k) v))"
proof (induction upper arbitrary: base)
  case (Cons kv rest)
  obtain j v where kv: "kv = (j, v)" by force
  with Cons.prems have "map_of rest j = None" "distinct (map fst rest)" by (auto simp: map_of_eq_None_iff)
  with Cons.IH [of "AList.update j (merge_value (map_of base j) v) base"] show ?case
    by (simp only: kv deep_merge_Cons) (auto simp: update_conv' split: option.split)
qed simp

text \<open>C39. Merging a layer changes exactly what the layer names: a leaf of the upper layer is in
  the result, and a path the upper layer does not reach (nor cut off by a leaf above it) keeps
  what it had.\<close>

theorem upper_layer_wins:
  assumes "wf_json (JDict upper)"
  shows "(leaf_at p (JDict upper) \<longrightarrow> at_path p (JDict (deep_merge base upper)) = at_path p (JDict upper))
    \<and> (at_path p (JDict upper) = None \<and> (\<forall>q. prefix q p \<longrightarrow> \<not> leaf_at q (JDict upper))
      \<longrightarrow> at_path p (JDict (deep_merge base upper)) = at_path p (JDict base))"
proof -
  have both: "(leaf_at p (JDict u) \<longrightarrow> at_path p (JDict (deep_merge b u)) = at_path p (JDict u))
    \<and> (at_path p (JDict u) = None \<longrightarrow> (\<forall>q. prefix q p \<longrightarrow> \<not> leaf_at q (JDict u))
      \<longrightarrow> at_path p (JDict (deep_merge b u)) = at_path p (JDict b))" if "wf_json (JDict u)" for b u
    using that
  proof (induction p arbitrary: b u)
    case (Cons k ks)
    have d: "distinct (map fst u)" using Cons.prems by simp
    note m = map_of_deep_merge [OF d, of b k]
    show ?case
    proof (cases "map_of u k")
      case None
      then show ?thesis by (simp add: m leaf_at_def)
    next
      case (Some v)
      have wv: "wf_json v" using Cons.prems Some by (auto dest: map_of_SomeD)
      show ?thesis
      proof (cases "\<exists>x y. v = JDict y \<and> map_of b k = Some (JDict x)")
        case True
        then obtain x y where x: "v = JDict y" "map_of b k = Some (JDict x)" by blast
        have sub: "\<not> leaf_at q (JDict y)" if "\<forall>q. prefix q (k # ks) \<longrightarrow> \<not> leaf_at q (JDict u)" "prefix q ks" for q
          using that(1) [rule_format, of "k # q"] that(2) Some x by (simp add: leaf_at_def)
        from Cons.IH [of y x] wv sub Some x show ?thesis by (auto simp: m leaf_at_def)
      next
        case False
        then have "merge_value (map_of b k) v = v" by (cases "(map_of b k, v)" rule: merge_value.cases) auto
        then have same: "at_path (k # ks) (JDict (deep_merge b u)) = at_path (k # ks) (JDict u)" using Some by (simp add: m)
        have "at_path (k # ks) (JDict b) = None"
          if "at_path (k # ks) (JDict u) = None" "\<forall>q. prefix q (k # ks) \<longrightarrow> \<not> leaf_at q (JDict u)"
        proof -
          have "is_dict v" using that(2) [rule_format, of "[k]"] Some by (simp add: leaf_at_def)
          then have "\<not> (\<exists>x. map_of b k = Some (JDict x))" using False by (cases v) auto
          moreover have "ks \<noteq> []" using that(1) Some by auto
          ultimately show ?thesis by (cases "map_of b k"; cases ks; cases "the (map_of b k)") auto
        qed
        with same show ?thesis by metis
      qed
    qed
  qed (simp add: leaf_at_def)
  from this [OF assms] show ?thesis by blast
qed

definition sample_base :: "(string \<times> json) list" where
  "sample_base = [(''server'', JDict [(''port'', JInt 443), (''name'', JStr ''vpn'')])]"

definition sample_upper :: "(string \<times> json) list" where
  "sample_upper = [(''server'', JDict [(''port'', JInt 8443)]), (''web'', JDict [(''enabled'', JBool True)])]"

lemma upper_layer_wins_witness:
  "at_path [''server'', ''port''] (JDict (deep_merge sample_base sample_upper)) = Some (JInt 8443)
   \<and> at_path [''server'', ''name''] (JDict (deep_merge sample_base sample_upper)) = Some (JStr ''vpn'')"
proof -
  have wf: "wf_json (JDict sample_upper)" by (simp add: sample_upper_def)
  have "leaf_at [''server'', ''port''] (JDict sample_upper)" by (simp add: leaf_at_def sample_upper_def)
  moreover have "\<not> leaf_at q (JDict sample_upper)" if "prefix q [''server'', ''name'']" for q
    using that by (auto simp: prefix_Cons leaf_at_def sample_upper_def)
  ultimately show ?thesis
    using upper_layer_wins [OF wf, of "[''server'', ''port'']" sample_base]
      upper_layer_wins [OF wf, of "[''server'', ''name'']" sample_base]
    by (simp add: sample_upper_def sample_base_def)
qed

section \<open>Overrides from the environment\<close>

lemma set_at_Cons: "ks \<noteq> [] \<Longrightarrow> set_at (k # ks) v d = (case (case map_of d k of None \<Rightarrow> JDict [] | Some j \<Rightarrow> j) of
     JDict child \<Rightarrow> res_bind (set_at ks v child) (\<lambda>child'. Inr (AList.update k (JDict child') d))
   | _ \<Rightarrow> Inl ValueError)"
  by (cases ks) auto

lemma set_at_Inr:
  assumes "set_at (k # ks) v d = Inr d'" "ks \<noteq> []"
  obtains child child' where "set_at ks v child = Inr child'" "map_of d k = Some (JDict child) \<or> map_of d k = None \<and> child = []"
    "d' = AList.update k (JDict child') d"
  using assms by (auto simp: set_at_Cons res_bind_def split: option.splits json.splits sum.splits)

text \<open>Assigning at a path: the value is there, what is on the way is a dictionary, and nothing
  else changes.\<close>

lemma set_at_result:
  assumes "set_at p v d = Inr d'" "p \<noteq> []"
  shows "at_path p (JDict d') = Some v \<and> (\<forall>q. strict_prefix q p \<longrightarrow> (\<exists>x. at_path q (JDict d') = Some (JDict x)))
    \<and> (\<forall>q. \<not> prefix p q \<and> \<not> prefix q p \<longrightarrow> at_path q (JDict d') = at_path q (JDict d))"
  using assms
proof (induction p arbitrary: d d')
  case (Cons k ks)
  show ?case
  proof (cases "ks = []")
    case True
    with Cons.prems have d': "d' = AList.update k v d" by simp
    have "at_path q (JDict d') = at_path q (JDict d)" if "\<not> prefix [k] q" "\<not> prefix q [k]" for q
      using that by (cases q) (auto simp: d' update_conv')
    moreover have "\<exists>x. at_path q (JDict d') = Some (JDict x)" if "strict_prefix q [k]" for q
    proof -
      have "q = []" using that by (auto simp: strict_prefix_def prefix_Cons)
      then show ?thesis by simp
    qed
    moreover have "at_path [k] (JDict d') = Some v" by (simp add: d' update_conv')
    ultimately show ?thesis using True by blast
  next
    case False
    from set_at_Inr [OF Cons.prems(1) False] obtain child child' where c: "set_at ks v child = Inr child'"
      "map_of d k = Some (JDict child) \<or> map_of d k = None \<and> child = []" "d' = AList.update k (JDict child') d" .
    note ih = Cons.IH [OF c(1) False]
    have "at_path (k # ks) (JDict d') = Some v" using ih by (simp add: c(3) update_conv')
    moreover have "\<exists>x. at_path q (JDict d') = Some (JDict x)" if "strict_prefix q (k # ks)" for q
      using that ih by (cases q) (auto simp: c(3) update_conv')
    moreover have "at_path q (JDict d') = at_path q (JDict d)" if "\<not> prefix (k # ks) q" "\<not> prefix q (k # ks)" for q
    proof (cases q)
      case (Cons j js)
      show ?thesis
      proof (cases "j = k")
        case True
        with that Cons have "\<not> prefix ks js" "\<not> prefix js ks" by auto
        with ih have "at_path js (JDict child') = at_path js (JDict child)" by blast
        moreover have "js \<noteq> []" using \<open>\<not> prefix js ks\<close> by auto
        ultimately show ?thesis using c(2) True Cons by (cases js) (auto simp: c(3) update_conv')
      qed (simp add: Cons c(3) update_conv')
    qed (use that in simp)
    ultimately show ?thesis by blast
  qed
qed simp

lemma set_at_succeeds:
  assumes "\<forall>q. q \<noteq> [] \<and> strict_prefix q p \<longrightarrow> \<not> leaf_at q (JDict d)"
  shows "\<exists>d'. set_at p v d = Inr d'"
  using assms
proof (induction p arbitrary: d)
  case (Cons k ks)
  show ?case
  proof (cases "ks = []")
    case False
    have "\<not> leaf_at [k] (JDict d)" using Cons.prems False by (simp add: strict_prefix_def)
    then obtain child where c: "map_of d k = Some (JDict child) \<or> map_of d k = None \<and> child = []"
      by (cases "map_of d k"; cases "the (map_of d k)") (auto simp: leaf_at_def)
    have "\<not> leaf_at q (JDict child)" if "q \<noteq> []" "strict_prefix q ks" for q
      using Cons.prems [rule_format, of "k # q"] that c by (cases q) (auto simp: leaf_at_def)
    then obtain child' where "set_at ks v child = Inr child'" using Cons.IH by blast
    with c False show ?thesis by (auto simp: set_at_Cons)
  qed simp
qed simp

text \<open>The paths of the variables taken as overrides, none leading to or through another.\<close>

definition apart :: "(string \<times> string) list \<Rightarrow> bool" where
  "apart vals = (\<forall>i < length vals. \<forall>j < length vals. i \<noteq> j \<longrightarrow> is_override (fst (vals ! i)) \<longrightarrow> is_override (fst (vals ! j))
     \<longrightarrow> \<not> prefix (override_path (fst (vals ! i))) (override_path (fst (vals ! j))))"

lemma apart_Cons:
  assumes "apart ((key, raw) # vals)" "is_override key" "(k, r) \<in> set vals" "is_override k"
  shows "\<not> prefix (override_path key) (override_path k)" "\<not> prefix (override_path k) (override_path key)"
proof -
  from assms(3) obtain i where i: "i < length vals" "vals ! i = (k, r)" by (auto simp: in_set_conv_nth)
  then show "\<not> prefix (override_path key) (override_path k)"
    using assms(1) [unfolded apart_def, rule_format, of 0 "Suc i"] assms(2,4) by simp
  show "\<not> prefix (override_path k) (override_path key)"
    using assms(1) [unfolded apart_def, rule_format, of "Suc i" 0] assms(2,4) i by simp
qed

lemma apart_tail: "apart (e # vals) \<Longrightarrow> apart vals"
  unfolding apart_def by (intro allI impI) (metis Suc_less_eq length_Cons nat.inject nth_Cons_Suc)

lemma overrides_run:
  assumes "apart vals" "\<forall>(k, r) \<in> set vals. is_override k \<longrightarrow>
      (\<forall>q. q \<noteq> [] \<and> leaf_at q (JDict d) \<longrightarrow> \<not> prefix q (override_path k))"
  shows "\<exists>d'. env_overrides_from decode vals d = Inr d'
    \<and> (\<forall>(k, r) \<in> set vals. is_override k \<longrightarrow> at_path (override_path k) (JDict d') = Some (override_value decode (override_path k) r))
    \<and> (\<forall>q. (\<forall>(k, r) \<in> set vals. is_override k \<longrightarrow> \<not> prefix (override_path k) q \<and> \<not> prefix q (override_path k))
        \<longrightarrow> at_path q (JDict d') = at_path q (JDict d))"
  using assms
proof (induction vals arbitrary: d)
  case (Cons e vals)
  obtain key raw where e: "e = (key, raw)" by force
  show ?case
  proof (cases "is_override key")
    case False
    with Cons.IH [OF apart_tail [OF Cons.prems(1)]] Cons.prems(2) show ?thesis by (auto simp: e)
  next
    case True
    let ?p = "override_path key"
    have ne: "?p \<noteq> []" using True by (simp add: is_override_def)
    have "\<forall>q. q \<noteq> [] \<and> strict_prefix q ?p \<longrightarrow> \<not> leaf_at q (JDict d)"
      using Cons.prems(2) True by (auto simp: e strict_prefix_def)
    from set_at_succeeds [OF this] obtain d1 where d1: "set_at ?p (override_value decode ?p raw) d = Inr d1" by blast
    note r = set_at_result [OF d1 ne]
    have pre: "\<forall>(k, r) \<in> set vals. is_override k \<longrightarrow> (\<forall>q. q \<noteq> [] \<and> leaf_at q (JDict d1) \<longrightarrow> \<not> prefix q (override_path k))"
    proof (intro ballI, clarify)
      fix k r q assume k: "(k, r) \<in> set vals" "is_override k" "q \<noteq> []" "leaf_at q (JDict d1)" "prefix q (override_path k)"
      note sep = apart_Cons [OF Cons.prems(1) [unfolded e] True k(1,2)]
      have "\<not> prefix ?p q" using sep(1) k(5) prefix_order.trans by blast
      moreover have "\<not> prefix q ?p"
      proof
        assume "prefix q ?p"
        with \<open>\<not> prefix ?p q\<close> have "strict_prefix q ?p" by (auto simp: strict_prefix_def)
        with r k(4) show False by (auto simp: leaf_at_def)
      qed
      ultimately have "leaf_at q (JDict d)" using r k(4) by (simp add: leaf_at_def)
      with Cons.prems(2) k show False by (auto simp: e)
    qed
    from Cons.IH [OF apart_tail [OF Cons.prems(1)] pre] obtain d' where d': "env_overrides_from decode vals d1 = Inr d'"
      "\<forall>(k, r) \<in> set vals. is_override k \<longrightarrow> at_path (override_path k) (JDict d') = Some (override_value decode (override_path k) r)"
      "\<forall>q. (\<forall>(k, r) \<in> set vals. is_override k \<longrightarrow> \<not> prefix (override_path k) q \<and> \<not> prefix q (override_path k))
        \<longrightarrow> at_path q (JDict d') = at_path q (JDict d1)" by blast
    have "at_path ?p (JDict d') = at_path ?p (JDict d1)"
      using d'(3) apart_Cons [OF Cons.prems(1) [unfolded e] True] by blast
    with r d' d1 True show ?thesis by (intro exI [of _ d']) (auto simp: e)
  qed
qed simp

text \<open>The overrides are a document without a repeated key.\<close>

lemma set_at_wf: "set_at p v d = Inr d' \<Longrightarrow> wf_json (JDict d) \<Longrightarrow> wf_json v \<Longrightarrow> wf_json (JDict d')"
proof (induction p arbitrary: d d')
  case (Cons k ks)
  have upd: "wf_json (JDict (AList.update k j d))" if "wf_json j" "wf_json (JDict d)" for j
    using that by (induction d) (auto simp: update_keys)
  show ?case
  proof (cases "ks = []")
    case True
    then have "d' = AList.update k v d" using Cons.prems(1) by simp
    then show ?thesis using upd [OF Cons.prems(3,2)] by (simp only:)
  next
    case False
    from set_at_Inr [OF Cons.prems(1) False] obtain child child' where c: "set_at ks v child = Inr child'"
      "map_of d k = Some (JDict child) \<or> map_of d k = None \<and> child = []" "d' = AList.update k (JDict child') d" .
    have "wf_json (JDict child)"
    proof (cases "map_of d k")
      case (Some j)
      then have "(k, j) \<in> set d" "j = JDict child" using c(2) by (auto dest: map_of_SomeD)
      then show ?thesis using Cons.prems(2) by force
    qed (use c(2) in simp)
    with Cons.IH [OF c(1)] Cons.prems(3) have "wf_json (JDict child')" by blast
    then show ?thesis unfolding c(3) by (rule upd [OF _ Cons.prems(2)])
  qed
qed simp

lemma override_value_wf:
  assumes "\<forall>t j. decode t = Some j \<longrightarrow> wf_json j"
  shows "wf_json (override_value decode p r)"
  using assms by (cases "decode (strip r)") (simp_all add: override_value_def parse_env_value_def Let_def split: option.split)

lemma overrides_wf:
  assumes "\<forall>t j. decode t = Some j \<longrightarrow> wf_json j"
  shows "env_overrides_from decode vals d = Inr d' \<Longrightarrow> wf_json (JDict d) \<Longrightarrow> wf_json (JDict d')"
proof (induction vals arbitrary: d)
  case (Cons e vals)
  obtain key raw where e: "e = (key, raw)" by force
  show ?case
  proof (cases "is_override key")
    case True
    with Cons.prems(1) obtain d1 where "set_at (override_path key) (override_value decode (override_path key) raw) d = Inr d1"
      "env_overrides_from decode vals d1 = Inr d'" by (auto simp: e res_bind_def split: sum.splits)
    with Cons.IH set_at_wf [OF _ Cons.prems(2) override_value_wf [OF assms]] show ?thesis by blast
  qed (use Cons in \<open>simp add: e\<close>)
qed simp

section \<open>Secret references\<close>

lemma resolve_entries_at: "resolve_entries sec kvs = Inr r \<Longrightarrow> map_of r k = (case map_of kvs k of None \<Rightarrow> None
    | Some v \<Rightarrow> (case resolve_secret_refs sec v of Inr y \<Rightarrow> Some y | Inl e \<Rightarrow> None))"
  by (induction kvs arbitrary: r) (auto simp: res_bind_def split: sum.splits option.splits)

lemma resolve_at:
  assumes "resolve_secret_refs sec j = Inr j'" "at_path p j = Some v"
  shows "\<exists>v'. resolve_secret_refs sec v = Inr v' \<and> at_path p j' = Some v'"
  using assms
proof (induction p j arbitrary: j' rule: at_path.induct)
  case (2 k ks d)
  then obtain x where x: "map_of d k = Some x" "at_path ks x = Some v" by (auto split: option.splits)
  from 2(2) obtain r where r: "resolve_entries sec d = Inr r" "j' = JDict r" by (auto simp: res_bind_def split: sum.splits)
  have "\<exists>y. resolve_secret_refs sec x = Inr y"
    using r(1) x(1)
  proof (induction d arbitrary: r)
    case (Cons e d)
    then show ?case by (cases e) (auto simp: res_bind_def split: sum.splits if_splits)
  qed simp
  then obtain y where y: "resolve_secret_refs sec x = Inr y" by blast
  with resolve_entries_at [OF r(1), of k] x(1) have "map_of r k = Some y" by simp
  with 2(1) [OF x(1) y x(2)] show ?case by (simp add: r(2))
qed auto

text \<open>C40. Every override in the environment reaches the loaded document, whatever the files say
  and in whatever order the variables come, as long as no variable leads to or through the path
  of another: at its path stands its value with a secret reference replaced by the variable it
  names. Names of credentials keep the text of the variable.\<close>

theorem environment_reaches_the_document:
  assumes "load_document ld path env_file [] environ w = Inr doc"
    and "vals = combined_environment (ld_cwd ld) (Some (case path of None \<Rightarrow> default_config_path | Some p \<Rightarrow> p)) env_file environ w"
    and "apart vals" "(key, raw) \<in> set vals" "is_override key"
    and "\<forall>t j. ld_json ld t = Some j \<longrightarrow> wf_json j"
    and "v = override_value (ld_json ld) (override_path key) raw" "\<not> is_dict v"
  shows "\<exists>v'. resolve_secret_refs (map_of vals) v = Inr v' \<and> at_path (override_path key) doc = Some v'
    \<and> (secret_segment (last (override_path key)) \<longrightarrow> v = JStr raw)"
proof -
  obtain yaml ov where y: "env_overrides (ld_json ld) vals = Inr ov"
    "resolve_secret_refs (map_of vals) (JDict (deep_merge (deep_merge (ld_defaults ld) yaml) ov)) = Inr doc"
    using assms(1) unfolding load_document_def Let_def assms(2) [symmetric] by (auto simp: res_bind_def split: sum.splits)
  have none: "\<not> leaf_at q (JDict [])" if "q \<noteq> []" for q using that by (cases q) (simp_all add: leaf_at_def)
  have "at_path (override_path key) (JDict ov) = Some v"
    using overrides_run [OF assms(3), of "[]" "ld_json ld"] none y(1) assms(4,5,7) unfolding env_overrides_def by fastforce
  moreover have "wf_json (JDict ov)" by (rule overrides_wf [OF assms(6) y(1) [unfolded env_overrides_def]]) simp
  ultimately have "at_path (override_path key) (JDict (deep_merge (deep_merge (ld_defaults ld) yaml) ov)) = Some v"
    using upper_layer_wins [of ov "override_path key"] assms(8) by (simp add: leaf_at_def)
  from resolve_at [OF y(2) this] show ?thesis using assms(7) by (auto simp: override_value_def)
qed

definition sample_loader :: loader where
  "sample_loader = \<lparr>ld_yaml = (\<lambda>_. Inr JNull), ld_json = (\<lambda>_. None), ld_validate = (\<lambda>_. Inl ValueError),
     ld_defaults = sample_base, ld_cwd = ''/srv''\<rparr>"

definition sample_environ :: "(string \<times> string) list" where
  "sample_environ = [(''KORSERVER_SERVER__PORT'', ''8443''), (''HOME'', ''/root'')]"

lemma environment_reaches_the_document_witness:
  "\<exists>doc. load_document sample_loader None None [] sample_environ sample_world = Inr doc
     \<and> at_path [''server'', ''port''] doc = Some (JInt 8443)"
proof -
  have env: "combined_environment (ld_cwd sample_loader) (Some default_config_path) None sample_environ sample_world = sample_environ"
    by code_simp
  have o: "is_override ''KORSERVER_SERVER__PORT''" "\<not> is_override ''HOME''" "override_path ''KORSERVER_SERVER__PORT'' = [''server'', ''port'']"
    "override_value (\<lambda>_. None) [''server'', ''port''] ''8443'' = JInt 8443" "whole_ref ''vpn'' = None" by code_simp+
  have "apart sample_environ" using o(2) by (auto simp: apart_def sample_environ_def less_Suc_eq nth_Cons')
  moreover obtain doc where "load_document sample_loader None None [] sample_environ sample_world = Inr doc"
    using env o by (simp add: load_document_def Let_def sample_loader_def sample_world_def load_yaml_text_def env_overrides_def
        sample_environ_def sample_base_def)
  moreover have "(''KORSERVER_SERVER__PORT'', ''8443'') \<in> set sample_environ" by (simp add: sample_environ_def)
  ultimately show ?thesis
    using environment_reaches_the_document [of sample_loader None None sample_environ sample_world doc sample_environ
        "''KORSERVER_SERVER__PORT''" "''8443''" "JInt 8443"] env o by (simp add: sample_loader_def)
qed

section \<open>The dotenv file\<close>

definition dotenv_line :: "string \<times> string \<Rightarrow> string" where
  "dotenv_line kv = fst kv @ CHR ''='' # CHR 39 # snd kv @ [CHR 39]"

definition dotenv_entry :: "string \<times> string \<Rightarrow> bool" where
  "dotenv_entry kv = (dotenv_key (fst kv) \<and> LF \<notin> set (fst kv) \<and> CHR 39 \<notin> set (snd kv) \<and> no_breaks (snd kv))"

lemma uncommented_open: "CHR 39 \<notin> set v \<Longrightarrow> uncommented (Some (CHR 39)) False kept (v @ [CHR 39]) = rev kept @ v @ [CHR 39]"
  by (induction v arbitrary: kept) (auto split: if_splits)

lemma quoted_value:
  assumes "CHR 39 \<notin> set v"
  shows "parse_dotenv_value (CHR 39 # v @ [CHR 39]) = v"
proof -
  have q: "\<not> is_space (CHR 39)" by code_simp
  have "strip (CHR 39 # v @ [CHR 39]) = CHR 39 # v @ [CHR 39]"
    unfolding strip_def by (rule strip_if_idle) (simp add: q)
  moreover have "strip_inline_comment (CHR 39 # v @ [CHR 39]) = CHR 39 # v @ [CHR 39]"
    using uncommented_open [OF assms, of "[CHR 39]"] by (simp add: strip_inline_comment_def)
  ultimately show ?thesis by (simp add: parse_dotenv_value_def inner_def)
qed

lemma dotenv_key_chars:
  assumes "dotenv_key k" "LF \<notin> set k"
  shows "k \<noteq> []" "\<forall>c \<in> set k. name_chars ''_'' c"
proof -
  have "re_dollar k = k" using assms(2) by (auto simp: re_dollar_def dest: last_in_set)
  with assms(1) show "k \<noteq> []" "\<forall>c \<in> set k. name_chars ''_'' c" by (auto simp: dotenv_key_def Let_def list_all_iff)
qed

lemma key_char_plain: "name_chars ''_'' c \<Longrightarrow> \<not> is_space c \<and> c \<noteq> CHR ''#'' \<and> c \<noteq> CHR ''='' \<and> c \<noteq> CHR '' '' \<and> \<not> is_linebreak c"
  by (auto simp: name_chars_def is_alnum_def is_alpha_def is_ascii_digit_def is_space_def is_linebreak_def Let_def)
    (simp_all add: code_def)

lemma dotenv_line_parsed:
  assumes "dotenv_entry kv"
  shows "parse_dotenv_line (dotenv_line kv) = Some kv"
proof -
  obtain k v where kv: "kv = (k, v)" by force
  from assms kv have a: "dotenv_key k" "LF \<notin> set k" "CHR 39 \<notin> set v" by (simp_all add: dotenv_entry_def)
  note k = dotenv_key_chars [OF a(1,2)]
  let ?l = "k @ CHR ''='' # CHR 39 # v @ [CHR 39]"
  have q: "\<not> is_space (CHR 39)" by code_simp
  have hd: "hd ?l = hd k" "hd k \<in> set k" using k(1) by (simp_all add: hd_append)
  have s: "strip ?l = ?l" unfolding strip_def using hd k(2) key_char_plain q by (intro strip_if_idle) (simp add: k(1))
  have "\<not> starts_with ''export '' ?l"
  proof
    assume "starts_with ''export '' ?l"
    then obtain zs where zs: "?l = ''export '' @ zs" by (auto simp: starts_with_def prefix_def)
    have "CHR ''='' \<notin> set k" using k(2) key_char_plain by blast
    then have "takeWhile (\<lambda>c. c \<noteq> CHR ''='') ?l = k" by (simp add: takeWhile_append2 takeWhile_tail) (metis takeWhile_eq_all_conv)
    then have "''export '' @ takeWhile (\<lambda>c. c \<noteq> CHR ''='') zs = k" unfolding zs by simp
    then have "CHR '' '' \<in> set k" by auto
    with k(2) key_char_plain show False by blast
  qed
  moreover have "CHR ''='' \<notin> set k" using k(2) key_char_plain by blast
  moreover have "strip k = k" using k(2) key_char_plain by (intro strip_no_space) blast
  ultimately show ?thesis using s hd key_char_plain [OF k(2) [rule_format, OF hd(2)]] a k(1)
    by (simp add: parse_dotenv_line_def Let_def dotenv_line_def kv quoted_value)
qed

lemma dotenv_line_no_breaks: "dotenv_entry kv \<Longrightarrow> no_breaks (dotenv_line kv)"
proof -
  assume a: "dotenv_entry kv"
  have plain: "\<not> is_linebreak (CHR ''='')" "\<not> is_linebreak (CHR 39)" by code_simp+
  from a have "\<forall>c \<in> set (fst kv). \<not> is_linebreak c"
    using dotenv_key_chars(2) key_char_plain unfolding dotenv_entry_def by blast
  with a plain show ?thesis by (auto simp: dotenv_entry_def dotenv_line_def no_breaks_def)
qed

text \<open>A dotenv file with one single-quoted value per line, the values free of quotes and line
  breaks and no key twice, reads back as exactly those entries, blanks, hash marks and
  backslashes included.\<close>

theorem quoted_dotenv_reads_back:
  assumes "\<forall>kv \<in> set kvs. dotenv_entry kv" "distinct (map fst kvs)" "kvs \<noteq> []"
  shows "parse_dotenv_text (join [LF] (map dotenv_line kvs) @ [LF]) = kvs"
proof -
  let ?ls = "map dotenv_line kvs"
  have nb: "\<forall>l \<in> set ?ls. no_breaks l" using assms(1) dotenv_line_no_breaks by auto
  have "CR \<notin> set (join [LF] ?ls @ [LF])"
    using nb by (auto simp: CR_not_no_breaks dest!: set_join_mem)
  then have "read_text (join [LF] ?ls @ [LF]) = join [LF] ?ls @ [LF]" by (simp add: read_text_def universal_newlines_id)
  then have lines: "splitlines (read_text (join [LF] ?ls @ [LF])) = ?ls" using splitlines_join_lines [OF nb] assms(3) by simp
  have "foldl (\<lambda>m l. case parse_dotenv_line l of None \<Rightarrow> m | Some (k, v) \<Rightarrow> AList.update k v m) m (map dotenv_line es)
      = foldl (\<lambda>m (k, v). AList.update k v m) m es" if "\<forall>kv \<in> set es. dotenv_entry kv" for m es
    using that by (induction es arbitrary: m) (auto simp: dotenv_line_parsed)
  with assms lines foldl_update_fresh [of "[]" kvs] show ?thesis by (simp add: parse_dotenv_text_def)
qed

lemma quoted_dotenv_reads_back_witness:
  "parse_dotenv_text (join [LF] (map dotenv_line [(''TOKEN'', ''a #b''), (''NAME'', [CHR 92, CHR ''n''])]) @ [LF])
     = [(''TOKEN'', ''a #b''), (''NAME'', [CHR 92, CHR ''n''])]"
proof (rule quoted_dotenv_reads_back)
  have "dotenv_entry (''TOKEN'', ''a #b'')" "dotenv_entry (''NAME'', [CHR 92, CHR ''n''])" by code_simp+
  then show "\<forall>kv \<in> set [(''TOKEN'', ''a #b''), (''NAME'', [CHR 92, CHR ''n''])]. dotenv_entry kv" by simp
qed simp_all

section \<open>Behaviours the code did not intend\<close>

text \<open>The escapes of a double-quoted value are replaced one after another: an escaped backslash
  before an \<open>n\<close> becomes a backslash and a line break.\<close>

theorem escaped_backslash_is_misread:
  "parse_dotenv_value [CHR 34, CHR ''a'', CHR 92, CHR 92, CHR ''n'', CHR 34] = [CHR ''a'', CHR 92, LF]"
  by code_simp

text \<open>When one variable leads through another, the order of the variables decides between an
  error and silently dropping one of them.\<close>

theorem order_decides_a_conflict:
  "env_overrides (\<lambda>_. None) [(''KORSERVER_A__B'', ''x''), (''KORSERVER_A__B__C'', ''y'')] = Inl ValueError
   \<and> env_overrides (\<lambda>_. None) [(''KORSERVER_A__B__C'', ''y''), (''KORSERVER_A__B'', ''x'')] = Inr [(''a'', JDict [(''b'', JStr ''x'')])]"
  by code_simp

end
