(* ===== verification/Certificates.thy ===== *)
theory Certificates
  imports Users Cert_Pin Admin_Auth
begin

text \<open>
  \<open>services/certificates.py\<close> and \<open>services/server_certificates.py\<close>: the certificates of the own
  authority, made by \<open>certtool\<close> from templates the program writes; the list of revoked
  certificates and the revocation list made from it; and the certificate the server presents,
  own, uploaded or from Let's Encrypt by \<open>certbot\<close>. The read-modify-write of the list runs
  under one lock: it is one step. Directories are not tracked.
\<close>

section \<open>Running certtool\<close>

definition cert_options :: "bool \<Rightarrow> run_options" where
  "cert_options dry = default_options\<lparr>o_timeout := 60, o_dry_run := dry\<rparr>"

definition cert_dir :: "app_config \<Rightarrow> string" where
  "cert_dir c = path_join (data_dir (app_system c)) ''certs''"

definition users_cert_dir :: "app_config \<Rightarrow> string" where
  "users_cert_dir c = path_join (cert_dir c) ''users''"

definition user_file :: "app_config \<Rightarrow> string \<Rightarrow> string \<Rightarrow> string" where
  "user_file c n ext = path_join (users_cert_dir c) (n @ ext)"

definition user_p12_path :: "app_config \<Rightarrow> string \<Rightarrow> string result" where
  "user_p12_path c n = res_bind (validate_username n) (\<lambda>_. Inr (user_file c n ''.p12''))"

definition user_cert_path :: "app_config \<Rightarrow> string \<Rightarrow> string result" where
  "user_cert_path c n = res_bind (validate_username n) (\<lambda>_. Inr (user_file c n ''.crt''))"

definition user_key_path :: "app_config \<Rightarrow> string \<Rightarrow> string result" where
  "user_key_path c n = res_bind (validate_username n) (\<lambda>_. Inr (user_file c n ''.key''))"

definition write_template :: "string \<Rightarrow> string \<Rightarrow> (world, string) action" where
  "write_template p content = andthen (atomic_write_text p content 384) (\<lambda>_. ret p)"

definition chmod_private_key :: "string \<Rightarrow> bool \<Rightarrow> (world, unit) action" where
  "chmod_private_key p dry = (\<lambda>w. if dry then ret () w
     else if files w p = None then throw OSError w else emit (Called ''chmod'' [p, ''600'']) w)"

definition privkey_argv :: "string \<Rightarrow> string list" where
  "privkey_argv key = [''certtool'', ''--generate-privkey'', ''--outfile'', key]"

definition self_signed_argv :: "string \<Rightarrow> string \<Rightarrow> string \<Rightarrow> string list" where
  "self_signed_argv key template crt = [''certtool'', ''--generate-self-signed'', ''--load-privkey'', key,
     ''--template'', template, ''--outfile'', crt]"

definition signed_argv :: "app_config \<Rightarrow> string \<Rightarrow> string \<Rightarrow> string \<Rightarrow> string list" where
  "signed_argv c key template crt = [''certtool'', ''--generate-certificate'', ''--load-privkey'', key,
     ''--load-ca-certificate'', cert_path c ''ca.crt'', ''--load-ca-privkey'', cert_path c ''ca.key'',
     ''--template'', template, ''--outfile'', crt]"

definition new_private_key :: "env \<Rightarrow> string list \<Rightarrow> string \<Rightarrow> bool \<Rightarrow> (world, command_result) action" where
  "new_private_key env secs key dry =
     andthen (run_command env secs (privkey_argv key) (cert_options dry)) (\<lambda>r.
     andthen (chmod_private_key key dry) (\<lambda>_. ret r))"

section \<open>The authority\<close>

definition ca_template :: "app_config \<Rightarrow> string" where
  "ca_template c = join [LF] [''cn = '' @ ca_name (app_certificates c), ''ca'', ''cert_signing_key'',
     ''expiration_days = 3650'', '''']"

definition init_ca :: "env \<Rightarrow> string list \<Rightarrow> app_config \<Rightarrow> bool \<Rightarrow> (world, command_result list) action" where
  "init_ca env secs c dry =
     andthen (write_template (generated_path c ''ca.tmpl'') (ca_template c)) (\<lambda>t.
     andthen (new_private_key env secs (cert_path c ''ca.key'') dry) (\<lambda>k.
     andthen (run_command env secs (self_signed_argv (cert_path c ''ca.key'') t (cert_path c ''ca.crt''))
       (cert_options dry)) (\<lambda>r.
     ret [k, r])))"

definition regenerate_ca :: "env \<Rightarrow> string list \<Rightarrow> app_config \<Rightarrow> bool \<Rightarrow> (world, command_result list) action" where
  "regenerate_ca env secs c dry = init_ca env secs c dry"

definition uploaded :: "string list \<Rightarrow> string list \<Rightarrow> command_result" where
  "uploaded argv paths = \<lparr>r_argv = argv, r_code = 0,
     r_out = concat (map (\<lambda>p. ''written '' @ p @ [LF]) paths), r_err = [], r_dry = False\<rparr>"

text \<open>\<open>bytes.decode\<close>: malformed bytes are a \<open>UnicodeDecodeError\<close>, a \<open>ValueError\<close>.\<close>

definition decode_text :: "string \<Rightarrow> string result" where
  "decode_text b = (case utf8_decode b of None \<Rightarrow> Inl ValueError | Some s \<Rightarrow> Inr s)"

definition save_ca_material :: "app_config \<Rightarrow> string \<Rightarrow> string \<Rightarrow> (world, command_result) action" where
  "save_ca_material c cert key =
     andthen (lift_result (decode_text cert)) (\<lambda>cert_text.
     andthen (lift_result (decode_text key)) (\<lambda>key_text.
     if \<not> contains ''BEGIN CERTIFICATE'' cert_text then throw ValueError
     else if \<not> contains ''BEGIN'' key_text \<or> \<not> contains ''PRIVATE KEY'' key_text then throw ValueError
     else andthen (atomic_write_private_text (cert_path c ''ca.crt'') cert_text) (\<lambda>_.
          andthen (atomic_write_private_text (cert_path c ''ca.key'') key_text) (\<lambda>_.
          ret (uploaded [''korctl'', ''certificates'', ''ca'', ''upload'']
            [cert_path c ''ca.crt'', cert_path c ''ca.key''])))))"

section \<open>Server and user certificates\<close>

definition certificate_identities :: "string \<Rightarrow> string list" where
  "certificate_identities v = (case ip_address v of None \<Rightarrow> [''dns_name = '' @ v]
     | Some _ \<Rightarrow> [''ip_address = '' @ v])"

definition server_template :: "app_config \<Rightarrow> string" where
  "server_template c = join [LF] ([''cn = '' @ cn (app_server c), ''tls_www_server'', ''encryption_key'',
     ''signing_key''] @ certificate_identities (cn (app_server c)) @ [''expiration_days = 825'', ''''])"

definition create_server_certificate :: "env \<Rightarrow> string list \<Rightarrow> app_config \<Rightarrow> bool
    \<Rightarrow> (world, command_result list) action" where
  "create_server_certificate env secs c dry = (let key = cert_path c ''server.key'' in
     andthen (write_template (generated_path c ''server.tmpl'') (server_template c)) (\<lambda>t.
     andthen current (\<lambda>w.
     andthen (if files w key \<noteq> None then ret []
              else andthen (new_private_key env secs key dry) (\<lambda>r. ret [r])) (\<lambda>results.
     andthen (run_command env secs (signed_argv c key t (cert_path c ''server.crt'')) (cert_options dry)) (\<lambda>r.
     ret (results @ [r]))))))"

definition user_template :: "string \<Rightarrow> string" where
  "user_template n = join [LF] [''cn = '' @ n, ''tls_www_client'', ''signing_key'', ''expiration_days = 825'', '''']"

definition create_user_certificate :: "env \<Rightarrow> string list \<Rightarrow> app_config \<Rightarrow> string \<Rightarrow> bool
    \<Rightarrow> (world, command_result list) action" where
  "create_user_certificate env secs c n dry =
     andthen (lift_result (validate_username n)) (\<lambda>_.
     andthen (write_template (generated_path c (n @ ''.tmpl'')) (user_template n)) (\<lambda>t.
     andthen (new_private_key env secs (user_file c n ''.key'') dry) (\<lambda>k.
     andthen (run_command env secs (signed_argv c (user_file c n ''.key'') t (user_file c n ''.crt''))
       (cert_options dry)) (\<lambda>r.
     ret [k, r]))))"

definition p12_argv :: "app_config \<Rightarrow> string \<Rightarrow> string option \<Rightarrow> bool \<Rightarrow> string list" where
  "p12_argv c n passphrase apple =
     [''certtool'', ''--to-p12'', ''--outder'', ''--p12-name'', n, ''--load-certificate'', user_file c n ''.crt'',
      ''--load-privkey'', user_file c n ''.key'', ''--outfile'', user_file c n ''.p12'']
     @ (if apple then [''--pkcs-cipher'', ''3des-pkcs12'', ''--hash'', ''SHA1''] else [''--pkcs-cipher'', ''aes-256''])
     @ (case passphrase of Some s \<Rightarrow> if s = [] then [''--empty-password''] else [''--password'', s]
        | None \<Rightarrow> [''--empty-password''])"

definition create_p12 :: "env \<Rightarrow> string list \<Rightarrow> app_config \<Rightarrow> string \<Rightarrow> string option \<Rightarrow> bool \<Rightarrow> bool
    \<Rightarrow> (world, command_result) action" where
  "create_p12 env secs c n passphrase apple dry =
     andthen (lift_result (validate_username n)) (\<lambda>_.
     andthen (lift_result (user_p12_path c n)) (\<lambda>_.
     run_command env secs (p12_argv c n passphrase apple)
       ((cert_options dry)\<lparr>o_extra_secrets := [case passphrase of None \<Rightarrow> '''' | Some s \<Rightarrow> s]\<rparr>)))"

section \<open>Revocation\<close>

definition revoked_path :: "app_config \<Rightarrow> string" where
  "revoked_path c = path_join (cert_dir c) ''revoked.pem''"

definition crl_path :: "app_config \<Rightarrow> string" where
  "crl_path c = path_join (cert_dir c) ''crl.pem''"

definition revoked_text :: "app_config \<Rightarrow> world \<Rightarrow> string" where
  "revoked_text c w = (case files w (revoked_path c) of None \<Rightarrow> '''' | Some t \<Rightarrow> read_text t)"

definition append_revoked_certificate :: "app_config \<Rightarrow> string \<Rightarrow> bool \<Rightarrow> (world, unit) action" where
  "append_revoked_certificate c pem dry = (\<lambda>w. let marker = strip pem @ [LF]; present = revoked_text c w in
     if marker \<noteq> [] \<and> \<not> contains marker present \<and> \<not> dry
     then atomic_write_text (revoked_path c) (present @ marker) 384 w else ret () w)"

definition crl_argv :: "app_config \<Rightarrow> string \<Rightarrow> string list" where
  "crl_argv c template = [''certtool'', ''--generate-crl'', ''--load-ca-privkey'', cert_path c ''ca.key'',
     ''--load-ca-certificate'', cert_path c ''ca.crt'', ''--load-certificate'', revoked_path c,
     ''--template'', template, ''--outfile'', crl_path c]"

definition generate_crl :: "env \<Rightarrow> string list \<Rightarrow> app_config \<Rightarrow> bool \<Rightarrow> (world, command_result) action" where
  "generate_crl env secs c dry =
     andthen (write_template (generated_path c ''crl.tmpl'') (''crl_next_update = 30'' @ [LF])) (\<lambda>t.
     run_command env secs (crl_argv c t) (cert_options dry))"

definition revoke_user_certificate :: "env \<Rightarrow> string list \<Rightarrow> app_config \<Rightarrow> string \<Rightarrow> bool
    \<Rightarrow> (world, command_result) action" where
  "revoke_user_certificate env secs c n dry =
     andthen (lift_result (validate_username n)) (\<lambda>_.
     andthen (read_file (user_file c n ''.crt'')) (\<lambda>f.
     let marker = (case f of None \<Rightarrow> '''' | Some t \<Rightarrow> read_text t) in
     andthen (if marker \<noteq> [] then append_revoked_certificate c marker dry else ret ()) (\<lambda>_.
     generate_crl env secs c dry)))"

text \<open>The certificate comes from the panel as bytes, from the command line as text.\<close>

datatype pem_input = Pem_bytes string | Pem_text string

fun pem_input_text :: "pem_input \<Rightarrow> string result" where
  "pem_input_text (Pem_bytes b) = decode_text b"
| "pem_input_text (Pem_text t) = Inr t"

definition revoke_certificate_pem :: "env \<Rightarrow> string list \<Rightarrow> app_config \<Rightarrow> pem_input \<Rightarrow> bool
    \<Rightarrow> (world, command_result) action" where
  "revoke_certificate_pem env secs c certificate dry =
     andthen (lift_result (pem_input_text certificate)) (\<lambda>t.
     if \<not> contains ''BEGIN CERTIFICATE'' t \<or> \<not> contains ''END CERTIFICATE'' t then throw ValueError
     else andthen (append_revoked_certificate c t dry) (\<lambda>_. generate_crl env secs c dry))"

text \<open>\<open>_CERT_PEM_RE.findall\<close>: from a begin marker to the next end marker, without overlaps.\<close>

fun until_end :: "string \<Rightarrow> string option" where
  "until_end [] = None"
| "until_end (x # r) = (if prefix end_cert (x # r) then Some end_cert
     else map_option (\<lambda>b. x # b) (until_end r))"

function find_pems :: "string \<Rightarrow> string list" where
  "find_pems [] = []"
| "find_pems (x # r) = (if prefix begin_cert (x # r)
     then (case until_end (drop (length begin_cert) (x # r)) of None \<Rightarrow> find_pems r
       | Some b \<Rightarrow> (begin_cert @ b) # find_pems (drop (length begin_cert + length b) (x # r)))
     else find_pems r)"
  by pat_completeness auto
termination
  by (relation "measure length") (auto simp: begin_cert_def)

text \<open>\<open>_parse_certificate_info\<close>: what follows the first occurrence of a label.\<close>

fun after_label :: "string \<Rightarrow> string \<Rightarrow> string option" where
  "after_label l [] = None"
| "after_label l (x # r) = (if prefix l (x # r) then Some (drop (length l) (x # r)) else after_label l r)"

record certificate_info =
  ci_serial :: string
  ci_subject :: string
  ci_not_before :: string
  ci_not_after :: string

definition info_line :: "string \<Rightarrow> string \<Rightarrow> string" where
  "info_line l out = (case after_label l out of None \<Rightarrow> ''''
     | Some r \<Rightarrow> strip (takeWhile (\<lambda>x. x \<noteq> LF) (dropWhile is_space r)))"

definition info_word :: "string \<Rightarrow> string \<Rightarrow> string" where
  "info_word l out = (case after_label l out of None \<Rightarrow> ''''
     | Some r \<Rightarrow> takeWhile (\<lambda>x. \<not> is_space x) (dropWhile is_space r))"

definition parse_certificate_info :: "string \<Rightarrow> certificate_info" where
  "parse_certificate_info out = \<lparr>ci_serial = info_word ''Serial Number (hex):'' out,
     ci_subject = info_line ''Subject:'' out, ci_not_before = info_line ''Not Before:'' out,
     ci_not_after = info_line ''Not After:'' out\<rparr>"

definition certificate_info_of :: "env \<Rightarrow> string list \<Rightarrow> string \<Rightarrow> (world, certificate_info) action" where
  "certificate_info_of env secs pem =
     andthen (run_command env secs [''certtool'', ''--certificate-info'']
       (no_check\<lparr>o_timeout := 10, o_input := Some pem\<rparr>)) (\<lambda>r.
     ret (parse_certificate_info (r_out r)))"

definition list_revoked_certificates :: "env \<Rightarrow> string list \<Rightarrow> app_config
    \<Rightarrow> (world, certificate_info list) action" where
  "list_revoked_certificates env secs c =
     andthen (read_file (revoked_path c)) (\<lambda>f. case f of None \<Rightarrow> ret []
     | Some t \<Rightarrow> action_map (certificate_info_of env secs) (find_pems (read_text t)))"

section \<open>The certificate the server presents\<close>

record server_certificate_paths =
  scp_cert :: string
  scp_key :: string
  scp_ca :: string

definition external_paths :: "app_config \<Rightarrow> server_certificate_paths" where
  "external_paths c = (let base = path_join (cert_dir c) ''external'' in
     \<lparr>scp_cert = path_join base ''server.crt'', scp_key = path_join base ''server.key'',
      scp_ca = path_join base ''ca.crt''\<rparr>)"

definition certbot_dir :: "app_config \<Rightarrow> string" where
  "certbot_dir c = path_join (data_dir (app_system c)) ''certbot''"

definition certbot_config_dir :: "app_config \<Rightarrow> string" where
  "certbot_config_dir c = path_join (certbot_dir c) ''config''"

definition primary_letsencrypt_domain :: "app_config \<Rightarrow> string result" where
  "primary_letsencrypt_domain c = (case le_domains (letsencrypt (app_certificates c)) of
     [] \<Rightarrow> Inl ValueError | d # _ \<Rightarrow> Inr d)"

definition letsencrypt_paths :: "app_config \<Rightarrow> string option \<Rightarrow> server_certificate_paths result" where
  "letsencrypt_paths c primary =
     res_bind (case primary of Some d \<Rightarrow> if d = [] then primary_letsencrypt_domain c else Inr d
               | None \<Rightarrow> primary_letsencrypt_domain c) (\<lambda>domain.
     let live = path_join (path_join (certbot_config_dir c) ''live'') domain in
     Inr \<lparr>scp_cert = path_join live ''fullchain.pem'', scp_key = path_join live ''privkey.pem'',
          scp_ca = path_join live ''chain.pem''\<rparr>)"

definition active_paths :: "app_config \<Rightarrow> server_certificate_paths" where
  "active_paths c = (let cs = app_certificates c;
       own = \<lparr>scp_cert = cert_path c ''server.crt'', scp_key = cert_path c ''server.key'',
              scp_ca = cert_path c ''ca.crt''\<rparr> in
     if cert_mode cs = External_certs
     then (case (server_cert cs, server_key cs, ca_cert cs) of
         (Some a, Some b, Some d) \<Rightarrow> \<lparr>scp_cert = a, scp_key = b, scp_ca = d\<rparr>
       | _ \<Rightarrow> own)
     else own)"

definition server_pin :: "env \<Rightarrow> app_config \<Rightarrow> world \<Rightarrow> (string \<times> certificate_pin) result" where
  "server_pin env c w = (let path = scp_cert (active_paths c) in
     if files w path = None then Inl ValueError
     else res_bind (certificate_file_pin env path w) (\<lambda>p. Inr (path, p)))"

definition path_status :: "world \<Rightarrow> server_certificate_paths \<Rightarrow> json" where
  "path_status w p = JDict
     [(''server_cert'', JStr (scp_cert p)), (''server_key'', JStr (scp_key p)), (''ca_cert'', JStr (scp_ca p)),
      (''server_cert_exists'', JBool (files w (scp_cert p) \<noteq> None)),
      (''server_key_exists'', JBool (files w (scp_key p) \<noteq> None)),
      (''ca_cert_exists'', JBool (files w (scp_ca p) \<noteq> None))]"

definition authority_status :: "app_config \<Rightarrow> world \<Rightarrow> json" where
  "authority_status c w = JDict
     [(''ca_cert'', JStr (cert_path c ''ca.crt'')), (''ca_key'', JStr (cert_path c ''ca.key'')),
      (''ca_cert_exists'', JBool (files w (cert_path c ''ca.crt'') \<noteq> None)),
      (''ca_key_exists'', JBool (files w (cert_path c ''ca.key'') \<noteq> None))]"

fun unit_name :: "interval_unit \<Rightarrow> string" where
  "unit_name Hours = ''hours''"
| "unit_name Days = ''days''"
| "unit_name Weeks = ''weeks''"
| "unit_name Months = ''months''"

definition optional_json :: "string option \<Rightarrow> json" where
  "optional_json v = (case v of None \<Rightarrow> JNull | Some s \<Rightarrow> JStr s)"

text \<open>\<open>status\<close>; whether \<open>certbot\<close> is on the path is asked of the system.\<close>

definition letsencrypt_status :: "app_config \<Rightarrow> world \<Rightarrow> json result" where
  "letsencrypt_status c w = (let le = letsencrypt (app_certificates c) in
     res_bind (case le_domains le of [] \<Rightarrow> Inr JNull
       | d # _ \<Rightarrow> res_bind (letsencrypt_paths c (Some d)) (\<lambda>p. Inr (path_status w p))) (\<lambda>paths.
     Inr (JDict
       [(''enabled'', JBool (le_enabled le)), (''email'', optional_json (le_email le)),
        (''domains'', JList (map JStr (le_domains le))), (''renew_reload'', JBool (renew_reload le)),
        (''auto_renew_enabled'', JBool (auto_renew_enabled le)),
        (''auto_renew_interval'', JInt (auto_renew_interval le)),
        (''auto_renew_interval_unit'', JStr (unit_name (auto_renew_interval_unit le))),
        (''http01_address'', optional_json (http01_address le)), (''http01_port'', JInt (http01_port le)),
        (''paths'', paths)])))"

definition certificate_status :: "bool \<Rightarrow> app_config \<Rightarrow> world \<Rightarrow> json result" where
  "certificate_status has_certbot c w =
     res_bind (letsencrypt_status c w) (\<lambda>le. Inr (JDict
       [(''mode'', JStr (if cert_mode (app_certificates c) = External_certs then ''external'' else ''auto'')),
        (''ca_name'', JStr (ca_name (app_certificates c))),
        (''active'', path_status w (active_paths c)), (''authority'', authority_status c w),
        (''external'', path_status w (external_paths c)), (''letsencrypt'', le),
        (''certbot_available'', JBool has_certbot)]))"

definition save_external_material :: "app_config \<Rightarrow> string \<Rightarrow> string \<Rightarrow> string
    \<Rightarrow> (world, server_certificate_paths) action" where
  "save_external_material c cert key ca =
     (if strip_if byte_space cert = [] \<or> strip_if byte_space key = [] \<or> strip_if byte_space ca = []
      then throw ValueError
      else let p = external_paths c in
        andthen (lift_result (decode_text cert)) (\<lambda>t.
        andthen (atomic_write_text (scp_cert p) t 384) (\<lambda>_.
        andthen (lift_result (decode_text key)) (\<lambda>t.
        andthen (atomic_write_text (scp_key p) t 384) (\<lambda>_.
        andthen (lift_result (decode_text ca)) (\<lambda>t.
        andthen (atomic_write_text (scp_ca p) t 384) (\<lambda>_.
        ret p)))))))"

definition certbot_base_argv :: "app_config \<Rightarrow> string list" where
  "certbot_base_argv c = [''certbot'', ''--config-dir'', certbot_config_dir c, ''--work-dir'',
     path_join (certbot_dir c) ''work'', ''--logs-dir'', path_join (log_dir (app_system c)) ''certbot'']"

definition challenge_argv :: "app_config \<Rightarrow> string list" where
  "challenge_argv c = (let le = letsencrypt (app_certificates c) in
     [''--reuse-key'', ''--http-01-address'',
      (case http01_address le of Some a \<Rightarrow> if a = [] then srv_listen (app_server c) else a
       | None \<Rightarrow> srv_listen (app_server c)),
      ''--http-01-port'', show_int (http01_port le)])"

definition issue_letsencrypt :: "env \<Rightarrow> string list \<Rightarrow> app_config \<Rightarrow> string \<Rightarrow> string list \<Rightarrow> bool \<Rightarrow> bool
    \<Rightarrow> (world, command_result) action" where
  "issue_letsencrypt env secs c email domains staging dry =
     (if email = [] then throw ValueError
      else if domains = [] then throw ValueError
      else run_command env secs
        (certbot_base_argv c @ [''certonly'', ''--standalone'', ''--non-interactive'', ''--agree-tos'',
           ''--email'', email, ''--cert-name'', hd domains, ''--keep-until-expiring''] @ challenge_argv c
         @ (if staging then [''--test-cert''] else []) @ concat (map (\<lambda>d. [''-d'', d]) domains))
        (default_options\<lparr>o_timeout := 300, o_dry_run := dry, o_extra_secrets := [email]\<rparr>))"

definition renew_letsencrypt :: "env \<Rightarrow> string list \<Rightarrow> app_config \<Rightarrow> bool \<Rightarrow> (world, command_result) action" where
  "renew_letsencrypt env secs c dry =
     run_command env secs (certbot_base_argv c @ [''renew''] @ challenge_argv c)
       (default_options\<lparr>o_timeout := 300, o_dry_run := dry\<rparr>)"

end
