(* ===== verification/Certificate_Properties.thy ===== *)
theory Certificate_Properties
  imports Certificates Upstream_Keeps Samples
begin

text \<open>
  What the certificate operations guarantee: the key of the server survives a new certificate,
  revocations accumulate and are all listed, and an uploaded authority is stored whole or not
  at all. Also four cases in which they do not do what they promise.
\<close>

section \<open>The files certtool writes\<close>

text \<open>The files named after an \<open>--outfile\<close>, the only ones \<open>certtool\<close> writes.\<close>

fun writes_to :: "string list \<Rightarrow> string \<Rightarrow> bool" where
  "writes_to (a # b # r) p = (a = ''--outfile'' \<and> b = p \<or> writes_to (b # r) p)"
| "writes_to _ p = False"

definition tool_frame :: "env \<Rightarrow> string \<Rightarrow> bool" where
  "tool_frame env p = (\<forall>w argv i. \<not> writes_to argv p \<longrightarrow> e_after env w argv i p = files w p)"

lemma keeps_tool_spawn:
  "tool_frame env p \<Longrightarrow> \<not> writes_to argv p \<Longrightarrow> keeps p (spawn env argv i)"
  by (simp add: keeps_def spawn_def tool_frame_def)

lemma keeps_tool:
  assumes "tool_frame env p" "\<not> writes_to argv p" "o_output_file opts = None"
  shows "keeps p (run_command env own argv opts)"
  unfolding run_command_def run_graceful_def run_captured_def finish_def stop_gracefully_def Let_def assms(3) option.case
  by (intro keeps_intros keeps_tool_spawn assms)

lemma keeps_template: "q \<noteq> p \<Longrightarrow> keeps p (write_template q t)"
  unfolding write_template_def by (intro keeps_intros)

lemma keeps_chmod: "keeps p (chmod_private_key q dr)"
  by (auto simp: keeps_def chmod_private_key_def result_simps)

lemma cert_options_plain [simp]: "o_output_file (cert_options dr) = None"
  by (simp add: cert_options_def default_options_def)

lemma keeps_new_key:
  "tool_frame env p \<Longrightarrow> q \<noteq> p \<Longrightarrow> keeps p (new_private_key env secs q dr)"
  unfolding new_private_key_def
  by (intro keeps_andthen keeps_basic keeps_chmod keeps_tool) (simp_all add: privkey_argv_def)

lemma path_apart: "last_part p \<noteq> last_part q \<Longrightarrow> p \<noteq> q"
  by auto

lemma cert_paths_last [simp]:
  "CHR ''/'' \<notin> set n \<Longrightarrow> last_part (cert_path c n) = n"
  "CHR ''/'' \<notin> set n \<Longrightarrow> last_part (generated_path c n) = n"
  "CHR ''/'' \<notin> set (n @ x) \<Longrightarrow> last_part (user_file c n x) = n @ x"
  "last_part (revoked_path c) = ''revoked.pem''" "last_part (crl_path c) = ''crl.pem''"
  by (simp_all add: cert_path_def generated_path_def user_file_def revoked_path_def crl_path_def last_part_join)

lemma no_option [simp]:
  "cert_path c n \<noteq> ''--outfile''" "generated_path c n \<noteq> ''--outfile''" "user_file c n x \<noteq> ''--outfile''"
  "revoked_path c \<noteq> ''--outfile''" "crl_path c \<noteq> ''--outfile''"
proof -
  have slash: "path_join d m \<noteq> ''--outfile''" for d m :: string
  proof
    assume a: "path_join d m = ''--outfile''"
    have "CHR ''/'' \<in> set (path_join d m)" by (simp add: path_join_def)
    then show False unfolding a by simp
  qed
  show "cert_path c n \<noteq> ''--outfile''" "generated_path c n \<noteq> ''--outfile''" "user_file c n x \<noteq> ''--outfile''"
    "revoked_path c \<noteq> ''--outfile''" "crl_path c \<noteq> ''--outfile''"
    by (simp_all add: cert_path_def generated_path_def user_file_def revoked_path_def crl_path_def slash)
qed

section \<open>The key of the server\<close>

lemma server_certificate_run:
  assumes "files w (cert_path c ''server.key'') = Some k"
  shows "create_server_certificate env secs c dr w =
    (let key = cert_path c ''server.key''; t = generated_path c ''server.tmpl'';
         w1 = record_event (Wrote t (server_template c) 384) (w\<lparr>files := (files w)(t \<mapsto> server_template c)\<rparr>)
     in andthen (run_command env secs (signed_argv c key t (cert_path c ''server.crt'')) (cert_options dr)) (\<lambda>r. ret [r]) w1)"
proof -
  have "generated_path c ''server.tmpl'' \<noteq> cert_path c ''server.key''" by (rule path_apart) simp
  then show ?thesis
    using assms by (simp add: create_server_certificate_def write_template_def atomic_write_text_def result_simps Let_def
        split: prod.splits sum.splits)
qed

lemma sublist_in_only:
  "only_emits P m \<Longrightarrow> e \<in> set (new_events w (snd (m w))) \<Longrightarrow> P e"
  by (auto simp: only_emits_def emits_def)

text \<open>C16. Re-issuing the server certificate leaves an existing private key alone, whatever the
  outcome: no key is generated, no mode changed, the certificate is made with the stored key,
  and the key file has the same contents afterwards. certtool writes no file but the one it
  is told to. So clients that pin the public key go on trusting the server.\<close>

theorem server_key_is_kept:
  assumes "files w (cert_path c ''server.key'') = Some k" "tool_frame env (cert_path c ''server.key'')"
  shows "let out = create_server_certificate env secs c dr w in
     files (snd out) (cert_path c ''server.key'') = Some k
     \<and> (\<forall>e \<in> set (new_events w (snd out)). (\<forall>f a. e \<noteq> Called f a)
          \<and> (\<forall>argv i. e = Ran argv i \<longrightarrow> argv = signed_argv c (cert_path c ''server.key'')
               (generated_path c ''server.tmpl'') (cert_path c ''server.crt'')))"
proof -
  let ?key = "cert_path c ''server.key''" and ?t = "generated_path c ''server.tmpl''" and ?crt = "cert_path c ''server.crt''"
  let ?ev = "Wrote ?t (server_template c) 384"
  let ?w1 = "record_event ?ev (w\<lparr>files := (files w)(?t \<mapsto> server_template c)\<rparr>)"
  let ?m = "andthen (run_command env secs (signed_argv c ?key ?t ?crt) (cert_options dr)) (\<lambda>r. ret [r])"
  let ?P = "\<lambda>e. (\<forall>f a. e \<noteq> Called f a) \<and> (\<forall>argv i. e = Ran argv i \<longrightarrow> argv = signed_argv c ?key ?t ?crt)"
  have t: "?t \<noteq> ?key" and crt: "?crt \<noteq> ?key" by (rule path_apart, simp)+
  have "keeps ?key ?m"
    by (intro keeps_andthen keeps_basic keeps_tool assms(2)) (use crt in \<open>simp_all add: signed_argv_def\<close>)
  then have kept: "files (snd (?m ?w1)) ?key = Some k" using t assms(1) by (simp add: keeps_def)
  have m: "only_emits ?P ?m" by (intro emits_intros only_emits_run_command) auto
  have "emits ?P w ?w1" by (simp add: emits_trace)
  then have "emits ?P w (snd (?m ?w1))"
    using m unfolding only_emits_def by (blast intro: emits_trans)
  with kept show ?thesis
    unfolding server_certificate_run [OF assms(1)] Let_def emits_def by blast
qed

section \<open>What is read back from the list of revoked certificates\<close>

text \<open>A certificate as tools print it: the markers around lines without dashes.\<close>

definition pem_block :: "string \<Rightarrow> string" where
  "pem_block b = begin_cert @ LF # b @ end_cert"

definition pem_text_ok :: "string \<Rightarrow> bool" where
  "pem_text_ok b = (CHR ''-'' \<notin> set b \<and> CR \<notin> set b)"

definition revoked_list :: "string list \<Rightarrow> string" where
  "revoked_list bs = concat (map (\<lambda>b. pem_block b @ [LF]) bs)"

lemma LF_not_dash [simp]: "LF \<noteq> CHR ''-''" "CHR ''-'' \<noteq> LF" "LF \<noteq> CHR ''B''" "CHR ''B'' \<noteq> LF" "CHR ''E'' \<noteq> LF"
  by (simp_all add: LF_def, code_simp+)

lemma until_end_block: "CHR ''-'' \<notin> set b \<Longrightarrow> until_end (b @ end_cert @ r) = Some (b @ end_cert)"
proof (induction b)
  case Nil
  have "until_end (end_cert @ r) = Some end_cert" by (simp add: end_cert_def)
  then show ?case by simp
next
  case (Cons x b)
  then have "\<not> prefix end_cert (x # b @ end_cert @ r)" by (auto simp: end_cert_def)
  with Cons show ?case by simp
qed

lemma find_pems_begin:
  "until_end s = Some b \<Longrightarrow> find_pems (begin_cert @ s) = (begin_cert @ b) # find_pems (drop (length b) s)"
proof -
  assume a: "until_end s = Some b"
  obtain x r where s: "begin_cert @ s = x # r" by (cases "begin_cert @ s") (auto simp: begin_cert_def)
  then have "prefix begin_cert (x # r)" by (metis prefixI)
  moreover have "drop (length begin_cert) (x # r) = s" using s by (metis append_eq_conv_conj)
  moreover have "drop (length begin_cert + length b) (x # r) = drop (length b) s"
    by (simp flip: s)
  ultimately show ?thesis using a s by simp
qed

lemma find_pems_block:
  assumes "CHR ''-'' \<notin> set b"
  shows "find_pems (pem_block b @ LF # r) = pem_block b # find_pems r"
proof -
  have "until_end (LF # b @ end_cert @ LF # r) = Some (LF # b @ end_cert)"
    using until_end_block [of "LF # b" "LF # r"] assms by simp
  from find_pems_begin [OF this] show ?thesis
    by (simp add: pem_block_def begin_cert_def)
qed

lemma find_pems_list: "\<forall>b \<in> set bs. pem_text_ok b \<Longrightarrow> find_pems (revoked_list bs) = map pem_block bs"
  by (induction bs) (simp_all add: revoked_list_def pem_text_ok_def find_pems_block)

lemma sublist_skip:
  "CHR ''-'' \<notin> set xs \<Longrightarrow> sublist (CHR ''-'' # m) (xs @ s) \<longleftrightarrow> sublist (CHR ''-'' # m) s"
  by (induction xs) (auto simp: sublist_Cons_right)

lemma same_body:
  assumes "CHR ''-'' \<notin> set b" "CHR ''-'' \<notin> set b'" "prefix (b @ CHR ''-'' # x) (b' @ CHR ''-'' # y)"
  shows "b = b'"
  using assms
proof (induction b arbitrary: b')
  case Nil
  then show ?case by (cases b') auto
next
  case (Cons z b)
  then show ?case by (cases b') auto
qed

lemma block_in_block:
  assumes "CHR ''-'' \<notin> set b" "CHR ''-'' \<notin> set b'"
  shows "sublist (pem_block b @ [LF]) (pem_block b' @ LF # r) \<longleftrightarrow> b = b' \<or> sublist (pem_block b @ [LF]) r"
proof -
  let ?m = "pem_block b @ [LF]"
  have dash: "?m = CHR ''-'' # tl ?m" by (simp add: pem_block_def begin_cert_def)
  have skip: "CHR ''-'' \<notin> set xs \<Longrightarrow> sublist ?m (xs @ s) \<longleftrightarrow> sublist ?m s" for xs s
    using sublist_skip [of xs "tl ?m" s] dash by simp
  have "sublist ?m (end_cert @ LF # r) \<longleftrightarrow> sublist ?m r"
    using skip [of "[LF]" r] by (simp add: end_cert_def sublist_Cons_right) (simp add: pem_block_def begin_cert_def)
  then have tail: "sublist ?m (LF # b' @ end_cert @ LF # r) \<longleftrightarrow> sublist ?m r"
    using skip [of "LF # b'"] assms(2) by simp
  have "sublist ?m (begin_cert @ LF # b' @ end_cert @ LF # r)
      \<longleftrightarrow> prefix ?m (begin_cert @ LF # b' @ end_cert @ LF # r) \<or> sublist ?m (LF # b' @ end_cert @ LF # r)"
    by (simp add: begin_cert_def sublist_Cons_right) (simp add: pem_block_def begin_cert_def)
  moreover have "prefix ?m (begin_cert @ LF # b' @ end_cert @ LF # r) \<longleftrightarrow> b = b'"
    using same_body [OF assms] by (auto simp: pem_block_def end_cert_def)
  ultimately show ?thesis using tail by (simp add: pem_block_def)
qed

lemma block_in_list:
  assumes "pem_text_ok b" "\<forall>x \<in> set bs. pem_text_ok x"
  shows "contains (pem_block b @ [LF]) (revoked_list bs) \<longleftrightarrow> b \<in> set bs"
  using assms(2)
proof (induction bs)
  case Nil
  then show ?case by (simp add: contains_def revoked_list_def pem_block_def begin_cert_def)
next
  case (Cons x bs)
  then show ?case
    using assms(1) block_in_block [of b x "revoked_list bs"]
    by (auto simp: contains_def revoked_list_def pem_text_ok_def)
qed

section \<open>Operations and the list of revoked certificates\<close>

text \<open>The operations of both services, as the panel and the command line call them.\<close>

datatype cert_op =
    Init_ca bool
  | Upload_ca string string
  | Issue_server bool
  | Issue_user string bool
  | Export_p12 string "string option" bool bool
  | Revoke_user string bool
  | Revoke_pem pem_input bool
  | Make_crl bool
  | Upload_server string string string

text \<open>The world after an operation; an error leaves what was done before it.\<close>

fun cert_step :: "env \<Rightarrow> string list \<Rightarrow> app_config \<Rightarrow> cert_op \<Rightarrow> world \<Rightarrow> world" where
  "cert_step env secs c (Init_ca d) w = snd (init_ca env secs c d w)"
| "cert_step env secs c (Upload_ca a b) w = snd (save_ca_material c a b w)"
| "cert_step env secs c (Issue_server d) w = snd (create_server_certificate env secs c d w)"
| "cert_step env secs c (Issue_user n d) w = snd (create_user_certificate env secs c n d w)"
| "cert_step env secs c (Export_p12 n pw a d) w = snd (create_p12 env secs c n pw a d w)"
| "cert_step env secs c (Revoke_user n d) w = snd (revoke_user_certificate env secs c n d w)"
| "cert_step env secs c (Revoke_pem p d) w = snd (revoke_certificate_pem env secs c p d w)"
| "cert_step env secs c (Make_crl d) w = snd (generate_crl env secs c d w)"
| "cert_step env secs c (Upload_server a b d) w = snd (save_external_material c a b d w)"

definition cert_run :: "env \<Rightarrow> string list \<Rightarrow> app_config \<Rightarrow> cert_op list \<Rightarrow> world \<Rightarrow> world" where
  "cert_run env secs c ops w = foldl (\<lambda>w x. cert_step env secs c x w) w ops"

lemma universal_append:
  "CR \<notin> set a \<Longrightarrow> universal_newlines (a @ b) = a @ universal_newlines b"
  by (induction a) auto

lemma universal_no_CR: "CR \<notin> set (universal_newlines s)"
  by (induction s rule: universal_newlines.induct) (auto split: list.splits)

lemma read_text_append: "read_text (read_text a @ b) = read_text a @ read_text b"
  by (simp add: read_text_def universal_append universal_no_CR)

lemma append_revoked_text:
  "revoked_text c (snd (append_revoked_certificate c pem d w)) =
     revoked_text c w @ (if contains (strip pem @ [LF]) (revoked_text c w) \<or> d then [] else read_text (strip pem @ [LF]))"
proof (cases "contains (strip pem @ [LF]) (revoked_text c w) \<or> d")
  case True
  then show ?thesis by (auto simp: append_revoked_certificate_def ret_def Let_def)
next
  case False
  have "revoked_text c w = read_text (revoked_text c w)"
    by (simp add: revoked_text_def read_text_def universal_no_CR split: option.split)
  then have "read_text (revoked_text c w @ strip pem @ [LF]) = revoked_text c w @ read_text (strip pem @ [LF])"
    using read_text_append [of "revoked_text c w" "strip pem @ [LF]"] by simp
  with False show ?thesis
    by (simp add: append_revoked_certificate_def atomic_write_text_def Let_def) (simp add: revoked_text_def)
qed

lemma keeps_revoked: "keeps (revoked_path c) m \<Longrightarrow> revoked_text c (snd (m w)) = revoked_text c w"
  by (simp add: keeps_def revoked_text_def)

lemma not_revoked [simp]: "last_part q \<noteq> ''revoked.pem'' \<Longrightarrow> q \<noteq> revoked_path c"
  using cert_paths_last(4) by metis

lemma suffix_ne:
  "n @ ''.tmpl'' \<noteq> ''revoked.pem''" "n @ ''.key'' \<noteq> ''revoked.pem''" "n @ ''.crt'' \<noteq> ''revoked.pem''"
  "n @ ''.p12'' \<noteq> ''revoked.pem''"
  by (auto dest: arg_cong [where f = last])

lemma user_files_apart:
  assumes "CHR ''/'' \<notin> set n"
  shows "path_join d (n @ ''.tmpl'') \<noteq> revoked_path c" "path_join d (n @ ''.key'') \<noteq> revoked_path c"
    "path_join d (n @ ''.crt'') \<noteq> revoked_path c" "path_join d (n @ ''.p12'') \<noteq> revoked_path c"
  by (rule not_revoked, subst last_part_join, (use assms in simp), rule suffix_ne)+

lemma template_then: "andthen (write_template q t) f = andthen (atomic_write_text q t 384) (\<lambda>_. f q)"
  by (simp add: write_template_def atomic_write_text_def result_simps)

lemma keeps_crl:
  "tool_frame env (revoked_path c) \<Longrightarrow> keeps (revoked_path c) (generate_crl env secs c d)"
  unfolding generate_crl_def template_then
  by (intro keeps_andthen keeps_basic keeps_write keeps_tool) (simp_all add: crl_argv_def)

definition grows :: "app_config \<Rightarrow> (world, 'a) action \<Rightarrow> bool" where
  "grows c m = (\<forall>w. prefix (revoked_text c w) (revoked_text c (snd (m w))))"

lemma grows_keeps: "keeps (revoked_path c) m \<Longrightarrow> grows c m"
  by (simp add: grows_def keeps_revoked)

lemma grows_append: "grows c (append_revoked_certificate c pem d)"
  by (simp add: grows_def append_revoked_text)

lemma grows_andthen: "grows c m \<Longrightarrow> (\<And>x. grows c (f x)) \<Longrightarrow> grows c (andthen m f)"
  unfolding grows_def andthen_def
  by (auto split: prod.split sum.split) (metis prefix_order.trans snd_conv)+

lemma grows_if: "grows c m \<Longrightarrow> grows c n \<Longrightarrow> grows c (if b then m else n)"
  by simp

lemma username_no_slash: "username_re n \<Longrightarrow> CHR ''/'' \<notin> set n"
proof
  assume u: "username_re n" and s: "CHR ''/'' \<in> set n"
  have "LF \<noteq> CHR ''/''" by code_simp
  moreover from s have "n \<noteq> []" by auto
  ultimately have "CHR ''/'' \<in> set (re_dollar n)"
    using s append_butlast_last_id [of n] by (metis UnE list.set(1) empty_iff list.set(2) re_dollar_def set_append set_ConsD)
  moreover have "\<not> name_chars ''_.@-'' CHR ''/''" by code_simp
  ultimately show False using u by (auto simp: username_re_def Let_def list_all_iff)
qed

lemma keeps_signed:
  "tool_frame env p \<Longrightarrow> crt \<noteq> p \<Longrightarrow> key \<noteq> ''--outfile'' \<Longrightarrow> t \<noteq> ''--outfile'' \<Longrightarrow>
   keeps p (run_command env secs (signed_argv c key t crt) (cert_options d))"
  by (intro keeps_tool) (simp_all add: signed_argv_def)

lemma guarded_user:
  "(username_re n \<Longrightarrow> keeps p m) \<Longrightarrow> keeps p (andthen (lift_result (validate_username n)) (\<lambda>_. m))"
  by (simp add: keeps_def andthen_def lift_result_def validate_username_def)

lemma keeps_init: "tool_frame env (revoked_path c) \<Longrightarrow> keeps (revoked_path c) (init_ca env secs c d)"
  unfolding init_ca_def template_then
  by (intro keeps_andthen keeps_basic keeps_write keeps_new_key keeps_tool) (simp_all add: self_signed_argv_def)

lemma keeps_issue_server: "tool_frame env (revoked_path c) \<Longrightarrow> keeps (revoked_path c) (create_server_certificate env secs c d)"
  unfolding create_server_certificate_def Let_def template_then
  by (intro keeps_andthen keeps_basic keeps_write keeps_new_key keeps_signed keeps_if) simp_all

lemma keeps_issue_user: "tool_frame env (revoked_path c) \<Longrightarrow> keeps (revoked_path c) (create_user_certificate env secs c n d)"
  unfolding create_user_certificate_def template_then
  by (intro guarded_user keeps_andthen keeps_basic keeps_write keeps_new_key keeps_signed)
    (simp_all add: username_no_slash user_files_apart)

lemma option_words:
  "''--load-certificate'' \<noteq> revoked_path c" "''--load-privkey'' \<noteq> revoked_path c" "''--pkcs-cipher'' \<noteq> revoked_path c"
  by (rule not_revoked, code_simp)+

lemma p12_out:
  assumes "username_re n"
  shows "\<not> writes_to (p12_argv c n passphrase apple) (revoked_path c)"
  using username_no_slash [OF assms]
  by (auto simp: p12_argv_def user_files_apart user_file_def option_words split: option.splits)

lemma keeps_p12: "tool_frame env (revoked_path c) \<Longrightarrow> keeps (revoked_path c) (create_p12 env secs c n pw a d)"
  unfolding create_p12_def
  by (intro guarded_user keeps_andthen keeps_basic keeps_tool p12_out) (simp_all)

lemma keeps_upload_ca: "keeps (revoked_path c) (save_ca_material c x y)"
  unfolding save_ca_material_def atomic_write_private_text_def
  by (intro keeps_andthen keeps_basic keeps_write keeps_if) simp_all

lemma external_apart [simp]:
  "scp_cert (external_paths c) \<noteq> revoked_path c" "scp_key (external_paths c) \<noteq> revoked_path c"
  "scp_ca (external_paths c) \<noteq> revoked_path c"
  by (simp_all add: external_paths_def Let_def last_part_join)

lemma keeps_upload_server: "keeps (revoked_path c) (save_external_material c x y z)"
  unfolding save_external_material_def Let_def
  by (intro keeps_andthen keeps_basic keeps_write keeps_if) simp_all

lemma grows_revoke_user:
  assumes "tool_frame env (revoked_path c)"
  shows "grows c (revoke_user_certificate env secs c n d)"
  unfolding revoke_user_certificate_def Let_def
  by (intro grows_andthen grows_if grows_append grows_keeps [OF keeps_crl [OF assms]] grows_keeps [OF keeps_basic(1)]
      grows_keeps [OF keeps_basic(3)] grows_keeps [OF keeps_basic(5)])

lemma grows_revoke_pem:
  assumes "tool_frame env (revoked_path c)"
  shows "grows c (revoke_certificate_pem env secs c p d)"
  unfolding revoke_certificate_pem_def
  by (intro grows_andthen grows_if grows_append grows_keeps [OF keeps_crl [OF assms]] grows_keeps [OF keeps_basic(2)]
      grows_keeps [OF keeps_basic(3)])

lemma cert_step_grows:
  assumes "tool_frame env (revoked_path c)"
  shows "prefix (revoked_text c w) (revoked_text c (cert_step env secs c x w))"
  using assms keeps_init keeps_upload_ca keeps_issue_server keeps_issue_user keeps_p12 keeps_crl keeps_upload_server
    grows_revoke_user grows_revoke_pem
  by (cases x) (simp_all add: keeps_revoked flip: grows_def, simp_all add: grows_def)

lemma cert_run_append: "cert_run env secs c (xs @ ys) w = cert_run env secs c ys (cert_run env secs c xs w)"
  by (simp add: cert_run_def)

lemma cert_run_snoc: "cert_run env secs c (xs @ [x]) w = cert_step env secs c x (cert_run env secs c xs w)"
  by (simp add: cert_run_def)

lemma cert_run_grows:
  assumes "tool_frame env (revoked_path c)"
  shows "prefix (revoked_text c w) (revoked_text c (cert_run env secs c ops w))"
proof (induction ops rule: rev_induct)
  case (snoc x ops)
  then show ?case using cert_step_grows [OF assms] by (auto simp: cert_run_def intro: prefix_order.trans)
qed (simp add: cert_run_def)

text \<open>Revoking a certificate adds it unless it is there, whatever becomes of the list made from it.\<close>

lemma revoke_pem_text:
  assumes "tool_frame env (revoked_path c)" "contains ''BEGIN CERTIFICATE'' t" "contains ''END CERTIFICATE'' t"
  shows "revoked_text c (cert_step env secs c (Revoke_pem (Pem_text t) False) w) =
    revoked_text c w @ (if contains (strip t @ [LF]) (revoked_text c w) then [] else read_text (strip t @ [LF]))"
proof -
  obtain r w1 where a: "append_revoked_certificate c t False w = (r, w1)" by fastforce
  then have r: "r = Inr ()"
    by (auto simp: append_revoked_certificate_def atomic_write_text_def ret_def Let_def split: if_splits)
  have "revoked_text c (snd (generate_crl env secs c False w1)) = revoked_text c w1"
    by (rule keeps_revoked, rule keeps_crl, rule assms)
  moreover have "revoked_text c w1 = revoked_text c w @ (if contains (strip t @ [LF]) (revoked_text c w) then [] else read_text (strip t @ [LF]))"
    using append_revoked_text [of c t False w] a by simp
  ultimately show ?thesis using a r assms by (simp add: revoke_certificate_pem_def andthen_def lift_result_def)
qed

text \<open>C8. A certificate that was revoked once stays in the list of revoked certificates, whatever
  operations of the two services come before and after it and however they end: the list only
  grows. certtool writes no file but those it is told to.\<close>

theorem revoked_stays_revoked:
  assumes "tool_frame env (revoked_path c)" "CR \<notin> set t"
    "contains ''BEGIN CERTIFICATE'' t" "contains ''END CERTIFICATE'' t"
  shows "contains (strip t @ [LF])
    (revoked_text c (cert_run env secs c (before @ Revoke_pem (Pem_text t) False # after) w))"
proof -
  let ?w1 = "cert_run env secs c before w"
  let ?w2 = "cert_step env secs c (Revoke_pem (Pem_text t) False) ?w1"
  have "CR \<notin> set (strip t @ [LF])" using assms(2) set_strip_if [of is_space t] by (auto simp: strip_def)
  then have "contains (strip t @ [LF]) (revoked_text c ?w2)"
    unfolding revoke_pem_text [OF assms(1,3,4)] by (auto simp: contains_def read_text_def)
  moreover have "prefix (revoked_text c ?w2) (revoked_text c (cert_run env secs c after ?w2))"
    by (rule cert_run_grows [OF assms(1)])
  moreover have "cert_run env secs c (before @ Revoke_pem (Pem_text t) False # after) w = cert_run env secs c after ?w2"
    by (simp add: cert_run_def)
  ultimately show ?thesis
    unfolding contains_def using sublist_order.order.trans prefix_imp_sublist by metis
qed

lemma strip_block: "strip (pem_block b) = pem_block b"
proof -
  have "\<not> is_space CHR ''-''" by code_simp
  then show ?thesis
    by (simp add: strip_def strip_if_def lstrip_if_def rstrip_if_def pem_block_def begin_cert_def end_cert_def)
qed

lemma block_is_pem: "contains ''BEGIN CERTIFICATE'' (pem_block b)" "contains ''END CERTIFICATE'' (pem_block b)"
proof -
  have "pem_block b = ''-----'' @ ''BEGIN CERTIFICATE'' @ ''-----'' @ LF # b @ end_cert"
    and "pem_block b = (begin_cert @ LF # b @ ''-----'') @ ''END CERTIFICATE'' @ ''-----''"
    by (simp_all add: pem_block_def begin_cert_def end_cert_def)
  then show "contains ''BEGIN CERTIFICATE'' (pem_block b)" "contains ''END CERTIFICATE'' (pem_block b)"
    unfolding contains_def sublist_def by blast+
qed

lemma revoked_list_no_CR: "\<forall>b \<in> set bs. pem_text_ok b \<Longrightarrow> CR \<notin> set (revoked_list bs)"
proof -
  have "CR \<notin> set begin_cert" "CR \<notin> set end_cert" by code_simp+
  then show "\<forall>b \<in> set bs. pem_text_ok b \<Longrightarrow> ?thesis"
    by (auto simp: revoked_list_def pem_block_def pem_text_ok_def)
qed

lemma revoked_after:
  assumes "tool_frame env (revoked_path c)" "files w (revoked_path c) = None" "\<forall>b \<in> set bs. pem_text_ok b"
  shows "revoked_text c (cert_run env secs c (map (\<lambda>b. Revoke_pem (Pem_text (pem_block b)) False) bs) w)
    = revoked_list (uniq [] bs)"
  using assms(3)
proof (induction bs rule: rev_induct)
  case Nil
  then show ?case using assms(2) by (simp add: cert_run_def revoked_text_def revoked_list_def)
next
  case (snoc b bs)
  have b: "pem_text_ok b" and bs: "\<forall>b \<in> set bs. pem_text_ok b" using snoc.prems by auto
  have "read_text (pem_block b @ [LF]) = pem_block b @ [LF]"
    using revoked_list_no_CR [of "[b]"] b by (simp add: read_text_def revoked_list_def)
  moreover have "contains (pem_block b @ [LF]) (revoked_list (uniq [] bs)) \<longleftrightarrow> b \<in> set bs"
    using block_in_list [OF b, of "uniq [] bs"] bs by simp
  moreover have "uniq [] (bs @ [b]) = uniq [] bs @ (if b \<in> set bs then [] else [b])"
    by (simp add: uniq_append)
  moreover have "revoked_list (xs @ [b]) = revoked_list xs @ pem_block b @ [LF]" for xs
    by (simp add: revoked_list_def)
  ultimately show ?case
    using snoc.IH [OF bs] revoke_pem_text [OF assms(1) block_is_pem [of b]]
    by (simp add: cert_run_snoc strip_block del: cert_step.simps)
qed

text \<open>C33. The certificates revoked so far are listed: after any sequence of revocations into an
  empty list, each certificate revoked is found in the file exactly once, in the order of its
  first revocation, and the listing asks certtool about exactly these.\<close>

theorem revoked_are_listed:
  assumes "tool_frame env (revoked_path c)" "files w (revoked_path c) = None" "\<forall>b \<in> set bs. pem_text_ok b"
  shows "let w' = cert_run env secs c (map (\<lambda>b. Revoke_pem (Pem_text (pem_block b)) False) bs) w in
     find_pems (revoked_text c w') = map pem_block (uniq [] bs)
     \<and> list_revoked_certificates env secs c w'
       = action_map (certificate_info_of env secs) (map pem_block (uniq [] bs)) w'"
proof -
  let ?w' = "cert_run env secs c (map (\<lambda>b. Revoke_pem (Pem_text (pem_block b)) False) bs) w"
  have t: "revoked_text c ?w' = revoked_list (uniq [] bs)" by (rule revoked_after [OF assms])
  then have f: "find_pems (revoked_text c ?w') = map pem_block (uniq [] bs)"
    using find_pems_list [of "uniq [] bs"] assms(3) by simp
  then have "list_revoked_certificates env secs c ?w'
       = action_map (certificate_info_of env secs) (map pem_block (uniq [] bs)) ?w'"
    by (auto simp: list_revoked_certificates_def revoked_text_def result_simps split: option.splits)
  with f show ?thesis by simp
qed

section \<open>Witnesses\<close>

lemma sample_frame: "tool_frame sample_env p"
  by (simp add: tool_frame_def sample_env_def)

definition keyed_world :: world where
  "keyed_world = sample_world\<lparr>files := [cert_path sample_app ''server.key'' \<mapsto> ''key'']\<rparr>"

lemma server_key_is_kept_witness:
  "files (snd (create_server_certificate sample_env [] sample_app False keyed_world)) (cert_path sample_app ''server.key'')
     = Some ''key''"
  using server_key_is_kept [of keyed_world sample_app "''key''" sample_env "[]" False] sample_frame
  by (simp add: keyed_world_def Let_def)

lemma revoked_stays_revoked_witness:
  "contains (''BEGIN CERTIFICATE END CERTIFICATE'' @ [LF]) (revoked_text sample_app
     (cert_run sample_env [] sample_app [Init_ca True, Revoke_pem (Pem_text ''BEGIN CERTIFICATE END CERTIFICATE'') False,
        Make_crl False] sample_world))"
proof -
  have "CR \<notin> set ''BEGIN CERTIFICATE END CERTIFICATE''" "strip ''BEGIN CERTIFICATE END CERTIFICATE'' = ''BEGIN CERTIFICATE END CERTIFICATE''"
    "contains ''BEGIN CERTIFICATE'' ''BEGIN CERTIFICATE END CERTIFICATE''"
    "contains ''END CERTIFICATE'' ''BEGIN CERTIFICATE END CERTIFICATE''"
    by code_simp+
  then show ?thesis
    using revoked_stays_revoked [OF sample_frame, of "''BEGIN CERTIFICATE END CERTIFICATE''" sample_app "[]" "[Init_ca True]"
        "[Make_crl False]" sample_world] by simp
qed

lemma revoked_are_listed_witness:
  "find_pems (revoked_text sample_app (cert_run sample_env [] sample_app
     (map (\<lambda>b. Revoke_pem (Pem_text (pem_block b)) False) [''AA'', ''BB'', ''AA'']) sample_world))
   = [pem_block ''AA'', pem_block ''BB'']"
proof -
  have "\<forall>b \<in> set [''AA'', ''BB'', ''AA'']. pem_text_ok b" "uniq [] [''AA'', ''BB'', ''AA''] = [''AA'', ''BB'']" by code_simp+
  moreover have "files sample_world (revoked_path sample_app) = None" by (simp add: sample_world_def)
  ultimately show ?thesis
    using revoked_are_listed [OF sample_frame, of sample_world sample_app "[''AA'', ''BB'', ''AA'']" "[]"]
    by (simp add: Let_def)
qed

section \<open>Where the code falls short\<close>

text \<open>An uploaded authority is stored whole or not at all.\<close>

theorem ca_upload_is_whole:
  "case save_ca_material c cert key w of
     (Inl e, w') \<Rightarrow> e = ValueError \<and> w' = w
   | (Inr _, w') \<Rightarrow> utf8_decode cert = files w' (cert_path c ''ca.crt'') \<and> utf8_decode key = files w' (cert_path c ''ca.key'')"
proof -
  have "cert_path c ''ca.crt'' \<noteq> cert_path c ''ca.key''" by (rule path_apart) simp
  then show ?thesis
    by (auto simp: save_ca_material_def decode_text_def result_simps atomic_write_private_text_def atomic_write_text_def
        split: option.split)
qed

text \<open>An uploaded server certificate is not: with a key that is no UTF-8 the request fails after
  the certificate was replaced, and the server is left with a certificate for another key.\<close>

theorem upload_may_stop_half_way:
  assumes "utf8_decode cert = Some t" "utf8_decode key = None"
    "strip_if byte_space cert \<noteq> []" "strip_if byte_space key \<noteq> []" "strip_if byte_space ca \<noteq> []"
  shows "\<exists>w'. save_external_material c cert key ca w = (Inl ValueError, w')
    \<and> files w' (scp_cert (external_paths c)) = Some t"
  using assms by (simp add: save_external_material_def decode_text_def result_simps atomic_write_text_def Let_def)

text \<open>A revoked certificate with Windows line endings is added again by every further request: the
  list is read with its line endings translated, the certificate is not.\<close>

theorem windows_revocation_repeats:
  assumes "tool_frame env (revoked_path c)" "CR \<in> set (strip t)"
    "contains ''BEGIN CERTIFICATE'' t" "contains ''END CERTIFICATE'' t"
  shows "revoked_text c (cert_run env secs c [Revoke_pem (Pem_text t) False, Revoke_pem (Pem_text t) False] w)
    = revoked_text c w @ read_text (strip t @ [LF]) @ read_text (strip t @ [LF])"
proof -
  have "CR \<notin> set (revoked_text c v)" for v
    by (simp add: revoked_text_def read_text_def universal_no_CR split: option.split)
  then have "\<not> contains (strip t @ [LF]) (revoked_text c v)" for v
    using assms(2) set_mono_sublist [of "strip t @ [LF]" "revoked_text c v"] unfolding contains_def by auto
  then show ?thesis
    using revoke_pem_text [OF assms(1,3,4)] by (simp add: cert_run_def del: cert_step.simps)
qed

text \<open>Revoking a user without a stored certificate revokes nothing and answers as if it had.\<close>

theorem revoking_nothing_succeeds:
  assumes "username_re n" "files w (user_file c n ''.crt'') = None"
  shows "revoke_user_certificate env secs c n d w = generate_crl env secs c d w"
  using assms by (simp add: revoke_user_certificate_def validate_username_def result_simps)

text \<open>A certificate issued again replaces the stored one, and revoking the user revokes what is
  stored: the list gains the text of the new certificate only.\<close>

theorem only_the_stored_certificate_is_revoked:
  assumes "tool_frame env (revoked_path c)" "username_re n" "files w (user_file c n ''.crt'') = Some t" "read_text t \<noteq> []"
  shows "revoked_text c (cert_step env secs c (Revoke_user n False) w)
    = revoked_text c w @ (if contains (strip (read_text t) @ [LF]) (revoked_text c w) then [] else read_text (strip (read_text t) @ [LF]))"
proof -
  obtain r w1 where a: "append_revoked_certificate c (read_text t) False w = (r, w1)" by fastforce
  then have r: "r = Inr ()"
    by (auto simp: append_revoked_certificate_def atomic_write_text_def ret_def Let_def split: if_splits)
  have "revoked_text c (snd (generate_crl env secs c False w1)) = revoked_text c w1"
    by (rule keeps_revoked, rule keeps_crl, rule assms)
  moreover have "revoke_user_certificate env secs c n False w = generate_crl env secs c False w1"
    using assms(2-4) a r by (simp add: revoke_user_certificate_def validate_username_def andthen_def lift_result_def read_file_def)
  ultimately show ?thesis using append_revoked_text [of c "read_text t" False w] a by simp
qed

text \<open>The pass phrase of an exported key is an argument of the command, which every user of the
  host can see while it runs.\<close>

theorem passphrase_is_an_argument:
  assumes "username_re n" "s \<noteq> []" "run_command env secs (p12_argv c n (Some s) a)
      ((cert_options False)\<lparr>o_extra_secrets := [s]\<rparr>) w = (r, w')"
  shows "\<exists>argv. s \<in> set argv \<and> Ran argv None \<in> set (new_events w (snd (create_p12 env secs c n (Some s) a False w)))"
proof -
  let ?argv = "p12_argv c n (Some s) a"
  have s: "s \<in> set ?argv" using assms(2) by (simp add: p12_argv_def)
  have "n \<noteq> []" using assms(1) by (auto simp: username_re_def re_dollar_def)
  then have "\<not> list_ex (\<lambda>x. x = []) ?argv"
    using assms(2) by (simp add: p12_argv_def user_file_def path_join_def)
  moreover have "?argv \<noteq> []" by (simp add: p12_argv_def)
  ultimately have "Ran ?argv None \<in> set (new_events w w')"
    using assms(3)
    by (auto simp: run_command_def run_captured_def Let_def cert_options_def default_options_def result_simps spawn_def
        finish_def new_events_def split: outcome.splits if_splits)
  moreover have "snd (create_p12 env secs c n (Some s) a False w) = w'"
    using assms(1-3) by (simp add: create_p12_def user_p12_path_def validate_username_def andthen_def lift_result_def)
  ultimately show ?thesis using s by auto
qed

text \<open>A line break in the name of the authority writes a directive of its own into the template.\<close>

theorem authority_name_smuggles_a_directive:
  assumes "ca_name (app_certificates c) = ''Acme'' @ LF # ''crl_signing_key''"
  shows "''crl_signing_key'' \<in> set (splitlines (ca_template c))"
proof -
  have t: "ca_template c = ''cn = Acme'' @ LF # ''crl_signing_key'' @ LF
      # join [LF] [''ca'', ''cert_signing_key'', ''expiration_days = 3650'', []]"
    by (simp add: ca_template_def assms)
  have "no_breaks ''cn = Acme''" "no_breaks ''crl_signing_key''" by code_simp+
  then show ?thesis by (simp only: t splitlines_def splitlines_acc_line) simp
qed

end
