(* ===== verification/Logs.thy ===== *)
theory Logs
  imports Command Config_App Json_Text
begin

text \<open>
  \<open>services/logs.py\<close>: listing the log files, showing the end of one with a time in front of
  every line that has none, and rotating them by size and age. Contents are bytes; which files
  the log directory holds is asked of the system (\<open>ls\<close>, names relative to the directory). Times
  are whole seconds. Text that is no UTF-8 is decoded by a parameter, the replacement character
  being outside the model. Every operation that holds the lock is one step.
\<close>

section \<open>Reading a log\<close>

type_synonym markers = "(nat \<times> string) list"

definition max_markers :: nat where
  "max_markers = 200"

definition log_dir_of :: "app_config \<Rightarrow> string" where
  "log_dir_of c = log_dir (app_system c)"

text \<open>\<open>list_logs\<close>.\<close>

definition list_logs :: "(world \<Rightarrow> string list) \<Rightarrow> env \<Rightarrow> app_config \<Rightarrow> world \<Rightarrow> (string \<times> nat) list" where
  "list_logs ls env c w = (if \<not> e_dir env w (log_dir_of c) then []
     else sort_keys (map (\<lambda>n. (n, file_size (path_join (log_dir_of c) n) w)) (ls w)))"

text \<open>\<open>_TIMESTAMP_PREFIX_RE\<close>: a date and a time, in one of three notations.\<close>

fun shaped :: "string \<Rightarrow> string \<Rightarrow> bool" where
  "shaped [] s = True"
| "shaped (f # fs) [] = False"
| "shaped (f # fs) (x # s) = ((if f = CHR ''d'' then is_ascii_digit x
     else if f = CHR ''T'' then x = CHR ''T'' \<or> is_space x else x = f) \<and> shaped fs s)"

definition iso_shape :: string where
  "iso_shape = ''dddd-dd-ddTdd:dd:dd''"

definition syslog_prefix :: "string \<Rightarrow> bool" where
  "syslog_prefix s = (case s of
     a # b # d # r \<Rightarrow>
       65 \<le> code a \<and> code a \<le> 90 \<and> 97 \<le> code b \<and> code b \<le> 122 \<and> 97 \<le> code d \<and> code d \<le> 122
       \<and> r \<noteq> [] \<and> is_space (hd r)
       \<and> (let t = dropWhile is_space r; day = takeWhile is_ascii_digit t; u = dropWhile is_ascii_digit t in
          length day \<in> {1, 2} \<and> u \<noteq> [] \<and> is_space (hd u) \<and> shaped ''dd:dd:dd'' (dropWhile is_space u))
   | _ \<Rightarrow> False)"

definition has_timestamp :: "string \<Rightarrow> bool" where
  "has_timestamp l = (shaped iso_shape l \<or> syslog_prefix l \<or> (l \<noteq> [] \<and> hd l = CHR ''['' \<and> shaped iso_shape (tl l)))"

text \<open>\<open>_record_marker\<close>: the markers after a poll that saw the given size.\<close>

definition record_marker :: "string \<Rightarrow> nat \<Rightarrow> markers \<Rightarrow> markers" where
  "record_marker now n ms0 =
     (let ms = (if ms0 \<noteq> [] \<and> n < fst (last ms0) then [] else ms0) in
      if ms = [] \<or> fst (last ms) < n
      then (let grown = ms @ [(n, now)] in drop (length grown - max_markers) grown)
      else ms)"

text \<open>\<open>splitlines(keepends=True)\<close>; the accumulator is the current line, reversed.\<close>

fun keep_acc :: "string \<Rightarrow> string \<Rightarrow> string list" where
  "keep_acc cur [] = (if cur = [] then [] else [rev cur])"
| "keep_acc cur (x # xs) =
     (if x = CR then
        (case xs of [] \<Rightarrow> [rev (x # cur)]
         | d # ds \<Rightarrow> if d = LF then rev (d # x # cur) # keep_acc [] ds else rev (x # cur) # keep_acc [] (d # ds))
      else if is_linebreak x then rev (x # cur) # keep_acc [] xs
      else keep_acc (x # cur) xs)"

definition splitlines_keep :: "string \<Rightarrow> string list" where
  "splitlines_keep s = keep_acc [] s"

definition utf8_size :: "string \<Rightarrow> nat" where
  "utf8_size s = sum_list (map (\<lambda>x. if code x < 128 then 1 else 2) s)"

fun running :: "nat \<Rightarrow> nat list \<Rightarrow> nat list" where
  "running acc [] = []"
| "running acc (n # ns) = (acc + n) # running (acc + n) ns"

definition stamp_of :: "markers \<Rightarrow> nat \<Rightarrow> string" where
  "stamp_of ms offset = (case find (\<lambda>m. offset \<le> fst m) ms of Some m \<Rightarrow> snd m | None \<Rightarrow> snd (last ms))"

definition stamp_line :: "markers \<Rightarrow> string \<Rightarrow> nat \<Rightarrow> string" where
  "stamp_line ms entry offset = (let l = rstrip_char CR (rstrip_char LF entry) in
     if l = [] \<or> has_timestamp l then l else stamp_of ms offset @ '' '' @ l)"

definition stamp_lines :: "string \<Rightarrow> int \<Rightarrow> markers \<Rightarrow> string list" where
  "stamp_lines t lines ms =
     (let entries = splitlines_keep t; offsets = running 0 (map utf8_size entries) in
      drop (nat (max 0 (int (length entries) - lines)))
        (map (\<lambda>(e, off). stamp_line ms e off) (zip entries offsets)))"

text \<open>\<open>tail\<close>: a relative name below the log directory, by its parts.\<close>

definition name_parts :: "string \<Rightarrow> string list" where
  "name_parts name = filter (\<lambda>p. p \<noteq> [] \<and> p \<noteq> ''.'') (split_on CHR ''/'' name)"

definition tail_path :: "app_config \<Rightarrow> string \<Rightarrow> string option" where
  "tail_path c name = (if starts_with ''/'' name \<or> ''..'' \<in> set (name_parts name) then None
     else Some (foldl path_join (log_dir_of c) (name_parts name)))"

definition tail_log :: "(string \<Rightarrow> string) \<Rightarrow> string list \<Rightarrow> env \<Rightarrow> app_config \<Rightarrow> string \<Rightarrow> string \<Rightarrow> int \<Rightarrow> world
    \<Rightarrow> (string \<times> markers) list \<Rightarrow> string result \<times> (string \<times> markers) list" where
  "tail_log decode secrets env c now name lines w all =
     (case tail_path c name of None \<Rightarrow> (Inr [], all)
      | Some p \<Rightarrow> (case files w p of
          None \<Rightarrow> (if e_dir env w p then Inl OSError else Inr [], all)
        | Some raw \<Rightarrow>
            (let ms = record_marker now (length raw) (case map_of all p of None \<Rightarrow> [] | Some m \<Rightarrow> m) in
             (Inr (mask_text (join [LF] (stamp_lines (decode raw) lines ms)) secrets), AList.update p ms all))))"

section \<open>Rotation\<close>

definition rotated_name :: "string \<Rightarrow> bool" where
  "rotated_name name = (let r = rev (re_dollar name); d = takeWhile is_ascii_digit r; rest = dropWhile is_ascii_digit r in
     d \<noteq> [] \<and> rest \<noteq> [] \<and> hd rest = CHR ''.'')"

definition base_name :: "string \<Rightarrow> string" where
  "base_name n = last (split_on CHR ''/'' n)"

definition numbered :: "string \<Rightarrow> nat \<Rightarrow> string" where
  "numbered p i = p @ CHR ''.'' # show_nat i"

definition unlink_missing_ok :: "string \<Rightarrow> (world, unit) action" where
  "unlink_missing_ok p = (\<lambda>w. if files w p = None then ret () w else unlink p w)"

definition replace_file :: "string \<Rightarrow> string \<Rightarrow> (world, unit) action" where
  "replace_file a b = (\<lambda>w. (Inr (), record_event (Called ''replace'' [a, b])
     (w\<lparr>files := (files w)(b := files w a, a := None)\<rparr>)))"

definition copy_file :: "string \<Rightarrow> string \<Rightarrow> (world, unit) action" where
  "copy_file a b = (\<lambda>w. (Inr (), record_event (Called ''copyfile'' [a, b]) (w\<lparr>files := (files w)(b := files w a)\<rparr>)))"

definition truncate_file :: "string \<Rightarrow> (world, unit) action" where
  "truncate_file p = (\<lambda>w. (Inr (), record_event (Called ''truncate'' [p]) (w\<lparr>files := (files w)(p \<mapsto> [])\<rparr>)))"

fun shift_files :: "string \<Rightarrow> nat \<Rightarrow> (world, unit) action" where
  "shift_files p 0 = ret ()"
| "shift_files p (Suc i) =
     andthen (\<lambda>w. if files w (numbered p (Suc i)) \<noteq> None
        then replace_file (numbered p (Suc i)) (numbered p (Suc (Suc i))) w else ret () w) (\<lambda>_.
     shift_files p i)"

definition rotate_file :: "string \<Rightarrow> nat \<Rightarrow> (world, unit) action" where
  "rotate_file p keep =
     andthen (unlink_missing_ok (numbered p keep)) (\<lambda>_.
     andthen (shift_files p (keep - 1)) (\<lambda>_.
     andthen (copy_file p (numbered p 1)) (\<lambda>_. truncate_file p)))"

type_synonym rotation_state = "(string \<times> int) list"

definition rotation_state_path :: "app_config \<Rightarrow> string" where
  "rotation_state_path c = generated_path c ''log-rotation-state.json''"

definition load_rotation_state :: "app_config \<Rightarrow> world \<Rightarrow> rotation_state" where
  "load_rotation_state c w = (case files w (rotation_state_path c) of None \<Rightarrow> []
     | Some t \<Rightarrow> (case json_loads (read_text t) of
         Some (JDict kvs) \<Rightarrow> concat (map (\<lambda>(n, j). case j of JInt i \<Rightarrow> [(n, i)]
            | JBool b \<Rightarrow> [(n, if b then 1 else 0)] | _ \<Rightarrow> []) kvs)
       | _ \<Rightarrow> []))"

definition save_rotation_state :: "app_config \<Rightarrow> rotation_state \<Rightarrow> (world, unit) action" where
  "save_rotation_state c st = (\<lambda>w. (Inr (), record_event (Called ''write_text'' [rotation_state_path c])
     (w\<lparr>files := (files w)(rotation_state_path c \<mapsto>
        json_dumps (JDict (map (\<lambda>(n, i). (n, JInt i)) (sort_keys st))))\<rparr>)))"

definition log_due :: "log_rotation_config \<Rightarrow> bool \<Rightarrow> int \<Rightarrow> int \<Rightarrow> nat \<Rightarrow> bool" where
  "log_due s force now since n =
     (if force then 0 < n
      else (0 < lr_max_size_mb s \<and> max_size_bytes s \<le> int n)
         \<or> (0 < lr_max_age s \<and> max_age_seconds s \<le> now - since))"

text \<open>Paths are sorted by their parts.\<close>

fun parts_le :: "string list \<Rightarrow> string list \<Rightarrow> bool" where
  "parts_le [] _ = True"
| "parts_le (a # as) [] = False"
| "parts_le (a # as) (b # bs) = (if a = b then parts_le as bs else str_le a b)"

fun insert_path :: "string \<Rightarrow> string list \<Rightarrow> string list" where
  "insert_path n [] = [n]"
| "insert_path n (m # ms) = (if parts_le (split_on CHR ''/'' n) (split_on CHR ''/'' m) then n # m # ms else m # insert_path n ms)"

definition sort_paths :: "string list \<Rightarrow> string list" where
  "sort_paths ns = foldr insert_path ns []"

fun rotate_names :: "app_config \<Rightarrow> bool \<Rightarrow> int \<Rightarrow> string list \<Rightarrow> rotation_state
    \<Rightarrow> (world, rotation_state \<times> string list) action" where
  "rotate_names c force now [] st = ret (st, [])"
| "rotate_names c force now (n # ns) st = (\<lambda>w.
     let s = log_rotation (app_system c); p = path_join (log_dir_of c) n in
     if files w p = None \<or> rotated_name (base_name n) then rotate_names c force now ns st w
     else let since = (case map_of st n of None \<Rightarrow> now | Some t \<Rightarrow> t);
              st1 = (if map_of st n = None then st @ [(n, now)] else st) in
       if \<not> log_due s force now since (file_size p w) then rotate_names c force now ns st1 w
       else andthen (rotate_file p (nat (lr_keep_files s))) (\<lambda>_.
            andthen (rotate_names c force now ns (AList.update n now st1)) (\<lambda>(st2, finished).
            ret (st2, n # finished))) w)"

definition rotate_logs :: "(world \<Rightarrow> string list) \<Rightarrow> env \<Rightarrow> app_config \<Rightarrow> bool \<Rightarrow> (world, string list) action" where
  "rotate_logs ls env c force = (\<lambda>w.
     if \<not> lr_enabled (log_rotation (app_system c)) \<and> \<not> force \<or> \<not> e_dir env w (log_dir_of c) then ret [] w
     else andthen (rotate_names c force (int (e_now env w)) (sort_paths (ls w)) (load_rotation_state c w)) (\<lambda>(st, rotated).
          andthen current (\<lambda>w1.
          andthen (save_rotation_state c
             (filter (\<lambda>(n, _). files w1 (path_join (log_dir_of c) n) \<noteq> None) st)) (\<lambda>_.
          ret rotated))) w)"

end
