(* ===== verification/Log_Properties.thy ===== *)
theory Log_Properties
  imports Logs Samples
begin

text \<open>
  What reading and rotating logs guarantee: a line keeps the time it was first shown with, the
  rotated files of a log are a bounded queue of its former contents, and exactly the logs that
  are due are rotated. Also the case in which shown times do move.
\<close>

section \<open>Stamps\<close>

lemma keep_acc_append:
  "t \<noteq> [] \<Longrightarrow> last t = LF \<Longrightarrow> keep_acc cur (t @ u) = keep_acc cur t @ keep_acc [] u"
proof (induction "length t" arbitrary: cur t rule: less_induct)
  case less
  then obtain x xs where t: "t = x # xs" by (cases t) auto
  show ?case
  proof (cases xs)
    case Nil
    with less.prems t show ?thesis by simp
  next
    case (Cons d ds)
    have IH: "keep_acc c' (xs @ u) = keep_acc c' xs @ keep_acc [] u" for c'
      using less.hyps [of xs] less.prems t Cons by simp
    have "ds \<noteq> [] \<Longrightarrow> keep_acc c' (ds @ u) = keep_acc c' ds @ keep_acc [] u" for c'
      using less.hyps [of ds] less.prems t Cons by simp
    then show ?thesis using t Cons IH by (cases "ds = []") auto
  qed
qed

lemma splitlines_keep_append:
  "t = [] \<or> last t = LF \<Longrightarrow> splitlines_keep (t @ u) = splitlines_keep t @ splitlines_keep u"
  using keep_acc_append [of t "[]" u] by (cases "t = []") (auto simp: splitlines_keep_def)

lemma running_append: "running a (xs @ ys) = running a xs @ running (a + sum_list xs) ys"
  by (induction xs arbitrary: a) (simp_all add: add.assoc)

lemma length_running [simp]: "length (running a xs) = length xs"
  by (induction xs arbitrary: a) simp_all

lemma running_le: "o' \<in> set (running a xs) \<Longrightarrow> o' \<le> a + sum_list xs"
proof (induction xs arbitrary: a)
  case (Cons x xs)
  then show ?case using Cons.IH [of "a + x"] by (auto simp: add.assoc)
qed simp

lemma concat_keep_acc: "concat (keep_acc cur t) = rev cur @ t"
proof (induction "length t" arbitrary: cur t rule: less_induct)
  case less
  show ?case
  proof (cases t)
    case t: (Cons x xs)
    show ?thesis
    proof (cases xs)
      case (Cons d ds)
      have "concat (keep_acc c' (d # ds)) = rev c' @ d # ds" "concat (keep_acc c' ds) = rev c' @ ds" for c'
        using less t Cons by (simp_all del: keep_acc.simps)
      then show ?thesis
        unfolding t Cons by (subst keep_acc.simps(2)) (simp del: keep_acc.simps)
    qed (simp add: t)
  qed simp
qed

lemma utf8_size_append: "utf8_size (a @ b) = utf8_size a + utf8_size b"
  by (simp add: utf8_size_def)

lemma utf8_size_concat: "sum_list (map utf8_size xs) = utf8_size (concat xs)"
  by (induction xs) (simp_all add: utf8_size_append, simp add: utf8_size_def)

lemma offsets_le: "off \<in> set (running 0 (map utf8_size (splitlines_keep t))) \<Longrightarrow> off \<le> utf8_size t"
  using running_le [of off 0 "map utf8_size (splitlines_keep t)"]
  by (simp add: utf8_size_concat) (simp add: splitlines_keep_def concat_keep_acc)

text \<open>The last marker is the size seen last; sizes increase.\<close>

lemma record_marker_facts:
  "record_marker now n ms \<noteq> [] \<and> fst (last (record_marker now n ms)) = n"
  by (auto simp: record_marker_def Let_def max_markers_def)

lemma record_marker_grows:
  assumes "ms \<noteq> []" "fst (last ms) \<le> n" "length ms < max_markers"
  shows "prefix ms (record_marker now n ms) \<and> length (record_marker now n ms) \<le> Suc (length ms)"
  using assms by (auto simp: record_marker_def Let_def max_markers_def)

definition poll_all :: "(string \<times> nat) list \<Rightarrow> markers \<Rightarrow> markers" where
  "poll_all polls ms = foldl (\<lambda>m (now, n). record_marker now n m) ms polls"

lemma poll_all_grows:
  assumes "ms \<noteq> []" "sorted (fst (last ms) # map snd polls)" "length ms + length polls \<le> max_markers"
  shows "prefix ms (poll_all polls ms)"
  using assms
proof (induction polls arbitrary: ms)
  case Nil
  then show ?case by (simp add: poll_all_def)
next
  case (Cons p polls)
  obtain now n where p: "p = (now, n)" by fastforce
  let ?m = "record_marker now n ms"
  have g: "prefix ms ?m" "length ?m \<le> Suc (length ms)"
    using record_marker_grows [of ms n now] Cons.prems p by auto
  have "prefix ?m (poll_all polls ?m)"
    using Cons.IH [of ?m] record_marker_facts [of now n ms] g Cons.prems p by auto
  with g show ?case using p by (auto simp: poll_all_def intro: prefix_order.trans)
qed

lemma find_append: "find P (xs @ ys) = (case find P xs of None \<Rightarrow> find P ys | Some x \<Rightarrow> Some x)"
  by (induction xs) auto

lemma stamp_of_prefix:
  assumes "prefix ms ms'" "ms \<noteq> []" "off \<le> fst (last ms)"
  shows "stamp_of ms' off = stamp_of ms off"
proof -
  obtain m where m: "find (\<lambda>m. off \<le> fst m) ms = Some m"
    using assms(2,3) last_in_set [of ms] by (cases "find (\<lambda>m. off \<le> fst m) ms") (auto simp only: find_None_iff)
  then show ?thesis using assms(1) by (auto simp: stamp_of_def prefix_def find_append)
qed

definition stamped :: "string \<Rightarrow> markers \<Rightarrow> string list" where
  "stamped t ms = (let entries = splitlines_keep t in
     map (\<lambda>(e, off). stamp_line ms e off) (zip entries (running 0 (map utf8_size entries))))"

lemma stamp_lines_all:
  "int (length (splitlines_keep t)) \<le> n \<Longrightarrow> stamp_lines t n ms = stamped t ms"
  by (simp add: stamp_lines_def stamped_def Let_def)

text \<open>Reading a growing log again never changes a line shown before: whatever is appended and
  however often the file is polled in between, up to 200 polls in all, the complete lines of the
  earlier reading, with their stamps, are the beginning of the later one.\<close>

theorem stamps_are_stable:
  assumes "t = [] \<or> last t = LF" "ms = record_marker now (utf8_size t) ms0"
    "sorted (utf8_size t # map snd polls)" "length ms + length polls \<le> max_markers"
    "int (length (splitlines_keep (t @ u))) \<le> n"
  shows "prefix (stamp_lines t n ms) (stamp_lines (t @ u) n (poll_all polls ms))"
proof -
  let ?ms = "poll_all polls ms" and ?off = "running 0 (map utf8_size (splitlines_keep t))"
  have m: "ms \<noteq> []" "fst (last ms) = utf8_size t" by (simp_all add: assms(2) record_marker_facts)
  then have pm: "prefix ms ?ms" using poll_all_grows [of ms polls] assms(3,4) by simp
  have split: "splitlines_keep (t @ u) = splitlines_keep t @ splitlines_keep u"
    by (rule splitlines_keep_append [OF assms(1)])
  have same: "stamp_line ?ms e off = stamp_line ms e off" if "off \<in> set ?off" for e off
    using stamp_of_prefix [OF pm m(1)] offsets_le [OF that] m(2) by (simp add: stamp_line_def Let_def)
  have "map2 (stamp_line ?ms) (splitlines_keep t) ?off = map2 (stamp_line ms) (splitlines_keep t) ?off"
    by (rule map_cong [OF refl]) (auto dest: set_zip_rightD simp: same)
  then have "prefix (stamped t ms) (stamped (t @ u) ?ms)"
    by (simp only: stamped_def Let_def split map_append running_append zip_append length_running length_map) simp
  moreover have "int (length (splitlines_keep t)) \<le> n" using assms(5) split by simp
  ultimately show ?thesis using assms(5) by (simp add: stamp_lines_all)
qed

section \<open>Rotation\<close>

lemma show_int_inject_nat: "show_nat i = show_nat j \<Longrightarrow> i = j"
proof -
  assume "show_nat i = show_nat j"
  moreover have "parse_base 10 0 (show_nat n) = Some n" for n by (simp add: show_nat_def parse_show_base del: show_base.simps)
  ultimately show "i = j" by (metis option.inject)
qed

lemma numbered_eq [simp]: "numbered p i = numbered p j \<longleftrightarrow> i = j"
  using show_int_inject_nat by (auto simp: numbered_def)

lemma numbered_not_self [simp]: "numbered p i \<noteq> p" "p \<noteq> numbered p i"
  by (simp_all add: numbered_def)

text \<open>The files after the shift: every numbered file moved up by one.\<close>

lemma shift_files_run:
  assumes "files w (numbered p (Suc i)) = None"
  shows "\<exists>w'. shift_files p i w = (Inr (), w')
    \<and> (\<forall>j. files w' (numbered p j) = (if j = 0 \<or> Suc i < j then files w (numbered p j)
          else if j = 1 then None else files w (numbered p (j - 1))))
    \<and> (\<forall>q. (\<forall>j. q \<noteq> numbered p j) \<longrightarrow> files w' q = files w q)"
  using assms
proof (induction i arbitrary: w)
  case 0
  then have "files w (numbered p j) = (if j = 0 \<or> 1 < j then files w (numbered p j)
      else if j = 1 then None else files w (numbered p (j - 1)))" for j by (cases "j = 1") auto
  then show ?case by (simp add: ret_def)
next
  case (Suc i)
  let ?a = "numbered p (Suc i)" and ?b = "numbered p (Suc (Suc i))"
  obtain w1 where w1: "(if files w ?a \<noteq> None then replace_file ?a ?b w else ret () w) = (Inr (), w1)"
    and a: "files w1 ?a = None" and b: "files w1 ?b = files w ?a"
    and rest: "\<And>q. q \<noteq> ?a \<Longrightarrow> q \<noteq> ?b \<Longrightarrow> files w1 q = files w q"
    using Suc.prems by (cases "files w ?a") (auto simp: replace_file_def ret_def)
  from Suc.IH [OF a] obtain w' where w': "shift_files p i w1 = (Inr (), w')"
    and num: "\<And>j. files w' (numbered p j) = (if j = 0 \<or> Suc i < j then files w1 (numbered p j)
          else if j = 1 then None else files w1 (numbered p (j - 1)))"
    and other: "\<And>q. (\<And>j. q \<noteq> numbered p j) \<Longrightarrow> files w' q = files w1 q" by blast
  have "shift_files p (Suc i) w = (Inr (), w')"
    using w1 w' by (simp add: andthen_def)
  moreover have "files w' (numbered p j) = (if j = 0 \<or> Suc (Suc i) < j then files w (numbered p j)
      else if j = 1 then None else files w (numbered p (j - 1)))" for j
    using num [of j] b rest [of "numbered p j"] rest [of "numbered p (j - 1)"] by (auto simp: not_less_eq less_Suc_eq)
  moreover have "files w' q = files w q" if "\<forall>j. q \<noteq> numbered p j" for q
    using other [of q] rest [of q] that by simp
  ultimately show ?case by blast
qed

definition backups :: "world \<Rightarrow> string \<Rightarrow> nat \<Rightarrow> string option list" where
  "backups w p k = map (\<lambda>i. files w (numbered p (Suc i))) [0..<k]"

lemma rotate_file_run:
  assumes "0 < k" "files w p = Some t"
  shows "\<exists>w'. rotate_file p k w = (Inr (), w') \<and> files w' p = Some []
    \<and> (\<forall>j. files w' (numbered p j) = (if j = 0 \<or> k < j then files w (numbered p j)
          else if j = 1 then Some t else files w (numbered p (j - 1))))
    \<and> (\<forall>q. q \<noteq> p \<longrightarrow> (\<forall>j. q \<noteq> numbered p j) \<longrightarrow> files w' q = files w q)"
proof -
  obtain i where k: "k = Suc i" using assms(1) by (cases k) auto
  obtain w1 where w1: "unlink_missing_ok (numbered p k) w = (Inr (), w1)" "files w1 = (files w)(numbered p k := None)"
    by (cases "files w (numbered p k)") (auto simp: unlink_missing_ok_def ret_def unlink_def fun_upd_idem)
  then have "files w1 (numbered p (Suc i)) = None" using k by simp
  from shift_files_run [OF this] obtain w2 where w2: "shift_files p i w1 = (Inr (), w2)"
    and num: "\<And>j. files w2 (numbered p j) = (if j = 0 \<or> Suc i < j then files w1 (numbered p j)
          else if j = 1 then None else files w1 (numbered p (j - 1)))"
    and other: "\<And>q. (\<And>j. q \<noteq> numbered p j) \<Longrightarrow> files w2 q = files w1 q" by blast
  have p: "files w2 p = Some t" using other [of p] w1(2) assms(2) by simp
  show ?thesis
    using w1 w2 num other p k
    by (auto simp: rotate_file_def andthen_def copy_file_def truncate_file_def)
qed

text \<open>C32. Rotating a log pushes its contents on a queue of at most keep_files former contents and
  empties it: the oldest is dropped, the others move up by one, gaps included, and no other file
  changes.\<close>

theorem rotation_is_a_queue:
  assumes "0 < k" "files w p = Some t"
  shows "\<exists>w'. rotate_file p k w = (Inr (), w') \<and> files w' p = Some []
    \<and> backups w' p k = Some t # butlast (backups w p k)
    \<and> (\<forall>q. q \<noteq> p \<longrightarrow> (\<forall>j \<in> {1..k}. q \<noteq> numbered p j) \<longrightarrow> files w' q = files w q)"
proof -
  from rotate_file_run [OF assms] obtain w' where w': "rotate_file p k w = (Inr (), w')" "files w' p = Some []"
    and num: "\<And>j. files w' (numbered p j) = (if j = 0 \<or> k < j then files w (numbered p j)
          else if j = 1 then Some t else files w (numbered p (j - 1)))"
    and other: "\<And>q. q \<noteq> p \<Longrightarrow> (\<And>j. q \<noteq> numbered p j) \<Longrightarrow> files w' q = files w q" by blast
  have "backups w' p k = Some t # butlast (backups w p k)"
  proof (rule nth_equalityI)
    show "length (backups w' p k) = length (Some t # butlast (backups w p k))" using assms(1) by (simp add: backups_def)
    show "backups w' p k ! i = (Some t # butlast (backups w p k)) ! i" if "i < length (backups w' p k)" for i
      using that num [of "Suc i"] by (cases i) (auto simp: backups_def nth_butlast)
  qed
  moreover have "files w' q = files w q" if "q \<noteq> p" "\<forall>j \<in> {1..k}. q \<noteq> numbered p j" for q
  proof (cases "\<exists>j. q = numbered p j")
    case True
    then obtain j where "q = numbered p j" by blast
    with that(2) num [of j] show ?thesis by (auto simp: Suc_le_eq)
  qed (use other that(1) in auto)
  ultimately show ?thesis using w' by blast
qed

section \<open>Which logs are rotated\<close>

lemma split_on_last:
  "c \<notin> set s \<Longrightarrow> split_on c a \<noteq> [] \<and> split_on c (a @ s) = butlast (split_on c a) @ [last (split_on c a) @ s]"
proof (induction a)
  case Nil
  then have "split_on c s = [s]" by (induction s) auto
  then show ?case by simp
next
  case (Cons x a)
  then obtain p ps where "split_on c a = p # ps" by (cases "split_on c a") auto
  with Cons show ?case by (cases ps) auto
qed

lemma path_join_eq [simp]: "path_join d a = path_join d b \<longleftrightarrow> a = b"
  by (simp add: path_join_def)

lemma base_name_numbered: "base_name (numbered n j) = numbered (base_name n) j"
proof -
  have "CHR ''/'' \<notin> set (CHR ''.'' # show_nat j)"
    using show_nat_ascii [of "CHR ''/''" j] by (auto simp: is_ascii_digit_def code_def)
  then show ?thesis using split_on_last by (simp add: base_name_def numbered_def)
qed

lemma rotated_numbered: "rotated_name (numbered n j)"
proof -
  have d: "\<forall>x \<in> set (show_nat j). is_ascii_digit x" using show_nat_ascii by blast
  then have "is_ascii_digit (last (show_nat j))" by simp
  then have "last (numbered n j) \<noteq> LF" by (auto simp: numbered_def is_ascii_digit_def)
  then have r: "re_dollar (numbered n j) = n @ CHR ''.'' # show_nat j" by (simp add: re_dollar_def numbered_def)
  have dot: "\<not> is_ascii_digit CHR ''.''" by code_simp
  have "takeWhile is_ascii_digit (rev (show_nat j) @ CHR ''.'' # rev n) = rev (show_nat j)"
    "dropWhile is_ascii_digit (rev (show_nat j) @ CHR ''.'' # rev n) = CHR ''.'' # rev n"
    using d dot by (subst takeWhile_append2 dropWhile_append2, auto)+
  then show ?thesis by (simp add: rotated_name_def r Let_def)
qed

lemma numbered_inj: "numbered p i = numbered q j \<Longrightarrow> p = q"
proof -
  assume e: "numbered p i = numbered q j"
  have dot: "\<not> is_ascii_digit CHR ''.''" by code_simp
  have "dropWhile is_ascii_digit (rev (numbered p i)) = CHR ''.'' # rev p" for p i
    using dot by (simp add: numbered_def) (subst dropWhile_append2, auto dest: show_nat_ascii)
  with e show "p = q" by (metis list.inject rev_rev_ident)
qed

lemma numbered_join: "numbered (path_join d n) j = path_join d (numbered n j)"
  by (simp add: numbered_def path_join_def)

definition is_log :: "string \<Rightarrow> bool" where
  "is_log n = (\<not> rotated_name (base_name n))"

lemma log_not_numbered: "is_log m \<Longrightarrow> path_join d m \<noteq> numbered (path_join d n) j"
  using rotated_numbered by (auto simp: is_log_def numbered_join base_name_numbered)

definition since_of :: "rotation_state \<Rightarrow> int \<Rightarrow> string \<Rightarrow> int" where
  "since_of st now n = (case map_of st n of None \<Rightarrow> now | Some t \<Rightarrow> t)"

definition rotates :: "app_config \<Rightarrow> bool \<Rightarrow> int \<Rightarrow> rotation_state \<Rightarrow> world \<Rightarrow> string \<Rightarrow> bool" where
  "rotates c force now st w n = (let p = path_join (log_dir_of c) n in
     files w p \<noteq> None \<and> is_log n \<and> log_due (log_rotation (app_system c)) force now (since_of st now n) (file_size p w))"

lemma rotates_cong:
  "files w' (path_join (log_dir_of c) m) = files w (path_join (log_dir_of c) m) \<Longrightarrow> since_of st' now m = since_of st now m \<Longrightarrow>
   rotates c force now st' w' m = rotates c force now st w m"
  by (simp add: rotates_def file_size_def Let_def)

lemma rotates_log: "rotates c force now st w m \<Longrightarrow> is_log m"
  by (simp add: rotates_def Let_def)

text \<open>What a pass over the logs leaves: the due ones rotated, every other file as it was.\<close>

definition rotated_pass :: "app_config \<Rightarrow> (string \<Rightarrow> bool) \<Rightarrow> world \<Rightarrow> world \<Rightarrow> bool" where
  "rotated_pass c due w w' = (
     (\<forall>m. due m \<longrightarrow> files w' (path_join (log_dir_of c) m) = Some []
        \<and> files w' (numbered (path_join (log_dir_of c) m) 1) = files w (path_join (log_dir_of c) m))
     \<and> (\<forall>q. (\<forall>m. due m \<longrightarrow> q \<noteq> path_join (log_dir_of c) m \<and> (\<forall>j. q \<noteq> numbered (path_join (log_dir_of c) m) j)) \<longrightarrow>
          files w' q = files w q))"

lemma rotated_pass_step:
  assumes "is_log n" "\<And>m. due m \<Longrightarrow> is_log m \<and> m \<noteq> n"
    and "files w1 (path_join (log_dir_of c) n) = Some []"
    and "files w1 (numbered (path_join (log_dir_of c) n) 1) = files w (path_join (log_dir_of c) n)"
    and "\<And>q. q \<noteq> path_join (log_dir_of c) n \<Longrightarrow> (\<And>j. q \<noteq> numbered (path_join (log_dir_of c) n) j) \<Longrightarrow> files w1 q = files w q"
    and "rotated_pass c due w1 w'"
  shows "rotated_pass c (\<lambda>m. m = n \<or> due m) w w'"
proof -
  let ?p = "\<lambda>m. path_join (log_dir_of c) m"
  have due: "files w' (?p m) = Some []" "files w' (numbered (?p m) 1) = files w1 (?p m)" if "due m" for m
    using assms(6) that by (simp_all add: rotated_pass_def)
  have keep: "files w' q = files w1 q" if "\<forall>m. due m \<longrightarrow> q \<noteq> ?p m \<and> (\<forall>j. q \<noteq> numbered (?p m) j)" for q
    using assms(6) that by (simp add: rotated_pass_def)
  have n: "files w' (?p n) = files w1 (?p n)"
    by (rule keep) (use assms(1,2) log_not_numbered [OF assms(1)] in auto)
  have n1: "files w' (numbered (?p n) 1) = files w1 (numbered (?p n) 1)"
  proof (rule keep, intro allI impI conjI)
    fix m j assume "due m"
    then have m: "is_log m" "m \<noteq> n" using assms(2) by blast+
    show "numbered (?p n) 1 \<noteq> ?p m" using log_not_numbered [OF m(1)] by metis
    show "numbered (?p n) 1 \<noteq> numbered (?p m) j" using m(2) numbered_inj path_join_eq by metis
  qed
  have m: "files w1 (?p m) = files w (?p m)" if "due m" for m
    by (rule assms(5)) (use assms(2) [OF that] log_not_numbered [of m] in auto)
  have first: "files w' (?p m) = Some [] \<and> files w' (numbered (?p m) 1) = files w (?p m)" if "m = n \<or> due m" for m
  proof (cases "m = n")
    case True
    then show ?thesis using n n1 assms(3,4) by simp
  next
    case False
    with that have "due m" by simp
    then show ?thesis using due m by simp
  qed
  have second: "files w' q = files w q" if q: "\<And>m. m = n \<or> due m \<Longrightarrow> q \<noteq> ?p m \<and> (\<forall>j. q \<noteq> numbered (?p m) j)" for q
  proof -
    have "files w' q = files w1 q" by (rule keep) (use q in blast)
    also have "\<dots> = files w q" by (rule assms(5)) (use q in blast)+
    finally show ?thesis .
  qed
  show ?thesis unfolding rotated_pass_def using first second by blast
qed

lemma rotate_names_run:
  assumes "distinct ns" "1 \<le> lr_keep_files (log_rotation (app_system c))"
  shows "\<exists>st' w'. rotate_names c force now ns st w = (Inr (st', filter (rotates c force now st w) ns), w')
    \<and> rotated_pass c (\<lambda>m. m \<in> set ns \<and> rotates c force now st w m) w w'"
  using assms(1)
proof (induction ns arbitrary: st w)
  case Nil
  then show ?case by (simp add: ret_def rotated_pass_def)
next
  case (Cons n ns)
  let ?s = "log_rotation (app_system c)" and ?p = "\<lambda>m. path_join (log_dir_of c) m"
  let ?st1 = "if map_of st n = None then st @ [(n, now)] else st"
  let ?due = "\<lambda>m. m \<in> set ns \<and> rotates c force now st w m"
  have n: "n \<notin> set ns" "distinct ns" using Cons.prems by auto
  have same: "since_of ?st1 now m = since_of st now m" "since_of (AList.update n now ?st1) now m = since_of st now m"
    if "m \<in> set ns" for m
    using n(1) that by (auto simp: since_of_def update_conv' map_add_def split: option.split)
  consider (skip) "files w (?p n) = None \<or> rotated_name (base_name n)"
    | (early) "files w (?p n) \<noteq> None" "is_log n" "\<not> log_due ?s force now (since_of st now n) (file_size (?p n) w)"
    | (due) t where "files w (?p n) = Some t" "is_log n" "log_due ?s force now (since_of st now n) (file_size (?p n) w)"
    by (cases "files w (?p n)") (auto simp: is_log_def)
  then show ?case
  proof cases
    case skip
    then have no: "\<not> rotates c force now st w n" by (auto simp: rotates_def is_log_def Let_def)
    then have "(\<lambda>m. m \<in> set (n # ns) \<and> rotates c force now st w m) = ?due" by auto
    then show ?thesis using Cons.IH [OF n(2), of st w] skip no by simp
  next
    case early
    then have no: "\<not> rotates c force now st w n" by (simp add: rotates_def Let_def)
    then have d: "(\<lambda>m. m \<in> set (n # ns) \<and> rotates c force now st w m) = ?due" by auto
    have r: "rotates c force now ?st1 w m = rotates c force now st w m" if "m \<in> set ns" for m
      by (rule rotates_cong) (use same(1) [OF that] in simp_all)
    then have "filter (rotates c force now ?st1 w) ns = filter (rotates c force now st w) ns"
      "(\<lambda>m. m \<in> set ns \<and> rotates c force now ?st1 w m) = ?due" by (auto cong: filter_cong)
    moreover have "rotate_names c force now (n # ns) st w = rotate_names c force now ns ?st1 w"
      using early by (auto simp: Let_def is_log_def since_of_def simp del: map_of_append split: option.splits)
    ultimately show ?thesis using Cons.IH [OF n(2), of ?st1 w] no d by (simp del: rotate_names.simps)
  next
    case due
    have yes: "rotates c force now st w n" using due by (simp add: rotates_def Let_def)
    obtain w1 where w1: "rotate_file (?p n) (nat (lr_keep_files ?s)) w = (Inr (), w1)"
      and live: "files w1 (?p n) = Some []" and one: "files w1 (numbered (?p n) 1) = Some t"
      and other: "\<And>q. q \<noteq> ?p n \<Longrightarrow> (\<And>j. q \<noteq> numbered (?p n) j) \<Longrightarrow> files w1 q = files w q"
      using rotate_file_run [OF _ due(1), of "nat (lr_keep_files ?s)"] assms(2) by auto
    let ?st2 = "AList.update n now ?st1"
    have r: "rotates c force now ?st2 w1 m = rotates c force now st w m" if "m \<in> set ns" for m
    proof (cases "is_log m")
      case True
      have "files w1 (?p m) = files w (?p m)"
        by (rule other) (use n(1) that log_not_numbered [OF True] in auto)
      then show ?thesis by (rule rotates_cong) (use same(2) [OF that] in simp)
    qed (simp add: rotates_def Let_def)
    then have f: "filter (rotates c force now ?st2 w1) ns = filter (rotates c force now st w) ns"
      and g: "(\<lambda>m. m \<in> set ns \<and> rotates c force now ?st2 w1 m) = ?due" by (auto cong: filter_cong)
    obtain st' w' where rest: "rotate_names c force now ns ?st2 w1 = (Inr (st', filter (rotates c force now st w) ns), w')"
      and pass: "rotated_pass c ?due w1 w'"
      using Cons.IH [OF n(2), of ?st2 w1] f g by auto
    have "rotate_names c force now (n # ns) st w = (Inr (st', filter (rotates c force now st w) (n # ns)), w')"
      using due w1 rest yes by (simp add: Let_def is_log_def since_of_def andthen_def ret_def del: map_of_append)
    moreover have "rotated_pass c (\<lambda>m. m = n \<or> ?due m) w w'"
      by (rule rotated_pass_step [OF due(2) _ live _ other pass]) (use n(1) one due(1) rotates_log in auto)
    moreover have "(\<lambda>m. m = n \<or> ?due m) = (\<lambda>m. m \<in> set (n # ns) \<and> rotates c force now st w m)" using yes by auto
    ultimately show ?thesis by auto
  qed
qed

lemma set_sort_paths [simp]: "set (sort_paths ns) = set ns"
proof -
  have "set (insert_path n ms) = insert n (set ms)" for n ms by (induction ms) auto
  then show ?thesis by (induction ns) (simp_all add: sort_paths_def)
qed

lemma distinct_sort_paths [simp]: "distinct ns \<Longrightarrow> distinct (sort_paths ns)"
proof (induction ns)
  case (Cons n ns)
  have "set (insert_path n ms) = insert n (set ms)" for n ms by (induction ms) auto
  then have "n \<notin> set ms \<Longrightarrow> distinct ms \<Longrightarrow> distinct (insert_path n ms)" for n ms by (induction ms) auto
  moreover have "n \<notin> set (sort_paths ns)" "distinct (sort_paths ns)" using Cons by simp_all
  ultimately show ?case by (simp add: sort_paths_def)
qed (simp add: sort_paths_def)

text \<open>A run of the rotation rotates exactly the logs that are due by their size or age, or, when
  forced, those that are not empty: each is emptied with its contents kept in the first backup,
  and no other file changes but the backups of these logs and the state file of the rotation.\<close>

theorem exactly_the_due_logs_are_rotated:
  assumes "distinct (ls w)" "1 \<le> lr_keep_files (log_rotation (app_system c))" "e_dir env w (log_dir_of c)"
    and "lr_enabled (log_rotation (app_system c)) \<or> force"
  shows "\<exists>rotated w'. rotate_logs ls env c force w = (Inr rotated, w')
    \<and> (\<forall>m. m \<in> set rotated \<longleftrightarrow> m \<in> set (ls w) \<and> rotates c force (int (e_now env w)) (load_rotation_state c w) w m)
    \<and> (\<exists>w1. rotated_pass c (\<lambda>m. m \<in> set rotated) w w1
        \<and> (\<forall>q. q \<noteq> rotation_state_path c \<longrightarrow> files w' q = files w1 q))"
proof -
  let ?now = "int (e_now env w)" and ?st = "load_rotation_state c w" and ?ns = "sort_paths (ls w)"
  let ?rot = "filter (rotates c force ?now ?st w) ?ns"
  obtain st' w1 where run: "rotate_names c force ?now ?ns ?st w = (Inr (st', ?rot), w1)"
    and pass: "rotated_pass c (\<lambda>m. m \<in> set ?ns \<and> rotates c force ?now ?st w m) w w1"
    using rotate_names_run [of ?ns c force ?now ?st w] assms(1,2) by auto
  have g: "\<not> (\<not> lr_enabled (log_rotation (app_system c)) \<and> \<not> force \<or> \<not> e_dir env w (log_dir_of c))" using assms(3,4) by blast
  let ?kept = "filter (\<lambda>(n, _). files w1 (path_join (log_dir_of c) n) \<noteq> None) st'"
  have "rotate_logs ls env c force w = (Inr ?rot, snd (save_rotation_state c ?kept w1))"
    unfolding rotate_logs_def if_not_P [OF g] using run by (simp add: andthen_def current_def ret_def save_rotation_state_def)
  moreover have "files (snd (save_rotation_state c ?kept w1)) q = files w1 q" if "q \<noteq> rotation_state_path c" for q
    using that by (simp add: save_rotation_state_def)
  moreover have "rotated_pass c (\<lambda>m. m \<in> set ?rot) w w1" using pass by (simp add: conj_commute)
  ultimately show ?thesis by (intro exI [of _ ?rot]) auto
qed

section \<open>Names and limits\<close>

text \<open>A name shown stays below the log directory: its parts are plain names.\<close>

theorem tail_stays_in_the_log_directory:
  assumes "tail_path c name = Some p"
  shows "\<exists>parts. p = foldl path_join (log_dir_of c) parts \<and> (\<forall>x \<in> set parts. x \<noteq> ''..'' \<and> x \<noteq> [] \<and> CHR ''/'' \<notin> set x)"
proof -
  have "CHR ''/'' \<notin> set x" if "x \<in> set (split_on CHR ''/'' s)" for x s
    using that by (induction s arbitrary: x) (auto split: list.splits if_splits)
  then have "\<forall>x \<in> set (name_parts name). x \<noteq> ''..'' \<and> x \<noteq> [] \<and> CHR ''/'' \<notin> set x"
    and "p = foldl path_join (log_dir_of c) (name_parts name)"
    using assms by (auto simp: tail_path_def name_parts_def split: if_splits)
  then show ?thesis by blast
qed

text \<open>The stamps do move once a log has been polled at 200 sizes: the oldest marker is dropped, and
  the lines it stood for are shown with the time of the next.\<close>

theorem old_stamps_move:
  assumes "length ms = max_markers" "off \<le> fst (ms ! 0)" "off \<le> fst (ms ! 1)" "fst (last ms) < n"
  shows "stamp_of ms off = snd (ms ! 0) \<and> stamp_of (record_marker now n ms) off = snd (ms ! 1)"
proof -
  obtain a b rest where ms: "ms = a # b # rest"
    using assms(1) by (cases ms; cases "tl ms") (auto simp: max_markers_def)
  then have "record_marker now n ms = b # rest @ [(n, now)]"
    using assms(1,4) by (auto simp: record_marker_def Let_def)
  then show ?thesis using assms(2,3) ms by (simp add: stamp_of_def)
qed

text \<open>After \<open>keep_files\<close> was lowered, backups with higher numbers are never removed.\<close>

theorem smaller_keep_leaves_old_backups:
  assumes "0 < k" "files w p = Some t" "k < j"
  shows "files (snd (rotate_file p k w)) (numbered p j) = files w (numbered p j)"
  using rotate_file_run [OF assms(1,2)] assms(3) by auto

section \<open>Witnesses\<close>

lemma stamps_are_stable_witness:
  "prefix (stamp_lines [CHR ''a'', LF] 9 (record_marker ''t1'' 2 []))
     (stamp_lines [CHR ''a'', LF, CHR ''b'', LF] 9 (poll_all [(''t2'', 4)] (record_marker ''t1'' 2 [])))"
proof -
  have "utf8_size [CHR ''a'', LF] = 2" "int (length (splitlines_keep [CHR ''a'', LF, CHR ''b'', LF])) \<le> 9"
    "length (record_marker ''t1'' 2 []) = 1" by code_simp+
  then show ?thesis
    using stamps_are_stable [of "[CHR ''a'', LF]" "record_marker ''t1'' 2 []" "''t1''" "[]" "[(''t2'', 4)]" "[CHR ''b'', LF]" 9]
    by (simp add: max_markers_def)
qed

definition log_world :: world where
  "log_world = sample_world\<lparr>files := [''/var/log/korserver/a.log'' \<mapsto> ''x'', ''/var/log/korserver/a.log.1'' \<mapsto> ''y'']\<rparr>"

lemma rotation_is_a_queue_witness:
  "\<exists>w'. rotate_file ''/var/log/korserver/a.log'' 2 log_world = (Inr (), w')
    \<and> files w' ''/var/log/korserver/a.log'' = Some []
    \<and> backups w' ''/var/log/korserver/a.log'' 2 = [Some ''x'', Some ''y'']"
proof -
  have "numbered ''/var/log/korserver/a.log'' 1 = ''/var/log/korserver/a.log.1''" by code_simp
  then have "butlast (backups log_world ''/var/log/korserver/a.log'' 2) = [Some ''y'']"
    by (simp add: backups_def log_world_def upt_rec numeral_2_eq_2)
  then show ?thesis
    using rotation_is_a_queue [of 2 log_world "''/var/log/korserver/a.log''" "''x''"] by (auto simp: log_world_def)
qed

lemma exactly_the_due_logs_are_rotated_witness:
  "\<exists>rotated w'. rotate_logs (\<lambda>_. [''a.log'', ''a.log.1'']) (sample_env\<lparr>e_dir := (\<lambda>_ _. True)\<rparr>) sample_app True log_world
      = (Inr rotated, w') \<and> set rotated = {''a.log''}"
proof -
  let ?env = "sample_env\<lparr>e_dir := (\<lambda>_ _. True)\<rparr>" and ?ls = "\<lambda>_ :: world. [''a.log'', ''a.log.1'']"
  let ?r = "rotates sample_app True (int (e_now ?env log_world)) (load_rotation_state sample_app log_world) log_world"
  have k: "1 \<le> lr_keep_files (log_rotation (app_system sample_app))" and d: "log_dir_of sample_app = ''/var/log/korserver''" by code_simp+
  have "rotated_name (base_name ''a.log.1'')" "\<not> rotated_name (base_name ''a.log'')" by code_simp+
  then have r: "?r ''a.log''" "\<not> ?r ''a.log.1''"
    by (simp_all add: rotates_def is_log_def d log_world_def path_join_def log_due_def file_size_def Let_def)
  obtain rotated w' where run: "rotate_logs ?ls ?env sample_app True log_world = (Inr rotated, w')"
    and in_iff: "\<And>m. m \<in> set rotated \<longleftrightarrow> m \<in> set (?ls log_world) \<and> ?r m"
    using exactly_the_due_logs_are_rotated [of ?ls log_world sample_app ?env True] k by auto
  have "set rotated = {''a.log''}" using in_iff r by auto
  with run show ?thesis by blast
qed

end
