(* ===== verification/Config_Editor.thy ===== *)
theory Config_Editor
  imports Env_Loader Server_Service Cert_Pin
begin

text \<open>
  \<open>api/routes_config.py\<close> and the editing routes of \<open>api/routes_upstream.py\<close>: the panel changes the
  configuration file by merging a patch or by saving an edited text, validates the result the
  way a start would, writes it, loads it again and writes the rendered files. Texts shown have
  their secrets masked; saving puts the stored values back. The YAML parser and printer and the
  validation of a document are parameters (third-party libraries), as in \<open>Env_Loader\<close>.
\<close>

section \<open>The panel's configuration\<close>

text \<open>\<open>request.app.state\<close>: the loaded configuration, next to the world.\<close>

record panel_config =
  pc_world :: world
  pc_config :: app_config

record editor =
  ed_loader :: loader
  ed_dump :: "json \<Rightarrow> string"
  ed_environ :: "(string \<times> string) list"
  ed_path :: string
  ed_templates :: templates
  ed_profile :: "(string \<times> json) list \<Rightarrow> upstream_profile result"

definition on_world :: "(world, 'a) action \<Rightarrow> (panel_config, 'a) action" where
  "on_world m = (\<lambda>s. case m (pc_world s) of (r, w) \<Rightarrow> (r, s\<lparr>pc_world := w\<rparr>))"

definition set_config :: "app_config \<Rightarrow> (panel_config, unit) action" where
  "set_config c = (\<lambda>s. (Inr (), s\<lparr>pc_config := c\<rparr>))"

definition parse_yaml_mapping :: "editor \<Rightarrow> string \<Rightarrow> (string \<times> json) list result" where
  "parse_yaml_mapping ed content = res_bind (ld_yaml (ed_loader ed) content) (\<lambda>j.
     case j of JNull \<Rightarrow> Inr [] | JDict kvs \<Rightarrow> Inr kvs | _ \<Rightarrow> Inl ValueError)"

definition load_existing_mapping :: "editor \<Rightarrow> world \<Rightarrow> (string \<times> json) list result" where
  "load_existing_mapping ed w = (case files w (ed_path ed) of None \<Rightarrow> Inr []
     | Some t \<Rightarrow> parse_yaml_mapping ed (read_text t))"

definition validate_yaml_config :: "editor \<Rightarrow> (string \<times> json) list \<Rightarrow> world \<Rightarrow> app_config result" where
  "validate_yaml_config ed data w =
     (let ld = ed_loader ed; environment = combined_environment (ld_cwd ld) (Some (ed_path ed)) None (ed_environ ed) w in
      res_bind (env_overrides (ld_json ld) environment) (\<lambda>overrides.
      res_bind (resolve_secret_refs (map_of environment)
        (JDict (deep_merge (deep_merge (ld_defaults ld) data) overrides))) (ld_validate ld)))"

text \<open>Writing the file, loading it again and rendering: the end of every change.\<close>

definition store_config :: "editor \<Rightarrow> env \<Rightarrow> (string \<times> json) list \<Rightarrow> bool
    \<Rightarrow> (panel_config, app_config \<times> string list) action" where
  "store_config ed env data rendering =
     andthen (on_world (atomic_write_text (ed_path ed) (ed_dump ed (JDict data)) 384)) (\<lambda>_.
     andthen (on_world current) (\<lambda>w.
     andthen (lift_result (load_config (ed_loader ed) (Some (ed_path ed)) None [] (ed_environ ed) w)) (\<lambda>c.
     andthen (set_config c) (\<lambda>_.
     andthen (if rendering then on_world (write_rendered_files env (ed_templates ed) c) else ret []) (\<lambda>written.
     ret (c, written))))))"

definition apply_config_patch :: "editor \<Rightarrow> env \<Rightarrow> (string \<times> json) list \<Rightarrow> bool
    \<Rightarrow> (panel_config, app_config \<times> string list) action" where
  "apply_config_patch ed env patch rendering =
     andthen (on_world current) (\<lambda>w.
     andthen (lift_result (load_existing_mapping ed w)) (\<lambda>old.
     let merged = deep_merge old patch in
     andthen (lift_result (validate_yaml_config ed merged w)) (\<lambda>_.
     store_config ed env merged rendering)))"

section \<open>The source editor\<close>

definition masked_ref :: string where
  "masked_ref = ref_open @ stars @ ''}''"

text \<open>\<open>_restore_masked_values\<close>; a missing old value is null.\<close>

fun restore_masked_values :: "json \<Rightarrow> json \<Rightarrow> string option \<Rightarrow> json"
  and restore_items :: "json list \<Rightarrow> json list \<Rightarrow> string option \<Rightarrow> json list"
  and restore_members :: "(string \<times> json) list \<Rightarrow> (string \<times> json) list \<Rightarrow> (string \<times> json) list" where
  "restore_masked_values (JStr s) old key =
     (if (case key of None \<Rightarrow> False | Some k \<Rightarrow> is_secret_key k) \<and> s \<in> {stars, masked_ref} then old
      else if s = masked_ref \<and> is_str old then old else JStr s)"
| "restore_masked_values (JDict kvs) old key = JDict (restore_members kvs (entries old))"
| "restore_masked_values (JList xs) old key = JList (restore_items xs (items_of old) key)"
| "restore_masked_values v old key = v"
| "restore_items [] olds key = []"
| "restore_items (x # xs) olds key =
     restore_masked_values x (case olds of [] \<Rightarrow> JNull | y # _ \<Rightarrow> y) key # restore_items xs (tl olds) key"
| "restore_members [] old = []"
| "restore_members ((k, v) # kvs) old =
     (k, restore_masked_values v (case map_of old k of None \<Rightarrow> JNull | Some j \<Rightarrow> j) (Some k)) # restore_members kvs old"

definition restored_source :: "editor \<Rightarrow> string \<Rightarrow> world \<Rightarrow> (string \<times> json) list result" where
  "restored_source ed content w =
     res_bind (parse_yaml_mapping ed content) (\<lambda>data.
     res_bind (load_existing_mapping ed w) (\<lambda>old.
     Inr (restore_members data old)))"

definition validate_config_source :: "editor \<Rightarrow> string \<Rightarrow> (panel_config, app_config) action" where
  "validate_config_source ed content =
     andthen (on_world current) (\<lambda>w.
     lift_result (res_bind (restored_source ed content w) (\<lambda>d. validate_yaml_config ed d w)))"

definition save_config_source :: "editor \<Rightarrow> env \<Rightarrow> string \<Rightarrow> bool
    \<Rightarrow> (panel_config, app_config \<times> string list) action" where
  "save_config_source ed env content rendering =
     andthen (on_world current) (\<lambda>w.
     andthen (lift_result (restored_source ed content w)) (\<lambda>d.
     andthen (lift_result (validate_yaml_config ed d w)) (\<lambda>_.
     store_config ed env d rendering)))"

text \<open>\<open>_masked_yaml\<close>: the text of the file as it is shown after a save.\<close>

definition masked_yaml :: "editor \<Rightarrow> string list \<Rightarrow> string \<Rightarrow> string" where
  "masked_yaml ed secrets content = (case ld_yaml (ed_loader ed) content of
     Inr (JDict kvs) \<Rightarrow> ed_dump ed (redact_value (JDict kvs) None)
   | _ \<Rightarrow> mask_text content secrets)"

definition save_general_settings :: "editor \<Rightarrow> env \<Rightarrow> string \<Rightarrow> string \<Rightarrow> string \<Rightarrow> bool
    \<Rightarrow> (panel_config, app_config \<times> string list) action" where
  "save_general_settings ed env tz level project cli =
     apply_config_patch ed env
       [(''system'', JDict [(''timezone'', JStr tz), (''log_level'', JStr level), (''project_name'', JStr project)]),
        (''cli'', JDict [(''enabled'', JBool cli)])] True"

section \<open>Upstream profiles\<close>

definition str_json :: "string option \<Rightarrow> json" where
  "str_json v = (case v of None \<Rightarrow> JNull | Some s \<Rightarrow> JStr s)"

fun auth_name :: "auth_type \<Rightarrow> string" where
  "auth_name Password_auth = ''password''"
| "auth_name Cert_auth = ''cert''"
| "auth_name P12_auth = ''p12''"

text \<open>\<open>model_dump(mode='json')\<close> of a profile, in the order of its fields.\<close>

definition profile_dump :: "upstream_profile \<Rightarrow> (string \<times> json) list" where
  "profile_dump p =
     [(''name'', JStr (p_name p)), (''server'', JStr (p_server p)), (''port'', JStr (p_port p)),
      (''enabled'', JBool (p_enabled p)), (''interface'', str_json (p_interface p)),
      (''auth_type'', JStr (auth_name (p_auth_type p))), (''trusted_cert'', JBool (trusted_cert p)),
      (''username'', str_json (p_username p)), (''password'', str_json (p_password p)),
      (''cert_file'', str_json (cert_file p)), (''cert_file_base64'', str_json (cert_file_base64 p)),
      (''key_file'', str_json (key_file p)), (''key_file_base64'', str_json (key_file_base64 p)),
      (''cert_pass'', str_json (cert_pass p)), (''server_cert_pin'', str_json (server_cert_pin p)),
      (''check_host'', str_json (check_host p)), (''camouflage_secret'', str_json (camouflage_secret p)),
      (''route_clients_enabled'', JBool (route_clients_enabled p)), (''routes'', JList (map JStr (p_routes p))),
      (''domains'', JList (map JStr (p_domains p))), (''route_host_enabled'', JBool (route_host_enabled p)),
      (''host_routes'', JList (map JStr (p_host_routes p))), (''host_domains'', JList (map JStr (p_host_domains p))),
      (''accept_server_routes'', JBool (accept_server_routes p)), (''sync_url'', str_json (sync_url p)),
      (''sync_interval'', JInt (sync_interval p)), (''sync_verify_tls'', JBool (sync_verify_tls p)),
      (''routing_offset'', case routing_offset p of None \<Rightarrow> JNull | Some n \<Rightarrow> JInt n)]"

definition always_masked :: "string list" where
  "always_masked = [''cert_file_base64'', ''key_file_base64'']"

definition safe_profile_dump :: "upstream_profile \<Rightarrow> (string \<times> json) list" where
  "safe_profile_dump p = map (\<lambda>(k, v).
     (k, if v \<in> {JNull, JStr [], JBool False, JInt 0} then v
         else if k \<in> set always_masked \<or> is_secret_key k then JStr stars else v)) (profile_dump p)"

text \<open>A request: the fields of the form as validated, those the client sent, and the global switch.\<close>

record profile_request =
  pr_fields :: "(string \<times> json) list"
  pr_set :: "string list"
  pr_enable :: bool

definition existing_profile :: "app_config \<Rightarrow> string \<Rightarrow> upstream_profile option" where
  "existing_profile c n = find (\<lambda>p. p_name p = n) (profiles (app_upstream c))"

definition preserve_unset_secret :: "string \<Rightarrow> string option \<Rightarrow> (string \<times> json) list \<Rightarrow> (string \<times> json) list" where
  "preserve_unset_secret field value data =
     (if map_of data field = None \<and> is_set value then AList.update field (JStr (the value)) data else data)"

definition preserve_unset_file_field :: "string \<Rightarrow> string \<Rightarrow> string option \<Rightarrow> string option
    \<Rightarrow> (string \<times> json) list \<Rightarrow> (string \<times> json) list" where
  "preserve_unset_file_field path_field base64_field path base64 data =
     (if map_of data path_field \<noteq> None \<or> map_of data base64_field \<noteq> None then data
      else case path of Some p \<Rightarrow> AList.update path_field (JStr p) data
        | None \<Rightarrow> if is_set base64 then AList.update base64_field (JStr (the base64)) data else data)"

definition preserve_unsent :: "string list \<Rightarrow> string \<Rightarrow> json \<Rightarrow> (string \<times> json) list \<Rightarrow> (string \<times> json) list" where
  "preserve_unsent sent field value data =
     (if field \<notin> set sent \<and> value \<noteq> JNull then AList.update field value data else data)"

definition preserved_fields :: "profile_request \<Rightarrow> upstream_profile \<Rightarrow> (string \<times> json) list \<Rightarrow> (string \<times> json) list" where
  "preserved_fields r e data =
     preserve_unsent (pr_set r) ''routing_offset'' (case routing_offset e of None \<Rightarrow> JNull | Some n \<Rightarrow> JInt n)
     (preserve_unsent (pr_set r) ''interface'' (str_json (p_interface e))
     (preserve_unset_file_field ''key_file'' ''key_file_base64'' (key_file e) (key_file_base64 e)
     (preserve_unset_file_field ''cert_file'' ''cert_file_base64'' (cert_file e) (cert_file_base64 e)
     (preserve_unset_secret ''camouflage_secret'' (camouflage_secret e)
     (preserve_unset_secret ''cert_pass'' (cert_pass e)
     (preserve_unset_secret ''password'' (p_password e) data))))))"

definition request_data :: "app_config \<Rightarrow> profile_request \<Rightarrow> string \<Rightarrow> (string \<times> json) list" where
  "request_data c r n = (let data = filter (\<lambda>(_, v). v \<noteq> JNull) (pr_fields r) in
     case existing_profile c n of None \<Rightarrow> data | Some e \<Rightarrow> preserved_fields r e data)"

definition saved_profiles :: "app_config \<Rightarrow> string \<Rightarrow> upstream_profile \<Rightarrow> upstream_profile list" where
  "saved_profiles c n p = map (\<lambda>q. if p_name q = p_name p then p else q) (profiles (app_upstream c))
     @ (if existing_profile c n = None then [p] else [])"

definition profiles_json :: "upstream_profile list \<Rightarrow> json" where
  "profiles_json ps = JList (map (\<lambda>p. JDict (profile_dump p)) ps)"

definition request_name :: "profile_request \<Rightarrow> string" where
  "request_name r = (case map_of (pr_fields r) ''name'' of Some (JStr n) \<Rightarrow> n | _ \<Rightarrow> [])"

definition save_profile :: "editor \<Rightarrow> env \<Rightarrow> profile_request \<Rightarrow> (panel_config, app_config \<times> string list) action" where
  "save_profile ed env r = (\<lambda>s. let c = pc_config s; n = request_name r in
     andthen (lift_result (ed_profile ed (request_data c r n))) (\<lambda>p.
     apply_config_patch ed env [(''upstream'', JDict ([(''profiles'', profiles_json (saved_profiles c n p)),
         (''enabled'', JBool (pr_enable r))]
       @ (if active_profile (app_upstream c) = None then [(''active_profile'', JStr (p_name p))] else [])))] True) s)"

definition enabled_json :: "bool \<Rightarrow> upstream_profile \<Rightarrow> json" where
  "enabled_json b p = JDict (AList.update ''enabled'' (JBool b) (profile_dump p))"

definition set_profile_enabled :: "editor \<Rightarrow> env \<Rightarrow> string \<Rightarrow> bool \<Rightarrow> (panel_config, app_config \<times> string list) action" where
  "set_profile_enabled ed env name b = (\<lambda>s. let ps = profiles (app_upstream (pc_config s)) in
     if \<not> list_ex (\<lambda>p. p_name p = name) ps then throw (HttpError 404 (''unknown upstream profile: '' @ name)) s
     else apply_config_patch ed env [(''upstream'', JDict [(''profiles'',
       JList (map (\<lambda>p. if p_name p = name then enabled_json b p else JDict (profile_dump p)) ps))])] True s)"

definition remaining_profiles :: "app_config \<Rightarrow> string \<Rightarrow> upstream_profile list" where
  "remaining_profiles c name = filter (\<lambda>p. p_name p \<noteq> name) (profiles (app_upstream c))"

definition delete_patch :: "app_config \<Rightarrow> string \<Rightarrow> (string \<times> json) list" where
  "delete_patch c name = (let ps = remaining_profiles c name in
     (''profiles'', profiles_json ps) #
     (case ps of [] \<Rightarrow> [(''active_profile'', JNull), (''enabled'', JBool False)]
      | p # _ \<Rightarrow> if active_profile (app_upstream c) = Some name then [(''active_profile'', JStr (p_name p))] else []))"

definition delete_profile :: "editor \<Rightarrow> env \<Rightarrow> string \<Rightarrow> (panel_config, app_config \<times> string list) action" where
  "delete_profile ed env name = (\<lambda>s.
     apply_config_patch ed env [(''upstream'', JDict (delete_patch (pc_config s) name))] True s)"

record upstream_settings =
  us_enabled :: bool
  us_interface :: "string option"
  us_active :: "string option"
  us_check_interval :: "int option"
  us_check_threshold :: "int option"
  us_check_settle :: "int option"
  us_failover :: "bool option"
  us_connect_on_boot :: "bool option"

definition given :: "string \<Rightarrow> ('a \<Rightarrow> json) \<Rightarrow> 'a option \<Rightarrow> (string \<times> json) list" where
  "given k f v = (case v of None \<Rightarrow> [] | Some x \<Rightarrow> [(k, f x)])"

definition settings_patch :: "app_config \<Rightarrow> upstream_settings \<Rightarrow> (string \<times> json) list" where
  "settings_patch c r = [(''enabled'', JBool (us_enabled r))]
     @ given ''interface'' JStr (us_interface r)
     @ given ''active_profile'' JStr (case us_active r of Some a \<Rightarrow> Some a | None \<Rightarrow> active_profile (app_upstream c))
     @ given ''check_interval'' JInt (us_check_interval r) @ given ''check_threshold'' JInt (us_check_threshold r)
     @ given ''check_settle_seconds'' JInt (us_check_settle r) @ given ''failover'' JBool (us_failover r)
     @ given ''connect_on_boot'' JBool (us_connect_on_boot r)"

definition save_upstream_settings :: "editor \<Rightarrow> env \<Rightarrow> upstream_settings \<Rightarrow> (panel_config, app_config \<times> string list) action" where
  "save_upstream_settings ed env r = (\<lambda>s.
     apply_config_patch ed env [(''upstream'', JDict (settings_patch (pc_config s) r))] True s)"

text \<open>\<open>POST /fetch-pin\<close>: a connection error is an error of the request.\<close>

definition fetch_pin :: "env \<Rightarrow> string \<Rightarrow> string \<Rightarrow> world \<Rightarrow> certificate_pin result" where
  "fetch_pin env server port w = (case fetch_server_pin env (strip server) port w of
     Inl OSError \<Rightarrow> Inl ValueError | r \<Rightarrow> r)"

end
