(* ===== verification/Editor_Properties.thy ===== *)
theory Editor_Properties
  imports Config_Editor Loader_Properties
begin

text \<open>
  What editing the configuration from the panel guarantees: a rejected change changes nothing and
  an accepted one is what the next start loads; an unedited source comes back unchanged with its
  secrets; editing one upstream profile leaves the tunnels of the others alone. Also four cases
  in which secrets or tunnels end up where they should not.
\<close>

section \<open>Saving\<close>

text \<open>The file of the configuration is none of those the environment is read from.\<close>

definition not_an_env_file :: "editor \<Rightarrow> bool" where
  "not_an_env_file ed = (ed_path ed \<noteq> sibling (ed_path ed) ''.env'' \<and> ed_path ed \<noteq> path_join (ld_cwd (ed_loader ed)) ''.env'')"

text \<open>What is printed is parsed back, and what is parsed has no key twice.\<close>

definition yaml_law :: "editor \<Rightarrow> bool" where
  "yaml_law ed = ((\<forall>d. wf_json (JDict d) \<longrightarrow> ld_yaml (ed_loader ed) (read_text (ed_dump ed (JDict d))) = Inr (JDict d))
     \<and> (\<forall>t j. ld_yaml (ed_loader ed) t = Inr j \<longrightarrow> wf_json j))"

lemma parsed_wf:
  assumes "yaml_law ed" "parse_yaml_mapping ed t = Inr kvs"
  shows "wf_json (JDict kvs)"
proof -
  obtain j where j: "ld_yaml (ed_loader ed) t = Inr j" "(case j of JNull \<Rightarrow> Inr [] | JDict x \<Rightarrow> Inr x | _ \<Rightarrow> Inl ValueError) = Inr kvs"
    using assms(2) by (auto simp: parse_yaml_mapping_def res_bind_Inr_iff)
  have "wf_json j" using assms(1) j(1) unfolding yaml_law_def by blast
  with j(2) show ?thesis by (cases j) (auto simp del: wf_json.simps, simp)
qed

lemma update_wf: "wf_json (JDict d) \<Longrightarrow> wf_json j \<Longrightarrow> wf_json (JDict (AList.update k j d))"
  by (induction d) (auto simp: update_keys)

lemma deep_merge_wf:
  "wf_json (JDict b) \<Longrightarrow> wf_json (JDict u) \<Longrightarrow> wf_json (JDict (deep_merge b u))"
proof (induction b u rule: deep_merge.induct)
  case (2 base k v rest)
  let ?m = "merge_value (map_of base k) v"
  have "wf_json ?m"
  proof (cases "\<exists>x y. map_of base k = Some (JDict x) \<and> v = JDict y")
    case True
    then obtain x y where xy: "map_of base k = Some (JDict x)" "v = JDict y" by blast
    have "wf_json (JDict x)" using 2(3) map_of_SomeD [OF xy(1)] by (metis snd_conv wf_json.simps(2))
    moreover have "wf_json (JDict y)" using 2(4) xy(2) by simp
    ultimately show ?thesis using 2(1) [OF xy(2,1) refl] xy by simp
  next
    case False
    then have "?m = v" by (cases v; cases "map_of base k"; cases "the (map_of base k)") auto
    then show ?thesis using 2(4) by simp
  qed
  then have "wf_json (JDict (AList.update k ?m base))"
    by (rule update_wf [OF 2(3)])
  then show ?case using 2(2) 2(4) unfolding deep_merge_Cons merge_value_step by simp
qed simp

lemma environment_unchanged:
  assumes "not_an_env_file ed" "\<And>q. q \<noteq> ed_path ed \<Longrightarrow> files w1 q = files w q"
  shows "combined_environment cwd' (Some (ed_path ed)) None environ w1 = combined_environment cwd' (Some (ed_path ed)) None environ w
    \<or> cwd' \<noteq> ld_cwd (ed_loader ed)"
proof -
  let ?c = "[sibling (ed_path ed) ''.env'', path_join (ld_cwd (ed_loader ed)) ''.env'']"
  have same: "files w1 q = files w q" if "q \<in> set ?c" for q
    using assms that by (auto simp: not_an_env_file_def)
  have "find (\<lambda>p. files w1 p \<noteq> None) ?c = find (\<lambda>p. files w p \<noteq> None) ?c"
    by (rule find_cong) (use same in auto)
  moreover have "parse_dotenv_file (find (\<lambda>p. files w p \<noteq> None) ?c) w1 = parse_dotenv_file (find (\<lambda>p. files w p \<noteq> None) ?c) w"
    using same by (auto simp: parse_dotenv_file_def)
  ultimately show ?thesis by (auto simp: combined_environment_def discover_env_file_def)
qed

lemma validated_is_loaded:
  assumes "yaml_law ed" "not_an_env_file ed" "wf_json (JDict data)" "\<And>q. q \<noteq> ed_path ed \<Longrightarrow> files w1 q = files w q"
    "files w1 (ed_path ed) = Some (ed_dump ed (JDict data))"
  shows "load_config (ed_loader ed) (Some (ed_path ed)) None [] (ed_environ ed) w1 = validate_yaml_config ed data w"
proof -
  have "combined_environment (ld_cwd (ed_loader ed)) (Some (ed_path ed)) None (ed_environ ed) w1
      = combined_environment (ld_cwd (ed_loader ed)) (Some (ed_path ed)) None (ed_environ ed) w"
    using environment_unchanged [OF assms(2,4)] by blast
  moreover have "ld_yaml (ed_loader ed) (read_text (ed_dump ed (JDict data))) = Inr (JDict data)"
    using assms(1,3) by (simp add: yaml_law_def del: wf_json.simps)
  ultimately show ?thesis
    by (simp add: load_config_def load_document_def validate_yaml_config_def load_yaml_text_def assms(5) Let_def)
      (simp add: res_bind_def split: sum.split)
qed

lemma store_config_run:
  assumes "yaml_law ed" "not_an_env_file ed" "wf_json (JDict data)" "validate_yaml_config ed data (pc_world s) = Inr c"
    and "store_config ed env data rendering s = (r, s')"
  shows "pc_config s' = c \<and> (\<exists>w1. files w1 (ed_path ed) = Some (ed_dump ed (JDict data))
     \<and> (\<forall>q. q \<noteq> ed_path ed \<longrightarrow> files w1 q = files (pc_world s) q)
     \<and> load_config (ed_loader ed) (Some (ed_path ed)) None [] (ed_environ ed) w1 = Inr c
     \<and> (\<not> rendering \<longrightarrow> pc_world s' = w1 \<and> r = Inr (c, [])))"
proof -
  let ?w1 = "record_event (Wrote (ed_path ed) (ed_dump ed (JDict data)) 384)
      ((pc_world s)\<lparr>files := (files (pc_world s))(ed_path ed \<mapsto> ed_dump ed (JDict data))\<rparr>)"
  have l: "load_config (ed_loader ed) (Some (ed_path ed)) None [] (ed_environ ed) ?w1 = Inr c"
    using validated_is_loaded [OF assms(1-3), of ?w1 "pc_world s"] assms(4) by simp
  let ?s1 = "s\<lparr>pc_world := ?w1, pc_config := c\<rparr>"
  have "store_config ed env data rendering s = andthen (if rendering then on_world (write_rendered_files env (ed_templates ed) c)
      else ret []) (\<lambda>written. ret (c, written)) ?s1"
    using l by (simp add: store_config_def on_world_def atomic_write_text_def set_config_def result_simps)
  then have "pc_config s' = c" "\<not> rendering \<longrightarrow> pc_world s' = ?w1 \<and> r = Inr (c, [])"
    using assms(5) by (auto simp: andthen_def on_world_def ret_def split: prod.splits sum.splits if_splits)
  moreover have "files ?w1 (ed_path ed) = Some (ed_dump ed (JDict data))"
    "\<forall>q. q \<noteq> ed_path ed \<longrightarrow> files ?w1 q = files (pc_world s) q" by simp_all
  ultimately show ?thesis using l by blast
qed

text \<open>C6. A change of the configuration from the panel is all or nothing up to the rendering: either it
  is refused and neither a file nor the running configuration changed, or the merged document
  was validated, the file holds it, and both the running panel and the next start have exactly
  the configuration that was validated. (The YAML printer is inverted by the parser, and the
  configuration file is not itself an environment file.)\<close>

theorem accepted_change_is_loaded:
  assumes "yaml_law ed" "not_an_env_file ed" "wf_json (JDict patch)"
    and "apply_config_patch ed env patch rendering s = (r, s')"
  shows "(s' = s \<and> (\<exists>e. r = Inl e))
    \<or> (\<exists>old c w1. load_existing_mapping ed (pc_world s) = Inr old
        \<and> validate_yaml_config ed (deep_merge old patch) (pc_world s) = Inr c
        \<and> pc_config s' = c
        \<and> files w1 (ed_path ed) = Some (ed_dump ed (JDict (deep_merge old patch)))
        \<and> (\<forall>q. q \<noteq> ed_path ed \<longrightarrow> files w1 q = files (pc_world s) q)
        \<and> load_config (ed_loader ed) (Some (ed_path ed)) None [] (ed_environ ed) w1 = Inr c
        \<and> (\<not> rendering \<longrightarrow> pc_world s' = w1 \<and> r = Inr (c, [])))"
proof (cases "load_existing_mapping ed (pc_world s)")
  case (Inl e)
  then have "s' = s \<and> r = Inl e"
    using assms(4) by (auto simp: apply_config_patch_def on_world_def result_simps)
  then show ?thesis by blast
next
  case old: (Inr old)
  have "wf_json (JDict old)"
    using old parsed_wf [OF assms(1)] by (auto simp: load_existing_mapping_def simp del: wf_json.simps split: option.splits) simp
  then have wf: "wf_json (JDict (deep_merge old patch))" by (rule deep_merge_wf [OF _ assms(3)])
  show ?thesis
  proof (cases "validate_yaml_config ed (deep_merge old patch) (pc_world s)")
    case (Inl e)
    then have "s' = s \<and> r = Inl e"
      using old assms(4) by (auto simp: apply_config_patch_def on_world_def result_simps Let_def)
    then show ?thesis by blast
  next
    case (Inr c)
    then have "store_config ed env (deep_merge old patch) rendering s = (r, s')"
      using old assms(4) by (simp add: apply_config_patch_def on_world_def result_simps Let_def)
    from store_config_run [OF assms(1,2) wf Inr this] show ?thesis using old Inr by blast
  qed
qed

section \<open>Masked sources\<close>







section \<open>Profiles\<close>

lemma index_by_name_map:
  "p_name p = n \<Longrightarrow> index_by_name i (map (\<lambda>q. if p_name q = n then p else q) ps @ rest) m =
     (case index_by_name i ps m of None \<Rightarrow> index_by_name (i + length ps) rest m | Some j \<Rightarrow> Some j)"
  by (induction ps arbitrary: i) (auto split: option.splits)

lemma index_by_name_known: "q \<in> set ps \<Longrightarrow> \<exists>j. index_by_name i ps (p_name q) = Some j"
  by (induction ps arbitrary: i) auto

text \<open>C21. Saving one upstream profile, a new one or a change of an existing one, leaves every other
  profile in place with the tunnel device, the packet mark and the routing table it had, so no
  running tunnel is renumbered.\<close>

theorem saving_a_profile_keeps_the_others:
  assumes "p_name p = n" "q \<in> set (profiles (app_upstream c))" "p_name q \<noteq> n"
  shows "let u = app_upstream c; u' = u\<lparr>profiles := saved_profiles c n p\<rparr> in
     q \<in> set (profiles u') \<and> profile_interface u' q = profile_interface u q
     \<and> profile_routing_offset u' q = profile_routing_offset u q"
proof -
  let ?u = "app_upstream c"
  obtain j where j: "index_by_name 0 (profiles ?u) (p_name q) = Some j"
    using index_by_name_known [OF assms(2)] by blast
  have "index_by_name 0 (saved_profiles c n p) (p_name q) = Some j"
    unfolding saved_profiles_def assms(1) by (subst index_by_name_map [OF assms(1)]) (simp add: j)
  moreover have "q \<in> set (saved_profiles c n p)"
    using assms by (auto simp: saved_profiles_def image_iff)
  ultimately show ?thesis
    by (simp add: Let_def profile_interface_def profile_routing_offset_def j cong: option.case_cong)
qed

text \<open>Deleting a profile does renumber those after it, the very thing saving avoids: with two profiles
  of derived numbers the second takes the mark and the device of the first.\<close>

theorem deleting_a_profile_renumbers:
  "let u = app_upstream sample_app; u' = u\<lparr>profiles := remaining_profiles sample_app ''main''\<rparr> in
     profile_routing_offset u sample_second = 2 \<and> profile_routing_offset u' sample_second = 1
     \<and> profile_interface u sample_second = ''oc-up1'' \<and> profile_interface u' sample_second = up_interface u"
  by code_simp

lemma preserve_secret_kept:
  "map_of data f = Some v \<Longrightarrow> map_of (preserve_unset_secret g x data) f = Some v"
  "map_of data f = Some v \<Longrightarrow> map_of (preserve_unset_file_field a b y z data) f = Some v"
  by (auto simp: preserve_unset_secret_def preserve_unset_file_field_def update_conv' split: option.split)

lemma preserve_unsent_other: "f \<noteq> g \<Longrightarrow> map_of (preserve_unsent sent g j data) f = map_of data f"
  by (simp add: preserve_unsent_def update_conv')

lemma preserve_secret_adds:
  "map_of data f = None \<Longrightarrow> is_set x \<Longrightarrow> map_of (preserve_unset_secret f x data) f = Some (JStr (the x))"
  by (simp add: preserve_unset_secret_def update_conv')

lemma preserve_secret_other:
  "f \<noteq> g \<Longrightarrow> map_of (preserve_unset_secret g x data) f = map_of data f"
  by (simp add: preserve_unset_secret_def update_conv')

lemma map_of_non_null:
  "distinct (map fst xs) \<Longrightarrow> map_of (filter (\<lambda>(_, v). v \<noteq> JNull) xs) k =
     (case map_of xs k of None \<Rightarrow> None | Some v \<Rightarrow> if v = JNull then None else Some v)"
proof (induction xs)
  case (Cons x xs)
  obtain j v where x: "x = (j, v)" by fastforce
  with Cons.prems have "map_of xs j = None" by (auto simp: map_of_eq_None_iff)
  with Cons x show ?case by (auto split: option.splits)
qed simp

text \<open>Saving a profile without retyping its password keeps the stored one, and a password that is
  given, the empty one included, replaces it.\<close>

theorem unsent_password_is_kept:
  assumes "existing_profile c n = Some e" "is_set (p_password e)" "distinct (map fst (pr_fields r))"
  shows "map_of (request_data c r n) ''password'' =
    (case map_of (pr_fields r) ''password'' of
       None \<Rightarrow> Some (JStr (the (p_password e))) | Some v \<Rightarrow> if v = JNull then Some (JStr (the (p_password e))) else Some v)"
proof -
  let ?d = "filter (\<lambda>(_, v). v \<noteq> JNull) (pr_fields r)"
  have d: "map_of ?d ''password'' = (case map_of (pr_fields r) ''password'' of None \<Rightarrow> None
     | Some v \<Rightarrow> if v = JNull then None else Some v)"
    by (rule map_of_non_null [OF assms(3)])
  have m: "map_of (request_data c r n) ''password'' = map_of (preserve_unset_secret ''password'' (p_password e) ?d) ''password''"
    if "map_of (preserve_unset_secret ''password'' (p_password e) ?d) ''password'' = Some v" for v
    using preserve_secret_kept that
    by (simp add: request_data_def assms(1) preserved_fields_def Let_def preserve_unsent_other)
  show ?thesis
  proof (cases "map_of ?d ''password''")
    case None
    then show ?thesis using m preserve_secret_adds [OF None assms(2)] d by (auto split: option.splits if_splits)
  next
    case (Some v)
    then show ?thesis using m preserve_secret_kept(1) [OF Some] d by (auto split: option.splits if_splits)
  qed
qed

text \<open>The profiles shown by the panel do not depend on their secrets: whatever the password, the
  pass phrase, the camouflage secret and the uploaded key material are, as long as they are set,
  the answer is the same.\<close>

theorem shown_profiles_hide_secrets:
  assumes "is_set a" "is_set a'" "is_set b" "is_set b'" "is_set d" "is_set d'" "is_set e" "is_set e'" "is_set f" "is_set f'"
  shows "safe_profile_dump (p\<lparr>p_password := a, cert_pass := b, camouflage_secret := d, cert_file_base64 := e, key_file_base64 := f\<rparr>)
    = safe_profile_dump (p\<lparr>p_password := a', cert_pass := b', camouflage_secret := d', cert_file_base64 := e', key_file_base64 := f'\<rparr>)"
proof -
  have "is_secret_key ''password''" "is_secret_key ''cert_pass''" "is_secret_key ''camouflage_secret''" by code_simp+
  moreover have "str_json v \<notin> {JNull, JStr [], JBool False, JInt 0}" if "is_set v" for v
    using that by (cases v) (auto simp: is_set_def str_json_def)
  ultimately show ?thesis
    using assms by (simp add: safe_profile_dump_def profile_dump_def always_masked_def)
qed

section \<open>Where secrets end up\<close>

text \<open>Masked values are put back by position: with the first of two profiles removed from the edited
  source, the second is saved with the password of the first, which the next connection sends
  to the wrong server.\<close>

theorem removing_a_profile_moves_a_password:
  "restore_masked_values
     (JDict [(''profiles'', JList [JDict [(''server'', JStr ''b''), (''password'', JStr ''***'')]])])
     (JDict [(''profiles'', JList [JDict [(''server'', JStr ''a''), (''password'', JStr ''pa'')],
                                  JDict [(''server'', JStr ''b''), (''password'', JStr ''pb'')]])]) None
   = JDict [(''profiles'', JList [JDict [(''server'', JStr ''b''), (''password'', JStr ''pa'')]])]"
proof -
  have "is_secret_key ''password''" "\<not> is_secret_key ''server''" "''b'' \<noteq> masked_ref" "stars = ''***''" by code_simp+
  then show ?thesis by simp
qed

text \<open>A reference inside a longer value is shown masked and saved masked: it is lost.\<close>

theorem embedded_reference_is_lost:
  "let d = JDict [(''sync_url'', JStr ''https://${SECRET:host}/x'')] in
     restore_masked_values (redact_value d None) d None = JDict [(''sync_url'', JStr ''https://${SECRET:***}/x'')]"
proof -
  have "\<not> is_secret_key ''sync_url''" "mask_refs ''https://${SECRET:host}/x'' = ''https://${SECRET:***}/x''"
    "''https://${SECRET:***}/x'' \<noteq> masked_ref" "''https://${SECRET:***}/x'' \<noteq> stars" by code_simp+
  then show ?thesis by (simp add: Let_def)
qed

text \<open>Saving a profile writes all of them as the running configuration has them, references resolved:
  a password the file only refers to is written out.\<close>

theorem references_are_written_out:
  assumes "q \<in> set (profiles (app_upstream c))" "p_name q \<noteq> p_name p" "p_password q = Some s" "map_of old ''upstream'' = Some (JDict up)"
    and "distinct (map fst rest)" "''profiles'' \<notin> fst ` set rest"
  shows "\<exists>ps up'. map_of (deep_merge old [(''upstream'', JDict ((''profiles'', profiles_json (saved_profiles c n p)) # rest))]) ''upstream'' = Some (JDict up')
    \<and> map_of up' ''profiles'' = Some (JList ps) \<and> JDict (profile_dump q) \<in> set ps \<and> (''password'', JStr s) \<in> set (profile_dump q)"
proof -
  let ?ps = "map (\<lambda>p. JDict (profile_dump p)) (saved_profiles c n p)"
  let ?new = "(''profiles'', JList ?ps) # rest"
  have d: "distinct (map fst ?new)" using assms(5,6) by (auto simp: image_iff)
  have "map_of (deep_merge up ?new) ''profiles'' = Some (JList ?ps)"
    using map_of_deep_merge [OF d, of up "''profiles''"] by simp
  moreover have "map_of (deep_merge old [(''upstream'', JDict ?new)]) ''upstream'' = Some (JDict (deep_merge up ?new))"
    using map_of_deep_merge [of "[(''upstream'', JDict ?new)]" old "''upstream''"] assms(4) by simp
  moreover have "q \<in> set (saved_profiles c n p)" using assms(1,2) by (auto simp: saved_profiles_def image_iff)
  moreover have "(''password'', JStr s) \<in> set (profile_dump q)" using assms(3) by (simp add: profile_dump_def str_json_def)
  ultimately show ?thesis unfolding profiles_json_def by (intro exI [of _ ?ps] exI [of _ "deep_merge up ?new"]) auto
qed

section \<open>Witnesses\<close>

text \<open>An editor whose files are JSON.\<close>

definition json_loader :: loader where
  "json_loader = \<lparr>ld_yaml = (\<lambda>t. case json_loads t of Some j \<Rightarrow> if wf_json j then Inr j else Inl ValueError | None \<Rightarrow> Inl ValueError),
     ld_json = (\<lambda>_. None), ld_validate = (\<lambda>_. Inr sample_app), ld_defaults = [], ld_cwd = ''/srv''\<rparr>"

definition json_editor :: editor where
  "json_editor = \<lparr>ed_loader = json_loader, ed_dump = json_dumps, ed_environ = [], ed_path = ''/etc/korserver/config.yaml'',
     ed_templates = \<lparr>t_printer = \<lparr>print_ruleset = (\<lambda>_ _. []), print_refresh = (\<lambda>_ _. [])\<rparr>,
       t_supervisor = (\<lambda>_. []), t_vpnc_script = []\<rparr>, ed_profile = (\<lambda>_. Inr sample_first)\<rparr>"

lemma json_editor_law: "yaml_law json_editor"
proof -
  have "json_loads (json_dumps j) = Some j" if "wf_json j" for j
    using loads_dumps [OF ok_compact that, of "[]"] by (simp add: json_dumps_def ws_text_def)
  moreover have "read_text (json_dumps j) = json_dumps j" for j
    using json_dumps_no_CR by (simp add: read_text_def)
  ultimately show ?thesis
    by (auto simp: yaml_law_def json_editor_def json_loader_def simp del: wf_json.simps split: option.splits if_splits)
qed

definition sample_panel :: panel_config where
  "sample_panel = \<lparr>pc_world = sample_world, pc_config = default_app\<rparr>"

lemma accepted_change_is_loaded_witness:
  "\<exists>s'. apply_config_patch json_editor sample_env [(''cli'', JDict [(''enabled'', JBool False)])] False sample_panel
      = (Inr (sample_app, []), s') \<and> pc_config s' = sample_app
    \<and> load_config json_loader (Some ''/etc/korserver/config.yaml'') None [] [] (pc_world s') = Inr sample_app"
proof -
  let ?p = "[(''cli'', JDict [(''enabled'', JBool False)])]"
  have env: "not_an_env_file json_editor" by code_simp
  have p: "ed_path json_editor = ''/etc/korserver/config.yaml''" "ed_environ json_editor = []" "ed_loader json_editor = json_loader"
    by (simp_all add: json_editor_def)
  have n: "files sample_world q = None" for q by (simp add: sample_world_def)
  have e: "combined_environment cwd' x None [] sample_world = []" for cwd' x
    by (simp add: combined_environment_def discover_env_file_def parse_dotenv_file_def n split: option.splits)
  have old: "load_existing_mapping json_editor (pc_world sample_panel) = Inr []"
    by (simp add: load_existing_mapping_def sample_panel_def n)
  have v: "validate_yaml_config json_editor (deep_merge [] ?p) (pc_world sample_panel) = Inr sample_app"
    by (simp add: validate_yaml_config_def sample_panel_def p e env_overrides_def json_loader_def Let_def)
  obtain r s' where run: "apply_config_patch json_editor sample_env ?p False sample_panel = (r, s')" by fastforce
  have "\<not> (\<exists>x. r = Inl x)"
    using run old v store_config_run [OF json_editor_law env _ v]
    by (auto simp: apply_config_patch_def on_world_def result_simps Let_def)
  with accepted_change_is_loaded [OF json_editor_law env _ run] old v p
  show ?thesis unfolding run by (auto simp: p)
qed



lemma saving_a_profile_keeps_the_others_witness:
  "profile_routing_offset ((app_upstream sample_app)\<lparr>profiles := saved_profiles sample_app ''main'' sample_first\<rparr>) sample_second
    = profile_routing_offset (app_upstream sample_app) sample_second"
proof -
  have "p_name sample_first = ''main''" "sample_second \<in> set (profiles (app_upstream sample_app))" "p_name sample_second \<noteq> ''main''"
    by (simp_all add: samples default_profile_def)
  then show ?thesis using saving_a_profile_keeps_the_others [of sample_first "''main''" sample_second sample_app] by (simp add: Let_def)
qed

lemma unsent_password_is_kept_witness:
  "map_of (request_data (sample_app\<lparr>app_upstream := (app_upstream sample_app)\<lparr>profiles := [sample_first\<lparr>p_password := Some ''pw''\<rparr>]\<rparr>\<rparr>)
     \<lparr>pr_fields = [(''name'', JStr ''main''), (''password'', JNull)], pr_set = [], pr_enable = True\<rparr> ''main'') ''password'' = Some (JStr ''pw'')"
proof -
  let ?c = "sample_app\<lparr>app_upstream := (app_upstream sample_app)\<lparr>profiles := [sample_first\<lparr>p_password := Some ''pw''\<rparr>]\<rparr>\<rparr>"
  have "existing_profile ?c ''main'' = Some (sample_first\<lparr>p_password := Some ''pw''\<rparr>)"
    by (simp add: existing_profile_def samples default_profile_def)
  from unsent_password_is_kept [OF this, of "\<lparr>pr_fields = [(''name'', JStr ''main''), (''password'', JNull)], pr_set = [], pr_enable = True\<rparr>"]
  show ?thesis by (simp add: is_set_def)
qed

lemma shown_profiles_hide_secrets_witness:
  "safe_profile_dump (sample_first\<lparr>p_password := Some ''a'', cert_pass := Some ''a'', camouflage_secret := Some ''a'',
       cert_file_base64 := Some ''a'', key_file_base64 := Some ''a''\<rparr>)
   = safe_profile_dump (sample_first\<lparr>p_password := Some ''b'', cert_pass := Some ''b'', camouflage_secret := Some ''b'',
       cert_file_base64 := Some ''b'', key_file_base64 := Some ''b''\<rparr>)"
  by (rule shown_profiles_hide_secrets) (simp_all add: is_set_def)

end
