(* ===== verification/Session_Text.thy ===== *)
theory Session_Text
  imports Ip_Address Json_Text
begin

text \<open>
  The readers of \<open>services/sessions.py\<close>: \<open>occtl\<close> prints the connected clients as JSON, as a table, as
  blocks of labelled lines or as loose rows, depending on its version, with ages in as many
  notations. The regular expressions are written out as scanners. What they ask of the run time
  is an argument: the clock in seconds of the epoch and, for printed dates, of local time;
  \<open>int(float(text))\<close>, where \<open>None\<close> is a \<open>ValueError\<close> (an infinite number is outside the model);
  and \<open>str\<close> of a list or a dictionary.
\<close>

record session_record =
  sr_username :: string
  sr_vpn_ip :: "string option"
  sr_real_ip :: "string option"
  sr_device :: "string option"
  sr_rx :: "string option"
  sr_tx :: "string option"
  sr_rx_rate :: "string option"
  sr_tx_rate :: "string option"
  sr_duration :: "int option"

definition bare_session :: "string \<Rightarrow> session_record" where
  "bare_session u = \<lparr>sr_username = u, sr_vpn_ip = None, sr_real_ip = None, sr_device = None, sr_rx = None, sr_tx = None,
     sr_rx_rate = None, sr_tx_rate = None, sr_duration = None\<rparr>"

record clocks =
  ck_epoch :: int
  ck_local :: int
  ck_number :: "string \<Rightarrow> int option"
  ck_text :: "json \<Rightarrow> string"

section \<open>Words and labels\<close>

text \<open>A word character of a pattern: letters, digits and the underscore, of Latin-1 too.\<close>

definition word_char :: "char \<Rightarrow> bool" where
  "word_char x = (is_alnum x \<or> x = CHR ''_'' \<or> code x \<in> {170, 178, 179, 181, 185, 186, 188, 189, 190}
     \<or> 192 \<le> code x \<and> code x \<noteq> 215 \<and> code x \<noteq> 247)"

fun runs_of :: "(char \<Rightarrow> bool) \<Rightarrow> string \<Rightarrow> string \<Rightarrow> string list" where
  "runs_of p acc [] = (if acc = [] then [] else [rev acc])"
| "runs_of p acc (x # s) = (if p x then runs_of p (x # acc) s
     else if acc = [] then runs_of p [] s else rev acc # runs_of p [] s)"

definition words_of :: "string \<Rightarrow> string list" where
  "words_of s = map lower (runs_of word_char [] s)"

definition mentions :: "string list \<Rightarrow> string \<Rightarrow> bool" where
  "mentions ws l = list_ex (\<lambda>x. x \<in> set ws) (words_of l)"

text \<open>\<open>_normalize_header\<close>: the alphanumeric runs, joined by underscores.\<close>

definition header_char :: "char \<Rightarrow> bool" where
  "header_char x = (97 \<le> code x \<and> code x \<le> 122 \<or> is_ascii_digit x)"

definition normalize_header :: "string \<Rightarrow> string" where
  "normalize_header v = join ''_'' (runs_of header_char [] (lower (strip v)))"

text \<open>A labelled line: the text before the first colon or equals sign, and what follows.\<close>

definition is_separator :: "char \<Rightarrow> bool" where
  "is_separator x = (x = CHR '':'' \<or> x = CHR ''='')"

definition split_label :: "string \<Rightarrow> (string \<times> string) option" where
  "split_label l = (case dropWhile (\<lambda>x. \<not> is_separator x) l of [] \<Rightarrow> None
     | _ # v \<Rightarrow> Some (lower (rstrip_if is_space (takeWhile (\<lambda>x. \<not> is_separator x) l)), dropWhile is_space v))"

text \<open>A label of one word, or of a word and one of some others, joined by blanks, dashes,
  underscores or nothing.\<close>

definition joint :: "char \<Rightarrow> bool" where
  "joint x = (x = CHR ''-'' \<or> x = CHR ''_'' \<or> is_space x)"

definition word_then :: "string \<Rightarrow> string list \<Rightarrow> string \<Rightarrow> bool" where
  "word_then a bs l = (prefix a l \<and> dropWhile joint (drop (length a) l) \<in> set bs)"

definition word_maybe :: "string \<Rightarrow> string list \<Rightarrow> string \<Rightarrow> bool" where
  "word_maybe a bs l = (l = a \<or> word_then a bs l)"

definition connected_label :: "string \<Rightarrow> bool" where
  "connected_label l = (l = ''since'' \<or> word_maybe ''connected'' [''at'', ''since''] l
     \<or> (prefix ''last'' l \<and> word_maybe ''connected'' [''at''] (dropWhile joint (drop 4 l)))
     \<or> (prefix ''session'' l \<and> word_maybe ''started'' [''at''] (dropWhile joint (drop 7 l))))"

section \<open>Ages\<close>

definition unit_words :: "string list" where
  "unit_words = [''day'', ''days'', ''hour'', ''hours'', ''hr'', ''hrs'', ''minute'', ''minutes'', ''min'', ''mins'',
     ''second'', ''seconds'', ''sec'', ''secs'', ''d'', ''h'', ''m'', ''s'']"

definition duration_unit_seconds :: "char \<Rightarrow> int" where
  "duration_unit_seconds x = (if x = CHR ''d'' then 86400 else if x = CHR ''h'' then 3600 else if x = CHR ''m'' then 60 else 1)"

definition digits_int :: "string \<Rightarrow> int" where
  "digits_int ds = (case parse_base 10 0 ds of None \<Rightarrow> 0 | Some n \<Rightarrow> int n)"

text \<open>\<open>_DURATION_TOKEN_RE.findall\<close>: digits, blanks and a whole word that is a unit.\<close>

function duration_tokens :: "string \<Rightarrow> (int \<times> char) list" where
  "duration_tokens [] = []"
| "duration_tokens (x # s) =
     (if is_ascii_digit x
      then (let ds = takeWhile is_ascii_digit (x # s); r = dropWhile is_space (dropWhile is_ascii_digit (x # s));
                u = takeWhile is_alpha r in
            if lower u \<in> set unit_words then (digits_int ds, lower_char (hd u)) # duration_tokens (dropWhile is_alpha r)
            else duration_tokens (dropWhile is_ascii_digit (x # s)))
      else duration_tokens s)"
  by pat_completeness auto
termination
proof (relation "measure length", goal_cases)
  case (2 x s)
  then show ?case
    using length_dropWhile_le [of is_ascii_digit s] length_dropWhile_le [of is_space "dropWhile is_ascii_digit s"]
      length_dropWhile_le [of is_alpha "dropWhile is_space (dropWhile is_ascii_digit s)"] by simp
next
  case (3 x s)
  then show ?case using length_dropWhile_le [of is_ascii_digit s] by simp
qed auto

definition duration_from_tokens :: "string \<Rightarrow> int option" where
  "duration_from_tokens t = (case duration_tokens t of [] \<Rightarrow> None
     | ts \<Rightarrow> Some (sum_list (map (\<lambda>(n, u). n * duration_unit_seconds u) ts)))"

text \<open>\<open>_PAREN_RE.search\<close>.\<close>

definition in_parens :: "string \<Rightarrow> string option" where
  "in_parens t = (case dropWhile (\<lambda>x. x \<noteq> CHR ''('') t of [] \<Rightarrow> None
     | _ # r \<Rightarrow> if CHR '')'' \<in> set r then Some (takeWhile (\<lambda>x. x \<noteq> CHR '')'') r) else None)"

text \<open>\<open>_HHMMSS_RE.match\<close>.\<close>

definition two_digits :: "string \<Rightarrow> bool" where
  "two_digits s = (length s = 2 \<and> list_all is_ascii_digit s)"

definition hhmmss :: "string \<Rightarrow> (int \<times> int \<times> int) option" where
  "hhmmss t = (case split_on CHR '':'' t of
     [h, m] \<Rightarrow> if h \<noteq> [] \<and> length h \<le> 2 \<and> list_all is_ascii_digit h \<and> two_digits m
       then Some (digits_int h, digits_int m, 0) else None
   | [h, m, s] \<Rightarrow> if h \<noteq> [] \<and> length h \<le> 2 \<and> list_all is_ascii_digit h \<and> two_digits m \<and> two_digits s
       then Some (digits_int h, digits_int m, digits_int s) else None
   | _ \<Rightarrow> None)"

text \<open>Days since 1970-01-01 of a date of the Gregorian calendar.\<close>

definition leap_year :: "int \<Rightarrow> bool" where
  "leap_year y = (y mod 4 = 0 \<and> (y mod 100 \<noteq> 0 \<or> y mod 400 = 0))"

definition month_days :: "int \<Rightarrow> int \<Rightarrow> int" where
  "month_days y m = (if m = 2 then (if leap_year y then 29 else 28) else if m \<in> {4, 6, 9, 11} then 30 else 31)"

definition days_before_year :: "int \<Rightarrow> int" where
  "days_before_year y = (let p = y - 1 in p * 365 + p div 4 - p div 100 + p div 400)"

definition day_number :: "int \<Rightarrow> int \<Rightarrow> int \<Rightarrow> int" where
  "day_number y m d = days_before_year y + sum_list (map (\<lambda>i. month_days y (int i)) [1..<nat m]) + d - 719163"

definition date_time_seconds :: "int \<times> int \<times> int \<Rightarrow> int \<times> int \<times> int \<Rightarrow> int option" where
  "date_time_seconds date time = (case date of (y, mo, d) \<Rightarrow> case time of (h, mi, s) \<Rightarrow>
     if 1 \<le> y \<and> 1 \<le> mo \<and> mo \<le> 12 \<and> 1 \<le> d \<and> d \<le> month_days y mo \<and> h \<le> 23 \<and> mi \<le> 59 \<and> s \<le> 59
     then Some (day_number y mo d * 86400 + h * 3600 + mi * 60 + s) else None)"

text \<open>\<open>_ABS_DATETIME_RE.search\<close>: the date, and the time that follows it.\<close>

definition leading_date :: "string \<Rightarrow> (int \<times> int \<times> int) option" where
  "leading_date s = (if length s < 10 then None else let t = take 10 s in
     if list_all is_ascii_digit (take 4 t) \<and> t ! 4 = CHR ''-'' \<and> two_digits (take 2 (drop 5 t)) \<and> t ! 7 = CHR ''-''
        \<and> two_digits (drop 8 t)
     then Some (digits_int (take 4 t), digits_int (take 2 (drop 5 t)), digits_int (drop 8 t)) else None)"

definition leading_time :: "string \<Rightarrow> (int \<times> int \<times> int) option" where
  "leading_time s = (let h = takeWhile is_ascii_digit s; r = drop (length h) s in
     if h = [] \<or> 2 < length h then None
     else case r of x # m \<Rightarrow>
         if x = CHR '':'' \<and> two_digits (take 2 m)
         then (case drop 2 m of y # q \<Rightarrow> if y = CHR '':'' \<and> two_digits (take 2 q)
                 then Some (digits_int h, digits_int (take 2 m), digits_int (take 2 q))
                 else Some (digits_int h, digits_int (take 2 m), 0)
               | [] \<Rightarrow> Some (digits_int h, digits_int (take 2 m), 0))
         else None
       | [] \<Rightarrow> None)"

fun abs_datetime :: "string \<Rightarrow> ((int \<times> int \<times> int) \<times> (int \<times> int \<times> int)) option" where
  "abs_datetime [] = None"
| "abs_datetime (x # s) = (case leading_date (x # s) of
     Some d \<Rightarrow> (case drop 10 (x # s) of
         y # r \<Rightarrow> if y = CHR '' '' \<or> y = CHR ''T''
            then (case leading_time r of Some t \<Rightarrow> Some (d, t) | None \<Rightarrow> abs_datetime s) else abs_datetime s
       | [] \<Rightarrow> abs_datetime s)
   | None \<Rightarrow> abs_datetime s)"

definition absolute_age :: "clocks \<Rightarrow> string \<Rightarrow> int option" where
  "absolute_age ck t = (case abs_datetime t of None \<Rightarrow> None
     | Some (date, time) \<Rightarrow> (case date_time_seconds date time of None \<Rightarrow> None
         | Some n \<Rightarrow> if n \<le> ck_local ck then Some (ck_local ck - n) else None))"

text \<open>\<open>_parse_duration_seconds\<close>: the first notation that applies.\<close>

definition first_some :: "'a option list \<Rightarrow> 'a option" where
  "first_some xs = (case find (\<lambda>x. x \<noteq> None) xs of None \<Rightarrow> None | Some x \<Rightarrow> x)"

definition parse_duration_seconds :: "clocks \<Rightarrow> string option \<Rightarrow> int option" where
  "parse_duration_seconds ck connected = (case connected of None \<Rightarrow> None
     | Some v \<Rightarrow> if v = [] then None else let t = strip v in
       first_some [case in_parens t of None \<Rightarrow> None | Some p \<Rightarrow> duration_from_tokens p,
         absolute_age ck t, duration_from_tokens t,
         case hhmmss t of None \<Rightarrow> None | Some (h, m, s) \<Rightarrow> Some (h * 3600 + m * 60 + s)])"

definition min_epoch :: int where
  "min_epoch = 946684800"

end
