(* ===== verification/Session_Rows.thy ===== *)
theory Session_Rows
  imports Session_Text
begin

text \<open>
  The records of \<open>services/sessions.py\<close> read from the output of \<open>occtl\<close>: a table with a header, blocks
  of labelled lines, loose rows of a user and addresses, and JSON documents.
\<close>

section \<open>Tables\<close>

text \<open>\<open>re.split\<close> at two or more blanks, or at one tab.\<close>

function split_gaps :: "string \<Rightarrow> string \<Rightarrow> string list" where
  "split_gaps acc [] = [rev acc]"
| "split_gaps acc (x # s) =
     (if is_space x \<and> ((s \<noteq> [] \<and> is_space (hd s)) \<or> code x = 9)
      then rev acc # split_gaps [] (dropWhile is_space s) else split_gaps (x # acc) s)"
  by pat_completeness auto
termination
  by (relation "measure (\<lambda>(a, s). length s)") (auto simp: less_Suc_eq_le length_dropWhile_le)

definition split_table_row :: "string \<Rightarrow> string list" where
  "split_table_row line = (let parts = split_gaps [] (strip line) in if 1 < length parts then parts else split_ws line)"

text \<open>A row as the dictionary of its normalized headers: of two equal headers the later counts.\<close>

type_synonym row = "string \<Rightarrow> string option"

definition row_of :: "string list \<Rightarrow> string list \<Rightarrow> row" where
  "row_of headers vals = map_of (rev (zip (map normalize_header headers) (map strip vals)))"

definition first_value :: "row \<Rightarrow> string list \<Rightarrow> string option" where
  "first_value row keys = first_some (map (\<lambda>k. case row k of None \<Rightarrow> None
     | Some v \<Rightarrow> if v \<noteq> [] \<and> v \<noteq> ''-'' then Some v else None) keys)"

definition is_header :: "string \<Rightarrow> bool" where
  "is_header l = (mentions [''user'', ''username''] l
     \<and> mentions [''ip'', ''remote'', ''real'', ''rx'', ''tx'', ''download'', ''upload''] l)"

definition is_rule_line :: "string \<Rightarrow> bool" where
  "is_rule_line l = list_all (\<lambda>x. x = CHR ''-'' \<or> x = CHR ''+'' \<or> x = CHR '' '') (strip l)"

text \<open>The column of a summary table is either a device or an elapsed time.\<close>

definition table_record :: "clocks \<Rightarrow> bool \<Rightarrow> row \<Rightarrow> session_record option" where
  "table_record ck ip_is_vpn row = (case first_value row [''username'', ''user''] of None \<Rightarrow> None
     | Some u \<Rightarrow>
        let connected = first_value row [''device'', ''connected'', ''connected_since'', ''since''];
            age = parse_duration_seconds ck connected;
            vpn_keys = [''vpn_ip'', ''assigned_ip'', ''local_ip'', ''ipv4''] @ (if ip_is_vpn then [''ip''] else []);
            real_keys = [''real_ip'', ''remote_ip'', ''peer_ip'', ''source_ip''] @ (if ip_is_vpn then [] else [''ip'']) in
        Some ((bare_session u)\<lparr>sr_vpn_ip := first_value row vpn_keys, sr_real_ip := first_value row real_keys,
          sr_device := (if age \<noteq> None then None else connected),
          sr_rx := first_value row [''rx'', ''download'', ''downloaded'', ''received''],
          sr_tx := first_value row [''tx'', ''upload'', ''uploaded'', ''sent'', ''transmitted''],
          sr_duration := age\<rparr>))"

definition table_line :: "clocks \<Rightarrow> bool \<Rightarrow> string list \<Rightarrow> string \<Rightarrow> session_record option" where
  "table_line ck ip_is_vpn headers line = (if is_rule_line line then None else let vals = split_table_row line in
     if length vals < 2 then None else table_record ck ip_is_vpn (row_of headers vals))"

definition table_sessions :: "clocks \<Rightarrow> bool \<Rightarrow> string \<Rightarrow> session_record list" where
  "table_sessions ck ip_is_vpn out =
     (let ls = map (rstrip_if is_space) (filter (\<lambda>l. strip l \<noteq> []) (splitlines out)) in
      if length ls < 2 then []
      else case dropWhile (\<lambda>l. \<not> is_header l) ls of [] \<Rightarrow> []
        | h # rest \<Rightarrow> let headers = split_table_row h in
            if length headers < 2 then [] else List.map_filter (table_line ck ip_is_vpn headers) rest)"

section \<open>Loose rows\<close>

definition is_ip :: "string \<Rightarrow> bool" where
  "is_ip v = (ip_address v \<noteq> None)"

definition name_char :: "char \<Rightarrow> bool" where
  "name_char x = (is_alnum x \<or> x \<in> {CHR ''_'', CHR ''.'', CHR ''@'', CHR ''-''})"

definition looks_like_username :: "string \<Rightarrow> bool" where
  "looks_like_username v =
     (lower v \<notin> {''user'', ''username'', ''id'', ''sid'', ''session'', ''sessions'', ''cookie'', ''no''}
      \<and> \<not> is_ip v \<and> v \<noteq> [] \<and> length v \<le> 128 \<and> list_all name_char v)"

text \<open>The first address in the network is the one of the VPN, the first other one the client's.\<close>

fun split_addresses :: "ipnet \<Rightarrow> string option \<Rightarrow> string option \<Rightarrow> string list \<Rightarrow> string option \<times> string option" where
  "split_addresses net vpn real [] = (vpn, real)"
| "split_addresses net vpn real (v # vs) = (case ip_address v of None \<Rightarrow> split_addresses net vpn real vs
     | Some a \<Rightarrow> if vpn = None \<and> in_net a net then split_addresses net (Some v) real vs
         else split_addresses net vpn (if real = None then Some v else real) vs)"

definition split_loose_ips :: "string \<Rightarrow> string list \<Rightarrow> (string option \<times> string option) result" where
  "split_loose_ips network ips = res_bind (ip_network False network) (\<lambda>net. Inr (split_addresses net None None ips))"

definition is_date_token :: "string \<Rightarrow> bool" where
  "is_date_token p = (length p = 10 \<and> leading_date p \<noteq> None)"

definition is_compact_age :: "string \<Rightarrow> bool" where
  "is_compact_age p = (let ds = takeWhile is_ascii_digit p; u = dropWhile is_ascii_digit p in
     ds \<noteq> [] \<and> length u = 1 \<and> lower u \<in> {''s'', ''m'', ''h'', ''d''})"

fun loose_connected :: "string list \<Rightarrow> string option" where
  "loose_connected [] = None"
| "loose_connected (p # ps) =
     (if is_date_token p then Some (join '' '' (take 2 (p # ps)))
      else if is_compact_age p \<or> hhmmss p \<noteq> None then Some p else loose_connected ps)"

definition strip_brackets :: "string \<Rightarrow> string" where
  "strip_brackets = strip_if (\<lambda>x. x \<in> set ''[](),;'')"

definition loose_row :: "clocks \<Rightarrow> string \<Rightarrow> string \<Rightarrow> session_record option result" where
  "loose_row ck network raw = (let l = strip raw in
     if l = [] \<or> CHR '':'' \<in> set l then Inr None
     else case split_ws l of
         u # p # ps \<Rightarrow>
           if \<not> looks_like_username u then Inr None
           else res_bind (split_loose_ips network (filter (\<lambda>t. t \<noteq> [] \<and> is_ip t) (map strip_brackets (p # ps))))
             (\<lambda>(vpn, real). Inr (Some ((bare_session u)\<lparr>sr_vpn_ip := vpn, sr_real_ip := real,
                sr_duration := parse_duration_seconds ck (loose_connected (p # ps))\<rparr>)))
       | _ \<Rightarrow> Inr None)"

definition loose_sessions :: "clocks \<Rightarrow> string \<Rightarrow> string \<Rightarrow> session_record list result" where
  "loose_sessions ck network out =
     res_bind (res_map (loose_row ck network) (splitlines out)) (\<lambda>rs. Inr (List.map_filter (\<lambda>r. r) rs))"

section \<open>Blocks of labelled lines\<close>

text \<open>A traffic label at the front of a text, and the value after its separator.\<close>

definition after_label :: "string list \<Rightarrow> string \<Rightarrow> string option" where
  "after_label labels s = first_some (map (\<lambda>a. if prefix a (lower s) then
     (case dropWhile is_space (drop (length a) s) of [] \<Rightarrow> None
      | y # v \<Rightarrow> if is_separator y then Some (dropWhile is_space v) else None) else None) labels)"

text \<open>The shortest text before blanks and one of the labels, or all of it.\<close>

fun before_label :: "string list \<Rightarrow> string \<Rightarrow> string" where
  "before_label labels [] = []"
| "before_label labels (x # s) = (if is_space x \<and> after_label labels (dropWhile is_space s) \<noteq> None then []
     else x # before_label labels s)"

text \<open>\<open>_traffic_from_line\<close>: the first label that starts at a word boundary.\<close>

fun find_traffic :: "string \<Rightarrow> bool \<Rightarrow> string \<Rightarrow> string option" where
  "find_traffic label in_word [] = None"
| "find_traffic label in_word (x # s) =
     (case (if in_word then None else after_label [label] (x # s)) of
        Some v \<Rightarrow> if v = [] then find_traffic label (word_char x) s
          else Some (strip (before_label [''rx'', ''tx''] v))
      | None \<Rightarrow> find_traffic label (word_char x) s)"

definition traffic_from_line :: "string \<Rightarrow> (string \<times> string) list" where
  "traffic_from_line l = List.map_filter (\<lambda>k. case find_traffic k False l of None \<Rightarrow> None | Some v \<Rightarrow> Some (k, v))
     [''rx'', ''tx'']"

text \<open>\<open>_field_patterns\<close>: the label of each key, and how much of the value it takes.\<close>

datatype extent = One_word | To_the_end | To_traffic

definition field_labels :: "(string \<times> (string \<Rightarrow> bool) \<times> extent) list" where
  "field_labels =
    [(''vpn_ip'', (\<lambda>l. l = ''ip'' \<or> word_maybe ''vpn'' [''ip''] l \<or> word_maybe ''assigned'' [''ip'', ''address''] l
        \<or> word_maybe ''local'' [''ip'', ''address''] l \<or> word_maybe ''ipv4'' [''ip'', ''address''] l), One_word),
     (''real_ip'', (\<lambda>l. list_ex (\<lambda>a. word_maybe a [''ip'', ''address'', ''addr''] l)
        [''real'', ''remote'', ''peer'', ''source'', ''external'', ''public'']), One_word),
     (''device'', (\<lambda>l. l = ''device''), One_word),
     (''connected_since'', connected_label, To_traffic),
     (''rx'', (\<lambda>l. l \<in> {''rx'', ''download'', ''downloaded'', ''received''} \<or> word_then ''bytes'' [''in''] l), To_the_end),
     (''tx'', (\<lambda>l. l \<in> {''tx'', ''upload'', ''uploaded'', ''sent'', ''transmitted''} \<or> word_then ''bytes'' [''out''] l), To_the_end),
     (''rx_rate'', (\<lambda>l. word_then ''average'' [''rx''] l \<or> word_then ''rx'' [''rate''] l), To_the_end),
     (''tx_rate'', (\<lambda>l. word_then ''average'' [''tx''] l \<or> word_then ''tx'' [''rate''] l), To_the_end)]"

definition taken :: "extent \<Rightarrow> string \<Rightarrow> string" where
  "taken e v = (case e of One_word \<Rightarrow> takeWhile (\<lambda>x. \<not> is_space x) v | To_the_end \<Rightarrow> strip v
     | To_traffic \<Rightarrow> strip (before_label [''rx'', ''tx'', ''download'', ''upload''] v))"

definition labelled_fields :: "string \<Rightarrow> (string \<times> string) list" where
  "labelled_fields l = (case split_label l of None \<Rightarrow> []
     | Some (label, v) \<Rightarrow> if v = [] then []
        else List.map_filter (\<lambda>(k, is_label, e). if is_label label then Some (k, taken e v) else None) field_labels)"

definition username_label :: "string \<Rightarrow> string option" where
  "username_label l = (case split_label l of None \<Rightarrow> None
     | Some (label, v) \<Rightarrow> if (label = ''username'' \<or> label = ''user'') \<and> v \<noteq> []
         then Some (takeWhile (\<lambda>x. \<not> is_space x) v) else None)"

text \<open>One line adds to the current block; the traffic of a line outranks its own labels.\<close>

definition line_fields :: "string \<Rightarrow> (string \<times> string) list" where
  "line_fields l = (let t = traffic_from_line l in
     (case username_label l of None \<Rightarrow> [] | Some u \<Rightarrow> [(''username'', u)])
     @ t @ filter (\<lambda>(k, v). k \<notin> fst ` set t) (labelled_fields l))"

text \<open>The current block is an association list, the newest field first.\<close>

definition flushed :: "clocks \<Rightarrow> string option \<Rightarrow> (string \<times> string) list \<Rightarrow> session_record list" where
  "flushed ck dflt fs = (let m = map_of fs in
     case (case m ''username'' of None \<Rightarrow> dflt | Some u \<Rightarrow> if u = [] then dflt else Some u) of
     None \<Rightarrow> []
   | Some u \<Rightarrow> if u = [] \<or> fs = [] then []
       else [\<lparr>sr_username = u, sr_vpn_ip = m ''vpn_ip'', sr_real_ip = m ''real_ip'', sr_device = m ''device'',
         sr_rx = m ''rx'', sr_tx = m ''tx'', sr_rx_rate = m ''rx_rate'', sr_tx_rate = m ''tx_rate'',
         sr_duration = parse_duration_seconds ck (m ''connected_since'')\<rparr>])"

fun block_lines :: "clocks \<Rightarrow> string option \<Rightarrow> (string \<times> string) list \<Rightarrow> string list \<Rightarrow> session_record list" where
  "block_lines ck dflt fs [] = flushed ck dflt fs"
| "block_lines ck dflt fs (raw # ls) = (let l = strip raw in
     if l = [] then flushed ck dflt fs @ block_lines ck dflt [] ls
     else if username_label l \<noteq> None
     then flushed ck dflt fs @ block_lines ck dflt (rev (line_fields l)) ls
     else block_lines ck dflt (rev (line_fields l) @ fs) ls)"

definition block_sessions :: "clocks \<Rightarrow> string option \<Rightarrow> string \<Rightarrow> session_record list" where
  "block_sessions ck dflt out = block_lines ck dflt [] (splitlines out)"

text \<open>\<open>parse_sessions\<close> and \<open>_parse_detail_sessions\<close>: the first reading that finds a session.\<close>

definition parse_sessions :: "clocks \<Rightarrow> string \<Rightarrow> string \<Rightarrow> session_record list result" where
  "parse_sessions ck network out = (let t = table_sessions ck False out; b = block_sessions ck None out in
     if t \<noteq> [] then Inr t else if b \<noteq> [] then Inr b else loose_sessions ck network out)"

definition parse_detail_sessions :: "clocks \<Rightarrow> string option \<Rightarrow> string \<Rightarrow> session_record list" where
  "parse_detail_sessions ck dflt out = (let t = table_sessions ck True out in
     if t \<noteq> [] then t else block_sessions ck dflt out)"


section \<open>JSON documents\<close>

type_synonym json_row = "string \<Rightarrow> json option"

definition json_row_of :: "(string \<times> json) list \<Rightarrow> json_row" where
  "json_row_of kvs = map_of (rev (map (\<lambda>(k, v). (normalize_header k, v)) (filter (\<lambda>(k, v). v \<noteq> JNull) kvs)))"

fun py_str_of :: "clocks \<Rightarrow> json \<Rightarrow> string" where
  "py_str_of ck JNull = ''None''"
| "py_str_of ck (JBool b) = (if b then ''true'' else ''false'')"
| "py_str_of ck (JInt i) = show_int i"
| "py_str_of ck (JStr s) = s"
| "py_str_of ck j = ck_text ck j"

definition first_json_value :: "clocks \<Rightarrow> json_row \<Rightarrow> string list \<Rightarrow> string option" where
  "first_json_value ck row keys = first_some (map (\<lambda>k. case row k of None \<Rightarrow> None
     | Some v \<Rightarrow> if v = JNull \<or> v = JStr [] then None else Some (py_str_of ck v)) keys)"

definition format_raw_bytes :: "string option \<Rightarrow> string option" where
  "format_raw_bytes v = (case v of None \<Rightarrow> None
     | Some t \<Rightarrow> (case py_int t of None \<Rightarrow> Some t | Some n \<Rightarrow> Some (show_int n @ '' bytes'')))"

text \<open>\<open>str\<close> of a boolean, unlike that of a field, keeps its capital.\<close>

definition duration_from_epoch :: "clocks \<Rightarrow> json option \<Rightarrow> int option" where
  "duration_from_epoch ck v = (case v of None \<Rightarrow> None
     | Some j \<Rightarrow> (case (case j of JBool _ \<Rightarrow> None | _ \<Rightarrow> ck_number ck (py_str_of ck j)) of None \<Rightarrow> None
         | Some e \<Rightarrow> if e < min_epoch \<or> ck_epoch ck < e then None else Some (ck_epoch ck - e)))"

definition or_else :: "'a option \<Rightarrow> 'a option \<Rightarrow> 'a option" where
  "or_else a b = (case a of None \<Rightarrow> b | Some x \<Rightarrow> Some x)"

definition text_or :: "string option \<Rightarrow> string option \<Rightarrow> string option" where
  "text_or a b = (case a of None \<Rightarrow> b | Some x \<Rightarrow> if x = [] then b else Some x)"

definition connected_keys :: "string list" where
  "connected_keys = [''session_started_at'', ''last_connected_at'', ''connected_since'', ''connected_at'', ''connected_time'',
     ''connected'', ''connected_for'', ''connection_time'', ''connect_time'', ''since'', ''session_time'', ''login_since'',
     ''login_time'', ''logged_in_since'', ''time'']"

definition session_from_json_item :: "clocks \<Rightarrow> string option \<Rightarrow> (string \<times> json) list \<Rightarrow> session_record option" where
  "session_from_json_item ck dflt item = (let row = json_row_of item; get = first_json_value ck row in
     case text_or (get [''username'', ''user'', ''name'', ''login'']) dflt of None \<Rightarrow> None
     | Some u \<Rightarrow> if u = [] then None else Some
        \<lparr>sr_username = u,
         sr_vpn_ip = get [''vpn_ip'', ''assigned_ip'', ''assigned_address'', ''local_ip'', ''ipv4'', ''ip''],
         sr_real_ip = get [''real_ip'', ''remote_ip'', ''remote_address'', ''peer_ip'', ''source_ip''],
         sr_device = get [''device''],
         sr_rx = text_or (get [''rx'', ''download'', ''downloaded'', ''received''])
           (format_raw_bytes (get [''raw_rx'', ''bytes_in''])),
         sr_tx = text_or (get [''tx'', ''upload'', ''uploaded'', ''sent'', ''transmitted''])
           (format_raw_bytes (get [''raw_tx'', ''bytes_out''])),
         sr_rx_rate = get [''average_rx'', ''rx_rate'', ''download_rate'', ''received_rate''],
         sr_tx_rate = get [''average_tx'', ''tx_rate'', ''upload_rate'', ''sent_rate''],
         sr_duration = first_some [duration_from_epoch ck (row ''raw_session_started_at''),
           duration_from_epoch ck (row ''raw_connected_at''), parse_duration_seconds ck (get connected_keys)]\<rparr>)"

text \<open>A document that is no list counts as a list of one.\<close>

definition json_items :: "string \<Rightarrow> json list" where
  "json_items out = (case json_loads out of None \<Rightarrow> [] | Some (JList xs) \<Rightarrow> xs | Some j \<Rightarrow> [j])"

definition parse_json_sessions :: "clocks \<Rightarrow> string option \<Rightarrow> string \<Rightarrow> session_record list" where
  "parse_json_sessions ck dflt out = List.map_filter (session_from_json_item ck dflt) (map entries (filter is_dict (json_items out)))"

section \<open>Session and worker ids\<close>

definition id_char :: "char \<Rightarrow> bool" where
  "id_char x = (is_alnum x \<or> x \<in> {CHR ''_'', CHR ''.'', CHR '':'', CHR ''-''})"

definition parse_session_ids :: "string \<Rightarrow> string list" where
  "parse_session_ids out = List.map_filter (\<lambda>raw. let l = strip raw in
     if l = [] \<or> list_ex (\<lambda>p. prefix p (lower l)) [''id'', ''session'', ''cookie''] then None
     else let t = hd (split_ws l) in if list_all id_char t then Some t else None) (splitlines out)"

definition non_blank :: "string option \<Rightarrow> string option" where
  "non_blank v = (if v = Some [] then None else v)"

definition json_session_id :: "clocks \<Rightarrow> json \<Rightarrow> string option" where
  "json_session_id ck item = (case item of JStr s \<Rightarrow> if s = [] then None else Some s
     | JDict kvs \<Rightarrow> non_blank (first_json_value ck (json_row_of kvs) [''sid'', ''id'', ''session_id'', ''session'', ''cookie''])
     | _ \<Rightarrow> None)"

definition worker_of :: "clocks \<Rightarrow> string \<Rightarrow> (string \<times> json) list \<Rightarrow> string option" where
  "worker_of ck u kvs = (let row = json_row_of kvs in
     if first_json_value ck row [''username'', ''user''] \<noteq> Some u then None else non_blank (first_json_value ck row [''id'']))"

definition worker_ids_in :: "clocks \<Rightarrow> string \<Rightarrow> string \<Rightarrow> string list" where
  "worker_ids_in ck u out = (case json_loads (if out = [] then ''[]'' else out) of
     Some (JList rows) \<Rightarrow> uniq [] (List.map_filter (worker_of ck u) (map entries (filter is_dict rows)))
   | _ \<Rightarrow> [])"

end
