(* ===== verification/Sessions.thy ===== *)
theory Sessions
  imports Session_Rows User_Groups Passwd
begin

text \<open>
  \<open>SessionService\<close> of \<open>services/sessions.py\<close>, its routes, and \<open>api/routes_client_sync.py\<close>: the
  connected clients as \<open>occtl\<close> reports them, completed by the details of each user and session,
  how a user is disconnected, and the routing a connected client may ask for. Which control
  sockets exist, and what the run time adds to the readers, is a parameter next to the world.
\<close>

section \<open>Asking occtl\<close>

record session_host =
  sh_env :: env
  sh_is_socket :: "world \<Rightarrow> string \<Rightarrow> bool"
  sh_sockets :: "world \<Rightarrow> (string \<times> int) list"
  sh_local :: "world \<Rightarrow> int"
  sh_number :: "string \<Rightarrow> int option"
  sh_text :: "json \<Rightarrow> string"

definition now_clocks :: "session_host \<Rightarrow> world \<Rightarrow> clocks" where
  "now_clocks h w = \<lparr>ck_epoch = int (e_now (sh_env h) w), ck_local = sh_local h w, ck_number = sh_number h, ck_text = sh_text h\<rparr>"

text \<open>The configured socket, else the most recent of the sockets \<open>occtl.sock*\<close>, of two the first.\<close>

fun newest :: "string \<times> int \<Rightarrow> (string \<times> int) list \<Rightarrow> string" where
  "newest b [] = fst b"
| "newest b (s # ss) = newest (if snd b < snd s then s else b) ss"

definition control_socket :: "session_host \<Rightarrow> app_config \<Rightarrow> world \<Rightarrow> string" where
  "control_socket h c w = (let p = generated_path c ''occtl.sock'' in
     if sh_is_socket h w p then p
     else case filter (\<lambda>(q, _). sh_is_socket h w q) (sh_sockets h w) of [] \<Rightarrow> p | s # ss \<Rightarrow> newest s ss)"

definition occtl_argv :: "session_host \<Rightarrow> app_config \<Rightarrow> bool \<Rightarrow> string list \<Rightarrow> world \<Rightarrow> string list" where
  "occtl_argv h c as_json args w =
     ''occtl'' # (if as_json then [''--json''] else []) @ [''-s'', control_socket h c w] @ args"

definition occtl :: "session_host \<Rightarrow> app_config \<Rightarrow> bool \<Rightarrow> string list \<Rightarrow> (world, command_result) action" where
  "occtl h c as_json args = andthen current (\<lambda>w. run_command (sh_env h) [] (occtl_argv h c as_json args w) no_check)"

section \<open>Details of a session\<close>

definition merge_session_detail :: "session_record \<Rightarrow> session_record \<Rightarrow> session_record" where
  "merge_session_detail s d =
     \<lparr>sr_username = sr_username s, sr_vpn_ip = text_or (sr_vpn_ip d) (sr_vpn_ip s),
      sr_real_ip = text_or (sr_real_ip d) (sr_real_ip s), sr_device = text_or (sr_device d) (sr_device s),
      sr_rx = text_or (sr_rx d) (sr_rx s), sr_tx = text_or (sr_tx d) (sr_tx s),
      sr_rx_rate = text_or (sr_rx_rate d) (sr_rx_rate s), sr_tx_rate = text_or (sr_tx_rate d) (sr_tx_rate s),
      sr_duration = or_else (sr_duration d) (sr_duration s)\<rparr>"

definition needs_session_detail :: "session_record \<Rightarrow> bool" where
  "needs_session_detail s = (sr_device s = None \<or> sr_vpn_ip s = None \<or> sr_rx s = None \<or> sr_tx s = None \<or> sr_duration s = None)"

definition same_address :: "string option \<Rightarrow> string option \<Rightarrow> bool" where
  "same_address a b = (a \<noteq> None \<and> a \<noteq> Some [] \<and> b = a)"

definition is_detail_of :: "session_record \<Rightarrow> session_record \<Rightarrow> bool" where
  "is_detail_of s d = (sr_username d = sr_username s
     \<and> (same_address (sr_vpn_ip s) (sr_vpn_ip d) \<or> same_address (sr_real_ip s) (sr_real_ip d)))"

definition best_detail :: "session_record \<Rightarrow> session_record list \<Rightarrow> session_record" where
  "best_detail s ds = (case find (is_detail_of s) ds of Some d \<Rightarrow> d
     | None \<Rightarrow> (case find (\<lambda>d. sr_username d = sr_username s) ds of Some d \<Rightarrow> d | None \<Rightarrow> bare_session (sr_username s)))"

definition with_first :: "session_record \<Rightarrow> session_record list \<Rightarrow> session_record" where
  "with_first s ds = (case ds of [] \<Rightarrow> s | d # _ \<Rightarrow> merge_session_detail s d)"

definition enrich_from_text :: "session_host \<Rightarrow> app_config \<Rightarrow> session_record \<Rightarrow> (world, session_record) action" where
  "enrich_from_text h c s =
     andthen (occtl h c False [''show'', ''user'', sr_username s]) (\<lambda>r. andthen current (\<lambda>w.
       ret (if ok r then with_first s (parse_detail_sessions (now_clocks h w) (Some (sr_username s)) (r_out r)) else s)))"

definition enrich_session :: "session_host \<Rightarrow> app_config \<Rightarrow> session_record \<Rightarrow> (world, session_record) action" where
  "enrich_session h c s =
     andthen (occtl h c True [''show'', ''user'', sr_username s]) (\<lambda>r. andthen current (\<lambda>w.
       let ds = parse_json_sessions (now_clocks h w) (Some (sr_username s)) (r_out r) in
       if ok r \<and> ds \<noteq> [] then ret (with_first s ds) else enrich_from_text h c s))"

definition enrich_sessions :: "session_host \<Rightarrow> app_config \<Rightarrow> session_record list \<Rightarrow> (world, session_record list) action" where
  "enrich_sessions h c ss = action_map (enrich_session h c) ss"

section \<open>The list by session ids\<close>

definition text_session :: "session_host \<Rightarrow> app_config \<Rightarrow> string \<Rightarrow> (world, session_record list) action" where
  "text_session h c i =
     andthen (occtl h c False [''show'', ''session'', i]) (\<lambda>r. andthen current (\<lambda>w.
       ret (if ok r then parse_detail_sessions (now_clocks h w) None (r_out r) else [])))"

definition json_session :: "session_host \<Rightarrow> app_config \<Rightarrow> string \<Rightarrow> (world, session_record list) action" where
  "json_session h c i =
     andthen (occtl h c True [''show'', ''session'', i]) (\<lambda>r. andthen current (\<lambda>w.
       if ok r then ret (parse_json_sessions (now_clocks h w) None (r_out r)) else text_session h c i))"

definition list_json_session_ids :: "session_host \<Rightarrow> app_config \<Rightarrow> string \<Rightarrow> (world, session_record list) action" where
  "list_json_session_ids h c out =
     andthen current (\<lambda>w.
     andthen (action_map (json_session h c) (List.map_filter (json_session_id (now_clocks h w)) (json_items out)))
       (\<lambda>rs. ret (concat rs)))"

definition list_text_session_ids :: "session_host \<Rightarrow> app_config \<Rightarrow> (world, session_record list) action" where
  "list_text_session_ids h c =
     andthen (occtl h c False [''show'', ''sessions'', ''all'']) (\<lambda>a.
     andthen (if ok a then ret a else occtl h c False [''show'', ''sessions'', ''valid'']) (\<lambda>r.
       if \<not> ok r then ret []
       else andthen (action_map (text_session h c) (parse_session_ids (r_out r))) (\<lambda>rs. ret (concat rs))))"

definition list_sessions_from_session_ids :: "session_host \<Rightarrow> app_config \<Rightarrow> (world, session_record list) action" where
  "list_sessions_from_session_ids h c =
     andthen (occtl h c True [''show'', ''sessions'', ''all'']) (\<lambda>r.
     andthen (if ok r then list_json_session_ids h c (r_out r) else ret []) (\<lambda>ss.
       if ss \<noteq> [] then ret ss else list_text_session_ids h c))"

definition fill_missing_session_details :: "session_host \<Rightarrow> app_config \<Rightarrow> session_record list
    \<Rightarrow> (world, session_record list) action" where
  "fill_missing_session_details h c ss =
     (if \<not> list_ex needs_session_detail ss then ret ss
      else andthen (list_sessions_from_session_ids h c) (\<lambda>ds.
        ret (if ds = [] then ss else map (\<lambda>s. merge_session_detail s (best_detail s ds)) ss)))"

section \<open>Listing\<close>

definition read_json_users :: "session_host \<Rightarrow> app_config \<Rightarrow> (world, session_record list) action" where
  "read_json_users h c =
     andthen (occtl h c True [''show'', ''users'']) (\<lambda>r. andthen current (\<lambda>w.
       ret (if ok r then parse_json_sessions (now_clocks h w) None (r_out r) else [])))"

definition read_text_users :: "session_host \<Rightarrow> app_config \<Rightarrow> (world, session_record list option) action" where
  "read_text_users h c =
     andthen (occtl h c False [''show'', ''users'']) (\<lambda>r. andthen current (\<lambda>w.
       if \<not> ok r then ret None
       else lift_result (res_bind (parse_sessions (now_clocks h w) (ipv4_network (app_server c)) (r_out r)) (\<lambda>ss. Inr (Some ss)))))"

definition list_sessions :: "session_host \<Rightarrow> app_config \<Rightarrow> (world, session_record list) action" where
  "list_sessions h c =
     andthen (read_json_users h c) (\<lambda>js.
     andthen (enrich_sessions h c js) (\<lambda>ejs.
       if ejs \<noteq> [] then fill_missing_session_details h c ejs
       else andthen (read_text_users h c) (\<lambda>ts. case ts of None \<Rightarrow> ret []
         | Some ss \<Rightarrow> andthen (enrich_sessions h c ss) (\<lambda>es.
             if es \<noteq> [] then fill_missing_session_details h c es else list_sessions_from_session_ids h c))))"

section \<open>Disconnecting a user\<close>

definition worker_ids_for :: "session_host \<Rightarrow> app_config \<Rightarrow> string \<Rightarrow> (world, string list) action" where
  "worker_ids_for h c u =
     andthen (occtl h c True [''show'', ''users'']) (\<lambda>r. andthen current (\<lambda>w.
       ret (if ok r then worker_ids_in (now_clocks h w) u (r_out r) else [])))"

definition no_worker_note :: string where
  "no_worker_note = ''no active worker found for this session; half-open connections expire on their own (auth-timeout/cookie-timeout)''"

definition noted :: "string \<Rightarrow> string" where
  "noted err = (if strip err \<noteq> [] then strip err @ [LF] @ no_worker_note else no_worker_note)"

definition joined_texts :: "string list \<Rightarrow> string" where
  "joined_texts ts = join [LF] (filter (\<lambda>t. t \<noteq> []) (map strip ts))"

definition workers_result :: "string list \<Rightarrow> command_result list \<Rightarrow> command_result" where
  "workers_result ids rs = \<lparr>r_argv = [''occtl'', ''disconnect'', ''id''] @ ids,
     r_code = (if list_ex ok rs then 0 else r_code (hd rs)),
     r_out = joined_texts (map r_out rs), r_err = joined_texts (map r_err rs), r_dry = False\<rparr>"

definition disconnect_workers :: "session_host \<Rightarrow> app_config \<Rightarrow> string list \<Rightarrow> (world, command_result) action" where
  "disconnect_workers h c ids =
     andthen (action_map (\<lambda>i. occtl h c False [''disconnect'', ''id'', i]) ids) (\<lambda>rs. ret (workers_result ids rs))"

definition kick :: "session_host \<Rightarrow> app_config \<Rightarrow> string \<Rightarrow> bool \<Rightarrow> (world, command_result) action" where
  "kick h c u dryrun =
     andthen current (\<lambda>w.
     andthen (run_command (sh_env h) [] (occtl_argv h c False [''disconnect'', ''user'', u] w) (no_check\<lparr>o_dry_run := dryrun\<rparr>)) (\<lambda>r.
       if ok r \<or> dryrun then ret r
       else andthen (worker_ids_for h c u) (\<lambda>ids.
         if ids = [] then ret \<lparr>r_argv = r_argv r, r_code = r_code r, r_out = r_out r, r_err = noted (r_err r), r_dry = False\<rparr>
         else disconnect_workers h c ids)))"

text \<open>The route answers with the name of its own command.\<close>

definition kick_session :: "session_host \<Rightarrow> app_config \<Rightarrow> string \<Rightarrow> bool \<Rightarrow> (world, command_result) action" where
  "kick_session h c u dryrun = andthen (kick h c u dryrun) (\<lambda>r. ret (r\<lparr>r_argv := [''korctl'', ''sessions'', ''kick'', u]\<rparr>))"

section \<open>Routing for a connected client\<close>

definition no_address :: "py_error" where
  "no_address = HttpError 403 ''client address unavailable''"

text \<open>\<open>_authenticate_vpn_client\<close>: the peer address of the request, if it has one.\<close>

definition authenticate_vpn_client :: "session_host \<Rightarrow> app_config \<Rightarrow> string option \<Rightarrow> (world, string) action" where
  "authenticate_vpn_client h c peer = (case peer of None \<Rightarrow> throw no_address
     | Some p \<Rightarrow> if p = [] then throw no_address else (case ip_address p of None \<Rightarrow> throw no_address
     | Some a \<Rightarrow>
        andthen (lift_result (ip_network False (ipv4_network (app_server c)))) (\<lambda>net.
        if \<not> in_net a net
        then throw (HttpError 403 ''client routing sync is only available through the VPN tunnel'')
        else andthen (list_sessions h c) (\<lambda>ss.
          case find (\<lambda>s. sr_vpn_ip s = Some p \<and> sr_username s \<noteq> []) ss of Some s \<Rightarrow> ret (sr_username s)
          | None \<Rightarrow> throw (HttpError 403 ''no active VPN session for this address'')))))"

definition group_routing :: "app_config \<Rightarrow> world \<Rightarrow> string \<Rightarrow> (string list \<times> string list) result" where
  "group_routing c w g = (case read_group_config c g w of Inr u \<Rightarrow> Inr (uc_routes u, uc_split_dns u)
     | Inl e \<Rightarrow> if e = ValueError then Inr ([], []) else Inl e)"

text \<open>The server's routes, those of the user's groups in order, and the user's own, without repeats.\<close>

definition effective_routing :: "app_config \<Rightarrow> string \<Rightarrow> world \<Rightarrow> (string list \<times> string list) result" where
  "effective_routing c u w =
     res_bind (read_user_groups c u w) (\<lambda>gs.
     res_bind (res_map (group_routing c w) gs) (\<lambda>ps.
     res_bind (read_user_config c u w) (\<lambda>uc.
     Inr (uniq [] (srv_routes (app_server c) @ concat (map fst ps) @ uc_routes uc),
          uniq [] (search_domains (app_server c) @ concat (map snd ps) @ uc_split_dns uc)))))"

record client_answer =
  ca_username :: string
  ca_version :: string
  ca_routes :: "string list"
  ca_split_dns :: "string list"

definition routing_payload :: "string list \<times> string list \<Rightarrow> json" where
  "routing_payload p = JDict [(''routes'', JList (map JStr (fst p))), (''split_dns'', JList (map JStr (snd p)))]"

definition client_routing :: "session_host \<Rightarrow> app_config \<Rightarrow> string option \<Rightarrow> (world, client_answer) action" where
  "client_routing h c peer =
     andthen (authenticate_vpn_client h c peer) (\<lambda>u.
     andthen current (\<lambda>w.
     andthen (lift_result (effective_routing c u w)) (\<lambda>p.
       ret \<lparr>ca_username = u, ca_version = take 16 (e_sha (sh_env h) (json_dumps (routing_payload p))),
            ca_routes = fst p, ca_split_dns = snd p\<rparr>)))"

end
