(* ===== verification/Session_Properties.thy ===== *)
theory Session_Properties
  imports Sessions Samples Routing_Facts
begin

text \<open>
  What holds of the sessions: listing always returns and only completes what \<open>occtl\<close> reports, a
  kick reaches the workers of one user, routing is given to the holder of a session, and a JSON
  listing is read back. The last section shows where the readers and the merge go wrong.
\<close>

section \<open>Actions that always return\<close>

definition yields :: "('a \<Rightarrow> bool) \<Rightarrow> (world, 'a) action \<Rightarrow> bool" where
  "yields Q m = (\<forall>w. \<exists>x w'. m w = (Inr x, w') \<and> Q x)"

named_theorems yields_intros \<open>introduction rules for yields\<close>

lemma yields_ret [yields_intros]: "Q x \<Longrightarrow> yields Q (ret x)"
  by (simp add: yields_def ret_def)

lemma yields_andthen: "yields P m \<Longrightarrow> (\<And>x. P x \<Longrightarrow> yields Q (f x)) \<Longrightarrow> yields Q (andthen m f)"
  unfolding yields_def andthen_def by (metis (no_types, lifting) case_prod_conv sum.case(2))

lemma yields_then_current: "(\<And>v. yields Q (f v)) \<Longrightarrow> yields Q (andthen current f)"
  by (rule yields_andthen [where P = "\<lambda>_. True"]) (simp_all add: yields_def current_def)

lemma yields_if [yields_intros]: "(b \<Longrightarrow> yields Q m) \<Longrightarrow> (\<not> b \<Longrightarrow> yields Q n) \<Longrightarrow> yields Q (if b then m else n)"
  by simp

lemma yields_mono: "yields P m \<Longrightarrow> (\<And>x. P x \<Longrightarrow> Q x) \<Longrightarrow> yields Q m"
  unfolding yields_def by blast

lemma yields_map:
  "(\<And>x. x \<in> set xs \<Longrightarrow> yields (R x) (f x)) \<Longrightarrow> yields (list_all2 R xs) (action_map f xs)"
proof (induction xs)
  case (Cons x xs)
  have "yields (list_all2 R xs) (action_map f xs)" using Cons by simp
  then have "yields (\<lambda>ys. R x y \<longrightarrow> list_all2 R (x # xs) (y # ys)) (action_map f xs)" for y
    by (rule yields_mono) simp
  moreover have "yields (R x) (f x)" using Cons by simp
  ultimately show ?case
    by (auto intro!: yields_andthen [of "R x"] yields_andthen [of "list_all2 R xs"] yields_ret Cons)
qed (simp add: yields_ret)

lemma yieldsD: "yields Q m \<Longrightarrow> \<exists>x w'. m w = (Inr x, w') \<and> Q x"
  by (simp add: yields_def)

text \<open>Every socket has a path.\<close>

definition sockets_named :: "session_host \<Rightarrow> bool" where
  "sockets_named h = (\<forall>w. list_all (\<lambda>s. fst s \<noteq> []) (sh_sockets h w))"

lemma newest_member: "newest s ss \<in> fst ` set (s # ss)"
  by (induction ss arbitrary: s) auto

lemma path_not_empty: "n \<noteq> [] \<Longrightarrow> generated_path c n \<noteq> []"
  by (auto simp: generated_path_def path_join_def)

lemma socket_not_empty: "sockets_named h \<Longrightarrow> control_socket h c w \<noteq> []"
proof -
  assume named: "sockets_named h"
  have *: "newest s ss \<noteq> []" if "filter p (sh_sockets h w) = s # ss" for s ss p
  proof -
    have "set (s # ss) \<subseteq> set (sh_sockets h w)" using that by (metis filter_is_subset)
    then have "\<forall>x \<in> set (s # ss). fst x \<noteq> []" using named by (fastforce simp: sockets_named_def list_all_iff)
    then show ?thesis using newest_member [of s ss] by (metis imageE)
  qed
  show ?thesis
    using * by (auto simp: control_socket_def Let_def path_not_empty split: list.splits)
qed

text \<open>What an event asks of \<open>occtl\<close>.\<close>

fun asked :: "event \<Rightarrow> string list option" where
  "asked (Ran argv _) = (case argv of a # b # d # rest \<Rightarrow>
     if b = ''-s'' then Some rest else if b = ''--json'' then Some (tl rest) else None | _ \<Rightarrow> None)"
| "asked _ = None"

definition questions :: "world \<Rightarrow> world \<Rightarrow> string list list" where
  "questions w w' = List.map_filter asked (new_events w w')"

lemma run_occtl:
  assumes "sockets_named h" "[] \<notin> set args"
  shows "\<exists>r w'. occtl h c j args w = (Inr r, w') \<and> extends w w' \<and> questions w w' = [args]"
proof -
  have "\<not> list_ex (\<lambda>a. a = []) (occtl_argv h c j args w)"
    using assms(2) socket_not_empty [OF assms(1), of c w] by (auto simp: occtl_argv_def list_ex_iff dest: sym)
  moreover have "occtl_argv h c j args w \<noteq> []" by (simp add: occtl_argv_def)
  moreover have "asked (Ran (occtl_argv h c j args w) i) = Some args" for i by (simp add: occtl_argv_def)
  ultimately show ?thesis
    by (auto simp: occtl_def run_command_def run_captured_def no_check_def default_options_def andthen_def current_def
        spawn_def emit_def finish_def ret_def questions_def new_events_def extends_def map_filter_simps Let_def
        split: outcome.splits)
qed

lemma yields_occtl [yields_intros]:
  "sockets_named h \<Longrightarrow> [] \<notin> set args \<Longrightarrow> yields (\<lambda>_. True) (occtl h c j args)"
  unfolding yields_def using run_occtl by blast


section \<open>Listing completes the report\<close>

text \<open>What is known of a session: nothing a later answer says is forgotten, and the user stays.\<close>

definition known :: "string option \<Rightarrow> bool" where
  "known v = (v \<noteq> None \<and> v \<noteq> Some [])"

definition knows_more :: "session_record \<Rightarrow> session_record \<Rightarrow> bool" where
  "knows_more s s' = (sr_username s' = sr_username s
     \<and> list_all (\<lambda>f. known (f s) \<longrightarrow> known (f s'))
         [sr_vpn_ip, sr_real_ip, sr_device, sr_rx, sr_tx, sr_rx_rate, sr_tx_rate]
     \<and> (sr_duration s \<noteq> None \<longrightarrow> sr_duration s' \<noteq> None))"

lemma knows_more_refl [simp]: "knows_more s s"
  by (simp add: knows_more_def)

lemma knows_more_trans: "knows_more a b \<Longrightarrow> knows_more b d \<Longrightarrow> knows_more a d"
  by (simp add: knows_more_def)

lemma knows_more_merge [simp]: "knows_more s (merge_session_detail s d)"
  by (auto simp: knows_more_def merge_session_detail_def known_def text_or_def or_else_def split: option.splits)

lemma knows_more_first [simp]: "knows_more s (with_first s ds)"
  by (simp add: with_first_def split: list.split)

lemma knows_more_name: "knows_more s s' \<Longrightarrow> sr_username s' = sr_username s"
  by (simp add: knows_more_def)

definition named_sessions :: "session_record list \<Rightarrow> bool" where
  "named_sessions ss = (\<forall>s \<in> set ss. sr_username s \<noteq> [])"

lemma named_more: "list_all2 knows_more ss ts \<Longrightarrow> named_sessions ss \<Longrightarrow> named_sessions ts"
  unfolding named_sessions_def by (induction rule: list_all2_induct) (auto dest: knows_more_name)

text \<open>Every reader names the user of a session.\<close>

lemma first_some_in: "first_some xs = Some v \<Longrightarrow> Some v \<in> set xs"
  by (auto simp: first_some_def find_Some_iff in_set_conv_nth split: option.splits)

lemma in_map_filter: "y \<in> set (List.map_filter f xs) \<longleftrightarrow> (\<exists>x \<in> set xs. f x = Some y)"
  by (induction xs) (auto simp: map_filter_simps split: option.splits)

lemma first_value_text: "first_value row ks = Some v \<Longrightarrow> v \<noteq> []"
  by (auto simp: first_value_def dest!: first_some_in split: option.splits if_splits)

lemma table_named: "named_sessions (table_sessions ck b out)"
proof -
  have *: "table_line ck b hs l = Some s \<Longrightarrow> sr_username s \<noteq> []" for hs l s
    by (auto simp: table_line_def table_record_def bare_session_def Let_def dest!: first_value_text
        split: if_splits option.splits)
  show ?thesis
    by (auto simp: table_sessions_def named_sessions_def in_map_filter Let_def dest: * split: list.splits)
qed

lemma flushed_named: "named_sessions (flushed ck d fs)"
  by (auto simp: flushed_def named_sessions_def Let_def split: option.splits)

lemma block_lines_named: "named_sessions (block_lines ck d fs ls)"
  by (induction ck d fs ls rule: block_lines.induct)
    (use flushed_named in \<open>auto simp: named_sessions_def Let_def\<close>)

lemma detail_named: "named_sessions (parse_detail_sessions ck d out)"
  by (simp add: parse_detail_sessions_def block_sessions_def table_named block_lines_named Let_def)

lemma json_item_named: "session_from_json_item ck d item = Some s \<Longrightarrow> sr_username s \<noteq> []"
proof -
  assume *: "session_from_json_item ck d item = Some s"
  then have "sr_username s \<noteq> [] \<and> text_or (first_json_value ck (json_row_of item) [''username'', ''user'', ''name'', ''login'']) d = Some (sr_username s)"
    unfolding session_from_json_item_def Let_def by (simp split: option.splits if_splits) (erule subst, simp)
  then show ?thesis by simp
qed

lemma json_named: "named_sessions (parse_json_sessions ck d out)"
  by (auto simp: parse_json_sessions_def named_sessions_def in_map_filter dest: json_item_named)

lemma loose_total:
  assumes "ip_network False network = Inr net"
  shows "\<exists>ss. loose_sessions ck network out = Inr ss \<and> named_sessions ss"
proof -
  define g where "g raw = (case loose_row ck network raw of Inr x \<Rightarrow> x | Inl _ \<Rightarrow> None)" for raw
  have row: "loose_row ck network raw = Inr (g raw) \<and> (\<forall>s. g raw = Some s \<longrightarrow> sr_username s \<noteq> [])" for raw
    by (auto simp: g_def loose_row_def split_loose_ips_def assms bare_session_def looks_like_username_def Let_def
        split: list.splits prod.splits)
  then have "loose_row ck network = (\<lambda>raw. Inr (g raw))" by blast
  then show ?thesis using row by (auto simp: loose_sessions_def named_sessions_def in_map_filter)
qed

lemma parse_total:
  assumes "ip_network False network = Inr net"
  shows "\<exists>ss. parse_sessions ck network out = Inr ss \<and> named_sessions ss"
  using loose_total [OF assms] table_named block_lines_named
  by (simp add: parse_sessions_def block_sessions_def Let_def)

lemma session_ids_named: "i \<in> set (parse_session_ids out) \<Longrightarrow> i \<noteq> []"
proof -
  have ne: "split_ws (strip l) \<noteq> []" if "strip l \<noteq> []" for l
  proof -
    have "\<not> is_space (hd (strip l))" using that strip_if_ends(1) [of is_space l] by (simp add: strip_def)
    then have "dropWhile is_space (strip l) \<noteq> []" using that by (cases "strip l") auto
    then show ?thesis by (subst split_ws.simps) (simp add: Let_def)
  qed
  assume "i \<in> set (parse_session_ids out)"
  then obtain l where "strip l \<noteq> []" "i = hd (split_ws (strip l))"
    by (auto simp: parse_session_ids_def in_map_filter Let_def split: if_splits)
  then show ?thesis using ne split_ws_member [of i "strip l"] by (metis hd_in_set)
qed

lemma json_ids_named: "json_session_id ck item = Some i \<Longrightarrow> i \<noteq> []"
  by (auto simp: json_session_id_def non_blank_def split: json.splits if_splits)


text \<open>Every step of a listing returns, names its users, and only adds to what it was given.\<close>

lemmas yields_occtl_then = yields_andthen [OF yields_occtl]

lemma yields_enrich:
  assumes "sockets_named h" "sr_username s \<noteq> []"
  shows "yields (knows_more s) (enrich_session h c s)"
  unfolding enrich_session_def enrich_from_text_def Let_def using assms
  by (auto intro!: yields_occtl_then yields_then_current yields_intros)

lemma yields_enrich_all:
  assumes "sockets_named h" "named_sessions ss"
  shows "yields (list_all2 knows_more ss) (enrich_sessions h c ss)"
  unfolding enrich_sessions_def using assms
  by (intro yields_map yields_enrich) (auto simp: named_sessions_def)

lemma yields_text_session:
  "sockets_named h \<Longrightarrow> i \<noteq> [] \<Longrightarrow> yields named_sessions (text_session h c i)"
  unfolding text_session_def
  by (auto intro!: yields_occtl_then yields_then_current yields_intros simp: detail_named) (simp add: named_sessions_def)

lemma yields_json_session:
  "sockets_named h \<Longrightarrow> i \<noteq> [] \<Longrightarrow> yields named_sessions (json_session h c i)"
  unfolding json_session_def
  by (auto intro!: yields_occtl_then yields_then_current yields_intros yields_text_session simp: json_named)

lemma yields_concat:
  assumes "\<And>x. x \<in> set xs \<Longrightarrow> yields named_sessions (f x)"
  shows "yields named_sessions (andthen (action_map f xs) (\<lambda>rs. ret (concat rs)))"
proof (rule yields_andthen)
  show "yields (list_all2 (\<lambda>_. named_sessions) xs) (action_map f xs)" using assms by (rule yields_map)
  show "yields named_sessions (ret (concat rs))" if "list_all2 (\<lambda>_. named_sessions) xs rs" for rs
    using that by (intro yields_ret) (induction rule: list_all2_induct, auto simp: named_sessions_def)
qed

lemma yields_ids:
  assumes "sockets_named h"
  shows "yields named_sessions (list_sessions_from_session_ids h c)"
proof -
  have nil: "named_sessions []" by (simp add: named_sessions_def)
  have t: "yields named_sessions (list_text_session_ids h c)"
    unfolding list_text_session_ids_def using assms nil
    by (intro yields_occtl_then yields_andthen [where P = "\<lambda>_. True"] yields_if yields_occtl yields_ret yields_concat
        yields_text_session session_ids_named) auto
  have j: "yields named_sessions (list_json_session_ids h c out)" for out
    unfolding list_json_session_ids_def using assms
    by (intro yields_then_current yields_concat yields_json_session) (auto simp: in_map_filter dest: json_ids_named)
  show ?thesis
    unfolding list_sessions_from_session_ids_def using assms nil t j
    by (intro yields_occtl_then yields_andthen [where P = named_sessions] yields_if yields_ret) auto
qed

lemma yields_fill:
  assumes "sockets_named h"
  shows "yields (list_all2 knows_more ss) (fill_missing_session_details h c ss)"
  unfolding fill_missing_session_details_def
  by (intro yields_if yields_ret yields_andthen [OF yields_ids [OF assms]]) (auto simp: list_all2_conv_all_nth)

lemma yields_json_users: "sockets_named h \<Longrightarrow> yields named_sessions (read_json_users h c)"
  unfolding read_json_users_def
  by (auto intro!: yields_occtl_then yields_then_current yields_intros simp: json_named) (simp add: named_sessions_def)

lemma yields_text_users:
  assumes "sockets_named h" "ip_network False (ipv4_network (app_server c)) = Inr net"
  shows "yields (\<lambda>ts. case ts of None \<Rightarrow> True | Some ss \<Rightarrow> named_sessions ss) (read_text_users h c)"
proof -
  have "yields (\<lambda>ts. case ts of None \<Rightarrow> True | Some ss \<Rightarrow> named_sessions ss)
      (lift_result (res_bind (parse_sessions ck (ipv4_network (app_server c)) out) (\<lambda>ss. Inr (Some ss))))" for ck out
    using parse_total [OF assms(2), of ck out] by (auto simp: yields_def lift_result_def)
  then show ?thesis
    unfolding read_text_users_def using assms(1)
    by (auto intro!: yields_occtl_then yields_then_current yields_intros)
qed

text \<open>What \<open>occtl\<close> reports as connected: its JSON listing, else its text listing.\<close>

definition reported :: "session_host \<Rightarrow> app_config \<Rightarrow> (world, session_record list) action" where
  "reported h c = andthen (read_json_users h c) (\<lambda>js. if js \<noteq> [] then ret js
     else andthen (read_text_users h c) (\<lambda>ts. ret (case ts of None \<Rightarrow> [] | Some ss \<Rightarrow> ss)))"

definition completes :: "session_record list \<Rightarrow> session_record list \<Rightarrow> bool" where
  "completes rs ss = (named_sessions ss \<and> (rs \<noteq> [] \<longrightarrow> list_all2 knows_more rs ss))"

lemma filled:
  assumes "sockets_named h" "named_sessions rs"
  shows "yields (list_all2 knows_more rs) (andthen (enrich_sessions h c rs) (fill_missing_session_details h c))"
  by (rule yields_andthen [OF yields_enrich_all [OF assms]], rule yields_mono [OF yields_fill [OF assms(1)]])
    (rule list_all2_trans [OF knows_more_trans])

lemma no_reports [simp]: "enrich_sessions h c [] w = (Inr [], w)"
  by (simp add: enrich_sessions_def ret_def)


lemma filled_run:
  assumes "sockets_named h" "named_sessions rs" "rs \<noteq> []"
  shows "\<exists>es w1 ss w'. enrich_sessions h c rs w = (Inr es, w1) \<and> es \<noteq> []
    \<and> fill_missing_session_details h c es w1 = (Inr ss, w') \<and> completes rs ss"
proof -
  obtain es w1 where e: "enrich_sessions h c rs w = (Inr es, w1)" "list_all2 knows_more rs es"
    using yieldsD [OF yields_enrich_all [OF assms(1,2)]] by blast
  obtain ss w' where "fill_missing_session_details h c es w1 = (Inr ss, w')" "list_all2 knows_more es ss"
    using yieldsD [OF yields_fill [OF assms(1)]] by blast
  moreover have "es \<noteq> []" using e(2) assms(3) by auto
  moreover have "list_all2 knows_more rs ss"
    using list_all2_trans [OF knows_more_trans e(2) \<open>list_all2 knows_more es ss\<close>] .
  ultimately show ?thesis using e(1) assms(2) named_more by (auto simp: completes_def)
qed

lemma listing_completed:
  assumes "sockets_named h" "ip_network False (ipv4_network (app_server c)) = Inr net"
  shows "\<exists>rs w1 ss w'. reported h c w = (Inr rs, w1) \<and> list_sessions h c w = (Inr ss, w') \<and> completes rs ss"
proof -
  obtain js w1 where js: "read_json_users h c w = (Inr js, w1)" "named_sessions js"
    using yieldsD [OF yields_json_users [OF assms(1)]] by blast
  obtain ts w2 where ts: "read_text_users h c w1 = (Inr ts, w2)" "case ts of None \<Rightarrow> True | Some ss \<Rightarrow> named_sessions ss"
    using yieldsD [OF yields_text_users [OF assms]] by blast
  obtain ds w3 where ds: "list_sessions_from_session_ids h c w2 = (Inr ds, w3)" "named_sessions ds"
    using yieldsD [OF yields_ids [OF assms(1)]] by blast
  have json: ?thesis if ne: "js \<noteq> []"
    using filled_run [OF assms(1) js(2) ne, of c w1] js(1) ne
    by (auto simp: reported_def list_sessions_def andthen_def ret_def)
  have plain: ?thesis if "js = []" "ts = Some rs" "rs \<noteq> []" for rs
    using filled_run [OF assms(1), of rs c w2] ts js(1) that
    by (auto simp: reported_def list_sessions_def andthen_def ret_def)
  have ids: ?thesis if "js = []" "ts = None \<or> ts = Some []"
    using ts js(1) ds that
    by (auto simp: reported_def list_sessions_def andthen_def ret_def completes_def named_sessions_def)
  show ?thesis using json plain ids by (cases ts) auto
qed

lemma listing_named:
  assumes "sockets_named h" "ip_network False (ipv4_network (app_server c)) = Inr net"
  shows "\<exists>ss w'. list_sessions h c w = (Inr ss, w') \<and> named_sessions ss"
  using listing_completed [OF assms] by (force simp: completes_def)


section \<open>Kicking a user\<close>

text \<open>The workers a listing names for a user.\<close>

definition worker_rows :: "string \<Rightarrow> json list" where
  "worker_rows out = (case json_loads (if out = [] then ''[]'' else out) of Some (JList rows) \<Rightarrow> rows | _ \<Rightarrow> [])"

definition is_worker :: "clocks \<Rightarrow> string \<Rightarrow> string \<Rightarrow> string \<Rightarrow> bool" where
  "is_worker ck out u i = (i \<noteq> [] \<and> (\<exists>kvs. JDict kvs \<in> set (worker_rows out)
     \<and> first_json_value ck (json_row_of kvs) [''username'', ''user''] = Some u
     \<and> first_json_value ck (json_row_of kvs) [''id''] = Some i))"

lemma worker_ids_uniq:
  "worker_ids_in ck u out = uniq [] (List.map_filter (worker_of ck u) (map entries (filter is_dict (worker_rows out))))"
  by (simp add: worker_ids_in_def worker_rows_def map_filter_simps split: option.split json.split)

lemma worker_of_row: "worker_of ck u kvs = Some i \<longleftrightarrow> i \<noteq> []
    \<and> first_json_value ck (json_row_of kvs) [''username'', ''user''] = Some u
    \<and> first_json_value ck (json_row_of kvs) [''id''] = Some i"
  by (auto simp: worker_of_def non_blank_def Let_def)

lemma worker_ids_exactly: "i \<in> set (worker_ids_in ck u out) \<longleftrightarrow> is_worker ck out u i"
proof -
  have "i \<in> set (worker_ids_in ck u out) \<longleftrightarrow> (\<exists>x \<in> set (map entries (filter is_dict (worker_rows out))). worker_of ck u x = Some i)"
    unfolding worker_ids_uniq set_uniq by (simp only: in_map_filter set_simps Diff_empty)
  also have "\<dots> \<longleftrightarrow> (\<exists>kvs. JDict kvs \<in> set (worker_rows out) \<and> worker_of ck u kvs = Some i)"
  proof
    assume "\<exists>x \<in> set (map entries (filter is_dict (worker_rows out))). worker_of ck u x = Some i"
    then obtain j where "j \<in> set (worker_rows out)" "is_dict j" "worker_of ck u (entries j) = Some i" by auto
    then show "\<exists>kvs. JDict kvs \<in> set (worker_rows out) \<and> worker_of ck u kvs = Some i"
      by (metis entries.simps(1) is_dict.elims(2))
  next
    assume "\<exists>kvs. JDict kvs \<in> set (worker_rows out) \<and> worker_of ck u kvs = Some i"
    then show "\<exists>x \<in> set (map entries (filter is_dict (worker_rows out))). worker_of ck u x = Some i"
      by (force simp: image_iff)
  qed
  finally show ?thesis unfolding is_worker_def worker_of_row by blast
qed

lemma workers_distinct: "distinct (worker_ids_in ck u out)"
  by (simp add: worker_ids_uniq)

lemma questions_trans: "extends a b \<Longrightarrow> extends b d \<Longrightarrow> questions a d = questions a b @ questions b d"
  unfolding questions_def by (subst new_events_trans [of a b d]) (simp_all add: List.map_filter_def)

lemma disconnect_each:
  assumes "sockets_named h" "[] \<notin> set ids"
  shows "\<exists>rs w'. action_map (\<lambda>i. occtl h c False [''disconnect'', ''id'', i]) ids w = (Inr rs, w')
    \<and> extends w w' \<and> length rs = length ids \<and> questions w w' = map (\<lambda>i. [''disconnect'', ''id'', i]) ids"
  using assms(2)
proof (induction ids arbitrary: w)
  case Nil
  then show ?case by (simp add: ret_def questions_def map_filter_simps)
next
  case (Cons i ids)
  have a: "[] \<notin> set [''disconnect'', ''id'', i]" using Cons.prems by auto
  obtain r w1 where 1: "occtl h c False [''disconnect'', ''id'', i] w = (Inr r, w1)" "extends w w1"
      "questions w w1 = [[''disconnect'', ''id'', i]]"
    using run_occtl [OF assms(1) a] by blast
  obtain rs w2 where 2: "action_map (\<lambda>i. occtl h c False [''disconnect'', ''id'', i]) ids w1 = (Inr rs, w2)"
      "extends w1 w2" "length rs = length ids" "questions w1 w2 = map (\<lambda>i. [''disconnect'', ''id'', i]) ids"
    using Cons by (metis list.set_intros(2))
  then show ?case
    using 1 questions_trans [OF 1(2) 2(2)] extends_trans [OF 1(2) 2(2)] by (simp add: andthen_def ret_def)
qed

lemma occtl_is: "occtl h c j args w = run_command (sh_env h) [] (occtl_argv h c j args w) no_check w"
  by (simp add: occtl_def andthen_def current_def)

text \<open>C17. When occtl cannot disconnect a user by name, a kick asks it once to disconnect each
  worker that its listing names for this user, and nothing else: no worker of another user, none
  twice. It returns, and reports a failure when there is no such worker.\<close>

theorem kick_disconnects_the_users_workers:
  assumes "sockets_named h"
    and "occtl h c False [''disconnect'', ''user'', u] w = (Inr r1, w1)" "\<not> ok r1"
    and "occtl h c True [''show'', ''users''] w1 = (Inr r2, w2)" "ok r2"
  shows "\<exists>ids r w'. kick h c u False w = (Inr r, w') \<and> distinct ids
    \<and> set ids = {i. is_worker (now_clocks h w2) (r_out r2) u i}
    \<and> questions w2 w' = map (\<lambda>i. [''disconnect'', ''id'', i]) ids
    \<and> (ids = [] \<longrightarrow> r_code r \<noteq> 0)"
proof -
  let ?ids = "worker_ids_in (now_clocks h w2) u (r_out r2)"
  have set: "set ?ids = {i. is_worker (now_clocks h w2) (r_out r2) u i}" by (auto simp: worker_ids_exactly)
  then have ne: "[] \<notin> set ?ids" by (auto simp: is_worker_def)
  obtain rs w' where d: "action_map (\<lambda>i. occtl h c False [''disconnect'', ''id'', i]) ?ids w2 = (Inr rs, w')"
      "questions w2 w' = map (\<lambda>i. [''disconnect'', ''id'', i]) ?ids"
    using disconnect_each [OF assms(1) ne] by blast
  have opts: "no_check\<lparr>o_dry_run := False\<rparr> = no_check" by (simp add: no_check_def default_options_def)
  have "\<exists>r. kick h c u False w = (Inr r, w') \<and> (?ids = [] \<longrightarrow> r_code r \<noteq> 0)"
    using assms(2-5) d(1)
    by (auto simp: kick_def worker_ids_for_def disconnect_workers_def andthen_def current_def ret_def opts occtl_is ok_def)
  then show ?thesis using set d(2) workers_distinct by blast
qed


section \<open>Routing needs a session\<close>

text \<open>C7. Routing is only given to a peer inside the VPN network whose address is that of a session
  occtl reports: the answer names the user of that session, its routes are those of that user,
  none twice, and nothing but the listing was done for it.\<close>

theorem client_routing_needs_a_session:
  assumes "client_routing h c peer w = (Inr a, w')"
  shows "\<exists>p ip net ss s. peer = Some p \<and> ip_address p = Some ip \<and> ip_network False (ipv4_network (app_server c)) = Inr net
    \<and> in_net ip net \<and> list_sessions h c w = (Inr ss, w') \<and> s \<in> set ss \<and> sr_vpn_ip s = Some p
    \<and> sr_username s = ca_username a \<and> effective_routing c (ca_username a) w' = Inr (ca_routes a, ca_split_dns a)
    \<and> distinct (ca_routes a) \<and> distinct (ca_split_dns a)"
proof -
  obtain u where u: "authenticate_vpn_client h c peer w = (Inr u, w')" "ca_username a = u"
    and r: "effective_routing c u w' = Inr (ca_routes a, ca_split_dns a)"
    using assms by (auto simp: client_routing_def andthen_def current_def lift_result_def ret_def
        split: prod.splits sum.splits)
  have d: "distinct (ca_routes a) \<and> distinct (ca_split_dns a)"
    using r by (auto simp: effective_routing_def res_bind_Inr_iff) (metis distinct_uniq)+
  obtain p ip where p: "peer = Some p" "ip_address p = Some ip"
    using u(1) by (auto simp: authenticate_vpn_client_def throw_def split: option.splits if_splits)
  define mine where "mine = (\<lambda>s :: session_record. sr_vpn_ip s = Some p \<and> sr_username s \<noteq> [])"
  have "p \<noteq> []" using u(1) p(1) by (auto simp: authenticate_vpn_client_def throw_def)
  then obtain net where n: "ip_network False (ipv4_network (app_server c)) = Inr net"
    using u(1) p by (cases "ip_network False (ipv4_network (app_server c))")
      (simp_all add: authenticate_vpn_client_def andthen_def lift_result_def)
  have inside: "in_net ip net"
    using u(1) p n \<open>p \<noteq> []\<close> by (simp add: authenticate_vpn_client_def andthen_def lift_result_def throw_def split: if_splits)
  obtain r w1 where run: "list_sessions h c w = (r, w1)" by (cases "list_sessions h c w")
  have eq: "authenticate_vpn_client h c peer w = (case r of Inl e \<Rightarrow> (Inl e, w1) | Inr ss \<Rightarrow>
      (case find mine ss of Some s \<Rightarrow> (Inr (sr_username s), w1)
       | None \<Rightarrow> (Inl (HttpError 403 ''no active VPN session for this address''), w1)))"
    using p n inside \<open>p \<noteq> []\<close> run
    by (simp add: authenticate_vpn_client_def andthen_def lift_result_def throw_def ret_def mine_def split: sum.split option.split)
  obtain ss s where s: "r = Inr ss" "find mine ss = Some s" "sr_username s = u" "w1 = w'"
    using u(1) unfolding eq by (cases r) (simp_all split: option.splits)
  then have "s \<in> set ss" "sr_vpn_ip s = Some p" by (auto simp: find_Some_iff mine_def)
  with p n inside run s u(2) r d show ?thesis
    by (intro exI [of _ p] exI [of _ ip] exI [of _ net] exI [of _ ss] exI [of _ s]) simp
qed

section \<open>A JSON listing is read back\<close>

text \<open>A listing as \<open>occtl --json\<close> prints it, with \<open>null\<close> for what is not known.\<close>

definition null_or :: "string option \<Rightarrow> json" where
  "null_or v = (case v of None \<Rightarrow> JNull | Some t \<Rightarrow> JStr t)"

definition session_json :: "clocks \<Rightarrow> session_record \<Rightarrow> json" where
  "session_json ck s = JDict [(''Username'', JStr (sr_username s)), (''IPv4'', null_or (sr_vpn_ip s)),
     (''Remote IP'', null_or (sr_real_ip s)), (''Device'', null_or (sr_device s)), (''RX'', null_or (sr_rx s)),
     (''TX'', null_or (sr_tx s)), (''Average RX'', null_or (sr_rx_rate s)), (''Average TX'', null_or (sr_tx_rate s)),
     (''raw_connected_at'', case sr_duration s of None \<Rightarrow> JNull | Some d \<Rightarrow> JInt (ck_epoch ck - d))]"

definition listable :: "clocks \<Rightarrow> session_record \<Rightarrow> bool" where
  "listable ck s = (sr_username s \<noteq> []
     \<and> list_all (\<lambda>f. f s \<noteq> Some []) [sr_vpn_ip, sr_real_ip, sr_device, sr_rx, sr_tx, sr_rx_rate, sr_tx_rate]
     \<and> (case sr_duration s of None \<Rightarrow> True | Some d \<Rightarrow> 0 \<le> d \<and> min_epoch \<le> ck_epoch ck - d))"

text \<open>\<open>int(float(text))\<close> is exact for the integers of a double.\<close>

definition exact_numbers :: "clocks \<Rightarrow> bool" where
  "exact_numbers ck = (ck_epoch ck < 2 ^ 53 \<and> (\<forall>n. 0 \<le> n \<and> n < 2 ^ 53 \<longrightarrow> ck_number ck (show_int n) = Some n))"

lemma listed_headers [simp]:
  "normalize_header ''Username'' = ''username''" "normalize_header ''IPv4'' = ''ipv4''"
  "normalize_header ''Remote IP'' = ''remote_ip''" "normalize_header ''Device'' = ''device''"
  "normalize_header ''RX'' = ''rx''" "normalize_header ''TX'' = ''tx''"
  "normalize_header ''Average RX'' = ''average_rx''" "normalize_header ''Average TX'' = ''average_tx''"
  "normalize_header ''raw_connected_at'' = ''raw_connected_at''"
  by code_simp+

lemma map_of_rev_same: "distinct (map fst kvs) \<Longrightarrow> map_of (rev kvs) = map_of kvs"
  by (subst map_of_inject_set) (simp_all add: rev_map [symmetric])

lemma json_row_lookup:
  assumes "distinct (map (normalize_header \<circ> fst) kvs)"
  shows "json_row_of kvs k = (case map_of (map (\<lambda>(k, v). (normalize_header k, v)) kvs) k of
     Some v \<Rightarrow> if v = JNull then None else Some v | None \<Rightarrow> None)"
proof -
  let ?n = "\<lambda>(k, v). (normalize_header k, v)"
  have "distinct (map fst (map ?n (filter (\<lambda>(k, v). v \<noteq> JNull) kvs)))"
    using assms by (induction kvs) (auto simp: image_iff)
  then have "json_row_of kvs k = map_of (map ?n (filter (\<lambda>(k, v). v \<noteq> JNull) kvs)) k"
    unfolding json_row_of_def by (metis map_of_rev_same)
  also have "\<dots> = (case map_of (map ?n kvs) k of Some v \<Rightarrow> if v = JNull then None else Some v | None \<Rightarrow> None)"
    using assms by (induction kvs) (auto simp: image_iff split: option.splits dest!: map_of_SomeD, fastforce+)
  finally show ?thesis .
qed


lemma first_some_simps [simp]:
  "first_some [] = None" "first_some (None # xs) = first_some xs" "first_some (Some x # xs) = Some x"
  by (simp_all add: first_some_def)

lemma first_json_simps [simp]:
  "first_json_value ck row [] = None"
  "first_json_value ck row (k # ks) = (case row k of None \<Rightarrow> first_json_value ck row ks
     | Some v \<Rightarrow> if v = JNull \<or> v = JStr [] then first_json_value ck row ks else Some (py_str_of ck v))"
  by (simp_all add: first_json_value_def split: option.split)

lemma null_or_is:
  "(if null_or v = JNull then None else Some (null_or v)) = map_option JStr v"
  "(if (case a of None \<Rightarrow> JNull | Some d \<Rightarrow> JInt (f d)) = JNull then None
    else Some (case a of None \<Rightarrow> JNull | Some d \<Rightarrow> JInt (f d))) = map_option (\<lambda>d. JInt (f d)) a"
  by (cases v, simp_all add: null_or_def) (cases a, simp_all)

lemma session_json_row:
  "json_row_of (entries (session_json ck s)) k =
    (if k = ''username'' then Some (JStr (sr_username s)) else if k = ''ipv4'' then map_option JStr (sr_vpn_ip s)
     else if k = ''remote_ip'' then map_option JStr (sr_real_ip s) else if k = ''device'' then map_option JStr (sr_device s)
     else if k = ''rx'' then map_option JStr (sr_rx s) else if k = ''tx'' then map_option JStr (sr_tx s)
     else if k = ''average_rx'' then map_option JStr (sr_rx_rate s) else if k = ''average_tx'' then map_option JStr (sr_tx_rate s)
     else if k = ''raw_connected_at'' then map_option (\<lambda>d. JInt (ck_epoch ck - d)) (sr_duration s) else None)"
proof (subst json_row_lookup)
  show "distinct (map (normalize_header \<circ> fst) (entries (session_json ck s)))" by (simp add: session_json_def)
qed (simp add: session_json_def null_or_is)

lemma text_or_None [simp]: "v \<noteq> Some [] \<Longrightarrow> text_or v None = v"
  by (auto simp add: text_or_def split: option.split)


lemma age_read:
  assumes "exact_numbers ck" "0 \<le> d" "min_epoch \<le> ck_epoch ck - d"
  shows "duration_from_epoch ck (Some (JInt (ck_epoch ck - d))) = Some d"
proof -
  have "ck_number ck (show_int (ck_epoch ck - d)) = Some (ck_epoch ck - d)"
    using assms by (auto simp: exact_numbers_def min_epoch_def)
  then show ?thesis using assms by (simp add: duration_from_epoch_def)
qed

lemma session_read_back:
  assumes "listable ck s" "exact_numbers ck"
  shows "session_from_json_item ck dflt (entries (session_json ck s)) = Some s"
proof -
  have none: "duration_from_epoch ck None = None" "parse_duration_seconds ck None = None" "format_raw_bytes None = None"
    by (simp_all add: duration_from_epoch_def parse_duration_seconds_def format_raw_bytes_def)
  have dur: "duration_from_epoch ck (map_option (\<lambda>d. JInt (ck_epoch ck - d)) (sr_duration s)) = sr_duration s"
    using assms age_read [OF assms(2)] none by (cases "sr_duration s") (simp_all add: listable_def)
  have last: "first_some [v, None] = v" for v :: "int option" by (cases v) simp_all
  have field: "v \<noteq> Some [] \<Longrightarrow> (case v of None \<Rightarrow> None | Some x \<Rightarrow> if x = [] then a else Some (py_str_of ck (JStr x))) = v"
    for v a by (cases v) simp_all
  show ?thesis
    using assms(1) unfolding session_from_json_item_def Let_def connected_keys_def
    by (simp add: session_json_row listable_def text_or_def [of "Some _"] dur none last case_map_option
        field cong: option.case_cong)
qed

text \<open>A JSON listing of sessions that names every user is read back as exactly these sessions: users,
  addresses, device, traffic, rates and the age from the time of the connection, in their order.\<close>

theorem json_listing_reads_back:
  assumes "list_all (listable ck) ss" "exact_numbers ck"
  shows "parse_json_sessions ck dflt (json_dumps (JList (map (session_json ck) ss))) = ss"
proof -
  have "wf_json (null_or v)" for v by (simp add: null_or_def split: option.split)
  then have "wf_json (session_json ck s)" for s by (simp add: session_json_def split: option.split)
  then have "json_loads (json_dumps (JList (map (session_json ck) ss))) = Some (JList (map (session_json ck) ss))"
    using loads_dumps [OF ok_compact, of "JList (map (session_json ck) ss)" "[]"]
    by (simp add: json_dumps_def ws_text_def)
  moreover have "List.map_filter (session_from_json_item ck dflt) (map entries (filter is_dict (map (session_json ck) ss))) = ss"
    using assms(1)
  proof (induction ss)
    case (Cons s ss)
    have "is_dict (session_json ck s)" by (simp add: session_json_def)
    with Cons session_read_back [of ck s dflt] assms(2) show ?case by (simp add: map_filter_simps)
  qed (simp add: map_filter_simps)
  ultimately show ?thesis by (simp add: parse_json_sessions_def json_items_def)
qed


section \<open>Witnesses\<close>

text \<open>A host whose \<open>occtl\<close> prints no JSON and lists one user in a table.\<close>

definition listing_text :: string where
  "listing_text = ''user  vpn ip'' @ [LF] @ ''alice  10.10.10.5'' @ [LF]"

definition table_env :: env where
  "table_env = sample_env\<lparr>e_run := (\<lambda>_ argv _. if argv ! 1 = ''-s'' \<and> drop 3 argv = [''show'', ''users''] then Completed 0 listing_text []
     else Completed 1 [] []), e_rpc := (\<lambda>_ _ _. Rpc_value (JBool True))\<rparr>"

definition table_host :: session_host where
  "table_host = \<lparr>sh_env = table_env, sh_is_socket = (\<lambda>_ _. False), sh_sockets = (\<lambda>_. []), sh_local = (\<lambda>_. 0),
     sh_number = py_int, sh_text = (\<lambda>_. [])\<rparr>"

lemma table_host_named [simp]: "sockets_named table_host"
  by (simp add: sockets_named_def table_host_def)

lemma listing_text_masked: "mask_text listing_text [] = listing_text" "mask_text [] [] = []"
  by code_simp+

lemma sample_network: "ip_network False (ipv4_network (app_server sample_app)) = Inr (Net (V4 [10, 10, 10, 0]) 24)"
  by code_simp


lemma table_occtl:
  assumes "[] \<notin> set args"
  shows "\<exists>r w'. occtl table_host sample_app j args w = (Inr r, w') \<and> files w' = files w
    \<and> (if \<not> j \<and> args = [''show'', ''users''] then r_code r = 0 \<and> r_out r = listing_text else r_code r = 1)"
proof -
  have "\<not> list_ex (\<lambda>a. a = []) (occtl_argv table_host sample_app j args w)"
    using assms socket_not_empty [OF table_host_named, of sample_app w] by (auto simp: occtl_argv_def list_ex_iff dest: sym)
  moreover have "occtl_argv table_host sample_app j args w \<noteq> []" by (simp add: occtl_argv_def)
  moreover have "occtl_argv table_host sample_app j args w ! 1 = ''-s'' \<and> drop 3 (occtl_argv table_host sample_app j args w) = [''show'', ''users''] \<longleftrightarrow> \<not> j \<and> args = [''show'', ''users'']"
    by (auto simp: occtl_argv_def)
  ultimately show ?thesis
    by (simp add: occtl_is run_command_def run_captured_def no_check_def default_options_def andthen_def
        spawn_def ret_def table_host_def table_env_def sample_env_def masked_result_def listing_text_masked Let_def)
qed


definition alice :: session_record where
  "alice = (bare_session ''alice'')\<lparr>sr_vpn_ip := Some ''10.10.10.5''\<rparr>"

lemma alice_listed: "parse_sessions ck ''10.10.10.0/24'' listing_text = Inr [alice]"
  by code_simp


text \<open>\<open>occtl\<close> has no details: the listing is the row of the table.\<close>

lemma table_fails:
  assumes "[] \<notin> set args" "j \<or> args \<noteq> [''show'', ''users'']"
  shows "\<exists>r w'. occtl table_host sample_app j args w = (Inr r, w') \<and> files w' = files w \<and> \<not> ok r"
  using table_occtl [OF assms(1), of j w] assms(2) by (auto simp: ok_def split: if_splits)

lemma table_no_details:
  "\<exists>w'. list_sessions_from_session_ids table_host sample_app w = (Inr [], w') \<and> files w' = files w"
proof -
  obtain r1 w1 where 1: "occtl table_host sample_app True [''show'', ''sessions'', ''all''] w = (Inr r1, w1)" "files w1 = files w" "\<not> ok r1"
    using table_fails [of "[''show'', ''sessions'', ''all'']" True w] by auto
  obtain r2 w2 where 2: "occtl table_host sample_app False [''show'', ''sessions'', ''all''] w1 = (Inr r2, w2)" "files w2 = files w" "\<not> ok r2"
    using table_fails [of "[''show'', ''sessions'', ''all'']" False w1] 1(2) by auto
  obtain r3 w3 where 3: "occtl table_host sample_app False [''show'', ''sessions'', ''valid''] w2 = (Inr r3, w3)" "files w3 = files w" "\<not> ok r3"
    using table_fails [of "[''show'', ''sessions'', ''valid'']" False w2] 2(2) by auto
  show ?thesis
    using 1 2 3 by (simp add: list_sessions_from_session_ids_def list_text_session_ids_def andthen_def ret_def)
qed

lemma table_listing:
  "\<exists>w'. list_sessions table_host sample_app w = (Inr [alice], w') \<and> files w' = files w"
proof -
  obtain r1 w1 where 1: "occtl table_host sample_app True [''show'', ''users''] w = (Inr r1, w1)" "files w1 = files w" "\<not> ok r1"
    using table_fails [of "[''show'', ''users'']" True w] by auto
  obtain r2 w2 where 2: "occtl table_host sample_app False [''show'', ''users''] w1 = (Inr r2, w2)" "files w2 = files w"
      "ok r2" "r_out r2 = listing_text"
    using table_occtl [of "[''show'', ''users'']" False w1] 1(2) by (auto simp: ok_def)
  obtain r3 w3 where 3: "occtl table_host sample_app True [''show'', ''user'', ''alice''] w2 = (Inr r3, w3)" "files w3 = files w" "\<not> ok r3"
    using table_fails [of "[''show'', ''user'', ''alice'']" True w2] 2(2) by auto
  obtain r4 w4 where 4: "occtl table_host sample_app False [''show'', ''user'', ''alice''] w3 = (Inr r4, w4)" "files w4 = files w" "\<not> ok r4"
    using table_fails [of "[''show'', ''user'', ''alice'']" False w3] 3(2) by auto
  obtain w5 where 5: "list_sessions_from_session_ids table_host sample_app w4 = (Inr [], w5)" "files w5 = files w"
    using table_no_details [of w4] 4(2) by auto
  have net: "ipv4_network (app_server sample_app) = ''10.10.10.0/24''" by code_simp
  have alice: "sr_username alice = ''alice''" "needs_session_detail alice"
    by (simp_all add: alice_def bare_session_def needs_session_detail_def)
  have json: "read_json_users table_host sample_app w = (Inr [], w1)"
    using 1 by (simp add: read_json_users_def andthen_def current_def ret_def)
  have plain: "read_text_users table_host sample_app w1 = (Inr (Some [alice]), w2)"
    using 2 by (simp add: read_text_users_def andthen_def current_def ret_def lift_result_def net alice_listed)
  have enrich: "enrich_sessions table_host sample_app [alice] w2 = (Inr [alice], w4)"
    using 3 4 alice by (simp add: enrich_sessions_def enrich_session_def enrich_from_text_def andthen_def current_def ret_def)
  have "fill_missing_session_details table_host sample_app [alice] w4 = (Inr [alice], w5)"
    using 5 alice by (simp add: fill_missing_session_details_def andthen_def ret_def)
  then show ?thesis
    using json plain enrich 5(2) by (simp add: list_sessions_def andthen_def ret_def)
qed

lemma sample_routing:
  "files w = Map.empty \<Longrightarrow> \<exists>p. effective_routing sample_app ''alice'' w = Inr p"
proof -
  assume w: "files w = Map.empty"
  have u: "validate_username ''alice'' = Inr ''alice''" by code_simp
  have "case check_user_config empty_user_config of Inl e \<Rightarrow> False | Inr u \<Rightarrow> True" by code_simp
  then have "\<exists>u. check_user_config empty_user_config = Inr u" by (cases "check_user_config empty_user_config") auto
  then have "\<exists>u. read_user_config sample_app ''alice'' w = Inr u"
    using u w by (simp add: read_user_config_def user_config_path_def parse_user_config_file_def read_lines_of_def)
  moreover have "read_user_groups sample_app ''alice'' w = Inr []"
    using u w by (simp add: read_user_groups_def list_users_def read_lines_of_def)
  ultimately show ?thesis by (auto simp: effective_routing_def)
qed

lemma client_routing_needs_a_session_witness:
  "\<exists>a w' (s :: session_record). client_routing table_host sample_app (Some ''10.10.10.5'') sample_world = (Inr a, w') \<and> sr_username s = ca_username a
    \<and> sr_vpn_ip s = Some ''10.10.10.5'' \<and> distinct (ca_routes a)"
proof -
  obtain w' where l: "list_sessions table_host sample_app sample_world = (Inr [alice], w')" "files w' = Map.empty"
    using table_listing [of sample_world] by (auto simp: sample_world_def)
  have ip: "ip_address ''10.10.10.5'' = Some (V4 [10, 10, 10, 5])" "in_net (V4 [10, 10, 10, 5]) (Net (V4 [10, 10, 10, 0]) 24)"
    by code_simp+
  have "authenticate_vpn_client table_host sample_app (Some ''10.10.10.5'') sample_world = (Inr ''alice'', w')"
    using l ip by (simp add: authenticate_vpn_client_def sample_network andthen_def lift_result_def ret_def alice_def bare_session_def)
  then obtain a where a: "client_routing table_host sample_app (Some ''10.10.10.5'') sample_world = (Inr a, w')"
    using sample_routing [OF l(2)] by (auto simp: client_routing_def andthen_def current_def lift_result_def ret_def)
  from client_routing_needs_a_session [OF this] obtain s :: session_record where "sr_username s = ca_username a"
      "sr_vpn_ip s = Some ''10.10.10.5''" "distinct (ca_routes a)" by auto
  with a show ?thesis by blast
qed


text \<open>A host whose \<open>occtl\<close> only lists workers and disconnects none by name.\<close>

definition workers_text :: string where
  "workers_text = json_dumps (JList [JDict [(''user'', JStr ''al''), (''id'', JInt 7)], JDict [(''user'', JStr ''bo''), (''id'', JInt 8)]])"

definition worker_host :: session_host where
  "worker_host = table_host\<lparr>sh_env := sample_env\<lparr>e_run := (\<lambda>_ argv _. if last argv = ''users'' then Completed 0 workers_text []
     else Completed 1 [] [])\<rparr>\<rparr>"

lemma workers_text_masked: "mask_text workers_text [] = workers_text"
  by code_simp

lemma worker_occtl:
  assumes "[] \<notin> set args" "args \<noteq> []"
  shows "\<exists>r w'. occtl worker_host sample_app j args w = (Inr r, w')
    \<and> (if last args = ''users'' then r_code r = 0 \<and> r_out r = workers_text else r_code r = 1)"
proof -
  have named: "sockets_named worker_host" by (simp add: sockets_named_def worker_host_def table_host_def)
  have "\<not> list_ex (\<lambda>a. a = []) (occtl_argv worker_host sample_app j args w)"
    using assms socket_not_empty [OF named, of sample_app w] by (auto simp: occtl_argv_def list_ex_iff dest: sym)
  moreover have "occtl_argv worker_host sample_app j args w \<noteq> []" "last (occtl_argv worker_host sample_app j args w) = last args"
    using assms by (simp_all add: occtl_argv_def)
  ultimately show ?thesis
    by (simp add: occtl_is run_command_def run_captured_def no_check_def default_options_def andthen_def
        spawn_def ret_def worker_host_def table_host_def sample_env_def masked_result_def listing_text_masked
        workers_text_masked Let_def)
qed

lemma al_is_worker: "is_worker ck workers_text ''al'' i \<longleftrightarrow> i = ''7''"
proof -
  have "worker_ids_in ck ''al'' workers_text = [''7'']" by code_simp
  then show ?thesis using worker_ids_exactly [of i ck "''al''" workers_text] by simp
qed

lemma kick_disconnects_the_users_workers_witness:
  "\<exists>w2 r w'. kick worker_host sample_app ''al'' False sample_world = (Inr r, w')
    \<and> questions w2 w' = [[''disconnect'', ''id'', ''7'']]"
proof -
  have named: "sockets_named worker_host" by (simp add: sockets_named_def worker_host_def table_host_def)
  obtain r1 w1 where 1: "occtl worker_host sample_app False [''disconnect'', ''user'', ''al''] sample_world = (Inr r1, w1)" "\<not> ok r1"
    using worker_occtl [of "[''disconnect'', ''user'', ''al'']" False sample_world] by (auto simp: ok_def)
  obtain r2 w2 where 2: "occtl worker_host sample_app True [''show'', ''users''] w1 = (Inr r2, w2)" "ok r2" "r_out r2 = workers_text"
    using worker_occtl [of "[''show'', ''users'']" True w1] by (auto simp: ok_def)
  obtain ids r w' where k: "kick worker_host sample_app ''al'' False sample_world = (Inr r, w')" "distinct ids" "set ids = {''7''}"
      "questions w2 w' = map (\<lambda>i. [''disconnect'', ''id'', i]) ids"
    using kick_disconnects_the_users_workers [OF named 1 2(1,2)] by (auto simp: 2(3) al_is_worker)
  then have "ids = [''7'']" by (metis distinct.simps(2) list.exhaust list.set(2) set_ConsD singletonD singletonI empty_iff empty_set insert_iff list.set_intros)
  then show ?thesis using k by auto
qed

definition sample_clocks :: clocks where
  "sample_clocks = \<lparr>ck_epoch = 1800000000, ck_local = 1800000000, ck_number = py_int, ck_text = (\<lambda>_. [])\<rparr>"

lemma json_listing_reads_back_witness:
  "parse_json_sessions sample_clocks None (json_dumps (JList [session_json sample_clocks (alice\<lparr>sr_duration := Some 60\<rparr>)]))
    = [alice\<lparr>sr_duration := Some 60\<rparr>]"
proof -
  have "listable sample_clocks (alice\<lparr>sr_duration := Some 60\<rparr>)"
    by (simp add: listable_def alice_def bare_session_def sample_clocks_def min_epoch_def)
  moreover have "exact_numbers sample_clocks" by (simp add: exact_numbers_def sample_clocks_def)
  ultimately show ?thesis using json_listing_reads_back [of sample_clocks "[alice\<lparr>sr_duration := Some 60\<rparr>]"] by simp
qed


section \<open>Where the readers go wrong\<close>

text \<open>The line of average rates of \<open>occtl show user\<close> also has the labels of the totals: the totals of
  the session are replaced by the rates, and the rates are not read.\<close>

definition detail_lines :: "string list" where
  "detail_lines = [''Username: lans'', ''RX: 214 kB'', ''Average bandwidth RX: 1.4 kB/s'']"

lemma detail_fields:
  "map strip detail_lines = detail_lines"
  "map username_label detail_lines = [Some ''lans'', None, None]"
  "map traffic_from_line detail_lines = [[], [(''rx'', ''214 kB'')], [(''rx'', ''1.4 kB/s'')]]"
  "map labelled_fields detail_lines = [[], [(''rx'', ''214 kB'')], []]"
  by code_simp+

theorem average_replaces_the_total:
  "block_lines ck None [] detail_lines = [(bare_session ''lans'')\<lparr>sr_rx := Some ''1.4 kB/s''\<rparr>]"
  using detail_fields
  by (simp add: detail_lines_def line_fields_def flushed_def bare_session_def parse_duration_seconds_def Let_def)

text \<open>A loose row with an elapsed time is skipped for its colon, so the branch that reads such a time
  is never reached.\<close>

theorem loose_times_are_never_read:
  "loose_sessions ck ''10.10.10.0/24'' ''lans 77.83.3.157 00:03:21'' = Inr []"
  "loose_connected [''77.83.3.157'', ''00:03:21''] = Some ''00:03:21''"
  by code_simp+

text \<open>The details of a user are all sessions of the user, and every session of the user is completed
  from the first: two devices of one user end up with one VPN address, and routing is refused to
  the second.\<close>

theorem second_device_is_hidden:
  assumes "occtl h c True [''show'', ''user'', sr_username s] w = (Inr r, w1)" "ok r"
    and "parse_json_sessions (now_clocks h w1) (Some (sr_username s)) (r_out r) = d # ds"
    and "sr_vpn_ip d = Some a" "a \<noteq> []"
  shows "\<exists>s'. enrich_session h c s w = (Inr s', w1) \<and> sr_vpn_ip s' = Some a"
  using assms by (simp add: enrich_session_def andthen_def current_def ret_def with_first_def merge_session_detail_def text_or_def)

text \<open>A session whose id begins with these letters is taken for a heading.\<close>

theorem some_ids_are_skipped: "parse_session_ids (''SID'' @ [LF] @ ''IDx9aB'' @ [LF] @ ''abc123'') = [''SID'', ''abc123'']"
  by code_simp

end
