(* ===== verification/Panel_Settings.thy ===== *)
theory Panel_Settings
  imports Config_Editor Certificates Sessions Internal_Dns Host_Dns Passwd
begin

text \<open>
  The routes of the panel that change the configuration and then act on it:
  \<open>api/routes_certificates.py\<close>, \<open>routes_identity.py\<close>, \<open>routes_server.py\<close>, \<open>routes_routing.py\<close>,
  \<open>routes_internal_dns.py\<close>, \<open>routes_groups.py\<close>, \<open>routes_web_config.py\<close> and the rotation settings of
  \<open>routes_logs.py\<close>. A form is the list of its validated fields. Most routes merge a patch with
  \<open>apply_config_patch\<close>; those of certificates and logs edit the file on their own. The YAML and
  validation parameters are those of \<open>Config_Editor\<close>.
\<close>

type_synonym mapping = "(string \<times> json) list"

definition with_config :: "(app_config \<Rightarrow> (panel_config, 'a) action) \<Rightarrow> (panel_config, 'a) action" where
  "with_config f = (\<lambda>s. f (pc_config s) s)"

definition texts :: "string list \<Rightarrow> json" where
  "texts xs = JList (map JStr xs)"

section \<open>Certificates: a section replaced in the file\<close>

text \<open>\<open>_load_yaml_mapping\<close>, and \<open>setdefault\<close> of a section that must be a mapping.\<close>

definition load_yaml_mapping :: "editor \<Rightarrow> world \<Rightarrow> mapping result" where
  "load_yaml_mapping ed w = (case files w (ed_path ed) of None \<Rightarrow> Inr []
     | Some t \<Rightarrow> res_bind (ld_yaml (ed_loader ed) (read_text t)) (\<lambda>j.
         case j of JNull \<Rightarrow> Inr [] | JDict kvs \<Rightarrow> Inr kvs | _ \<Rightarrow> Inl ValueError))"

definition section_of :: "mapping \<Rightarrow> string \<Rightarrow> mapping result" where
  "section_of data k = (case map_of data k of None \<Rightarrow> Inr [] | Some (JDict s) \<Rightarrow> Inr s | Some _ \<Rightarrow> Inl ValueError)"

definition updated :: "mapping \<Rightarrow> mapping \<Rightarrow> mapping" where
  "updated s patch = foldl (\<lambda>m (k, v). AList.update k v m) s patch"

text \<open>The file is written first and loaded afterwards; nothing is validated before.\<close>

definition replace_in_section :: "editor \<Rightarrow> env \<Rightarrow> string \<Rightarrow> mapping \<Rightarrow> (panel_config, app_config) action" where
  "replace_in_section ed env name patch =
     andthen (on_world current) (\<lambda>w.
     andthen (lift_result (load_yaml_mapping ed w)) (\<lambda>data.
     andthen (lift_result (section_of data name)) (\<lambda>s.
     andthen (store_config ed env (AList.update name (JDict (updated s patch)) data) False) (\<lambda>(c, _). ret c))))"

definition update_certificate_config :: "editor \<Rightarrow> env \<Rightarrow> mapping \<Rightarrow> (panel_config, app_config) action" where
  "update_certificate_config ed env patch = replace_in_section ed env ''certificates'' patch"

definition rewrite_rendered :: "editor \<Rightarrow> env \<Rightarrow> app_config \<Rightarrow> (panel_config, app_config) action" where
  "rewrite_rendered ed env c =
     andthen (on_world (write_rendered_files env (ed_templates ed) c)) (\<lambda>_.
     andthen (set_config c) (\<lambda>_. ret c))"

definition mode_name :: "cert_mode \<Rightarrow> string" where
  "mode_name m = (case m of Auto_certs \<Rightarrow> ''auto'' | External_certs \<Rightarrow> ''external'')"

definition save_certificate_settings :: "editor \<Rightarrow> env \<Rightarrow> cert_mode \<Rightarrow> string \<Rightarrow> (panel_config, app_config) action" where
  "save_certificate_settings ed env m n =
     andthen (update_certificate_config ed env [(''mode'', JStr (mode_name m)), (''ca_name'', JStr n)])
       (rewrite_rendered ed env)"

definition write_and_reload :: "editor \<Rightarrow> env \<Rightarrow> app_config \<Rightarrow> bool \<Rightarrow> (panel_config, command_result option) action" where
  "write_and_reload ed env c reload =
     andthen (on_world (write_rendered_files env (ed_templates ed) c)) (\<lambda>_.
     if \<not> reload then ret None else andthen (on_world (server_reload env False)) (\<lambda>r. ret (Some r)))"

definition paths_patch :: "string \<Rightarrow> string \<Rightarrow> string \<Rightarrow> mapping" where
  "paths_patch cert key ca = [(''mode'', JStr ''external''), (''server_cert'', JStr cert), (''server_key'', JStr key),
     (''ca_cert'', JStr ca)]"

definition activate_external_config :: "editor \<Rightarrow> env \<Rightarrow> server_certificate_paths \<Rightarrow> (panel_config, app_config) action" where
  "activate_external_config ed env p = update_certificate_config ed env
     (paths_patch (scp_cert p) (scp_key p) (scp_ca p) @ [(''letsencrypt'', JDict [(''enabled'', JBool False)])])"

definition upload_external :: "editor \<Rightarrow> env \<Rightarrow> string \<Rightarrow> string \<Rightarrow> string \<Rightarrow> bool
    \<Rightarrow> (panel_config, app_config \<times> command_result option) action" where
  "upload_external ed env cert key ca reload = with_config (\<lambda>c0.
     andthen (on_world (save_external_material c0 cert key ca)) (\<lambda>p.
     andthen (activate_external_config ed env p) (\<lambda>c.
     andthen (write_and_reload ed env c reload) (\<lambda>r. ret (c, r)))))"

text \<open>Let's Encrypt: the domains of the form as the configuration validates them.\<close>

definition le_json :: "letsencrypt_config \<Rightarrow> json" where
  "le_json le = JDict [(''enabled'', JBool (le_enabled le)), (''email'', str_json (le_email le)),
     (''domains'', texts (le_domains le)), (''renew_reload'', JBool (renew_reload le)),
     (''auto_renew_enabled'', JBool (auto_renew_enabled le)), (''auto_renew_interval'', JInt (auto_renew_interval le)),
     (''auto_renew_interval_unit'', JStr (unit_name (auto_renew_interval_unit le))),
     (''http01_address'', str_json (http01_address le)), (''http01_port'', JInt (http01_port le))]"

definition form_domains :: "string list \<Rightarrow> string list" where
  "form_domains ds = map (\<lambda>d. rstrip_char CHR ''.'' (strip d)) (filter (\<lambda>d. strip d \<noteq> []) ds)"

definition save_letsencrypt_settings :: "editor \<Rightarrow> env \<Rightarrow> letsencrypt_config \<Rightarrow> (panel_config, app_config) action" where
  "save_letsencrypt_settings ed env form =
     andthen (lift_result (check_letsencrypt (form\<lparr>le_domains := form_domains (le_domains form)\<rparr>))) (\<lambda>le.
     andthen (update_certificate_config ed env [(''letsencrypt'', le_json le)]) (rewrite_rendered ed env))"

record issue_request =
  ir_le :: letsencrypt_config
  ir_email :: string
  ir_staging :: bool
  ir_reload :: bool
  ir_dry :: bool

definition valid_email :: "string \<Rightarrow> bool" where
  "valid_email e = (CHR ''@'' \<in> set e \<and> hd e \<noteq> CHR ''@'' \<and> last e \<noteq> CHR ''@'')"

definition activate_letsencrypt_config :: "editor \<Rightarrow> env \<Rightarrow> app_config \<Rightarrow> server_certificate_paths \<Rightarrow> letsencrypt_config
    \<Rightarrow> (panel_config, app_config) action" where
  "activate_letsencrypt_config ed env c p le = update_certificate_config ed env
     (paths_patch (scp_cert p) (scp_key p) (cert_path c ''ca.crt'') @ [(''letsencrypt'', le_json le)])"

definition issue_validated :: "editor \<Rightarrow> env \<Rightarrow> issue_request \<Rightarrow> app_config \<Rightarrow> string list
    \<Rightarrow> (panel_config, command_result \<times> app_config option \<times> command_result option) action" where
  "issue_validated ed env r c0 domains =
     andthen (on_world (issue_letsencrypt env [] c0 (ir_email r) domains (ir_staging r) (ir_dry r))) (\<lambda>res.
     if ir_dry r then ret (res, None, None)
     else andthen (lift_result (letsencrypt_paths c0 (Some (hd domains)))) (\<lambda>p.
       andthen (on_world current) (\<lambda>w.
       andthen (if files w (cert_path c0 ''ca.key'') = None \<or> files w (cert_path c0 ''ca.crt'') = None
                then on_world (andthen (init_ca env [] c0 False) (\<lambda>_. ret ())) else ret ()) (\<lambda>_.
       let le = letsencrypt (app_certificates c0) in
       andthen (activate_letsencrypt_config ed env c0 p ((ir_le r)\<lparr>le_enabled := True, le_email := Some (ir_email r),
          le_domains := domains, renew_reload := ir_reload r, http01_address := http01_address le,
          http01_port := http01_port le\<rparr>)) (\<lambda>c.
       andthen (write_and_reload ed env c (ir_reload r)) (\<lambda>rl. ret (res, Some c, rl)))))))"

definition issue_letsencrypt_route :: "editor \<Rightarrow> env \<Rightarrow> issue_request
    \<Rightarrow> (panel_config, command_result \<times> app_config option \<times> command_result option) action" where
  "issue_letsencrypt_route ed env r = with_config (\<lambda>c0.
     if \<not> valid_email (ir_email r) then throw ValueError
     else andthen (lift_result (res_map validate_domain (form_domains (le_domains (ir_le r))))) (issue_validated ed env r c0))"

definition renew_letsencrypt_route :: "editor \<Rightarrow> env \<Rightarrow> bool \<Rightarrow> bool
    \<Rightarrow> (panel_config, command_result \<times> command_result option) action" where
  "renew_letsencrypt_route ed env reload dryrun = with_config (\<lambda>c.
     andthen (on_world (renew_letsencrypt env [] c dryrun)) (\<lambda>res.
     andthen (if \<not> dryrun \<and> renew_reload (letsencrypt (app_certificates c)) then write_and_reload ed env c reload else ret None)
       (\<lambda>rl. ret (res, rl))))"

text \<open>\<open>save_rotation_settings\<close> of the log routes, with the same edit of the file.\<close>

definition save_rotation_settings :: "editor \<Rightarrow> env \<Rightarrow> mapping \<Rightarrow> (panel_config, app_config) action" where
  "save_rotation_settings ed env form = replace_in_section ed env ''system'' [(''log_rotation'', JDict form)]"


section \<open>Identity providers and group policies\<close>

text \<open>\<open>model_dump(mode='json')\<close> of a provider and of a policy, in the order of their fields.\<close>

definition provider_dump :: "oidc_provider_config \<Rightarrow> mapping" where
  "provider_dump p = [(''name'', JStr (op_name p)), (''issuer_url'', JStr (issuer_url p)), (''client_id'', JStr (client_id p)),
     (''client_secret'', str_json (client_secret p)), (''scopes'', texts (scopes p)),
     (''username_claim'', JStr (username_claim p)), (''groups_claim'', JStr (groups_claim p)),
     (''allowed_groups'', texts (allowed_groups p))]"

definition opt_json :: "('a \<Rightarrow> json) \<Rightarrow> 'a option \<Rightarrow> json" where
  "opt_json f v = (case v of None \<Rightarrow> JNull | Some x \<Rightarrow> f x)"

definition policy_dump :: "group_policy_config \<Rightarrow> mapping" where
  "policy_dump g = [(''name'', JStr (gp_name g)), (''display_name'', str_json (display_name g)), (''routes'', texts (gp_routes g)),
     (''no_routes'', texts (gp_no_routes g)), (''dns'', texts (gp_dns g)), (''split_dns'', texts (gp_split_dns g)),
     (''tunnel_all_dns'', opt_json JBool (tunnel_all_dns g)), (''max_same_clients'', opt_json JInt (gp_max_same_clients g)),
     (''session_timeout'', opt_json JInt (session_timeout g)), (''idle_timeout'', opt_json JInt (idle_timeout g)),
     (''no_udp'', opt_json JBool (gp_no_udp g))]"

definition providers_patch :: "oidc_provider_config list \<Rightarrow> mapping" where
  "providers_patch ps = [(''identity'', JDict [(''oidc_providers'', JList (map (\<lambda>p. JDict (provider_dump p)) ps))])]"

definition policies_patch :: "group_policy_config list \<Rightarrow> mapping" where
  "policies_patch gs = [(''identity'', JDict [(''group_policies'', JList (map (\<lambda>g. JDict (policy_dump g)) gs))])]"

definition other_providers :: "app_config \<Rightarrow> string \<Rightarrow> oidc_provider_config list" where
  "other_providers c n = filter (\<lambda>p. op_name p \<noteq> n) (oidc_providers (app_identity c))"

definition other_policies :: "app_config \<Rightarrow> string \<Rightarrow> group_policy_config list" where
  "other_policies c n = filter (\<lambda>g. gp_name g \<noteq> n) (group_policies (app_identity c))"

text \<open>The form is the provider, with its defaults; a secret that is not sent is none.\<close>

definition save_oidc_provider :: "editor \<Rightarrow> env \<Rightarrow> oidc_provider_config \<Rightarrow> (panel_config, app_config \<times> string list) action" where
  "save_oidc_provider ed env form = with_config (\<lambda>c.
     andthen (lift_result (check_oidc_provider form)) (\<lambda>p.
     apply_config_patch ed env (providers_patch (other_providers c (op_name p) @ [p])) True))"

definition delete_oidc_provider :: "editor \<Rightarrow> env \<Rightarrow> string \<Rightarrow> (panel_config, app_config \<times> string list) action" where
  "delete_oidc_provider ed env n = with_config (\<lambda>c. apply_config_patch ed env (providers_patch (other_providers c n)) True)"

definition save_group_policy :: "editor \<Rightarrow> env \<Rightarrow> group_policy_config \<Rightarrow> (panel_config, app_config \<times> string list) action" where
  "save_group_policy ed env form = with_config (\<lambda>c.
     andthen (lift_result (check_group_policy form)) (\<lambda>g.
     apply_config_patch ed env (policies_patch (other_policies c (gp_name g) @ [g])) True))"

definition delete_group_policy :: "editor \<Rightarrow> env \<Rightarrow> string \<Rightarrow> (panel_config, app_config \<times> string list) action" where
  "delete_group_policy ed env n = with_config (\<lambda>c. apply_config_patch ed env (policies_patch (other_policies c n)) True)"

definition save_identity_settings :: "editor \<Rightarrow> env \<Rightarrow> bool \<Rightarrow> string option \<Rightarrow> string option
    \<Rightarrow> (panel_config, app_config \<times> string list) action" where
  "save_identity_settings ed env by_url dflt conf = apply_config_patch ed env [(''identity'', JDict
     [(''select_group_by_url'', JBool by_url), (''default_select_group'', str_json dflt),
      (''default_group_config'', str_json conf)])] True"

definition mask_provider :: "oidc_provider_config \<Rightarrow> mapping" where
  "mask_provider p = map (\<lambda>(k, v). (k, if v \<noteq> JNull \<and> v \<noteq> JStr [] \<and> is_secret_key k then JStr stars else v)) (provider_dump p)"

section \<open>Server settings\<close>

text \<open>A change of the server is followed by a restart or a reload of ocserv.\<close>

definition patch_and_apply :: "editor \<Rightarrow> env \<Rightarrow> mapping \<Rightarrow> bool
    \<Rightarrow> (panel_config, app_config \<times> string list \<times> command_result option) action" where
  "patch_and_apply ed env patch reload = with_config (\<lambda>c0.
     andthen (on_world current) (\<lambda>w. let previous = render_ocserv (path_exists w) c0 in
     andthen (apply_config_patch ed env patch True) (\<lambda>(c, written).
     andthen (if reload then on_world (apply_config_change env (ed_templates ed) c previous False) else ret None) (\<lambda>r.
     ret (c, written, r)))))"

definition save_server_settings :: "editor \<Rightarrow> env \<Rightarrow> mapping \<Rightarrow> bool
    \<Rightarrow> (panel_config, app_config \<times> string list \<times> command_result option) action" where
  "save_server_settings ed env form reload = patch_and_apply ed env [(''server'', JDict form)] reload"

text \<open>The fields of a form that was sent, and those it left out.\<close>

record auth_form =
  af_password :: bool
  af_certificate :: bool
  af_otp :: bool
  af_oath :: bool
  af_issuer :: string
  af_by_email :: bool
  af_by_telegram :: bool
  af_sent :: "string \<Rightarrow> string option option"
  af_smtp_port :: "int option"
  af_starttls :: "bool option"

definition sent_or :: "auth_form \<Rightarrow> string \<Rightarrow> string option \<Rightarrow> json" where
  "sent_or f k was = str_json (case af_sent f k of None \<Rightarrow> was | Some v \<Rightarrow> v)"

definition given_or :: "auth_form \<Rightarrow> string \<Rightarrow> string option \<Rightarrow> json" where
  "given_or f k was = str_json (case af_sent f k of Some (Some v) \<Rightarrow> if v = [] then was else Some v | _ \<Rightarrow> was)"

definition otp_settings_from_payload :: "auth_form \<Rightarrow> app_config \<Rightarrow> mapping" where
  "otp_settings_from_payload f c = (let o0 = otp (app_auth c) in
     [(''enabled'', JBool (af_otp f)), (''ocserv_oath_auth'', JBool (af_oath f)), (''issuer'', JStr (af_issuer f)),
      (''send_by_email'', JBool (af_by_email f)), (''send_by_telegram'', JBool (af_by_telegram f)),
      (''smtp_host'', sent_or f ''otp_smtp_host'' (smtp_host o0)),
      (''smtp_port'', JInt (case af_smtp_port f of None \<Rightarrow> smtp_port o0 | Some n \<Rightarrow> n)),
      (''smtp_username'', sent_or f ''otp_smtp_username'' (smtp_username o0)),
      (''smtp_password'', given_or f ''otp_smtp_password'' (smtp_password o0)),
      (''smtp_from'', sent_or f ''otp_smtp_from'' (smtp_from o0)),
      (''smtp_starttls'', JBool (case af_starttls f of None \<Rightarrow> smtp_starttls o0 | Some b \<Rightarrow> b)),
      (''smtp_test_recipient'', sent_or f ''otp_smtp_test_recipient'' (smtp_test_recipient o0)),
      (''telegram_bot_token'', given_or f ''otp_telegram_bot_token'' (telegram_bot_token o0)),
      (''telegram_chat_id'', sent_or f ''otp_telegram_chat_id'' (telegram_chat_id o0))])"

definition save_auth_methods_settings :: "editor \<Rightarrow> env \<Rightarrow> auth_form
    \<Rightarrow> (panel_config, app_config \<times> string list \<times> command_result option) action" where
  "save_auth_methods_settings ed env f = with_config (\<lambda>c.
     patch_and_apply ed env [(''auth'', JDict [(''password'', JDict [(''enabled'', JBool (af_password f))]),
       (''certificate'', JDict [(''enabled'', JBool (af_certificate f))]),
       (''otp'', JDict (otp_settings_from_payload f c))])] True)"

definition save_oidc_settings :: "editor \<Rightarrow> env \<Rightarrow> mapping
    \<Rightarrow> (panel_config, app_config \<times> string list \<times> command_result option) action" where
  "save_oidc_settings ed env form = patch_and_apply ed env [(''auth'', JDict [(''oidc'', JDict form)])] True"

definition save_web_settings :: "editor \<Rightarrow> env \<Rightarrow> mapping \<Rightarrow> (panel_config, app_config \<times> string list) action" where
  "save_web_settings ed env form = apply_config_patch ed env [(''web'', JDict form)] True"


section \<open>Routing settings and lists\<close>

record routing_form =
  rf_client_traffic :: bool
  rf_mode_name :: string
  rf_tunnel_dns :: bool
  rf_host_traffic :: bool
  rf_host_mode :: string
  rf_host_dns :: "string option"
  rf_main_interface :: "string option"
  rf_fwmark :: "string option"
  rf_table_id :: "int option"
  rf_nft_prefix :: "string option"
  rf_lists :: split_config
  rf_host_lists :: split_config

definition lists_json :: "split_config \<Rightarrow> mapping" where
  "lists_json l = [(''routes_files'', texts (routes_files l)), (''routes_urls'', texts (routes_urls l)),
     (''domains_files'', texts (domains_files l)), (''domains_urls'', texts (domains_urls l))]"

definition routing_patch :: "routing_form \<Rightarrow> mapping" where
  "routing_patch f = [(''client_traffic'', JBool (rf_client_traffic f)), (''mode'', JStr (rf_mode_name f)),
     (''host_traffic'', JBool (rf_host_traffic f)), (''host_mode'', JStr (rf_host_mode f)),
     (''split'', JDict ((''tunnel_dns'', JBool (rf_tunnel_dns f)) # lists_json (rf_lists f))),
     (''host_split'', JDict (lists_json (rf_host_lists f)))]
     @ given ''host_dns'' JStr (rf_host_dns f) @ given ''main_interface'' JStr (rf_main_interface f)
     @ given ''fwmark'' JStr (rf_fwmark f) @ given ''table_id'' JInt (rf_table_id f) @ given ''nft_prefix'' JStr (rf_nft_prefix f)"

definition save_routing_settings :: "editor \<Rightarrow> env \<Rightarrow> host_mount \<Rightarrow> routing_form
    \<Rightarrow> (panel_config, app_config \<times> string list \<times> host_dns_result) action" where
  "save_routing_settings ed env m f =
     andthen (apply_config_patch ed env [(''routing'', JDict (routing_patch f))] True) (\<lambda>(c, written).
     andthen (on_world (host_dns_apply env m c)) (\<lambda>r. ret (c, written, r)))"

text \<open>The four refresh routes: only a saved address, and rendered anew when its list was saved.\<close>

definition refresh_route :: "editor \<Rightarrow> env \<Rightarrow> string \<Rightarrow> (app_config \<Rightarrow> string list)
    \<Rightarrow> (app_config \<Rightarrow> string \<Rightarrow> bool \<Rightarrow> (world, list_fetch) action) \<Rightarrow> string \<Rightarrow> bool
    \<Rightarrow> (panel_config, list_fetch \<times> string list) action" where
  "refresh_route ed env key saved_urls refresh_one url preview = with_config (\<lambda>c.
     if url \<notin> set (saved_urls c) then throw (HttpError 400 (''url is not one of the saved '' @ key @ ''; save it first''))
     else andthen (on_world (refresh_one c url preview)) (\<lambda>r.
       andthen (if lf_saved r then on_world (write_rendered_files env (ed_templates ed) c) else ret []) (\<lambda>written.
       ret (r, written))))"

definition refresh_routes_url :: "editor \<Rightarrow> env \<Rightarrow> string \<Rightarrow> bool \<Rightarrow> (panel_config, list_fetch \<times> string list) action" where
  "refresh_routes_url ed env = refresh_route ed env ''routing.split.routes_urls'' (\<lambda>c. routes_urls (rt_split (app_routing c))) (refresh_route_url env)"

definition refresh_domains_url :: "editor \<Rightarrow> env \<Rightarrow> string \<Rightarrow> bool \<Rightarrow> (panel_config, list_fetch \<times> string list) action" where
  "refresh_domains_url ed env = refresh_route ed env ''routing.split.domains_urls'' (\<lambda>c. domains_urls (rt_split (app_routing c))) (refresh_domain_url env)"

definition refresh_host_routes_url :: "editor \<Rightarrow> env \<Rightarrow> string \<Rightarrow> bool \<Rightarrow> (panel_config, list_fetch \<times> string list) action" where
  "refresh_host_routes_url ed env = refresh_route ed env ''routing.host_split.routes_urls'' (\<lambda>c. routes_urls (host_split (app_routing c))) (refresh_host_route_url env)"

definition refresh_host_domains_url :: "editor \<Rightarrow> env \<Rightarrow> string \<Rightarrow> bool \<Rightarrow> (panel_config, list_fetch \<times> string list) action" where
  "refresh_host_domains_url ed env = refresh_route ed env ''routing.host_split.domains_urls'' (\<lambda>c. domains_urls (host_split (app_routing c))) (refresh_host_domain_url env)"

definition reload_routing :: "editor \<Rightarrow> env \<Rightarrow> bool \<Rightarrow> string option \<Rightarrow> (panel_config, command_result list) action" where
  "reload_routing ed env dryrun outbound = with_config (\<lambda>c.
     andthen (if dryrun then ret [] else on_world (write_rendered_files env (ed_templates ed) c)) (\<lambda>_.
     andthen (on_world (nft_apply env [] (t_printer (ed_templates ed)) c dryrun outbound)) (\<lambda>rs.
     ret (map (\<lambda>r. r\<lparr>r_argv := [''korctl'', ''routes'', ''reload'']\<rparr>) rs))))"

section \<open>Internal DNS\<close>

text \<open>The fields of the form; what clients are told is the server's DNS, search domains and tunnel.\<close>

record dns_form =
  df_server_dns :: "string list"
  df_search :: "string list"
  df_tunnel :: bool
  df_internal :: mapping

definition client_dns_signature :: "(string \<Rightarrow> bool) \<Rightarrow> app_config \<Rightarrow> string list \<times> string list \<times> bool" where
  "client_dns_signature ex c = (client_dns_servers ex c, search_domains (app_server c), dns_tunnel_active ex c)"

definition dns_patch :: "dns_form \<Rightarrow> mapping" where
  "dns_patch f = [(''server'', JDict [(''dns'', texts (df_server_dns f)), (''search_domains'', texts (df_search f))]),
     (''routing'', JDict [(''split'', JDict [(''tunnel_dns'', JBool (df_tunnel f))])]),
     (''internal_dns'', JDict (df_internal f))]"

text \<open>The clients to disconnect are handed to a task that runs after the answer.\<close>

definition reconnect_users :: "session_host \<Rightarrow> app_config \<Rightarrow> (world, command_result \<times> string list) action" where
  "reconnect_users h c =
     andthen (server_reload (sh_env h) False) (\<lambda>r.
     andthen (if ok r then list_sessions h c else ret []) (\<lambda>ss. ret (r, uniq [] (map sr_username ss))))"

definition apply_dns_configuration :: "editor \<Rightarrow> session_host \<Rightarrow> app_config \<Rightarrow> bool
    \<Rightarrow> (world, command_result list \<times> string list) action" where
  "apply_dns_configuration ed h c reconnect = (let env = sh_env h in
     andthen (write_rendered_files env (ed_templates ed) c) (\<lambda>_.
     andthen current (\<lambda>w.
     andthen (if dns_tunnel_active (path_exists w) c
              then andthen (ensure_listen_address env [] c False) (\<lambda>_. process_action env ''restart'' ''dnsmasq'' False)
              else process_action env ''stop'' ''dnsmasq'' False) (\<lambda>d.
     if \<not> reconnect then ret ([d], [])
     else andthen (reconnect_users h c) (\<lambda>(r, users). ret ([d, r], users))))))"

definition disconnect_dns_clients :: "session_host \<Rightarrow> app_config \<Rightarrow> string list \<Rightarrow> (world, unit) action" where
  "disconnect_dns_clients h c users = andthen (action_map (\<lambda>u. kick h c u False) users) (\<lambda>_. ret ())"

definition save_internal_dns_settings :: "editor \<Rightarrow> session_host \<Rightarrow> dns_form
    \<Rightarrow> (panel_config, app_config \<times> bool \<times> command_result list) action" where
  "save_internal_dns_settings ed h f = with_config (\<lambda>c0.
     andthen (on_world current) (\<lambda>w0.
     andthen (apply_config_patch ed (sh_env h) (dns_patch f) True) (\<lambda>(c, _).
     andthen (on_world current) (\<lambda>w.
     let reconnect = (client_dns_signature (path_exists w0) c0 \<noteq> client_dns_signature (path_exists w) c) in
     andthen (on_world (apply_dns_configuration ed h c reconnect)) (\<lambda>(rs, users).
     andthen (on_world current) (\<lambda>w2.
     andthen (lift_result (internal_dns_status (sh_env h) c w2)) (\<lambda>_.
     andthen (on_world (disconnect_dns_clients h c users)) (\<lambda>_. ret (c, reconnect, rs)))))))))"

definition apply_internal_dns :: "editor \<Rightarrow> session_host \<Rightarrow> (panel_config, command_result list) action" where
  "apply_internal_dns ed h = with_config (\<lambda>c.
     andthen (on_world (apply_dns_configuration ed h c True)) (\<lambda>(rs, users).
     andthen (on_world (disconnect_dns_clients h c users)) (\<lambda>_. ret rs)))"

definition refresh_blocklist :: "editor \<Rightarrow> env \<Rightarrow> string \<Rightarrow> bool \<Rightarrow> (panel_config, blocklist_fetch \<times> string list) action" where
  "refresh_blocklist ed env url preview = with_config (\<lambda>c.
     if url \<notin> set (blocklist_urls (app_internal_dns c))
     then throw (HttpError 400 ''url is not one of the saved internal_dns.blocklist_urls; save it first'')
     else andthen (on_world (refresh_url_blocklist env c url preview)) (\<lambda>r.
       andthen (if bf_saved r \<and> blocklist_enabled (app_internal_dns c)
                then on_world (write_rendered_files env (ed_templates ed) c) else ret []) (\<lambda>written. ret (r, written))))"

section \<open>Deleting a group\<close>

definition leave_group :: "app_config \<Rightarrow> string \<Rightarrow> user_record \<Rightarrow> (world, string list) action" where
  "leave_group c n u = (let rest = filter (\<lambda>g. g \<noteq> n) (ur_groups u) in
     if length rest \<noteq> length (ur_groups u)
     then andthen (set_user_groups c (ur_username u) rest) (\<lambda>_. ret [ur_username u]) else ret [])"

definition clear_members :: "app_config \<Rightarrow> string \<Rightarrow> (world, string list) action" where
  "clear_members c n = andthen current (\<lambda>w.
     andthen (action_map (leave_group c n) (list_users c w)) (\<lambda>xs. ret (concat xs)))"

definition delete_group :: "editor \<Rightarrow> env \<Rightarrow> string \<Rightarrow> (panel_config, bool \<times> bool \<times> string list) action" where
  "delete_group ed env n = with_config (\<lambda>c.
     if \<not> username_re n then throw (HttpError 400 ''invalid group name'')
     else andthen (on_world (delete_group_config c n)) (\<lambda>gone.
       andthen (on_world (clear_members c n)) (\<lambda>members.
       andthen (apply_config_patch ed env (policies_patch (other_policies c n)) True) (\<lambda>_.
       ret (gone, length (other_policies c n) \<noteq> length (group_policies (app_identity c)), members)))))"

end
