(* ===== verification/Panel_Properties.thy ===== *)
theory Panel_Properties
  imports Panel_Settings Editor_Properties Session_Properties
begin

text \<open>
  What the settings routes of the panel guarantee: an edit of the certificate section touches only
  the keys it sets and the panel holds what the next start loads, and a change of the DNS the
  clients use disconnects every connected user once. Then the cases in which they lose or break
  what was configured.
\<close>

section \<open>The certificate section\<close>

lemma map_of_update: "map_of (AList.update k v d) k' = (if k' = k then Some v else map_of d k')"
  by (simp add: update_conv')

lemma map_of_updated: "distinct (map fst patch) \<Longrightarrow>
  map_of (updated s patch) k = (case map_of patch k of Some v \<Rightarrow> Some v | None \<Rightarrow> map_of s k)"
proof (induction patch arbitrary: s)
  case (Cons kv patch)
  obtain a v where kv: "kv = (a, v)" by (cases kv)
  have "map_of patch a = None" using Cons.prems kv by (simp add: map_of_eq_None_iff)
  moreover have "updated s (kv # patch) = updated (AList.update a v s) patch" by (simp add: updated_def kv)
  ultimately show ?case using Cons kv by (auto simp: map_of_update split: option.split)
qed (simp add: updated_def)

lemma updated_wf: "wf_json (JDict s) \<Longrightarrow> list_all (\<lambda>kv. wf_json (snd kv)) patch \<Longrightarrow> wf_json (JDict (updated s patch))"
proof (induction patch arbitrary: s)
  case (Cons kv patch)
  obtain a v where kv: "kv = (a, v)" by (cases kv)
  have "wf_json (JDict (AList.update a v s))" using Cons.prems kv by (intro update_wf) simp_all
  with Cons kv show ?case by (simp add: updated_def del: wf_json.simps)
qed (simp add: updated_def)

lemma loaded_wf:
  assumes "yaml_law ed" "load_yaml_mapping ed w = Inr data"
  shows "wf_json (JDict data)"
proof (cases "files w (ed_path ed)")
  case None
  with assms(2) show ?thesis by (simp add: load_yaml_mapping_def)
next
  case (Some t)
  then have "parse_yaml_mapping ed (read_text t) = Inr data"
    using assms(2) by (simp add: load_yaml_mapping_def parse_yaml_mapping_def)
  then show ?thesis by (rule parsed_wf [OF assms(1)])
qed

lemma section_wf: "wf_json (JDict data) \<Longrightarrow> section_of data k = Inr sec \<Longrightarrow> wf_json (JDict sec)"
proof -
  assume w: "wf_json (JDict data)" and "section_of data k = Inr sec"
  then consider "sec = []" | "map_of data k = Some (JDict sec)"
    by (auto simp: section_of_def split: option.splits json.splits)
  then show "wf_json (JDict sec)"
  proof cases
    case 2
    then show ?thesis using w map_of_SomeD [OF 2] by (metis snd_conv wf_json.simps(2))
  qed simp
qed

text \<open>Storing without rendering writes the file and loads it.\<close>

lemma store_config_plain:
  assumes "store_config ed env data False s = (r, s')"
  shows "files (pc_world s') = (files (pc_world s))(ed_path ed \<mapsto> ed_dump ed (JDict data))
    \<and> (case load_config (ed_loader ed) (Some (ed_path ed)) None [] (ed_environ ed) (pc_world s') of
         Inl e \<Rightarrow> r = Inl e \<and> pc_config s' = pc_config s | Inr c \<Rightarrow> r = Inr (c, []) \<and> pc_config s' = c)"
  using assms
  by (auto simp: store_config_def on_world_def atomic_write_text_def set_config_def andthen_def ret_def lift_result_def
      current_def split: sum.splits)

text \<open>C19. An edit of the certificate settings replaces exactly the keys it sets: every other key of the
  section and every other section of the file stay as they were. The panel answers as the next
  start will: it runs on what loading the new file gives, and an error is one the next start has
  as well.\<close>

theorem certificate_edit_replaces_only_its_keys:
  assumes "yaml_law ed" "load_yaml_mapping ed (pc_world s) = Inr data" "section_of data ''certificates'' = Inr sec"
    and "distinct (map fst patch)" "list_all (\<lambda>kv. wf_json (snd kv)) patch"
    and "update_certificate_config ed env patch s = (r, s')"
  shows "\<exists>data' sec'. load_yaml_mapping ed (pc_world s') = Inr data'
    \<and> (\<forall>k. k \<noteq> ''certificates'' \<longrightarrow> map_of data' k = map_of data k)
    \<and> map_of data' ''certificates'' = Some (JDict sec')
    \<and> (\<forall>k. map_of sec' k = (case map_of patch k of Some v \<Rightarrow> Some v | None \<Rightarrow> map_of sec k))
    \<and> load_config (ed_loader ed) (Some (ed_path ed)) None [] (ed_environ ed) (pc_world s') = r
    \<and> pc_config s' = (case r of Inr c \<Rightarrow> c | Inl _ \<Rightarrow> pc_config s)"
proof -
  let ?sec = "updated sec patch"
  let ?data = "AList.update ''certificates'' (JDict ?sec) data"
  have wf: "wf_json (JDict ?data)"
    using loaded_wf [OF assms(1,2)] section_wf [OF loaded_wf [OF assms(1,2)] assms(3)] assms(5)
    by (intro update_wf updated_wf) simp_all
  obtain r' where st: "store_config ed env ?data False s = (r', s')" "r = (case r' of Inr (c, _) \<Rightarrow> Inr c | Inl e \<Rightarrow> Inl e)"
    using assms(2,3,6)
    by (auto simp: update_certificate_config_def replace_in_section_def on_world_def current_def lift_result_def
        andthen_def ret_def split: prod.splits sum.splits)
  have "load_yaml_mapping ed (pc_world s') = Inr ?data"
    using store_config_plain [OF st(1)] assms(1) wf by (simp add: load_yaml_mapping_def yaml_law_def del: wf_json.simps)
  moreover have "load_config (ed_loader ed) (Some (ed_path ed)) None [] (ed_environ ed) (pc_world s') = r
      \<and> pc_config s' = (case r of Inr c \<Rightarrow> c | Inl _ \<Rightarrow> pc_config s)"
    using store_config_plain [OF st(1)] st(2) by (auto split: sum.splits)
  ultimately show ?thesis
    using map_of_updated [OF assms(4)] by (intro exI [of _ ?data] exI [of _ ?sec]) (auto simp: map_of_update)
qed


section \<open>DNS of the clients\<close>

text \<open>What a kick asks: the user by name, and then no user by name any more.\<close>

definition names_a_user :: "string list \<Rightarrow> bool" where
  "names_a_user q = (take 2 q = [''disconnect'', ''user''])"

lemma kick_questions:
  assumes "sockets_named h" "u \<noteq> []"
  shows "\<exists>r w'. kick h c u False w = (Inr r, w') \<and> extends w w'
    \<and> filter names_a_user (questions w w') = [[''disconnect'', ''user'', u]]"
proof -
  have a: "[] \<notin> set [''disconnect'', ''user'', u]" using assms(2) by simp
  obtain r1 w1 where 1: "occtl h c False [''disconnect'', ''user'', u] w = (Inr r1, w1)" "extends w w1"
      "questions w w1 = [[''disconnect'', ''user'', u]]"
    using run_occtl [OF assms(1) a] by blast
  have opts: "no_check\<lparr>o_dry_run := False\<rparr> = no_check" by (simp add: no_check_def default_options_def)
  obtain r2 w2 where 2: "occtl h c True [''show'', ''users''] w1 = (Inr r2, w2)" "extends w1 w2"
      "questions w1 w2 = [[''show'', ''users'']]"
    using run_occtl [OF assms(1), of "[''show'', ''users'']" c True w1] by auto
  let ?ids = "if ok r2 then worker_ids_in (now_clocks h w2) u (r_out r2) else []"
  have ne: "[] \<notin> set ?ids" using worker_ids_exactly [of "[]"] by (auto simp: is_worker_def)
  obtain rs w3 where 3: "action_map (\<lambda>i. occtl h c False [''disconnect'', ''id'', i]) ?ids w2 = (Inr rs, w3)"
      "extends w2 w3" "questions w2 w3 = map (\<lambda>i. [''disconnect'', ''id'', i]) ?ids"
    using disconnect_each [OF assms(1) ne] by blast
  have q: "questions w w3 = [''disconnect'', ''user'', u] # [''show'', ''users''] # map (\<lambda>i. [''disconnect'', ''id'', i]) ?ids"
    using questions_trans [OF 1(2) extends_trans [OF 2(2) 3(2)]] questions_trans [OF 2(2) 3(2)] 1(3) 2(3) 3(3) by simp
  have f: "filter names_a_user (questions w w3) = [[''disconnect'', ''user'', u]]"
    unfolding q by (simp add: names_a_user_def filter_map comp_def)
  have w: "worker_ids_for h c u w1 = (Inr ?ids, w2)"
    using 2(1) by (simp add: worker_ids_for_def andthen_def current_def ret_def)
  show ?thesis
  proof (cases "ok r1")
    case True
    then have "kick h c u False w = (Inr r1, w1)" using 1(1) by (simp add: kick_def andthen_def current_def ret_def opts occtl_is)
    then show ?thesis using 1(2,3) by (simp add: names_a_user_def)
  next
    case False
    have "\<exists>r. kick h c u False w = (Inr r, w3)"
    proof (cases "?ids = []")
      case True
      with 3(1) have "w3 = w2" by (simp add: ret_def)
      then show ?thesis using False True 1(1) w by (auto simp: kick_def andthen_def current_def ret_def opts occtl_is)
    next
      case nonempty: False
      then show ?thesis using False 1(1) w 3(1)
        by (auto simp: kick_def andthen_def current_def ret_def opts occtl_is disconnect_workers_def)
    qed
    then show ?thesis using f extends_trans [OF 1(2) extends_trans [OF 2(2) 3(2)]] by blast
  qed
qed

lemma disconnect_questions:
  assumes "sockets_named h" "[] \<notin> set users"
  shows "\<exists>w'. disconnect_dns_clients h c users w = (Inr (), w') \<and> extends w w'
    \<and> filter names_a_user (questions w w') = map (\<lambda>u. [''disconnect'', ''user'', u]) users"
proof -
  have "\<exists>rs w'. action_map (\<lambda>u. kick h c u False) users w = (Inr rs, w') \<and> extends w w'
      \<and> filter names_a_user (questions w w') = map (\<lambda>u. [''disconnect'', ''user'', u]) users"
    using assms(2)
  proof (induction users arbitrary: w)
    case (Cons u users)
    obtain r w1 where 1: "kick h c u False w = (Inr r, w1)" "extends w w1"
        "filter names_a_user (questions w w1) = [[''disconnect'', ''user'', u]]"
      using kick_questions [OF assms(1)] Cons.prems by (metis list.set_intros(1))
    obtain rs w2 where 2: "action_map (\<lambda>u. kick h c u False) users w1 = (Inr rs, w2)" "extends w1 w2"
        "filter names_a_user (questions w1 w2) = map (\<lambda>u. [''disconnect'', ''user'', u]) users"
      using Cons by (metis list.set_intros(2))
    show ?case
      using 1 2 questions_trans [OF 1(2) 2(2)] extends_trans [OF 1(2) 2(2)] by (simp add: andthen_def ret_def)
  qed (simp add: ret_def questions_def map_filter_simps)
  then show ?thesis by (auto simp: disconnect_dns_clients_def andthen_def ret_def)
qed

text \<open>C20. When the DNS of the clients is applied and ocserv takes the new settings, the users handed to
  the task that follows are exactly those with a session, each once, and the task asks to
  disconnect each of them by name once, in this order, and nobody else. When ocserv does not
  take them, nobody is disconnected.\<close>

theorem dns_change_reconnects_every_client:
  assumes "sockets_named h" "ip_network False (ipv4_network (app_server c)) = Inr net"
    and "reconnect_users h c w = (Inr (r, users), w1)"
  shows "(\<exists>w0. server_reload (sh_env h) False w = (Inr r, w0)
      \<and> (if ok r then \<exists>ss. list_sessions h c w0 = (Inr ss, w1) \<and> users = uniq [] (map sr_username ss) else users = [] \<and> w1 = w0))
    \<and> (\<exists>w2. disconnect_dns_clients h c users w1 = (Inr (), w2)
        \<and> filter names_a_user (questions w1 w2) = map (\<lambda>u. [''disconnect'', ''user'', u]) users)"
proof -
  obtain w0 where w0: "server_reload (sh_env h) False w = (Inr r, w0)"
    using assms(3) by (auto simp: reconnect_users_def andthen_def ret_def split: prod.splits sum.splits)
  obtain ss w' where l: "list_sessions h c w0 = (Inr ss, w')" "named_sessions ss"
    using listing_named [OF assms(1,2)] by blast
  have w1: "if ok r then w1 = w' \<and> users = uniq [] (map sr_username ss) else w1 = w0 \<and> users = []"
    using assms(3) w0 l(1) by (auto simp: reconnect_users_def andthen_def ret_def)
  have "[] \<notin> set users" using w1 l(2) by (auto simp: named_sessions_def split: if_splits)
  then obtain w2 where "disconnect_dns_clients h c users w1 = (Inr (), w2)"
      "filter names_a_user (questions w1 w2) = map (\<lambda>u. [''disconnect'', ''user'', u]) users"
    using disconnect_questions [OF assms(1)] by blast
  then show ?thesis using w0 l(1) w1 by (auto split: if_splits)
qed


section \<open>Where settings are lost\<close>

text \<open>Nothing is validated before the file is written: settings that do not load leave a file that the
  next start refuses as well, and the panel goes on with the earlier configuration, which is no
  longer in the file. A change by \<open>apply_config_patch\<close> is refused without writing.\<close>

theorem certificate_settings_can_break_the_file:
  assumes "load_yaml_mapping ed (pc_world s) = Inr data" "section_of data ''certificates'' = Inr sec"
    and "update_certificate_config ed env patch s = (Inl e, s')"
  shows "files (pc_world s') (ed_path ed) = Some (ed_dump ed (JDict (AList.update ''certificates'' (JDict (updated sec patch)) data)))"
    and "load_config (ed_loader ed) (Some (ed_path ed)) None [] (ed_environ ed) (pc_world s') = Inl e"
    and "pc_config s' = pc_config s"
proof -
  obtain r' where st: "store_config ed env (AList.update ''certificates'' (JDict (updated sec patch)) data) False s = (r', s')"
      "Inl e = (case r' of Inr (c, _) \<Rightarrow> Inr c | Inl e \<Rightarrow> Inl e)"
    using assms
    by (auto simp: update_certificate_config_def replace_in_section_def on_world_def current_def lift_result_def
        andthen_def ret_def split: prod.splits sum.splits)
  show "files (pc_world s') (ed_path ed) = Some (ed_dump ed (JDict (AList.update ''certificates'' (JDict (updated sec patch)) data)))"
    and "load_config (ed_loader ed) (Some (ed_path ed)) None [] (ed_environ ed) (pc_world s') = Inl e"
    and "pc_config s' = pc_config s"
    using store_config_plain [OF st(1)] st(2) by (auto split: sum.splits)
qed

text \<open>Installing a certificate from outside replaces the whole section of Let's Encrypt by the switch that
  turns it off: the address, the domains and the renewal settings are gone from the file.\<close>

theorem external_upload_forgets_letsencrypt:
  "map_of (updated sec (paths_patch a b d @ [(''letsencrypt'', JDict [(''enabled'', JBool False)])])) ''letsencrypt''
    = Some (JDict [(''enabled'', JBool False)])"
  by (simp add: map_of_updated paths_patch_def)

text \<open>An identity provider edited without sending its secret again is stored without one.\<close>

theorem editing_a_provider_drops_its_secret:
  assumes "check_oidc_provider form = Inr p" "client_secret form = None"
  shows "save_oidc_provider ed env form s = apply_config_patch ed env
      (providers_patch (other_providers (pc_config s) (op_name p) @ [p])) True s"
    and "map_of (provider_dump p) ''client_secret'' = Some JNull"
proof -
  have "client_secret p = None" using assms by (auto simp: check_oidc_provider_def res_bind_Inr_iff)
  then show "map_of (provider_dump p) ''client_secret'' = Some JNull" by (simp add: provider_dump_def str_json_def)
qed (simp add: save_oidc_provider_def with_config_def andthen_def lift_result_def assms(1))

text \<open>The file of a group and its members are gone before the change of the configuration is checked:
  when that is refused, as it is for the group selected by default, the group is left half deleted.\<close>

theorem refused_deletion_is_half_done:
  assumes "username_re n" "delete_group_config (pc_config s) n (pc_world s) = (Inr gone, w1)"
    and "clear_members (pc_config s) n w1 = (Inr ms, w2)"
    and "validate_yaml_config ed (deep_merge old (policies_patch (other_policies (pc_config s) n))) w2 = Inl e"
    and "load_existing_mapping ed w2 = Inr old"
  shows "delete_group ed env n s = (Inl e, s\<lparr>pc_world := w2\<rparr>)"
  using assms by (simp add: delete_group_def with_config_def on_world_def andthen_def lift_result_def current_def
      apply_config_patch_def Let_def)

section \<open>Witnesses\<close>

lemma certificate_edit_replaces_only_its_keys_witness:
  "\<exists>r s' data' sec'. update_certificate_config json_editor sample_env [(''ca_name'', JStr ''Korvus'')] sample_panel = (r, s')
    \<and> load_yaml_mapping json_editor (pc_world s') = Inr data' \<and> map_of data' ''certificates'' = Some (JDict sec')
    \<and> map_of sec' ''ca_name'' = Some (JStr ''Korvus'')"
proof -
  have d: "load_yaml_mapping json_editor (pc_world sample_panel) = Inr []" "section_of [] ''certificates'' = Inr []"
    by (simp_all add: load_yaml_mapping_def sample_panel_def sample_world_def section_of_def)
  obtain r s' where u: "update_certificate_config json_editor sample_env [(''ca_name'', JStr ''Korvus'')] sample_panel = (r, s')"
    by (cases "update_certificate_config json_editor sample_env [(''ca_name'', JStr ''Korvus'')] sample_panel")
  obtain data' sec' where "load_yaml_mapping json_editor (pc_world s') = Inr data'"
      "map_of data' ''certificates'' = Some (JDict sec')"
      "\<forall>k. map_of sec' k = (case map_of [(''ca_name'', JStr ''Korvus'')] k of Some v \<Rightarrow> Some v | None \<Rightarrow> map_of [] k)"
    using certificate_edit_replaces_only_its_keys [OF json_editor_law d _ _ u] by auto
  with u show ?thesis by auto
qed

lemma dns_change_reconnects_every_client_witness:
  "\<exists>r w1 w2. reconnect_users table_host sample_app sample_world = (Inr (r, [''alice'']), w1) \<and> ok r
    \<and> disconnect_dns_clients table_host sample_app [''alice''] w1 = (Inr (), w2)
    \<and> filter names_a_user (questions w1 w2) = [[''disconnect'', ''user'', ''alice'']]"
proof -
  have "\<exists>r w0. server_reload (sh_env table_host) False sample_world = (Inr r, w0) \<and> ok r"
    by (simp add: server_reload_def run_rpc_def signal_process_def rpc_call_def table_host_def table_env_def sample_env_def
        rpc_result_def ok_def andthen_def ret_def happen_def current_def Let_def)
  then obtain r w0 where r: "server_reload (sh_env table_host) False sample_world = (Inr r, w0)" "ok r" by blast
  obtain w1 where l: "list_sessions table_host sample_app w0 = (Inr [alice], w1)" using table_listing by blast
  have run: "reconnect_users table_host sample_app sample_world = (Inr (r, [''alice'']), w1)"
    using r l by (simp add: reconnect_users_def andthen_def ret_def alice_def bare_session_def)
  show ?thesis
    using dns_change_reconnects_every_client [OF table_host_named sample_network run] run r(2) by auto
qed

end
